(* ===== verification/Prelude.thy ===== *)
theory Prelude
  imports Main "HOL-Library.Sublist" "HOL-Library.Char_ord" "HOL-Library.List_Lexorder" "HOL-Library.AList"
begin

text \<open>
  Shared vocabulary of the development.

  A Go string is a list of bytes, the HOL type \<^typ>\<open>string\<close>. A Go function that returns
  \<open>(T, error)\<close> is a function into \<open>'e + 'a\<close> with \<open>Inl\<close> for the error. This theory
  holds the helpers of the Go packages \<open>strings\<close> and \<open>strconv\<close> that the sources use, the
  theorem collections of the development, and the generic lemmas the components share.
\<close>

named_theorems go_string \<open>facts on the string helpers\<close>
named_theorems io_rule \<open>specification rules of the fault-prone input/output monad\<close>
named_theorems alist_simp \<open>lookups in association lists after an update\<close>

section \<open>Results\<close>

type_synonym ('e, 'a) result = "'e + 'a"

fun res_bind :: "('e, 'a) result \<Rightarrow> ('a \<Rightarrow> ('e, 'b) result) \<Rightarrow> ('e, 'b) result" where
  "res_bind (Inl e) f = Inl e"
| "res_bind (Inr a) f = f a"

lemma res_bind_Inr [simp]: "res_bind m f = Inr b \<longleftrightarrow> (\<exists>a. m = Inr a \<and> f a = Inr b)"
  by (cases m) auto

lemma res_bind_Inl: "res_bind m f = Inl e \<longleftrightarrow> m = Inl e \<or> (\<exists>a. m = Inr a \<and> f a = Inl e)"
  by (cases m) auto

fun is_ok :: "('e, 'a) result \<Rightarrow> bool" where
  "is_ok (Inr _) = True"
| "is_ok (Inl _) = False"

lemma is_ok_iff: "is_ok r \<longleftrightarrow> (\<exists>a. r = Inr a)"
  by (cases r) auto

text \<open>A loop whose body may fail: it stops at the first error.\<close>

fun res_foldl :: "('s \<Rightarrow> 'a \<Rightarrow> ('e, 's) result) \<Rightarrow> 's \<Rightarrow> 'a list \<Rightarrow> ('e, 's) result" where
  "res_foldl f s [] = Inr s"
| "res_foldl f s (x # xs) = res_bind (f s x) (\<lambda>s'. res_foldl f s' xs)"

lemma res_foldl_append:
  "res_foldl f s (xs @ ys) = res_bind (res_foldl f s xs) (\<lambda>s'. res_foldl f s' ys)"
proof (induction xs arbitrary: s)
  case (Cons x xs)
  then show ?case by (cases "f s x") auto
qed simp

lemma res_foldl_inv:
  assumes step: "\<And>s x s'. I s \<Longrightarrow> f s x = Inr s' \<Longrightarrow> I s'"
  shows "I s \<Longrightarrow> res_foldl f s xs = Inr t \<Longrightarrow> I t"
proof (induction xs arbitrary: s)
  case (Cons x xs)
  from Cons.prems(2) obtain s' where s': "f s x = Inr s'" "res_foldl f s' xs = Inr t" by auto
  from step [OF Cons.prems(1) s'(1)] s'(2) show ?case by (rule Cons.IH)
qed simp

section \<open>Characters\<close>

definition is_digit :: "char \<Rightarrow> bool" where
  "is_digit c \<longleftrightarrow> 48 \<le> (of_char c :: nat) \<and> (of_char c :: nat) \<le> 57"

definition is_upper :: "char \<Rightarrow> bool" where
  "is_upper c \<longleftrightarrow> 65 \<le> (of_char c :: nat) \<and> (of_char c :: nat) \<le> 90"

definition is_lower :: "char \<Rightarrow> bool" where
  "is_lower c \<longleftrightarrow> 97 \<le> (of_char c :: nat) \<and> (of_char c :: nat) \<le> 122"

definition is_alnum :: "char \<Rightarrow> bool" where
  "is_alnum c \<longleftrightarrow> is_digit c \<or> is_upper c \<or> is_lower c"

definition to_lower_char :: "char \<Rightarrow> char" where
  "to_lower_char c = (if is_upper c then char_of ((of_char c :: nat) + 32) else c)"

lemmas char_class = is_digit_def is_upper_def is_lower_def is_alnum_def

lemma of_char_lt [simp]: "(of_char c :: nat) < 256"
  by simp

lemma of_char_to_lower:
  "(of_char (to_lower_char c) :: nat) = (if is_upper c then of_char c + 32 else of_char c)"
  by (auto simp: to_lower_char_def is_upper_def)

lemma is_upper_to_lower [simp]: "\<not> is_upper (to_lower_char c)"
  by (auto simp: is_upper_def of_char_to_lower)

lemma is_alnum_to_lower [simp]: "is_alnum (to_lower_char c) \<longleftrightarrow> is_alnum c"
  by (auto simp: char_class of_char_to_lower)

text \<open>\<open>strings.ToLower\<close>, on the ASCII letters the sources lower.\<close>

definition ToLower :: "string \<Rightarrow> string" where
  "ToLower s = map to_lower_char s"

lemma length_ToLower [simp]: "length (ToLower s) = length s"
  by (simp add: ToLower_def)

lemma to_lower_idem [simp]: "to_lower_char (to_lower_char c) = to_lower_char c"
  by (simp add: to_lower_char_def [of "to_lower_char c"])

lemma ToLower_idem [simp]: "ToLower (ToLower s) = ToLower s"
  by (simp add: ToLower_def)

lemma ToLower_simps [simp]: "ToLower [] = []" "ToLower (c # s) = to_lower_char c # ToLower s"
  "ToLower (s @ t) = ToLower s @ ToLower t"
  by (simp_all add: ToLower_def)

section \<open>The package strings\<close>

definition HasPrefix :: "string \<Rightarrow> string \<Rightarrow> bool" where
  "HasPrefix s p \<longleftrightarrow> take (length p) s = p"

lemma HasPrefix_iff [go_string]: "HasPrefix s p \<longleftrightarrow> (\<exists>t. s = p @ t)"
  by (metis HasPrefix_def append_eq_conv_conj append_take_drop_id)

lemma HasPrefix_append [simp]: "HasPrefix (p @ t) p"
  by (simp add: HasPrefix_def)

definition HasSuffix :: "string \<Rightarrow> string \<Rightarrow> bool" where
  "HasSuffix s p \<longleftrightarrow> length p \<le> length s \<and> drop (length s - length p) s = p"

lemma HasSuffix_iff [go_string]: "HasSuffix s p \<longleftrightarrow> (\<exists>t. s = t @ p)"
  unfolding HasSuffix_def
  by (metis append_eq_conv_conj append_take_drop_id diff_diff_cancel diff_le_self
      length_append length_drop le_add2 add_diff_cancel_right')

definition TrimSuffix :: "string \<Rightarrow> string \<Rightarrow> string" where
  "TrimSuffix s p = (if HasSuffix s p then take (length s - length p) s else s)"

lemma TrimSuffix_append [simp]: "TrimSuffix (t @ p) p = t"
  by (simp add: TrimSuffix_def HasSuffix_def)

text \<open>\<open>strings.Index\<close>: the first position of a substring.\<close>

fun IndexOf :: "string \<Rightarrow> string \<Rightarrow> nat option" where
  "IndexOf [] p = (if p = [] then Some 0 else None)"
| "IndexOf (c # s) p = (if HasPrefix (c # s) p then Some 0 else map_option Suc (IndexOf s p))"

definition Contains :: "string \<Rightarrow> string \<Rightarrow> bool" where
  "Contains s p \<longleftrightarrow> IndexOf s p \<noteq> None"

lemma IndexOf_Some:
  "IndexOf s p = Some i \<Longrightarrow> i + length p \<le> length s \<and> take (length p) (drop i s) = p"
proof (induction s arbitrary: i)
  case Nil
  then show ?case by (auto split: if_splits)
next
  case (Cons c s)
  show ?case
  proof (cases "HasPrefix (c # s) p")
    case True
    with Cons.prems have "i = 0" by simp
    moreover from True obtain t where "c # s = p @ t" by (auto simp: HasPrefix_iff)
    then have "length p \<le> length (c # s)" by simp
    ultimately show ?thesis using True by (simp add: HasPrefix_def)
  next
    case False
    with Cons show ?thesis by auto
  qed
qed

lemma IndexOf_append: "IndexOf (s @ p @ t) p \<noteq> None"
proof (induction s)
  case Nil
  have "HasPrefix (p @ t) p" by simp
  then show ?case by (cases "p @ t") auto
next
  case (Cons c s)
  then show ?case by simp
qed

lemma Contains_iff [go_string]: "Contains s p \<longleftrightarrow> (\<exists>u v. s = u @ p @ v)"
proof
  assume "Contains s p"
  then obtain i where "IndexOf s p = Some i" by (auto simp: Contains_def)
  then have "s = take i s @ p @ drop (length p) (drop i s)"
    by (metis IndexOf_Some append_take_drop_id)
  then show "\<exists>u v. s = u @ p @ v" by blast
next
  assume "\<exists>u v. s = u @ p @ v"
  then show "Contains s p" by (force simp: Contains_def IndexOf_append simp del: not_None_eq)
qed

text \<open>\<open>strings.LastIndex\<close> of one byte: the part before it and the part after it.\<close>

fun split_last :: "char \<Rightarrow> string \<Rightarrow> (string \<times> string) option" where
  "split_last c [] = None"
| "split_last c (x # xs) =
     (case split_last c xs of
        Some (a, b) \<Rightarrow> Some (x # a, b)
      | None \<Rightarrow> if x = c then Some ([], xs) else None)"

lemma split_last_None: "split_last c s = None \<longleftrightarrow> c \<notin> set s"
  by (induction s) (auto split: option.splits)

lemma split_last_Some:
  "split_last c s = Some (a, b) \<longleftrightarrow> s = a @ c # b \<and> c \<notin> set b"
proof (induction s arbitrary: a b)
  case Nil
  then show ?case by simp
next
  case (Cons x xs)
  show ?case
  proof (cases "split_last c xs")
    case None
    then have c: "c \<notin> set xs" by (simp add: split_last_None)
    show ?thesis
    proof
      assume "split_last c (x # xs) = Some (a, b)"
      with None have "x = c \<and> a = [] \<and> b = xs" by (simp split: if_splits)
      with c show "x # xs = a @ c # b \<and> c \<notin> set b" by simp
    next
      assume eq: "x # xs = a @ c # b \<and> c \<notin> set b"
      with c have "a = []" by (cases a) auto
      with eq None show "split_last c (x # xs) = Some (a, b)" by simp
    qed
  next
    case (Some ab)
    obtain a' b' where ab: "ab = (a', b')" by force
    with Some have "split_last c xs = Some (a', b')" by simp
    with Cons.IH [of a' b'] have xs: "xs = a' @ c # b'" "c \<notin> set b'" by auto
    show ?thesis
    proof
      assume "split_last c (x # xs) = Some (a, b)"
      with Some ab have "a = x # a'" "b = b'" by auto
      with xs show "x # xs = a @ c # b \<and> c \<notin> set b" by simp
    next
      assume eq: "x # xs = a @ c # b \<and> c \<notin> set b"
      then have "a \<noteq> []" using xs(1) by (metis append_Nil in_set_conv_decomp list.inject)
      then obtain a'' where a: "a = x # a''" using eq by (cases a) auto
      with eq Cons.IH have "split_last c xs = Some (a'', b)" by simp
      with a show "split_last c (x # xs) = Some (a, b)" by simp
    qed
  qed
qed

text \<open>\<open>strings.Cut\<close>: before and after the first occurrence of a separator.\<close>

definition Cut :: "string \<Rightarrow> string \<Rightarrow> (string \<times> string) option" where
  "Cut s sep = (case IndexOf s sep of
     None \<Rightarrow> None
   | Some i \<Rightarrow> Some (take i s, drop (i + length sep) s))"

lemma Cut_Some: "Cut s sep = Some (a, b) \<Longrightarrow> s = a @ sep @ b"
proof -
  assume "Cut s sep = Some (a, b)"
  then obtain i where i: "IndexOf s sep = Some i" and ab: "a = take i s" "b = drop (i + length sep) s"
    by (auto simp: Cut_def split: option.splits)
  from IndexOf_Some [OF i] have "drop i s = sep @ drop (i + length sep) s"
    by (metis append_take_drop_id drop_drop add.commute)
  then show ?thesis using ab by (metis append_take_drop_id)
qed

text \<open>\<open>strings.TrimSpace\<close>, on ASCII white space.\<close>

definition is_space :: "char \<Rightarrow> bool" where
  "is_space c \<longleftrightarrow> (of_char c :: nat) \<in> {9, 10, 11, 12, 13, 32}"

definition TrimSpace :: "string \<Rightarrow> string" where
  "TrimSpace s = rev (dropWhile is_space (rev (dropWhile is_space s)))"

lemma dropWhile_none: "(\<And>c. c \<in> set s \<Longrightarrow> \<not> P c) \<Longrightarrow> dropWhile P s = s"
  by (cases s) auto

lemma TrimSpace_id:
  assumes "\<And>c. c \<in> set s \<Longrightarrow> \<not> is_space c"
  shows "TrimSpace s = s"
proof -
  have "dropWhile is_space s = s" "dropWhile is_space (rev s) = rev s"
    using assms by (auto intro!: dropWhile_none)
  then show ?thesis by (simp add: TrimSpace_def)
qed

text \<open>\<open>strings.Split\<close> and \<open>strings.Join\<close> with a newline.\<close>

fun split_lines :: "string \<Rightarrow> string list" where
  "split_lines [] = [[]]"
| "split_lines (c # s) = (if c = CHR 10 then [] # split_lines s
     else case split_lines s of l # ls \<Rightarrow> (c # l) # ls | [] \<Rightarrow> [[c]])"

fun join_lines :: "string list \<Rightarrow> string" where
  "join_lines [] = []"
| "join_lines [l] = l"
| "join_lines (l # ls) = l @ CHR 10 # join_lines ls"

lemma split_lines_ne [simp]: "split_lines s \<noteq> []"
  by (cases s) (auto split: list.split)

lemma split_lines_newline: "split_lines (s @ [CHR 10]) = split_lines s @ [[]]"
  by (induction s) (auto split: list.splits)

lemma split_lines_snoc:
  "c \<noteq> CHR 10 \<Longrightarrow> split_lines (s @ [c]) = butlast (split_lines s) @ [last (split_lines s) @ [c]]"
  by (induction s) (auto split: list.splits)

section \<open>The package strconv\<close>

definition digit_char :: "nat \<Rightarrow> char" where
  "digit_char d = char_of (48 + d)"

definition digit_val :: "char \<Rightarrow> nat" where
  "digit_val c = (of_char c :: nat) - 48"

lemma digit_val_char [simp]: "d < 10 \<Longrightarrow> digit_val (digit_char d) = d"
  by (simp add: digit_val_def digit_char_def)

lemma is_digit_char [simp]: "d < 10 \<Longrightarrow> is_digit (digit_char d)"
  by (simp add: is_digit_def digit_char_def)

text \<open>\<open>strconv.Itoa\<close> and the verb \<open>%d\<close>, for non-negative numbers.\<close>

fun Itoa :: "nat \<Rightarrow> string" where
  "Itoa n = (if n < 10 then [digit_char n] else Itoa (n div 10) @ [digit_char (n mod 10)])"

declare Itoa.simps [simp del]

definition parse_digits :: "string \<Rightarrow> nat" where
  "parse_digits s = foldl (\<lambda>n c. 10 * n + digit_val c) 0 s"

lemma parse_digits_snoc [simp]: "parse_digits (s @ [c]) = 10 * parse_digits s + digit_val c"
  by (simp add: parse_digits_def)

lemma parse_digits_Itoa [simp]: "parse_digits (Itoa n) = n"
proof (induction n rule: Itoa.induct)
  case (1 n)
  show ?case
  proof (cases "n < 10")
    case True
    then show ?thesis by (subst Itoa.simps) (simp add: parse_digits_def)
  next
    case False
    with 1 show ?thesis by (subst Itoa.simps) simp
  qed
qed

lemma Itoa_inj [simp]: "Itoa m = Itoa n \<longleftrightarrow> m = n"
  by (metis parse_digits_Itoa)

lemma Itoa_digits: "c \<in> set (Itoa n) \<Longrightarrow> is_digit c"
proof (induction n rule: Itoa.induct)
  case (1 n)
  show ?case
  proof (cases "n < 10")
    case True
    with "1.prems" show ?thesis by (subst (asm) Itoa.simps) simp
  next
    case False
    with 1 show ?thesis by (subst (asm) Itoa.simps) auto
  qed
qed

lemma Itoa_ne [simp]: "Itoa n \<noteq> []"
  by (subst Itoa.simps) simp

lemma is_digit_not_space: "is_digit c \<Longrightarrow> \<not> is_space c"
  by (auto simp: is_digit_def is_space_def)

lemma TrimSpace_Itoa [simp]: "TrimSpace (Itoa n) = Itoa n"
  by (rule TrimSpace_id) (blast dest: Itoa_digits is_digit_not_space)

text \<open>
  \<open>strconv.Atoi\<close>: an optional sign, then decimal digits, then the range check of a
  64-bit \<open>int\<close>. \<open>None\<close> stands for its error.
\<close>

definition Atoi :: "string \<Rightarrow> int option" where
  "Atoi s =
     (let neg = (s \<noteq> [] \<and> hd s = CHR ''-'');
          ds = (if s \<noteq> [] \<and> (hd s = CHR ''-'' \<or> hd s = CHR ''+'') then tl s else s);
          v = (if neg then - int (parse_digits ds) else int (parse_digits ds))
      in if ds = [] \<or> \<not> list_all is_digit ds then None
         else if v < - (2 ^ 63) \<or> 2 ^ 63 \<le> v then None
         else Some v)"

lemma hd_Itoa_digit: "is_digit (hd (Itoa n))"
  using Itoa_digits Itoa_ne hd_in_set by blast

lemma not_digit_signs [simp]: "\<not> is_digit CHR ''-''" "\<not> is_digit CHR ''+''"
  by (simp_all add: is_digit_def)

lemma Atoi_Itoa: "int n < 2 ^ 63 \<Longrightarrow> Atoi (Itoa n) = Some (int n)"
proof -
  assume n: "int n < 2 ^ 63"
  have "hd (Itoa n) \<noteq> CHR ''-''" "hd (Itoa n) \<noteq> CHR ''+''"
    using hd_Itoa_digit [of n] by auto
  moreover have "list_all is_digit (Itoa n)"
    by (auto simp: list_all_iff dest: Itoa_digits)
  ultimately show ?thesis using n by (simp add: Atoi_def Let_def)
qed

section \<open>Association lists\<close>

lemma map_of_update [alist_simp, simp]: "map_of (AList.update k v d) = (map_of d)(k \<mapsto> v)"
  by (rule AList.update_conv')

lemma map_of_delete [alist_simp, simp]: "map_of (AList.delete k d) = (map_of d)(k := None)"
  by (rule AList.delete_conv')

lemma distinct_keys_update [simp]:
  "distinct (map fst d) \<Longrightarrow> distinct (map fst (AList.update k v d))"
  by (rule AList.distinct_update)

lemma distinct_keys_delete [simp]:
  "distinct (map fst d) \<Longrightarrow> distinct (map fst (AList.delete k d))"
  by (rule AList.distinct_delete)

lemma map_of_filter_key:
  "map_of (filter (\<lambda>e. P (fst e)) d) k = (if P k then map_of d k else None)"
  by (induction d) auto

lemma distinct_keys_filter [simp]:
  "distinct (map fst d) \<Longrightarrow> distinct (map fst (filter P d))"
  by (induction d) auto

lemma map_of_filter_entry:
  assumes "distinct (map fst d)"
  shows "map_of (filter P d) k =
    (case map_of d k of Some v \<Rightarrow> if P (k, v) then Some v else None | None \<Rightarrow> None)"
  using assms by (induction d) (auto split: option.splits simp: map_of_eq_None_iff rev_image_eqI)

end
