(* ===== verification/Names.thy ===== *)
theory Names
  imports Prelude
begin

text \<open>
  Names of sandboxes, principals and runtime instances: \<open>internal/config/names.go\<close> and
  \<open>InstanceName\<close> of \<open>store/paths.go\<close>. The regular expressions of the source are executable
  recognisers; \<open>sandboxNameRe_grammar\<close> relates the main one to the grammar its comment
  describes (alphanumeric runs joined by single separators). Panics of the source are errors of
  the result type.
\<close>

section \<open>Constants and grammars\<close>

definition MaxNameLength :: nat where "MaxNameLength = 56"
definition MaxPrincipalLength :: nat where "MaxPrincipalLength = 8"

text \<open>containerd's own bound on identifiers, quoted in the comment on \<open>MaxNameLength\<close>.\<close>

definition containerdMaxLength :: nat where "containerdMaxLength = 76"

definition is_sep :: "char \<Rightarrow> bool" where
  "is_sep c \<longleftrightarrow> c = CHR ''.'' \<or> c = CHR ''_'' \<or> c = CHR ''-''"

text \<open>\<open>^[a-zA-Z0-9][a-zA-Z0-9_.-]*$\<close>\<close>

fun ValidNameRe :: "string \<Rightarrow> bool" where
  "ValidNameRe [] = False"
| "ValidNameRe (c # cs) = (is_alnum c \<and> list_all (\<lambda>x. is_alnum x \<or> is_sep x) cs)"

text \<open>\<open>^[A-Za-z0-9]+(?:[._-][A-Za-z0-9]+)*$\<close>: \<open>in_run\<close> is the state inside a run.\<close>

fun name_automaton :: "bool \<Rightarrow> string \<Rightarrow> bool" where
  "name_automaton in_run [] = in_run"
| "name_automaton in_run (c # cs) =
     (if is_alnum c then name_automaton True cs
      else if in_run \<and> is_sep c then name_automaton False cs
      else False)"

definition sandboxNameRe :: "string \<Rightarrow> bool" where
  "sandboxNameRe s = name_automaton False s"

text \<open>\<open>^[A-Za-z0-9]+$\<close>\<close>

definition principalSegmentRe :: "string \<Rightarrow> bool" where
  "principalSegmentRe s \<longleftrightarrow> s \<noteq> [] \<and> list_all is_alnum s"

section \<open>Parsing\<close>

datatype name_error =
    NameRequired
  | LooksLikePath string
  | NameTooLong nat nat
  | BadNameGrammar string
  | PrincipalRequired
  | PrincipalTooLong string nat nat
  | BadPrincipal string
  | EmptyPrincipalPanic

definition ParseSandboxName :: "string \<Rightarrow> (name_error, string) result" where
  "ParseSandboxName name =
     (if name = [] then Inl NameRequired
      else if hd name = CHR ''/'' \<or> hd name = CHR 0x5C then Inl (LooksLikePath name)
      else if length name > MaxNameLength then Inl (NameTooLong MaxNameLength (length name))
      else if \<not> sandboxNameRe name then Inl (BadNameGrammar name)
      else Inr name)"

definition hostname_char :: "char \<Rightarrow> char" where
  "hostname_char c = (if c = CHR ''_'' \<or> c = CHR ''.'' then CHR ''-'' else c)"

definition SanitizeHostname :: "string \<Rightarrow> string" where
  "SanitizeHostname name = map hostname_char (ToLower name)"

definition CLIPrincipal :: string where "CLIPrincipal = ''cli''"

definition InstancePrefix :: "string \<Rightarrow> (name_error, string) result" where
  "InstancePrefix p =
     (if p = [] then Inl EmptyPrincipalPanic else Inr (''yoloai-'' @ p @ ''-''))"

definition ParsePrincipalSegment :: "string \<Rightarrow> (name_error, string) result" where
  "ParsePrincipalSegment p =
     (if p = [] then Inl PrincipalRequired
      else if length p > MaxPrincipalLength
        then Inl (PrincipalTooLong p MaxPrincipalLength (length p))
      else if \<not> principalSegmentRe p then Inl (BadPrincipal p)
      else Inr p)"

definition InstanceName :: "string \<Rightarrow> string \<Rightarrow> (name_error, string) result" where
  "InstanceName p name = res_bind (InstancePrefix p) (\<lambda>pre. Inr (pre @ name))"

definition LegacyCLIInstanceName :: "string \<Rightarrow> string" where
  "LegacyCLIInstanceName name = ''yoloai-'' @ name"

section \<open>The grammar behind the automaton\<close>

definition alnum_run :: "string \<Rightarrow> bool" where
  "alnum_run s \<longleftrightarrow> s \<noteq> [] \<and> list_all is_alnum s"

definition joined_runs :: "string \<Rightarrow> (char \<times> string) list \<Rightarrow> string" where
  "joined_runs r rs = r @ concat (map (\<lambda>(c, s). c # s) rs)"

lemma is_sep_not_alnum [simp]: "is_sep c \<Longrightarrow> \<not> is_alnum c"
  by (auto simp: is_sep_def char_class)

lemma automaton_run [simp]:
  "list_all is_alnum r \<Longrightarrow> name_automaton True (r @ s) = name_automaton True s"
  by (induction r) auto

lemma automaton_start_run:
  "alnum_run r \<Longrightarrow> name_automaton b (r @ s) = name_automaton True s"
  by (cases r) (auto simp: alnum_run_def)

lemma automaton_runs:
  "list_all (\<lambda>(c, s). is_sep c \<and> alnum_run s) rs \<Longrightarrow>
   name_automaton True (concat (map (\<lambda>(c, s). c # s) rs))"
  by (induction rs) (auto simp: automaton_start_run)

lemma automaton_True_decompose:
  assumes "name_automaton b s"
  shows "if b then \<exists>r rs. s = joined_runs r rs \<and> list_all is_alnum r \<and>
             list_all (\<lambda>(c, s). is_sep c \<and> alnum_run s) rs
         else \<exists>r rs. s = joined_runs r rs \<and> alnum_run r \<and>
             list_all (\<lambda>(c, s). is_sep c \<and> alnum_run s) rs"
  using assms
proof (induction b s rule: name_automaton.induct)
  case (1 b)
  then show ?case by (auto simp: joined_runs_def intro!: exI [of _ "[]"])
next
  case (2 b c cs)
  show ?case
  proof (cases "is_alnum c")
    case True
    with 2 obtain r rs where "cs = joined_runs r rs" "list_all is_alnum r"
      "list_all (\<lambda>(c, s). is_sep c \<and> alnum_run s) rs" by fastforce
    with True show ?thesis
      by (auto simp: joined_runs_def alnum_run_def intro!: exI [of _ "c # r"] exI [of _ rs])
  next
    case False
    with 2 have b: "b" "is_sep c" "name_automaton False cs" by (auto split: if_splits)
    with 2 False obtain r rs where "cs = joined_runs r rs" "alnum_run r"
      "list_all (\<lambda>(c, s). is_sep c \<and> alnum_run s) rs" by fastforce
    with b show ?thesis
      by (auto simp: joined_runs_def intro!: exI [of _ "[]"] exI [of _ "(c, r) # rs"])
  qed
qed

lemma sandboxNameRe_grammar:
  "sandboxNameRe s \<longleftrightarrow>
     (\<exists>r rs. s = joined_runs r rs \<and> alnum_run r \<and>
        list_all (\<lambda>(c, s). is_sep c \<and> alnum_run s) rs)"
proof
  assume "sandboxNameRe s"
  then show "\<exists>r rs. s = joined_runs r rs \<and> alnum_run r \<and>
      list_all (\<lambda>(c, s). is_sep c \<and> alnum_run s) rs"
    using automaton_True_decompose [of False s] by (simp add: sandboxNameRe_def)
next
  assume "\<exists>r rs. s = joined_runs r rs \<and> alnum_run r \<and>
      list_all (\<lambda>(c, s). is_sep c \<and> alnum_run s) rs"
  then show "sandboxNameRe s"
    by (auto simp: sandboxNameRe_def joined_runs_def automaton_start_run automaton_runs)
qed

section \<open>What a parsed name guarantees\<close>

lemma automaton_chars: "name_automaton b s \<Longrightarrow> c \<in> set s \<Longrightarrow> is_alnum c \<or> is_sep c"
  by (induction b s rule: name_automaton.induct) (auto split: if_splits)

lemma automaton_last: "name_automaton b s \<Longrightarrow> s \<noteq> [] \<Longrightarrow> is_alnum (last s)"
  by (induction b s rule: name_automaton.induct) (auto split: if_splits)

lemma automaton_False_hd: "name_automaton False s \<Longrightarrow> s \<noteq> [] \<and> is_alnum (hd s)"
  by (cases s) (auto split: if_splits)

lemma automaton_append_sep:
  "alnum_run r \<Longrightarrow> is_sep c \<Longrightarrow> name_automaton b (r @ c # s) = name_automaton False s"
  by (simp add: automaton_start_run)

lemma ParseSandboxName_Inr:
  "ParseSandboxName name = Inr n \<longleftrightarrow>
     n = name \<and> sandboxNameRe name \<and> length name \<le> MaxNameLength"
proof -
  have "sandboxNameRe name \<Longrightarrow> name \<noteq> [] \<and> hd name \<noteq> CHR ''/'' \<and> hd name \<noteq> CHR 0x5C"
    using automaton_False_hd [of name] by (auto simp: sandboxNameRe_def char_class)
  then show ?thesis by (auto simp: ParseSandboxName_def)
qed

lemma ParsePrincipalSegment_Inr:
  "ParsePrincipalSegment p = Inr q \<longleftrightarrow>
     q = p \<and> alnum_run p \<and> length p \<le> MaxPrincipalLength"
  by (auto simp: ParsePrincipalSegment_def principalSegmentRe_def alnum_run_def)

lemma alnum_not_sep: "is_alnum c \<Longrightarrow> c \<noteq> CHR ''-''"
  by (auto simp: char_class)

lemma run_dash_inj:
  assumes "alnum_run p" "alnum_run q" and eq: "p @ CHR ''-'' # m = q @ CHR ''-'' # n"
  shows "p = q \<and> m = n"
proof -
  have "takeWhile (\<lambda>c. c \<noteq> CHR ''-'') (p @ CHR ''-'' # m) = p"
    and "takeWhile (\<lambda>c. c \<noteq> CHR ''-'') (q @ CHR ''-'' # n) = q"
    using assms(1,2) by (auto simp: alnum_run_def list_all_iff takeWhile_tail alnum_not_sep)
  with eq show ?thesis by simp
qed

lemma sanitized_char: "is_alnum c \<or> is_sep c \<Longrightarrow>
  is_lower (hostname_char (to_lower_char c)) \<or> is_digit (hostname_char (to_lower_char c)) \<or>
  hostname_char (to_lower_char c) = CHR ''-''"
proof -
  assume c: "is_alnum c \<or> is_sep c"
  show ?thesis
  proof (cases "is_sep c")
    case True
    then show ?thesis
      by (auto simp: is_sep_def hostname_char_def to_lower_char_def is_upper_def)
  next
    case False
    with c have "is_alnum (to_lower_char c)" by simp
    moreover from this have "hostname_char (to_lower_char c) = to_lower_char c"
      by (auto simp: hostname_char_def char_class)
    moreover have "\<not> is_upper (to_lower_char c)" by simp
    ultimately show ?thesis by (auto simp: is_alnum_def)
  qed
qed

text \<open>An RFC 1123 label: 1 to 63 lower-case letters, digits and hyphens, no hyphen at an end.\<close>

definition rfc1123_label :: "string \<Rightarrow> bool" where
  "rfc1123_label s \<longleftrightarrow> s \<noteq> [] \<and> length s \<le> 63 \<and>
     list_all (\<lambda>c. is_lower c \<or> is_digit c \<or> c = CHR ''-'') s \<and>
     hd s \<noteq> CHR ''-'' \<and> last s \<noteq> CHR ''-''"

lemma hostname_end: "is_alnum c \<Longrightarrow> hostname_char (to_lower_char c) \<noteq> CHR ''-''"
proof -
  assume "is_alnum c"
  then have "is_alnum (to_lower_char c)" by simp
  then show ?thesis by (auto simp: hostname_char_def char_class)
qed

section \<open>Properties\<close>

text \<open>\<open>ParseSandboxName\<close> accepts a string exactly when it consists of alphanumeric runs
  joined by single separators and has at most 56 bytes, and returns it unchanged.\<close>

theorem ParseSandboxName_accepts_grammar:
  "ParseSandboxName name = Inr n \<longleftrightarrow>
     n = name \<and> length name \<le> MaxNameLength \<and>
     (\<exists>r rs. name = joined_runs r rs \<and> alnum_run r \<and>
        list_all (\<lambda>(c, s). is_sep c \<and> alnum_run s) rs)"
  unfolding ParseSandboxName_Inr sandboxNameRe_grammar by blast

text \<open>C35: the instance name of a parsed principal and a parsed sandbox name is again a
  containerd identifier: it matches the identifier grammar and has at most 72 (so at most
  containerd's 76) bytes.\<close>

theorem InstanceName_is_containerd_identifier:
  assumes "ParsePrincipalSegment p = Inr q" and "ParseSandboxName name = Inr n"
  shows "\<exists>i. InstanceName q n = Inr i \<and> sandboxNameRe i \<and> length i \<le> 72
           \<and> 72 \<le> containerdMaxLength"
proof -
  from assms have q: "alnum_run q" "length q \<le> 8" and n: "name_automaton False n" "length n \<le> 56"
    by (auto simp: ParsePrincipalSegment_Inr ParseSandboxName_Inr sandboxNameRe_def
        MaxNameLength_def MaxPrincipalLength_def)
  let ?i = "''yoloai'' @ CHR ''-'' # q @ CHR ''-'' # n"
  have y: "alnum_run ''yoloai''" by (simp add: alnum_run_def char_class)
  have dash: "is_sep CHR ''-''" by (simp add: is_sep_def)
  have "name_automaton False ?i"
    by (simp only: automaton_append_sep [OF y dash] automaton_append_sep [OF q(1) dash] n(1))
  moreover have "InstanceName q n = Inr ?i"
    using q(1) by (simp add: InstanceName_def InstancePrefix_def alnum_run_def)
  moreover have "length ?i \<le> 72" using q(2) n(2) by simp
  ultimately show ?thesis
    by (intro exI [of _ ?i]) (simp add: sandboxNameRe_def containerdMaxLength_def)
qed

theorem InstanceName_is_containerd_identifier_witness:
  "\<exists>i. InstanceName ''cli'' ''my-box'' = Inr i \<and> sandboxNameRe i \<and> length i \<le> 72
           \<and> 72 \<le> containerdMaxLength"
  by (rule InstanceName_is_containerd_identifier [of "''cli''" "''cli''" "''my-box''" "''my-box''"])
    (simp_all add: ParsePrincipalSegment_def ParseSandboxName_def principalSegmentRe_def
      sandboxNameRe_def char_class is_sep_def MaxNameLength_def MaxPrincipalLength_def)

text \<open>Two (principal, sandbox) pairs with parsed principals never share an instance name,
  so no principal can reach another principal's instance.\<close>

theorem InstanceName_unambiguous:
  assumes "ParsePrincipalSegment p1 = Inr q1" and "ParsePrincipalSegment p2 = Inr q2"
    and "InstanceName q1 n1 = InstanceName q2 n2"
  shows "q1 = q2 \<and> n1 = n2"
proof -
  from assms(1,2) have q: "alnum_run q1" "alnum_run q2" by (auto simp: ParsePrincipalSegment_Inr)
  with assms(3) have "q1 @ CHR ''-'' # n1 = q2 @ CHR ''-'' # n2"
    by (simp add: InstanceName_def InstancePrefix_def alnum_run_def)
  with q show ?thesis by (rule run_dash_inj)
qed

theorem InstanceName_unambiguous_witness:
  "InstanceName ''cli'' ''a-b'' \<noteq> InstanceName ''ci'' ''a-b''"
  using InstanceName_unambiguous [of "''cli''" "''cli''" "''ci''" "''ci''" "''a-b''" "''a-b''"]
  by (auto simp: ParsePrincipalSegment_def principalSegmentRe_def char_class MaxPrincipalLength_def)

text \<open>the hostname made from a parsed sandbox name is always a valid RFC 1123 label.\<close>

theorem SanitizeHostname_label:
  assumes "ParseSandboxName name = Inr n"
  shows "rfc1123_label (SanitizeHostname n)"
proof -
  from assms have n: "name_automaton False n" "length n \<le> 56"
    by (auto simp: ParseSandboxName_Inr sandboxNameRe_def MaxNameLength_def)
  have hd: "n \<noteq> []" "is_alnum (hd n)" using automaton_False_hd [OF n(1)] by auto
  have "is_alnum (last n)" using automaton_last n(1) hd(1) by blast
  then show ?thesis using hd n(2) automaton_chars [OF n(1)]
    by (auto simp: rfc1123_label_def SanitizeHostname_def ToLower_def list_all_iff hd_map last_map
        hostname_end sanitized_char)
qed

theorem SanitizeHostname_label_witness: "rfc1123_label (SanitizeHostname ''My_Box.2'')"
  by (rule SanitizeHostname_label [of "''My_Box.2''"])
    (simp add: ParseSandboxName_def sandboxNameRe_def char_class is_sep_def MaxNameLength_def)

text \<open>No parsed sandbox name contains the byte \<open>^\<close> of the promotion sentinels.\<close>

lemma ParseSandboxName_no_caret:
  "ParseSandboxName name = Inr n \<Longrightarrow> CHR ''^'' \<notin> set n"
  using automaton_chars [of False n "CHR ''^''"]
  by (auto simp: ParseSandboxName_Inr sandboxNameRe_def char_class is_sep_def)

end
