(* ===== verification/SandboxLayout.thy ===== *)
theory SandboxLayout
  imports Prelude
begin

text \<open>
  The layout of a sandbox directory: the three access tiers and the classification table of
  \<open>internal/config/sandbox_tier.go\<close>, the path builders of \<open>internal/config/sandbox_layout.go\<close> and
  the frozen flat layout of \<open>internal/config/pretier\<close>. A path is the list of its segments;
  \<open>filepath.Join\<close> with a bare name appends it.
\<close>

type_synonym fpath = "string list"

section \<open>Entry names\<close>

definition HostTierName :: string where "HostTierName = ''host''"
definition ReadOnlyTierName :: string where "ReadOnlyTierName = ''ro''"
definition ReadWriteTierName :: string where "ReadWriteTierName = ''rw''"

definition EnvironmentFileName :: string where "EnvironmentFileName = ''environment.json''"
definition SandboxStateFileName :: string where "SandboxStateFileName = ''sandbox-state.json''"
definition AgentConfigFileName :: string where "AgentConfigFileName = ''agent.json''"
definition NetpolicyFileName :: string where "NetpolicyFileName = ''netpolicy.json''"
definition NetworkDiagFileName :: string where "NetworkDiagFileName = ''network-diag.txt''"
definition InjectorRecordFileName :: string where "InjectorRecordFileName = ''injector.json''"
definition InjectorLogFileName :: string where "InjectorLogFileName = ''injector.log''"
definition InjectorTokenFileName :: string where "InjectorTokenFileName = ''injector-token''"
definition RuntimeConfigFileName :: string where "RuntimeConfigFileName = ''runtime-config.json''"
definition PromptFileName :: string where "PromptFileName = ''prompt.txt''"
definition ResumePromptFileName :: string where "ResumePromptFileName = ''resume-prompt.txt''"
definition MachineIDFileName :: string where "MachineIDFileName = ''machine-id''"
definition HomeSeedDirName :: string where "HomeSeedDirName = ''home-seed''"
definition AgentStatusFileName :: string where "AgentStatusFileName = ''agent-status.json''"
definition LogsDirName :: string where "LogsDirName = ''logs''"
definition FilesDirName :: string where "FilesDirName = ''files''"
definition CacheDirName :: string where "CacheDirName = ''cache''"
definition WorkDirName :: string where "WorkDirName = ''work''"
definition VSCodeCLIDirName :: string where "VSCodeCLIDirName = ''vscode-cli''"
definition TmuxSocketFileName :: string where "TmuxSocketFileName = ''tmux.sock''"
definition ContextFileName :: string where "ContextFileName = ''context.md''"
definition SecretsDirName :: string where "SecretsDirName = ''secrets''"
definition ContainerLogFileName :: string where "ContainerLogFileName = ''log.txt''"
definition CreateDoneMarkerName :: string where "CreateDoneMarkerName = ''lifecycle-on-create-done''"
definition BackendDirName :: string where "BackendDirName = ''backend''"
definition BinDirName :: string where "BinDirName = ''bin''"
definition TmuxDirName :: string where "TmuxDirName = ''tmux''"
definition AgentRuntimeDirName :: string where "AgentRuntimeDirName = ''agent-runtime''"

section \<open>Tiers\<close>

datatype Tier = TierHost | TierReadOnly | TierReadWrite

fun tier_name :: "Tier \<Rightarrow> string" where
  "tier_name TierHost = HostTierName"
| "tier_name TierReadOnly = ReadOnlyTierName"
| "tier_name TierReadWrite = ReadWriteTierName"

definition TierDir :: "fpath \<Rightarrow> Tier \<Rightarrow> fpath" where
  "TierDir sandboxDir tier = sandboxDir @ [tier_name tier]"

definition HostTierDir :: "fpath \<Rightarrow> fpath" where "HostTierDir d = d @ [HostTierName]"
definition ReadOnlyTierDir :: "fpath \<Rightarrow> fpath" where "ReadOnlyTierDir d = d @ [ReadOnlyTierName]"
definition ReadWriteTierDir :: "fpath \<Rightarrow> fpath" where "ReadWriteTierDir d = d @ [ReadWriteTierName]"

definition entryTiers :: "(string \<times> Tier) list" where
  "entryTiers = [
    (EnvironmentFileName, TierHost),
    (SandboxStateFileName, TierHost),
    (AgentConfigFileName, TierHost),
    (NetpolicyFileName, TierHost),
    (NetworkDiagFileName, TierHost),
    (BackendDirName, TierHost),
    (InjectorRecordFileName, TierHost),
    (InjectorLogFileName, TierHost),
    (InjectorTokenFileName, TierHost),
    (ContextFileName, TierHost),
    (RuntimeConfigFileName, TierReadOnly),
    (BinDirName, TierReadOnly),
    (PromptFileName, TierReadOnly),
    (ResumePromptFileName, TierReadOnly),
    (MachineIDFileName, TierReadOnly),
    (HomeSeedDirName, TierReadOnly),
    (SecretsDirName, TierReadOnly),
    (LogsDirName, TierReadWrite),
    (AgentRuntimeDirName, TierReadWrite),
    (AgentStatusFileName, TierReadWrite),
    (FilesDirName, TierReadWrite),
    (CacheDirName, TierReadWrite),
    (WorkDirName, TierReadWrite),
    (TmuxDirName, TierReadWrite),
    (VSCodeCLIDirName, TierReadWrite),
    (CreateDoneMarkerName, TierReadWrite),
    (ContainerLogFileName, TierReadWrite),
    (''home'', TierReadWrite),
    (''setup.log'', TierReadWrite),
    (''xcodebuild-firstlaunch.log'', TierReadWrite),
    (''xcodebuild-firstlaunch.started'', TierReadWrite)]"

definition IsTierName :: "string \<Rightarrow> bool" where
  "IsTierName name \<longleftrightarrow> name = HostTierName \<or> name = ReadOnlyTierName \<or> name = ReadWriteTierName"

definition TierOfEntry :: "string \<Rightarrow> Tier \<times> bool" where
  "TierOfEntry name =
     (if IsTierName name then (TierHost, False)
      else case map_of entryTiers name of
          Some t \<Rightarrow> (t, True)
        | None \<Rightarrow> (TierHost, False))"

section \<open>Path builders\<close>

definition EnvironmentPath :: "fpath \<Rightarrow> fpath" where "EnvironmentPath d = HostTierDir d @ [EnvironmentFileName]"
definition SandboxStatePath :: "fpath \<Rightarrow> fpath" where "SandboxStatePath d = HostTierDir d @ [SandboxStateFileName]"
definition AgentConfigPath :: "fpath \<Rightarrow> fpath" where "AgentConfigPath d = HostTierDir d @ [AgentConfigFileName]"
definition NetpolicyPath :: "fpath \<Rightarrow> fpath" where "NetpolicyPath d = HostTierDir d @ [NetpolicyFileName]"
definition NetworkDiagPath :: "fpath \<Rightarrow> fpath" where "NetworkDiagPath d = HostTierDir d @ [NetworkDiagFileName]"
definition BackendPath :: "fpath \<Rightarrow> fpath" where "BackendPath d = HostTierDir d @ [BackendDirName]"
definition InjectorRecordPath :: "fpath \<Rightarrow> fpath" where "InjectorRecordPath d = HostTierDir d @ [InjectorRecordFileName]"
definition InjectorLogPath :: "fpath \<Rightarrow> fpath" where "InjectorLogPath d = HostTierDir d @ [InjectorLogFileName]"
definition InjectorTokenPath :: "fpath \<Rightarrow> fpath" where "InjectorTokenPath d = HostTierDir d @ [InjectorTokenFileName]"
definition RuntimeConfigPath :: "fpath \<Rightarrow> fpath" where "RuntimeConfigPath d = ReadOnlyTierDir d @ [RuntimeConfigFileName]"
definition BinPath :: "fpath \<Rightarrow> fpath" where "BinPath d = ReadOnlyTierDir d @ [BinDirName]"
definition PromptPath :: "fpath \<Rightarrow> fpath" where "PromptPath d = ReadOnlyTierDir d @ [PromptFileName]"
definition ResumePromptPath :: "fpath \<Rightarrow> fpath" where "ResumePromptPath d = ReadOnlyTierDir d @ [ResumePromptFileName]"
definition MachineIDPath :: "fpath \<Rightarrow> fpath" where "MachineIDPath d = ReadOnlyTierDir d @ [MachineIDFileName]"
definition HomeSeedPath :: "fpath \<Rightarrow> fpath" where "HomeSeedPath d = ReadOnlyTierDir d @ [HomeSeedDirName]"
definition LogsPath :: "fpath \<Rightarrow> fpath" where "LogsPath d = ReadWriteTierDir d @ [LogsDirName]"
definition LogFilePath :: "fpath \<Rightarrow> string \<Rightarrow> fpath" where "LogFilePath d name = ReadWriteTierDir d @ [LogsDirName, name]"
definition AgentStatusPath :: "fpath \<Rightarrow> fpath" where "AgentStatusPath d = ReadWriteTierDir d @ [AgentStatusFileName]"
definition AgentRuntimePath :: "fpath \<Rightarrow> fpath" where "AgentRuntimePath d = ReadWriteTierDir d @ [AgentRuntimeDirName]"
definition AgentRuntimeFilePath :: "fpath \<Rightarrow> string \<Rightarrow> fpath" where
  "AgentRuntimeFilePath d relPath = ReadWriteTierDir d @ [AgentRuntimeDirName, relPath]"
definition FilesPath :: "fpath \<Rightarrow> fpath" where "FilesPath d = ReadWriteTierDir d @ [FilesDirName]"
definition CachePath :: "fpath \<Rightarrow> fpath" where "CachePath d = ReadWriteTierDir d @ [CacheDirName]"
definition WorkBasePath :: "fpath \<Rightarrow> fpath" where "WorkBasePath d = ReadWriteTierDir d @ [WorkDirName]"
definition TmuxPath :: "fpath \<Rightarrow> fpath" where "TmuxPath d = ReadWriteTierDir d @ [TmuxDirName]"
definition TmuxSocketPath :: "fpath \<Rightarrow> fpath" where "TmuxSocketPath d = ReadWriteTierDir d @ [TmuxSocketFileName]"
definition SecretsPath :: "fpath \<Rightarrow> fpath" where "SecretsPath d = ReadOnlyTierDir d @ [SecretsDirName]"
definition VSCodeCLIPath :: "fpath \<Rightarrow> fpath" where "VSCodeCLIPath d = ReadWriteTierDir d @ [VSCodeCLIDirName]"
definition ContainerLogPath :: "fpath \<Rightarrow> fpath" where "ContainerLogPath d = ReadWriteTierDir d @ [ContainerLogFileName]"
definition ContextPath :: "fpath \<Rightarrow> fpath" where "ContextPath d = HostTierDir d @ [ContextFileName]"
definition CreateDoneMarkerPath :: "fpath \<Rightarrow> fpath" where "CreateDoneMarkerPath d = ReadWriteTierDir d @ [CreateDoneMarkerName]"

lemmas entry_names =
  HostTierName_def ReadOnlyTierName_def ReadWriteTierName_def EnvironmentFileName_def
  SandboxStateFileName_def AgentConfigFileName_def NetpolicyFileName_def NetworkDiagFileName_def
  InjectorRecordFileName_def InjectorLogFileName_def InjectorTokenFileName_def
  RuntimeConfigFileName_def PromptFileName_def ResumePromptFileName_def MachineIDFileName_def
  HomeSeedDirName_def AgentStatusFileName_def LogsDirName_def FilesDirName_def CacheDirName_def
  WorkDirName_def VSCodeCLIDirName_def TmuxSocketFileName_def ContextFileName_def SecretsDirName_def
  ContainerLogFileName_def CreateDoneMarkerName_def BackendDirName_def BinDirName_def TmuxDirName_def
  AgentRuntimeDirName_def

lemmas path_builders =
  EnvironmentPath_def SandboxStatePath_def AgentConfigPath_def NetpolicyPath_def NetworkDiagPath_def
  BackendPath_def InjectorRecordPath_def InjectorLogPath_def InjectorTokenPath_def RuntimeConfigPath_def
  BinPath_def PromptPath_def ResumePromptPath_def MachineIDPath_def HomeSeedPath_def LogsPath_def
  AgentStatusPath_def AgentRuntimePath_def FilesPath_def CachePath_def WorkBasePath_def TmuxPath_def
  SecretsPath_def VSCodeCLIPath_def ContainerLogPath_def ContextPath_def CreateDoneMarkerPath_def

definition live_builders :: "(string \<times> (fpath \<Rightarrow> fpath)) list" where
  "live_builders = [
     (EnvironmentFileName, EnvironmentPath), (SandboxStateFileName, SandboxStatePath),
     (AgentConfigFileName, AgentConfigPath), (NetpolicyFileName, NetpolicyPath),
     (NetworkDiagFileName, NetworkDiagPath), (BackendDirName, BackendPath),
     (InjectorRecordFileName, InjectorRecordPath), (InjectorLogFileName, InjectorLogPath),
     (InjectorTokenFileName, InjectorTokenPath), (RuntimeConfigFileName, RuntimeConfigPath),
     (BinDirName, BinPath), (PromptFileName, PromptPath), (ResumePromptFileName, ResumePromptPath),
     (MachineIDFileName, MachineIDPath), (HomeSeedDirName, HomeSeedPath), (LogsDirName, LogsPath),
     (AgentStatusFileName, AgentStatusPath), (AgentRuntimeDirName, AgentRuntimePath),
     (FilesDirName, FilesPath), (CacheDirName, CachePath), (WorkDirName, WorkBasePath),
     (TmuxDirName, TmuxPath), (SecretsDirName, SecretsPath), (VSCodeCLIDirName, VSCodeCLIPath),
     (ContainerLogFileName, ContainerLogPath), (ContextFileName, ContextPath),
     (CreateDoneMarkerName, CreateDoneMarkerPath)]"

section \<open>The frozen flat layout\<close>

definition pretier_EnvironmentPath :: "fpath \<Rightarrow> fpath" where "pretier_EnvironmentPath d = d @ [''environment.json'']"
definition pretier_SandboxStatePath :: "fpath \<Rightarrow> fpath" where "pretier_SandboxStatePath d = d @ [''sandbox-state.json'']"
definition pretier_AgentConfigPath :: "fpath \<Rightarrow> fpath" where "pretier_AgentConfigPath d = d @ [''agent.json'']"
definition pretier_NetpolicyPath :: "fpath \<Rightarrow> fpath" where "pretier_NetpolicyPath d = d @ [''netpolicy.json'']"
definition pretier_RuntimeConfigPath :: "fpath \<Rightarrow> fpath" where "pretier_RuntimeConfigPath d = d @ [''runtime-config.json'']"
definition pretier_WorkDir :: "fpath \<Rightarrow> fpath" where "pretier_WorkDir d = d @ [''work'']"
definition pretier_WorkDirFor :: "fpath \<Rightarrow> string \<Rightarrow> fpath" where
  "pretier_WorkDirFor d encodedPath = pretier_WorkDir d @ [encodedPath]"
definition pretier_OverlayLowerFor :: "fpath \<Rightarrow> string \<Rightarrow> fpath" where
  "pretier_OverlayLowerFor d encodedPath = pretier_WorkDirFor d encodedPath @ [''lower'']"

lemmas pretier_builders = pretier_EnvironmentPath_def pretier_SandboxStatePath_def
  pretier_AgentConfigPath_def pretier_NetpolicyPath_def pretier_RuntimeConfigPath_def
  pretier_WorkDir_def

section \<open>The table and the builders agree\<close>

lemma map_of_entryTiers_tier_name: "map_of entryTiers (tier_name t) = None"
  by (cases t) (simp_all add: entryTiers_def entry_names)

lemma TierOfEntry_recognized: "snd (TierOfEntry name) \<longleftrightarrow> name \<in> fst ` set entryTiers"
proof -
  have "map_of entryTiers name \<noteq> None \<longleftrightarrow> name \<in> fst ` set entryTiers"
    by (simp add: map_of_eq_None_iff [of entryTiers name, symmetric] del: not_None_eq)
      (metis dom_map_of_conv_image_fst domIff)
  moreover have "IsTierName name \<Longrightarrow> map_of entryTiers name = None"
    using map_of_entryTiers_tier_name by (metis IsTierName_def tier_name.simps)
  ultimately show ?thesis
    by (auto simp: TierOfEntry_def split: option.split)
qed

lemma TierOfEntry_host_default: "\<not> snd (TierOfEntry name) \<Longrightarrow> fst (TierOfEntry name) = TierHost"
  by (auto simp: TierOfEntry_def split: if_splits option.splits)

text \<open>The classification table, which decides where the tier migration moves every entry of a
  flat sandbox, agrees with every path builder the running program uses: an entry a builder addresses
  is recognized, its table row names the tier directory in which the builder looks for it, and the
  flat record paths of the older schemas, moved by the table, are exactly the live record paths.\<close>

theorem builders_agree_with_table:
  "list_all (\<lambda>(name, path).
      snd (TierOfEntry name) \<and> path d = TierDir d (fst (TierOfEntry name)) @ [name]) live_builders \<and>
   list_all (\<lambda>(flat, live).
      live d = TierDir d (fst (TierOfEntry (last (flat d)))) @ [last (flat d)]) [(pretier_EnvironmentPath, EnvironmentPath), (pretier_SandboxStatePath, SandboxStatePath),
        (pretier_AgentConfigPath, AgentConfigPath), (pretier_NetpolicyPath, NetpolicyPath),
        (pretier_RuntimeConfigPath, RuntimeConfigPath), (pretier_WorkDir, WorkBasePath)]"
proof
  show "list_all (\<lambda>(name, path).
      snd (TierOfEntry name) \<and> path d = TierDir d (fst (TierOfEntry name)) @ [name]) live_builders"
    by (simp add: live_builders_def TierOfEntry_def IsTierName_def entryTiers_def entry_names
        path_builders TierDir_def HostTierDir_def ReadOnlyTierDir_def ReadWriteTierDir_def)
  show "list_all (\<lambda>(flat, live).
      live d = TierDir d (fst (TierOfEntry (last (flat d)))) @ [last (flat d)]) [(pretier_EnvironmentPath, EnvironmentPath), (pretier_SandboxStatePath, SandboxStatePath),
        (pretier_AgentConfigPath, AgentConfigPath), (pretier_NetpolicyPath, NetpolicyPath),
        (pretier_RuntimeConfigPath, RuntimeConfigPath), (pretier_WorkDir, WorkBasePath)]"
    by (simp add: pretier_builders TierOfEntry_def IsTierName_def entryTiers_def entry_names
        path_builders TierDir_def HostTierDir_def ReadOnlyTierDir_def ReadWriteTierDir_def)
qed

end
