(* ===== verification/Encode.thy ===== *)
theory Encode
  imports SandboxLayout
begin

text \<open>
  The caret encoding of host paths, \<open>internal/config/encode.go\<close>. The source loops over the runes of
  a string and writes runes, so a text is the list of its code points here: a Go string that is
  valid UTF-8. The builder of the encoder is the result list; the decoder's index is the remaining
  list.
\<close>

type_synonym rune = nat
type_synonym runes = "nat list"

definition rune :: "char \<Rightarrow> rune" where "rune c = of_char c"

definition runes :: "string \<Rightarrow> runes" where "runes s = map rune s"

definition ValidRune :: "rune \<Rightarrow> bool" where
  "ValidRune r \<longleftrightarrow> r < 0xD800 \<or> (0xDFFF < r \<and> r \<le> 0x10FFFF)"

section \<open>Tables\<close>

definition safeASCII :: "rune \<Rightarrow> bool" where
  "safeASCII r \<longleftrightarrow> (48 \<le> r \<and> r \<le> 57) \<or> (65 \<le> r \<and> r \<le> 90) \<or> (97 \<le> r \<and> r \<le> 122) \<or>
     r \<in> set (runes ''-_`{}.~'')"

definition encodeShortcuts :: "(rune \<times> rune) list" where
  "encodeShortcuts = zip
     [94, 32, 61, 43, 40, 41, 62, 35, 33, 39, 58, 60, 37, 38, 64, 124, 63, 92, 47, 42, 34, 36]
     (runes ''^_-`{}ghijklmnopqrstuv'')"

definition decodeShortcuts :: "(rune \<times> rune) list" where
  "decodeShortcuts = zip
     (runes ''^_-`{}gGhHiIjJkKlLmMnNoOpPqQrRsStTuUvV'')
     [94, 32, 61, 43, 40, 41, 62, 62, 35, 35, 33, 33, 39, 39, 58, 58, 60, 60, 37, 37, 38, 38,
      64, 64, 124, 124, 63, 63, 92, 92, 47, 47, 42, 42, 34, 34, 36, 36]"

section \<open>The encoder\<close>

definition hex_digit :: "nat \<Rightarrow> rune" where
  "hex_digit d = (if d < 10 then 48 + d else 55 + d)"

text \<open>\<open>%0kX\<close> of a number below \<open>16 ^ k\<close>.\<close>

fun hex_pad :: "nat \<Rightarrow> nat \<Rightarrow> runes" where
  "hex_pad 0 n = []"
| "hex_pad (Suc k) n = hex_pad k (n div 16) @ [hex_digit (n mod 16)]"

definition encodeRune :: "rune \<Rightarrow> runes" where
  "encodeRune cp =
     (if cp \<le> 0xFF then 94 # hex_pad 2 cp
      else if cp \<le> 0xFFF then 94 # 119 # hex_pad 3 cp
      else if cp \<le> 0xFFFF then 94 # 120 # hex_pad 4 cp
      else if cp \<le> 0xFFFFF then 94 # 121 # hex_pad 5 cp
      else 94 # 122 # hex_pad 6 cp)"

definition encode_one :: "rune \<Rightarrow> runes \<Rightarrow> runes" where
  "encode_one r rest =
     (if r = 46 \<and> (rest = [] \<or> hd rest = 47) then encodeRune r
      else if r < 128 \<and> safeASCII r then [r]
      else (case map_of encodeShortcuts r of
          Some sc \<Rightarrow> [94, sc]
        | None \<Rightarrow> encodeRune r))"

fun EncodePath :: "runes \<Rightarrow> runes" where
  "EncodePath [] = []"
| "EncodePath (r # rest) = encode_one r rest @ EncodePath rest"

section \<open>The decoder\<close>

definition hex_value :: "rune \<Rightarrow> nat option" where
  "hex_value c =
     (if 48 \<le> c \<and> c \<le> 57 then Some (c - 48)
      else if 97 \<le> c \<and> c \<le> 102 then Some (c - 97 + 10)
      else if 65 \<le> c \<and> c \<le> 70 then Some (c - 65 + 10)
      else None)"

text \<open>At most six digits are ever parsed, so the 32-bit shift-and-or is \<open>16 * acc + digit\<close>.\<close>

fun parseHex :: "nat \<Rightarrow> runes \<Rightarrow> nat option" where
  "parseHex acc [] = Some acc"
| "parseHex acc (c # s) = (case hex_value c of
       None \<Rightarrow> None
     | Some d \<Rightarrow> parseHex (16 * acc + d) s)"

definition modifier_width :: "rune \<Rightarrow> nat option" where
  "modifier_width m =
     (if m \<in> set (runes ''wW'') then Some 3
      else if m \<in> set (runes ''xX'') then Some 4
      else if m \<in> set (runes ''yY'') then Some 5
      else if m \<in> set (runes ''zZ'') then Some 6
      else None)"

definition consR :: "rune \<Rightarrow> (string, runes) result \<Rightarrow> (string, runes) result" where
  "consR r x = (case x of Inl e \<Rightarrow> Inl e | Inr rs \<Rightarrow> Inr (r # rs))"

function DecodePath :: "runes \<Rightarrow> (string, runes) result" where
  "DecodePath [] = Inr []"
| "r \<noteq> 94 \<Longrightarrow> DecodePath (r # rest) = consR r (DecodePath rest)"
| "DecodePath [94] = Inl ''truncated caret sequence at end of string''"
| "DecodePath (94 # m # rest) = (case map_of decodeShortcuts m of
       Some r \<Rightarrow> consR r (DecodePath rest)
     | None \<Rightarrow>
         let k = (case modifier_width m of Some k \<Rightarrow> k | None \<Rightarrow> 2);
             body = (case modifier_width m of Some _ \<Rightarrow> rest | None \<Rightarrow> m # rest)
         in if length body < k then Inl ''truncated caret sequence''
            else case parseHex 0 (take k body) of
                None \<Rightarrow> Inl ''invalid caret sequence''
              | Some cp \<Rightarrow> if ValidRune cp then consR cp (DecodePath (drop k body))
                           else Inl ''invalid Unicode codepoint'')"
  by (auto, metis list.exhaust)
termination
  by (relation "measure length") (auto simp: modifier_width_def split: option.splits if_splits)

text \<open>\<open>store.WorkDir\<close>: the work copy of one mount.\<close>

definition WorkDir :: "fpath \<Rightarrow> runes \<Rightarrow> runes list" where
  "WorkDir sandboxDir hostPath = map runes (WorkBasePath sandboxDir) @ [EncodePath hostPath]"

section \<open>Hexadecimal\<close>

lemma hex_value_digit: "d < 16 \<Longrightarrow> hex_value (hex_digit d) = Some d"
  by (auto simp: hex_value_def hex_digit_def)

lemma length_hex_pad [simp]: "length (hex_pad k n) = k"
  by (induction k arbitrary: n) auto

lemma parseHex_append: "parseHex acc (s @ [c]) =
    (case parseHex acc s of None \<Rightarrow> None | Some v \<Rightarrow> map_option (\<lambda>d. 16 * v + d) (hex_value c))"
  by (induction s arbitrary: acc) (auto split: option.splits)

lemma parseHex_hex_pad: "n < 16 ^ k \<Longrightarrow> parseHex 0 (hex_pad k n) = Some n"
proof (induction k arbitrary: n)
  case (Suc k)
  then have "n div 16 < 16 ^ k" by (simp add: less_mult_imp_div_less mult.commute)
  with Suc.IH show ?case by (simp add: parseHex_append hex_value_digit)
qed auto

lemma hex_pad_range: "x \<in> set (hex_pad k n) \<Longrightarrow> (48 \<le> x \<and> x \<le> 57) \<or> (65 \<le> x \<and> x \<le> 70)"
proof (induction k arbitrary: n)
  case (Suc k)
  have "n mod 16 < 16" by simp
  with Suc show ?case by (auto simp: hex_digit_def split: if_splits)
qed simp

section \<open>Round trip\<close>

lemmas encode_tables = encodeShortcuts_def decodeShortcuts_def runes_def rune_def

lemma encode_shortcut_decodes:
  "map_of encodeShortcuts r = Some c \<Longrightarrow> map_of decodeShortcuts c = Some r"
  by (auto simp: encode_tables split: if_splits)

lemma hex_not_special:
  "(48 \<le> x \<and> x \<le> 57) \<or> (65 \<le> x \<and> x \<le> 70) \<Longrightarrow>
    map_of decodeShortcuts x = None \<and> modifier_width x = None"
  by (auto simp: encode_tables modifier_width_def)

lemma width_letters:
  "map_of decodeShortcuts 119 = None" "modifier_width 119 = Some 3"
  "map_of decodeShortcuts 120 = None" "modifier_width 120 = Some 4"
  "map_of decodeShortcuts 121 = None" "modifier_width 121 = Some 5"
  "map_of decodeShortcuts 122 = None" "modifier_width 122 = Some 6"
  by (simp_all add: encode_tables modifier_width_def)

lemma decode_wide:
  assumes "map_of decodeShortcuts m = None" "modifier_width m = Some k" "r < 16 ^ k" "ValidRune r"
  shows "DecodePath (94 # m # hex_pad k r @ rest) = consR r (DecodePath rest)"
  using assms parseHex_hex_pad [of r k] by (simp add: Let_def)

lemma decode_narrow:
  assumes "r \<le> 0xFF" "ValidRune r"
  shows "DecodePath (94 # hex_pad 2 r @ rest) = consR r (DecodePath rest)"
proof -
  obtain x y where xy: "hex_pad 2 r = [x, y]"
    by (simp add: numeral_2_eq_2)
  then have "map_of decodeShortcuts x = None \<and> modifier_width x = None"
    by (intro hex_not_special hex_pad_range [of x 2 r]) simp
  moreover have "parseHex 0 [x, y] = Some r" using parseHex_hex_pad [of r 2] xy assms by simp
  ultimately show ?thesis using assms(2) xy by (simp add: Let_def numeral_2_eq_2 del: parseHex.simps)
qed

lemma decode_encodeRune:
  assumes "ValidRune r"
  shows "DecodePath (encodeRune r @ rest) = consR r (DecodePath rest)"
proof -
  have "r < 16 ^ 6" using assms by (auto simp: ValidRune_def)
  then show ?thesis
    using decode_narrow [of r rest] decode_wide [of 119 3 r rest] decode_wide [of 120 4 r rest]
      decode_wide [of 121 5 r rest] decode_wide [of 122 6 r rest] width_letters assms
    by (auto simp: encodeRune_def)
qed

lemma decode_encode_one:
  assumes "ValidRune r"
  shows "DecodePath (encode_one r rest' @ rest) = consR r (DecodePath rest)"
proof -
  have "safeASCII r \<Longrightarrow> r \<noteq> 94" by (auto simp: safeASCII_def runes_def rune_def)
  then show ?thesis
    using decode_encodeRune [OF assms] encode_shortcut_decodes [of r]
    by (auto simp: encode_one_def split: option.split)
qed

lemma DecodePath_EncodePath: "\<forall>r \<in> set p. ValidRune r \<Longrightarrow> DecodePath (EncodePath p) = Inr p"
proof (induction p)
  case (Cons r p)
  then show ?case using decode_encode_one [of r p "EncodePath p"] by (simp add: consR_def)
qed simp

lemma EncodePath_inj:
  assumes "EncodePath p = EncodePath q" "\<forall>r \<in> set p. ValidRune r" "\<forall>r \<in> set q. ValidRune r"
  shows "p = q"
  using assms DecodePath_EncodePath by (metis sum.inject(2))

text \<open>C34: Decoding undoes encoding: for every host path of valid code points, the caret encoding decodes
  without error to exactly that path.\<close>

theorem DecodePath_roundtrip:
  assumes "\<forall>r \<in> set p. ValidRune r"
  shows "DecodePath (EncodePath p) = Inr p"
  using assms by (rule DecodePath_EncodePath)

theorem DecodePath_roundtrip_witness:
  "DecodePath (EncodePath (runes ''/home/me/a.b (x)./'' @ [0x20AC, 0x1F600])) =
     Inr (runes ''/home/me/a.b (x)./'' @ [0x20AC, 0x1F600])"
  by (rule DecodePath_roundtrip) (simp add: runes_def rune_def ValidRune_def)

section \<open>Safe names\<close>

definition fs_safe :: "rune \<Rightarrow> bool" where
  "fs_safe r \<longleftrightarrow> r < 128 \<and> (safeASCII r \<or> r = 94)"

lemma fs_safe_hex: "x \<in> set (hex_pad k n) \<Longrightarrow> fs_safe x \<and> x \<noteq> 46"
  using hex_pad_range [of x k n] by (auto simp: fs_safe_def safeASCII_def)

lemma encodeRune_safe: "x \<in> set (encodeRune r) \<Longrightarrow> fs_safe x \<and> x \<noteq> 46"
  using fs_safe_hex by (auto simp: encodeRune_def fs_safe_def safeASCII_def split: if_splits)

lemma shortcut_safe: "map_of encodeShortcuts r = Some c \<Longrightarrow> fs_safe c \<and> c \<noteq> 46"
  by (auto simp: encode_tables fs_safe_def safeASCII_def split: if_splits)

lemma encode_one_safe: "x \<in> set (encode_one r rest) \<Longrightarrow> fs_safe x"
  using encodeRune_safe [of x r] shortcut_safe [of r]
  by (auto simp: encode_one_def fs_safe_def split: if_splits option.splits)

lemma encodeRune_nonempty [simp]: "encodeRune r \<noteq> []"
  by (simp add: encodeRune_def)

lemma encode_one_nonempty [simp]: "encode_one r rest \<noteq> []"
  by (auto simp: encode_one_def split: option.splits)

lemma encode_one_last: "last (encode_one r []) \<noteq> 46"
  using encodeRune_safe [of _ r] shortcut_safe [of r] last_in_set [of "encodeRune r"]
  by (auto simp: encode_one_def split: option.splits)

lemma EncodePath_last: "p \<noteq> [] \<Longrightarrow> EncodePath p \<noteq> [] \<and> last (EncodePath p) \<noteq> 46"
proof (induction p)
  case (Cons r p)
  then show ?case using encode_one_last [of r] by (cases p) auto
qed simp

text \<open>The encoding of any path is one safe directory name: every character of it is a letter, a
  digit, the caret or one of the seven safe marks (so no path separator, no space, no control or
  non-ASCII character), only the empty path encodes to the empty name, and the name never ends in a
  dot, so it is neither the current nor the parent directory.\<close>

theorem EncodePath_is_safe_name:
  "list_all fs_safe (EncodePath p) \<and>
   (if EncodePath p = [] then p = [] else last (EncodePath p) \<noteq> 46) \<and>
   \<not> fs_safe 47 \<and> \<not> fs_safe 0"
proof -
  have "list_all fs_safe (EncodePath p)"
    using encode_one_safe by (induction p) (auto simp: list_all_iff)
  moreover have "if EncodePath p = [] then p = [] else last (EncodePath p) \<noteq> 46"
    using EncodePath_last [of p] by (cases "p = []") auto
  moreover have "\<not> fs_safe 47" "\<not> fs_safe 0"
    by (simp_all add: fs_safe_def safeASCII_def runes_def rune_def)
  ultimately show ?thesis by simp
qed

text \<open>Two mounts of a sandbox never share a work copy: distinct host paths have distinct work
  directories, both directly below the sandbox's work directory.\<close>

theorem WorkDir_separates:
  assumes "\<forall>r \<in> set p. ValidRune r" and "\<forall>r \<in> set q. ValidRune r" and "p \<noteq> q"
  shows "WorkDir d p \<noteq> WorkDir d q \<and>
    butlast (WorkDir d p) = map runes (WorkBasePath d) \<and> butlast (WorkDir d q) = map runes (WorkBasePath d)"
  using assms EncodePath_inj [of p q] by (auto simp: WorkDir_def)

theorem WorkDir_separates_witness:
  "WorkDir [''s''] (runes ''/a b'') \<noteq> WorkDir [''s''] (runes ''/a_b'')"
  using WorkDir_separates [of "runes ''/a b''" "runes ''/a_b''" "[''s'']"]
  by (simp add: runes_def rune_def ValidRune_def)

end
