(* ===== verification/FaultIO.thy ===== *)
theory FaultIO
  imports Prelude
begin

text \<open>
  File trees and a fault-prone input/output monad: the machine on which the crash-safe
  migration code runs.

  A world holds the live directory (the \<open>Parent\<close> of a promotion), the scratch directory and the
  trash directory. Every primitive of the Go packages \<open>os\<close> and \<open>internal/fileutil\<close> that the
  sources call is one step of the machine and consumes one verdict of a schedule: it succeeds,
  it returns an error, or the process dies. A primitive that is not atomic (a recursive removal,
  a tree copy, a temporary file being written) may leave an arbitrary partial result, which the
  verdict carries. The empty schedule is the run without faults.
\<close>

section \<open>File trees and worlds\<close>

datatype node = File string | Symlink string | Dir "(string \<times> node) list"

type_synonym dir = "(string \<times> node) list"

definition is_dir :: "node \<Rightarrow> bool" where
  "is_dir x = (case x of Dir _ \<Rightarrow> True | _ \<Rightarrow> False)"

lemma is_dir_simps [simp]: "is_dir (Dir d)" "\<not> is_dir (File s)" "\<not> is_dir (Symlink s)"
  by (simp_all add: is_dir_def)

text \<open>\<open>workspace.CopyPathFaithful\<close> as a function on trees.\<close>

fun copy_node :: "node \<Rightarrow> node" where
  "copy_node (File s) = File s"
| "copy_node (Symlink t) = Symlink t"
| "copy_node (Dir d) = Dir (map (\<lambda>(n, x). (n, copy_node x)) d)"

lemma copy_node_id [simp]: "copy_node x = x"
proof (induction x)
  case (Dir d)
  have "map (\<lambda>(n, x). (n, copy_node x)) d = d"
    by (rule map_idI) (use Dir in \<open>force simp: snds.simps\<close>)
  then show ?case by simp
qed auto

record world =
  live :: "string \<rightharpoonup> node"
  scratch :: "node option"
  trash :: "node option"

datatype path = Live string | Scratch | TrashRoot | Under path string

fun get :: "path \<Rightarrow> world \<Rightarrow> node option" where
  "get (Live n) w = live w n"
| "get Scratch w = scratch w"
| "get TrashRoot w = trash w"
| "get (Under p n) w = (case get p w of Some (Dir d) \<Rightarrow> map_of d n | _ \<Rightarrow> None)"

definition set_entry :: "string \<Rightarrow> node option \<Rightarrow> dir \<Rightarrow> dir" where
  "set_entry n x d = (case x of Some v \<Rightarrow> AList.update n v d | None \<Rightarrow> AList.delete n d)"

fun put :: "path \<Rightarrow> node option \<Rightarrow> world \<Rightarrow> world" where
  "put (Live n) x w = w\<lparr>live := (live w)(n := x)\<rparr>"
| "put Scratch x w = w\<lparr>scratch := x\<rparr>"
| "put TrashRoot x w = w\<lparr>trash := x\<rparr>"
| "put (Under p n) x w =
     (case get p w of Some (Dir d) \<Rightarrow> put p (Some (Dir (set_entry n x d))) w | _ \<Rightarrow> w)"

lemma map_of_set_entry [alist_simp, simp]: "map_of (set_entry n x d) = (map_of d)(n := x)"
  by (cases x) (auto simp: set_entry_def)

lemma distinct_set_entry [simp]:
  "distinct (map fst d) \<Longrightarrow> distinct (map fst (set_entry n x d))"
  by (cases x) (auto simp: set_entry_def)

section \<open>The monad\<close>

datatype verdict = Succeed | ErrReturn "node option" | Crash "node option"

datatype 'a outcome = Ret 'a | Fail string | Dead

type_synonym 'a io = "world \<times> verdict list \<Rightarrow> 'a outcome \<times> world \<times> verdict list"

definition io_ret :: "'a \<Rightarrow> 'a io" where
  "io_ret a = (\<lambda>(w, sch). (Ret a, w, sch))"

definition io_fail :: "string \<Rightarrow> 'a io" where
  "io_fail e = (\<lambda>(w, sch). (Fail e, w, sch))"

definition io_bind :: "'a io \<Rightarrow> ('a \<Rightarrow> 'b io) \<Rightarrow> 'b io" where
  "io_bind m f = (\<lambda>s. case m s of
       (Ret a, s') \<Rightarrow> f a s'
     | (Fail e, s') \<Rightarrow> (Fail e, s')
     | (Dead, s') \<Rightarrow> (Dead, s'))"

definition io_seq :: "unit io \<Rightarrow> 'b io \<Rightarrow> 'b io" where
  "io_seq m k = io_bind m (\<lambda>_. k)"

lemma io_seq_assoc: "io_seq (io_seq a b) c = io_seq a (io_seq b c)"
  by (auto simp: io_seq_def io_bind_def fun_eq_iff split: prod.splits outcome.splits)

text \<open>A pure observation (\<open>os.Lstat\<close> whose error only means absence).\<close>

definition io_get :: "(world \<Rightarrow> 'a) \<Rightarrow> 'a io" where
  "io_get f = (\<lambda>(w, sch). (Ret (f w), w, sch))"

text \<open>A primitive: \<open>eff\<close> is its effect (\<open>None\<close>: the call fails in this world), \<open>part\<close> what it
  leaves when it returns an error or the process dies in it.\<close>

definition prim :: "string \<Rightarrow> (world \<Rightarrow> ('a \<times> world) option) \<Rightarrow>
    (node option \<Rightarrow> world \<Rightarrow> world) \<Rightarrow> 'a io" where
  "prim msg eff part = (\<lambda>(w, sch). case sch of
       ErrReturn j # rest \<Rightarrow> (Fail msg, part j w, rest)
     | Crash j # rest \<Rightarrow> (Dead, part j w, rest)
     | _ \<Rightarrow> (case eff w of
           Some (a, w') \<Rightarrow> (Ret a, w', tl sch)
         | None \<Rightarrow> (Fail msg, w, tl sch)))"

fun io_each :: "('a \<Rightarrow> unit io) \<Rightarrow> 'a list \<Rightarrow> unit io" where
  "io_each f [] = io_ret ()"
| "io_each f (x # xs) = io_seq (f x) (io_each f xs)"

section \<open>Specifications\<close>

text \<open>
  \<open>spec P m Q R\<close>: started in a world that satisfies \<open>P\<close>, under any schedule, \<open>m\<close> either returns
  and its result and world satisfy \<open>Q\<close>, or fails or dies in a world that satisfies \<open>R\<close>; and it
  returns when the schedule has no faults. So one triple covers crash safety and success.
\<close>

fun good_end :: "('a \<Rightarrow> world \<Rightarrow> bool) \<Rightarrow> (world \<Rightarrow> bool) \<Rightarrow> verdict list \<Rightarrow>
    'a outcome \<times> world \<times> verdict list \<Rightarrow> bool" where
  "good_end Q R sch (Ret a, w, sch') = (Q a w \<and> (sch = [] \<longrightarrow> sch' = []))"
| "good_end Q R sch (Fail e, w, sch') = (R w \<and> sch \<noteq> [])"
| "good_end Q R sch (Dead, w, sch') = (R w \<and> sch \<noteq> [])"

definition spec :: "(world \<Rightarrow> bool) \<Rightarrow> 'a io \<Rightarrow> ('a \<Rightarrow> world \<Rightarrow> bool) \<Rightarrow> (world \<Rightarrow> bool) \<Rightarrow> bool" where
  "spec P m Q R \<longleftrightarrow> (\<forall>w sch. P w \<longrightarrow> good_end Q R sch (m (w, sch)))"

lemma specI: "(\<And>w sch. P w \<Longrightarrow> good_end Q R sch (m (w, sch))) \<Longrightarrow> spec P m Q R"
  by (simp add: spec_def)

lemma specD: "spec P m Q R \<Longrightarrow> P w \<Longrightarrow> good_end Q R sch (m (w, sch))"
  by (simp add: spec_def)

lemma good_end_mono:
  "good_end Q R sch r \<Longrightarrow> (\<And>a w. Q a w \<Longrightarrow> Q' a w) \<Longrightarrow> (\<And>w. R w \<Longrightarrow> R' w) \<Longrightarrow>
   good_end Q' R' sch r"
  by (cases "(Q, R, sch, r)" rule: good_end.cases) auto

lemma spec_ret [io_rule]: "(\<And>w. P w \<Longrightarrow> Q a w) \<Longrightarrow> spec P (io_ret a) Q R"
  by (rule specI) (simp add: io_ret_def)

lemma spec_get [io_rule]: "(\<And>w. P w \<Longrightarrow> Q (f w) w) \<Longrightarrow> spec P (io_get f) Q R"
  by (rule specI) (simp add: io_get_def)

lemma spec_bind [io_rule]:
  assumes m: "spec P m M R" and f: "\<And>a. spec (M a) (f a) Q R"
  shows "spec P (io_bind m f) Q R"
proof (rule specI)
  fix w sch assume P: "P w"
  obtain o1 w1 s1 where m1: "m (w, sch) = (o1, w1, s1)" by (cases "m (w, sch)")
  have m_ok: "good_end M R sch (o1, w1, s1)" using specD [OF m P, of sch] m1 by simp
  show "good_end Q R sch (io_bind m f (w, sch))"
  proof (cases o1)
    case (Ret a)
    with m_ok have M: "M a w1" and s1: "sch = [] \<longrightarrow> s1 = []" by auto
    obtain o2 w2 s2 where f2: "f a (w1, s1) = (o2, w2, s2)" by (cases "f a (w1, s1)")
    have "good_end Q R s1 (o2, w2, s2)" using specD [OF f M, of s1] f2 by simp
    with m1 Ret f2 s1 show ?thesis by (cases o2) (auto simp: io_bind_def)
  qed (use m1 m_ok in \<open>auto simp: io_bind_def\<close>)
qed

lemma spec_get_bind:
  "spec (\<lambda>v. v = w) (k (f w)) Q R \<Longrightarrow> spec (\<lambda>v. v = w) (io_bind (io_get f) k) Q R"
  by (simp add: spec_def io_bind_def io_get_def)

lemma spec_seq [io_rule]:
  "spec P m (\<lambda>_. M) R \<Longrightarrow> spec M k Q R \<Longrightarrow> spec P (io_seq m k) Q R"
  unfolding io_seq_def by (rule spec_bind)

lemma spec_prim [io_rule]:
  assumes "\<And>w. P w \<Longrightarrow> \<exists>a w'. eff w = Some (a, w') \<and> Q a w'"
    and "\<And>w j. P w \<Longrightarrow> R (part j w)"
  shows "spec P (prim msg eff part) Q R"
proof (rule specI)
  fix w sch assume P: "P w"
  from assms(1) [OF P] obtain a w' where e: "eff w = Some (a, w')" "Q a w'" by blast
  show "good_end Q R sch (prim msg eff part (w, sch))"
    using e assms(2) [OF P]
    by (cases sch) (auto simp: prim_def split: verdict.split)
qed

lemma spec_conseq:
  assumes "spec P m Q R" and "\<And>w. P' w \<Longrightarrow> P w" and "\<And>a w. Q a w \<Longrightarrow> Q' a w"
    and "\<And>w. R w \<Longrightarrow> R' w"
  shows "spec P' m Q' R'"
  by (rule specI, rule good_end_mono [OF specD [OF assms(1)]]) (auto intro: assms)

lemma spec_pre: "spec P m Q R \<Longrightarrow> (\<And>w. P' w \<Longrightarrow> P w) \<Longrightarrow> spec P' m Q R"
  by (erule spec_conseq)

lemma spec_post: "spec P m Q R \<Longrightarrow> (\<And>a w. Q a w \<Longrightarrow> Q' a w) \<Longrightarrow> spec P m Q' R"
  by (erule spec_conseq)

lemma spec_err: "spec P m Q R \<Longrightarrow> (\<And>w. R w \<Longrightarrow> R' w) \<Longrightarrow> spec P m Q R'"
  by (erule spec_conseq)

lemma spec_fixed: "(\<And>w0. P w0 \<Longrightarrow> spec (\<lambda>w. w = w0) m Q R) \<Longrightarrow> spec P m Q R"
  by (rule specI, rule specD [where P = "\<lambda>w. w = w'" for w']) auto

lemma spec_disj: "spec P m Q R \<Longrightarrow> spec P' m Q R \<Longrightarrow> spec (\<lambda>w. P w \<or> P' w) m Q R"
  by (auto simp: spec_def)

text \<open>The loop rule: \<open>I ys\<close> holds once the elements \<open>ys\<close> have been handled.\<close>

lemma spec_each:
  assumes "\<And>ys x zs. xs = ys @ x # zs \<Longrightarrow> spec (I ys) (f x) (\<lambda>_. I (ys @ [x])) R"
  shows "spec (I []) (io_each f xs) (\<lambda>_. I xs) R"
proof -
  have "xs = ys @ zs \<Longrightarrow> spec (I ys) (io_each f zs) (\<lambda>_. I xs) R" for ys zs
  proof (induction zs arbitrary: ys)
    case Nil
    then show ?case by (simp add: spec_ret)
  next
    case (Cons z zs)
    then have "spec (I ys) (f z) (\<lambda>_. I (ys @ [z])) R" using assms by blast
    moreover have "spec (I (ys @ [z])) (io_each f zs) (\<lambda>_. I xs) R"
      using Cons.IH [of "ys @ [z]"] Cons.prems by simp
    ultimately show ?case by (simp add: spec_seq)
  qed
  from this [of "[]" xs] show ?thesis by simp
qed

text \<open>Reading a triple off a concrete run.\<close>

definition world_of :: "'a outcome \<times> world \<times> verdict list \<Rightarrow> world" where
  "world_of r = fst (snd r)"

lemma spec_runD:
  assumes "spec P m Q R" and "P w"
  shows "(case fst (m (w, sch)) of Ret a \<Rightarrow> Q a (world_of (m (w, sch)))
          | _ \<Rightarrow> R (world_of (m (w, sch))) \<and> sch \<noteq> [])"
proof -
  obtain o1 w1 s1 where m: "m (w, sch) = (o1, w1, s1)" by (cases "m (w, sch)")
  with specD [OF assms, of sch] show ?thesis
    unfolding world_of_def by (cases o1) auto
qed

section \<open>Invariants of a program\<close>

text \<open>\<open>keeps I m\<close>: whatever the schedule, \<open>m\<close> ends in a world that satisfies \<open>I\<close> when it starts
  in one. Unlike \<open>spec\<close> it says nothing about success.\<close>

definition keeps :: "(world \<Rightarrow> bool) \<Rightarrow> 'a io \<Rightarrow> bool" where
  "keeps I m \<longleftrightarrow> (\<forall>w sch. I w \<longrightarrow> I (world_of (m (w, sch))))"

lemma keeps_ret [simp]: "keeps I (io_ret a)" and keeps_fail [simp]: "keeps I (io_fail e)"
  and keeps_get [simp]: "keeps I (io_get f)"
  by (simp_all add: keeps_def io_ret_def io_fail_def io_get_def world_of_def)

lemma keeps_bind:
  assumes m: "keeps I m" and f: "\<And>a. keeps I (f a)"
  shows "keeps I (io_bind m f)"
  unfolding keeps_def
proof (intro allI impI)
  fix w sch assume "I w"
  obtain o1 w1 s1 where m1: "m (w, sch) = (o1, w1, s1)" by (cases "m (w, sch)")
  have "I w1" using m \<open>I w\<close> m1 unfolding keeps_def world_of_def by (metis fst_conv snd_conv)
  then show "I (world_of (io_bind m f (w, sch)))"
    using f m1 unfolding keeps_def by (cases o1) (auto simp: io_bind_def world_of_def)
qed

lemma keeps_seq: "keeps I m \<Longrightarrow> keeps I k \<Longrightarrow> keeps I (io_seq m k)"
  unfolding io_seq_def by (rule keeps_bind)

lemma keeps_each: "(\<And>x. x \<in> set xs \<Longrightarrow> keeps I (f x)) \<Longrightarrow> keeps I (io_each f xs)"
  by (induction xs) (auto intro: keeps_seq)

lemma keeps_prim:
  assumes "\<And>w a w'. I w \<Longrightarrow> eff w = Some (a, w') \<Longrightarrow> I w'" and "\<And>w j. I w \<Longrightarrow> I (part j w)"
  shows "keeps I (prim msg eff part)"
  unfolding keeps_def
proof (intro allI impI)
  fix w sch assume I: "I w"
  show "I (world_of (prim msg eff part (w, sch)))"
    using assms(2) [OF I] assms(1) [OF I] I
    by (cases "eff w"; cases sch) (auto simp: prim_def world_of_def split: verdict.split)
qed

lemmas keeps_rules = keeps_bind keeps_seq keeps_each

section \<open>Schedules that reach a point\<close>

text \<open>\<open>traced m\<close>: what \<open>m\<close> does without faults it also does on a schedule of enough successes, which it
  uses up. So a schedule can place a fault right behind any program that returns.\<close>

definition traced :: "'a io \<Rightarrow> bool" where
  "traced m \<longleftrightarrow> (\<forall>w a v. m (w, []) = (Ret a, v, []) \<longrightarrow>
     (\<exists>k. \<forall>rest. m (w, replicate k Succeed @ rest) = (Ret a, v, rest)))"

lemma traced_ret [simp]: "traced (io_ret a)" and traced_fail [simp]: "traced (io_fail e)"
  and traced_get [simp]: "traced (io_get f)"
  by (auto simp: traced_def io_ret_def io_fail_def io_get_def intro!: exI [of _ "0::nat"])

lemma traced_prim [simp]: "traced (prim msg eff part)"
  by (auto simp: traced_def prim_def intro!: exI [of _ "1::nat"] split: option.splits)

text \<open>The empty schedule stays empty.\<close>

definition quiet :: "'a io \<Rightarrow> bool" where
  "quiet m \<longleftrightarrow> (\<forall>w. snd (snd (m (w, []))) = [])"

lemma quiet_ret [simp]: "quiet (io_ret a)" and quiet_fail [simp]: "quiet (io_fail e)"
  and quiet_get [simp]: "quiet (io_get f)" and quiet_prim [simp]: "quiet (prim msg eff part)"
  by (auto simp: quiet_def io_ret_def io_fail_def io_get_def prim_def split: option.split)

lemma quiet_bind: "quiet m \<Longrightarrow> (\<And>a. quiet (f a)) \<Longrightarrow> quiet (io_bind m f)"
  by (auto simp: quiet_def io_bind_def split: prod.splits outcome.splits)
    (metis prod.sel(2))+

lemma traced_bind:
  assumes "traced m" "quiet m" "\<And>a. traced (f a)"
  shows "traced (io_bind m f)"
  unfolding traced_def
proof (intro allI impI)
  fix w b v assume r: "io_bind m f (w, []) = (Ret b, v, [])"
  obtain o1 w1 s1 where m1: "m (w, []) = (o1, w1, s1)" by (cases "m (w, [])")
  moreover have "s1 = []" using assms(2) m1 by (auto simp: quiet_def dest: spec [of _ w])
  ultimately obtain a where a: "m (w, []) = (Ret a, w1, [])" "f a (w1, []) = (Ret b, v, [])"
    using r by (cases o1) (auto simp: io_bind_def)
  obtain k1 where k1: "\<forall>rest. m (w, replicate k1 Succeed @ rest) = (Ret a, w1, rest)"
    using assms(1) a(1) unfolding traced_def by blast
  obtain k2 where k2: "\<forall>rest. f a (w1, replicate k2 Succeed @ rest) = (Ret b, v, rest)"
    using assms(3) a(2) unfolding traced_def by blast
  have "io_bind m f (w, replicate (k1 + k2) Succeed @ rest) = (Ret b, v, rest)" for rest
    using k1 k2 by (simp add: io_bind_def replicate_add)
  then show "\<exists>k. \<forall>rest. io_bind m f (w, replicate k Succeed @ rest) = (Ret b, v, rest)" by blast
qed

definition replayable :: "'a io \<Rightarrow> bool" where
  "replayable m \<longleftrightarrow> traced m \<and> quiet m"

lemma replayable_basic [simp]:
  "replayable (io_ret a)" "replayable (io_fail e)" "replayable (io_get f)" "replayable (prim msg eff part)"
  by (simp_all add: replayable_def)

lemma replayable_bind: "replayable m \<Longrightarrow> (\<And>a. replayable (f a)) \<Longrightarrow> replayable (io_bind m f)"
  by (simp add: replayable_def traced_bind quiet_bind)

lemma replayable_seq: "replayable m \<Longrightarrow> replayable k \<Longrightarrow> replayable (io_seq m k)"
  unfolding io_seq_def by (rule replayable_bind)

lemma replayable_each: "(\<And>x. replayable (f x)) \<Longrightarrow> replayable (io_each f xs)"
  by (induction xs) (auto intro: replayable_seq)

text \<open>The run of a triple without faults, and a schedule that reproduces it.\<close>

lemma spec_replay:
  assumes "spec P m Q R" "replayable m" "P w"
  shows "\<exists>k a v. Q a v \<and> (\<forall>rest. m (w, replicate k Succeed @ rest) = (Ret a, v, rest))"
proof -
  obtain o1 v s1 where m1: "m (w, []) = (o1, v, s1)" by (cases "m (w, [])")
  have "good_end Q R [] (o1, v, s1)" using specD [OF assms(1,3), of "[]"] m1 by simp
  then obtain a where a: "o1 = Ret a" "Q a v" "s1 = []" by (cases o1) auto
  with m1 have "m (w, []) = (Ret a, v, [])" by simp
  then show ?thesis using assms(2) a(2) unfolding replayable_def traced_def by blast
qed

section \<open>The primitives the sources call\<close>

definition no_part :: "node option \<Rightarrow> world \<Rightarrow> world" where
  "no_part j w = w"

definition os_exists :: "path \<Rightarrow> bool io" where
  "os_exists p = io_get (\<lambda>w. get p w \<noteq> None)"

text \<open>\<open>os.Rename\<close> is atomic. It fails without a source, onto a non-empty directory, and when
  exactly one of the two is a directory.\<close>

definition rename_ok :: "node \<Rightarrow> node option \<Rightarrow> bool" where
  "rename_ok x y = (case y of None \<Rightarrow> True | Some z \<Rightarrow>
     (if is_dir x then z = Dir [] else \<not> is_dir z))"

definition os_Rename :: "string \<Rightarrow> path \<Rightarrow> path \<Rightarrow> unit io" where
  "os_Rename msg src dst = prim msg
     (\<lambda>w. case get src w of
        None \<Rightarrow> None
      | Some x \<Rightarrow> if rename_ok x (get dst w) then Some ((), put dst (Some x) (put src None w))
                 else None)
     no_part"

text \<open>\<open>os.RemoveAll\<close> is not atomic: an interrupted one leaves any remainder of the tree.\<close>

definition os_RemoveAll :: "string \<Rightarrow> path \<Rightarrow> unit io" where
  "os_RemoveAll msg p = prim msg (\<lambda>w. Some ((), put p None w))
     (\<lambda>j w. if get p w = None then w else put p j w)"

text \<open>\<open>os.Remove\<close> with its callers' tolerance of \<open>fs.ErrNotExist\<close>: one entry, not a
  non-empty directory.\<close>

definition os_Remove :: "string \<Rightarrow> path \<Rightarrow> unit io" where
  "os_Remove msg p = prim msg
     (\<lambda>w. case get p w of
        Some (Dir (_ # _)) \<Rightarrow> None
      | _ \<Rightarrow> Some ((), put p None w))
     no_part"

definition os_MkdirAll :: "string \<Rightarrow> path \<Rightarrow> unit io" where
  "os_MkdirAll msg p = prim msg
     (\<lambda>w. case get p w of
        None \<Rightarrow> Some ((), put p (Some (Dir [])) w)
      | Some (Dir _) \<Rightarrow> Some ((), w)
      | _ \<Rightarrow> None)
     no_part"

definition os_ReadDir :: "string \<Rightarrow> path \<Rightarrow> dir io" where
  "os_ReadDir msg p = prim msg
     (\<lambda>w. case get p w of Some (Dir d) \<Rightarrow> Some (sort_key fst d, w) | _ \<Rightarrow> None)
     no_part"

text \<open>\<open>os.Stat\<close> of a path: an error other than \<open>fs.ErrNotExist\<close> is a fault.\<close>

definition os_Stat :: "string \<Rightarrow> path \<Rightarrow> bool io" where
  "os_Stat msg p = prim msg (\<lambda>w. Some (get p w \<noteq> None, w)) no_part"

text \<open>\<open>os.ReadFile\<close>, with absence as \<open>None\<close>.\<close>

definition os_ReadFile :: "string \<Rightarrow> path \<Rightarrow> string option io" where
  "os_ReadFile msg p = prim msg
     (\<lambda>w. case get p w of
        None \<Rightarrow> Some (None, w)
      | Some (File s) \<Rightarrow> Some (Some s, w)
      | _ \<Rightarrow> None)
     no_part"

text \<open>\<open>FsyncDir\<close> and \<open>FsyncTree\<close> change no entry.\<close>

definition Fsync :: "string \<Rightarrow> path \<Rightarrow> unit io" where
  "Fsync msg p = prim msg
     (\<lambda>w. case get p w of None \<Rightarrow> None | Some _ \<Rightarrow> Some ((), w)) no_part"

definition FsyncParent :: "string \<Rightarrow> unit io" where
  "FsyncParent msg = prim msg (\<lambda>w. Some ((), w)) no_part"

definition CopyPathFaithful :: "string \<Rightarrow> path \<Rightarrow> path \<Rightarrow> unit io" where
  "CopyPathFaithful msg src dst = prim msg
     (\<lambda>w. case get src w of
        None \<Rightarrow> None
      | Some x \<Rightarrow> Some ((), put dst (Some (copy_node x)) w))
     (\<lambda>j w. put dst j w)"

text \<open>
  \<open>fileutil.AtomicWriteFile\<close>: a temporary file \<open>.<base>.tmp-*\<close> in the same directory, renamed
  over the target, then the directory synced. \<open>os.CreateTemp\<close> picks a name that does not exist;
  the model picks one longer than every existing name.
\<close>

definition tmp_suffix :: "string list \<Rightarrow> string" where
  "tmp_suffix names = replicate (Suc (sum_list (map length names))) (CHR ''0'')"

definition temp_name :: "string \<Rightarrow> string list \<Rightarrow> string" where
  "temp_name base names = ''.'' @ base @ ''.tmp-'' @ tmp_suffix names"

definition names_of :: "path \<Rightarrow> world \<Rightarrow> string list" where
  "names_of p w = (case get p w of Some (Dir d) \<Rightarrow> map fst d | _ \<Rightarrow> [])"

definition junk_file :: "node option \<Rightarrow> node option" where
  "junk_file j = (case j of Some (File s) \<Rightarrow> Some (File s) | _ \<Rightarrow> None)"

definition AtomicWriteFile :: "string \<Rightarrow> path \<Rightarrow> string \<Rightarrow> string \<Rightarrow> unit io" where
  "AtomicWriteFile msg d base data =
     io_bind (io_get (\<lambda>w. temp_name base (names_of d w))) (\<lambda>t.
       io_seq (prim msg
           (\<lambda>w. case get d w of
              Some (Dir _) \<Rightarrow> Some ((), put (Under d t) (Some (File data)) w)
            | _ \<Rightarrow> None)
           (\<lambda>j w. put (Under d t) (junk_file j) w))
       (io_seq (prim msg
           (\<lambda>w. if rename_ok (File data) (get (Under d base) w)
                then Some ((), put (Under d base) (Some (File data)) (put (Under d t) None w))
                else None)
           (\<lambda>j w. if j = None then put (Under d t) None w else w))
       (Fsync msg d)))"

lemma member_length_le: "n \<in> set names \<Longrightarrow> length n \<le> sum_list (map length names)"
  by (induction names) (auto simp: trans_le_add2)

lemma temp_name_fresh: "temp_name base names \<notin> set names"
proof
  assume "temp_name base names \<in> set names"
  then have "length (temp_name base names) \<le> sum_list (map length names)"
    by (rule member_length_le)
  then show False by (simp add: temp_name_def tmp_suffix_def)
qed

lemma get_put_same_top:
  "get (Live n) (put (Live n) x w) = x" "get Scratch (put Scratch x w) = x"
  "get TrashRoot (put TrashRoot x w) = x"
  by simp_all

text \<open>Reading changes nothing; writing below a top-level entry changes no other one.\<close>

lemma keeps_reads [simp]:
  "keeps I (os_exists p)" "keeps I (os_ReadDir msg p)" "keeps I (os_Stat msg p)" "keeps I (os_ReadFile msg p)"
  "keeps I (Fsync msg p)" "keeps I (FsyncParent msg)"
  unfolding os_exists_def os_ReadDir_def os_Stat_def os_ReadFile_def Fsync_def FsyncParent_def
  by (simp, (rule keeps_prim; auto simp: no_part_def split: option.splits node.splits)+)

fun live_root :: "path \<Rightarrow> string option" where
  "live_root (Live n) = Some n"
| "live_root (Under p _) = live_root p"
| "live_root _ = None"

lemma live_put_other: "live_root p \<noteq> Some n \<Longrightarrow> live (put p x w) n = live w n"
proof (induction p arbitrary: x)
  case (Under p e)
  then show ?case by (auto split: option.split node.split)
qed auto

lemma keeps_AtomicWriteFile:
  assumes "\<And>w e x. I w \<Longrightarrow> I (put (Under d e) x w)"
  shows "keeps I (AtomicWriteFile msg d base data)"
  unfolding AtomicWriteFile_def
  by (intro keeps_bind keeps_seq keeps_get keeps_prim keeps_reads)
    (auto intro!: assms simp del: put.simps get.simps split: option.splits node.splits if_splits)

lemma replayable_prims [simp]:
  "replayable (os_exists p)" "replayable (os_Rename msg p q)" "replayable (os_RemoveAll msg p)"
  "replayable (os_Remove msg p)" "replayable (os_MkdirAll msg p)" "replayable (os_ReadDir msg p)"
  "replayable (os_Stat msg p)" "replayable (os_ReadFile msg p)" "replayable (Fsync msg p)"
  "replayable (FsyncParent msg)" "replayable (CopyPathFaithful msg p q)"
  "replayable (AtomicWriteFile msg p base data)"
  unfolding os_exists_def os_Rename_def os_RemoveAll_def os_Remove_def os_MkdirAll_def os_ReadDir_def
    os_Stat_def os_ReadFile_def Fsync_def FsyncParent_def CopyPathFaithful_def AtomicWriteFile_def
  by (simp_all add: replayable_bind replayable_seq)

end
