(* ===== verification/DirRules.thy ===== *)
theory DirRules
  imports FaultIO
begin

text \<open>
  Proof rules for the primitives of the fault-prone machine when they work inside one top-level
  directory. A directory is described by the finite map of its entries: \<open>dir_at t w0 P\<close> says that
  the world is \<open>w0\<close> with a directory at \<open>t\<close> whose entry map satisfies \<open>P\<close>. The promotion and
  its clients are verified over these maps, never over association lists.
\<close>

section \<open>Top-level directories\<close>

definition top_path :: "path \<Rightarrow> bool" where
  "top_path t = (case t of Under _ _ \<Rightarrow> False | _ \<Rightarrow> True)"

lemma top_path_simps [simp]: "top_path (Live n)" "top_path Scratch" "top_path TrashRoot" "\<not> top_path (Under q n)"
  by (simp_all add: top_path_def)

text \<open>\<open>slot t w\<close>: in the world \<open>w\<close> a directory can be stored at \<open>t\<close> and read back. It holds of
  every top-level path, and of an entry of a directory that is there.\<close>

definition slot :: "path \<Rightarrow> world \<Rightarrow> bool" where
  "slot t w \<longleftrightarrow> (\<forall>N. get t (put t (Some (Dir N)) w) = Some (Dir N)) \<and>
     (\<forall>N M. put t (Some (Dir M)) (put t (Some (Dir N)) w) = put t (Some (Dir M)) w)"

lemma get_put_slot [simp]: "slot t w \<Longrightarrow> get t (put t (Some (Dir N)) w) = Some (Dir N)"
  by (simp add: slot_def)

lemma put_put_slot [simp]:
  "slot t w \<Longrightarrow> put t (Some (Dir M)) (put t (Some (Dir N)) w) = put t (Some (Dir M)) w"
  by (simp add: slot_def)

lemma slot_top [simp]: "top_path t \<Longrightarrow> slot t w"
  by (cases t) (auto simp: slot_def)

lemma update_update: "AList.update k v (AList.update k u d) = AList.update k v d"
  by (induction d) auto

lemma slot_under:
  assumes "slot q w" and "get q w = Some (Dir D)"
  shows "slot (Under q n) w"
  using assms by (simp add: slot_def [of "Under q n"] set_entry_def update_update)

definition dir_at :: "path \<Rightarrow> world \<Rightarrow> ((string \<rightharpoonup> node) \<Rightarrow> bool) \<Rightarrow> world \<Rightarrow> bool" where
  "dir_at t w0 P w \<longleftrightarrow>
     (\<exists>N. distinct (map fst N) \<and> P (map_of N) \<and> w = put t (Some (Dir N)) w0)"

lemma dir_atI: "distinct (map fst N) \<Longrightarrow> P (map_of N) \<Longrightarrow> w = put t (Some (Dir N)) w0 \<Longrightarrow>
    dir_at t w0 P w"
  by (auto simp: dir_at_def)

lemma dir_atE:
  assumes "dir_at t w0 P w"
  obtains N where "distinct (map fst N)" "P (map_of N)" "w = put t (Some (Dir N)) w0"
  using assms by (auto simp: dir_at_def)

lemma dir_at_put: "distinct (map fst N) \<Longrightarrow> P (map_of N) \<Longrightarrow> dir_at t w0 P (put t (Some (Dir N)) w0)"
  by (auto simp: dir_at_def)

lemma dir_at_mono: "dir_at t w0 P w \<Longrightarrow> (\<And>m. P m \<Longrightarrow> Q m) \<Longrightarrow> dir_at t w0 Q w"
  by (auto simp: dir_at_def)

lemma dir_at_set_entry:
  assumes "distinct (map fst N)" "Q ((map_of N)(n := x))" "slot t w0"
  shows "dir_at t w0 Q (put (Under t n) x (put t (Some (Dir N)) w0))"
  using assms by (intro dir_atI [of "set_entry n x N"]) auto

definition not_dir :: "node option \<Rightarrow> bool" where
  "not_dir x = (case x of Some y \<Rightarrow> \<not> is_dir y | None \<Rightarrow> True)"

lemma not_dir_simps [simp]:
  "not_dir None" "not_dir (Some (File s))" "not_dir (Some (Symlink s))" "\<not> not_dir (Some (Dir d))"
  by (simp_all add: not_dir_def)

lemma not_dir_junk_file [simp]: "not_dir (junk_file j)"
  by (auto simp: junk_file_def split: option.split node.split)

section \<open>Rules\<close>

lemma dir_get:
  "(\<And>m. P m \<Longrightarrow> Q m) \<Longrightarrow> spec (dir_at t w0 P) (io_ret a) (\<lambda>_. dir_at t w0 Q) R"
  by (rule spec_ret) (erule dir_at_mono)

lemma dir_ReadDir:
  assumes "slot t w0" and "\<And>m. P m \<Longrightarrow> R m"
  shows "spec (dir_at t w0 P) (os_ReadDir msg t)
    (\<lambda>ds. dir_at t w0 (\<lambda>m. P m \<and> map_of ds = m \<and> distinct (map fst ds))) (dir_at t w0 R)"
  unfolding os_ReadDir_def
proof (rule spec_prim)
  fix w assume "dir_at t w0 P w"
  then obtain N where N: "distinct (map fst N)" "P (map_of N)" "w = put t (Some (Dir N)) w0"
    by (rule dir_atE)
  have d: "distinct (map fst (sort_key fst N))"
    using N(1) by (metis distinct_map distinct_sort set_sort)
  have "map_of (sort_key fst N) = map_of N"
    by (rule map_of_inject_set [THEN iffD2]) (use N(1) d in auto)
  with N d assms(1)
  show "\<exists>a w'. (case get t w of Some (Dir d) \<Rightarrow> Some (sort_key fst d, w) | _ \<Rightarrow> None) = Some (a, w')
      \<and> dir_at t w0 (\<lambda>m. P m \<and> map_of a = m \<and> distinct (map fst a)) w'"
    by (auto intro!: dir_atI)
next
  fix w j assume "dir_at t w0 P w"
  then show "dir_at t w0 R (no_part j w)"
    unfolding no_part_def by (rule dir_at_mono) (rule assms(2))
qed

lemma dir_RemoveAll:
  assumes "slot t w0" and "\<And>m. P m \<Longrightarrow> Q (m(n := None))"
    and "\<And>m. P m \<Longrightarrow> R m" and "\<And>m j. P m \<Longrightarrow> m n \<noteq> None \<Longrightarrow> R (m(n := j))"
  shows "spec (dir_at t w0 P) (os_RemoveAll msg (Under t n)) (\<lambda>_. dir_at t w0 Q) (dir_at t w0 R)"
  unfolding os_RemoveAll_def
proof (rule spec_prim)
  fix w assume "dir_at t w0 P w"
  then obtain N where N: "distinct (map fst N)" "P (map_of N)" "w = put t (Some (Dir N)) w0"
    by (rule dir_atE)
  have "dir_at t w0 Q (put (Under t n) None w)"
    unfolding N(3) by (rule dir_at_set_entry [where Q = Q, OF N(1) assms(2) [OF N(2)] assms(1)])
  then show "\<exists>a w'. Some ((), put (Under t n) None w) = Some (a, w') \<and> dir_at t w0 Q w'" by blast
next
  fix w j assume "dir_at t w0 P w"
  then obtain N where N: "distinct (map fst N)" "P (map_of N)" "w = put t (Some (Dir N)) w0"
    by (rule dir_atE)
  show "dir_at t w0 R (if get (Under t n) w = None then w else put (Under t n) j w)"
  proof (cases "map_of N n = None")
    case True
    with N assms(1) show ?thesis by (auto intro!: dir_atI assms(3))
  next
    case False
    have "dir_at t w0 R (put (Under t n) j w)"
      unfolding N(3) by (rule dir_at_set_entry [where Q = R, OF N(1) assms(4) [OF N(2) False] assms(1)])
    moreover from False obtain x where "map_of N n = Some x" by blast
    ultimately show ?thesis using N assms(1) by simp
  qed
qed

lemma dir_Remove:
  assumes "slot t w0" and "\<And>m. P m \<Longrightarrow> not_dir (m n)" and "\<And>m. P m \<Longrightarrow> Q (m(n := None))"
    and "\<And>m. P m \<Longrightarrow> R m"
  shows "spec (dir_at t w0 P) (os_Remove msg (Under t n)) (\<lambda>_. dir_at t w0 Q) (dir_at t w0 R)"
  unfolding os_Remove_def
proof (rule spec_prim)
  fix w assume "dir_at t w0 P w"
  then obtain N where N: "distinct (map fst N)" "P (map_of N)" "w = put t (Some (Dir N)) w0"
    by (rule dir_atE)
  have "dir_at t w0 Q (put (Under t n) None w)"
    unfolding N(3) by (rule dir_at_set_entry [where Q = Q, OF N(1) assms(3) [OF N(2)] assms(1)])
  moreover have "not_dir (get (Under t n) w)" using N assms(1,2) by simp
  ultimately show "\<exists>a w'. (case get (Under t n) w of Some (Dir (_ # _)) \<Rightarrow> None
      | _ \<Rightarrow> Some ((), put (Under t n) None w)) = Some (a, w') \<and> dir_at t w0 Q w'"
    by (cases "get (Under t n) w") (auto simp: not_dir_def split: node.splits)
next
  fix w j assume "dir_at t w0 P w"
  then show "dir_at t w0 R (no_part j w)"
    unfolding no_part_def by (rule dir_at_mono) (rule assms(4))
qed

lemma dir_Fsync:
  assumes "slot t w0" and "\<And>m. P m \<Longrightarrow> R m"
  shows "spec (dir_at t w0 P) (Fsync msg t) (\<lambda>_. dir_at t w0 P) (dir_at t w0 R)"
  unfolding Fsync_def
  by (rule spec_prim) (use assms in \<open>auto simp: no_part_def elim!: dir_atE intro: dir_atI\<close>)

lemma dir_Fsync_entry:
  assumes "slot t w0" and "\<And>m. P m \<Longrightarrow> m n \<noteq> None" and "\<And>m. P m \<Longrightarrow> R m"
  shows "spec (dir_at t w0 P) (Fsync msg (Under t n)) (\<lambda>_. dir_at t w0 P) (dir_at t w0 R)"
  unfolding Fsync_def
proof (rule spec_prim)
  fix w assume a: "dir_at t w0 P w"
  then obtain N where N: "distinct (map fst N)" "P (map_of N)" "w = put t (Some (Dir N)) w0"
    by (rule dir_atE)
  from assms(2) [OF N(2)] obtain x where "map_of N n = Some x" by blast
  with N a assms(1)
  show "\<exists>a w'. (case get (Under t n) w of None \<Rightarrow> None | Some _ \<Rightarrow> Some ((), w)) = Some (a, w')
      \<and> dir_at t w0 P w'" by simp
next
  fix w j assume "dir_at t w0 P w"
  then show "dir_at t w0 R (no_part j w)"
    unfolding no_part_def by (rule dir_at_mono) (rule assms(3))
qed

lemma dir_step:
  assumes "\<And>m. P m \<Longrightarrow> R m"
  shows "spec (dir_at t w0 P) (prim msg (\<lambda>w. Some ((), w)) no_part) (\<lambda>_. dir_at t w0 P) (dir_at t w0 R)"
  by (rule spec_prim) (auto simp: no_part_def elim: dir_at_mono intro: assms)

lemma dir_Stat:
  assumes "slot t w0" and "\<And>m. P m \<Longrightarrow> R m"
  shows "spec (dir_at t w0 P) (os_Stat msg (Under t n))
    (\<lambda>b. dir_at t w0 (\<lambda>m. P m \<and> b = (m n \<noteq> None))) (dir_at t w0 R)"
  unfolding os_Stat_def
  by (rule spec_prim) (use assms in \<open>auto simp: no_part_def elim!: dir_atE intro!: dir_atI\<close>)

lemma dir_Copy_in:
  assumes "slot t w0" and "\<And>N. get src (put t (Some (Dir N)) w0) = Some x"
    and "\<And>m. P m \<Longrightarrow> Q (m(n \<mapsto> x))" and "\<And>m j. P m \<Longrightarrow> R (m(n := j))"
  shows "spec (dir_at t w0 P) (CopyPathFaithful msg src (Under t n)) (\<lambda>_. dir_at t w0 Q) (dir_at t w0 R)"
  unfolding CopyPathFaithful_def
proof (rule spec_prim)
  fix w assume "dir_at t w0 P w"
  then obtain N where N: "distinct (map fst N)" "P (map_of N)" "w = put t (Some (Dir N)) w0"
    by (rule dir_atE)
  have "dir_at t w0 Q (put (Under t n) (Some x) w)"
    unfolding N(3) by (rule dir_at_set_entry [where Q = Q, OF N(1) assms(3) [OF N(2)] assms(1)])
  with N assms(2)
  show "\<exists>a w'. (case get src w of None \<Rightarrow> None
      | Some x \<Rightarrow> Some ((), put (Under t n) (Some (copy_node x)) w)) = Some (a, w') \<and> dir_at t w0 Q w'"
    by simp
next
  fix w j assume "dir_at t w0 P w"
  then obtain N where N: "distinct (map fst N)" "P (map_of N)" "w = put t (Some (Dir N)) w0"
    by (rule dir_atE)
  show "dir_at t w0 R (put (Under t n) j w)"
    unfolding N(3) by (rule dir_at_set_entry [where Q = R, OF N(1) assms(4) [OF N(2)] assms(1)])
qed

lemma dir_Rename_entry:
  assumes "slot t w0" and "a \<noteq> b" and "\<And>m. P m \<Longrightarrow> m a = Some x \<and> m b = None"
    and "\<And>m. P m \<Longrightarrow> Q (m(a := None, b \<mapsto> x))" and "\<And>m. P m \<Longrightarrow> R m"
  shows "spec (dir_at t w0 P) (os_Rename msg (Under t a) (Under t b)) (\<lambda>_. dir_at t w0 Q) (dir_at t w0 R)"
  unfolding os_Rename_def
proof (rule spec_prim)
  fix w assume "dir_at t w0 P w"
  then obtain N where N: "distinct (map fst N)" "P (map_of N)" "w = put t (Some (Dir N)) w0"
    by (rule dir_atE)
  let ?M = "set_entry b (Some x) (set_entry a None N)"
  from assms(3) [OF N(2)] have m: "map_of N a = Some x" "map_of N b = None" by auto
  have "dir_at t w0 Q (put t (Some (Dir ?M)) w0)"
    by (rule dir_atI) (use N(1) assms(4) [OF N(2)] in auto)
  with m N(3) assms(1)
  show "\<exists>c w'. (case get (Under t a) w of None \<Rightarrow> None
      | Some x \<Rightarrow> if rename_ok x (get (Under t b) w)
                  then Some ((), put (Under t b) (Some x) (put (Under t a) None w)) else None) = Some (c, w')
      \<and> dir_at t w0 Q w'"
    by (simp add: rename_ok_def)
next
  fix w j assume "dir_at t w0 P w"
  then show "dir_at t w0 R (no_part j w)"
    unfolding no_part_def by (rule dir_at_mono) (rule assms(5))
qed

text \<open>The atomic write: nothing but a stray temporary file, or the finished target, is ever seen.\<close>

lemma temp_name_not_base: "temp_name base names \<noteq> base"
proof
  assume "temp_name base names = base"
  then have "length (temp_name base names) = length base" by simp
  then show False by (simp add: temp_name_def)
qed

lemma temp_name_write_temp:
  "HasPrefix (temp_name base names) ''.''" "Contains (temp_name base names) ''.tmp-''"
  proof -
  have "temp_name base names = (''.'' @ base) @ ''.tmp-'' @ tmp_suffix names"
    by (simp add: temp_name_def)
  then show "Contains (temp_name base names) ''.tmp-''" unfolding Contains_iff by blast
  show "HasPrefix (temp_name base names) ''.''" by (simp add: temp_name_def go_string)
qed

lemma dir_AtomicWriteFile:
  assumes t: "slot t w0" and base: "\<And>m. P m \<Longrightarrow> not_dir (m base)"
    and Q: "\<And>m. P m \<Longrightarrow> Q (m(base \<mapsto> File data))"
    and R: "\<And>m. P m \<Longrightarrow> R (m(base \<mapsto> File data))"
    and R': "\<And>m n names x. P m \<Longrightarrow> n = temp_name base names \<Longrightarrow> m n = None \<Longrightarrow> not_dir x \<Longrightarrow>
      R (m(n := x))"
  shows "spec (dir_at t w0 P) (AtomicWriteFile msg t base data) (\<lambda>_. dir_at t w0 Q) (dir_at t w0 R)"
proof (rule spec_fixed)
  fix w1 assume "dir_at t w0 P w1"
  then obtain N where N: "distinct (map fst N)" "P (map_of N)" "w1 = put t (Some (Dir N)) w0"
    by (rule dir_atE)
  define tn where "tn = temp_name base (map fst N)"
  let ?m = "map_of N"
  let ?M1 = "\<lambda>m. m = ?m(tn \<mapsto> File data)" and ?M2 = "\<lambda>m. m = ?m(base \<mapsto> File data)"
  have fresh: "?m tn = None" "tn \<noteq> base"
    using temp_name_fresh [of base "map fst N"] temp_name_not_base
    by (auto simp: tn_def map_of_eq_None_iff)
  have ok: "rename_ok (File data) (?m base)"
    using base [OF N(2)] by (auto simp: rename_ok_def not_dir_def split: option.split)
  have R1: "not_dir x \<Longrightarrow> R (?m(tn := x))" for x
    by (rule R' [OF N(2) tn_def fresh(1)])
  have s1: "spec (\<lambda>w. w = w1) (prim msg
      (\<lambda>w. case get t w of Some (Dir _) \<Rightarrow> Some ((), put (Under t tn) (Some (File data)) w) | _ \<Rightarrow> None)
      (\<lambda>j w. put (Under t tn) (junk_file j) w)) (\<lambda>_. dir_at t w0 ?M1) (dir_at t w0 R)"
    by (rule spec_prim) (use t N R1 in \<open>simp_all add: dir_at_put\<close>)
  have s2: "spec (dir_at t w0 ?M1) (prim msg
      (\<lambda>w. if rename_ok (File data) (get (Under t base) w)
           then Some ((), put (Under t base) (Some (File data)) (put (Under t tn) None w)) else None)
      (\<lambda>j w. if j = None then put (Under t tn) None w else w))
      (\<lambda>_. dir_at t w0 ?M2) (dir_at t w0 R)"
  proof (rule spec_prim)
    fix w assume "dir_at t w0 ?M1 w"
    then obtain X where X: "distinct (map fst X)" "map_of X = ?m(tn \<mapsto> File data)"
        "w = put t (Some (Dir X)) w0" by (rule dir_atE)
    have "map_of (set_entry base (Some (File data)) (set_entry tn None X)) = ?m(base \<mapsto> File data)"
      using X(2) fresh by (auto simp: fun_eq_iff)
    with X fresh ok t
    show "\<exists>a w'. (if rename_ok (File data) (get (Under t base) w)
           then Some ((), put (Under t base) (Some (File data)) (put (Under t tn) None w)) else None) = Some (a, w')
        \<and> dir_at t w0 ?M2 w'"
      by (auto intro!: dir_at_put)
  next
    fix w j assume "dir_at t w0 ?M1 w"
    then obtain X where X: "distinct (map fst X)" "map_of X = ?m(tn \<mapsto> File data)"
        "w = put t (Some (Dir X)) w0" by (rule dir_atE)
    have "dir_at t w0 R w"
      by (rule dir_atI [OF X(1) _ X(3)]) (simp add: X(2) R1)
    moreover have "dir_at t w0 R (put (Under t tn) None w)"
      unfolding X(3) by (rule dir_at_set_entry [OF X(1) _ t]) (simp add: X(2) R1)
    ultimately show "dir_at t w0 R (if j = None then put (Under t tn) None w else w)" by simp
  qed
  have s3: "spec (dir_at t w0 ?M2) (Fsync msg t) (\<lambda>_. dir_at t w0 Q) (dir_at t w0 R)"
  proof (rule spec_post [OF dir_Fsync [OF t, where R = R]])
    fix m assume "?M2 m" then show "R m" using R [OF N(2)] by simp
  next
    fix a w assume "dir_at t w0 ?M2 w"
    then show "dir_at t w0 Q w" by (rule dir_at_mono) (use Q [OF N(2)] in simp)
  qed
  have "names_of t w1 = map fst N" using t N by (simp add: names_of_def)
  then have g: "spec (\<lambda>w. w = w1) (io_get (\<lambda>w. temp_name base (names_of t w)))
      (\<lambda>tn' w. w = w1 \<and> tn' = tn) (dir_at t w0 R)"
    by (intro spec_get) (simp add: tn_def)
  show "spec (\<lambda>w. w = w1) (AtomicWriteFile msg t base data) (\<lambda>_. dir_at t w0 Q) (dir_at t w0 R)"
    unfolding AtomicWriteFile_def
  proof (rule spec_bind [OF g], rule spec_fixed)
    fix tn' v assume "v = w1 \<and> tn' = tn"
    then have eq: "v = w1" "tn' = tn" by auto
    show "spec (\<lambda>w. w = v) (io_seq (prim msg
      (\<lambda>w. case get t w of Some (Dir _) \<Rightarrow> Some ((), put (Under t tn') (Some (File data)) w) | _ \<Rightarrow> None)
      (\<lambda>j w. put (Under t tn') (junk_file j) w)) (io_seq (prim msg
      (\<lambda>w. if rename_ok (File data) (get (Under t base) w)
           then Some ((), put (Under t base) (Some (File data)) (put (Under t tn') None w)) else None)
      (\<lambda>j w. if j = None then put (Under t tn') None w else w)) (Fsync msg t)))
      (\<lambda>_. dir_at t w0 Q) (dir_at t w0 R)"
      unfolding eq by (rule spec_seq [OF s1 spec_seq [OF s2 s3]])
  qed
qed

lemma dir_ReadFile_bind:
  assumes "slot t w0" and "\<And>m. P m \<Longrightarrow> m n = map_option File x" and "\<And>m. P m \<Longrightarrow> R m"
    and "spec (dir_at t w0 P) (f x) Q (dir_at t w0 R)"
  shows "spec (dir_at t w0 P) (io_bind (os_ReadFile msg (Under t n)) f) Q (dir_at t w0 R)"
proof -
  have "spec (dir_at t w0 P) (os_ReadFile msg (Under t n)) (\<lambda>r w. dir_at t w0 P w \<and> r = x) (dir_at t w0 R)"
    unfolding os_ReadFile_def
  proof (rule spec_prim)
    fix w assume a: "dir_at t w0 P w"
    then obtain N where N: "P (map_of N)" "w = put t (Some (Dir N)) w0" by (auto elim: dir_atE)
    then have "get (Under t n) w = map_option File x" using assms(1) assms(2) [OF N(1)] by simp
    then show "\<exists>a w'. (case get (Under t n) w of None \<Rightarrow> Some (None, w) | Some (File s) \<Rightarrow> Some (Some s, w)
        | Some _ \<Rightarrow> None) = Some (a, w') \<and> dir_at t w0 P w' \<and> a = x"
      using a by (cases x) (simp_all del: get.simps)
  next
    fix w j assume "dir_at t w0 P w"
    then show "dir_at t w0 R (no_part j w)"
      unfolding no_part_def by (rule dir_at_mono) (rule assms(3))
  qed
  then show ?thesis
  proof (rule spec_bind)
    fix a show "spec (\<lambda>w. dir_at t w0 P w \<and> a = x) (f a) Q (dir_at t w0 R)"
      by (cases "a = x") (use assms(4) in \<open>auto simp: spec_def\<close>)
  qed
qed

section \<open>Rules at one exact world\<close>

lemma exact_ReadDir:
  "get p v = Some (Dir d) \<Longrightarrow> R v \<Longrightarrow>
   spec (\<lambda>w. w = v) (os_ReadDir msg p) (\<lambda>ds w. w = v \<and> ds = sort_key fst d) R"
  unfolding os_ReadDir_def by (rule spec_prim) (auto simp: no_part_def)

lemma exact_ReadFile:
  "get p v = None \<or> (\<exists>s. get p v = Some (File s)) \<Longrightarrow> R v \<Longrightarrow>
   spec (\<lambda>w. w = v) (os_ReadFile msg p)
     (\<lambda>r w. w = v \<and> r = (case get p v of Some (File s) \<Rightarrow> Some s | _ \<Rightarrow> None)) R"
  unfolding os_ReadFile_def by (rule spec_prim) (auto simp: no_part_def)

lemma exact_exists:
  "spec (\<lambda>w. w = v) (os_exists p) (\<lambda>b w. w = v \<and> b = (get p v \<noteq> None)) R"
  unfolding os_exists_def by (rule spec_get) simp

lemma exact_MkdirAll:
  "get p v = None \<or> (\<exists>d. get p v = Some (Dir d)) \<Longrightarrow> R v \<Longrightarrow>
   spec (\<lambda>w. w = v) (os_MkdirAll msg p)
     (\<lambda>_ w. w = (if get p v = None then put p (Some (Dir [])) v else v)) R"
  unfolding os_MkdirAll_def by (rule spec_prim) (auto simp: no_part_def)

lemma exact_Copy:
  "get src v = Some x \<Longrightarrow> (\<And>j. R (put dst j v)) \<Longrightarrow>
   spec (\<lambda>w. w = v) (CopyPathFaithful msg src dst) (\<lambda>_ w. w = put dst (Some x) v) R"
  unfolding CopyPathFaithful_def by (rule spec_prim) auto

text \<open>Binding at an exact world: the continuation starts in the same world, with the known value.\<close>

lemma exact_bind:
  "spec (\<lambda>w. w = v) m (\<lambda>a w. w = v \<and> a = c) R \<Longrightarrow> spec (\<lambda>w. w = v) (f c) Q R \<Longrightarrow>
   spec (\<lambda>w. w = v) (io_bind m f) Q R"
  by (rule spec_bind, assumption) (rule spec_fixed, auto)

section \<open>Paths inside the scratch directory\<close>

fun in_scratch :: "path \<Rightarrow> bool" where
  "in_scratch Scratch = True"
| "in_scratch (Under p n) = in_scratch p"
| "in_scratch _ = False"

lemma put_in_scratch: "in_scratch p \<Longrightarrow> \<exists>x. put p y w = w\<lparr>scratch := x\<rparr>"
proof (induction p arbitrary: y)
  case (Under p n)
  have "w = w\<lparr>scratch := scratch w\<rparr>" by simp
  then have "\<exists>x. w = w\<lparr>scratch := x\<rparr>" by blast
  then show ?case using Under by (auto split: option.split node.split)
qed auto

lemma put_in_scratch': "in_scratch p \<Longrightarrow> \<exists>x. put p y (w\<lparr>scratch := z\<rparr>) = w\<lparr>scratch := x\<rparr>"
  using put_in_scratch [of p y "w\<lparr>scratch := z\<rparr>"] by auto

lemma set_entry_new: "n \<notin> fst ` set X \<Longrightarrow> set_entry n (Some x) X = X @ [(n, x)]"
  unfolding set_entry_def by (induction X) auto

lemma set_entry_last: "n \<notin> fst ` set X \<Longrightarrow> set_entry n (Some x) (X @ [(n, y)]) = X @ [(n, x)]"
  unfolding set_entry_def by (induction X) auto

lemma map_of_last: "n \<notin> fst ` set X \<Longrightarrow> map_of (X @ [(n, x)]) n = Some x"
  by (simp add: map_add_def map_of_eq_None_iff [THEN iffD2])

lemma map_of_last_add: "n \<notin> fst ` set X \<Longrightarrow> ([n \<mapsto> x] ++ map_of X) n = Some x"
  by (simp add: map_add_def map_of_eq_None_iff [THEN iffD2])

end
