(* ===== verification/Environment.thy ===== *)
theory Environment
  imports DirRules SandboxLayout
begin

text \<open>
  The sandbox record \<open>environment.json\<close> of \<open>store/environment.go\<close>: the struct, its accessors, the
  in-struct migration ladder, and loading and saving it. The JSON codec is Go's \<open>encoding/json\<close>, a
  parameter; the backend registry that the ladder consults (\<open>runtime.Descriptor\<close>) is a parameter
  too, since which backends it holds depends on the platform. Files are those of the fault-prone
  machine.
\<close>

section \<open>The records\<close>

definition metaVersion :: int where "metaVersion = 3"

record DirEnvironment =
  HostPath :: string
  MountPath :: string
  Mode :: string
  BaselineSHA :: string
  InceptionSHA :: string
  IncludeIgnored :: bool
  StripHistory :: bool

record ResourceLimits =
  CPUs :: string
  Memory :: string

record Environment =
  Version :: int
  YoloaiVersion :: string
  EnvName :: string
  Principal :: string
  CreatedAt :: int
  BackendType :: string
  Profile :: string
  ImageRef :: string
  Headless :: bool
  Dirs :: "DirEnvironment list"
  LegacyWorkdir :: "DirEnvironment option"
  LegacyDirectories :: "DirEnvironment list"
  HasPrompt :: bool
  Ports :: "string list"
  Resources :: "ResourceLimits option"
  Mounts :: "string list"
  CapAdd :: "string list"
  Devices :: "string list"
  Setup :: "string list"
  AutoCommitInterval :: int
  Debug :: bool
  UsernsMode :: string
  Isolation :: string
  HostFilesystem :: bool
  VscodeTunnel :: bool
  BrokerCredentials :: bool
  BrokerDisabled :: bool
  Archetype :: string

definition Workdir :: "Environment \<Rightarrow> DirEnvironment option" where
  "Workdir e = (case Dirs e of [] \<Rightarrow> None | d # _ \<Rightarrow> Some d)"

definition AuxDirs :: "Environment \<Rightarrow> DirEnvironment list" where
  "AuxDirs e = (if length (Dirs e) \<le> 1 then [] else drop 1 (Dirs e))"

definition MountPaths :: "Environment \<Rightarrow> string list" where
  "MountPaths e = filter (\<lambda>p. p \<noteq> []) (map MountPath (Dirs e))"

definition DirModeCopy :: string where "DirModeCopy = ''copy''"

definition TrackedDirs :: "Environment \<Rightarrow> nat list" where
  "TrackedDirs e = filter (\<lambda>i. Mode (Dirs e ! i) = DirModeCopy) [0..<length (Dirs e)]"

definition Dir_of :: "Environment \<Rightarrow> string \<Rightarrow> DirEnvironment option" where
  "Dir_of e hostPath =
     (if hostPath = [] then Workdir e else find (\<lambda>d. HostPath d = hostPath) (Dirs e))"

definition ContainerUser :: "Environment option \<Rightarrow> int \<Rightarrow> string" where
  "ContainerUser meta hostUID = (case meta of
       None \<Rightarrow> ''yoloai''
     | Some m \<Rightarrow>
         if UsernsMode m = ''keep-id'' then []
         else if Isolation m = ''container-enhanced''
              then (if hostUID < 0 then ''-'' @ Itoa (nat (- hostUID)) else Itoa (nat hostUID))
         else ''yoloai'')"

section \<open>The migration ladder\<close>

text \<open>\<open>descriptor b\<close> is the \<open>HostFilesystem\<close> capability of backend \<open>b\<close>, if it is registered.\<close>

definition migrate_v0 :: "(string \<Rightarrow> bool option) \<Rightarrow> Environment \<Rightarrow> Environment" where
  "migrate_v0 descriptor m =
     (let m1 = (if BackendType m = [] then m\<lparr>BackendType := ''docker''\<rparr> else m);
          m2 = (if ImageRef m1 = [] then m1\<lparr>ImageRef := ''yoloai-base''\<rparr> else m1);
          m3 = (case descriptor (BackendType m2) of Some h \<Rightarrow> m2\<lparr>HostFilesystem := h\<rparr> | None \<Rightarrow> m2)
      in m3\<lparr>Version := 1\<rparr>)"

definition migrate_v1 :: "Environment \<Rightarrow> Environment" where
  "migrate_v1 m =
     (let m1 = (case LegacyWorkdir m of
            Some w \<Rightarrow> if Dirs m = [] then m\<lparr>Dirs := w # LegacyDirectories m\<rparr> else m
          | None \<Rightarrow> m)
      in m1\<lparr>LegacyWorkdir := None, LegacyDirectories := [], Version := 2\<rparr>)"

definition migrate :: "(string \<Rightarrow> bool option) \<Rightarrow> Environment \<Rightarrow> (string, Environment) result" where
  "migrate descriptor m =
     (if Version m > metaVersion then Inl ''sandbox was created with a newer version of yoloai''
      else
        let m1 = (if Version m < 1 then migrate_v0 descriptor m else m);
            m2 = (if Version m1 < 2 then migrate_v1 m1 else m1)
        in Inr m2)"

section \<open>Loading and saving\<close>

record json_env =
  probe :: "string \<Rightarrow> int option"
  unmarshal :: "string \<Rightarrow> Environment option"
  marshal :: "Environment \<Rightarrow> string"

definition decode_env :: "json_env \<Rightarrow> string \<Rightarrow> (string, Environment) result" where
  "decode_env J data = (case probe J data of
       None \<Rightarrow> Inl ''parse environment.json''
     | Some v \<Rightarrow>
         if v > metaVersion then Inl ''sandbox was created with a newer version of yoloai''
         else if v < metaVersion then Inl ''environment.json needs migration''
         else (case unmarshal J data of
              None \<Rightarrow> Inl ''parse environment.json''
            | Some m \<Rightarrow> Inr m))"

definition LoadEnvironmentFrom :: "json_env \<Rightarrow> path \<Rightarrow> Environment io" where
  "LoadEnvironmentFrom J p = io_bind (os_ReadFile ''read environment.json'' p) (\<lambda>r. case r of
       None \<Rightarrow> io_fail ''read environment.json''
     | Some data \<Rightarrow> (case decode_env J data of
           Inl e \<Rightarrow> io_fail e
         | Inr m \<Rightarrow> io_ret m))"

definition LoadEnvironment :: "json_env \<Rightarrow> path \<Rightarrow> Environment io" where
  "LoadEnvironment J d = LoadEnvironmentFrom J (Under (Under d HostTierName) EnvironmentFileName)"

definition EnsureHostTier :: "path \<Rightarrow> unit io" where
  "EnsureHostTier d = io_bind (os_Stat ''stat sandbox dir'' d) (\<lambda>present.
     if present then os_MkdirAll ''create host tier'' (Under d HostTierName)
     else io_fail ''no such sandbox dir'')"

text \<open>\<open>SaveEnvironmentTo\<close>, with the directory and the base name of its path.\<close>

definition SaveEnvironmentTo :: "json_env \<Rightarrow> path \<Rightarrow> string \<Rightarrow> Environment \<Rightarrow> unit io" where
  "SaveEnvironmentTo J d base meta =
     AtomicWriteFile ''write environment.json'' d base (marshal J (meta\<lparr>Version := metaVersion\<rparr>))"

definition SaveEnvironment :: "json_env \<Rightarrow> path \<Rightarrow> Environment \<Rightarrow> unit io" where
  "SaveEnvironment J d meta =
     io_seq (EnsureHostTier d) (SaveEnvironmentTo J (Under d HostTierName) EnvironmentFileName meta)"

section \<open>Examples\<close>

text \<open>A record, a codec for it and a world with one sandbox, at which the theorems are applied.\<close>

definition blank_env :: Environment where
  "blank_env = \<lparr>Version = 3, YoloaiVersion = ''0.7'', EnvName = ''box'', Principal = ''cli'', CreatedAt = 0,
     BackendType = ''docker'', Profile = [], ImageRef = ''yoloai-base'', Headless = False,
     Dirs = [\<lparr>HostPath = ''/p'', MountPath = ''/p'', Mode = ''copy'', BaselineSHA = [], InceptionSHA = [],
       IncludeIgnored = False, StripHistory = False\<rparr>],
     LegacyWorkdir = None, LegacyDirectories = [], HasPrompt = False, Ports = [], Resources = None,
     Mounts = [], CapAdd = [], Devices = [], Setup = [], AutoCommitInterval = 0, Debug = False,
     UsernsMode = [], Isolation = ''container'', HostFilesystem = False, VscodeTunnel = False,
     BrokerCredentials = False, BrokerDisabled = False, Archetype = ''simple''\<rparr>"

definition one_record_json :: json_env where
  "one_record_json = \<lparr>probe = (\<lambda>s. if s = ''{}'' then Some metaVersion else None),
     unmarshal = (\<lambda>s. if s = ''{}'' then Some (blank_env\<lparr>Version := metaVersion\<rparr>) else None),
     marshal = (\<lambda>_. ''{}'')\<rparr>"

definition box_world :: world where
  "box_world = \<lparr>live = [''box'' \<mapsto> Dir [(HostTierName, Dir [])]], scratch = None, trash = None\<rparr>"

section \<open>The ladder\<close>

text \<open>A record the ladder accepts comes out at version 2 or above, in the collapsed form, with a
  backend and an image when it came from version 0; running it again changes nothing.\<close>

lemmas ladder_defs = migrate_def migrate_v0_def migrate_v1_def metaVersion_def Let_def

lemma migrate_version:
  "migrate desc m = Inr m' \<Longrightarrow> 2 \<le> Version m' \<and> Version m' \<le> metaVersion"
  by (auto simp: ladder_defs split: if_splits option.splits)

lemma migrate_id: "2 \<le> Version m \<Longrightarrow> Version m \<le> metaVersion \<Longrightarrow> migrate desc m = Inr m"
  by (simp add: ladder_defs)

text \<open>The in-struct ladder of the sandbox record. It refuses exactly the records of a newer
  schema. On every other record it returns one at version 2 or 3, and it is idempotent: a second pass
  leaves that record as it is. A record from before versioning keeps its backend and image when it
  has them and gets docker and yoloai-base when it has none, and a record with the old separate
  workdir field has that workdir first in its list of directories, followed by the old auxiliary
  ones, unless the list was already there.\<close>

theorem migrate_ladder:
  "(case migrate desc m of
      Inl _ \<Rightarrow> Version m > metaVersion
    | Inr m' \<Rightarrow> Version m \<le> metaVersion \<and> Version m' = max 2 (Version m) \<and>
        migrate desc m' = Inr m' \<and>
        BackendType m' = (if Version m < 1 \<and> BackendType m = [] then ''docker'' else BackendType m) \<and>
        ImageRef m' = (if Version m < 1 \<and> ImageRef m = [] then ''yoloai-base'' else ImageRef m) \<and>
        Dirs m' = (if Version m < 2 \<and> Dirs m = [] then
             (case LegacyWorkdir m of Some w \<Rightarrow> w # LegacyDirectories m | None \<Rightarrow> []) else Dirs m))"
proof (cases "Version m > metaVersion")
  case True
  then show ?thesis by (simp add: migrate_def)
next
  case False
  then obtain m' where m': "migrate desc m = Inr m'" by (auto simp: migrate_def Let_def)
  have "migrate desc m' = Inr m'" using migrate_version [OF m'] by (intro migrate_id) auto
  moreover have "Version m' = max 2 (Version m)"
    "BackendType m' = (if Version m < 1 \<and> BackendType m = [] then ''docker'' else BackendType m)"
    "ImageRef m' = (if Version m < 1 \<and> ImageRef m = [] then ''yoloai-base'' else ImageRef m)"
    "Dirs m' = (if Version m < 2 \<and> Dirs m = [] then
        (case LegacyWorkdir m of Some w \<Rightarrow> w # LegacyDirectories m | None \<Rightarrow> []) else Dirs m)"
    using m' by (auto simp: ladder_defs split: if_splits option.splits)
  ultimately show ?thesis using False m' by simp
qed

section \<open>Accessors\<close>

lemma TrackedDirs_iff:
  "i \<in> set (TrackedDirs e) \<longleftrightarrow> i < length (Dirs e) \<and> Mode (Dirs e ! i) = DirModeCopy"
  by (auto simp: TrackedDirs_def)

lemma dirs_split: "Dirs e = (case Workdir e of Some d \<Rightarrow> [d] | None \<Rightarrow> []) @ AuxDirs e"
  by (cases "Dirs e") (auto simp: Workdir_def AuxDirs_def Suc_le_eq)

section \<open>Saving is atomic\<close>

lemma SaveEnvironmentTo_spec:
  fixes J meta
  defines "data \<equiv> marshal J (meta\<lparr>Version := metaVersion\<rparr>)"
  assumes "slot t w0" and "not_dir (m0 base)"
  shows "spec (dir_at t w0 (\<lambda>m. m = m0)) (SaveEnvironmentTo J t base meta)
    (\<lambda>_. dir_at t w0 (\<lambda>m. m base = Some (File data)))
    (dir_at t w0 (\<lambda>m. m base \<in> {m0 base, Some (File data)}))"
  unfolding SaveEnvironmentTo_def data_def [symmetric]
  by (rule dir_AtomicWriteFile [OF assms(2)]) (use assms(3) temp_name_not_base [symmetric] in auto)

definition env_record :: "path \<Rightarrow> path" where
  "env_record d = Under (Under d HostTierName) EnvironmentFileName"

lemma dir_at_get: "slot t w0 \<Longrightarrow> dir_at t w0 P w \<Longrightarrow> \<exists>m. P m \<and> (\<forall>n. get (Under t n) w = m n)"
  by (auto elim!: dir_atE)

lemma SaveEnvironment_spec:
  fixes J meta
  defines "data \<equiv> marshal J (meta\<lparr>Version := metaVersion\<rparr>)"
  assumes w: "live w n = Some (Dir S)" "map_of S HostTierName = Some (Dir H)"
    "distinct (map fst H)" "not_dir (map_of H EnvironmentFileName)"
  shows "spec (\<lambda>v. v = w) (SaveEnvironment J (Live n) meta)
    (\<lambda>_ v. get (env_record (Live n)) v = Some (File data))
    (\<lambda>v. get (env_record (Live n)) v \<in> {get (env_record (Live n)) w, Some (File data)})"
    (is "spec _ _ ?Q ?R")
proof -
  let ?t = "Under (Live n) HostTierName"
  have slot: "slot ?t w" by (rule slot_under) (simp_all add: w)
  have put: "put ?t (Some (Dir H)) w = w"
    using w by (simp add: set_entry_def update_Some_unfold update_triv fun_upd_idem)
  have at: "dir_at ?t w (\<lambda>m. m = map_of H) w" using dir_at_put [of H "\<lambda>m. m = map_of H" ?t w] w put by simp
  have ensure: "spec (\<lambda>v. v = w) (EnsureHostTier (Live n)) (\<lambda>_ v. v = w) ?R"
    unfolding EnsureHostTier_def os_Stat_def os_MkdirAll_def
    by (rule spec_bind [OF spec_prim [where Q = "\<lambda>b v. v = w \<and> b"]])
      (auto simp: no_part_def w spec_def [of "\<lambda>_. False"] intro!: spec_prim)
  have "spec (\<lambda>v. v = w) (SaveEnvironmentTo J ?t EnvironmentFileName meta) ?Q ?R"
  proof (rule spec_conseq [OF SaveEnvironmentTo_spec [where J = J and meta = meta and ?m0.0 = "map_of H" and base = EnvironmentFileName, OF slot w(4)]])
    fix v show "v = w \<Longrightarrow> dir_at ?t w (\<lambda>m. m = map_of H) v" using at by simp
  next
    fix a v
    assume "dir_at ?t w (\<lambda>m. m EnvironmentFileName = Some (File (marshal J (meta\<lparr>Version := metaVersion\<rparr>)))) v"
    from dir_at_get [OF slot this] show "get (env_record (Live n)) v = Some (File data)"
      by (auto simp: env_record_def data_def simp del: get.simps)
  next
    fix v
    assume "dir_at ?t w (\<lambda>m. m EnvironmentFileName \<in> {map_of H EnvironmentFileName,
        Some (File (marshal J (meta\<lparr>Version := metaVersion\<rparr>)))}) v"
    from dir_at_get [OF slot this]
    show "get (env_record (Live n)) v \<in> {get (env_record (Live n)) w, Some (File data)}"
      using w by (auto simp: env_record_def data_def simp del: get.simps) (simp_all add: w)
  qed
  with ensure show ?thesis unfolding SaveEnvironment_def by (rule spec_seq)
qed

text \<open>C11: Saving the sandbox record is atomic. Whatever fault interrupts it, the record on disk is the
  old one or the new one, never a torn one and never neither; when the save returns it is the new one,
  and without faults the save returns.\<close>

theorem SaveEnvironment_atomic:
  assumes "live w n = Some (Dir S)" and "map_of S HostTierName = Some (Dir H)"
    and "distinct (map fst H)" and "not_dir (map_of H EnvironmentFileName)"
  shows "let r = SaveEnvironment J (Live n) meta (w, sch);
             old = get (env_record (Live n)) w;
             new = Some (File (marshal J (meta\<lparr>Version := metaVersion\<rparr>)))
         in get (env_record (Live n)) (world_of r) \<in> {old, new} \<and>
            (fst r = Ret () \<longrightarrow> get (env_record (Live n)) (world_of r) = new) \<and>
            (sch = [] \<longrightarrow> fst r = Ret ())"
  using spec_runD [OF SaveEnvironment_spec [OF assms, of J meta] refl, of sch]
  by (cases "fst (SaveEnvironment J (Live n) meta (w, sch))") (auto simp: Let_def)

theorem SaveEnvironment_atomic_witness:
  "get (env_record (Live ''box'')) (world_of (SaveEnvironment one_record_json (Live ''box'') blank_env
      (box_world, [Succeed, Succeed, Succeed, Crash (Some (File ''torn''))]))) \<in> {None, Some (File ''{}'')} \<and>
   fst (SaveEnvironment one_record_json (Live ''box'') blank_env (box_world, [])) = Ret ()"
proof -
  have w: "live box_world ''box'' = Some (Dir [(HostTierName, Dir [])])"
    "map_of [(HostTierName, Dir [])] HostTierName = Some (Dir [])" "distinct (map fst ([] :: dir))"
    "not_dir (map_of [] EnvironmentFileName)"
    by (simp_all add: box_world_def)
  have old: "get (env_record (Live ''box'')) box_world = None"
    by (simp add: env_record_def box_world_def)
  have new: "marshal one_record_json m = ''{}''" for m by (simp add: one_record_json_def)
  show ?thesis
    using SaveEnvironment_atomic [OF w, of one_record_json blank_env
        "[Succeed, Succeed, Succeed, Crash (Some (File ''torn''))]"]
      SaveEnvironment_atomic [OF w, of one_record_json blank_env "[]"]
    unfolding Let_def old new by blast
qed

text \<open>Round trip of the sandbox record. When a save returns, loading the record gives back what was
  saved, stamped with the current version, for a JSON codec that reads back this record's encoding.\<close>

theorem LoadEnvironment_after_Save:
  assumes "live w n = Some (Dir S)" and "map_of S HostTierName = Some (Dir H)"
    and "distinct (map fst H)" and "not_dir (map_of H EnvironmentFileName)"
    and codec: "probe J (marshal J (meta\<lparr>Version := metaVersion\<rparr>)) = Some metaVersion"
      "unmarshal J (marshal J (meta\<lparr>Version := metaVersion\<rparr>)) = Some (meta\<lparr>Version := metaVersion\<rparr>)"
    and "fst (SaveEnvironment J (Live n) meta (w, sch)) = Ret ()"
  shows "fst (LoadEnvironment J (Live n) (world_of (SaveEnvironment J (Live n) meta (w, sch)), []))
    = Ret (meta\<lparr>Version := metaVersion\<rparr>)"
proof -
  let ?v = "world_of (SaveEnvironment J (Live n) meta (w, sch))"
  have "get (env_record (Live n)) ?v = Some (File (marshal J (meta\<lparr>Version := metaVersion\<rparr>)))"
    using spec_runD [OF SaveEnvironment_spec [OF assms(1-4), of J meta] refl, of sch] assms(7) by simp
  then show ?thesis
    using codec
    by (simp add: LoadEnvironment_def LoadEnvironmentFrom_def env_record_def io_bind_def os_ReadFile_def
        prim_def decode_env_def io_ret_def del: get.simps)
qed

theorem LoadEnvironment_after_Save_witness:
  "fst (LoadEnvironment one_record_json (Live ''box'')
     (world_of (SaveEnvironment one_record_json (Live ''box'') blank_env (box_world, [])), []))
   = Ret (blank_env\<lparr>Version := metaVersion\<rparr>)"
proof (rule LoadEnvironment_after_Save [where S = "[(HostTierName, Dir [])]" and H = "[]"])
  show "fst (SaveEnvironment one_record_json (Live ''box'') blank_env (box_world, [])) = Ret ()"
    by code_simp
qed (simp_all add: box_world_def one_record_json_def)

end
