(* ===== verification/Status.thy ===== *)
theory Status
  imports Environment Encode
begin

text \<open>
  The read-only view of a sandbox: status detection and work-data probing of
  \<open>internal/orchestrator/status/status.go\<close> and the change probe of
  \<open>internal/orchestrator/workprobe\<close>. The backend's answer to \<open>Inspect\<close>, git's output and the JSON
  decoder are parameters; directories are the trees of the file model.
\<close>

section \<open>Status\<close>

datatype Status = StatusActive | StatusIdle | StatusDone | StatusFailed | StatusStopped
  | StatusSuspended | StatusRemoved | StatusBroken | StatusUnavailable

record statusJSON =
  SchemaVersion :: int
  SStatus :: string
  ExitCode :: "int option"
  Timestamp :: int

definition agentStatusSchemaVersion :: int where "agentStatusSchemaVersion = 1"

text \<open>Nanoseconds, as \<open>time.Duration\<close>.\<close>

definition statusFileStaleness :: int where "statusFileStaleness = 10 * 10 ^ 9"

definition parseStatusJSON ::
  "(string \<Rightarrow> statusJSON option) \<Rightarrow> int \<Rightarrow> string \<Rightarrow> (Status \<times> int option) option" where
  "parseStatusJSON dec now data = (case dec data of
       None \<Rightarrow> None
     | Some s \<Rightarrow>
         if SchemaVersion s \<noteq> 0 \<and> SchemaVersion s \<noteq> agentStatusSchemaVersion then None
         else if SStatus s = [] \<or> Timestamp s = 0 then None
         else if SStatus s = ''active'' then
           (if now - Timestamp s * 10 ^ 9 > statusFileStaleness then None else Some (StatusActive, None))
         else if SStatus s = ''idle'' then Some (StatusIdle, None)
         else if SStatus s = ''done'' then
           (let exitCode = (case ExitCode s of Some c \<Rightarrow> c | None \<Rightarrow> 1)
            in if exitCode = 0 then Some (StatusDone, Some exitCode) else Some (StatusFailed, Some exitCode))
         else None)"

datatype inspect = NotFound | InspectError string | Inspected bool bool

text \<open>\<open>file\<close> is what \<open>os.ReadFile\<close> gives for the status file: \<open>None\<close> when there is no sandbox
  directory to look in or the read fails.\<close>

definition detectStatusWithExit ::
  "(string \<Rightarrow> statusJSON option) \<Rightarrow> int \<Rightarrow> inspect \<Rightarrow> string option \<Rightarrow> (string, Status \<times> int option) result" where
  "detectStatusWithExit dec now info file = (case info of
       NotFound \<Rightarrow> Inr (StatusRemoved, None)
     | InspectError e \<Rightarrow> Inl (''inspect container: '' @ e)
     | Inspected running suspended \<Rightarrow>
         if \<not> running then (if suspended then Inr (StatusSuspended, None) else Inr (StatusStopped, None))
         else (case file of
             None \<Rightarrow> Inr (StatusActive, None)
           | Some data \<Rightarrow>
               if data = [] then Inr (StatusActive, None)
               else (case parseStatusJSON dec now data of
                   Some (st, ec) \<Rightarrow> Inr (st, ec)
                 | None \<Rightarrow> Inr (StatusActive, None))))"

definition DetectStatus ::
  "(string \<Rightarrow> statusJSON option) \<Rightarrow> int \<Rightarrow> inspect \<Rightarrow> string option \<Rightarrow> (string, Status) result" where
  "DetectStatus dec now info file =
     (case detectStatusWithExit dec now info file of Inl e \<Rightarrow> Inl e | Inr (st, _) \<Rightarrow> Inr st)"

text \<open>The exit code and the status agree. Detection reports an exit code exactly for a sandbox
  that is done or failed, code zero exactly for done; those two and the two live states are only
  reported for a running instance, and a missing, empty, foreign or unreadable status file of a running
  instance reads as active. The age of the file never matters to the result.\<close>

theorem detectStatus_consistent:
  "(case detectStatusWithExit dec now info file of
      Inl _ \<Rightarrow> (\<exists>e. info = InspectError e)
    | Inr (st, ec) \<Rightarrow>
        (st = StatusDone) = (ec = Some 0) \<and>
        (st = StatusFailed) = (ec \<notin> {None, Some 0}) \<and>
        (st \<in> {StatusActive, StatusIdle, StatusDone, StatusFailed}) = (\<exists>s. info = Inspected True s) \<and>
        st \<notin> {StatusBroken, StatusUnavailable}) \<and>
   detectStatusWithExit dec now info file = detectStatusWithExit dec now' info file"
  by (auto simp: detectStatusWithExit_def parseStatusJSON_def Let_def split: inspect.split option.split)

section \<open>Change probes\<close>

datatype git_result = GitOk string | GitNotRunning | GitError

datatype WorkProbe = WorkClean | WorkDirty | WorkUnknown

text \<open>\<open>filepath.Base\<close> of the text after the two status letters of a porcelain line.\<close>

fun strip_slashes :: "string \<Rightarrow> string" where
  "strip_slashes s = rev (dropWhile (\<lambda>c. c = CHR ''/'') (rev s))"

definition Base :: "string \<Rightarrow> string" where
  "Base p = (if p = [] then ''.''
     else if strip_slashes p = [] then ''/''
     else case split_last (CHR ''/'') (strip_slashes p) of
         Some (_, b) \<Rightarrow> b
       | None \<Rightarrow> strip_slashes p)"

definition is_bugreport :: "string \<Rightarrow> bool" where
  "is_bugreport name \<longleftrightarrow> HasPrefix name ''yoloai-bugreport-'' \<and>
     (HasSuffix name ''.md'' \<or> HasSuffix name ''.md.tmp'')"

definition line_changes :: "string \<Rightarrow> bool" where
  "line_changes line \<longleftrightarrow> \<not> length line < 3 \<and> \<not> is_bugreport (Base (drop 3 line))"

definition porcelainHasChange :: "string \<Rightarrow> bool" where
  "porcelainHasChange output = list_ex line_changes (split_lines (TrimSpace output))"

definition HasUnappliedWorkVia :: "(string list \<Rightarrow> git_result) \<Rightarrow> string \<Rightarrow> WorkProbe" where
  "HasUnappliedWorkVia git baselineSHA = (case git [''status'', ''--porcelain''] of
       GitNotRunning \<Rightarrow> WorkUnknown
     | GitError \<Rightarrow> WorkClean
     | GitOk out \<Rightarrow>
         if porcelainHasChange out then WorkDirty
         else if baselineSHA = [] then WorkClean
         else (case git [''rev-list'', ''--count'', baselineSHA @ ''..HEAD''] of
              GitNotRunning \<Rightarrow> WorkUnknown
            | GitError \<Rightarrow> WorkClean
            | GitOk out2 \<Rightarrow> if TrimSpace out2 \<noteq> ''0'' then WorkDirty else WorkClean))"

definition DetectChanges :: "(string list \<Rightarrow> git_result) \<Rightarrow> node option \<Rightarrow> string" where
  "DetectChanges git workDir = (case workDir of
       None \<Rightarrow> ''-''
     | Some x \<Rightarrow> (case x of
           Dir d \<Rightarrow> if map_of d ''.git'' = None then ''-''
             else (case git [''status'', ''--porcelain''] of
                 GitOk out \<Rightarrow> if porcelainHasChange out then ''yes'' else ''no''
               | _ \<Rightarrow> ''-'')
         | _ \<Rightarrow> ''-''))"

text \<open>\<open>detectWorkdirChanges\<close>; \<open>git h\<close> is git in the work copy of host path \<open>h\<close>.\<close>

fun aux_changes :: "(string \<Rightarrow> string list \<Rightarrow> git_result) \<Rightarrow> DirEnvironment list \<Rightarrow> string" where
  "aux_changes git [] = ''no''"
| "aux_changes git (d # ds) =
     (if Mode d = ''copy'' then
        (case HasUnappliedWorkVia (git (HostPath d)) (BaselineSHA d) of
           WorkDirty \<Rightarrow> ''yes'' | WorkUnknown \<Rightarrow> ''unknown'' | WorkClean \<Rightarrow> aux_changes git ds)
      else aux_changes git ds)"

definition detectWorkdirChanges :: "(string \<Rightarrow> string list \<Rightarrow> git_result) \<Rightarrow> Environment \<Rightarrow> string option" where
  "detectWorkdirChanges git meta = (case Workdir meta of
       None \<Rightarrow> None
     | Some wd \<Rightarrow>
         if Mode wd \<noteq> ''copy'' \<and> Mode wd \<noteq> ''overlay'' then Some ''-''
         else (case HasUnappliedWorkVia (git (HostPath wd)) (BaselineSHA wd) of
             WorkDirty \<Rightarrow> Some ''yes''
           | WorkUnknown \<Rightarrow> Some ''unknown''
           | WorkClean \<Rightarrow> Some (aux_changes git (AuxDirs meta))))"

definition probe_dir :: "(string \<Rightarrow> string list \<Rightarrow> git_result) \<Rightarrow> DirEnvironment \<Rightarrow> WorkProbe" where
  "probe_dir git d = HasUnappliedWorkVia (git (HostPath d)) (BaselineSHA d)"

lemma aux_changes_no:
  "aux_changes git ds = ''no'' \<longleftrightarrow> (\<forall>d \<in> set ds. Mode d = ''copy'' \<longrightarrow> probe_dir git d = WorkClean)"
  by (induction ds) (auto simp: probe_dir_def split: WorkProbe.split)

text \<open>No changes are reported only when every probe came back clean. For a sandbox whose work
  directory is a copy, the answer is no exactly when the work directory and every copied auxiliary
  directory probe clean; an unknown or dirty probe of any of them surfaces as another answer.\<close>

theorem detectWorkdirChanges_no:
  assumes "Workdir meta = Some wd" and "Mode wd = ''copy''"
  shows "detectWorkdirChanges git meta = Some ''no'' \<longleftrightarrow>
    (\<forall>d \<in> set (Dirs meta). Mode d = ''copy'' \<longrightarrow> probe_dir git d = WorkClean)"
proof -
  have "set (Dirs meta) = insert wd (set (AuxDirs meta))"
    using dirs_split [of meta] assms(1) by simp
  then show ?thesis
    using assms aux_changes_no [of git "AuxDirs meta"]
    by (auto simp: detectWorkdirChanges_def probe_dir_def split: WorkProbe.split)
qed

theorem detectWorkdirChanges_no_witness:
  "detectWorkdirChanges (\<lambda>_ args. GitOk []) blank_env = Some ''no''"
proof -
  have "Workdir blank_env = Some (hd (Dirs blank_env)) \<and> Mode (hd (Dirs blank_env)) = ''copy''"
    by (simp add: blank_env_def Workdir_def)
  moreover have "\<forall>d \<in> set (Dirs blank_env). Mode d = ''copy'' \<longrightarrow> probe_dir (\<lambda>_ args. GitOk []) d = WorkClean"
    by (simp add: blank_env_def probe_dir_def HasUnappliedWorkVia_def porcelainHasChange_def TrimSpace_def line_changes_def)
  ultimately show ?thesis using detectWorkdirChanges_no [of blank_env] by blast
qed

section \<open>Work data without metadata\<close>

datatype WorkDataState = WorkDataNone | WorkDataPresent | WorkDataAmbiguous

definition dirHasEntries :: "node option \<Rightarrow> bool" where
  "dirHasEntries x = (case x of Some (Dir (_ # _)) \<Rightarrow> True | _ \<Rightarrow> False)"

text \<open>\<open>max\<close> over the integer constants of the source, for the two values its loop keeps.\<close>

fun raise_state :: "WorkDataState \<Rightarrow> WorkDataState" where
  "raise_state _ = WorkDataAmbiguous"

fun probe_entries ::
  "(string \<Rightarrow> string list \<Rightarrow> git_result) \<Rightarrow> WorkDataState \<Rightarrow> dir \<Rightarrow> WorkDataState" where
  "probe_entries git result [] = result"
| "probe_entries git result ((n, x) # rest) = (case x of
       Dir d \<Rightarrow>
         (if map_of d ''.git'' \<noteq> None then
            (if DetectChanges (git n) (Some x) = ''yes'' then WorkDataPresent
             else probe_entries git (raise_state result) rest)
          else if dirHasEntries (map_of d ''upper'') then WorkDataPresent
          else if dirHasEntries (Some x) then probe_entries git (raise_state result) rest
          else probe_entries git result rest)
     | _ \<Rightarrow> probe_entries git result rest)"

definition ProbeWorkData :: "(string \<Rightarrow> string list \<Rightarrow> git_result) \<Rightarrow> node option \<Rightarrow> WorkDataState" where
  "ProbeWorkData git work = (case work of
       Some (Dir entries) \<Rightarrow> probe_entries git WorkDataNone (sort_key fst entries)
     | _ \<Rightarrow> WorkDataNone)"

lemma probe_entries_none:
  "probe_entries git result es = WorkDataNone \<longleftrightarrow>
     result = WorkDataNone \<and> (\<forall>(n, x) \<in> set es. \<not> dirHasEntries (Some x))"
proof (induction git result es rule: probe_entries.induct)
  case (2 git result n x rest)
  show ?case
  proof (cases x)
    case (Dir d)
    then show ?thesis using 2
      by (cases d) (auto simp: dirHasEntries_def split: option.splits)
  qed (use 2 in \<open>auto simp: dirHasEntries_def\<close>)
qed simp

text \<open>A sandbox without readable metadata is called free of user data only if it is: the probe
  answers none exactly when there is no work directory or none of the directories in it has an entry,
  whatever git says.\<close>

theorem ProbeWorkData_conservative:
  "ProbeWorkData git work = WorkDataNone \<longleftrightarrow>
     (case work of Some (Dir entries) \<Rightarrow> \<not> list_ex (\<lambda>(n, x). dirHasEntries (Some x)) entries | _ \<Rightarrow> True)"
  by (auto simp: ProbeWorkData_def probe_entries_none list_ex_iff split: option.split node.split)

section \<open>Sizes and network health\<close>

text \<open>\<open>DirSize\<close> of a tree, as the sum of the file sizes (a link counts its target's length).\<close>

fun node_size :: "node \<Rightarrow> nat" where
  "node_size (File s) = length s"
| "node_size (Symlink s) = length s"
| "node_size (Dir d) = sum_list (map (\<lambda>(n, x). node_size x) d)"

datatype NetHealthState = NetHealthUnknown | NetHealthOK | NetHealthWedged

definition netHealthString :: "NetHealthState \<Rightarrow> string" where
  "netHealthString s = (case s of NetHealthOK \<Rightarrow> ''ok'' | NetHealthWedged \<Rightarrow> ''wedged'' | NetHealthUnknown \<Rightarrow> ''unknown'')"

definition probeNetHealth :: "(NetHealthState \<times> string) option \<Rightarrow> Status \<Rightarrow> string \<times> string" where
  "probeNetHealth prober st =
     (if st \<noteq> StatusActive \<and> st \<noteq> StatusIdle then ([], [])
      else case prober of None \<Rightarrow> ([], []) | Some (h, detail) \<Rightarrow> (netHealthString h, detail))"

end
