(* ===== verification/Schema.thy ===== *)
theory Schema
  imports DirRules
begin

text \<open>
  On-disk schema versions, \<open>internal/config/schema.go\<close>, and the guarded stamp write of
  \<open>internal/orchestrator/migrate_principal.go\<close>. The live directory of the world is the realm's data
  directory, its stamp the entry \<open>.schema-version\<close>. The JSON work of the launch-prefix backfill and
  the backend lookup are the fields of a record. A stray temporary of a stamp write in the data
  directory, which nothing reads, is left out.
\<close>

section \<open>Versions\<close>

definition SchemaOverlayFlattened :: int where "SchemaOverlayFlattened = 4"
definition SchemaPrincipalRenamed :: int where "SchemaPrincipalRenamed = 5"
definition SchemaTieredVersion :: int where "SchemaTieredVersion = 6"
definition LibrarySchemaVersion :: int where "LibrarySchemaVersion = SchemaTieredVersion"
definition libraryFrozenVersion :: int where "libraryFrozenVersion = 3"

lemmas schema_versions = SchemaOverlayFlattened_def SchemaPrincipalRenamed_def SchemaTieredVersion_def
  LibrarySchemaVersion_def libraryFrozenVersion_def

definition FrameworkPlanDerivable :: "int \<Rightarrow> bool" where
  "FrameworkPlanDerivable onDiskSchema \<longleftrightarrow> onDiskSchema \<ge> libraryFrozenVersion"

definition schemaStampName :: string where "schemaStampName = ''.schema-version''"

datatype LayoutStatus = LayoutFresh | LayoutMigrate | LayoutOK

text \<open>\<open>ReadSchemaVersion\<close> of the node at the stamp's path.\<close>

definition ReadSchemaVersion :: "node option \<Rightarrow> (string, int \<times> bool) result" where
  "ReadSchemaVersion x = (case x of
       None \<Rightarrow> Inr (0, False)
     | Some (File data) \<Rightarrow> (case Atoi (TrimSpace data) of
           None \<Rightarrow> Inl ''parse schema version''
         | Some v \<Rightarrow> Inr (v, True))
     | Some _ \<Rightarrow> Inl ''read schema version'')"

definition RealmStatus :: "node option \<Rightarrow> int \<Rightarrow> (string, LayoutStatus) result" where
  "RealmStatus dataDir currentVersion = (case dataDir of
       None \<Rightarrow> Inr LayoutFresh
     | Some (Dir entries) \<Rightarrow>
         if entries = [] then Inr LayoutFresh
         else (case ReadSchemaVersion (map_of entries schemaStampName) of
             Inl e \<Rightarrow> Inl e
           | Inr (version, _) \<Rightarrow>
               if version > currentVersion then Inl ''newer than this build supports; upgrade yoloai''
               else if version < currentVersion then Inr LayoutMigrate
               else Inr LayoutOK)
     | Some _ \<Rightarrow> Inr LayoutMigrate)"

section \<open>Writing the stamp\<close>

definition stampPath :: path where "stampPath = Live schemaStampName"

text \<open>\<open>fileutil.AtomicWriteFile\<close> of an entry of the data directory: the rename is the one visible step.\<close>

definition AtomicWriteLive :: "string \<Rightarrow> string \<Rightarrow> string \<Rightarrow> unit io" where
  "AtomicWriteLive msg base data =
     io_seq (prim msg
         (\<lambda>w. if rename_ok (File data) (live w base) then Some ((), put (Live base) (Some (File data)) w) else None)
         no_part)
     (FsyncParent msg)"

definition WriteSchemaVersion :: "nat \<Rightarrow> unit io" where
  "WriteSchemaVersion version = AtomicWriteLive ''write schema version'' schemaStampName (Itoa version)"

definition read_stamp :: "(int \<times> bool) io" where
  "read_stamp = io_bind (io_get (\<lambda>w. ReadSchemaVersion (live w schemaStampName))) (\<lambda>r. case r of
       Inl e \<Rightarrow> io_fail e
     | Inr v \<Rightarrow> io_ret v)"

definition stampSchemaAdvancing :: "nat \<Rightarrow> unit io" where
  "stampSchemaAdvancing target = io_bind read_stamp (\<lambda>v.
     if fst v \<ge> int target then io_ret ()
     else AtomicWriteLive ''stamp library'' schemaStampName (Itoa target))"

definition CreateFreshLibrary :: "unit io" where
  "CreateFreshLibrary = WriteSchemaVersion (nat LibrarySchemaVersion)"

section \<open>The sealed ladder\<close>

record prefix_env =
  backend_of :: "string \<Rightarrow> string option"
  prefixFor :: "string \<Rightarrow> string"
  set_prefix :: "string \<Rightarrow> string \<Rightarrow> string option"

definition readSandboxBackend :: "prefix_env \<Rightarrow> path \<Rightarrow> string option io" where
  "readSandboxBackend P sandboxDir =
     io_bind (os_ReadFile ''read environment.json'' (Under sandboxDir ''environment.json'')) (\<lambda>r. case r of
         None \<Rightarrow> io_ret None
       | Some data \<Rightarrow> (case backend_of P data of
             None \<Rightarrow> io_fail ''parse environment.json''
           | Some b \<Rightarrow> io_ret (Some b)))"

definition backfillSandboxLaunchPrefix :: "prefix_env \<Rightarrow> path \<Rightarrow> unit io" where
  "backfillSandboxLaunchPrefix P sandboxDir = io_bind (readSandboxBackend P sandboxDir) (\<lambda>b. case b of
       None \<Rightarrow> io_ret ()
     | Some backend \<Rightarrow>
         io_bind (os_ReadFile ''read runtime-config.json'' (Under sandboxDir ''runtime-config.json'')) (\<lambda>r. case r of
             None \<Rightarrow> io_ret ()
           | Some rc \<Rightarrow> (case set_prefix P rc (prefixFor P backend) of
                 None \<Rightarrow> io_fail ''parse runtime-config.json''
               | Some out \<Rightarrow> AtomicWriteFile ''write runtime-config.json'' sandboxDir ''runtime-config.json'' out)))"

definition backfillLaunchPrefix :: "prefix_env \<Rightarrow> unit io" where
  "backfillLaunchPrefix P = io_bind (os_exists (Live ''sandboxes'')) (\<lambda>present.
     if \<not> present then io_ret ()
     else io_bind (os_ReadDir ''read sandboxes dir'' (Live ''sandboxes'')) (\<lambda>entries.
       io_each (\<lambda>e. if \<not> is_dir (snd e) then io_ret ()
         else backfillSandboxLaunchPrefix P (Under (Live ''sandboxes'') (fst e))) entries))"

definition migrateLibraryStep :: "prefix_env \<Rightarrow> int \<Rightarrow> unit io" where
  "migrateLibraryStep P from' =
     (if from' = 0 then io_ret ()
      else if from' = 1 then backfillLaunchPrefix P
      else if from' = 2 then io_ret ()
      else io_fail ''no migration registered'')"

definition MigrateLibrary :: "prefix_env \<Rightarrow> unit io" where
  "MigrateLibrary P = io_bind read_stamp (\<lambda>v.
     if fst v > LibrarySchemaVersion then io_fail ''newer than this build supports; upgrade yoloai''
     else if fst v \<ge> libraryFrozenVersion then io_ret ()
     else io_seq (io_each (migrateLibraryStep P) [fst v..libraryFrozenVersion - 1])
       (WriteSchemaVersion (nat libraryFrozenVersion)))"

section \<open>Reading and writing versions\<close>

lemma ReadSchemaVersion_Itoa:
  "int v < 2 ^ 63 \<Longrightarrow> ReadSchemaVersion (Some (File (Itoa v))) = Inr (int v, True)"
  by (simp add: ReadSchemaVersion_def TrimSpace_Itoa Atoi_Itoa)

definition stamp_of :: "world \<Rightarrow> (string, int \<times> bool) result" where
  "stamp_of w = ReadSchemaVersion (live w schemaStampName)"

lemma Itoa_small: "v < 10 \<Longrightarrow> ReadSchemaVersion (Some (File (Itoa v))) = Inr (int v, True)"
  by (rule ReadSchemaVersion_Itoa) simp

text \<open>The realm gate. A data directory that is missing or empty is fresh, one whose stamp is below
  the current version (an unstamped one counts as version 0) has to be migrated, one at the current
  version is usable, one above it is refused, and a freshly created library is usable at once.\<close>

theorem RealmStatus_gate:
  "(case RealmStatus dataDir v of
      Inr LayoutFresh \<Rightarrow> dataDir = None \<or> dataDir = Some (Dir [])
    | Inr LayoutOK \<Rightarrow> (\<exists>es b. dataDir = Some (Dir es) \<and> ReadSchemaVersion (map_of es schemaStampName) = Inr (v, b))
    | Inr LayoutMigrate \<Rightarrow> (\<exists>x. dataDir = Some x \<and> \<not> is_dir x) \<or>
        (\<exists>es u b. dataDir = Some (Dir es) \<and> ReadSchemaVersion (map_of es schemaStampName) = Inr (u, b) \<and> u < v)
    | Inl _ \<Rightarrow> (\<exists>es. dataDir = Some (Dir es) \<and> (case ReadSchemaVersion (map_of es schemaStampName) of
        Inl _ \<Rightarrow> True | Inr (u, b) \<Rightarrow> u > v))) \<and>
   RealmStatus (Some (Dir [(schemaStampName, File (Itoa (nat LibrarySchemaVersion)))])) LibrarySchemaVersion
     = Inr LayoutOK"
proof
  have "ReadSchemaVersion (Some (File (Itoa (nat LibrarySchemaVersion)))) = Inr (LibrarySchemaVersion, True)"
    using Itoa_small [of 6] by (simp add: schema_versions)
  then show "RealmStatus (Some (Dir [(schemaStampName, File (Itoa (nat LibrarySchemaVersion)))])) LibrarySchemaVersion
      = Inr LayoutOK"
    by (simp add: RealmStatus_def)
qed (auto simp: RealmStatus_def split: option.split node.split sum.split)

section \<open>Stamps only advance\<close>

lemma keeps_live_sandboxes:
  "live_root d = Some a \<Longrightarrow> a \<noteq> n \<Longrightarrow> keeps (\<lambda>w. live w n = x) (AtomicWriteFile msg d base data)"
  by (rule keeps_AtomicWriteFile) (simp add: live_put_other del: put.simps)

lemma keeps_backfill: "keeps (\<lambda>w. live w schemaStampName = x) (backfillLaunchPrefix P)"
proof -
  have "keeps (\<lambda>w. live w schemaStampName = x) (backfillSandboxLaunchPrefix P (Under (Live ''sandboxes'') n))" for n
    unfolding backfillSandboxLaunchPrefix_def readSandboxBackend_def
    by (intro keeps_bind) (auto split: option.split intro!: keeps_bind keeps_live_sandboxes simp: schemaStampName_def)
  then show ?thesis unfolding backfillLaunchPrefix_def
    by (intro keeps_bind) (auto intro!: keeps_bind keeps_each)
qed

lemma keeps_step: "keeps (\<lambda>w. live w schemaStampName = x) (migrateLibraryStep P v)"
  using keeps_backfill by (simp add: migrateLibraryStep_def)

lemma keeps_write:
  "keeps (\<lambda>w. live w schemaStampName \<in> {x, Some (File data)}) (AtomicWriteLive msg schemaStampName data)"
  unfolding AtomicWriteLive_def
  by (intro keeps_seq keeps_prim keeps_reads) (auto simp: no_part_def split: if_splits)

lemma keeps_read_stamp [simp]: "keeps I read_stamp"
  unfolding read_stamp_def by (rule keeps_bind) (auto split: sum.split)

lemma keeps_AtomicWriteLive:
  "(\<And>w. I w \<Longrightarrow> I (put (Live base) (Some (File data)) w)) \<Longrightarrow> keeps I (AtomicWriteLive msg base data)"
  unfolding AtomicWriteLive_def
  by (intro keeps_seq keeps_prim keeps_reads) (auto simp: no_part_def split: if_splits)

lemma keeps_stampSchemaAdvancing:
  "(\<And>w. I w \<Longrightarrow> I (put (Live schemaStampName) (Some (File (Itoa target))) w)) \<Longrightarrow>
   keeps I (stampSchemaAdvancing target)"
  unfolding stampSchemaAdvancing_def
  by (rule keeps_bind [OF keeps_read_stamp]) (simp add: keeps_AtomicWriteLive)

lemma keeps_weaken:
  assumes "\<And>x. keeps (\<lambda>w. live w n = x) m"
  shows "keeps (\<lambda>w. live w n \<in> X) m"
  using assms unfolding keeps_def by metis

text \<open>The stamp never runs ahead of the sealed ladder. Whatever interrupts the library migration, the
  stamp is the old one or version 3, never a later version, and a realm already at version 3 or above
  is not touched at all.\<close>

theorem MigrateLibrary_stamp:
  "live (world_of (MigrateLibrary P (w, sch))) schemaStampName \<in>
     {live w schemaStampName, Some (File (Itoa 3))} \<and>
   (if (\<exists>v b. stamp_of w = Inr (v, b) \<and> v \<ge> 3) then world_of (MigrateLibrary P (w, sch)) = w else True)"
proof
  let ?I = "\<lambda>v. live v schemaStampName \<in> {live w schemaStampName, Some (File (Itoa (nat libraryFrozenVersion)))}"
  have step: "keeps ?I (migrateLibraryStep P v)" for v by (rule keeps_weaken) (rule keeps_step)
  have ladder: "keeps ?I (io_seq (io_each (migrateLibraryStep P) vs) (AtomicWriteLive ''write schema version''
      schemaStampName (Itoa (nat libraryFrozenVersion))))" for vs
    by (rule keeps_seq [OF keeps_each [OF step] keeps_write])
  have "keeps ?I (MigrateLibrary P)"
    unfolding MigrateLibrary_def WriteSchemaVersion_def
    by (rule keeps_bind [OF keeps_read_stamp]) (simp only: ladder keeps_ret keeps_fail if_split, simp)
  then show "live (world_of (MigrateLibrary P (w, sch))) schemaStampName \<in>
     {live w schemaStampName, Some (File (Itoa 3))}"
    unfolding keeps_def by (simp add: schema_versions)
  show "if (\<exists>v b. stamp_of w = Inr (v, b) \<and> v \<ge> 3) then world_of (MigrateLibrary P (w, sch)) = w else True"
    by (auto simp: MigrateLibrary_def read_stamp_def stamp_of_def io_bind_def io_get_def io_ret_def io_fail_def
        world_of_def schema_versions)
qed

text \<open>Stamps only advance. Writing a migrator's target never lowers the version of a readable realm,
  whatever fault interrupts it; when it returns, the realm is at the target or already was beyond it,
  and without faults it returns.\<close>

theorem stampSchemaAdvancing_monotone:
  assumes "stamp_of w = Inr (v, b)" and "target < 10"
  shows "(\<exists>v' b'. stamp_of (world_of (stampSchemaAdvancing target (w, sch))) = Inr (v', b') \<and> v' \<in> {v, max v (int target)}) \<and>
    (if fst (stampSchemaAdvancing target (w, sch)) = Ret ()
     then \<exists>b'. stamp_of (world_of (stampSchemaAdvancing target (w, sch))) = Inr (max v (int target), b') else True) \<and>
    (if sch = [] then fst (stampSchemaAdvancing target (w, sch)) = Ret () else True)"
proof (cases "v \<ge> int target")
  case True
  then show ?thesis
    using assms by (simp add: stampSchemaAdvancing_def read_stamp_def stamp_of_def io_bind_def io_get_def
        io_ret_def world_of_def max_def)
next
  case False
  have new: "ReadSchemaVersion (Some (File (Itoa target))) = Inr (int target, True)"
    by (rule Itoa_small [OF assms(2)])
  have "not_dir (live w schemaStampName)"
    using assms(1) by (auto simp: stamp_of_def ReadSchemaVersion_def not_dir_def split: option.splits node.splits)
  then have ok: "rename_ok (File d) (live w schemaStampName)" for d
    by (auto simp: rename_ok_def not_dir_def split: option.split)
  have eq: "stampSchemaAdvancing target (w, sch) =
      AtomicWriteLive ''stamp library'' schemaStampName (Itoa target) (w, sch)"
    using False assms(1) by (simp add: stampSchemaAdvancing_def read_stamp_def stamp_of_def io_bind_def
        io_get_def io_ret_def)
  show ?thesis unfolding eq
    using False ok new assms(1)
    by (cases sch rule: list.exhaust [case_product list.exhaust])
      (auto simp: AtomicWriteLive_def io_seq_def io_bind_def prim_def FsyncParent_def no_part_def world_of_def
        stamp_of_def max_def split: verdict.split list.split)
qed

theorem stampSchemaAdvancing_monotone_witness:
  "fst (stampSchemaAdvancing 6 (\<lparr>live = [schemaStampName \<mapsto> File ''5''], scratch = None, trash = None\<rparr>, [])) = Ret ()"
proof -
  have "stamp_of \<lparr>live = [schemaStampName \<mapsto> File ''5''], scratch = None, trash = None\<rparr> = Inr (5, True)"
    by code_simp
  from stampSchemaAdvancing_monotone [OF this, of 6 "[]"] show ?thesis by simp
qed

end
