(* ===== verification/MigratePlan.thy ===== *)
theory MigratePlan
  imports Prelude
begin

text \<open>
  The migration framework: authorization of planned operations (\<open>internal/migrate/plan.go\<close>), the
  run driver (\<open>internal/migrate/driver.go\<close>), the free-space arithmetic of \<open>treesize.go\<close>'s callers,
  and the overlay migrator's decision table (\<open>internal/orchestrator/migrate_overlay.go\<close>). A migrator
  is the interface \<open>Migrator\<close>: a record of functions over a machine state \<open>'s\<close>. The whole-tree lock
  and the scratch directory are the operations of a record, the driver calls them in the order of the
  source, deferred calls last-in first-out.
\<close>

section \<open>Plans and decisions\<close>

datatype Auth = AuthNone | AuthConfirm | AuthAbandonOverlay | AuthBlocked

record Op =
  Description :: string
  Auth :: Auth
  Sandbox :: string
  NeedsOlderRelease :: bool

definition Destructive :: "Op \<Rightarrow> bool" where
  "Destructive op \<longleftrightarrow> Auth op = AuthConfirm \<or> Auth op = AuthAbandonOverlay"

definition Blocked :: "Op \<Rightarrow> bool" where
  "Blocked op \<longleftrightarrow> Auth op = AuthBlocked"

record Plan =
  MigratorName :: string
  Ops :: "Op list"

record Decision =
  Yes :: bool
  AbandonStoppedOverlay :: bool

fun satisfies :: "Decision \<Rightarrow> Auth \<Rightarrow> bool" where
  "satisfies d AuthNone = True"
| "satisfies d AuthConfirm = Yes d"
| "satisfies d AuthAbandonOverlay = (Yes d \<and> AbandonStoppedOverlay d)"
| "satisfies d AuthBlocked = False"

record Report =
  Migrated :: "string list"
  Quarantined :: "string list"
  Notes :: "string list"

definition no_report :: Report where
  "no_report = \<lparr>Migrated = [], Quarantined = [], Notes = []\<rparr>"

definition Merge :: "Report \<Rightarrow> Report \<Rightarrow> Report" where
  "Merge r other = \<lparr>Migrated = Migrated r @ Migrated other,
     Quarantined = Quarantined r @ Quarantined other, Notes = Notes r @ Notes other\<rparr>"

fun unmet_ops :: "Plan list \<Rightarrow> Decision \<Rightarrow> Op list" where
  "unmet_ops [] d = []"
| "unmet_ops (p # ps) d = filter (\<lambda>op. \<not> satisfies d (Auth op)) (Ops p) @ unmet_ops ps d"

definition Authorize :: "Plan list \<Rightarrow> Decision \<Rightarrow> bool \<times> Op list" where
  "Authorize plans d = (unmet_ops plans d = [], unmet_ops plans d)"

section \<open>The driver\<close>

record 's Migrator =
  Describe :: string
  MPlan :: "'s \<Rightarrow> (string, Plan) result"
  MApply :: "Decision \<Rightarrow> 's \<Rightarrow> Report \<times> string option \<times> 's"

fun CollectPlans :: "'s Migrator list \<Rightarrow> 's \<Rightarrow> (string, Plan list) result" where
  "CollectPlans [] s = Inr []"
| "CollectPlans (m # ms) s = (case MPlan m s of
       Inl e \<Rightarrow> Inl (''plan '' @ Describe m @ '': '' @ e)
     | Inr p \<Rightarrow> (case CollectPlans ms s of
           Inl e \<Rightarrow> Inl e
         | Inr ps \<Rightarrow> Inr (p\<lparr>MigratorName := Describe m\<rparr> # ps)))"

text \<open>\<open>summarizeUnmet\<close>: the distinct descriptions, in order, joined.\<close>

fun summarize_parts :: "string list \<Rightarrow> Op list \<Rightarrow> string list" where
  "summarize_parts seen [] = []"
| "summarize_parts seen (op # ops) =
     (if Description op \<in> set seen then summarize_parts seen ops
      else Description op # summarize_parts (Description op # seen) ops)"

fun Join :: "string list \<Rightarrow> string \<Rightarrow> string" where
  "Join [] sep = []"
| "Join [a] sep = a"
| "Join (a # b # rest) sep = a @ sep @ Join (b # rest) sep"

definition summarizeUnmet :: "Op list \<Rightarrow> string" where
  "summarizeUnmet unmet = Join (summarize_parts [] unmet) ''; ''"

fun apply_loop :: "'s Migrator list \<Rightarrow> Decision \<Rightarrow> Report \<Rightarrow> 's \<Rightarrow> Report \<times> string option \<times> 's" where
  "apply_loop [] d report s = (report, None, s)"
| "apply_loop (m # ms) d report s = (case MPlan m s of
       Inl e \<Rightarrow> (report, Some (''re-plan '' @ Describe m @ '': '' @ e), s)
     | Inr p \<Rightarrow>
         (case Authorize [p\<lparr>MigratorName := Describe m\<rparr>] d of
            (ok, unmet) \<Rightarrow>
              if \<not> ok then (report, Some (''migrator '' @ Describe m @ '' now requires approval: ''
                  @ summarizeUnmet unmet), s)
              else (case MApply m d s of
                  (rep, err, s') \<Rightarrow> (case err of
                      Some e \<Rightarrow> (Merge report rep, Some (''apply '' @ Describe m @ '': '' @ e), s')
                    | None \<Rightarrow> apply_loop ms d (Merge report rep) s'))))"

record 's Home =
  AcquireHomeLock :: "'s \<Rightarrow> (string, 's) result"
  release :: "'s \<Rightarrow> 's"
  DisposeScratch :: "'s \<Rightarrow> string option \<times> 's"

definition ApplyAll :: "'s Home \<Rightarrow> 's Migrator list \<Rightarrow> Decision \<Rightarrow> 's \<Rightarrow> Report \<times> string option \<times> 's" where
  "ApplyAll home ms d s = (case AcquireHomeLock home s of
       Inl e \<Rightarrow> (no_report, Some (''a migration is already in progress: '' @ e), s)
     | Inr s1 \<Rightarrow> (case DisposeScratch home s1 of
           (Some e, s2) \<Rightarrow> (no_report, Some e, release home s2)
         | (None, s2) \<Rightarrow> (case apply_loop ms d no_report s2 of
               (report, err, s3) \<Rightarrow>
                 (report, err, release home (snd (DisposeScratch home s3))))))"

section \<open>Authorization\<close>

lemma unmet_ops_set: "set (unmet_ops plans d) = {op. \<exists>p \<in> set plans. op \<in> set (Ops p) \<and> \<not> satisfies d (Auth op)}"
  by (induction plans) auto

lemma Authorize_iff: "fst (Authorize plans d) \<longleftrightarrow> (\<forall>p \<in> set plans. \<forall>op \<in> set (Ops p). satisfies d (Auth op))"
  by (induction plans) (auto simp: Authorize_def filter_empty_conv)

lemma Authorize_rename [simp]: "Authorize [p\<lparr>MigratorName := n\<rparr>] d = Authorize [p] d"
  by (simp add: Authorize_def)

text \<open>C21: Authorization never goes beyond the flags. A run is authorized exactly when every planned
  operation is satisfied; no decision authorizes a plan with a blocked operation; and a decision
  without the abandon flag authorizes no plan that would discard uncommitted overlay work, so the
  plain yes flag alone never destroys work. The operations reported as unmet are exactly those.\<close>

theorem Authorize_sound:
  "(fst (Authorize plans d) = list_all (\<lambda>op. satisfies d (Auth op)) (concat (map Ops plans))) \<and>
   set (snd (Authorize plans d)) = {op \<in> set (concat (map Ops plans)). \<not> satisfies d (Auth op)} \<and>
   (if list_ex Blocked (concat (map Ops plans)) then \<not> fst (Authorize plans d) else True) \<and>
   (if list_ex (\<lambda>op. Auth op = AuthAbandonOverlay) (concat (map Ops plans)) \<and> \<not> (Yes d \<and> AbandonStoppedOverlay d)
    then \<not> fst (Authorize plans d) else True)"
proof -
  have 1: "fst (Authorize plans d) = list_all (\<lambda>op. satisfies d (Auth op)) (concat (map Ops plans))"
    by (simp add: Authorize_iff list_all_iff)
  moreover have "set (snd (Authorize plans d)) = {op \<in> set (concat (map Ops plans)). \<not> satisfies d (Auth op)}"
    using unmet_ops_set [of plans d] by (auto simp: Authorize_def)
  moreover have "list_ex Blocked (concat (map Ops plans)) \<Longrightarrow> \<not> fst (Authorize plans d)"
    unfolding 1 by (auto simp: list_all_iff list_ex_iff Blocked_def intro!: bexI)
  moreover have "list_ex (\<lambda>op. Auth op = AuthAbandonOverlay) (concat (map Ops plans)) \<Longrightarrow>
      \<not> (Yes d \<and> AbandonStoppedOverlay d) \<Longrightarrow> \<not> fst (Authorize plans d)"
    unfolding 1 by (auto simp: list_all_iff list_ex_iff intro!: bexI)
  ultimately show ?thesis by simp
qed

section \<open>The driver applies only what is authorized\<close>

lemma apply_loop_append:
  "apply_loop (ms @ ms') d r s = (case apply_loop ms d r s of
     (r1, Some e, s1) \<Rightarrow> (r1, Some e, s1) | (r1, None, s1) \<Rightarrow> apply_loop ms' d r1 s1)"
  by (induction ms arbitrary: r s) (auto split: sum.splits prod.splits option.splits)

lemma apply_loop_inv:
  assumes "P s" and "\<And>m s p. m \<in> set ms \<Longrightarrow> P s \<Longrightarrow> MPlan m s = Inr p \<Longrightarrow> fst (Authorize [p] d) \<Longrightarrow>
      P (snd (snd (MApply m d s)))"
  shows "P (snd (snd (apply_loop ms d r s)))"
  using assms
proof (induction ms arbitrary: r s)
  case (Cons m ms)
  show ?case
  proof (cases "MPlan m s")
    case (Inr p)
    show ?thesis
    proof (cases "fst (Authorize [p] d)")
      case True
      have "P (snd (snd (MApply m d s)))" using Cons.prems True Inr by auto
      then show ?thesis
        using Inr True Cons.IH Cons.prems(2)
        by (cases "MApply m d s") (auto simp: Authorize_def split: option.split)
    qed (use Cons.prems Inr in \<open>auto simp: Authorize_def\<close>)
  qed (use Cons.prems in simp)
qed simp

text \<open>The newly-destructive guard. When the migrators before \<open>m\<close> have been applied and the plan
  \<open>m\<close> then makes of the current state needs an approval that was not given, the run stops there with an
  error: \<open>m\<close> and every migrator after it change nothing, only the scratch directory is cleared and the
  lock released.\<close>

theorem ApplyAll_refuses_drift:
  assumes "AcquireHomeLock home s = Inr s1" and "DisposeScratch home s1 = (None, s2)"
    and "apply_loop before d no_report s2 = (rep, None, s3)"
    and "MPlan m s3 = Inr p" and "op \<in> set (Ops p)" and "\<not> satisfies d (Auth op)"
  shows "\<exists>e. ApplyAll home (before @ m # after) d s =
    (rep, Some e, release home (snd (DisposeScratch home s3)))"
proof -
  have "\<not> fst (Authorize [p] d)" using assms(5,6) by (auto simp: Authorize_iff)
  then have "\<exists>e. apply_loop (before @ m # after) d no_report s2 = (rep, Some e, s3)"
    using assms(3,4) by (auto simp: apply_loop_append split: prod.split)
  then show ?thesis using assms(1,2) by (auto simp: ApplyAll_def)
qed

definition free_home :: "nat Home" where
  "free_home = \<lparr>AcquireHomeLock = Inr, release = id, DisposeScratch = (\<lambda>s. (None, s))\<rparr>"

definition counting :: "Auth \<Rightarrow> nat Migrator" where
  "counting a = \<lparr>Describe = ''count'',
     MPlan = (\<lambda>_. Inr \<lparr>MigratorName = [], Ops = [\<lparr>Description = ''op'', Auth = a, Sandbox = [], NeedsOlderRelease = False\<rparr>]\<rparr>),
     MApply = (\<lambda>_ s. (no_report, None, Suc s))\<rparr>"

lemma no_report_Merge [simp]: "Merge no_report r = r"
  by (simp add: Merge_def no_report_def)

theorem ApplyAll_refuses_drift_witness:
  "\<exists>e. ApplyAll free_home ([counting AuthNone] @ counting AuthAbandonOverlay # [counting AuthNone])
     \<lparr>Yes = True, AbandonStoppedOverlay = False\<rparr> 0 = (no_report, Some e, 1)"
  using ApplyAll_refuses_drift [of free_home 0 0 0 "[counting AuthNone]"
      "\<lparr>Yes = True, AbandonStoppedOverlay = False\<rparr>" no_report 1 "counting AuthAbandonOverlay"
      "\<lparr>MigratorName = [], Ops = [\<lparr>Description = ''op'', Auth = AuthAbandonOverlay, Sandbox = [], NeedsOlderRelease = False\<rparr>]\<rparr>"
      "\<lparr>Description = ''op'', Auth = AuthAbandonOverlay, Sandbox = [], NeedsOlderRelease = False\<rparr>"
      "[counting AuthNone]"]
  by (simp add: free_home_def counting_def Authorize_def)

text \<open>Every invariant that authorized applications keep is kept by a run: if a property of the
  state is preserved by the lock, the scratch disposal and by each migrator's application, assuming
  only applications whose freshly derived plan the decision authorizes, then it holds after the run,
  whether the run succeeds or fails.\<close>

theorem ApplyAll_invariant:
  assumes "P s"
    and "\<And>s s'. P s \<Longrightarrow> AcquireHomeLock home s = Inr s' \<Longrightarrow> P s'"
    and "\<And>s. P s \<Longrightarrow> P (release home s)" and "\<And>s. P s \<Longrightarrow> P (snd (DisposeScratch home s))"
    and "\<And>m s p. m \<in> set ms \<Longrightarrow> P s \<Longrightarrow> MPlan m s = Inr p \<Longrightarrow>
      (\<forall>op \<in> set (Ops p). satisfies d (Auth op)) \<Longrightarrow> P (snd (snd (MApply m d s)))"
  shows "P (snd (snd (ApplyAll home ms d s)))"
proof (cases "AcquireHomeLock home s")
  case (Inr s1)
  then have P1: "P s1" using assms(1,2) by blast
  obtain e s2 where D: "DisposeScratch home s1 = (e, s2)" by fastforce
  then have P2: "P s2" using assms(4) [OF P1] by simp
  obtain r err s3 where L: "apply_loop ms d no_report s2 = (r, err, s3)"
    by (cases "apply_loop ms d no_report s2")
  have "P (snd (snd (apply_loop ms d no_report s2)))"
  proof (rule apply_loop_inv [where P = P, OF P2])
    fix m s p assume "m \<in> set ms" "P s" "MPlan m s = Inr p" "fst (Authorize [p] d)"
    then show "P (snd (snd (MApply m d s)))" by (intro assms(5)) (auto simp: Authorize_iff)
  qed
  with L have "P s3" by simp
  then have "P (release home (snd (DisposeScratch home s3)))" by (intro assms(3,4))
  moreover have "P (release home s2)" by (rule assms(3) [OF P2])
  ultimately show ?thesis using Inr D L by (cases e) (simp_all add: ApplyAll_def)
qed (use assms(1) in \<open>simp add: ApplyAll_def\<close>)

theorem ApplyAll_invariant_witness:
  "snd (snd (ApplyAll free_home [counting AuthBlocked, counting AuthBlocked]
     \<lparr>Yes = True, AbandonStoppedOverlay = True\<rparr> 0)) \<le> 0"
  by (rule ApplyAll_invariant [where P = "\<lambda>s. s \<le> 0" and ms = "[counting AuthBlocked, counting AuthBlocked]"])
    (auto simp: free_home_def counting_def)

end
