(* ===== verification/Promotion.thy ===== *)
theory Promotion
  imports FaultIO
begin

text \<open>
  The resumable promotion of \<open>internal/migrate/promote.go\<close>: build a unit anew, swap it in by
  renames, dispose of the original, and recover from a crash at any step. This theory holds the
  definitions, one per function of the source, in its order. The function-valued fields of the
  struct \<open>Promotion\<close> stay function-valued fields of the record. \<open>Parent\<close> is the live directory
  of the world and \<open>ScratchDir\<close> its scratch directory. The test seam \<open>checkpoint\<close> is a
  primitive without effect, so a schedule can also end a run there, as the injected crashes of
  the tests do.
\<close>

section \<open>Constants\<close>

definition suffixOrig :: string where "suffixOrig = ''_^^_orig''"
definition suffixNew :: string where "suffixNew = ''_^^_new''"
definition buildCompleteName :: string where "buildCompleteName = ''.yoloai-build-complete''"
definition repopTempPrefix :: string where "repopTempPrefix = ''.yoloai-repop-''"
definition maxResolveSteps :: nat where "maxResolveSteps = 16"

lemmas promo_consts = suffixOrig_def suffixNew_def buildCompleteName_def repopTempPrefix_def

section \<open>The struct and the on-disk states\<close>

record promotion =
  Name :: string
  Build :: "path \<Rightarrow> unit io"
  WriteReadyMarker :: "path \<Rightarrow> unit io"
  IsReady :: "path \<Rightarrow> bool io"
  DisposeOrig :: "path \<Rightarrow> unit io"

definition canonical :: "promotion \<Rightarrow> path" where "canonical p = Live (Name p)"
definition orig :: "promotion \<Rightarrow> path" where "orig p = Live (Name p @ suffixOrig)"
definition newer :: "promotion \<Rightarrow> path" where "newer p = Live (Name p @ suffixNew)"

lemmas promo_paths = canonical_def orig_def newer_def

datatype promotionState =
    stateInitial | stateDone | stateOrigOnly | stateOrigNew | stateDisposePending | stateCorrupt

definition checkpoint :: "string \<Rightarrow> unit io" where
  "checkpoint step = prim step (\<lambda>w. Some ((), w)) no_part"

section \<open>Classification\<close>

definition classifyLoneUnit :: "promotion \<Rightarrow> promotionState io" where
  "classifyLoneUnit p = io_bind (IsReady p (canonical p)) (\<lambda>ready.
     io_ret (if ready then stateDone else stateInitial))"

definition classify :: "promotion \<Rightarrow> promotionState io" where
  "classify p =
     io_bind (os_exists (canonical p)) (\<lambda>u.
     io_bind (os_exists (orig p)) (\<lambda>o'.
     io_bind (os_exists (newer p)) (\<lambda>n.
       if u \<and> \<not> o' \<and> \<not> n then classifyLoneUnit p
       else if \<not> u \<and> o' \<and> \<not> n then io_ret stateOrigOnly
       else if \<not> u \<and> o' \<and> n then io_ret stateOrigNew
       else if u \<and> o' \<and> \<not> n then io_ret stateDisposePending
       else io_ret stateCorrupt)))"

section \<open>Sentinels and temporaries\<close>

definition writeBuildComplete :: "path \<Rightarrow> unit io" where
  "writeBuildComplete d =
     AtomicWriteFile ''write build-complete sentinel'' d buildCompleteName (''ok'' @ [CHR 10])"

definition hasBuildComplete :: "path \<Rightarrow> bool io" where
  "hasBuildComplete d = os_Stat ''stat build-complete sentinel'' (Under d buildCompleteName)"

definition removeBuildComplete :: "path \<Rightarrow> unit io" where
  "removeBuildComplete d = os_Remove ''remove build-complete sentinel'' (Under d buildCompleteName)"

definition is_repop_temp :: "string \<Rightarrow> bool" where
  "is_repop_temp n = HasPrefix n repopTempPrefix"

definition cleanRepopTemps :: "path \<Rightarrow> unit io" where
  "cleanRepopTemps d = io_bind (os_ReadDir ''read dir for temp cleanup'' d) (\<lambda>entries.
     io_each (\<lambda>e. if is_repop_temp (fst e)
                   then os_RemoveAll ''remove stale repopulate temp'' (Under d (fst e))
                   else io_ret ()) entries)"

definition is_write_temp :: "string \<Rightarrow> bool" where
  "is_write_temp n \<longleftrightarrow> HasPrefix n ''.'' \<and> Contains n ''.tmp-''"

definition cleanTopLevelWriteTemps :: "path \<Rightarrow> unit io" where
  "cleanTopLevelWriteTemps d = io_bind (os_ReadDir ''read dir for write-temp cleanup'' d) (\<lambda>entries.
     io_each (\<lambda>e. if is_dir (snd e) \<or> \<not> is_write_temp (fst e) then io_ret ()
                   else os_Remove ''remove orphaned write temp'' (Under d (fst e))) entries)"

definition dirNameSet :: "path \<Rightarrow> string list io" where
  "dirNameSet d = io_bind (os_ReadDir ''read dir'' d) (\<lambda>entries. io_ret (map fst entries))"

section \<open>The steps\<close>

definition repopulate_entry :: "path \<Rightarrow> path \<Rightarrow> string list \<Rightarrow> string \<times> node \<Rightarrow> unit io" where
  "repopulate_entry o' n present e =
     (if fst e \<in> set present then io_ret ()
      else io_seq (os_RemoveAll ''clear repopulate temp'' (Under n (repopTempPrefix @ fst e)))
        (io_seq (CopyPathFaithful ''repopulate'' (Under o' (fst e)) (Under n (repopTempPrefix @ fst e)))
        (io_seq (Fsync ''fsync repopulated'' (Under n (repopTempPrefix @ fst e)))
        (os_Rename ''commit repopulated'' (Under n (repopTempPrefix @ fst e)) (Under n (fst e))))))"

definition repopulate :: "path \<Rightarrow> path \<Rightarrow> unit io" where
  "repopulate o' n =
     io_seq (cleanRepopTemps n)
     (io_bind (os_ReadDir ''read orig for repopulate'' o') (\<lambda>origEntries.
      io_bind (dirNameSet n) (\<lambda>present.
      io_each (repopulate_entry o' n present) origEntries)))"

definition restoreFromOrig :: "promotion \<Rightarrow> unit io" where
  "restoreFromOrig p =
     io_seq (os_Rename ''restore from orig'' (orig p) (canonical p))
     (io_seq (FsyncParent ''fsync parent'')
     (checkpoint ''restore''))"

definition discardPartialAndRestore :: "promotion \<Rightarrow> unit io" where
  "discardPartialAndRestore p =
     io_seq (os_RemoveAll ''discard partial new'' (newer p))
     (io_seq (FsyncParent ''fsync parent'')
     (io_seq (checkpoint ''discard-new'')
     (restoreFromOrig p)))"

definition repopulateAndMark :: "promotion \<Rightarrow> unit io" where
  "repopulateAndMark p =
     io_seq (repopulate (orig p) (newer p))
     (io_seq (Fsync ''fsync new'' (newer p))
     (io_seq (checkpoint ''repopulate'')
     (io_seq (WriteReadyMarker p (newer p))
     (checkpoint ''marker''))))"

definition promoteReady :: "promotion \<Rightarrow> unit io" where
  "promoteReady p =
     io_seq (removeBuildComplete (newer p))
     (io_seq (Fsync ''fsync new'' (newer p))
     (io_seq (checkpoint ''pre-promote-swap'')
     (io_seq (cleanTopLevelWriteTemps (newer p))
     (io_seq (os_Rename ''promote'' (newer p) (canonical p))
     (io_seq (FsyncParent ''fsync parent'')
     (checkpoint ''promote''))))))"

definition resolveOrigNew :: "promotion \<Rightarrow> unit io" where
  "resolveOrigNew p =
     io_bind (IsReady p (newer p)) (\<lambda>ready.
       if ready then promoteReady p
       else io_bind (hasBuildComplete (newer p)) (\<lambda>complete.
         if \<not> complete then discardPartialAndRestore p
         else repopulateAndMark p))"

definition buildAndStage :: "promotion \<Rightarrow> unit io" where
  "buildAndStage p =
     io_seq (os_RemoveAll ''clear scratch'' Scratch)
     (io_seq (os_MkdirAll ''create scratch'' Scratch)
     (io_seq (Build p Scratch)
     (io_seq (Fsync ''fsync built'' Scratch)
     (io_seq (writeBuildComplete Scratch)
     (io_seq (checkpoint ''build'')
     (io_seq (os_Rename ''rename to orig'' (canonical p) (orig p))
     (io_seq (FsyncParent ''fsync parent'')
     (io_seq (checkpoint ''orig'')
     (io_seq (os_Rename ''move built into place'' Scratch (newer p))
     (io_seq (FsyncParent ''fsync parent'')
     (checkpoint ''new'')))))))))))"

definition dispose :: "promotion \<Rightarrow> unit io" where
  "dispose p =
     io_seq (DisposeOrig p (orig p))
     (io_seq (FsyncParent ''fsync parent'')
     (checkpoint ''dispose''))"

text \<open>The loop of \<open>Run\<close>: its bound is the source's \<open>maxResolveSteps\<close>.\<close>

fun run_steps :: "nat \<Rightarrow> promotion \<Rightarrow> unit io" where
  "run_steps 0 p = io_fail ''did not converge''"
| "run_steps (Suc k) p = io_bind (classify p) (\<lambda>st. case st of
       stateDone \<Rightarrow> io_ret ()
     | stateInitial \<Rightarrow> io_seq (buildAndStage p) (run_steps k p)
     | stateOrigOnly \<Rightarrow> io_seq (restoreFromOrig p) (run_steps k p)
     | stateOrigNew \<Rightarrow> io_seq (resolveOrigNew p) (run_steps k p)
     | stateDisposePending \<Rightarrow> io_seq (dispose p) (run_steps k p)
     | stateCorrupt \<Rightarrow> io_fail ''unreachable on-disk state'')"

definition Run :: "promotion \<Rightarrow> unit io" where
  "Run p = run_steps maxResolveSteps p"

section \<open>Disposers\<close>

definition base_name :: "path \<Rightarrow> string" where
  "base_name q = (case q of Live n \<Rightarrow> n | Under _ n \<Rightarrow> n | Scratch \<Rightarrow> [] | TrashRoot \<Rightarrow> [])"

text \<open>The loop that looks for a free name: \<open>base\<close>, \<open>base.1\<close>, \<open>base.2\<close>, ... A directory of
  \<open>k\<close> entries cannot hold \<open>k + 1\<close> of the candidates, so that many tries are enough
  (\<open>free_name_free\<close>).\<close>

definition trash_candidate :: "string \<Rightarrow> nat \<Rightarrow> string" where
  "trash_candidate base i = (if i = 0 then base else base @ ''.'' @ Itoa i)"

fun free_index :: "nat \<Rightarrow> string list \<Rightarrow> string \<Rightarrow> nat \<Rightarrow> nat" where
  "free_index 0 names base i = i"
| "free_index (Suc k) names base i =
     (if trash_candidate base i \<in> set names then free_index k names base (Suc i) else i)"

definition free_name :: "string list \<Rightarrow> string \<Rightarrow> string" where
  "free_name names base = trash_candidate base (free_index (Suc (length names)) names base 0)"

definition TrashDisposer :: "path \<Rightarrow> unit io" where
  "TrashDisposer o' =
     io_seq (os_MkdirAll ''create trash dir'' TrashRoot)
     (io_bind (io_get (\<lambda>w. free_name (names_of TrashRoot w) (base_name o'))) (\<lambda>dest.
     (io_seq (os_Rename ''move orig to trash'' o' (Under TrashRoot dest))
     (Fsync ''fsync trash'' TrashRoot))))"

definition DropDisposer :: "path \<Rightarrow> unit io" where
  "DropDisposer o' = os_RemoveAll ''drop orig'' o'"

section \<open>Free names\<close>

lemma trash_candidate_inj: "trash_candidate base i = trash_candidate base j \<longleftrightarrow> i = j"
  by (auto simp: trash_candidate_def)

lemma free_index_cases:
  "trash_candidate base (free_index k names base i) \<notin> set names \<or>
   (\<forall>j < k. trash_candidate base (i + j) \<in> set names)"
proof (induction k arbitrary: i)
  case (Suc k)
  show ?case
  proof (cases "trash_candidate base i \<in> set names")
    case True
    have "trash_candidate base (i + j) \<in> set names"
      if "\<forall>j < k. trash_candidate base (Suc i + j) \<in> set names" "j < Suc k" for j
      using that True by (cases j) auto
    with True Suc.IH [of "Suc i"] show ?thesis by auto
  qed simp
qed simp

lemma free_name_free: "free_name names base \<notin> set names"
proof
  assume a: "free_name names base \<in> set names"
  let ?k = "Suc (length names)"
  from a free_index_cases [of base ?k names 0]
  have all: "\<forall>j < ?k. trash_candidate base j \<in> set names" by (simp add: free_name_def)
  have "inj_on (trash_candidate base) {..<?k}" by (simp add: inj_on_def trash_candidate_inj)
  then have "card (trash_candidate base ` {..<?k}) = ?k" by (simp add: card_image)
  moreover have "trash_candidate base ` {..<?k} \<subseteq> set names" using all by auto
  then have "card (trash_candidate base ` {..<?k}) \<le> card (set names)"
    by (rule card_mono [rotated]) simp
  ultimately show False using card_length [of names] by linarith
qed

end
