(* ===== verification/PromotionSafety.thy ===== *)
theory PromotionSafety
  imports Promotion DirRules
begin

text \<open>
  Crash safety of the promotion. The first part verifies the directory-level steps of
  \<open>promote.go\<close> (cleaning temporaries, repopulating, promoting) over entry maps. The second part is
  the interface: the locale \<open>promotion_client\<close> states what a migrator that fills in the
  function-valued fields of \<open>Promotion\<close> has to guarantee, and proves from it, once, that a run
  under any fault schedule stays inside six on-disk stages, that it never loses the original, and
  that a run without faults from any of these stages ends in the finished one.
\<close>

section \<open>Entry maps of a unit under promotion\<close>

definition plain :: "string \<Rightarrow> bool" where
  "plain n \<longleftrightarrow> n \<noteq> buildCompleteName \<and> \<not> is_repop_temp n \<and> \<not> is_write_temp n"

definition stray_temp :: "string \<Rightarrow> bool" where
  "stray_temp n \<longleftrightarrow> is_write_temp n \<and> \<not> is_repop_temp n"

type_synonym entries = "string \<rightharpoonup> node"

definition fill :: "entries \<Rightarrow> entries \<Rightarrow> entries \<Rightarrow> bool" where
  "fill d b m \<longleftrightarrow> (\<exists>s. m buildCompleteName = Some (File s)) \<and>
     (\<forall>n. plain n \<longrightarrow> m n = (d ++ b) n \<or> (b n = None \<and> m n = None)) \<and>
     (\<forall>n. stray_temp n \<longrightarrow> not_dir (m n))"

definition full :: "entries \<Rightarrow> entries \<Rightarrow> entries \<Rightarrow> bool" where
  "full d b m \<longleftrightarrow> (\<exists>s. m buildCompleteName = Some (File s)) \<and>
     (\<forall>n. plain n \<longrightarrow> m n = (d ++ b) n) \<and>
     (\<forall>n. is_repop_temp n \<longrightarrow> m n = None) \<and>
     (\<forall>n. stray_temp n \<longrightarrow> not_dir (m n))"

definition marked :: "entries \<Rightarrow> entries \<Rightarrow> string \<Rightarrow> node \<Rightarrow> entries \<Rightarrow> bool" where
  "marked d b mk mv m \<longleftrightarrow> not_dir (m buildCompleteName) \<and>
     (\<forall>n. plain n \<longrightarrow> m n = ((d ++ b)(mk \<mapsto> mv)) n) \<and>
     (\<forall>n. is_repop_temp n \<longrightarrow> m n = None) \<and>
     (\<forall>n. stray_temp n \<longrightarrow> not_dir (m n))"

definition final_map :: "entries \<Rightarrow> entries \<Rightarrow> string \<Rightarrow> node \<Rightarrow> entries" where
  "final_map d b mk mv = (\<lambda>n. if plain n then ((d ++ b)(mk \<mapsto> mv)) n else None)"

lemma buildCompleteName_class [simp]:
  "\<not> is_repop_temp buildCompleteName" "\<not> is_write_temp buildCompleteName"
  by code_simp+

lemma repop_name [simp]: "is_repop_temp (repopTempPrefix @ n)"
  by (simp add: is_repop_temp_def go_string)

lemma plain_simps [simp]:
  "\<not> plain buildCompleteName" "is_repop_temp n \<Longrightarrow> \<not> plain n" "is_write_temp n \<Longrightarrow> \<not> plain n"
  by (auto simp: plain_def)

lemma name_class_cases:
  obtains "plain n" | "n = buildCompleteName" | "is_repop_temp n" | "stray_temp n"
  by (auto simp: plain_def stray_temp_def)

lemma stray_simps [simp]: "\<not> stray_temp buildCompleteName" "is_repop_temp n \<Longrightarrow> \<not> stray_temp n"
  by (auto simp: stray_temp_def)

lemma plain_not_stray: "plain n \<Longrightarrow> \<not> stray_temp n"
  by (auto simp: plain_def stray_temp_def)

lemma full_fill: "full d b m \<Longrightarrow> fill d b m"
  by (auto simp: full_def fill_def)

lemma fill_repop: "fill d b m \<Longrightarrow> is_repop_temp n \<Longrightarrow> fill d b (m(n := x))"
  by (auto simp: fill_def)

lemma fill_stray: "fill d b m \<Longrightarrow> stray_temp n \<Longrightarrow> not_dir x \<Longrightarrow> fill d b (m(n := x))"
  using plain_not_stray by (auto simp: fill_def)

section \<open>Cleaning temporaries\<close>

lemma dir_fixed:
  "(\<And>m0. P m0 \<Longrightarrow> spec (dir_at t w0 (\<lambda>m. m = m0)) f Q R) \<Longrightarrow> spec (dir_at t w0 P) f Q R"
proof (rule specI)
  fix w sch
  assume all: "\<And>m0. P m0 \<Longrightarrow> spec (dir_at t w0 (\<lambda>m. m = m0)) f Q R" and "dir_at t w0 P w"
  from this(2) obtain N where N: "distinct (map fst N)" "P (map_of N)" "w = put t (Some (Dir N)) w0"
    by (rule dir_atE)
  have "dir_at t w0 (\<lambda>m. m = map_of N) w" unfolding N(3) using N(1) by (rule dir_at_put) simp
  with all [OF N(2)] show "good_end Q R sch (f (w, sch))" by (rule specD)
qed

lemma cleanRepopTemps_spec:
  assumes t: "slot t w0" and P: "\<And>m n x. P m \<Longrightarrow> is_repop_temp n \<Longrightarrow> P (m(n := x))"
  shows "spec (dir_at t w0 P) (cleanRepopTemps t)
    (\<lambda>_. dir_at t w0 (\<lambda>m. P m \<and> (\<forall>n. is_repop_temp n \<longrightarrow> m n = None))) (dir_at t w0 P)"
  unfolding cleanRepopTemps_def
proof (rule spec_bind [OF dir_ReadDir [OF t]])
  fix ds :: dir
  let ?f = "\<lambda>e. if is_repop_temp (fst e)
      then os_RemoveAll ''remove stale repopulate temp'' (Under t (fst e)) else io_ret ()"
  define I where "I = (\<lambda>ys :: dir. dir_at t w0
      (\<lambda>m. P m \<and> (\<forall>n. is_repop_temp n \<longrightarrow> m n \<noteq> None \<longrightarrow> n \<in> fst ` set ds - fst ` set ys)))"
  have "spec (I []) (io_each ?f ds) (\<lambda>_. I ds) (dir_at t w0 P)"
  proof (rule spec_each)
    fix ys :: dir and e zs
    show "spec (I ys) (?f e) (\<lambda>_. I (ys @ [e])) (dir_at t w0 P)"
    proof (cases "is_repop_temp (fst e)")
      case True
      then show ?thesis unfolding I_def
        by (simp only: if_True) (rule dir_RemoveAll [OF t]; auto intro: P)
    next
      case False
      then show ?thesis unfolding I_def
        by (simp only: if_False) (rule dir_get; auto)
    qed
  qed
  then show "spec (dir_at t w0 (\<lambda>m. P m \<and> map_of ds = m \<and> distinct (map fst ds))) (io_each ?f ds)
      (\<lambda>_. dir_at t w0 (\<lambda>m. P m \<and> (\<forall>n. is_repop_temp n \<longrightarrow> m n = None))) (dir_at t w0 P)"
  proof (rule spec_conseq)
    fix w assume "dir_at t w0 (\<lambda>m. P m \<and> map_of ds = m \<and> distinct (map fst ds)) w"
    then show "I [] w" unfolding I_def
      by (rule dir_at_mono) (auto simp: dom_map_of_conv_image_fst [symmetric])
  next
    fix w assume "I ds w"
    then show "dir_at t w0 (\<lambda>m. P m \<and> (\<forall>n. is_repop_temp n \<longrightarrow> m n = None)) w" unfolding I_def
      by (rule dir_at_mono) auto
  qed
qed auto

definition swept :: "entries \<Rightarrow> entries" where
  "swept m = (\<lambda>n. if is_write_temp n \<and> not_dir (m n) then None else m n)"

lemma cleanTopLevelWriteTemps_spec:
  assumes t: "slot t w0"
    and R: "\<And>m S. m = (\<lambda>n. if is_write_temp n \<and> not_dir (m0 n) \<and> n \<in> S then None else m0 n) \<Longrightarrow> R m"
  shows "spec (dir_at t w0 (\<lambda>m. m = m0)) (cleanTopLevelWriteTemps t)
    (\<lambda>_. dir_at t w0 (\<lambda>m. m = swept m0)) (dir_at t w0 R)"
  unfolding cleanTopLevelWriteTemps_def
proof (rule spec_bind [OF dir_ReadDir [OF t]])
  fix ds :: dir
  define cut where "cut = (\<lambda>S n. if is_write_temp n \<and> not_dir (m0 n) \<and> n \<in> S then None else m0 n)"
  let ?f = "\<lambda>e :: string \<times> node. if is_dir (snd e) \<or> \<not> is_write_temp (fst e) then io_ret ()
      else os_Remove ''remove orphaned write temp'' (Under t (fst e))"
  define I where "I = (\<lambda>ys :: dir. dir_at t w0
      (\<lambda>m. m = cut (fst ` set ys) \<and> map_of ds = m0 \<and> distinct (map fst ds)))"
  have "spec (I []) (io_each ?f ds) (\<lambda>_. I ds) (dir_at t w0 R)"
  proof (rule spec_each)
    fix ys e zs assume ds: "ds = ys @ e # zs"
    have e: "map_of ds = m0 \<Longrightarrow> distinct (map fst ds) \<Longrightarrow> m0 (fst e) = Some (snd e)"
      using ds by (metis in_set_conv_decomp map_of_is_SomeI prod.collapse)
    show "spec (I ys) (?f e) (\<lambda>_. I (ys @ [e])) (dir_at t w0 R)"
    proof (cases "is_dir (snd e) \<or> \<not> is_write_temp (fst e)")
      case True
      have "cut (fst ` set ys) = cut (fst ` set (ys @ [e]))"
        if "map_of ds = m0" "distinct (map fst ds)"
        using True e [OF that] by (auto simp: cut_def fun_eq_iff not_dir_def)
      with True show ?thesis unfolding I_def
        by (simp only: if_True) (rule dir_get; auto)
    next
      case False
      have "not_dir (cut (fst ` set ys) (fst e))"
          and "(cut (fst ` set ys))(fst e := None) = cut (fst ` set (ys @ [e]))"
        if "map_of ds = m0" "distinct (map fst ds)"
        using False e [OF that] by (auto simp: cut_def fun_eq_iff not_dir_def)
      moreover have "R (cut (fst ` set ys))" unfolding cut_def by (rule R) (rule refl)
      ultimately show ?thesis using False unfolding I_def
        by (simp only: if_False) (rule dir_Remove [OF t]; blast)
    qed
  qed
  then show "spec (dir_at t w0 (\<lambda>m. m = m0 \<and> map_of ds = m \<and> distinct (map fst ds))) (io_each ?f ds)
      (\<lambda>_. dir_at t w0 (\<lambda>m. m = swept m0)) (dir_at t w0 R)"
  proof (rule spec_conseq)
    fix w assume "dir_at t w0 (\<lambda>m. m = m0 \<and> map_of ds = m \<and> distinct (map fst ds)) w"
    then show "I [] w" unfolding I_def
      by (rule dir_at_mono) (auto simp: cut_def)
  next
    fix w assume "I ds w"
    then show "dir_at t w0 (\<lambda>m. m = swept m0) w" unfolding I_def
      by (rule dir_at_mono) (auto simp: cut_def swept_def fun_eq_iff dom_map_of_conv_image_fst [symmetric])
  qed
qed (use R [of m0 "{}"] in auto)

section \<open>Repopulating\<close>

definition refilled :: "entries \<Rightarrow> entries \<Rightarrow> string set \<Rightarrow> entries" where
  "refilled d m0 S = (\<lambda>n. if m0 n \<noteq> None then m0 n else if n \<in> S then d n else None)"

definition names_ok :: "entries \<Rightarrow> bool" where
  "names_ok d \<longleftrightarrow> (\<forall>n. is_repop_temp n \<longrightarrow> d n = None) \<and> (\<forall>n. stray_temp n \<longrightarrow> not_dir (d n))"

lemma refilled_fill:
  assumes "fill d b m0" and "names_ok d"
  shows "fill d b (refilled d m0 S)"
proof -
  have "refilled d m0 S n = (d ++ b) n \<or> (b n = None \<and> refilled d m0 S n = None)" if "plain n" for n
    using assms(1) that unfolding fill_def refilled_def
    by (cases "b n") (auto simp: map_add_def)
  with assms show ?thesis by (auto simp: fill_def refilled_def names_ok_def)
qed

lemma refilled_full:
  assumes "fill d b m0" and "names_ok d" and "\<forall>n. is_repop_temp n \<longrightarrow> m0 n = None"
  shows "full d b (refilled d m0 (dom d))"
proof -
  have "refilled d m0 (dom d) n = (d ++ b) n" if "plain n" for n
    using assms(1) that unfolding fill_def refilled_def
    by (cases "b n") (auto simp: map_add_def)
  with assms show ?thesis by (auto simp: fill_def full_def refilled_def names_ok_def)
qed

lemma dir_ReadDir_other:
  assumes "\<And>N. get o' (put t (Some (Dir N)) w0) = Some (Dir D)" and "distinct (map fst D)"
  shows "spec (dir_at t w0 P) (os_ReadDir msg o')
    (\<lambda>ds. dir_at t w0 (\<lambda>m. P m \<and> map_of ds = map_of D \<and> distinct (map fst ds))) (dir_at t w0 P)"
proof -
  have d: "distinct (map fst (sort_key fst D))"
    using assms(2) by (metis distinct_map distinct_sort set_sort)
  then have "map_of (sort_key fst D) = map_of D"
    by (intro map_of_inject_set [THEN iffD2]) (use assms(2) in auto)
  with d show ?thesis unfolding os_ReadDir_def
    by (intro spec_prim) (auto simp: no_part_def assms(1) elim!: dir_atE intro!: dir_at_put)
qed

lemma dirNameSet_spec:
  assumes "slot t w0"
  shows "spec (dir_at t w0 P) (dirNameSet t)
    (\<lambda>ns. dir_at t w0 (\<lambda>m. P m \<and> set ns = dom m)) (dir_at t w0 P)"
  unfolding dirNameSet_def
  by (rule spec_bind [OF dir_ReadDir [OF assms]], assumption, rule spec_ret, erule dir_at_mono)
    (auto simp: dom_map_of_conv_image_fst)

text \<open>One entry: copied under a temporary name, synced, renamed.\<close>

lemma repopulate_entry_spec:
  assumes t: "slot t w0" and src: "\<And>N. get (Under o' n) (put t (Some (Dir N)) w0) = Some x"
    and fresh: "m n = None" "m (repopTempPrefix @ n) = None" "\<not> is_repop_temp n"
    and fm: "fill d b m" and fm': "fill d b (m(n \<mapsto> x))"
    and ns: "n \<notin> set ns" and e: "fst e = n"
  shows "spec (dir_at t w0 (\<lambda>v. v = m)) (repopulate_entry o' t ns e)
    (\<lambda>_. dir_at t w0 (\<lambda>v. v = m(n \<mapsto> x))) (dir_at t w0 (fill d b))"
proof -
  let ?tn = "repopTempPrefix @ n"
  have ne: "?tn \<noteq> n" using fresh(3) repop_name [of n] by metis
  have fj: "fill d b (m(?tn := j))" for j by (rule fill_repop [OF fm repop_name])
  have "spec (dir_at t w0 (\<lambda>v. v = m)) (os_RemoveAll ''clear repopulate temp'' (Under t ?tn))
      (\<lambda>_. dir_at t w0 (\<lambda>v. v = m)) (dir_at t w0 (fill d b))"
    by (rule dir_RemoveAll [OF t]) (use fresh fm in auto)
  moreover have "spec (dir_at t w0 (\<lambda>v. v = m)) (CopyPathFaithful ''repopulate'' (Under o' n) (Under t ?tn))
      (\<lambda>_. dir_at t w0 (\<lambda>v. v = m(?tn \<mapsto> x))) (dir_at t w0 (fill d b))"
    by (rule dir_Copy_in [OF t src]) (auto intro: fj)
  moreover have "spec (dir_at t w0 (\<lambda>v. v = m(?tn \<mapsto> x))) (Fsync ''fsync repopulated'' (Under t ?tn))
      (\<lambda>_. dir_at t w0 (\<lambda>v. v = m(?tn \<mapsto> x))) (dir_at t w0 (fill d b))"
    by (rule dir_Fsync_entry [OF t]) (auto intro: fj)
  moreover have "spec (dir_at t w0 (\<lambda>v. v = m(?tn \<mapsto> x)))
      (os_Rename ''commit repopulated'' (Under t ?tn) (Under t n))
      (\<lambda>_. dir_at t w0 (\<lambda>v. v = m(n \<mapsto> x))) (dir_at t w0 (fill d b))"
    by (rule dir_Rename_entry [OF t ne, where x = x]) (use fresh ne in \<open>auto intro!: fj\<close>)
  ultimately show ?thesis unfolding repopulate_entry_def
    using ns by (simp only: e if_False) (intro spec_seq; assumption)
qed

lemma repopulate_spec:
  assumes t: "slot t w0" and src: "\<And>N. get o' (put t (Some (Dir N)) w0) = Some (Dir D)"
    and D: "distinct (map fst D)" and ok: "names_ok (map_of D)"
  shows "spec (dir_at t w0 (fill (map_of D) b)) (repopulate o' t)
    (\<lambda>_. dir_at t w0 (full (map_of D) b)) (dir_at t w0 (fill (map_of D) b))"
proof -
  let ?d = "map_of D" and ?F = "dir_at t w0 (fill (map_of D) b)"
  let ?clean = "\<lambda>m. fill ?d b m \<and> (\<forall>n. is_repop_temp n \<longrightarrow> m n = None)"
  have loop: "spec (dir_at t w0 (\<lambda>m. (?clean m \<and> map_of ds = ?d \<and> distinct (map fst ds)) \<and> set ns = dom m))
      (io_each (repopulate_entry o' t ns) ds) (\<lambda>_. dir_at t w0 (full ?d b)) ?F" for ds ns
  proof (rule dir_fixed)
    fix m0 assume a: "(?clean m0 \<and> map_of ds = ?d \<and> distinct (map fst ds)) \<and> set ns = dom m0"
    define I where "I = (\<lambda>ys :: dir. dir_at t w0 (\<lambda>m. m = refilled ?d m0 (fst ` set ys)))"
    have "spec (I []) (io_each (repopulate_entry o' t ns) ds) (\<lambda>_. I ds) ?F"
    proof (rule spec_each)
      fix ys e zs assume ds: "ds = ys @ e # zs"
      let ?m = "refilled ?d m0 (fst ` set ys)" and ?m' = "refilled ?d m0 (fst ` set (ys @ [e]))"
      obtain x where x: "?d (fst e) = Some x"
        using a ds by (metis in_set_conv_decomp weak_map_of_SomeI prod.collapse)
      show "spec (I ys) (repopulate_entry o' t ns e) (\<lambda>_. I (ys @ [e])) ?F"
      proof (cases "fst e \<in> set ns")
        case True
        then have "?m' = ?m" using a by (auto simp: refilled_def fun_eq_iff dom_def)
        with True show ?thesis unfolding I_def repopulate_entry_def
          by (simp only: if_True) (rule dir_get; simp)
      next
        case False
        then have m0: "m0 (fst e) = None" using a by auto
        have new: "fst e \<notin> fst ` set ys" using a ds by auto
        have notrep: "\<not> is_repop_temp (fst e)" using ok x by (auto simp: names_ok_def)
        have m': "?m' = ?m(fst e \<mapsto> x)" using m0 x by (auto simp: refilled_def fun_eq_iff)
        have "?m (repopTempPrefix @ fst e) = None"
          using a ok by (auto simp: refilled_def names_ok_def)
        moreover have "?m (fst e) = None" using m0 new by (simp add: refilled_def)
        moreover have "fill ?d b ?m" "fill ?d b (?m(fst e \<mapsto> x))"
          using a ok m' refilled_fill [of ?d b m0] by metis+
        moreover have "get (Under o' (fst e)) (put t (Some (Dir N)) w0) = Some x" for N
          using x by (simp add: src)
        ultimately show ?thesis unfolding I_def m'
          using t notrep False by (intro repopulate_entry_spec) auto
      qed
    qed
    then show "spec (dir_at t w0 (\<lambda>m. m = m0)) (io_each (repopulate_entry o' t ns) ds)
        (\<lambda>_. dir_at t w0 (full ?d b)) ?F"
    proof (rule spec_conseq)
      fix w assume "dir_at t w0 (\<lambda>m. m = m0) w"
      then show "I [] w" unfolding I_def by (rule dir_at_mono) (auto simp: refilled_def)
    next
      fix w assume "I ds w"
      then show "dir_at t w0 (full ?d b) w" unfolding I_def
        by (rule dir_at_mono)
          (use a ok refilled_full [of ?d b m0] in \<open>auto simp: dom_map_of_conv_image_fst [symmetric]\<close>)
    qed
  qed
  show ?thesis unfolding repopulate_def
    by (rule spec_seq [OF cleanRepopTemps_spec [OF t]], erule (1) fill_repop,
        rule spec_bind [OF spec_err [OF dir_ReadDir_other [OF src D]]], erule dir_at_mono, blast,
        rule spec_bind [OF spec_err [OF dirNameSet_spec [OF t]]], erule dir_at_mono, blast, rule loop)
qed

section \<open>The contract of a migrator\<close>

text \<open>What a ready-marker write may change: the marker, and temporaries of its own.\<close>

definition near :: "string \<Rightarrow> entries \<Rightarrow> entries \<Rightarrow> bool" where
  "near mk m0 m \<longleftrightarrow> (\<forall>n. n \<noteq> mk \<longrightarrow> m n = m0 n \<or> (stray_temp n \<and> not_dir (m n)))"

definition same_live_but :: "string \<Rightarrow> world \<Rightarrow> world \<Rightarrow> bool" where
  "same_live_but a w v \<longleftrightarrow> (\<forall>n. n \<noteq> a \<longrightarrow> live v n = live w n)"

lemma unit_names_distinct [simp]:
  "suffixOrig \<noteq> []" "suffixNew \<noteq> []" "suffixOrig \<noteq> suffixNew" "suffixNew \<noteq> suffixOrig"
  by (simp_all add: promo_consts)

text \<open>
  A disposer moves the original out of the way. \<open>pend w0 D\<close> and \<open>gone w0 D\<close> say how far it is,
  relative to the world \<open>w0\<close> the migration began in: under way with the original still at its
  place, or finished.
\<close>

definition trash_ok :: "world \<Rightarrow> bool" where
  "trash_ok w0 \<longleftrightarrow> trash w0 = None \<or> (\<exists>T. trash w0 = Some (Dir T) \<and> distinct (map fst T))"

locale disposer =
  fixes disp :: "path \<Rightarrow> unit io" and oname :: string
    and pend gone :: "world \<Rightarrow> dir \<Rightarrow> world \<Rightarrow> bool"
  assumes pend_start: "live w oname = Some (Dir D) \<Longrightarrow> trash w = trash w0 \<Longrightarrow> trash_ok w0 \<Longrightarrow> pend w0 D w"
    and pend_frame: "pend w0 D w \<Longrightarrow> trash v = trash w \<Longrightarrow> live v oname = live w oname \<Longrightarrow> pend w0 D v"
    and gone_frame: "gone w0 D w \<Longrightarrow> trash v = trash w \<Longrightarrow> gone w0 D v"
    and Dispose_ok: "live w oname \<noteq> None \<Longrightarrow> pend w0 D w \<Longrightarrow>
      spec (\<lambda>v. v = w) (disp (Live oname))
        (\<lambda>_ v. same_live_but oname w v \<and> live v oname = None \<and> gone w0 D v)
        (\<lambda>v. same_live_but oname w v \<and> (if live v oname = None then gone w0 D v else pend w0 D v))"

text \<open>
  The contract of a migrator. \<open>adm D\<close>: it accepts a unit with content \<open>D\<close>. \<open>built D\<close> is what its
  \<open>Build\<close> writes for it, \<open>mk\<close> and \<open>mv D\<close> the name and content of its ready marker.
\<close>

locale promotion_client = disposer "DisposeOrig p" "Name p @ suffixOrig" pend gone
  for p :: promotion and pend gone :: "world \<Rightarrow> dir \<Rightarrow> world \<Rightarrow> bool" +
  fixes adm :: "dir \<Rightarrow> bool" and built :: "dir \<Rightarrow> entries"
    and mk :: string and mv :: "dir \<Rightarrow> node"
  assumes mk_plain: "plain mk"
    and adm_distinct: "adm D \<Longrightarrow> distinct (map fst D)"
    and adm_names: "adm D \<Longrightarrow> names_ok (map_of D)"
    and built_names: "adm D \<Longrightarrow> names_ok (built D)"
    and built_sentinel: "adm D \<Longrightarrow> built D buildCompleteName = None"
    and adm_unmarked: "adm D \<Longrightarrow> map_of D mk \<noteq> Some (mv D)"
    and built_unmarked: "adm D \<Longrightarrow> built D mk \<noteq> Some (mv D)"
    and Build_ok: "adm D \<Longrightarrow> live w (Name p) = Some (Dir D) \<Longrightarrow>
      spec (dir_at Scratch w (\<lambda>m. m = Map.empty)) (Build p Scratch)
        (\<lambda>_. dir_at Scratch w (\<lambda>m. m = built D)) (\<lambda>v. \<exists>x. v = put Scratch x w)"
    and IsReady_ok: "adm D \<Longrightarrow> t \<in> {canonical p, newer p} \<Longrightarrow>
      get t w = Some (Dir X) \<Longrightarrow> map_of X mk \<in> {None, map_of D mk, built D mk, Some (mv D)} \<Longrightarrow>
      spec (\<lambda>v. v = w) (IsReady p t) (\<lambda>r v. v = w \<and> r = (map_of X mk = Some (mv D))) (\<lambda>v. v = w)"
    and Marker_ok: "adm D \<Longrightarrow> m0 mk = (map_of D ++ built D) mk \<Longrightarrow>
      spec (dir_at (newer p) w (\<lambda>m. m = m0)) (WriteReadyMarker p (newer p))
        (\<lambda>_. dir_at (newer p) w (\<lambda>m. near mk m0 m \<and> m mk = Some (mv D)))
        (dir_at (newer p) w (\<lambda>m. near mk m0 m \<and> m mk \<in> {m0 mk, Some (mv D)}))"
begin

text \<open>The six stages, relative to the world \<open>w0\<close> and the content \<open>D\<close> of the unit in it.\<close>

definition frame :: "world \<Rightarrow> world \<Rightarrow> bool" where
  "frame w0 w \<longleftrightarrow> trash_ok w0 \<and>
     (\<forall>n. n \<notin> {Name p, Name p @ suffixOrig, Name p @ suffixNew} \<longrightarrow> live w n = live w0 n)"

definition trio :: "world \<Rightarrow> node option \<Rightarrow> node option \<Rightarrow> node option \<Rightarrow> world \<Rightarrow> bool" where
  "trio w0 u o' n w \<longleftrightarrow> frame w0 w \<and> live w (Name p) = u \<and>
     live w (Name p @ suffixOrig) = o' \<and> live w (Name p @ suffixNew) = n"

definition st_init :: "world \<Rightarrow> dir \<Rightarrow> world \<Rightarrow> bool" where
  "st_init w0 D w \<longleftrightarrow> trio w0 (Some (Dir D)) None None w \<and> trash w = trash w0"

definition st_orig :: "world \<Rightarrow> dir \<Rightarrow> world \<Rightarrow> bool" where
  "st_orig w0 D w \<longleftrightarrow> trio w0 None (Some (Dir D)) None w \<and> trash w = trash w0"

definition st_both :: "(entries \<Rightarrow> bool) \<Rightarrow> world \<Rightarrow> dir \<Rightarrow> world \<Rightarrow> bool" where
  "st_both P w0 D w \<longleftrightarrow> (\<exists>N. distinct (map fst N) \<and> P (map_of N) \<and>
     trio w0 None (Some (Dir D)) (Some (Dir N)) w \<and> trash w = trash w0)"

definition st_fill :: "world \<Rightarrow> dir \<Rightarrow> world \<Rightarrow> bool" where
  "st_fill w0 D = st_both (fill (map_of D) (built D)) w0 D"

definition st_ready :: "world \<Rightarrow> dir \<Rightarrow> world \<Rightarrow> bool" where
  "st_ready w0 D = st_both (marked (map_of D) (built D) mk (mv D)) w0 D"

definition finished :: "dir \<Rightarrow> node option \<Rightarrow> bool" where
  "finished D u \<longleftrightarrow> (\<exists>N. u = Some (Dir N) \<and> distinct (map fst N) \<and>
     map_of N = final_map (map_of D) (built D) mk (mv D))"

definition st_disp :: "world \<Rightarrow> dir \<Rightarrow> world \<Rightarrow> bool" where
  "st_disp w0 D w \<longleftrightarrow> (\<exists>u x. finished D u \<and> trio w0 u (Some x) None w \<and> pend w0 D w)"

definition st_done :: "world \<Rightarrow> dir \<Rightarrow> world \<Rightarrow> bool" where
  "st_done w0 D w \<longleftrightarrow> (\<exists>u. finished D u \<and> trio w0 u None None w \<and> gone w0 D w)"

definition stages :: "world \<Rightarrow> dir \<Rightarrow> world \<Rightarrow> bool" where
  "stages w0 D w \<longleftrightarrow> st_init w0 D w \<or> st_orig w0 D w \<or> st_fill w0 D w \<or> st_ready w0 D w \<or>
     st_disp w0 D w \<or> st_done w0 D w"

lemmas stage_defs = st_init_def st_orig_def st_fill_def st_ready_def st_both_def st_disp_def st_done_def

lemma stagesI:
  "st_init w0 D w \<Longrightarrow> stages w0 D w" "st_orig w0 D w \<Longrightarrow> stages w0 D w"
  "st_fill w0 D w \<Longrightarrow> stages w0 D w" "st_ready w0 D w \<Longrightarrow> stages w0 D w"
  "st_disp w0 D w \<Longrightarrow> stages w0 D w" "st_done w0 D w \<Longrightarrow> stages w0 D w"
  by (auto simp: stages_def)

lemma step_keeps:
  "(\<And>w. S w \<Longrightarrow> stages w0 D w) \<Longrightarrow>
   spec S (prim msg (\<lambda>w. Some ((), w)) no_part) (\<lambda>_. S) (stages w0 D)"
  by (rule spec_prim) (auto simp: no_part_def)

subsection \<open>Moving between stages\<close>

lemma put_newer_both:
  assumes "trio w0 None (Some (Dir D)) n w" and "trash w = trash w0"
    and "dir_at (newer p) w P v"
  shows "st_both P w0 D v"
  using assms by (auto simp: st_both_def trio_def frame_def newer_def elim!: dir_atE)

lemma st_both_dir_at:
  assumes "st_both P w0 D w"
  shows "dir_at (newer p) w P w"
proof -
  from assms obtain N where N: "distinct (map fst N)" "P (map_of N)" "get (newer p) w = Some (Dir N)"
    by (auto simp: st_both_def trio_def newer_def)
  then have "put (newer p) (Some (Dir N)) w = w" by (simp add: newer_def fun_upd_idem)
  with N show ?thesis by (metis dir_at_put)
qed

lemma settle:
  assumes "\<And>w. S w \<Longrightarrow> stages w0 D w"
  shows "spec S (io_seq (FsyncParent a) (checkpoint b)) (\<lambda>_. S) (stages w0 D)"
  unfolding FsyncParent_def checkpoint_def
  by (rule spec_seq [OF step_keeps step_keeps]) (rule assms, assumption)+

lemma restoreFromOrig_spec:
  "spec (st_orig w0 D) (restoreFromOrig p) (\<lambda>_. st_init w0 D) (stages w0 D)"
proof -
  have "spec (st_orig w0 D) (os_Rename ''restore from orig'' (orig p) (canonical p)) (\<lambda>_. st_init w0 D) (stages w0 D)"
    unfolding os_Rename_def
    by (rule spec_prim)
      (auto simp: no_part_def stage_defs stages_def trio_def frame_def promo_paths rename_ok_def)
  then show ?thesis unfolding restoreFromOrig_def
    by (rule spec_seq [OF _ settle]) (rule stagesI)
qed

subsection \<open>Building\<close>

definition scratched :: "(world \<Rightarrow> bool) \<Rightarrow> entries \<Rightarrow> world \<Rightarrow> bool" where
  "scratched S m w \<longleftrightarrow> S w \<and> (\<exists>X. scratch w = Some (Dir X) \<and> distinct (map fst X) \<and> map_of X = m)"

lemma st_init_scratch: "st_init w0 D (w\<lparr>scratch := x\<rparr>) = st_init w0 D w"
  by (simp add: st_init_def trio_def frame_def)

lemma scratch_lift:
  assumes "\<And>w. live w (Name p) = Some (Dir D) \<Longrightarrow>
      spec (dir_at Scratch w (\<lambda>m. m = a)) f (\<lambda>_. dir_at Scratch w (\<lambda>m. m = b)) (\<lambda>v. \<exists>x. v = put Scratch x w)"
  shows "spec (scratched (st_init w0 D) a) f (\<lambda>_. scratched (st_init w0 D) b) (stages w0 D)"
proof (rule spec_fixed)
  fix w assume a: "scratched (st_init w0 D) a w"
  then have i: "st_init w0 D w" and "dir_at Scratch w (\<lambda>m. m = a) w"
    by (auto simp: scratched_def dir_at_def intro!: world.equality)
  moreover have "live w (Name p) = Some (Dir D)" using i by (simp add: st_init_def trio_def)
  from assms [OF this] show "spec (\<lambda>v. v = w) f (\<lambda>_. scratched (st_init w0 D) b) (stages w0 D)"
  proof (rule spec_conseq)
    fix v assume "dir_at Scratch w (\<lambda>m. m = b) v"
    then show "scratched (st_init w0 D) b v"
      using i by (auto simp: scratched_def st_init_scratch elim!: dir_atE)
  next
    fix v assume "\<exists>x. v = put Scratch x w"
    then show "stages w0 D v" using i by (auto simp: st_init_scratch stages_def)
  qed (use calculation in auto)
qed

lemma any_scratch: "dir_at Scratch w P v \<Longrightarrow> \<exists>x. v = w\<lparr>scratch := x\<rparr>"
  by (auto elim!: dir_atE)

lemma fill_built:
  assumes "adm D"
  shows "fill (map_of D) (built D) ((built D)(buildCompleteName \<mapsto> File s))"
  using built_names [OF assms]
  by (auto simp: fill_def names_ok_def map_add_def plain_def split: option.split)

lemma scratch_phase:
  assumes "adm D"
  defines "b \<equiv> (built D)(buildCompleteName \<mapsto> File (''ok'' @ [CHR 10]))"
  shows "spec (scratched (st_init w0 D) Map.empty)
      (io_seq (Build p Scratch) (io_seq (Fsync ''fsync built'' Scratch) (writeBuildComplete Scratch)))
      (\<lambda>_. scratched (st_init w0 D) b) (stages w0 D)"
proof -
  have "spec (scratched (st_init w0 D) Map.empty) (Build p Scratch)
      (\<lambda>_. scratched (st_init w0 D) (built D)) (stages w0 D)"
    by (rule scratch_lift) (rule Build_ok [OF assms(1)])
  moreover have "spec (scratched (st_init w0 D) (built D)) (Fsync ''fsync built'' Scratch)
      (\<lambda>_. scratched (st_init w0 D) (built D)) (stages w0 D)"
    by (rule scratch_lift, rule spec_err [OF dir_Fsync [where R = "\<lambda>_. True"]]) (auto dest: any_scratch)
  moreover have "spec (scratched (st_init w0 D) (built D)) (writeBuildComplete Scratch)
      (\<lambda>_. scratched (st_init w0 D) b) (stages w0 D)"
    unfolding writeBuildComplete_def
    by (rule scratch_lift, rule spec_err [OF dir_AtomicWriteFile [where R = "\<lambda>_. True"]])
      (auto dest: any_scratch simp: built_sentinel [OF assms(1)] b_def)
  ultimately show ?thesis by - (intro spec_seq; assumption)
qed

text \<open>The part of \<open>buildAndStage\<close> up to the point where the original has been set aside.\<close>

definition set_aside :: "unit io" where
  "set_aside =
     io_seq (os_RemoveAll ''clear scratch'' Scratch)
     (io_seq (os_MkdirAll ''create scratch'' Scratch)
     (io_seq (io_seq (Build p Scratch) (io_seq (Fsync ''fsync built'' Scratch) (writeBuildComplete Scratch)))
     (io_seq (checkpoint ''build'')
     (io_seq (os_Rename ''rename to orig'' (canonical p) (orig p))
     (FsyncParent ''fsync parent'')))))"

lemma buildAndStage_split:
  "buildAndStage p = io_seq set_aside
     (io_seq (checkpoint ''orig'')
     (io_seq (os_Rename ''move built into place'' Scratch (newer p))
     (io_seq (FsyncParent ''fsync parent'')
     (checkpoint ''new''))))"
  unfolding buildAndStage_def set_aside_def by (simp add: io_seq_assoc)

lemma set_aside_spec:
  assumes "adm D"
  defines "b \<equiv> (built D)(buildCompleteName \<mapsto> File (''ok'' @ [CHR 10]))"
  shows "spec (st_init w0 D) set_aside (\<lambda>_. scratched (st_orig w0 D) b) (stages w0 D)"
proof -
  let ?O = "scratched (st_orig w0 D) b"
  have clear: "spec (st_init w0 D) (os_RemoveAll ''clear scratch'' Scratch)
      (\<lambda>_ w. st_init w0 D w \<and> scratch w = None) (stages w0 D)"
    unfolding os_RemoveAll_def
    by (rule spec_prim) (auto simp: st_init_scratch stages_def)
  have mkdir: "spec (\<lambda>w. st_init w0 D w \<and> scratch w = None) (os_MkdirAll ''create scratch'' Scratch)
      (\<lambda>_. scratched (st_init w0 D) Map.empty) (stages w0 D)"
    unfolding os_MkdirAll_def
    by (rule spec_prim) (auto simp: st_init_scratch stages_def scratched_def no_part_def)
  have built: "spec (scratched (st_init w0 D) b) (checkpoint ''build'') (\<lambda>_. scratched (st_init w0 D) b) (stages w0 D)"
    unfolding checkpoint_def by (rule step_keeps) (simp add: scratched_def stages_def)
  have aside: "spec (scratched (st_init w0 D) b) (os_Rename ''rename to orig'' (canonical p) (orig p))
      (\<lambda>_. ?O) (stages w0 D)"
    unfolding os_Rename_def
    by (rule spec_prim) (auto simp: no_part_def scratched_def stage_defs stages_def trio_def frame_def
        promo_paths rename_ok_def)
  have moved: "spec ?O (FsyncParent ''fsync parent'') (\<lambda>_. ?O) (stages w0 D)"
    unfolding FsyncParent_def by (rule step_keeps) (simp add: scratched_def stages_def)
  show ?thesis unfolding set_aside_def
    by (rule spec_seq [OF clear spec_seq [OF mkdir spec_seq [OF
          scratch_phase [OF assms(1), folded b_def] spec_seq [OF built spec_seq [OF aside moved]]]]])
qed

lemma buildAndStage_spec:
  assumes "adm D"
  shows "spec (st_init w0 D) (buildAndStage p) (\<lambda>_. st_fill w0 D) (stages w0 D)"
proof -
  let ?b = "(built D)(buildCompleteName \<mapsto> File (''ok'' @ [CHR 10]))"
  let ?O = "scratched (st_orig w0 D) ?b"
  have point: "spec ?O (checkpoint ''orig'') (\<lambda>_. ?O) (stages w0 D)"
    unfolding checkpoint_def by (rule step_keeps) (simp add: scratched_def stages_def)
  have into: "spec ?O (os_Rename ''move built into place'' Scratch (newer p))
      (\<lambda>_. st_fill w0 D) (stages w0 D)"
    unfolding os_Rename_def
    by (rule spec_prim) (use fill_built [OF assms] in \<open>auto simp: no_part_def scratched_def stage_defs
        stages_def trio_def frame_def promo_paths rename_ok_def\<close>)
  have staged: "spec (st_fill w0 D) (io_seq (FsyncParent ''fsync parent'') (checkpoint ''new''))
      (\<lambda>_. st_fill w0 D) (stages w0 D)"
    by (rule settle) (rule stagesI)
  show ?thesis unfolding buildAndStage_split
    by (rule spec_seq [OF set_aside_spec [OF assms] spec_seq [OF point spec_seq [OF into staged]]])
qed

subsection \<open>Filling and marking\<close>

lemma both_lift:
  assumes "\<And>w. live w (Name p @ suffixOrig) = Some (Dir D) \<Longrightarrow>
      spec (dir_at (newer p) w P) f (\<lambda>a. dir_at (newer p) w (Q a)) (dir_at (newer p) w R)"
    and "\<And>w. st_both R w0 D w \<Longrightarrow> stages w0 D w"
  shows "spec (st_both P w0 D) f (\<lambda>a. st_both (Q a) w0 D) (stages w0 D)"
proof (rule spec_fixed)
  fix w assume w: "st_both P w0 D w"
  then obtain n where n: "trio w0 None (Some (Dir D)) n w" "trash w = trash w0"
    by (auto simp: st_both_def)
  then have "live w (Name p @ suffixOrig) = Some (Dir D)" by (simp add: trio_def)
  from assms(1) [OF this] show "spec (\<lambda>v. v = w) f (\<lambda>a. st_both (Q a) w0 D) (stages w0 D)"
    by (rule spec_conseq) (use st_both_dir_at [OF w] put_newer_both [OF n] assms(2) in auto)
qed

lemma near_marked:
  "full d b m0 \<Longrightarrow> near mk m0 m \<Longrightarrow> m mk = Some v \<Longrightarrow> marked d b mk v m"
  using mk_plain plain_not_stray unfolding marked_def full_def near_def
  by (intro conjI allI impI) (metis plain_simps stray_simps not_dir_simps fun_upd_apply)+

lemma near_fill:
  "full d b m0 \<Longrightarrow> near mk m0 m \<Longrightarrow> m mk = m0 mk \<Longrightarrow> fill d b m"
  using mk_plain plain_not_stray unfolding fill_def full_def near_def
  by (intro conjI allI impI) (metis plain_simps stray_simps not_dir_simps)+

lemma fill_or_ready:
  "st_both (\<lambda>m. fill (map_of D) (built D) m \<or> marked (map_of D) (built D) mk (mv D) m) w0 D w \<Longrightarrow>
   stages w0 D w"
  by (auto simp: stages_def st_fill_def st_ready_def st_both_def)

lemma newer_top [simp]: "slot (newer p) w"
  by (simp add: newer_def)

lemma orig_put_newer:
  "live w (Name p @ suffixOrig) = Some (Dir D) \<Longrightarrow> get (orig p) (put (newer p) x w) = Some (Dir D)"
  by (simp add: promo_paths)

lemma repopulateAndMark_spec:
  assumes "adm D"
  shows "spec (st_fill w0 D) (repopulateAndMark p) (\<lambda>_. st_ready w0 D) (stages w0 D)"
  unfolding st_fill_def st_ready_def
proof (rule both_lift [OF _ fill_or_ready])
  let ?d = "map_of D" and ?b = "built D" and ?t = "newer p"
  fix w :: world assume o': "live w (Name p @ suffixOrig) = Some (Dir D)"
  let ?R = "dir_at ?t w (\<lambda>m. fill ?d ?b m \<or> marked ?d ?b mk (mv D) m)"
  have "spec (dir_at ?t w (fill ?d ?b)) (repopulate (orig p) ?t) (\<lambda>_. dir_at ?t w (full ?d ?b)) ?R"
    by (rule spec_err [OF repopulate_spec [OF newer_top orig_put_newer [OF o'] adm_distinct adm_names]])
      (use assms in \<open>auto elim: dir_at_mono\<close>)
  moreover have "spec (dir_at ?t w (full ?d ?b)) (Fsync ''fsync new'' ?t) (\<lambda>_. dir_at ?t w (full ?d ?b)) ?R"
    by (rule dir_Fsync) (auto dest: full_fill)
  moreover have "spec (dir_at ?t w (full ?d ?b)) (checkpoint c) (\<lambda>_. dir_at ?t w (full ?d ?b)) ?R" for c
    unfolding checkpoint_def by (rule dir_step) (auto dest: full_fill)
  moreover have "spec (dir_at ?t w (full ?d ?b)) (WriteReadyMarker p ?t)
      (\<lambda>_. dir_at ?t w (marked ?d ?b mk (mv D))) ?R"
  proof (rule dir_fixed)
    fix m0 assume m0: "full ?d ?b m0"
    then have "m0 mk = (?d ++ ?b) mk" using mk_plain by (simp add: full_def)
    from Marker_ok [of D m0 w, OF assms this]
    show "spec (dir_at ?t w (\<lambda>m. m = m0)) (WriteReadyMarker p ?t)
        (\<lambda>_. dir_at ?t w (marked ?d ?b mk (mv D))) ?R"
      by (rule spec_conseq) (use near_marked [OF m0] near_fill [OF m0] in \<open>auto elim!: dir_at_mono\<close>)
  qed
  moreover have "spec (dir_at ?t w (marked ?d ?b mk (mv D))) (checkpoint c)
      (\<lambda>_. dir_at ?t w (marked ?d ?b mk (mv D))) ?R" for c
    unfolding checkpoint_def by (rule dir_step) simp
  ultimately show "spec (dir_at ?t w (fill ?d ?b)) (repopulateAndMark p)
      (\<lambda>_. dir_at ?t w (marked ?d ?b mk (mv D))) ?R"
    unfolding repopulateAndMark_def by - (intro spec_seq; assumption)
qed

subsection \<open>Promoting\<close>

lemma swept_marked:
  assumes "marked d b mk v m" and "m buildCompleteName = None"
  shows "swept m = final_map d b mk v"
proof
  fix n
  show "swept m n = final_map d b mk v n"
    by (rule name_class_cases [of n])
      (use assms in \<open>auto simp: swept_def final_map_def marked_def stray_temp_def plain_def\<close>)
qed

lemma sweeping_marked:
  assumes "marked d b mk v m0"
  shows "marked d b mk v (\<lambda>n. if is_write_temp n \<and> not_dir (m0 n) \<and> n \<in> S then None else m0 n)"
  using assms by (auto simp: marked_def)

lemma promoteReady_spec:
  assumes "adm D"
  shows "spec (st_ready w0 D) (promoteReady p) (\<lambda>_. st_disp w0 D) (stages w0 D)"
proof -
  let ?d = "map_of D" and ?b = "built D" and ?t = "newer p"
  let ?M = "marked ?d ?b mk (mv D)"
  let ?M' = "\<lambda>m. ?M m \<and> m buildCompleteName = None"
  have R: "\<And>w. st_both ?M w0 D w \<Longrightarrow> stages w0 D w" by (auto simp: stages_def st_ready_def)
  have 1: "spec (st_both ?M w0 D) (removeBuildComplete ?t) (\<lambda>_. st_both ?M' w0 D) (stages w0 D)"
    unfolding removeBuildComplete_def
    by (rule both_lift [OF _ R], rule dir_Remove) (auto simp: marked_def)
  have 2: "spec (st_both ?M' w0 D) (Fsync c ?t) (\<lambda>_. st_both ?M' w0 D) (stages w0 D)" for c
    by (rule both_lift [OF _ R], rule dir_Fsync) auto
  have 3: "spec (st_both ?M' w0 D) (checkpoint c) (\<lambda>_. st_both ?M' w0 D) (stages w0 D)" for c
    unfolding checkpoint_def by (rule both_lift [OF _ R], rule dir_step) auto
  have 4: "spec (st_both ?M' w0 D) (cleanTopLevelWriteTemps ?t)
      (\<lambda>_. st_both (\<lambda>m. m = final_map ?d ?b mk (mv D)) w0 D) (stages w0 D)"
  proof (rule both_lift [OF _ R], rule dir_fixed)
    fix w m0 assume m0: "?M' m0"
    then have "spec (dir_at ?t w (\<lambda>m. m = m0)) (cleanTopLevelWriteTemps ?t)
        (\<lambda>_. dir_at ?t w (\<lambda>m. m = swept m0)) (dir_at ?t w ?M)"
      by (intro cleanTopLevelWriteTemps_spec newer_top) (auto dest: sweeping_marked)
    moreover have "swept m0 = final_map ?d ?b mk (mv D)" using m0 by (auto intro: swept_marked)
    ultimately show "spec (dir_at ?t w (\<lambda>m. m = m0)) (cleanTopLevelWriteTemps ?t)
        (\<lambda>_. dir_at ?t w (\<lambda>m. m = final_map ?d ?b mk (mv D))) (dir_at ?t w ?M)"
      by (simp only:)
  qed
  have fin: "?M (final_map ?d ?b mk (mv D))"
    by (auto simp: marked_def final_map_def dest: plain_not_stray)
  have 5: "spec (st_both (\<lambda>m. m = final_map ?d ?b mk (mv D)) w0 D)
      (os_Rename ''promote'' ?t (canonical p)) (\<lambda>_. st_disp w0 D) (stages w0 D)"
    unfolding os_Rename_def
  proof (rule spec_prim)
    fix w assume "st_both (\<lambda>m. m = final_map ?d ?b mk (mv D)) w0 D w"
    then obtain N where N: "distinct (map fst N)" "map_of N = final_map ?d ?b mk (mv D)"
        "trio w0 None (Some (Dir D)) (Some (Dir N)) w" "trash w = trash w0"
      by (auto simp: st_both_def)
    have "pend w0 D w" using N pend_start by (simp add: trio_def frame_def)
    then have "pend w0 D (put (canonical p) (Some (Dir N)) (put ?t None w))"
      by (rule pend_frame) (simp_all add: promo_paths)
    with N show "\<exists>a w'. (case get ?t w of None \<Rightarrow> None | Some x \<Rightarrow> if rename_ok x (get (canonical p) w)
          then Some ((), put (canonical p) (Some x) (put ?t None w)) else None) = Some (a, w') \<and> st_disp w0 D w'"
      by (auto simp: promo_paths trio_def frame_def rename_ok_def st_disp_def finished_def)
  next
    fix w j assume "st_both (\<lambda>m. m = final_map ?d ?b mk (mv D)) w0 D w"
    then show "stages w0 D (no_part j w)"
      using fin by (auto simp: no_part_def st_both_def stages_def st_ready_def)
  qed
  have 6: "spec (st_disp w0 D) (io_seq (FsyncParent c) (checkpoint e)) (\<lambda>_. st_disp w0 D) (stages w0 D)" for c e
    by (rule settle) (rule stagesI)
  show ?thesis unfolding promoteReady_def st_ready_def
    by (rule spec_seq [OF 1 spec_seq [OF 2 spec_seq [OF 3 spec_seq [OF 4 spec_seq [OF 5 6]]]]])
qed

lemma dispose_spec:
  "spec (st_disp w0 D) (dispose p) (\<lambda>_. st_done w0 D) (stages w0 D)"
proof -
  let ?o = "Name p @ suffixOrig"
  have "spec (st_disp w0 D) (DisposeOrig p (orig p)) (\<lambda>_. st_done w0 D) (stages w0 D)"
  proof (rule spec_fixed)
    fix w assume "st_disp w0 D w"
    then obtain u x where w: "finished D u" "trio w0 u (Some x) None w" "pend w0 D w"
      by (auto simp: st_disp_def)
    have t: "trio w0 u y None v" if "same_live_but ?o w v" "live v ?o = y" for v y
      using w(2) that by (auto simp: trio_def frame_def same_live_but_def)
    have "live w ?o \<noteq> None" using w(2) by (simp add: trio_def)
    from Dispose_ok [OF this w(3)]
    have "spec (\<lambda>v. v = w) (DisposeOrig p (orig p))
        (\<lambda>_ v. same_live_but ?o w v \<and> live v ?o = None \<and> gone w0 D v)
        (\<lambda>v. same_live_but ?o w v \<and> (if live v ?o = None then gone w0 D v else pend w0 D v))"
      by (simp only: orig_def)
    then show "spec (\<lambda>v. v = w) (DisposeOrig p (orig p)) (\<lambda>_. st_done w0 D) (stages w0 D)"
    proof (rule spec_conseq)
      fix v assume "same_live_but ?o w v \<and> live v ?o = None \<and> gone w0 D v"
      then show "st_done w0 D v" using w(1) t by (auto simp: st_done_def)
    next
      fix v assume "same_live_but ?o w v \<and> (if live v ?o = None then gone w0 D v else pend w0 D v)"
      then show "stages w0 D v"
        using w(1) t by (cases "live v ?o") (auto simp: stages_def st_done_def st_disp_def)
    qed simp
  qed
  then show ?thesis unfolding dispose_def by (rule spec_seq [OF _ settle]) (rule stagesI)
qed

subsection \<open>Classifying\<close>

lemma classify_lone:
  assumes "adm D" and "trio w0 (Some (Dir X)) None None w"
    and "map_of X mk \<in> {None, map_of D mk, built D mk, Some (mv D)}"
  shows "spec (\<lambda>v. v = w) (classify p)
    (\<lambda>st v. v = w \<and> st = (if map_of X mk = Some (mv D) then stateDone else stateInitial)) (\<lambda>v. v = w)"
proof -
  have "get (canonical p) w = Some (Dir X)" using assms(2) by (simp add: trio_def canonical_def)
  from IsReady_ok [OF assms(1) insertI1 this assms(3)]
  have "spec (\<lambda>v. v = w) (classifyLoneUnit p)
    (\<lambda>st v. v = w \<and> st = (if map_of X mk = Some (mv D) then stateDone else stateInitial)) (\<lambda>v. v = w)"
    unfolding classifyLoneUnit_def by (rule spec_bind) (rule spec_ret, simp)
  then show ?thesis
    using assms(2) unfolding classify_def os_exists_def
    by (intro spec_get_bind) (simp add: trio_def promo_paths)
qed

lemma classify_other:
  assumes "trio w0 u o' n w" and "\<not> (u \<noteq> None \<and> o' = None \<and> n = None)"
  shows "spec (\<lambda>v. v = w) (classify p)
    (\<lambda>st v. v = w \<and> st = (if u = None \<and> o' \<noteq> None \<and> n = None then stateOrigOnly
       else if u = None \<and> o' \<noteq> None \<and> n \<noteq> None then stateOrigNew
       else if u \<noteq> None \<and> o' \<noteq> None \<and> n = None then stateDisposePending else stateCorrupt)) (\<lambda>v. v = w)"
  unfolding classify_def os_exists_def
  by (intro spec_get_bind) (use assms in \<open>auto simp: trio_def promo_paths intro!: spec_ret\<close>)

lemma classify_stage:
  assumes "adm D"
  shows
    "spec (st_init w0 D) (classify p) (\<lambda>st w. st_init w0 D w \<and> st = stateInitial) (stages w0 D)"
    "spec (st_orig w0 D) (classify p) (\<lambda>st w. st_orig w0 D w \<and> st = stateOrigOnly) (stages w0 D)"
    "spec (st_both P w0 D) (classify p) (\<lambda>st w. st_both P w0 D w \<and> st = stateOrigNew) (st_both P w0 D)"
    "spec (st_disp w0 D) (classify p) (\<lambda>st w. st_disp w0 D w \<and> st = stateDisposePending) (stages w0 D)"
    "spec (st_done w0 D) (classify p) (\<lambda>st w. st_done w0 D w \<and> st = stateDone) (stages w0 D)"
proof -
  show "spec (st_init w0 D) (classify p) (\<lambda>st w. st_init w0 D w \<and> st = stateInitial) (stages w0 D)"
  proof (rule spec_fixed)
    fix w assume w: "st_init w0 D w"
    show "spec (\<lambda>v. v = w) (classify p) (\<lambda>st w. st_init w0 D w \<and> st = stateInitial) (stages w0 D)"
      by (rule spec_conseq [OF classify_lone [OF assms, where X = D and w = w and ?w0.0 = w0]])
        (use w adm_unmarked [OF assms] in \<open>auto simp: st_init_def stages_def\<close>)
  qed
  show "spec (st_done w0 D) (classify p) (\<lambda>st w. st_done w0 D w \<and> st = stateDone) (stages w0 D)"
  proof (rule spec_fixed)
    fix w assume w: "st_done w0 D w"
    then obtain N where N: "trio w0 (Some (Dir N)) None None w"
        "map_of N = final_map (map_of D) (built D) mk (mv D)"
      by (auto simp: st_done_def finished_def)
    then have "map_of N mk = Some (mv D)" using mk_plain by (simp add: final_map_def)
    then show "spec (\<lambda>v. v = w) (classify p) (\<lambda>st w. st_done w0 D w \<and> st = stateDone) (stages w0 D)"
      by (intro spec_conseq [OF classify_lone [OF assms N(1)]]) (use w in \<open>auto simp: stages_def\<close>)
  qed
  show "spec (st_orig w0 D) (classify p) (\<lambda>st w. st_orig w0 D w \<and> st = stateOrigOnly) (stages w0 D)"
    by (rule spec_fixed, rule spec_conseq [OF classify_other])
      (auto simp: st_orig_def stages_def)
  show "spec (st_disp w0 D) (classify p) (\<lambda>st w. st_disp w0 D w \<and> st = stateDisposePending) (stages w0 D)"
  proof (rule spec_fixed)
    fix w assume w: "st_disp w0 D w"
    then obtain N x where "trio w0 (Some (Dir N)) (Some x) None w"
      by (auto simp: st_disp_def finished_def)
    then show "spec (\<lambda>v. v = w) (classify p) (\<lambda>st w. st_disp w0 D w \<and> st = stateDisposePending) (stages w0 D)"
      by (intro spec_conseq [OF classify_other]) (use w in \<open>auto simp: stages_def\<close>)
  qed
  show "spec (st_both P w0 D) (classify p) (\<lambda>st w. st_both P w0 D w \<and> st = stateOrigNew) (st_both P w0 D)"
  proof (rule spec_fixed)
    fix w assume w: "st_both P w0 D w"
    then obtain N where "trio w0 None (Some (Dir D)) (Some (Dir N)) w" by (auto simp: st_both_def)
    then show "spec (\<lambda>v. v = w) (classify p) (\<lambda>st w. st_both P w0 D w \<and> st = stateOrigNew) (st_both P w0 D)"
      by (intro spec_conseq [OF classify_other]) (use w in auto)
  qed
qed

lemma newer_ready:
  assumes "adm D" and "\<And>m. P m \<Longrightarrow> m mk \<in> {None, map_of D mk, built D mk, Some (mv D)}"
  shows "spec (st_both P w0 D) (IsReady p (newer p))
    (\<lambda>r. st_both (\<lambda>m. P m \<and> r = (m mk = Some (mv D))) w0 D) (st_both P w0 D)"
proof (rule spec_fixed)
  fix w assume w: "st_both P w0 D w"
  then obtain N where N: "P (map_of N)" "get (newer p) w = Some (Dir N)"
    by (auto simp: st_both_def trio_def newer_def)
  have *: "\<exists>M. distinct (map fst M) \<and> (P (map_of M) \<and> (map_of N mk = Some (mv D)) = (map_of M mk = Some (mv D)))
      \<and> trio w0 None (Some (Dir D)) (Some (Dir M)) w \<and> trash w = trash w0"
    using w N by (auto simp: st_both_def trio_def newer_def)
  have in2: "newer p \<in> {canonical p, newer p}" by simp
  from IsReady_ok [OF assms(1) in2 N(2) assms(2) [OF N(1)]]
  show "spec (\<lambda>v. v = w) (IsReady p (newer p))
    (\<lambda>r. st_both (\<lambda>m. P m \<and> r = (m mk = Some (mv D))) w0 D) (st_both P w0 D)"
    by (rule spec_conseq) (use w * in \<open>auto simp: st_both_def\<close>)
qed

lemma st_both_mono: "st_both P w0 D w \<Longrightarrow> (\<And>m. P m \<Longrightarrow> Q m) \<Longrightarrow> st_both Q w0 D w"
  by (auto simp: st_both_def)

lemma st_both_false: "\<not> st_both (\<lambda>m. False) w0 D w"
  by (simp add: st_both_def)

lemma resolve_ready:
  assumes "adm D"
  shows "spec (st_ready w0 D) (resolveOrigNew p) (\<lambda>_. st_disp w0 D) (stages w0 D)"
  unfolding resolveOrigNew_def
proof (rule spec_bind)
  let ?M = "marked (map_of D) (built D) mk (mv D)"
  have mk: "?M m \<Longrightarrow> m mk = Some (mv D)" for m using mk_plain by (simp add: marked_def)
  show "spec (st_ready w0 D) (IsReady p (newer p)) (\<lambda>r w. st_ready w0 D w \<and> r) (stages w0 D)"
    unfolding st_ready_def
  proof (rule spec_conseq [OF newer_ready [OF assms, where P = ?M]])
    fix r w assume "st_both (\<lambda>m. ?M m \<and> r = (m mk = Some (mv D))) w0 D w"
    then show "st_both ?M w0 D w \<and> r" using mk by (auto simp: st_both_def)
  qed (use mk in \<open>auto simp: stages_def st_ready_def\<close>)
  fix r
  show "spec (\<lambda>w. st_ready w0 D w \<and> r) (if r then promoteReady p
      else io_bind (hasBuildComplete (newer p)) (\<lambda>complete.
        if \<not> complete then discardPartialAndRestore p else repopulateAndMark p))
      (\<lambda>_. st_disp w0 D) (stages w0 D)"
    by (cases r) (auto intro: promoteReady_spec [OF assms] simp: spec_def [of "\<lambda>_. False"])
qed

lemma resolve_fill:
  assumes "adm D"
  shows "spec (st_fill w0 D) (resolveOrigNew p) (\<lambda>_. st_ready w0 D) (stages w0 D)"
  unfolding resolveOrigNew_def
proof (rule spec_bind)
  let ?F = "fill (map_of D) (built D)"
  have mk: "m mk \<in> {None, map_of D mk, built D mk} \<and> m mk \<noteq> Some (mv D)" if "?F m" for m
    using that mk_plain adm_unmarked [OF assms] built_unmarked [OF assms]
    by (cases "built D mk") (auto simp: fill_def map_add_def)
  show "spec (st_fill w0 D) (IsReady p (newer p)) (\<lambda>r w. st_fill w0 D w \<and> \<not> r) (stages w0 D)"
    unfolding st_fill_def
  proof (rule spec_conseq [OF newer_ready [OF assms, where P = ?F]])
    fix r w assume "st_both (\<lambda>m. ?F m \<and> r = (m mk = Some (mv D))) w0 D w"
    then show "st_both ?F w0 D w \<and> \<not> r" using mk by (auto simp: st_both_def)
  next
    fix m assume "?F m"
    then show "m mk \<in> {None, map_of D mk, built D mk, Some (mv D)}" using mk by blast
  qed (auto simp: stages_def st_fill_def)
  fix r
  have "spec (st_fill w0 D) (hasBuildComplete (newer p)) (\<lambda>c w. st_fill w0 D w \<and> c) (stages w0 D)"
    unfolding st_fill_def hasBuildComplete_def
  proof (rule spec_post [OF both_lift [OF dir_Stat [where R = ?F]]])
    fix c w assume "st_both (\<lambda>m. ?F m \<and> c = (m buildCompleteName \<noteq> None)) w0 D w"
    then show "st_both ?F w0 D w \<and> c" by (auto simp: st_both_def fill_def)
  qed (auto simp: stages_def st_fill_def)
  then have "spec (st_fill w0 D) (io_bind (hasBuildComplete (newer p)) (\<lambda>complete.
        if \<not> complete then discardPartialAndRestore p else repopulateAndMark p))
      (\<lambda>_. st_ready w0 D) (stages w0 D)"
    by (rule spec_bind, case_tac a)
      (auto intro: repopulateAndMark_spec [OF assms] simp: spec_def [of "\<lambda>_. False"])
  then show "spec (\<lambda>w. st_fill w0 D w \<and> \<not> r) (if r then promoteReady p
      else io_bind (hasBuildComplete (newer p)) (\<lambda>complete.
        if \<not> complete then discardPartialAndRestore p else repopulateAndMark p))
      (\<lambda>_. st_ready w0 D) (stages w0 D)"
    by (cases r) (auto simp: spec_def [of "\<lambda>_. False"])
qed

subsection \<open>The run\<close>

lemma run_step:
  assumes "spec S (classify p) (\<lambda>st w. S w \<and> st = c) R" and "spec S h (\<lambda>_. S') R"
    and "spec S' (run_steps k p) Q R"
    and "(case c of stateDone \<Rightarrow> io_ret () | stateInitial \<Rightarrow> io_seq (buildAndStage p) (run_steps k p)
     | stateOrigOnly \<Rightarrow> io_seq (restoreFromOrig p) (run_steps k p)
     | stateOrigNew \<Rightarrow> io_seq (resolveOrigNew p) (run_steps k p)
     | stateDisposePending \<Rightarrow> io_seq (dispose p) (run_steps k p)
     | stateCorrupt \<Rightarrow> io_fail ''unreachable on-disk state'') = io_seq h (run_steps k p)"
  shows "spec S (run_steps (Suc k) p) Q R"
  unfolding run_steps.simps
proof (rule spec_bind [OF assms(1)])
  fix st
  let ?body = "case st of stateDone \<Rightarrow> io_ret () | stateInitial \<Rightarrow> io_seq (buildAndStage p) (run_steps k p)
     | stateOrigOnly \<Rightarrow> io_seq (restoreFromOrig p) (run_steps k p)
     | stateOrigNew \<Rightarrow> io_seq (resolveOrigNew p) (run_steps k p)
     | stateDisposePending \<Rightarrow> io_seq (dispose p) (run_steps k p)
     | stateCorrupt \<Rightarrow> io_fail ''unreachable on-disk state''"
  show "spec (\<lambda>w. S w \<and> st = c) ?body Q R"
  proof (cases "st = c")
    case True
    have "spec S (io_seq h (run_steps k p)) Q R" by (rule spec_seq [OF assms(2,3)])
    then show ?thesis unfolding True assms(4) by simp
  qed (simp add: spec_def)
qed

lemma run_done:
  assumes "adm D"
  shows "spec (st_done w0 D) (run_steps (Suc k) p) (\<lambda>_. st_done w0 D) (stages w0 D)"
  unfolding run_steps.simps
  by (rule spec_bind [OF classify_stage(5) [OF assms]], rule spec_fixed) (auto intro!: spec_ret)

lemma run_stages:
  assumes a: "adm D"
  shows "spec (st_disp w0 D) (run_steps (Suc (Suc k)) p) (\<lambda>_. st_done w0 D) (stages w0 D)"
    and "spec (st_ready w0 D) (run_steps (Suc (Suc (Suc k))) p) (\<lambda>_. st_done w0 D) (stages w0 D)"
    and "spec (st_fill w0 D) (run_steps (Suc (Suc (Suc (Suc k)))) p) (\<lambda>_. st_done w0 D) (stages w0 D)"
    and "spec (st_init w0 D) (run_steps (Suc (Suc (Suc (Suc (Suc k))))) p) (\<lambda>_. st_done w0 D) (stages w0 D)"
    and "spec (st_orig w0 D) (run_steps (Suc (Suc (Suc (Suc (Suc (Suc k)))))) p) (\<lambda>_. st_done w0 D) (stages w0 D)"
proof -
  have both: "spec (st_ready w0 D) (classify p) (\<lambda>st w. st_ready w0 D w \<and> st = stateOrigNew) (stages w0 D)"
    "spec (st_fill w0 D) (classify p) (\<lambda>st w. st_fill w0 D w \<and> st = stateOrigNew) (stages w0 D)"
    unfolding st_ready_def st_fill_def
    by (rule spec_err [OF classify_stage(3) [OF a]], simp add: stages_def st_ready_def st_fill_def)+
  show 1: "spec (st_disp w0 D) (run_steps (Suc (Suc k)) p) (\<lambda>_. st_done w0 D) (stages w0 D)" for k
    by (rule run_step [OF classify_stage(4) [OF a] dispose_spec run_done [OF a]]) simp
  show 2: "spec (st_ready w0 D) (run_steps (Suc (Suc (Suc k))) p) (\<lambda>_. st_done w0 D) (stages w0 D)" for k
    by (rule run_step [OF both(1) resolve_ready [OF a] 1]) simp
  show 3: "spec (st_fill w0 D) (run_steps (Suc (Suc (Suc (Suc k)))) p) (\<lambda>_. st_done w0 D) (stages w0 D)" for k
    by (rule run_step [OF both(2) resolve_fill [OF a] 2]) simp
  show 4: "spec (st_init w0 D) (run_steps (Suc (Suc (Suc (Suc (Suc k))))) p) (\<lambda>_. st_done w0 D) (stages w0 D)" for k
    by (rule run_step [OF classify_stage(1) [OF a] buildAndStage_spec [OF a] 3]) simp
  show "spec (st_orig w0 D) (run_steps (Suc (Suc (Suc (Suc (Suc (Suc k)))))) p) (\<lambda>_. st_done w0 D) (stages w0 D)"
    by (rule run_step [OF classify_stage(2) [OF a] restoreFromOrig_spec 4]) simp
qed

text \<open>From every stage, under every schedule, a run stays inside the stages, and it ends in the
  last one when it returns; without faults it returns. Sixteen steps are enough: the longest way
  has six.\<close>

theorem Run_spec:
  assumes "adm D"
  shows "spec (stages w0 D) (Run p) (\<lambda>_. st_done w0 D) (stages w0 D)"
proof -
  have *: "maxResolveSteps = Suc (Suc (Suc (Suc (Suc (Suc 10)))))"
    by (simp add: maxResolveSteps_def)
  have "stages w0 D = (\<lambda>w. st_init w0 D w \<or> st_orig w0 D w \<or> st_fill w0 D w \<or> st_ready w0 D w \<or>
      st_disp w0 D w \<or> st_done w0 D w)"
    by (simp add: stages_def fun_eq_iff)
  moreover have "spec (\<lambda>w. st_init w0 D w \<or> st_orig w0 D w \<or> st_fill w0 D w \<or> st_ready w0 D w \<or>
      st_disp w0 D w \<or> st_done w0 D w) (Run p) (\<lambda>_. st_done w0 D) (stages w0 D)"
    unfolding Run_def * by (intro spec_disj run_stages [OF assms] run_done [OF assms])
  ultimately show ?thesis by simp
qed

text \<open>Every unit can be caught set aside: there is a schedule on which the run dies with the original under
  its set-aside name and nothing at the unit's own name.\<close>

lemma Run_dies_set_aside:
  assumes "adm D" and "st_init w0 D w" and "replayable (Build p Scratch)" and "replayable (IsReady p (canonical p))"
  shows "\<exists>sch. fst (Run p (w, sch)) = Dead \<and> st_orig w0 D (world_of (Run p (w, sch)))"
proof -
  have rc: "replayable (classify p)"
    using assms(4) unfolding classify_def classifyLoneUnit_def by (auto intro!: replayable_bind)
  have ra: "replayable set_aside"
    using assms(3) unfolding set_aside_def checkpoint_def writeBuildComplete_def
    by (intro replayable_seq) simp_all
  have lone: "trio w0 (Some (Dir D)) None None w" "map_of D mk \<in> {None, map_of D mk, built D mk, Some (mv D)}"
    using assms(2) by (auto simp: st_init_def)
  obtain k1 st v where k1: "v = w \<and> st = stateInitial"
      "\<forall>rest. classify p (w, replicate k1 Succeed @ rest) = (Ret st, v, rest)"
    using spec_replay [OF classify_lone [OF assms(1) lone] rc refl] adm_unmarked [OF assms(1)] by auto
  obtain k2 u v2 where k2: "st_orig w0 D v2"
      "\<forall>rest. set_aside (w, replicate k2 Succeed @ rest) = (Ret u, v2, rest)"
    using spec_replay [OF set_aside_spec [OF assms(1)] ra assms(2)] by (auto simp: scratched_def)
  have "run_steps (Suc 15) p (w, replicate (k1 + k2) Succeed @ [Crash None]) = (Dead, v2, [])"
    unfolding run_steps.simps
    using k1 k2 by (simp add: io_bind_def [of "classify p"] replicate_add io_seq_def io_bind_def
        buildAndStage_split checkpoint_def prim_def no_part_def del: run_steps.simps)
  moreover have "maxResolveSteps = Suc 15" by (simp add: maxResolveSteps_def)
  ultimately have "Run p (w, replicate (k1 + k2) Succeed @ [Crash None]) = (Dead, v2, [])"
    unfolding Run_def by (simp only:)
  with k2(1) show ?thesis by (intro exI [of _ "replicate (k1 + k2) Succeed @ [Crash None]"]) (simp add: world_of_def)
qed

end

section \<open>The two disposers\<close>

definition trash_entries :: "world \<Rightarrow> entries" where
  "trash_entries w = (case trash w of Some (Dir T) \<Rightarrow> map_of T | _ \<Rightarrow> Map.empty)"

definition trash_pend :: "string \<Rightarrow> world \<Rightarrow> dir \<Rightarrow> world \<Rightarrow> bool" where
  "trash_pend oname w0 D w \<longleftrightarrow> live w oname = Some (Dir D) \<and> trash_ok w0 \<and> trash_ok w \<and>
     trash_entries w = trash_entries w0"

text \<open>The original is in the trash under a name that was free, and nothing else there changed.\<close>

definition trash_gone :: "world \<Rightarrow> dir \<Rightarrow> world \<Rightarrow> bool" where
  "trash_gone w0 D w \<longleftrightarrow> (\<exists>n. trash_entries w0 n = None \<and>
     trash_entries w = (trash_entries w0)(n \<mapsto> Dir D))"

lemma TrashDisposer_ok:
  assumes "trash_pend oname w0 D w"
  shows "spec (\<lambda>v. v = w) (TrashDisposer (Live oname))
        (\<lambda>_ v. same_live_but oname w v \<and> live v oname = None \<and> trash_gone w0 D v)
        (\<lambda>v. same_live_but oname w v \<and> (if live v oname = None then trash_gone w0 D v else trash_pend oname w0 D v))"
    (is "spec _ _ ?Q ?R")
proof -
  let ?P = "\<lambda>v. same_live_but oname w v \<and> trash_pend oname w0 D v"
  let ?P1 = "\<lambda>v. ?P v \<and> (\<exists>T. trash v = Some (Dir T) \<and> distinct (map fst T))"
  let ?S = "\<lambda>v. ?Q () v \<and> trash v \<noteq> None"
  have mkdir: "spec (\<lambda>v. v = w) (os_MkdirAll ''create trash dir'' TrashRoot) (\<lambda>_. ?P1) ?R"
    unfolding os_MkdirAll_def
    by (rule spec_prim) (use assms in \<open>auto simp: no_part_def trash_pend_def trash_ok_def trash_entries_def
        same_live_but_def\<close>)
  have move: "spec (\<lambda>v. ?P1 v \<and> dest = free_name (names_of TrashRoot v) oname)
      (os_Rename ''move orig to trash'' (Live oname) (Under TrashRoot dest)) (\<lambda>_. ?S) ?R" for dest
    unfolding os_Rename_def
  proof (rule spec_prim)
    fix v assume v: "?P1 v \<and> dest = free_name (names_of TrashRoot v) oname"
    then obtain T where T: "trash v = Some (Dir T)" "distinct (map fst T)" by blast
    have "dest \<notin> set (map fst T)" using v T free_name_free [of "map fst T" oname] by (simp add: names_of_def)
    then have "map_of T dest = None" by (simp add: map_of_eq_None_iff)
    with v T show "\<exists>a w'. (case get (Live oname) v of None \<Rightarrow> None
        | Some x \<Rightarrow> if rename_ok x (get (Under TrashRoot dest) v)
            then Some ((), put (Under TrashRoot dest) (Some x) (put (Live oname) None v)) else None) = Some (a, w')
        \<and> ?S w'"
      by (auto simp: trash_pend_def rename_ok_def trash_gone_def trash_entries_def same_live_but_def)
  next
    fix v j assume "?P1 v \<and> dest = free_name (names_of TrashRoot v) oname"
    then show "?R (no_part j v)" by (auto simp: no_part_def trash_pend_def)
  qed
  have sync: "spec ?S (Fsync ''fsync trash'' TrashRoot) ?Q ?R"
    unfolding Fsync_def by (rule spec_prim) (auto simp: no_part_def split: option.splits)
  have pick: "spec ?P1 (io_get (\<lambda>w. free_name (names_of TrashRoot w) (base_name (Live oname))))
      (\<lambda>dest v. ?P1 v \<and> dest = free_name (names_of TrashRoot v) oname) ?R"
    by (rule spec_get) (simp add: base_name_def)
  show ?thesis unfolding TrashDisposer_def
    by (rule spec_seq [OF mkdir spec_bind [OF pick spec_seq [OF move sync]]])
qed

interpretation trashing: disposer TrashDisposer oname "trash_pend oname" trash_gone for oname
proof unfold_locales
  fix w w0 :: world and D
  show "live w oname = Some (Dir D) \<Longrightarrow> trash w = trash w0 \<Longrightarrow> trash_ok w0 \<Longrightarrow> trash_pend oname w0 D w"
    by (auto simp: trash_pend_def trash_ok_def trash_entries_def)
next
  fix w w0 v :: world and D
  show "trash_pend oname w0 D w \<Longrightarrow> trash v = trash w \<Longrightarrow> live v oname = live w oname \<Longrightarrow> trash_pend oname w0 D v"
    by (auto simp: trash_pend_def trash_ok_def trash_entries_def)
next
  fix w w0 v :: world and D
  show "trash_gone w0 D w \<Longrightarrow> trash v = trash w \<Longrightarrow> trash_gone w0 D v"
    by (auto simp: trash_gone_def trash_entries_def)
qed (rule TrashDisposer_ok)

text \<open>\<open>DropDisposer\<close> removes the original; an interrupted removal leaves any remainder.\<close>

definition drop_pend :: "world \<Rightarrow> dir \<Rightarrow> world \<Rightarrow> bool" where
  "drop_pend w0 D w \<longleftrightarrow> trash w = trash w0"

interpretation dropping: disposer DropDisposer oname drop_pend drop_pend for oname
proof unfold_locales
  fix w w0 :: world and D
  assume "live w oname \<noteq> None" "drop_pend w0 D w"
  then show "spec (\<lambda>v. v = w) (DropDisposer (Live oname))
        (\<lambda>_ v. same_live_but oname w v \<and> live v oname = None \<and> drop_pend w0 D v)
        (\<lambda>v. same_live_but oname w v \<and> (if live v oname = None then drop_pend w0 D v else drop_pend w0 D v))"
    unfolding DropDisposer_def os_RemoveAll_def
    by (intro spec_prim) (auto simp: drop_pend_def same_live_but_def)
qed (auto simp: drop_pend_def)

section \<open>Corrupt states\<close>

text \<open>A state no promotion can leave is not repaired. If the unit and its replacement are both there
  beside each other, or neither the unit nor its original is, a run of any promotion stops at once with
  an error and touches nothing, whatever the schedule.\<close>

theorem Run_halts_on_corrupt_state:
  assumes "if get (canonical p) w = None then get (orig p) w = None else get (newer p) w \<noteq> None"
  shows "Run p (w, sch) = (Fail ''unreachable on-disk state'', w, sch)"
proof -
  have c: "classify p (w, sch) = (Ret stateCorrupt, w, sch)"
    using assms by (auto simp: classify_def os_exists_def io_bind_def io_get_def io_ret_def split: if_splits)
  have "run_steps (Suc 15) p (w, sch) = (Fail ''unreachable on-disk state'', w, sch)"
    unfolding run_steps.simps io_bind_def [of "classify p"] by (simp add: c io_fail_def)
  moreover have "maxResolveSteps = Suc 15" by (simp add: maxResolveSteps_def)
  ultimately show ?thesis unfolding Run_def by (simp only:)
qed

definition idle_promotion :: promotion where
  "idle_promotion = \<lparr>Name = ''u'', Build = (\<lambda>_. io_ret ()), WriteReadyMarker = (\<lambda>_. io_ret ()),
     IsReady = (\<lambda>_. io_ret False), DisposeOrig = DropDisposer\<rparr>"

theorem Run_halts_on_corrupt_state_witness:
  "Run idle_promotion (\<lparr>live = [''u'' \<mapsto> Dir [], ''u_^^_new'' \<mapsto> Dir []], scratch = None, trash = None\<rparr>, [])
   = (Fail ''unreachable on-disk state'', \<lparr>live = [''u'' \<mapsto> Dir [], ''u_^^_new'' \<mapsto> Dir []], scratch = None, trash = None\<rparr>, [])"
  by (rule Run_halts_on_corrupt_state) (simp add: idle_promotion_def promo_paths promo_consts)

end
