(* ===== verification/TierMigration.thy ===== *)
theory TierMigration
  imports PromotionSafety Names Environment MigratePlan Status Schema "HOL-Library.Word"
begin

text \<open>
  The v5-to-v6 tier migrator of \<open>internal/orchestrator/migrate_tier.go\<close>: it rebuilds the whole
  sandboxes tree with every sandbox split into \<open>host\<close>, \<open>ro\<close> and \<open>rw\<close>, verifies the copy in scratch and
  promotes it. The live directory of the world is the realm's data directory: it holds \<open>sandboxes\<close> and
  the schema stamp. The promotion is the one of \<open>Promotion\<close>, so its crash safety comes from the
  interpretation of \<open>promotion_client\<close> at the end of the first part. The JSON decoders, the backend
  and the operating system's answers about owners and free space are fields of a record.
\<close>

section \<open>Parameters\<close>

record tier_env =
  env_json :: json_env
  state_json :: "string \<Rightarrow> bool"
  agent_json :: "string \<Rightarrow> bool"
  netpolicy_json :: "string \<Rightarrow> bool"
  runtimeFor :: "string \<Rightarrow> bool"
  detect :: "string \<Rightarrow> string \<Rightarrow> (string, Status) result"
  ownerUID :: "string \<Rightarrow> string \<Rightarrow> int option"
  hostUID :: int
  isRoot :: bool
  FreeBytes :: "64 word option"
  sameFS :: bool

definition SchemaTiered :: nat where "SchemaTiered = 6"
definition treeMarkerName :: string where "treeMarkerName = ''.tier-version''"
definition sandboxesName :: string where "sandboxesName = ''sandboxes''"
definition sandboxesRoot :: path where "sandboxesRoot = Live sandboxesName"

section \<open>The ready marker\<close>

text \<open>\<open>fmt.Sscanf\<close> with one decimal verb: blanks are skipped (a newline is an error), then a sign and
  the longest run of digits; what follows is ignored. A value outside 64 bits is an error.\<close>

fun scan_digits :: "int \<Rightarrow> string \<Rightarrow> int" where
  "scan_digits acc [] = acc"
| "scan_digits acc (c # s) = (if is_digit c then scan_digits (10 * acc + (of_char c - 48)) s else acc)"

definition scan_unsigned :: "string \<Rightarrow> int option" where
  "scan_unsigned s = (case s of
       c # _ \<Rightarrow> if is_digit c then Some (scan_digits 0 s) else None
     | [] \<Rightarrow> None)"

definition Sscanf_d :: "string \<Rightarrow> int option" where
  "Sscanf_d s =
     (let t = dropWhile (\<lambda>c. is_space c \<and> c \<noteq> CHR 10) s;
          r = (case t of
              c # u \<Rightarrow> if c = CHR ''-'' then map_option uminus (scan_unsigned u)
                       else if c = CHR ''+'' then scan_unsigned u else scan_unsigned t
            | [] \<Rightarrow> None)
      in case r of
           Some v \<Rightarrow> if - (2 ^ 63) \<le> v \<and> v < 2 ^ 63 then Some v else None
         | None \<Rightarrow> None)"

definition writeTreeMarker :: "path \<Rightarrow> unit io" where
  "writeTreeMarker newDir = AtomicWriteFile ''stamp tiered tree'' newDir treeMarkerName (Itoa SchemaTiered)"

definition treeIsTiered :: "path \<Rightarrow> bool io" where
  "treeIsTiered d = io_bind (os_ReadFile ''read tree marker'' (Under d treeMarkerName)) (\<lambda>r. case r of
       None \<Rightarrow> io_ret False
     | Some data \<Rightarrow> (case Sscanf_d data of
           None \<Rightarrow> io_fail ''parse .tier-version''
         | Some v \<Rightarrow> io_ret (v \<ge> int SchemaTiered)))"

section \<open>Reading the live tree\<close>

definition isSandboxDir :: "path \<Rightarrow> world \<Rightarrow> bool" where
  "isSandboxDir d w \<longleftrightarrow> get (Under d ''environment.json'') w \<noteq> None"

definition sandboxNames :: "path \<Rightarrow> string list io" where
  "sandboxNames root = io_bind (os_exists root) (\<lambda>present.
     if \<not> present then io_ret []
     else io_bind (os_ReadDir ''read sandboxes dir'' root) (\<lambda>entries.
       io_get (\<lambda>w. sort (map fst (filter (\<lambda>e. is_dir (snd e) \<and> isSandboxDir (Under root (fst e)) w) entries)))))"

section \<open>Building and verifying the staged tree\<close>

definition mkdir_tier :: "path \<Rightarrow> Tier \<Rightarrow> unit io" where
  "mkdir_tier dst tier =
     io_seq (os_MkdirAll ''create tier'' dst) (os_MkdirAll ''create tier'' (Under dst (tier_name tier)))"

definition tier_path :: "path \<Rightarrow> string \<Rightarrow> path" where
  "tier_path dst name = Under (Under dst (tier_name (fst (TierOfEntry name)))) name"

definition buildTieredSandbox :: "path \<Rightarrow> path \<Rightarrow> unit io" where
  "buildTieredSandbox src dst = io_bind (os_ReadDir ''read sandbox'' src) (\<lambda>entries.
     io_seq (io_each (mkdir_tier dst) [TierHost, TierReadOnly, TierReadWrite])
       (io_each (\<lambda>e. CopyPathFaithful ''move into tier'' (Under src (fst e)) (tier_path dst (fst e))) entries))"

definition read_record :: "string \<Rightarrow> bool \<Rightarrow> (string \<Rightarrow> bool) \<Rightarrow> path \<Rightarrow> unit io" where
  "read_record msg required decode p = io_bind (os_ReadFile msg p) (\<lambda>r. case r of
       None \<Rightarrow> if required then io_fail msg else io_ret ()
     | Some data \<Rightarrow> if decode data then io_ret () else io_fail msg)"

definition env_loads :: "tier_env \<Rightarrow> string \<Rightarrow> bool" where
  "env_loads T data = is_ok (decode_env (env_json T) data)"

definition verifyStagedRecords :: "tier_env \<Rightarrow> path \<Rightarrow> unit io" where
  "verifyStagedRecords T staged =
     io_seq (read_record ''environment.json unreadable'' True (env_loads T)
        (Under (Under staged HostTierName) EnvironmentFileName))
     (io_seq (read_record ''sandbox-state.json unreadable'' False (state_json T)
        (Under (Under staged HostTierName) SandboxStateFileName))
     (io_seq (read_record ''agent.json unreadable'' False (agent_json T)
        (Under (Under staged HostTierName) AgentConfigFileName))
     (read_record ''netpolicy.json unreadable'' False (netpolicy_json T)
        (Under (Under staged HostTierName) NetpolicyFileName))))"

definition verifyStagedEntries :: "path \<Rightarrow> path \<Rightarrow> unit io" where
  "verifyStagedEntries src staged = io_bind (os_ReadDir ''verify'' src) (\<lambda>entries.
     io_each (\<lambda>e. io_bind (os_exists (tier_path staged (fst e))) (\<lambda>there.
       if there then io_ret () else io_fail ''did not arrive'')) entries)"

definition verifyStagedTree :: "tier_env \<Rightarrow> path \<Rightarrow> unit io" where
  "verifyStagedTree T dst = io_bind (sandboxNames sandboxesRoot) (\<lambda>names.
     io_each (\<lambda>name. io_seq (verifyStagedRecords T (Under dst name))
       (verifyStagedEntries (Under sandboxesRoot name) (Under dst name))) names)"

definition build_entry :: "path \<Rightarrow> string \<times> node \<Rightarrow> unit io" where
  "build_entry dst e = io_bind (io_get (isSandboxDir (Under sandboxesRoot (fst e)))) (\<lambda>sandbox.
     if \<not> is_dir (snd e) \<or> \<not> sandbox
     then CopyPathFaithful ''carry'' (Under sandboxesRoot (fst e)) (Under dst (fst e))
     else buildTieredSandbox (Under sandboxesRoot (fst e)) (Under dst (fst e)))"

definition buildTieredTree :: "tier_env \<Rightarrow> path \<Rightarrow> unit io" where
  "buildTieredTree T dst = io_bind (os_ReadDir ''read sandboxes dir'' sandboxesRoot) (\<lambda>entries.
     io_seq (io_each (build_entry dst) entries) (verifyStagedTree T dst))"

definition tier_promotion :: "tier_env \<Rightarrow> promotion" where
  "tier_promotion T = \<lparr>Name = sandboxesName, Build = buildTieredTree T,
     WriteReadyMarker = writeTreeMarker, IsReady = treeIsTiered, DisposeOrig = TrashDisposer\<rparr>"

section \<open>Plan and Apply\<close>

text \<open>Reads of the plan are functions of the world. Texts for the user are shortened to their fixed parts
  and the names in them.\<close>

definition isInstanceUp :: "Status \<Rightarrow> bool" where
  "isInstanceUp st \<longleftrightarrow> st \<in> {StatusActive, StatusIdle, StatusDone, StatusFailed, StatusSuspended}"

text \<open>The reason, empty when nothing runs. \<open>store.InstanceName\<close> panics on a record without a principal;
  the panic is the error case.\<close>

definition runningReason :: "tier_env \<Rightarrow> world \<Rightarrow> string \<Rightarrow> (string, string) result" where
  "runningReason T w name = (case get (Under (Under sandboxesRoot name) ''environment.json'') w of
       Some (File data) \<Rightarrow> (case decode_env (env_json T) data of
           Inl _ \<Rightarrow> Inr []
         | Inr env \<Rightarrow>
             if BackendType env = [] then Inr []
             else if \<not> runtimeFor T (BackendType env) then Inr []
             else (case InstanceName (Principal env) name of
                 Inl _ \<Rightarrow> Inl ''panic: principal is required''
               | Inr inst \<Rightarrow> (case detect T (BackendType env) inst of
                     Inl _ \<Rightarrow> Inr []
                   | Inr st \<Rightarrow> if \<not> isInstanceUp st then Inr []
                       else Inr (''sandbox '' @ name @ '' is running; stop it and re-run migrate''))))
     | _ \<Rightarrow> Inr [])"

definition hostUnmanageableTierReason :: "tier_env \<Rightarrow> string \<Rightarrow> dir \<Rightarrow> string" where
  "hostUnmanageableTierReason T name entries =
     (if isRoot T then []
      else case find (\<lambda>e. case ownerUID T name (fst e) of
              Some uid \<Rightarrow> uid \<noteq> hostUID T \<and> uid \<noteq> 0 | None \<Rightarrow> False) entries of
          Some e \<Rightarrow> ''sandbox '' @ name @ '' can not be tiered: '' @ fst e
        | None \<Rightarrow> [])"

definition unrecognizedEntries :: "dir \<Rightarrow> string list" where
  "unrecognizedEntries entries = sort (map fst (filter (\<lambda>e. \<not> snd (TierOfEntry (fst e))) entries))"

definition mk_op :: "string \<Rightarrow> Auth \<Rightarrow> string \<Rightarrow> Op" where
  "mk_op desc a name = \<lparr>Description = desc, Auth = a, Sandbox = name, NeedsOlderRelease = False\<rparr>"

definition classifySandbox :: "tier_env \<Rightarrow> world \<Rightarrow> string \<Rightarrow> (string, Op) result" where
  "classifySandbox T w name = (case get (Under sandboxesRoot name) w of
       Some (Dir d) \<Rightarrow>
         (let entries = sort_key fst d; reason = hostUnmanageableTierReason T name entries in
          if reason \<noteq> [] then Inr (mk_op reason AuthBlocked name)
          else (case find (\<lambda>e. IsTierName (fst e)) entries of
              Some e \<Rightarrow> Inr (mk_op (''sandbox '' @ name @ '' already has a '' @ fst e @ '' directory'') AuthBlocked name)
            | None \<Rightarrow>
                if unrecognizedEntries entries \<noteq> []
                then Inr (mk_op (''tier sandbox '' @ name @ '' (unclassified entries moved to host/)'') AuthNone name)
                else Inr (mk_op (''tier sandbox '' @ name) AuthNone name)))
     | _ \<Rightarrow> Inl (''read sandbox '' @ name))"

fun TreeSize :: "node \<Rightarrow> 64 word" where
  "TreeSize (File s) = of_nat (length s)"
| "TreeSize (Symlink t) = 0"
| "TreeSize (Dir d) = sum_list (map (\<lambda>(n, x). TreeSize x) d)"

definition spaceReportFloor :: "64 word" where "spaceReportFloor = 50 * 1024 * 1024"

definition spaceOp :: "tier_env \<Rightarrow> world \<Rightarrow> (string, Op \<times> bool) result" where
  "spaceOp T w = (case get sandboxesRoot w of
       None \<Rightarrow> Inl ''measure sandboxes tree''
     | Some x \<Rightarrow> (case FreeBytes T of
           None \<Rightarrow> Inl ''check free space''
         | Some free \<Rightarrow>
             (let sz = TreeSize x; need = sz * 2 in
              if free < need then Inr (mk_op ''not enough free space'' AuthBlocked [], True)
              else Inr (mk_op ''duplicate the sandboxes tree'' AuthNone [], sz \<ge> spaceReportFloor))))"

definition live_sandbox_names :: "world \<Rightarrow> (string, string list) result" where
  "live_sandbox_names w = (case get sandboxesRoot w of
       None \<Rightarrow> Inr []
     | Some (Dir d) \<Rightarrow> Inr (sort (map fst (filter (\<lambda>e. is_dir (snd e) \<and>
         isSandboxDir (Under sandboxesRoot (fst e)) w) (sort_key fst d))))
     | Some _ \<Rightarrow> Inl ''read sandboxes dir'')"

text \<open>The op of one sandbox, blocked when it runs.\<close>

definition plan_op :: "tier_env \<Rightarrow> world \<Rightarrow> string \<Rightarrow> (string, Op) result" where
  "plan_op T w name = (case classifySandbox T w name of
       Inl e \<Rightarrow> Inl e
     | Inr op \<Rightarrow>
         if Auth op = AuthBlocked then Inr op
         else (case runningReason T w name of
             Inl e \<Rightarrow> Inl e
           | Inr reason \<Rightarrow> Inr (if reason \<noteq> [] then mk_op reason AuthBlocked name else op)))"

fun plan_ops :: "tier_env \<Rightarrow> world \<Rightarrow> string list \<Rightarrow> (string, Op list) result" where
  "plan_ops T w [] = Inr []"
| "plan_ops T w (name # names) = (case plan_op T w name of
       Inl e \<Rightarrow> Inl e
     | Inr op \<Rightarrow> (case plan_ops T w names of Inl e \<Rightarrow> Inl e | Inr ops \<Rightarrow> Inr (op # ops)))"

definition TierPlan :: "tier_env \<Rightarrow> world \<Rightarrow> (string, Plan) result" where
  "TierPlan T w = (case stamp_of w of
       Inl e \<Rightarrow> Inl (''read schema stamp: '' @ e)
     | Inr (current, _) \<Rightarrow>
         if current \<ge> int SchemaTiered then Inr \<lparr>MigratorName = [], Ops = []\<rparr>
         else (case live_sandbox_names w of
             Inl e \<Rightarrow> Inl e
           | Inr names \<Rightarrow>
               if names = [] then Inr \<lparr>MigratorName = [], Ops = []\<rparr>
               else (case plan_ops T w names of
                   Inl e \<Rightarrow> Inl e
                 | Inr ops \<Rightarrow> (case spaceOp T w of
                       Inl e \<Rightarrow> Inl e
                     | Inr (space, report) \<Rightarrow>
                         Inr \<lparr>MigratorName = [], Ops = (if report then ops @ [space] else ops)\<rparr>))))"

definition planSandboxNames :: "Plan \<Rightarrow> string list" where
  "planSandboxNames p = filter (\<lambda>n. n \<noteq> []) (map Sandbox (Ops p))"

definition tier_report :: "Plan \<Rightarrow> 64 word \<Rightarrow> Report" where
  "tier_report p sz = \<lparr>Migrated = planSandboxNames p, Quarantined = [],
     Notes = (if sz \<ge> spaceReportFloor then [''the pre-tiering sandboxes tree was moved to the trash''] else [])\<rparr>"

definition TierApply :: "tier_env \<Rightarrow> Decision \<Rightarrow> Report io" where
  "TierApply T d = io_bind (io_get (TierPlan T)) (\<lambda>r. case r of
       Inl e \<Rightarrow> io_fail e
     | Inr plan \<Rightarrow>
         if Ops plan = [] then io_seq (stampSchemaAdvancing SchemaTiered) (io_ret no_report)
         else (case Authorize [plan] d of (ok, unmet) \<Rightarrow>
             if \<not> ok then io_fail (''tiering was not authorized: '' @ Description (hd unmet))
             else if \<not> sameFS T then io_fail ''migration preflight''
             else io_bind (io_get (\<lambda>w. case get sandboxesRoot w of Some x \<Rightarrow> TreeSize x | None \<Rightarrow> 0)) (\<lambda>sz.
               io_seq (Run (tier_promotion T))
               (io_seq (stampSchemaAdvancing SchemaTiered) (io_ret (tier_report plan sz))))))"

section \<open>What the build produces\<close>

text \<open>The staged form of one entry, as a function of trees.\<close>

definition tier_part :: "Tier \<Rightarrow> dir \<Rightarrow> dir" where
  "tier_part t d = filter (\<lambda>e. fst (TierOfEntry (fst e)) = t) d"

definition tiered :: "dir \<Rightarrow> node" where
  "tiered d = Dir [(HostTierName, Dir (tier_part TierHost d)),
     (ReadOnlyTierName, Dir (tier_part TierReadOnly d)),
     (ReadWriteTierName, Dir (tier_part TierReadWrite d))]"

definition is_sandbox_node :: "node \<Rightarrow> bool" where
  "is_sandbox_node x = (case x of Dir d \<Rightarrow> map_of d ''environment.json'' \<noteq> None | _ \<Rightarrow> False)"

definition tier_node :: "node \<Rightarrow> node" where
  "tier_node x = (case x of
       Dir d \<Rightarrow> if map_of d ''environment.json'' \<noteq> None then tiered (sort_key fst d) else x
     | _ \<Rightarrow> x)"

definition tier_entry :: "string \<times> node \<Rightarrow> string \<times> node" where
  "tier_entry e = (fst e, tier_node (snd e))"

definition tier_built :: "dir \<Rightarrow> entries" where
  "tier_built D = map_option tier_node \<circ> map_of D"

text \<open>The records of a sandbox load: what verification demands of its tiered copy.\<close>

definition record_ok :: "bool \<Rightarrow> (string \<Rightarrow> bool) \<Rightarrow> node option \<Rightarrow> bool" where
  "record_ok required decode x = (case x of
       None \<Rightarrow> \<not> required | Some (File s) \<Rightarrow> decode s | Some _ \<Rightarrow> False)"

definition records_ok :: "tier_env \<Rightarrow> dir \<Rightarrow> bool" where
  "records_ok T d \<longleftrightarrow>
     record_ok True (env_loads T) (map_of d EnvironmentFileName) \<and>
     record_ok False (state_json T) (map_of d SandboxStateFileName) \<and>
     record_ok False (agent_json T) (map_of d AgentConfigFileName) \<and>
     record_ok False (netpolicy_json T) (map_of d NetpolicyFileName)"

definition sandbox_ok :: "tier_env \<Rightarrow> node \<Rightarrow> bool" where
  "sandbox_ok T x = (case x of
       Dir d \<Rightarrow> (if map_of d ''environment.json'' \<noteq> None
                then distinct (map fst d) \<and> records_ok T d else True)
     | _ \<Rightarrow> True)"

definition unmarked :: "node option \<Rightarrow> bool" where
  "unmarked x = (case x of
       None \<Rightarrow> True
     | Some (File s) \<Rightarrow> (case Sscanf_d s of Some v \<Rightarrow> v < int SchemaTiered | None \<Rightarrow> False)
     | Some _ \<Rightarrow> False)"

definition no_dir_temps :: "dir \<Rightarrow> bool" where
  "no_dir_temps D \<longleftrightarrow> list_all (\<lambda>(n, x). \<not> is_repop_temp n \<and> n \<noteq> buildCompleteName \<and>
     (is_write_temp n \<longrightarrow> \<not> is_dir x)) D"

text \<open>The trees the migrator accepts: well formed, not yet marked, no entry named like the promotion's
  own temporaries, and every sandbox's records load.\<close>

definition tier_adm :: "tier_env \<Rightarrow> dir \<Rightarrow> bool" where
  "tier_adm T D \<longleftrightarrow> distinct (map fst D) \<and> no_dir_temps D \<and> unmarked (map_of D treeMarkerName) \<and>
     list_all (\<lambda>(n, x). sandbox_ok T x) D"

section \<open>The build\<close>

text \<open>A sandbox under construction in scratch: \<open>f t\<close> is the content of tier \<open>t\<close>.\<close>

definition tri :: "(Tier \<Rightarrow> dir) \<Rightarrow> node" where
  "tri f = Dir [(HostTierName, Dir (f TierHost)), (ReadOnlyTierName, Dir (f TierReadOnly)),
     (ReadWriteTierName, Dir (f TierReadWrite))]"

definition staged :: "world \<Rightarrow> dir \<Rightarrow> world" where
  "staged w X = w\<lparr>scratch := Some (Dir X)\<rparr>"

definition only_scratch :: "world \<Rightarrow> world \<Rightarrow> bool" where
  "only_scratch w v \<longleftrightarrow> (\<exists>x. v = w\<lparr>scratch := x\<rparr>)"

lemma tier_names_distinct [simp]:
  "HostTierName \<noteq> ReadOnlyTierName" "HostTierName \<noteq> ReadWriteTierName" "ReadOnlyTierName \<noteq> ReadWriteTierName"
  "ReadOnlyTierName \<noteq> HostTierName" "ReadWriteTierName \<noteq> HostTierName" "ReadWriteTierName \<noteq> ReadOnlyTierName"
  by (simp_all add: entry_names)

lemma only_scratch_staged [simp]: "only_scratch w (staged w X)"
  by (auto simp: only_scratch_def staged_def)

lemma only_scratch_upd [simp]: "only_scratch w (w\<lparr>scratch := x\<rparr>)"
  by (auto simp: only_scratch_def)

lemma only_scratch_put [simp]: "in_scratch p \<Longrightarrow> only_scratch w (put p y (staged w X))"
  unfolding only_scratch_def staged_def by (rule put_in_scratch')

lemma live_staged [simp]: "live (staged w X) = live w"
  by (simp add: staged_def)

lemma tri_get: "map_of [(HostTierName, Dir (f TierHost)), (ReadOnlyTierName, Dir (f TierReadOnly)),
     (ReadWriteTierName, Dir (f TierReadWrite))] (tier_name t) = Some (Dir (f t))"
  by (cases t) auto

lemma tri_set: "set_entry (tier_name t) (Some (Dir d)) [(HostTierName, Dir (f TierHost)),
     (ReadOnlyTierName, Dir (f TierReadOnly)), (ReadWriteTierName, Dir (f TierReadWrite))]
   = (let g = f(t := d) in [(HostTierName, Dir (g TierHost)), (ReadOnlyTierName, Dir (g TierReadOnly)),
       (ReadWriteTierName, Dir (g TierReadWrite))])"
  by (cases t) (auto simp: set_entry_def)

lemma put_tier:
  assumes "n \<notin> fst ` set X"
  shows "put (Under (Under (Under Scratch n) (tier_name t)) e) (Some x) (staged w (X @ [(n, tri f)]))
    = staged w (X @ [(n, tri (f(t := set_entry e (Some x) (f t))))])"
  using map_of_last [OF assms] set_entry_last [OF assms]
  by (cases t) (simp_all add: staged_def tri_def set_entry_def)

lemma mkdir_tiers:
  assumes n: "n \<notin> fst ` set X"
  shows "spec (\<lambda>v. v = staged w X) (io_each (mkdir_tier (Under Scratch n)) [TierHost, TierReadOnly, TierReadWrite])
    (\<lambda>_ v. v = staged w (X @ [(n, tri (\<lambda>_. []))])) (only_scratch w)"
proof -
  let ?S = "\<lambda>l. staged w (X @ [(n, Dir l)])"
  have none: "map_of X n = None" using n by (simp add: map_of_eq_None_iff)
  have top: "spec (\<lambda>v. v = staged w X) (os_MkdirAll msg (Under Scratch n)) (\<lambda>_ v. v = ?S []) (only_scratch w)" for msg
    by (rule spec_post [OF exact_MkdirAll]) (simp_all add: staged_def none set_entry_new n)
  have again: "spec (\<lambda>v. v = ?S l) (os_MkdirAll msg (Under Scratch n)) (\<lambda>_ v. v = ?S l) (only_scratch w)" for msg l
    by (rule spec_post [OF exact_MkdirAll]) (simp_all add: staged_def map_of_last map_of_last_add n)
  have sub: "spec (\<lambda>v. v = ?S l) (os_MkdirAll msg (Under (Under Scratch n) t))
      (\<lambda>_ v. v = ?S (l @ [(t, Dir [])])) (only_scratch w)" if "t \<notin> fst ` set l" for msg l t
    by (rule spec_post [OF exact_MkdirAll])
      (use that in \<open>simp_all add: staged_def map_of_last map_of_last_add n set_entry_last set_entry_new
        map_of_eq_None_iff\<close>)
  have tri: "tri (\<lambda>_. []) = Dir ((([] @ [(HostTierName, Dir [])]) @ [(ReadOnlyTierName, Dir [])]) @ [(ReadWriteTierName, Dir [])])"
    by (simp add: tri_def)
  show ?thesis unfolding io_each.simps mkdir_tier_def tier_name.simps tri
    by (rule spec_seq [OF spec_seq [OF top sub] spec_seq [OF spec_seq [OF again sub]
          spec_seq [OF spec_seq [OF again sub] spec_ret]]]) simp_all
qed

lemma tier_part_append: "tier_part t (ys @ [e]) = tier_part t ys @ (if fst (TierOfEntry (fst e)) = t then [e] else [])"
  by (simp add: tier_part_def)

lemma sorted_entries:
  assumes "distinct (map fst d)"
  shows "distinct (map fst (sort_key fst d))" and "map_of (sort_key fst d) = map_of d"
proof -
  show 1: "distinct (map fst (sort_key fst d))"
    using assms by (metis distinct_map distinct_sort set_sort)
  show "map_of (sort_key fst d) = map_of d"
    by (rule map_of_inject_set [THEN iffD2]) (use assms 1 in auto)
qed

lemma buildTieredSandbox_spec:
  assumes n: "n \<notin> fst ` set X" and D: "live w sandboxesName = Some (Dir D)" and d: "map_of D n = Some (Dir d)"
    and dist: "distinct (map fst d)"
  shows "spec (\<lambda>v. v = staged w X) (buildTieredSandbox (Under sandboxesRoot n) (Under Scratch n))
    (\<lambda>_ v. v = staged w (X @ [(n, tiered (sort_key fst d))])) (only_scratch w)"
proof -
  let ?src = "Under sandboxesRoot n" and ?dst = "Under Scratch n" and ?ds = "sort_key fst d"
  let ?f = "\<lambda>e. CopyPathFaithful ''move into tier'' (Under ?src (fst e)) (tier_path ?dst (fst e))"
  define I where "I = (\<lambda>ys v. v = staged w (X @ [(n, tri (\<lambda>t. tier_part t ys))]))"
  have src: "get ?src (staged w Y) = Some (Dir d)" for Y
    using D d by (simp add: sandboxesRoot_def staged_def)
  have "spec (I []) (io_each ?f ?ds) (\<lambda>_. I ?ds) (only_scratch w)"
  proof (rule spec_each)
    fix ys e zs assume ds: "?ds = ys @ e # zs"
    let ?t = "fst (TierOfEntry (fst e))" and ?g = "\<lambda>t. tier_part t ys"
    have "distinct (map fst (ys @ e # zs))" and mo: "map_of (ys @ e # zs) = map_of d"
      using sorted_entries [OF dist] ds by metis+
    then have new: "fst e \<notin> fst ` set ys" and "map_of d (fst e) = Some (snd e)"
      by (auto simp flip: mo simp: map_add_def map_of_eq_None_iff [THEN iffD2])
    then have e: "get (Under ?src (fst e)) (staged w Y) = Some (snd e)" for Y
      using src by simp
    have "fst e \<notin> fst ` set (tier_part ?t ys)" using new by (auto simp: tier_part_def)
    then have "?g(?t := set_entry (fst e) (Some (snd e)) (?g ?t)) = (\<lambda>t. tier_part t (ys @ [e]))"
      by (auto simp: tier_part_append set_entry_new)
    then have "put (tier_path ?dst (fst e)) (Some (snd e)) (staged w (X @ [(n, tri ?g)]))
        = staged w (X @ [(n, tri (\<lambda>t. tier_part t (ys @ [e])))])"
      unfolding tier_path_def put_tier [OF n] by simp
    then show "spec (I ys) (?f e) (\<lambda>_. I (ys @ [e])) (only_scratch w)"
      unfolding I_def by (intro spec_post [OF exact_Copy [OF e]]) (simp_all add: tier_path_def del: put.simps)
  qed
  moreover have "tri (\<lambda>t. tier_part t []) = tri (\<lambda>_. [])" "tri (\<lambda>t. tier_part t ?ds) = tiered ?ds"
    by (simp_all add: tier_part_def tri_def tiered_def)
  ultimately have copy: "spec (\<lambda>v. v = staged w (X @ [(n, tri (\<lambda>_. []))])) (io_each ?f ?ds)
      (\<lambda>_ v. v = staged w (X @ [(n, tiered ?ds)])) (only_scratch w)"
    unfolding I_def by simp
  show ?thesis unfolding buildTieredSandbox_def
    by (rule exact_bind [OF exact_ReadDir [OF src]], simp, rule spec_seq [OF mkdir_tiers [OF n] copy])
qed

lemma map_of_tier_entries: "map_of (map tier_entry ds) = map_option tier_node \<circ> map_of ds"
  by (induction ds) (auto simp: tier_entry_def fun_eq_iff)

lemma isSandboxDir_staged:
  assumes "live w sandboxesName = Some (Dir D)" "map_of D n = Some x"
  shows "isSandboxDir (Under sandboxesRoot n) (staged w X) \<longleftrightarrow> is_sandbox_node x"
  using assms by (auto simp: isSandboxDir_def sandboxesRoot_def staged_def is_sandbox_node_def split: node.split)

lemma tier_node_cases:
  "tier_node x = (case x of Dir d \<Rightarrow> if is_sandbox_node x then tiered (sort_key fst d) else x | _ \<Rightarrow> x)"
  by (simp add: tier_node_def is_sandbox_node_def split: node.split)

lemma is_sandbox_node_dir: "is_sandbox_node x \<Longrightarrow> \<exists>d. x = Dir d"
  by (auto simp: is_sandbox_node_def split: node.splits)

lemma sandbox_ok_node:
  assumes "sandbox_ok T x" "is_sandbox_node x" "x = Dir d"
  shows "distinct (map fst d)" "records_ok T d"
proof -
  have sb: "map_of d ''environment.json'' \<noteq> None"
    using assms(2,3) by (simp only: is_sandbox_node_def node.case simp_thms)
  have "distinct (map fst d) \<and> records_ok T d"
    using assms(1) by (simp only: assms(3) sandbox_ok_def node.case if_P [OF sb] simp_thms)
  then show "distinct (map fst d)" "records_ok T d" by blast+
qed

lemma build_entry_spec:
  assumes D: "live w sandboxesName = Some (Dir D)" and e: "map_of D (fst e) = Some (snd e)"
    and new: "fst e \<notin> fst ` set X" and ok: "sandbox_ok T (snd e)"
  shows "spec (\<lambda>v. v = staged w X) (build_entry Scratch e) (\<lambda>_ v. v = staged w (X @ [tier_entry e])) (only_scratch w)"
  unfolding build_entry_def
proof (rule spec_get_bind, unfold isSandboxDir_staged [OF D e])
  let ?n = "fst e" and ?x = "snd e"
  show "spec (\<lambda>v. v = staged w X)
     (if \<not> is_dir ?x \<or> \<not> is_sandbox_node ?x
      then CopyPathFaithful ''carry'' (Under sandboxesRoot ?n) (Under Scratch ?n)
      else buildTieredSandbox (Under sandboxesRoot ?n) (Under Scratch ?n))
     (\<lambda>_ v. v = staged w (X @ [tier_entry e])) (only_scratch w)"
  proof (cases "is_sandbox_node ?x")
    case True
    then obtain d where d: "?x = Dir d" using is_sandbox_node_dir by blast
    have dd: "distinct (map fst d)" by (rule sandbox_ok_node(1) [OF ok True d])
    have de: "map_of D ?n = Some (Dir d)" using e d by simp
    have "spec (\<lambda>v. v = staged w X) (buildTieredSandbox (Under sandboxesRoot ?n) (Under Scratch ?n))
        (\<lambda>_ v. v = staged w (X @ [(?n, tiered (sort_key fst d))])) (only_scratch w)"
      by (rule buildTieredSandbox_spec [OF new D de dd])
    moreover have "tier_entry e = (?n, tiered (sort_key fst d))"
      using True d by (simp add: tier_entry_def tier_node_cases)
    moreover have "\<not> (\<not> is_dir ?x \<or> \<not> is_sandbox_node ?x)" using True d by simp
    ultimately show ?thesis by (simp only: if_False)
  next
    case False
    have src: "get (Under sandboxesRoot ?n) (staged w X) = Some ?x"
      using D e by (simp add: sandboxesRoot_def)
    have "tier_node ?x = ?x" using False by (cases ?x) (simp_all add: tier_node_cases)
    then have "put (Under Scratch ?n) (Some ?x) (staged w X) = staged w (X @ [tier_entry e])"
      using new by (simp add: staged_def set_entry_new tier_entry_def)
    then show ?thesis
      using False by (simp only: if_True simp_thms, intro spec_post [OF exact_Copy [OF src]])
        (simp_all del: put.simps)
  qed
qed

lemma build_loop:
  assumes D: "live w sandboxesName = Some (Dir D)" and dist: "distinct (map fst D)"
    and ok: "list_all (\<lambda>(n, x). sandbox_ok T x) D"
  shows "spec (\<lambda>v. v = staged w []) (io_each (build_entry Scratch) (sort_key fst D))
    (\<lambda>_ v. v = staged w (map tier_entry (sort_key fst D))) (only_scratch w)"
proof -
  define I where "I = (\<lambda>ys v. v = staged w (map tier_entry ys))"
  have "spec (I []) (io_each (build_entry Scratch) (sort_key fst D)) (\<lambda>_. I (sort_key fst D)) (only_scratch w)"
  proof (rule spec_each)
    fix ys e zs assume ds: "sort_key fst D = ys @ e # zs"
    have "distinct (map fst (ys @ e # zs))" and mo: "map_of (ys @ e # zs) = map_of D"
      using sorted_entries [OF dist] ds by metis+
    then have new: "fst e \<notin> fst ` set ys" and e: "map_of D (fst e) = Some (snd e)"
      by (auto simp flip: mo simp: map_add_def map_of_eq_None_iff [THEN iffD2])
    have "sandbox_ok T (snd e)" using ok map_of_SomeD [OF e] by (auto simp: list_all_iff)
    moreover have "fst e \<notin> fst ` set (map tier_entry ys)" using new by (simp add: tier_entry_def image_image)
    ultimately have "spec (\<lambda>v. v = staged w (map tier_entry ys)) (build_entry Scratch e)
        (\<lambda>_ v. v = staged w (map tier_entry ys @ [tier_entry e])) (only_scratch w)"
      by (intro build_entry_spec [OF D e])
    then show "spec (I ys) (build_entry Scratch e) (\<lambda>_. I (ys @ [e])) (only_scratch w)"
      unfolding I_def by simp
  qed
  then show ?thesis unfolding I_def by simp
qed

subsection \<open>Verification of the staged tree\<close>

lemma map_of_tier_part:
  "map_of (tier_part t ds) n = (if fst (TierOfEntry n) = t then map_of ds n else None)"
  by (induction ds) (auto simp: tier_part_def)

lemma get_tiered:
  assumes "map_of Y n = Some (tiered ds)"
  shows "get (Under (Under (Under Scratch n) (tier_name t)) e) (staged w Y) =
    (if fst (TierOfEntry e) = t then map_of ds e else None)"
  using assms by (cases t) (simp_all add: staged_def tiered_def map_of_tier_part)

lemma record_tiers:
  "fst (TierOfEntry EnvironmentFileName) = TierHost" "fst (TierOfEntry SandboxStateFileName) = TierHost"
  "fst (TierOfEntry AgentConfigFileName) = TierHost" "fst (TierOfEntry NetpolicyFileName) = TierHost"
  by (simp_all add: TierOfEntry_def IsTierName_def entryTiers_def entry_names)

lemma read_record_spec:
  assumes "record_ok req dec (get q v)" and "R v"
  shows "spec (\<lambda>w. w = v) (read_record msg req dec q) (\<lambda>_ w. w = v) R"
  unfolding read_record_def
  by (rule exact_bind [OF exact_ReadFile])
    (use assms in \<open>auto simp: record_ok_def intro!: spec_ret split: option.splits node.splits\<close>)

lemma verifyStagedRecords_spec:
  assumes "map_of Y n = Some (tiered (sort_key fst d))" and "distinct (map fst d)" and "records_ok T d"
  shows "spec (\<lambda>v. v = staged w Y) (verifyStagedRecords T (Under Scratch n)) (\<lambda>_ v. v = staged w Y) (only_scratch w)"
proof -
  have rd: "spec (\<lambda>v. v = staged w Y)
      (read_record msg req dec (Under (Under (Under Scratch n) HostTierName) e)) (\<lambda>_ v. v = staged w Y) (only_scratch w)"
    if "record_ok req dec (map_of d e)" "fst (TierOfEntry e) = TierHost" for msg req dec e
    using get_tiered [OF assms(1), of TierHost e w] that sorted_entries [OF assms(2)]
    by (intro read_record_spec) simp_all
  have ok: "record_ok True (env_loads T) (map_of d EnvironmentFileName)"
    "record_ok False (state_json T) (map_of d SandboxStateFileName)"
    "record_ok False (agent_json T) (map_of d AgentConfigFileName)"
    "record_ok False (netpolicy_json T) (map_of d NetpolicyFileName)"
    using assms(3) by (simp_all add: records_ok_def)
  show ?thesis unfolding verifyStagedRecords_def
    by (rule spec_seq [OF rd [OF ok(1) record_tiers(1)] spec_seq [OF rd [OF ok(2) record_tiers(2)]
          spec_seq [OF rd [OF ok(3) record_tiers(3)] rd [OF ok(4) record_tiers(4)]]]])
qed

lemma verifyStagedEntries_spec:
  assumes D: "live w sandboxesName = Some (Dir D)" and d: "map_of D n = Some (Dir d)"
    and Y: "map_of Y n = Some (tiered (sort_key fst d))" and dist: "distinct (map fst d)"
  shows "spec (\<lambda>v. v = staged w Y) (verifyStagedEntries (Under sandboxesRoot n) (Under Scratch n))
    (\<lambda>_ v. v = staged w Y) (only_scratch w)"
proof -
  let ?v = "staged w Y" and ?ds = "sort_key fst d"
  have src: "get (Under sandboxesRoot n) ?v = Some (Dir d)" using D d by (simp add: sandboxesRoot_def)
  have "spec (\<lambda>v. v = ?v) (io_each (\<lambda>e. io_bind (os_exists (tier_path (Under Scratch n) (fst e))) (\<lambda>there.
       if there then io_ret () else io_fail ''did not arrive'')) ?ds) (\<lambda>_ v. v = ?v) (only_scratch w)"
  proof (rule spec_each [where I = "\<lambda>_ v. v = ?v"])
    fix ys e zs assume "?ds = ys @ e # zs"
    then have "map_of ?ds (fst e) \<noteq> None" by (metis in_set_conv_decomp weak_map_of_SomeI prod.collapse option.distinct(1))
    then have "get (tier_path (Under Scratch n) (fst e)) ?v \<noteq> None"
      unfolding tier_path_def using get_tiered [OF Y] by simp
    then show "spec (\<lambda>v. v = ?v) (io_bind (os_exists (tier_path (Under Scratch n) (fst e))) (\<lambda>there.
       if there then io_ret () else io_fail ''did not arrive'')) (\<lambda>_ v. v = ?v) (only_scratch w)"
      by (intro exact_bind [OF exact_exists]) (simp add: spec_ret del: get.simps)
  qed
  then show ?thesis unfolding verifyStagedEntries_def
    by (intro exact_bind [OF exact_ReadDir [OF src]]) simp_all
qed

lemma verifyStagedTree_spec:
  assumes D: "live w sandboxesName = Some (Dir D)" and dist: "distinct (map fst D)"
    and ok: "list_all (\<lambda>(n, x). sandbox_ok T x) D"
  defines "Y \<equiv> map tier_entry (sort_key fst D)"
  shows "spec (\<lambda>v. v = staged w Y) (verifyStagedTree T Scratch) (\<lambda>_ v. v = staged w Y) (only_scratch w)"
proof -
  let ?v = "staged w Y"
  define names where "names = sort (map fst (filter (\<lambda>e. is_dir (snd e) \<and>
      isSandboxDir (Under sandboxesRoot (fst e)) ?v) (sort_key fst D)))"
  have root: "get sandboxesRoot ?v = Some (Dir D)" using D by (simp add: sandboxesRoot_def)
  have list: "spec (\<lambda>v. v = ?v) (sandboxNames sandboxesRoot) (\<lambda>ns v. v = ?v \<and> ns = names) (only_scratch w)"
    unfolding sandboxNames_def
    by (rule exact_bind [OF exact_exists], simp add: root,
        rule exact_bind [OF exact_ReadDir [OF root]], simp, rule spec_get, simp add: names_def)
  have step: "spec (\<lambda>v. v = ?v) (io_seq (verifyStagedRecords T (Under Scratch n))
       (verifyStagedEntries (Under sandboxesRoot n) (Under Scratch n))) (\<lambda>_ v. v = ?v) (only_scratch w)"
    if "n \<in> set names" for n
  proof -
    from that obtain x where "(n, x) \<in> set D" "isSandboxDir (Under sandboxesRoot n) ?v"
      by (auto simp: names_def)
    then have x: "map_of D n = Some x" using dist by simp
    then have sb: "is_sandbox_node x"
      using \<open>isSandboxDir _ _\<close> isSandboxDir_staged [OF D] by blast
    then obtain d where d: "x = Dir d" using is_sandbox_node_dir by blast
    have "sandbox_ok T x" using ok map_of_SomeD [OF x] by (auto simp: list_all_iff)
    note dd = sandbox_ok_node [OF this sb d]
    have "map_of Y n = Some (tiered (sort_key fst d))"
      unfolding Y_def map_of_tier_entries sorted_entries(2) [OF dist]
      using x d sb by (simp add: tier_node_cases)
    then show ?thesis
      using verifyStagedRecords_spec [OF _ dd] verifyStagedEntries_spec [OF D _ _ dd(1)] x d
      by (intro spec_seq) auto
  qed
  have "spec (\<lambda>v. v = ?v) (io_each (\<lambda>n. io_seq (verifyStagedRecords T (Under Scratch n))
       (verifyStagedEntries (Under sandboxesRoot n) (Under Scratch n))) names) (\<lambda>_ v. v = ?v) (only_scratch w)"
    by (rule spec_each [where I = "\<lambda>_ v. v = ?v"]) (simp add: step)
  then show ?thesis unfolding verifyStagedTree_def by (rule exact_bind [OF list])
qed

lemma buildTieredTree_spec:
  assumes "tier_adm T D" and D: "live w sandboxesName = Some (Dir D)"
  shows "spec (dir_at Scratch w (\<lambda>m. m = Map.empty)) (buildTieredTree T Scratch)
        (\<lambda>_. dir_at Scratch w (\<lambda>m. m = tier_built D)) (\<lambda>v. \<exists>x. v = put Scratch x w)"
proof -
  let ?Y = "map tier_entry (sort_key fst D)"
  have adm: "distinct (map fst D)" "list_all (\<lambda>(n, x). sandbox_ok T x) D"
    using assms(1) by (auto simp: tier_adm_def)
  have root: "get sandboxesRoot (staged w []) = Some (Dir D)" using D by (simp add: sandboxesRoot_def)
  have "spec (\<lambda>v. v = staged w []) (buildTieredTree T Scratch) (\<lambda>_ v. v = staged w ?Y) (only_scratch w)"
    unfolding buildTieredTree_def
    by (rule exact_bind [OF exact_ReadDir [OF root]], simp,
        rule spec_seq [OF build_loop [OF D adm] verifyStagedTree_spec [OF D adm]])
  then show ?thesis
  proof (rule spec_conseq)
    fix v assume "dir_at Scratch w (\<lambda>m. m = Map.empty) v"
    then show "v = staged w []" by (auto simp: staged_def elim!: dir_atE)
  next
    fix v assume v: "v = staged w ?Y"
    have "distinct (map fst ?Y)" using sorted_entries(1) [OF adm(1)] by (simp add: tier_entry_def comp_def)
    moreover have "map_of ?Y = tier_built D"
      unfolding map_of_tier_entries sorted_entries(2) [OF adm(1)] tier_built_def ..
    ultimately show "dir_at Scratch w (\<lambda>m. m = tier_built D) v"
      by (intro dir_atI [of ?Y]) (simp_all add: v staged_def)
  qed (auto simp: only_scratch_def)
qed

section \<open>The tier migration is a client of the promotion\<close>

definition tier_mark :: node where "tier_mark = File (Itoa SchemaTiered)"

lemma Itoa_SchemaTiered: "Itoa SchemaTiered = ''6''"
  by code_simp

lemma Sscanf_mark: "Sscanf_d (Itoa SchemaTiered) = Some (int SchemaTiered)"
  by code_simp

lemma tree_marker_plain: "plain treeMarkerName"
  by code_simp

lemma marker_temp_stray: "stray_temp (temp_name treeMarkerName names)"
proof -
  have "is_write_temp (temp_name treeMarkerName names)"
    unfolding is_write_temp_def using temp_name_write_temp by blast
  moreover have "\<not> is_repop_temp (temp_name treeMarkerName names)"
    by (simp add: is_repop_temp_def repopTempPrefix_def temp_name_def treeMarkerName_def go_string)
  ultimately show ?thesis by (simp add: stray_temp_def)
qed

lemma tier_adm_entry:
  assumes "tier_adm T D" "map_of D n = Some x"
  shows "\<not> is_repop_temp n \<and> n \<noteq> buildCompleteName \<and> (is_write_temp n \<longrightarrow> \<not> is_dir x)"
  using assms map_of_SomeD [OF assms(2)] by (auto simp: tier_adm_def no_dir_temps_def list_all_iff)

lemma tier_node_is_dir [simp]: "is_dir (tier_node x) = is_dir x"
  by (cases x) (simp_all add: tier_node_def tiered_def)

lemma tier_adm_names:
  assumes "tier_adm T D"
  shows "names_ok (map_of D)" and "names_ok (tier_built D)" and "tier_built D buildCompleteName = None"
proof -
  have *: "map_of D n = None" if "is_repop_temp n \<or> n = buildCompleteName" for n
    using tier_adm_entry [OF assms, of n] that by (cases "map_of D n") auto
  have **: "not_dir (map_of D n) \<and> not_dir (tier_built D n)" if "stray_temp n" for n
    using tier_adm_entry [OF assms, of n] that
    by (cases "map_of D n") (auto simp: not_dir_def stray_temp_def tier_built_def)
  show "names_ok (map_of D)" using * ** by (auto simp: names_ok_def)
  show "names_ok (tier_built D)" using * ** by (auto simp: names_ok_def tier_built_def)
  show "tier_built D buildCompleteName = None" using * by (simp add: tier_built_def)
qed

lemma unmarked_node: "unmarked (Some x) \<Longrightarrow> \<exists>s. x = File s \<and> (\<exists>v < int SchemaTiered. Sscanf_d s = Some v)"
  by (auto simp: unmarked_def split: node.splits option.splits)

lemma tier_built_unmarked: "unmarked (map_of D n) \<Longrightarrow> tier_built D n = map_of D n"
  by (cases "map_of D n") (auto simp: tier_built_def tier_node_def dest!: unmarked_node)

lemma unmarked_not_mark: "unmarked x \<Longrightarrow> x \<noteq> Some tier_mark"
  using Sscanf_mark by (auto simp: tier_mark_def unmarked_def)

lemma treeIsTiered_spec:
  assumes "get t w = Some (Dir X)" and x: "unmarked (map_of X treeMarkerName) \<or> map_of X treeMarkerName = Some tier_mark"
  shows "spec (\<lambda>v. v = w) (treeIsTiered t)
    (\<lambda>r v. v = w \<and> r = (map_of X treeMarkerName = Some tier_mark)) (\<lambda>v. v = w)"
proof -
  let ?x = "map_of X treeMarkerName"
  have g: "get (Under t treeMarkerName) w = ?x" using assms(1) by simp
  have isf: "?x = None \<or> (\<exists>s. ?x = Some (File s))"
    using x unmarked_node by (cases ?x) (auto simp: tier_mark_def)
  show ?thesis
  proof (cases ?x)
    case None
    show ?thesis unfolding treeIsTiered_def
      by (rule exact_bind [OF exact_ReadFile])
        (simp_all add: g None spec_ret del: get.simps)
  next
    case (Some y)
    then obtain s where s: "?x = Some (File s)" using isf by auto
    have "\<exists>v. Sscanf_d s = Some v \<and> (v \<ge> int SchemaTiered) = (?x = Some tier_mark)"
    proof (cases "?x = Some tier_mark")
      case True
      then show ?thesis using s Sscanf_mark by (simp add: tier_mark_def)
    next
      case False
      then show ?thesis using x s unmarked_node by fastforce
    qed
    then obtain v where v: "Sscanf_d s = Some v" "(v \<ge> int SchemaTiered) = (?x = Some tier_mark)" by blast
    show ?thesis unfolding treeIsTiered_def
      by (rule exact_bind [OF exact_ReadFile])
        (simp_all add: g s v(1) v(2) [unfolded s] spec_ret del: get.simps)
  qed
qed

lemma writeTreeMarker_spec:
  assumes "slot t w" and "not_dir (m0 treeMarkerName)"
  shows "spec (dir_at t w (\<lambda>m. m = m0)) (writeTreeMarker t)
    (\<lambda>_. dir_at t w (\<lambda>m. near treeMarkerName m0 m \<and> m treeMarkerName = Some tier_mark))
    (dir_at t w (\<lambda>m. near treeMarkerName m0 m \<and> m treeMarkerName \<in> {m0 treeMarkerName, Some tier_mark}))"
  unfolding writeTreeMarker_def
proof (rule dir_AtomicWriteFile [OF assms(1)])
  fix m n names x
  assume "m = m0" "n = temp_name treeMarkerName names" "m n = None" "not_dir x"
  then show "near treeMarkerName m0 (m(n := x)) \<and> (m(n := x)) treeMarkerName \<in> {m0 treeMarkerName, Some tier_mark}"
    using marker_temp_stray [of names] temp_name_not_base [of treeMarkerName names] by (auto simp: near_def)
qed (use assms(2) in \<open>auto simp: near_def tier_mark_def\<close>)

abbreviation tier_orig :: string where "tier_orig \<equiv> sandboxesName @ suffixOrig"

lemma tier_promotion_simps [simp]:
  "Name (tier_promotion T) = sandboxesName" "Build (tier_promotion T) = buildTieredTree T"
  "WriteReadyMarker (tier_promotion T) = writeTreeMarker" "IsReady (tier_promotion T) = treeIsTiered"
  "DisposeOrig (tier_promotion T) = TrashDisposer"
  by (simp_all add: tier_promotion_def)

interpretation tier: promotion_client "tier_promotion T" "trash_pend tier_orig" trash_gone
    "tier_adm T" tier_built treeMarkerName "\<lambda>_. tier_mark" for T
proof (unfold_locales, unfold tier_promotion_simps)
  show "plain treeMarkerName" by (rule tree_marker_plain)
next
  fix D assume "tier_adm T D"
  then show "distinct (map fst D)" by (simp add: tier_adm_def)
next
  fix D assume a: "tier_adm T D"
  then have u: "unmarked (map_of D treeMarkerName)" by (simp add: tier_adm_def)
  show "map_of D treeMarkerName \<noteq> Some tier_mark" by (rule unmarked_not_mark [OF u])
  show "tier_built D treeMarkerName \<noteq> Some tier_mark"
    unfolding tier_built_unmarked [OF u] by (rule unmarked_not_mark [OF u])
next
  fix D and w :: world assume "tier_adm T D" "live w sandboxesName = Some (Dir D)"
  then show "spec (dir_at Scratch w (\<lambda>m. m = Map.empty)) (buildTieredTree T Scratch)
        (\<lambda>_. dir_at Scratch w (\<lambda>m. m = tier_built D)) (\<lambda>v. \<exists>x. v = put Scratch x w)"
    by (rule buildTieredTree_spec)
next
  fix D t X and w :: world
  assume a: "tier_adm T D" "get t w = Some (Dir X)"
    and "map_of X treeMarkerName \<in> {None, map_of D treeMarkerName, tier_built D treeMarkerName, Some tier_mark}"
  moreover have u: "unmarked (map_of D treeMarkerName)" using a(1) by (simp add: tier_adm_def)
  ultimately have "unmarked (map_of X treeMarkerName) \<or> map_of X treeMarkerName = Some tier_mark"
    using tier_built_unmarked [OF u] by (auto simp: unmarked_def [of None])
  with a(2) show "spec (\<lambda>v. v = w) (treeIsTiered t)
      (\<lambda>r v. v = w \<and> r = (map_of X treeMarkerName = Some tier_mark)) (\<lambda>v. v = w)"
    by (rule treeIsTiered_spec)
next
  fix D m0 and w :: world
  assume a: "tier_adm T D" and m0: "m0 treeMarkerName = (map_of D ++ tier_built D) treeMarkerName"
  have u: "unmarked (map_of D treeMarkerName)" using a by (simp add: tier_adm_def)
  have "m0 treeMarkerName = map_of D treeMarkerName"
    using m0 tier_built_unmarked [OF u] by (cases "map_of D treeMarkerName") (auto simp: map_add_def)
  then have "not_dir (m0 treeMarkerName)"
    using u by (cases "map_of D treeMarkerName") (auto dest: unmarked_node)
  then show "spec (dir_at (newer (tier_promotion T)) w (\<lambda>m. m = m0)) (writeTreeMarker (newer (tier_promotion T)))
        (\<lambda>_. dir_at (newer (tier_promotion T)) w (\<lambda>m. near treeMarkerName m0 m \<and> m treeMarkerName = Some tier_mark))
        (dir_at (newer (tier_promotion T)) w
          (\<lambda>m. near treeMarkerName m0 m \<and> m treeMarkerName \<in> {m0 treeMarkerName, Some tier_mark}))"
    by (intro writeTreeMarker_spec) (simp_all add: newer_def)
qed (erule tier_adm_names | erule (2) trashing.pend_start | erule (2) trashing.pend_frame |
    erule (1) trashing.gone_frame | erule (1) trashing.Dispose_ok)+

section \<open>Crash safety of the tier migration\<close>

text \<open>Runs one after another, each with its own fault schedule, from the world the last one left.\<close>

fun run_all :: "promotion \<Rightarrow> verdict list list \<Rightarrow> world \<Rightarrow> world" where
  "run_all p [] w = w"
| "run_all p (sch # schs) w = run_all p schs (world_of (Run p (w, sch)))"

definition tier_start :: "world \<Rightarrow> dir \<Rightarrow> bool" where
  "tier_start w D \<longleftrightarrow> live w sandboxesName = Some (Dir D) \<and> live w (sandboxesName @ suffixOrig) = None \<and>
     live w (sandboxesName @ suffixNew) = None \<and> trash_ok w"

lemma tier_start_stage: "tier_start w D \<Longrightarrow> tier.stages T w D w"
  by (simp add: tier_start_def tier.stages_def tier.st_init_def tier.trio_def tier.frame_def)

lemma run_all_stages:
  assumes "tier_adm T D" and "tier.stages T w0 D w"
  shows "tier.stages T w0 D (run_all (tier_promotion T) schs w)"
  using assms(2)
proof (induction schs arbitrary: w)
  case (Cons sch schs)
  have "tier.stages T w0 D (world_of (Run (tier_promotion T) (w, sch)))"
    using spec_runD [OF tier.Run_spec [OF assms(1)] Cons.prems, of sch]
    by (auto simp: tier.stages_def split: outcome.splits)
  then show ?case using Cons.IH by simp
qed simp

definition original_kept :: "world \<Rightarrow> dir \<Rightarrow> world \<Rightarrow> bool" where
  "original_kept w0 D w \<longleftrightarrow> live w sandboxesName = Some (Dir D) \<or>
     live w (sandboxesName @ suffixOrig) = Some (Dir D) \<or> trash_gone w0 D w"

definition trash_kept :: "world \<Rightarrow> world \<Rightarrow> bool" where
  "trash_kept w0 w \<longleftrightarrow> (\<forall>n x. trash_entries w0 n = Some x \<longrightarrow> trash_entries w n = Some x)"

lemma stages_keep_original:
  assumes "tier.stages T w0 D w"
  shows "original_kept w0 D w"
  using assms unfolding tier.stages_def tier.stage_defs original_kept_def tier.trio_def trash_pend_def
  by auto

lemma stages_frame: "tier.stages T w0 D w \<Longrightarrow> tier.frame T w0 w"
  unfolding tier.stages_def tier.stage_defs tier.trio_def by blast

lemma stages_keep_trash:
  assumes "tier.stages T w0 D w"
  shows "trash_kept w0 w"
  using assms unfolding tier.stages_def tier.stage_defs trash_kept_def trash_pend_def trash_gone_def
  by (auto simp: trash_entries_def)

text \<open>C4: The tier migration never loses data. Take a data directory with an acceptable sandboxes tree
  and any number of runs of the promotion, each interrupted anywhere by an error or the death of the
  process, with any remainder a non-atomic call may leave. Afterwards the original tree is whole at one
  of three places: at its own name, under the set-aside name, or in the trash under a name that was
  free before. Nothing else in the data directory has changed and nothing that was in the trash is gone.\<close>

theorem tier_migration_never_loses_data:
  assumes "tier_adm T D" and "tier_start w D"
  shows "original_kept w D (run_all (tier_promotion T) schs w) \<and>
    trash_kept w (run_all (tier_promotion T) schs w) \<and>
    (\<forall>n. n \<notin> {sandboxesName, sandboxesName @ suffixOrig, sandboxesName @ suffixNew} \<longrightarrow>
      live (run_all (tier_promotion T) schs w) n = live w n)"
proof -
  let ?v = "run_all (tier_promotion T) schs w"
  have st: "tier.stages T w D ?v" by (rule run_all_stages [OF assms(1) tier_start_stage [OF assms(2)]])
  then have "tier.frame T w ?v" by (rule stages_frame)
  then show ?thesis
    using stages_keep_original [OF st] stages_keep_trash [OF st] by (simp add: tier.frame_def)
qed

text \<open>A tree with one sandbox, one lock file and a trash that is not empty.\<close>

definition demo_tier :: tier_env where
  "demo_tier = \<lparr>env_json = one_record_json, state_json = (\<lambda>_. True), agent_json = (\<lambda>_. True),
     netpolicy_json = (\<lambda>_. True), runtimeFor = (\<lambda>_. True), detect = (\<lambda>_ _. Inr StatusStopped),
     ownerUID = (\<lambda>_ _. Some 1000), hostUID = 1000, isRoot = False, FreeBytes = Some 1000000, sameFS = True\<rparr>"

definition demo_tree :: dir where
  "demo_tree = [(''box'', Dir [(''environment.json'', File ''{}''), (''work'', Dir []), (''note'', File ''n'')]),
     (''box.lock'', File [])]"

definition demo_world :: world where
  "demo_world = \<lparr>live = [sandboxesName \<mapsto> Dir demo_tree, schemaStampName \<mapsto> File ''5''], scratch = None,
     trash = Some (Dir [(''sandboxes_^^_orig'', Dir [])])\<rparr>"

lemma demo_adm: "tier_adm demo_tier demo_tree"
  by code_simp

lemma demo_start: "tier_start demo_world demo_tree"
  by (simp add: tier_start_def demo_world_def sandboxesName_def schemaStampName_def promo_consts trash_ok_def)

theorem tier_migration_never_loses_data_witness:
  "original_kept demo_world demo_tree
     (run_all (tier_promotion demo_tier) [replicate 30 Succeed @ [Crash None], replicate 9 Succeed @ [Crash None]] demo_world)"
  using tier_migration_never_loses_data [OF demo_adm demo_start] by blast

text \<open>The tree a finished migration leaves.\<close>

definition tiered_tree :: "dir \<Rightarrow> entries" where
  "tiered_tree D = (\<lambda>n. if n = treeMarkerName then Some tier_mark
     else if plain n then map_option tier_node (map_of D n) else None)"

lemma final_tiered_tree: "final_map (map_of D) (tier_built D) treeMarkerName tier_mark = tiered_tree D"
proof
  fix n
  show "final_map (map_of D) (tier_built D) treeMarkerName tier_mark n = tiered_tree D n"
    using tree_marker_plain
    by (cases "map_of D n") (auto simp: final_map_def tiered_tree_def tier_built_def map_add_def)
qed

text \<open>C5: The tier promotion recovers. After any number of interrupted runs of the promotion, one run of it
  without faults returns, and it leaves the tiered tree in place: every entry of the original tree in its staged form
  next to the ready marker, no leftover of the promotion beside it, and the original in the trash.\<close>

theorem tier_migration_recovers:
  assumes "tier_adm T D" and "tier_start w D"
  shows "let r = Run (tier_promotion T) (run_all (tier_promotion T) schs w, []) in
    fst r = Ret () \<and>
    (\<exists>N. live (world_of r) sandboxesName = Some (Dir N) \<and> map_of N = tiered_tree D) \<and>
    live (world_of r) (sandboxesName @ suffixOrig) = None \<and>
    live (world_of r) (sandboxesName @ suffixNew) = None \<and> trash_gone w D (world_of r)"
proof -
  define r where "r = Run (tier_promotion T) (run_all (tier_promotion T) schs w, [])"
  have st: "tier.stages T w D (run_all (tier_promotion T) schs w)"
    by (rule run_all_stages [OF assms(1) tier_start_stage [OF assms(2)]])
  have "fst r = Ret () \<and> tier.st_done T w D (world_of r)"
    using spec_runD [OF tier.Run_spec [OF assms(1)] st, of "[]"]
    by (cases "fst r") (auto simp: r_def)
  then show ?thesis unfolding r_def [symmetric] Let_def
    by (auto simp: tier.st_done_def tier.finished_def tier.trio_def final_tiered_tree)
qed

theorem tier_migration_recovers_witness:
  "fst (Run (tier_promotion demo_tier) (run_all (tier_promotion demo_tier) [replicate 30 Succeed @ [Crash None]] demo_world, [])) = Ret ()"
  using tier_migration_recovers [OF demo_adm demo_start] unfolding Let_def by blast

section \<open>Every entry lands in its tier\<close>

lemma get_tier_entry:
  assumes "live v sandboxesName = Some (Dir N)" "map_of N n = Some (tiered (sort_key fst d))"
  shows "get (Under (Under (Under sandboxesRoot n) (tier_name t)) e) v =
    (if fst (TierOfEntry e) = t then map_of (sort_key fst d) e else None)"
  using assms by (cases t) (simp_all add: sandboxesRoot_def tiered_def map_of_tier_part)

text \<open>After a migration every entry of every sandbox is at the path its name classifies into and
  nowhere else: for each sandbox of the original tree and each tier, looking an entry name up in the
  tier's directory finds exactly the original entry when the name belongs to the tier and nothing when
  it does not; what is not a sandbox is carried over as it was.\<close>

theorem tier_migration_places_entries:
  assumes "tier_adm T D" and "tier_start w D" and "map_of D n = Some x" and "plain n" and "n \<noteq> treeMarkerName"
  shows "let v = world_of (Run (tier_promotion T) (run_all (tier_promotion T) schs w, [])) in
    (case x of
       Dir d \<Rightarrow> (if is_sandbox_node x then
           (\<forall>t e. get (Under (Under (Under sandboxesRoot n) (tier_name t)) e) v =
             (if fst (TierOfEntry e) = t then map_of d e else None))
         else get (Under sandboxesRoot n) v = Some x)
     | _ \<Rightarrow> get (Under sandboxesRoot n) v = Some x)"
proof -
  define v where "v = world_of (Run (tier_promotion T) (run_all (tier_promotion T) schs w, []))"
  have st: "tier.stages T w D (run_all (tier_promotion T) schs w)"
    by (rule run_all_stages [OF assms(1) tier_start_stage [OF assms(2)]])
  have "tier.st_done T w D v"
    using spec_runD [OF tier.Run_spec [OF assms(1)] st, of "[]"]
    unfolding v_def by (auto split: outcome.splits)
  then obtain N where N: "live v sandboxesName = Some (Dir N)" "map_of N = tiered_tree D"
    by (auto simp: tier.st_done_def tier.finished_def tier.trio_def final_tiered_tree)
  have n: "map_of N n = Some (tier_node x)" using N(2) assms(3-5) by (simp add: tiered_tree_def)
  then have g: "get (Under sandboxesRoot n) v = Some (tier_node x)"
    using N(1) by (simp add: sandboxesRoot_def)
  have ok: "sandbox_ok T x"
    using assms(1) map_of_SomeD [OF assms(3)] by (auto simp: tier_adm_def list_all_iff)
  show ?thesis unfolding v_def [symmetric] Let_def
  proof (cases "is_sandbox_node x")
    case True
    then obtain d where d: "x = Dir d" using is_sandbox_node_dir by blast
    have "map_of N n = Some (tiered (sort_key fst d))" using n True d by (simp add: tier_node_cases)
    then show "case x of
       Dir d \<Rightarrow> (if is_sandbox_node x then
           (\<forall>t e. get (Under (Under (Under sandboxesRoot n) (tier_name t)) e) v =
             (if fst (TierOfEntry e) = t then map_of d e else None))
         else get (Under sandboxesRoot n) v = Some x)
     | _ \<Rightarrow> get (Under sandboxesRoot n) v = Some x"
      using get_tier_entry [OF N(1)] sorted_entries(2) [OF sandbox_ok_node(1) [OF ok True d]] True d
      by (simp del: get.simps)
  next
    case False
    then have "tier_node x = x" by (cases x) (simp_all add: tier_node_cases)
    with False g show "case x of
       Dir d \<Rightarrow> (if is_sandbox_node x then
           (\<forall>t e. get (Under (Under (Under sandboxesRoot n) (tier_name t)) e) v =
             (if fst (TierOfEntry e) = t then map_of d e else None))
         else get (Under sandboxesRoot n) v = Some x)
     | _ \<Rightarrow> get (Under sandboxesRoot n) v = Some x"
      by (cases x) (simp_all del: get.simps)
  qed
qed

theorem tier_migration_places_entries_witness:
  "get (Under (Under (Under sandboxesRoot ''box'') (tier_name TierHost)) ''note'')
     (world_of (Run (tier_promotion demo_tier) (run_all (tier_promotion demo_tier) [] demo_world, []))) = Some (File ''n'')"
proof -
  have x: "map_of demo_tree ''box'' = Some (Dir [(''environment.json'', File ''{}''), (''work'', Dir []), (''note'', File ''n'')])"
    by (simp add: demo_tree_def)
  have p: "plain ''box''" "''box'' \<noteq> treeMarkerName" by code_simp+
  have sb: "is_sandbox_node (Dir [(''environment.json'', File ''{}''), (''work'', Dir []), (''note'', File ''n'')])"
    by code_simp
  have t: "fst (TierOfEntry ''note'') = TierHost" by code_simp
  from tier_migration_places_entries [OF demo_adm demo_start x p, of "[]"]
  have "\<forall>t e. get (Under (Under (Under sandboxesRoot ''box'') (tier_name t)) e)
     (world_of (Run (tier_promotion demo_tier) (run_all (tier_promotion demo_tier) [] demo_world, []))) =
     (if fst (TierOfEntry e) = t then map_of [(''environment.json'', File ''{}''), (''work'', Dir []), (''note'', File ''n'')] e else None)"
    unfolding Let_def node.case if_P [OF sb] .
  note * = this [rule_format, of TierHost "''note''"]
  show ?thesis unfolding * if_P [OF t] by simp
qed

section \<open>Applying the migration\<close>

lemma TierApply_empty_plan:
  assumes "live w sandboxesName = None" and "stamp_of w = Inr (v, b)" and "v < int SchemaTiered"
  shows "let r = TierApply T d (w, []) in
    fst r = Ret no_report \<and> stamp_of (world_of r) = Inr (int SchemaTiered, True) \<and>
    live (world_of r) sandboxesName = None \<and>
    live (world_of r) (sandboxesName @ suffixOrig) = live w (sandboxesName @ suffixOrig)"
proof -
  have nd: "rename_ok (File x) (live w schemaStampName)" for x
    using assms(2) by (auto simp: stamp_of_def ReadSchemaVersion_def rename_ok_def split: option.splits node.splits)
  have new: "ReadSchemaVersion (Some (File (Itoa SchemaTiered))) = Inr (int SchemaTiered, True)"
    by (rule Itoa_small) (simp add: SchemaTiered_def)
  have names: "schemaStampName \<noteq> sandboxesName" "schemaStampName \<noteq> sandboxesName @ suffixOrig"
    by (simp_all add: schemaStampName_def sandboxesName_def promo_consts)
  have plan: "TierPlan T w = Inr \<lparr>MigratorName = [], Ops = []\<rparr>"
    using assms by (simp add: TierPlan_def live_sandbox_names_def sandboxesRoot_def)
  show ?thesis
    using assms nd new names plan
    by (simp add: TierApply_def io_bind_def io_seq_def io_get_def stampSchemaAdvancing_def read_stamp_def
        stamp_of_def io_ret_def AtomicWriteLive_def prim_def FsyncParent_def world_of_def Let_def)
qed

lemma replayable_tier:
  "replayable (buildTieredTree T Scratch)" "replayable (treeIsTiered t)"
  unfolding buildTieredTree_def build_entry_def buildTieredSandbox_def mkdir_tier_def verifyStagedTree_def
    verifyStagedRecords_def verifyStagedEntries_def read_record_def sandboxNames_def treeIsTiered_def
  by (auto intro!: replayable_bind replayable_seq replayable_each split: option.split)

lemma TierApply_runs:
  assumes "TierPlan T w = Inr plan" "Ops plan \<noteq> []" "fst (Authorize [plan] d)" "sameFS T"
  shows "\<exists>sz. TierApply T d (w, sch) = io_seq (Run (tier_promotion T))
     (io_seq (stampSchemaAdvancing SchemaTiered) (io_ret (tier_report plan sz))) (w, sch)"
  using assms by (cases "Authorize [plan] d") (auto simp: TierApply_def io_bind_def io_get_def)

lemma stamp_not_unit:
  "schemaStampName \<notin> {sandboxesName, sandboxesName @ suffixOrig, sandboxesName @ suffixNew}"
  by (simp add: schemaStampName_def sandboxesName_def promo_consts)

text \<open>C22: An interrupted promotion is stranded by the next run. For every acceptable tree there is a point
  at which the migration can die such that running the whole migration again, without any fault, succeeds
  with an empty report and stamps the realm as tiered although no sandboxes tree is in place: the
  original is still under its set-aside name, and since the realm now reads as current no later
  migration will move it back.\<close>

theorem TierApply_strands_interrupted_promotion:
  assumes "tier_adm T D" and "tier_start w D" and "stamp_of w = Inr (v, b)" and "v < int SchemaTiered"
    and "TierPlan T w = Inr plan" and "Ops plan \<noteq> []" and "fst (Authorize [plan] d)" and "sameFS T"
  shows "\<exists>sch. fst (TierApply T d (w, sch)) = Dead \<and>
    (let r = TierApply T d (world_of (TierApply T d (w, sch)), []) in
      fst r = Ret no_report \<and> stamp_of (world_of r) = Inr (int SchemaTiered, True) \<and>
      live (world_of r) sandboxesName = None \<and>
      live (world_of r) (sandboxesName @ suffixOrig) = Some (Dir D))"
proof -
  have init: "tier.st_init T w D w"
    using assms(2) by (simp add: tier_start_def tier.st_init_def tier.trio_def tier.frame_def)
  have "\<exists>sch. fst (Run (tier_promotion T) (w, sch)) = Dead \<and>
      tier.st_orig T w D (world_of (Run (tier_promotion T) (w, sch)))"
    by (rule tier.Run_dies_set_aside [OF assms(1) init]) (simp_all add: replayable_tier)
  then obtain sch where sch: "fst (Run (tier_promotion T) (w, sch)) = Dead"
      "tier.st_orig T w D (world_of (Run (tier_promotion T) (w, sch)))"
    by blast
  let ?u = "world_of (Run (tier_promotion T) (w, sch))"
  obtain sz where "TierApply T d (w, sch) = io_seq (Run (tier_promotion T))
     (io_seq (stampSchemaAdvancing SchemaTiered) (io_ret (tier_report plan sz))) (w, sch)"
    using TierApply_runs [OF assms(5-8)] by blast
  then have dead: "fst (TierApply T d (w, sch)) = Dead" "world_of (TierApply T d (w, sch)) = ?u"
    using sch(1) by (cases "Run (tier_promotion T) (w, sch)"; simp add: io_seq_def io_bind_def world_of_def)+
  have u: "live ?u sandboxesName = None" "live ?u (sandboxesName @ suffixOrig) = Some (Dir D)"
    "live ?u schemaStampName = live w schemaStampName"
    using sch(2) stamp_not_unit by (auto simp: tier.st_orig_def tier.trio_def tier.frame_def)
  then have "stamp_of ?u = Inr (v, b)" using assms(3) by (simp add: stamp_of_def)
  from TierApply_empty_plan [OF u(1) this assms(4), of T d] u(2) dead
  show ?thesis by (intro exI [of _ sch]) (simp add: Let_def)
qed

definition demo_plan :: Plan where
  "demo_plan = \<lparr>MigratorName = [], Ops = [mk_op ''tier sandbox box (unclassified entries moved to host/)'' AuthNone ''box'']\<rparr>"

lemma demo_TierPlan: "TierPlan demo_tier demo_world = Inr demo_plan"
  by code_simp

lemma demo_stamp: "stamp_of demo_world = Inr (5, True)"
  by code_simp

theorem TierApply_strands_interrupted_promotion_witness:
  "\<exists>sch. fst (TierApply demo_tier \<lparr>Yes = True, AbandonStoppedOverlay = False\<rparr> (demo_world, sch)) = Dead"
proof -
  have "Ops demo_plan \<noteq> []" "fst (Authorize [demo_plan] \<lparr>Yes = True, AbandonStoppedOverlay = False\<rparr>)"
    by (simp_all add: demo_plan_def Authorize_def mk_op_def)
  moreover have "sameFS demo_tier" "(5::int) < int SchemaTiered" by (simp_all add: demo_tier_def SchemaTiered_def)
  ultimately show ?thesis
    using TierApply_strands_interrupted_promotion [OF demo_adm demo_start demo_stamp _ demo_TierPlan] by blast
qed

text \<open>The stamp never precedes the data it certifies. When the plan has work to do and a run ends, by
  returning, failing or dying, the stamp is either as it was before, or the tiered tree is in place with
  the original in the trash.\<close>

theorem TierApply_stamp_is_true:
  assumes "tier_adm T D" and "tier_start w D" and "stamp_of w = Inr (v, b)" and "v < int SchemaTiered"
    and "TierPlan T w = Inr plan" and "Ops plan \<noteq> []"
  shows "let u = world_of (TierApply T d (w, sch)) in
    stamp_of u = stamp_of w \<or>
    (\<exists>N. live u sandboxesName = Some (Dir N) \<and> map_of N = tiered_tree D) \<and> trash_gone w D u"
proof (cases "fst (Authorize [plan] d) \<and> sameFS T")
  case False
  then have "world_of (TierApply T d (w, sch)) = w"
    using assms(5,6) by (cases "Authorize [plan] d") (auto simp: TierApply_def io_bind_def io_get_def io_fail_def world_of_def)
  then show ?thesis by (simp add: Let_def)
next
  case True
  let ?same = "\<lambda>u. live u schemaStampName = live w schemaStampName"
  let ?fin = "\<lambda>u. (\<exists>N. live u sandboxesName = Some (Dir N) \<and> map_of N = tiered_tree D) \<and> trash_gone w D u"
  have same: "tier.stages T w D u \<Longrightarrow> ?same u" for u
    using stages_frame [of T w D u] stamp_not_unit by (simp add: tier.frame_def)
  have fin: "tier.st_done T w D u \<Longrightarrow> ?fin u" for u
    by (auto simp: tier.st_done_def tier.finished_def tier.trio_def final_tiered_tree)
  have run: "spec (\<lambda>u. u = w) (Run (tier_promotion T)) (\<lambda>_. ?fin) ?same"
  proof (rule spec_conseq [OF tier.Run_spec [OF assms(1)]])
    fix u show "u = w \<Longrightarrow> tier.stages T w D u" using tier_start_stage [OF assms(2)] by simp
  qed (rule fin, assumption, rule same)
  have "keeps ?fin (stampSchemaAdvancing SchemaTiered)"
    by (rule keeps_stampSchemaAdvancing)
      (use stamp_not_unit in \<open>auto simp: trash_gone_def trash_entries_def\<close>)
  then have "keeps ?fin (io_seq (stampSchemaAdvancing SchemaTiered) (io_ret rep))" for rep :: Report
    by (intro keeps_seq) simp_all
  note rest = this
  obtain sz where eq: "TierApply T d (w, sch) = io_seq (Run (tier_promotion T))
     (io_seq (stampSchemaAdvancing SchemaTiered) (io_ret (tier_report plan sz))) (w, sch)"
    using TierApply_runs [OF assms(5,6)] True by blast
  obtain o1 w1 s1 where r: "Run (tier_promotion T) (w, sch) = (o1, w1, s1)" by (cases "Run (tier_promotion T) (w, sch)")
  have "good_end (\<lambda>_. ?fin) ?same sch (o1, w1, s1)" using specD [OF run refl, of sch] r by simp
  then show ?thesis
    using rest [of "tier_report plan sz"] r eq
    by (cases o1) (auto simp: Let_def io_seq_def io_bind_def world_of_def stamp_of_def keeps_def)
qed

theorem TierApply_stamp_is_true_witness:
  "let u = world_of (TierApply demo_tier \<lparr>Yes = True, AbandonStoppedOverlay = False\<rparr> (demo_world, [Succeed, Crash None])) in
    stamp_of u = Inr (5, True) \<or>
    (\<exists>N. live u sandboxesName = Some (Dir N) \<and> map_of N = tiered_tree demo_tree) \<and> trash_gone demo_world demo_tree u"
proof -
  have "Ops demo_plan \<noteq> []" "(5::int) < int SchemaTiered" by (simp_all add: demo_plan_def SchemaTiered_def)
  from TierApply_stamp_is_true [OF demo_adm demo_start demo_stamp this(2) demo_TierPlan this(1)]
  show ?thesis unfolding demo_stamp .
qed

section \<open>Refusals\<close>

lemma plan_op_running:
  "plan_op T w n = Inr op \<Longrightarrow> runningReason T w n = Inr reason \<Longrightarrow> reason \<noteq> [] \<Longrightarrow> Auth op = AuthBlocked"
  by (auto simp: plan_op_def mk_op_def split: sum.splits if_splits)

lemma plan_ops_mem:
  "n \<in> set names \<Longrightarrow> plan_ops T w names = Inr ops \<Longrightarrow> \<exists>op \<in> set ops. plan_op T w n = Inr op"
  by (induction names arbitrary: ops) (auto split: sum.splits)

lemma live_sandbox_names_mem:
  assumes "live w sandboxesName = Some (Dir D)" "map_of D n = Some x" "is_sandbox_node x"
  shows "\<exists>names. live_sandbox_names w = Inr names \<and> n \<in> set names"
proof -
  obtain d where d: "x = Dir d" using assms(3) is_sandbox_node_dir by blast
  have "isSandboxDir (Under sandboxesRoot n) w"
    using assms d by (simp add: isSandboxDir_def sandboxesRoot_def is_sandbox_node_def)
  moreover have "(n, x) \<in> set D" using assms(2) by (rule map_of_SomeD)
  ultimately show ?thesis
    using assms(1) d by (force simp: live_sandbox_names_def sandboxesRoot_def image_iff)
qed

text \<open>A running sandbox is never moved. If any sandbox of the tree has a live instance, applying the
  migration fails under every decision, even one that grants every approval, and changes nothing.\<close>

theorem TierApply_refuses_running:
  assumes "stamp_of w = Inr (v, b)" and "v < int SchemaTiered"
    and "live w sandboxesName = Some (Dir D)" and "map_of D n = Some x" and "is_sandbox_node x"
    and "runningReason T w n = Inr reason" and "reason \<noteq> []"
  shows "\<exists>e. TierApply T d (w, sch) = (Fail e, w, sch)"
proof -
  obtain names where names: "live_sandbox_names w = Inr names" "n \<in> set names"
    using live_sandbox_names_mem [OF assms(3-5)] by blast
  then have "names \<noteq> []" by auto
  show ?thesis
  proof (cases "TierPlan T w")
    case (Inl e)
    then show ?thesis by (simp add: TierApply_def io_bind_def io_get_def io_fail_def)
  next
    case (Inr plan)
    then obtain ops more where ops: "plan_ops T w names = Inr ops" "Ops plan = ops @ more"
      using assms(1,2) names(1) \<open>names \<noteq> []\<close>
      by (fastforce simp: TierPlan_def split: sum.splits if_splits)
    obtain op where "op \<in> set (Ops plan)" "Auth op = AuthBlocked"
      using plan_ops_mem [OF names(2) ops(1)] plan_op_running [OF _ assms(6,7)] ops(2) by fastforce
    then have "\<not> fst (Authorize [plan] d)" "Ops plan \<noteq> []" by (auto simp: Authorize_iff intro!: bexI [of _ op])
    then show ?thesis using Inr
      by (cases "Authorize [plan] d") (auto simp: TierApply_def io_bind_def io_get_def io_fail_def)
  qed
qed

theorem TierApply_refuses_running_witness:
  "\<exists>e. TierApply (demo_tier\<lparr>detect := (\<lambda>_ _. Inr StatusIdle)\<rparr>) \<lparr>Yes = True, AbandonStoppedOverlay = True\<rparr> (demo_world, [])
     = (Fail e, demo_world, [])"
proof (rule TierApply_refuses_running [OF demo_stamp])
  show "live demo_world sandboxesName = Some (Dir demo_tree)" using demo_start by (simp add: tier_start_def)
  show "map_of demo_tree ''box'' = Some (snd (hd demo_tree))" by (simp add: demo_tree_def)
  show "is_sandbox_node (snd (hd demo_tree))" by code_simp
  show "runningReason (demo_tier\<lparr>detect := (\<lambda>_ _. Inr StatusIdle)\<rparr>) demo_world ''box'' =
    Inr ''sandbox box is running; stop it and re-run migrate''" by code_simp
  show "(5::int) < int SchemaTiered" by (simp add: SchemaTiered_def)
qed simp

text \<open>The free-space guard. When the plan does not block on space, the free bytes really are twice the
  size of the tree, for every tree below half the range of the 64-bit counter.\<close>

theorem spaceOp_bound:
  assumes "get sandboxesRoot w = Some x" and "FreeBytes T = Some free" and "unat (TreeSize x) < 2 ^ 63"
  shows "\<exists>op report. spaceOp T w = Inr (op, report) \<and>
    (Auth op = AuthBlocked \<longleftrightarrow> unat free < 2 * unat (TreeSize x)) \<and>
    (report \<longleftrightarrow> Auth op = AuthBlocked \<or> unat spaceReportFloor \<le> unat (TreeSize x))"
proof -
  have "unat (TreeSize x * 2) = 2 * unat (TreeSize x)"
    using assms(3) by (simp add: unat_word_ariths)
  then show ?thesis
    using assms(1,2) by (auto simp: spaceOp_def Let_def mk_op_def word_less_nat_alt word_le_nat_alt)
qed

theorem spaceOp_bound_witness:
  "\<exists>op report. spaceOp demo_tier demo_world = Inr (op, report) \<and> Auth op \<noteq> AuthBlocked"
proof -
  have g: "get sandboxesRoot demo_world = Some (Dir demo_tree)"
    by (simp add: sandboxesRoot_def demo_world_def sandboxesName_def schemaStampName_def)
  have f: "FreeBytes demo_tier = Some 1000000" by (simp add: demo_tier_def)
  have s: "TreeSize (Dir demo_tree) = 3" by (simp add: demo_tree_def)
  show ?thesis using spaceOp_bound [OF g f] unfolding s by auto
qed

end
