(* ===== verification/RealmPass.thy ===== *)
theory RealmPass
  imports Promotion DirRules
begin

text \<open>
  Per-sandbox passes over the realm. Several migrations walk the sandboxes directory and convert one
  sandbox after the other (\<open>MigrateAgentConfigs\<close>, the launch-prefix backfill of the sealed ladder).
  The locale \<open>sandbox_pass\<close> states what such a pass needs of its step, a crash-safe conversion of one
  sandbox, and proves from it that the whole pass is crash safe and finishes when it is run again.
\<close>

section \<open>The loop\<close>

abbreviation sandboxes :: path where "sandboxes \<equiv> Live ''sandboxes''"

definition each_sandbox :: "(path \<Rightarrow> unit io) \<Rightarrow> unit io" where
  "each_sandbox f = io_bind (os_exists sandboxes) (\<lambda>present.
     if \<not> present then io_ret ()
     else io_bind (os_ReadDir ''read sandboxes dir'' sandboxes) (\<lambda>entries.
       io_each (\<lambda>e. if \<not> is_dir (snd e) then io_ret () else f (Under sandboxes (fst e))) entries))"

text \<open>Runs of a program one after the other, each under its own schedule.\<close>

fun rerun :: "unit io \<Rightarrow> verdict list list \<Rightarrow> world \<Rightarrow> world" where
  "rerun m [] w = w"
| "rerun m (sch # schs) w = rerun m schs (world_of (m (w, sch)))"

text \<open>An interrupted atomic write leaves nothing but temporary files: \<open>m\<close> is \<open>m0\<close> outside the names
  \<open>X\<close> and those temporaries.\<close>

definition same_but :: "string set \<Rightarrow> (string \<rightharpoonup> node) \<Rightarrow> (string \<rightharpoonup> node) \<Rightarrow> bool" where
  "same_but X m0 m \<longleftrightarrow> (\<forall>k. k \<notin> X \<longrightarrow> \<not> is_write_temp k \<longrightarrow> m k = m0 k)"

lemma same_but_refl [simp]: "same_but X m m"
  by (simp add: same_but_def)

lemma same_but_upd: "same_but X m0 m \<Longrightarrow> k \<in> X \<or> is_write_temp k \<Longrightarrow> same_but X m0 (m(k := x))"
  by (auto simp: same_but_def)

lemma is_write_temp_temp_name [simp]: "is_write_temp (temp_name base names)"
  by (simp add: is_write_temp_def temp_name_write_temp)

section \<open>The contract of a step\<close>

text \<open>\<open>reached m0 m\<close>: a sandbox whose entries were \<open>m0\<close> may be found as \<open>m\<close> after interrupted
  conversions. \<open>final m0 m\<close>: it is converted. \<open>acceptable m0\<close>: the conversion applies to it.\<close>

locale sandbox_pass =
  fixes step :: "path \<Rightarrow> unit io"
    and acceptable :: "(string \<rightharpoonup> node) \<Rightarrow> bool"
    and reached final :: "(string \<rightharpoonup> node) \<Rightarrow> (string \<rightharpoonup> node) \<Rightarrow> bool"
  assumes reached_refl: "acceptable m0 \<Longrightarrow> reached m0 m0"
    and step_spec: "slot t w0 \<Longrightarrow> acceptable m0 \<Longrightarrow>
      spec (dir_at t w0 (reached m0)) (step t) (\<lambda>_. dir_at t w0 (\<lambda>m. reached m0 m \<and> final m0 m))
        (dir_at t w0 (reached m0))"
begin

definition entry_state :: "bool \<Rightarrow> node option \<Rightarrow> node option \<Rightarrow> bool" where
  "entry_state b x y = (case x of
       Some (Dir s) \<Rightarrow> (\<exists>s'. y = Some (Dir s') \<and> distinct (map fst s') \<and> reached (map_of s) (map_of s') \<and>
         (b \<longrightarrow> final (map_of s) (map_of s')))
     | _ \<Rightarrow> y = x)"

text \<open>The realm started as \<open>D\<close> in the world \<open>w0\<close>; the sandboxes of \<open>F\<close> are converted.\<close>

definition realm :: "world \<Rightarrow> dir \<Rightarrow> string set \<Rightarrow> world \<Rightarrow> bool" where
  "realm w0 D F w \<longleftrightarrow> (\<exists>D'. w = put sandboxes (Some (Dir D')) w0 \<and> distinct (map fst D') \<and>
     (\<forall>n. entry_state (n \<in> F) (map_of D n) (map_of D' n)))"

definition pass_ready :: "dir \<Rightarrow> bool" where
  "pass_ready D \<longleftrightarrow> distinct (map fst D) \<and>
     (\<forall>n s. map_of D n = Some (Dir s) \<longrightarrow> acceptable (map_of s) \<and> distinct (map fst s))"

lemma entry_state_weaken: "entry_state b x y \<Longrightarrow> (b' \<Longrightarrow> b) \<Longrightarrow> entry_state b' x y"
  by (auto simp: entry_state_def split: option.splits node.splits)

lemma realm_weaken: "realm w0 D F w \<Longrightarrow> F' \<subseteq> F \<Longrightarrow> realm w0 D F' w"
  unfolding realm_def by (elim exE conjE, rule exI, intro conjI allI, assumption, assumption)
    (rule entry_state_weaken, erule spec, blast)

lemma realm_skip:
  assumes "realm w0 D F w" and "\<And>n s. n \<in> F' - F \<Longrightarrow> map_of D n \<noteq> Some (Dir s)"
  shows "realm w0 D F' w"
proof -
  have "entry_state (n \<in> F') (map_of D n) y" if "entry_state (n \<in> F) (map_of D n) y" for n y
  proof (cases "n \<in> F' - F")
    case True
    then show ?thesis using assms(2) [OF True] that
      by (auto simp: entry_state_def split: option.splits node.splits)
  next
    case False
    then show ?thesis using that by (auto intro: entry_state_weaken)
  qed
  with assms(1) show ?thesis unfolding realm_def by blast
qed

lemma realm_start:
  "pass_ready D \<Longrightarrow> live w0 ''sandboxes'' = Some (Dir D) \<Longrightarrow> realm w0 D {} w0"
  unfolding realm_def
  by (rule exI [of _ D]) (auto simp: pass_ready_def entry_state_def fun_upd_idem reached_refl
      split: option.split node.split)

lemma realm_update:
  assumes "realm w0 D F w" and "map_of D n = Some (Dir s)"
    and "dir_at (Under sandboxes n) w (\<lambda>m. reached (map_of s) m \<and> (n \<in> F' \<longrightarrow> final (map_of s) m)) v"
    and "F' \<subseteq> insert n F"
  shows "realm w0 D F' v"
proof -
  obtain D' where D': "w = put sandboxes (Some (Dir D')) w0" "distinct (map fst D')"
    "\<forall>k. entry_state (k \<in> F) (map_of D k) (map_of D' k)"
    using assms(1) unfolding realm_def by blast
  obtain N where N: "distinct (map fst N)" "reached (map_of s) (map_of N)"
    "n \<in> F' \<longrightarrow> final (map_of s) (map_of N)" "v = put (Under sandboxes n) (Some (Dir N)) w"
    using assms(3) by (auto elim: dir_atE)
  have "v = put sandboxes (Some (Dir (set_entry n (Some (Dir N)) D'))) w0"
    using N(4) D'(1) by simp
  moreover have "entry_state (k \<in> F') (map_of D k) (map_of (set_entry n (Some (Dir N)) D') k)" for k
  proof (cases "k = n")
    case True
    then show ?thesis using assms(2) N by (simp add: entry_state_def)
  next
    case False
    then show ?thesis using D'(3) assms(4) entry_state_weaken [of "k \<in> F" "map_of D k" "map_of D' k" "k \<in> F'"] by auto
  qed
  ultimately show ?thesis
    unfolding realm_def using D'(2) by (intro exI [of _ "set_entry n (Some (Dir N)) D'"]) auto
qed

lemma realm_dir_at:
  assumes "realm w0 D F w" and "map_of D n = Some (Dir s)"
  shows "slot (Under sandboxes n) w" "dir_at (Under sandboxes n) w (reached (map_of s)) w"
proof -
  obtain D' where D': "w = put sandboxes (Some (Dir D')) w0" "entry_state (n \<in> F) (map_of D n) (map_of D' n)"
    using assms(1) unfolding realm_def by blast
  have l: "live w ''sandboxes'' = Some (Dir D')" using D'(1) by simp
  obtain s' where s': "map_of D' n = Some (Dir s')" "distinct (map fst s')" "reached (map_of s) (map_of s')"
    using D'(2) assms(2) by (auto simp: entry_state_def)
  show "slot (Under sandboxes n) w" by (rule slot_under) (simp_all add: l)
  have "w = put (Under sandboxes n) (Some (Dir s')) w"
    using l s'(1) by (simp add: set_entry_def update_triv fun_upd_idem)
  with s'(2,3) show "dir_at (Under sandboxes n) w (reached (map_of s)) w" by (rule dir_atI)
qed

lemma step_realm:
  assumes "pass_ready D" and "map_of D n = Some (Dir s)"
  shows "spec (realm w0 D F) (step (Under sandboxes n)) (\<lambda>_. realm w0 D (insert n F)) (realm w0 D {})"
proof (rule spec_fixed)
  fix w assume w: "realm w0 D F w"
  have acc: "acceptable (map_of s)" using assms by (auto simp: pass_ready_def)
  note at = realm_dir_at [OF w assms(2)]
  show "spec (\<lambda>v. v = w) (step (Under sandboxes n)) (\<lambda>_. realm w0 D (insert n F)) (realm w0 D {})"
  proof (rule spec_conseq [OF step_spec [OF at(1) acc]])
    fix v show "v = w \<Longrightarrow> dir_at (Under sandboxes n) w (reached (map_of s)) v" using at(2) by simp
  next
    fix a v assume "dir_at (Under sandboxes n) w (\<lambda>m. reached (map_of s) m \<and> final (map_of s) m) v"
    then show "realm w0 D (insert n F) v"
      by (intro realm_update [OF w assms(2)]) (auto elim: dir_at_mono)
  next
    fix v assume "dir_at (Under sandboxes n) w (reached (map_of s)) v"
    then show "realm w0 D {} v"
      by (intro realm_update [OF w assms(2)]) (auto elim: dir_at_mono)
  qed
qed

lemma pass_entries:
  assumes "realm w0 D F w" and "live w ''sandboxes'' = Some (Dir X)"
  shows "map_of D n = Some (Dir s) \<Longrightarrow> \<exists>s'. map_of X n = Some (Dir s')"
    and "map_of X n = Some (Dir s') \<Longrightarrow> \<exists>s. map_of D n = Some (Dir s)"
proof -
  obtain D' where D': "w = put sandboxes (Some (Dir D')) w0" "\<forall>n. entry_state (n \<in> F) (map_of D n) (map_of D' n)"
    using assms(1) unfolding realm_def by blast
  have X: "X = D'" using D'(1) assms(2) by simp
  have e: "entry_state (n \<in> F) (map_of D n) (map_of X n)" using D'(2) X by simp
  then show "map_of D n = Some (Dir s) \<Longrightarrow> \<exists>s'. map_of X n = Some (Dir s')"
    and "map_of X n = Some (Dir s') \<Longrightarrow> \<exists>s. map_of D n = Some (Dir s)"
    by (auto simp: entry_state_def split: option.splits node.splits)
qed

lemma each_sandbox_spec:
  assumes "pass_ready D"
  shows "spec (realm w0 D {}) (each_sandbox step) (\<lambda>_. realm w0 D UNIV) (realm w0 D {})"
proof (rule spec_fixed)
  fix w assume w: "realm w0 D {} w"
  obtain X where X: "live w ''sandboxes'' = Some (Dir X)" "distinct (map fst X)"
    using w unfolding realm_def by auto
  let ?es = "sort_key fst X"
  let ?f = "\<lambda>e. if \<not> is_dir (snd e) then io_ret () else step (Under sandboxes (fst e))"
  have dist: "distinct (map fst ?es)" using X(2) by (metis distinct_map distinct_sort set_sort)
  have skip: "realm w0 D (insert n F) v" if "realm w0 D F v" "\<nexists>s. map_of D n = Some (Dir s)" for n F v
    by (rule realm_skip [OF that(1)]) (use that(2) in auto)
  have "spec (realm w0 D {}) (io_each ?f ?es) (\<lambda>_. realm w0 D (fst ` set ?es)) (realm w0 D {})"
  proof (rule spec_each [where I = "\<lambda>ys. realm w0 D (fst ` set ys)", simplified image_empty list.set])
    fix ys e zs assume "?es = ys @ e # zs"
    then have "e \<in> set X" by (metis in_set_conv_decomp set_sort)
    then have e: "map_of X (fst e) = Some (snd e)" using X(2) by (metis map_of_is_SomeI prod.collapse)
    show "spec (realm w0 D (fst ` set ys)) (?f e) (\<lambda>_. realm w0 D (fst ` set (ys @ [e]))) (realm w0 D {})"
    proof (cases "is_dir (snd e)")
      case True
      then obtain s' where "map_of X (fst e) = Some (Dir s')" using e by (cases "snd e") auto
      from pass_entries(2) [OF w X(1) this] obtain s where "map_of D (fst e) = Some (Dir s)" by blast
      from step_realm [OF assms this, of w0 "fst ` set ys"] True show ?thesis by simp
    next
      case False
      then have "\<nexists>s. map_of D (fst e) = Some (Dir s)" using pass_entries(1) [OF w X(1), of "fst e"] e by fastforce
      with False show ?thesis by (auto intro: spec_ret skip)
    qed
  qed
  then have loop: "spec (\<lambda>v. v = w) (io_each ?f ?es) (\<lambda>_. realm w0 D UNIV) (realm w0 D {})"
  proof (rule spec_conseq)
    fix a v assume r: "realm w0 D (fst ` set ?es) v"
    have "\<nexists>s. map_of D n = Some (Dir s)" if "n \<notin> fst ` set ?es" for n
      using pass_entries(1) [OF w X(1), of n] that map_of_eq_None_iff [of X n] by fastforce
    with r show "realm w0 D UNIV v" by (auto intro: realm_skip)
  qed (use w in auto)
  have get: "get sandboxes w = Some (Dir X)" using X(1) by simp
  have read: "spec (\<lambda>v. v = w) (io_bind (os_ReadDir ''read sandboxes dir'' sandboxes) (io_each ?f))
      (\<lambda>_. realm w0 D UNIV) (realm w0 D {})"
    by (rule exact_bind [where c = ?es]) (rule exact_ReadDir [OF get], rule w, rule loop)
  show "spec (\<lambda>v. v = w) (each_sandbox step) (\<lambda>_. realm w0 D UNIV) (realm w0 D {})"
    unfolding each_sandbox_def
    by (rule exact_bind [where c = True], use exact_exists [of w sandboxes] get in simp) (use read in simp)
qed

lemma rerun_realm:
  assumes "pass_ready D" and "realm w0 D {} w"
  shows "realm w0 D {} (rerun (each_sandbox step) schs w)"
  using assms(2)
proof (induction schs arbitrary: w)
  case (Cons sch schs)
  have "realm w0 D {} (world_of (each_sandbox step (w, sch)))"
    using spec_runD [OF each_sandbox_spec [OF assms(1)] Cons.prems, of sch]
    by (auto split: outcome.splits intro: realm_weaken)
  then show ?case using Cons.IH by simp
qed simp

lemma pass_result:
  assumes "pass_ready D" and "live w0 ''sandboxes'' = Some (Dir D)" and "map_of D n = Some (Dir s)"
  shows "\<exists>s'. get (Under sandboxes n) (rerun (each_sandbox step) schs w0) = Some (Dir s') \<and>
      reached (map_of s) (map_of s')"
    and "fst (each_sandbox step (rerun (each_sandbox step) schs w0, [])) = Ret () \<and>
      (\<exists>s'. get (Under sandboxes n) (world_of (each_sandbox step (rerun (each_sandbox step) schs w0, []))) = Some (Dir s') \<and>
        reached (map_of s) (map_of s') \<and> final (map_of s) (map_of s'))"
proof -
  let ?w = "rerun (each_sandbox step) schs w0"
  note r = rerun_realm [OF assms(1) realm_start [OF assms(1,2)], of schs]
  from r assms(3) show "\<exists>s'. get (Under sandboxes n) ?w = Some (Dir s') \<and> reached (map_of s) (map_of s')"
    unfolding realm_def entry_state_def by (auto dest!: spec [of _ n])
  from spec_runD [OF each_sandbox_spec [OF assms(1)] r, of "[]"]
  have ok: "fst (each_sandbox step (?w, [])) = Ret ()" "realm w0 D UNIV (world_of (each_sandbox step (?w, [])))"
    by (auto split: outcome.splits)
  from ok(2) assms(3)
  have "\<exists>s'. get (Under sandboxes n) (world_of (each_sandbox step (?w, []))) = Some (Dir s') \<and>
      reached (map_of s) (map_of s') \<and> final (map_of s) (map_of s')"
    unfolding realm_def entry_state_def by (auto dest!: spec [of _ n])
  with ok(1) show "fst (each_sandbox step (?w, [])) = Ret () \<and>
      (\<exists>s'. get (Under sandboxes n) (world_of (each_sandbox step (?w, []))) = Some (Dir s') \<and>
        reached (map_of s) (map_of s') \<and> final (map_of s) (map_of s'))" by blast
qed

end

end
