(* ===== verification/AgentConfigs.thy ===== *)
theory AgentConfigs
  imports Environment RealmPass
begin

text \<open>
  The records beside \<open>environment.json\<close>: \<open>agent.json\<close>
  (\<open>internal/orchestrator/agentcfg\<close>), \<open>netpolicy.json\<close> (\<open>internal/netpolicycfg\<close>) and
  \<open>sandbox-state.json\<close> (\<open>store/sandbox_state.go\<close>), and the migration of
  \<open>internal/orchestrator/migrate_agentcfg.go\<close> that moves the agent and network fields out of a record
  below version 3 into them. The JSON codecs are parameters.
\<close>

section \<open>The records\<close>

record AgentConfig =
  ACVersion :: int
  AgentType :: string
  Model :: string

record Netpolicy =
  NPVersion :: int
  NPMode :: string
  NPAllow :: "string list"

record SandboxState =
  AgentFilesInitialized :: bool
  OnCreateCommandsDone :: bool

record 'a codec =
  enc :: "'a \<Rightarrow> string"
  dec :: "string \<Rightarrow> 'a option"

definition agentcfg_schemaVersion :: int where "agentcfg_schemaVersion = 1"
definition netpolicycfg_schemaVersion :: int where "netpolicycfg_schemaVersion = 1"

definition agentcfg_SaveTo :: "AgentConfig codec \<Rightarrow> path \<Rightarrow> string \<Rightarrow> AgentConfig \<Rightarrow> unit io" where
  "agentcfg_SaveTo C d base cfg =
     AtomicWriteFile ''write agent.json'' d base (enc C (cfg\<lparr>ACVersion := agentcfg_schemaVersion\<rparr>))"

definition agentcfg_Save :: "AgentConfig codec \<Rightarrow> path \<Rightarrow> AgentConfig \<Rightarrow> unit io" where
  "agentcfg_Save C d cfg =
     io_seq (EnsureHostTier d) (agentcfg_SaveTo C (Under d HostTierName) AgentConfigFileName cfg)"

definition load_record :: "string \<Rightarrow> 'a codec \<Rightarrow> 'a \<Rightarrow> path \<Rightarrow> 'a io" where
  "load_record msg C zero p = io_bind (os_ReadFile msg p) (\<lambda>r. case r of
       None \<Rightarrow> io_ret zero
     | Some data \<Rightarrow> (case dec C data of None \<Rightarrow> io_fail msg | Some v \<Rightarrow> io_ret v))"

definition agentcfg_Load :: "AgentConfig codec \<Rightarrow> path \<Rightarrow> AgentConfig io" where
  "agentcfg_Load C d = load_record ''agent.json'' C \<lparr>ACVersion = 0, AgentType = [], Model = []\<rparr>
     (Under (Under d HostTierName) AgentConfigFileName)"

definition netpolicycfg_SaveTo :: "Netpolicy codec \<Rightarrow> path \<Rightarrow> string \<Rightarrow> Netpolicy \<Rightarrow> unit io" where
  "netpolicycfg_SaveTo C d base np =
     AtomicWriteFile ''write netpolicy.json'' d base (enc C (np\<lparr>NPVersion := netpolicycfg_schemaVersion\<rparr>))"

definition netpolicycfg_Save :: "Netpolicy codec \<Rightarrow> path \<Rightarrow> Netpolicy \<Rightarrow> unit io" where
  "netpolicycfg_Save C d np =
     io_seq (EnsureHostTier d) (netpolicycfg_SaveTo C (Under d HostTierName) NetpolicyFileName np)"

definition netpolicycfg_Load :: "Netpolicy codec \<Rightarrow> path \<Rightarrow> Netpolicy io" where
  "netpolicycfg_Load C d = load_record ''netpolicy.json'' C \<lparr>NPVersion = 0, NPMode = [], NPAllow = []\<rparr>
     (Under (Under d HostTierName) NetpolicyFileName)"

definition SaveSandboxState :: "SandboxState codec \<Rightarrow> path \<Rightarrow> SandboxState \<Rightarrow> unit io" where
  "SaveSandboxState C d state =
     io_seq (EnsureHostTier d)
       (AtomicWriteFile ''write sandbox-state.json'' (Under d HostTierName) SandboxStateFileName (enc C state))"

definition LoadSandboxState :: "SandboxState codec \<Rightarrow> path \<Rightarrow> SandboxState io" where
  "LoadSandboxState C d = load_record ''sandbox-state.json'' C
     \<lparr>AgentFilesInitialized = False, OnCreateCommandsDone = False\<rparr>
     (Under (Under d HostTierName) SandboxStateFileName)"

section \<open>The migration\<close>

text \<open>The fields of an old record that move, and the codecs the migration uses.\<close>

record legacy_record =
  LVersion :: int
  LAgentType :: string
  LModel :: string
  LNetworkMode :: string
  LNetworkAllow :: "string list"

record agent_env =
  env_json :: json_env
  agent_codec :: "AgentConfig codec"
  net_codec :: "Netpolicy codec"
  legacy_of :: "string \<Rightarrow> legacy_record option"
  backends :: "string \<Rightarrow> bool option"

definition agent_of :: "legacy_record \<Rightarrow> AgentConfig" where
  "agent_of l = \<lparr>ACVersion = 0, AgentType = LAgentType l, Model = LModel l\<rparr>"

definition net_of :: "legacy_record \<Rightarrow> Netpolicy" where
  "net_of l = \<lparr>NPVersion = 0, NPMode = LNetworkMode l, NPAllow = LNetworkAllow l\<rparr>"

definition migrateAgentConfigRecord :: "agent_env \<Rightarrow> path \<Rightarrow> unit io" where
  "migrateAgentConfigRecord E d =
     io_bind (os_ReadFile ''read environment.json'' (Under d EnvironmentFileName)) (\<lambda>r. case r of
       None \<Rightarrow> io_ret ()
     | Some data \<Rightarrow> (case legacy_of E data of
         None \<Rightarrow> io_fail ''parse environment.json''
       | Some l \<Rightarrow>
           if LVersion l \<ge> metaVersion then io_ret ()
           else io_seq (agentcfg_SaveTo (agent_codec E) d AgentConfigFileName (agent_of l))
             (io_seq (netpolicycfg_SaveTo (net_codec E) d NetpolicyFileName (net_of l))
               (case unmarshal (env_json E) data of
                  None \<Rightarrow> io_fail ''parse environment.json''
                | Some m \<Rightarrow> (case migrate (backends E) m of
                    Inl e \<Rightarrow> io_fail e
                  | Inr m' \<Rightarrow> SaveEnvironmentTo (env_json E) d EnvironmentFileName m')))))"

definition MigrateAgentConfigs :: "agent_env \<Rightarrow> unit io" where
  "MigrateAgentConfigs E = each_sandbox (migrateAgentConfigRecord E)"

section \<open>One sandbox\<close>

text \<open>What the conversion of a record makes: the new record and its two siblings.\<close>

definition new_files :: "agent_env \<Rightarrow> string \<Rightarrow> (string \<times> string \<times> string) option" where
  "new_files E data = (case legacy_of E data of
       None \<Rightarrow> None
     | Some l \<Rightarrow> (case unmarshal (env_json E) data of
         None \<Rightarrow> None
       | Some m \<Rightarrow> (case migrate (backends E) m of
           Inl e \<Rightarrow> None
         | Inr m' \<Rightarrow> Some (marshal (env_json E) (m'\<lparr>Version := metaVersion\<rparr>),
             enc (agent_codec E) ((agent_of l)\<lparr>ACVersion := agentcfg_schemaVersion\<rparr>),
             enc (net_codec E) ((net_of l)\<lparr>NPVersion := netpolicycfg_schemaVersion\<rparr>)))))"

definition below_v3 :: "agent_env \<Rightarrow> string \<Rightarrow> bool" where
  "below_v3 E data \<longleftrightarrow> (case legacy_of E data of Some l \<Rightarrow> LVersion l < metaVersion | None \<Rightarrow> False)"

definition moved_names :: "string set" where
  "moved_names = {EnvironmentFileName, AgentConfigFileName, NetpolicyFileName}"

text \<open>A sandbox the migration applies to: it has no record, a record at version 3, or an older record
  that parses and whose conversion is read back at version 3.\<close>

definition converts :: "agent_env \<Rightarrow> string \<Rightarrow> bool" where
  "converts E data \<longleftrightarrow> (case new_files E data of
       None \<Rightarrow> False
     | Some (env, _) \<Rightarrow> (case legacy_of E env of Some l \<Rightarrow> LVersion l = metaVersion | None \<Rightarrow> False))"

definition migratable :: "agent_env \<Rightarrow> (string \<rightharpoonup> node) \<Rightarrow> bool" where
  "migratable E m \<longleftrightarrow> not_dir (m AgentConfigFileName) \<and> not_dir (m NetpolicyFileName) \<and>
     (case m EnvironmentFileName of
        None \<Rightarrow> True
      | Some (File data) \<Rightarrow> legacy_of E data \<noteq> None \<and> (below_v3 E data \<longrightarrow> converts E data)
      | _ \<Rightarrow> False)"

definition has_moved :: "(string \<times> string \<times> string) \<Rightarrow> (string \<rightharpoonup> node) \<Rightarrow> bool" where
  "has_moved fs m = (case fs of (env, ag, net) \<Rightarrow> m EnvironmentFileName = Some (File env) \<and>
     m AgentConfigFileName = Some (File ag) \<and> m NetpolicyFileName = Some (File net))"

definition old_record :: "agent_env \<Rightarrow> (string \<rightharpoonup> node) \<Rightarrow> string option" where
  "old_record E m = (case m EnvironmentFileName of
       Some (File data) \<Rightarrow> if below_v3 E data then Some data else None
     | _ \<Rightarrow> None)"

text \<open>The state in which interrupted conversions leave a sandbox: nothing but the three files and stray
  temporaries differs, and the old record is there as it was or all three new files are.\<close>

definition moving :: "agent_env \<Rightarrow> (string \<rightharpoonup> node) \<Rightarrow> (string \<rightharpoonup> node) \<Rightarrow> bool" where
  "moving E m0 m \<longleftrightarrow> (case old_record E m0 of
       None \<Rightarrow> m = m0
     | Some data \<Rightarrow> same_but moved_names m0 m \<and> not_dir (m AgentConfigFileName) \<and> not_dir (m NetpolicyFileName) \<and>
         (m EnvironmentFileName = Some (File data) \<or> has_moved (the (new_files E data)) m))"

definition moved :: "agent_env \<Rightarrow> (string \<rightharpoonup> node) \<Rightarrow> (string \<rightharpoonup> node) \<Rightarrow> bool" where
  "moved E m0 m \<longleftrightarrow> (case old_record E m0 of
       None \<Rightarrow> m = m0
     | Some data \<Rightarrow> has_moved (the (new_files E data)) m)"

lemma not_temp [simp]:
  "\<not> is_write_temp EnvironmentFileName" "\<not> is_write_temp AgentConfigFileName" "\<not> is_write_temp NetpolicyFileName"
  by (simp_all add: is_write_temp_def HasPrefix_def EnvironmentFileName_def AgentConfigFileName_def NetpolicyFileName_def)

lemma moved_names_distinct [simp]:
  "EnvironmentFileName \<noteq> AgentConfigFileName" "EnvironmentFileName \<noteq> NetpolicyFileName"
  "AgentConfigFileName \<noteq> NetpolicyFileName" "AgentConfigFileName \<noteq> EnvironmentFileName"
  "NetpolicyFileName \<noteq> EnvironmentFileName" "NetpolicyFileName \<noteq> AgentConfigFileName"
  by (simp_all add: EnvironmentFileName_def AgentConfigFileName_def NetpolicyFileName_def)

lemma temp_not_moved [simp]:
  "temp_name b ns \<noteq> EnvironmentFileName" "temp_name b ns \<noteq> AgentConfigFileName" "temp_name b ns \<noteq> NetpolicyFileName"
  using is_write_temp_temp_name not_temp by metis+

text \<open>The state before the record itself is rewritten; \<open>A\<close> holds of the siblings written so far.\<close>

definition before_move :: "(string \<rightharpoonup> node) \<Rightarrow> string \<Rightarrow> ((string \<rightharpoonup> node) \<Rightarrow> bool) \<Rightarrow> (string \<rightharpoonup> node) \<Rightarrow> bool" where
  "before_move m0 data A m \<longleftrightarrow> same_but moved_names m0 m \<and> not_dir (m AgentConfigFileName) \<and>
     not_dir (m NetpolicyFileName) \<and> m EnvironmentFileName = Some (File data) \<and> A m"

lemma before_move_moving:
  "old_record E m0 = Some data \<Longrightarrow> before_move m0 data A m \<Longrightarrow> moving E m0 m"
  by (auto simp: before_move_def moving_def)

lemma before_move_temp:
  "old_record E m0 = Some data \<Longrightarrow> before_move m0 data A m \<Longrightarrow> n = temp_name b ns \<Longrightarrow> moving E m0 (m(n := x))"
  by (auto simp: before_move_def moving_def temp_not_moved [symmetric] intro!: same_but_upd)

lemma write_sibling:
  assumes "slot t w0" and "old_record E m0 = Some data"
    and "base = AgentConfigFileName \<or> base = NetpolicyFileName"
    and "\<And>m. A m \<Longrightarrow> A' (m(base \<mapsto> File out))"
  shows "spec (dir_at t w0 (before_move m0 data A)) (AtomicWriteFile msg t base out)
    (\<lambda>_. dir_at t w0 (before_move m0 data A')) (dir_at t w0 (moving E m0))"
proof (rule dir_AtomicWriteFile [OF assms(1)])
  fix m assume m: "before_move m0 data A m"
  then show "not_dir (m base)" using assms(3) by (auto simp: before_move_def)
  show "before_move m0 data A' (m(base \<mapsto> File out))"
    using m assms(3,4) by (auto simp: before_move_def moved_names_def intro!: same_but_upd)
  then show "moving E m0 (m(base \<mapsto> File out))" by (rule before_move_moving [OF assms(2)])
qed (rule before_move_temp [OF assms(2)])

lemma write_record:
  assumes "slot t w0" and "old_record E m0 = Some data" and "new_files E data = Some (env, ag, net)"
  shows "spec (dir_at t w0 (before_move m0 data (\<lambda>m. m AgentConfigFileName = Some (File ag) \<and>
      m NetpolicyFileName = Some (File net)))) (AtomicWriteFile msg t EnvironmentFileName env)
    (\<lambda>_. dir_at t w0 (\<lambda>m. moving E m0 m \<and> moved E m0 m)) (dir_at t w0 (moving E m0))"
    (is "spec (dir_at t w0 (before_move m0 data ?A)) _ _ _")
proof (rule dir_AtomicWriteFile [OF assms(1)])
  fix m assume m: "before_move m0 data ?A m"
  then show "not_dir (m EnvironmentFileName)" by (simp add: before_move_def)
  have "has_moved (env, ag, net) (m(EnvironmentFileName \<mapsto> File env))"
    using m by (simp add: before_move_def has_moved_def)
  with m show "moving E m0 (m(EnvironmentFileName \<mapsto> File env)) \<and> moved E m0 (m(EnvironmentFileName \<mapsto> File env))"
    using assms by (simp add: before_move_def moving_def moved_def moved_names_def same_but_upd)
  then show "moving E m0 (m(EnvironmentFileName \<mapsto> File env))" by simp
qed (rule before_move_temp [OF assms(2)])

lemma migrateAgentConfigRecord_fresh:
  assumes "slot t w0" and "old_record E m0 = Some data" and "new_files E data = Some (env, ag, net)"
  shows "spec (dir_at t w0 (before_move m0 data (\<lambda>_. True))) (migrateAgentConfigRecord E t)
    (\<lambda>_. dir_at t w0 (\<lambda>m. moving E m0 m \<and> moved E m0 m)) (dir_at t w0 (moving E m0))"
proof -
  obtain l m m' where l: "legacy_of E data = Some l" "LVersion l < metaVersion"
    and m: "unmarshal (env_json E) data = Some m" "migrate (backends E) m = Inr m'"
    and out: "env = marshal (env_json E) (m'\<lparr>Version := metaVersion\<rparr>)"
      "ag = enc (agent_codec E) ((agent_of l)\<lparr>ACVersion := agentcfg_schemaVersion\<rparr>)"
      "net = enc (net_codec E) ((net_of l)\<lparr>NPVersion := netpolicycfg_schemaVersion\<rparr>)"
    using assms(2,3) unfolding new_files_def
    by (auto simp: old_record_def below_v3_def split: option.splits node.splits if_splits sum.splits)
  show ?thesis
    unfolding migrateAgentConfigRecord_def
  proof (rule dir_ReadFile_bind [OF assms(1), where x = "Some data"])
    show "moving E m0 m" if "before_move m0 data (\<lambda>_. True) m" for m
      using before_move_moving [OF assms(2) that] .
  next
    have "spec (dir_at t w0 (before_move m0 data (\<lambda>_. True)))
      (io_seq (agentcfg_SaveTo (agent_codec E) t AgentConfigFileName (agent_of l))
        (io_seq (netpolicycfg_SaveTo (net_codec E) t NetpolicyFileName (net_of l))
           (SaveEnvironmentTo (env_json E) t EnvironmentFileName m')))
      (\<lambda>_. dir_at t w0 (\<lambda>m. moving E m0 m \<and> moved E m0 m)) (dir_at t w0 (moving E m0))"
      unfolding agentcfg_SaveTo_def netpolicycfg_SaveTo_def SaveEnvironmentTo_def out [symmetric]
      by (rule spec_seq [OF write_sibling [OF assms(1,2), where A' = "\<lambda>m. m AgentConfigFileName = Some (File ag)"]
            spec_seq [OF write_sibling [OF assms(1,2)] write_record [OF assms]]]) auto
    with l m show "spec (dir_at t w0 (before_move m0 data (\<lambda>_. True)))
      (case Some data of None \<Rightarrow> io_ret ()
        | Some data \<Rightarrow> (case legacy_of E data of
            None \<Rightarrow> io_fail ''parse environment.json''
          | Some l \<Rightarrow> if metaVersion \<le> LVersion l then io_ret ()
             else io_seq (agentcfg_SaveTo (agent_codec E) t AgentConfigFileName (agent_of l))
              (io_seq (netpolicycfg_SaveTo (net_codec E) t NetpolicyFileName (net_of l))
               (case unmarshal (env_json E) data of
                  None \<Rightarrow> io_fail ''parse environment.json''
                | Some m \<Rightarrow> (case migrate (backends E) m of
                    Inl e \<Rightarrow> io_fail e
                  | Inr m' \<Rightarrow> SaveEnvironmentTo (env_json E) t EnvironmentFileName m')))))
      (\<lambda>_. dir_at t w0 (\<lambda>m. moving E m0 m \<and> moved E m0 m)) (dir_at t w0 (moving E m0))"
      by simp
  qed (simp add: before_move_def)
qed

text \<open>A sandbox without an old record is left alone.\<close>

lemma migrateAgentConfigRecord_current:
  assumes "slot t w0" and "\<And>m. P m \<Longrightarrow> m EnvironmentFileName = map_option File x" and "\<And>m. P m \<Longrightarrow> R m"
    and "case x of None \<Rightarrow> True | Some data \<Rightarrow> \<exists>l. legacy_of E data = Some l \<and> LVersion l \<ge> metaVersion"
    and "\<And>m. P m \<Longrightarrow> Q m"
  shows "spec (dir_at t w0 P) (migrateAgentConfigRecord E t) (\<lambda>_. dir_at t w0 Q) (dir_at t w0 R)"
  unfolding migrateAgentConfigRecord_def
proof (rule dir_ReadFile_bind [OF assms(1,2,3)])
  have ret: "spec (dir_at t w0 P) (io_ret ()) (\<lambda>_. dir_at t w0 Q) (dir_at t w0 R)"
    by (rule spec_ret) (erule dir_at_mono, rule assms(5))
  with assms(4) show "spec (dir_at t w0 P)
      (case x of None \<Rightarrow> io_ret ()
        | Some data \<Rightarrow> (case legacy_of E data of
            None \<Rightarrow> io_fail ''parse environment.json''
          | Some l \<Rightarrow> if metaVersion \<le> LVersion l then io_ret ()
             else io_seq (agentcfg_SaveTo (agent_codec E) t AgentConfigFileName (agent_of l))
              (io_seq (netpolicycfg_SaveTo (net_codec E) t NetpolicyFileName (net_of l))
               (case unmarshal (env_json E) data of
                  None \<Rightarrow> io_fail ''parse environment.json''
                | Some m \<Rightarrow> (case migrate (backends E) m of
                    Inl e \<Rightarrow> io_fail e
                  | Inr m' \<Rightarrow> SaveEnvironmentTo (env_json E) t EnvironmentFileName m')))))
      (\<lambda>_. dir_at t w0 Q) (dir_at t w0 R)"
    by (cases x) auto
qed

section \<open>The whole realm\<close>

lemma migratable_old:
  assumes "migratable E m0" and "old_record E m0 = Some data"
  obtains env ag net l where "new_files E data = Some (env, ag, net)" "legacy_of E env = Some l"
    "LVersion l = metaVersion" "before_move m0 data (\<lambda>_. True) m0"
  using assms by (auto simp: migratable_def old_record_def converts_def before_move_def
      split: option.splits node.splits if_splits)

lemma migrateAgentConfigRecord_spec:
  assumes "slot t w0" and "migratable E m0"
  shows "spec (dir_at t w0 (moving E m0)) (migrateAgentConfigRecord E t)
    (\<lambda>_. dir_at t w0 (\<lambda>m. moving E m0 m \<and> moved E m0 m)) (dir_at t w0 (moving E m0))"
proof (cases "old_record E m0")
  case None
  let ?x = "case m0 EnvironmentFileName of Some (File data) \<Rightarrow> Some data | _ \<Rightarrow> None"
  show ?thesis
    by (rule migrateAgentConfigRecord_current [where x = ?x, OF assms(1)])
      (use None assms(2) in \<open>auto simp: moving_def moved_def migratable_def old_record_def below_v3_def
        split: option.splits node.splits if_splits\<close>)
next
  case (Some data)
  from migratable_old [OF assms(2) Some] obtain env ag net l where
    new: "new_files E data = Some (env, ag, net)" and l: "legacy_of E env = Some l" "LVersion l = metaVersion"
    by metis
  let ?done = "\<lambda>m. moving E m0 m \<and> has_moved (env, ag, net) m"
  have "spec (dir_at t w0 ?done) (migrateAgentConfigRecord E t)
    (\<lambda>_. dir_at t w0 (\<lambda>m. moving E m0 m \<and> moved E m0 m)) (dir_at t w0 (moving E m0))"
    by (rule migrateAgentConfigRecord_current [where x = "Some env", OF assms(1)])
      (use l new Some in \<open>auto simp: has_moved_def moved_def\<close>)
  from spec_disj [OF migrateAgentConfigRecord_fresh [OF assms(1) Some new] this] show ?thesis
  proof (rule spec_pre)
    fix w assume "dir_at t w0 (moving E m0) w"
    then obtain N where N: "distinct (map fst N)" "moving E m0 (map_of N)" "w = put t (Some (Dir N)) w0"
      by (rule dir_atE)
    from N(2) Some new have "before_move m0 data (\<lambda>_. True) (map_of N) \<or> ?done (map_of N)"
      by (auto simp: moving_def before_move_def)
    with N show "dir_at t w0 (before_move m0 data (\<lambda>_. True)) w \<or> dir_at t w0 ?done w"
      by (auto simp: dir_at_def)
  qed
qed

interpretation agents: sandbox_pass "migrateAgentConfigRecord E" "migratable E" "moving E" "moved E" for E
proof
  show "moving E m0 m0" if "migratable E m0" for m0
    using migratable_old [OF that] that
    by (auto simp: moving_def before_move_def migratable_def split: option.split)
qed (rule migrateAgentConfigRecord_spec)

text \<open>C10: Moving the agent and network settings out of the sandbox records loses nothing. Start with a
  realm whose sandboxes the migration applies to and run it any number of times, each run interrupted
  anywhere by an error or by the death of the process. Then every sandbox that had an old record still
  has that record unchanged, or has the new record together with the agent and network files made from
  the old one; nothing else in it has changed except for stray temporary files. A sandbox that had no
  old record is as it was.\<close>

theorem MigrateAgentConfigs_never_loses:
  assumes "agents.pass_ready E D" and "live w ''sandboxes'' = Some (Dir D)" and "map_of D n = Some (Dir s)"
  shows "\<exists>s'. get (Under sandboxes n) (rerun (MigrateAgentConfigs E) schs w) = Some (Dir s') \<and>
    (case old_record E (map_of s) of
       None \<Rightarrow> map_of s' = map_of s
     | Some data \<Rightarrow> (map_of s' EnvironmentFileName = Some (File data) \<or> has_moved (the (new_files E data)) (map_of s')) \<and>
         same_but moved_names (map_of s) (map_of s'))"
  using agents.pass_result(1) [OF assms, of schs] unfolding MigrateAgentConfigs_def
  by (auto simp: moving_def split: option.splits)

text \<open>The move finishes. After any number of interrupted runs, one run without faults returns and
  every sandbox that had an old record has the new record and the two files made from it.\<close>

theorem MigrateAgentConfigs_completes:
  fixes schs :: "verdict list list"
  assumes "agents.pass_ready E D" and "live w ''sandboxes'' = Some (Dir D)" and "map_of D n = Some (Dir s)"
    and "old_record E (map_of s) = Some data"
  defines "v \<equiv> rerun (MigrateAgentConfigs E) schs w"
  shows "fst (MigrateAgentConfigs E (v, [])) = Ret () \<and>
    (\<exists>s' env ag net. get (Under sandboxes n) (world_of (MigrateAgentConfigs E (v, []))) = Some (Dir s') \<and>
       new_files E data = Some (env, ag, net) \<and> has_moved (env, ag, net) (map_of s'))"
proof -
  have "migratable E (map_of s)" using assms(1,3) by (auto simp: agents.pass_ready_def)
  from migratable_old [OF this assms(4)] obtain env ag net where new: "new_files E data = Some (env, ag, net)"
    by metis
  show ?thesis
    using agents.pass_result(2) [OF assms(1-3), of schs] assms(4) new
    unfolding v_def MigrateAgentConfigs_def by (auto simp: moved_def)
qed

section \<open>An example\<close>

text \<open>A codec that writes one of three fixed texts, and a realm with one old sandbox.\<close>

definition demo_agents :: agent_env where
  "demo_agents = \<lparr>
     env_json = \<lparr>probe = (\<lambda>s. None), unmarshal = (\<lambda>s. Some blank_env), marshal = (\<lambda>_. ''v3'')\<rparr>,
     agent_codec = \<lparr>enc = AgentType, dec = (\<lambda>_. None)\<rparr>,
     net_codec = \<lparr>enc = NPMode, dec = (\<lambda>_. None)\<rparr>,
     legacy_of = (\<lambda>s. Some \<lparr>LVersion = (if s = ''v3'' then 3 else 2), LAgentType = ''claude'', LModel = [],
       LNetworkMode = ''isolated'', LNetworkAllow = []\<rparr>),
     backends = (\<lambda>_. None)\<rparr>"

definition demo_sandbox :: dir where "demo_sandbox = [(EnvironmentFileName, File ''v2'')]"

definition demo_realm :: world where
  "demo_realm = \<lparr>live = [''sandboxes'' \<mapsto> Dir [(''box'', Dir demo_sandbox)]], scratch = None, trash = None\<rparr>"

lemma demo_new_files: "new_files demo_agents ''v2'' = Some (''v3'', ''claude'', ''isolated'')"
  by (simp add: new_files_def demo_agents_def migrate_id blank_env_def metaVersion_def agent_of_def net_of_def)

lemma demo_old_record: "old_record demo_agents (map_of demo_sandbox) = Some ''v2''"
  by (simp add: old_record_def demo_sandbox_def below_v3_def demo_agents_def metaVersion_def)

lemma demo_ready: "agents.pass_ready demo_agents [(''box'', Dir demo_sandbox)]"
proof -
  have "converts demo_agents ''v2''"
    unfolding converts_def demo_new_files by (simp add: demo_agents_def metaVersion_def)
  moreover have "legacy_of demo_agents ''v2'' \<noteq> None" by (simp add: demo_agents_def)
  ultimately show ?thesis by (auto simp: agents.pass_ready_def migratable_def demo_sandbox_def)
qed

lemmas demo_facts = demo_ready demo_old_record demo_new_files

theorem MigrateAgentConfigs_never_loses_witness:
  "\<exists>s'. get (Under sandboxes ''box'') (rerun (MigrateAgentConfigs demo_agents)
       [[Succeed, Succeed, Crash None], [Succeed, Succeed, Succeed, Crash (Some (File ''torn''))]] demo_realm) = Some (Dir s') \<and>
     (map_of s' EnvironmentFileName = Some (File ''v2'') \<or> has_moved (''v3'', ''claude'', ''isolated'') (map_of s'))"
  using MigrateAgentConfigs_never_loses [OF demo_ready, of demo_realm "''box''" demo_sandbox
      "[[Succeed, Succeed, Crash None], [Succeed, Succeed, Succeed, Crash (Some (File ''torn''))]]"]
  by (auto simp: demo_realm_def demo_old_record demo_new_files simp del: get.simps rerun.simps)

theorem MigrateAgentConfigs_completes_witness:
  "\<exists>s'. get (Under sandboxes ''box'') (world_of (MigrateAgentConfigs demo_agents
       (rerun (MigrateAgentConfigs demo_agents) [[Succeed, Succeed, Crash None]] demo_realm, []))) = Some (Dir s') \<and>
     has_moved (''v3'', ''claude'', ''isolated'') (map_of s')"
  using MigrateAgentConfigs_completes [OF demo_ready, where w = demo_realm and n = "''box''" and s = demo_sandbox
      and data = "''v2''" and schs = "[[Succeed, Succeed, Crash None]]"]
  by (auto simp: demo_realm_def demo_old_record demo_new_files simp del: get.simps rerun.simps)

end
