(* ===== verification/Listing.thy ===== *)
theory Listing
  imports Status AgentConfigs Names "HOL-Library.Multiset"
begin

text \<open>
  Inspecting and listing sandboxes, from \<open>internal/orchestrator/status/status.go\<close>: the read model
  \<open>Info\<close>, \<open>InspectSandbox\<close>, \<open>InspectSandboxWithBackend\<close> and the two listings. A call may return, give
  an error, or panic; the only panics are the nil dereference of a record without directories and the
  instance name of an empty principal. Backends, git, the clock and the JSON decoders are parameters,
  collected in the record \<open>view\<close> (a sandboxes directory that does not exist is an empty one), and so is the iteration order of the Go map that groups sandboxes.
\<close>

section \<open>Calls\<close>

datatype 'a call = Returns 'a | Errors string | Panics

fun call_bind :: "'a call \<Rightarrow> ('a \<Rightarrow> 'b call) \<Rightarrow> 'b call" where
  "call_bind (Returns a) f = f a"
| "call_bind (Errors e) f = Errors e"
| "call_bind Panics f = Panics"

fun call_map :: "('a \<Rightarrow> 'b call) \<Rightarrow> 'a list \<Rightarrow> 'b list call" where
  "call_map f [] = Returns []"
| "call_map f (x # xs) = call_bind (f x) (\<lambda>y. call_bind (call_map f xs) (\<lambda>ys. Returns (y # ys)))"

lemma call_map_returns: "(\<And>x. x \<in> set xs \<Longrightarrow> f x = Returns (g x)) \<Longrightarrow> call_map f xs = Returns (map g xs)"
  by (induction xs) auto

lemma call_map_panics:
  "(\<And>x. x \<in> set xs \<Longrightarrow> \<forall>e. f x \<noteq> Errors e) \<Longrightarrow> (call_map f xs = Panics) = (\<exists>x \<in> set xs. f x = Panics)"
proof (induction xs)
  case (Cons x xs)
  then have *: "call_map f xs = Panics \<longleftrightarrow> (\<exists>y \<in> set xs. f y = Panics)" "\<forall>e. f x \<noteq> Errors e" by auto
  show ?case
  proof (cases "f x")
    case (Returns a)
    have "call_map f xs \<noteq> Errors e" for e
      using Cons.prems
    proof (induction xs)
      case (Cons y ys)
      then show ?case by (cases "f y"; cases "call_map f ys") auto
    qed simp
    then show ?thesis using * Returns by (cases "call_map f xs") auto
  qed (use * in auto)
qed simp

section \<open>What the code reads\<close>

record backend =
  Inspect :: "string \<Rightarrow> inspect"
  net_health :: "string \<Rightarrow> (NetHealthState \<times> string) option"
  git_of :: "string \<Rightarrow> string \<Rightarrow> string list \<Rightarrow> git_result"

record view =
  tree :: "dir"
  read_error :: "string option"
  layout_principal :: string
  now :: int
  env_codec :: json_env
  status_dec :: "string \<Rightarrow> statusJSON option"
  agent_dec :: "string \<Rightarrow> AgentConfig option"
  net_dec :: "string \<Rightarrow> Netpolicy option"
  walk_fails :: "string \<Rightarrow> bool"

fun node_at :: "node option \<Rightarrow> string list \<Rightarrow> node option" where
  "node_at x [] = x"
| "node_at x (n # ns) = (case x of Some (Dir d) \<Rightarrow> node_at (map_of d n) ns | _ \<Rightarrow> None)"

definition file_at :: "node option \<Rightarrow> string list \<Rightarrow> string option" where
  "file_at x p = (case node_at x p of Some (File s) \<Rightarrow> Some s | _ \<Rightarrow> None)"

definition sandbox_dir :: "view \<Rightarrow> string \<Rightarrow> node option" where
  "sandbox_dir V name = map_of (tree V) name"

definition load_environment :: "view \<Rightarrow> string \<Rightarrow> (string, Environment) result" where
  "load_environment V name = (case file_at (sandbox_dir V name) (EnvironmentPath []) of
       None \<Rightarrow> Inl ''read environment.json''
     | Some data \<Rightarrow> decode_env (env_codec V) data)"

definition RequireSandboxDir :: "view \<Rightarrow> string \<Rightarrow> (string, unit) result" where
  "RequireSandboxDir V name = (if sandbox_dir V name = None then Inl ''sandbox not found'' else Inr ())"

definition DirSize :: "view \<Rightarrow> string \<Rightarrow> int option" where
  "DirSize V name = (if walk_fails V name then None else map_option (\<lambda>x. int (node_size x)) (sandbox_dir V name))"

definition loadAgentIdentity :: "view \<Rightarrow> string \<Rightarrow> string \<times> string" where
  "loadAgentIdentity V name = (case file_at (sandbox_dir V name) (AgentConfigPath []) of
       None \<Rightarrow> ([], [])
     | Some data \<Rightarrow> (case agent_dec V data of None \<Rightarrow> ([], []) | Some c \<Rightarrow> (AgentType c, Model c)))"

definition loadNetworkPolicy :: "view \<Rightarrow> string \<Rightarrow> string \<times> string list" where
  "loadNetworkPolicy V name = (case file_at (sandbox_dir V name) (NetpolicyPath []) of
       None \<Rightarrow> ([], [])
     | Some data \<Rightarrow> (case net_dec V data of None \<Rightarrow> ([], []) | Some c \<Rightarrow> (NPMode c, NPAllow c)))"

section \<open>The read model\<close>

text \<open>A broken sandbox has no record: its \<open>Environment\<close> is the zero value with the directory's name, kept
  here as the name alone.\<close>

datatype info_env = Record Environment | OnlyName string

record Info =
  IEnvironment :: info_env
  IAgentType :: string
  IModel :: string
  INetworkMode :: string
  INetworkAllow :: "string list"
  IStatus :: Status
  INetHealth :: string
  INetHealthDetail :: string
  IHasChanges :: string
  IDiskUsageBytes :: int
  IExitCode :: "int option"

definition broken_info :: "string \<Rightarrow> Info" where
  "broken_info name = \<lparr>IEnvironment = OnlyName name, IAgentType = [], IModel = [], INetworkMode = [],
     INetworkAllow = [], IStatus = StatusBroken, INetHealth = [], INetHealthDetail = [], IHasChanges = ''-'',
     IDiskUsageBytes = -1, IExitCode = None\<rparr>"

definition brokenInfos :: "string list \<Rightarrow> Info list" where
  "brokenInfos names = map broken_info names"

text \<open>The part that \<open>InspectSandbox\<close> and \<open>InspectSandboxWithBackend\<close> share once a backend is there; the
  source has it twice.\<close>

definition full_inspection :: "view \<Rightarrow> backend \<Rightarrow> string \<Rightarrow> Environment \<Rightarrow> Info call" where
  "full_inspection V rt name meta = (case InstanceName (layout_principal V) name of
       Inl _ \<Rightarrow> Panics
     | Inr inst \<Rightarrow> (case detectStatusWithExit (status_dec V) (now V) (Inspect rt inst)
             (file_at (sandbox_dir V name) (AgentStatusPath [])) of
         Inl e \<Rightarrow> Errors e
       | Inr (st, exitCode) \<Rightarrow>
           (let du = (case DirSize V name of Some n \<Rightarrow> n | None \<Rightarrow> -1);
                ag = loadAgentIdentity V name; np = loadNetworkPolicy V name;
                nh = probeNetHealth (net_health rt name) st
            in case detectWorkdirChanges (git_of rt name) meta of
                 None \<Rightarrow> Panics
               | Some ch \<Rightarrow> Returns \<lparr>IEnvironment = Record meta, IAgentType = fst ag, IModel = snd ag,
                   INetworkMode = fst np, INetworkAllow = snd np, IStatus = st, INetHealth = fst nh,
                   INetHealthDetail = snd nh, IHasChanges = ch, IDiskUsageBytes = du, IExitCode = exitCode\<rparr>)))"

definition InspectSandbox :: "view \<Rightarrow> backend \<Rightarrow> string \<Rightarrow> Info call" where
  "InspectSandbox V rt name = (case RequireSandboxDir V name of
       Inl e \<Rightarrow> Errors e
     | Inr _ \<Rightarrow> (case load_environment V name of
         Inl e \<Rightarrow> Errors (''load metadata: '' @ e)
       | Inr meta \<Rightarrow> full_inspection V rt name meta))"

definition InspectSandboxWithBackend :: "view \<Rightarrow> backend option \<Rightarrow> string \<Rightarrow> Info call" where
  "InspectSandboxWithBackend V rt name = (case RequireSandboxDir V name of
       Inl e \<Rightarrow> Errors e
     | Inr _ \<Rightarrow> (case load_environment V name of
         Inl e \<Rightarrow> Errors (''load metadata: '' @ e)
       | Inr meta \<Rightarrow> (case rt of
           None \<Rightarrow> Returns \<lparr>IEnvironment = Record meta, IAgentType = fst (loadAgentIdentity V name),
             IModel = snd (loadAgentIdentity V name), INetworkMode = fst (loadNetworkPolicy V name),
             INetworkAllow = snd (loadNetworkPolicy V name), IStatus = StatusUnavailable, INetHealth = [],
             INetHealthDetail = [], IHasChanges = ''-'',
             IDiskUsageBytes = (case DirSize V name of Some n \<Rightarrow> n | None \<Rightarrow> -1), IExitCode = None\<rparr>
         | Some b \<Rightarrow> full_inspection V b name meta)))"

text \<open>The names of the directories among the entries, in the order of \<open>os.ReadDir\<close>.\<close>

definition sandbox_entries :: "view \<Rightarrow> string list" where
  "sandbox_entries V = map fst (filter (\<lambda>e. is_dir (snd e)) (sort_key fst (tree V)))"

fun or_broken :: "string \<Rightarrow> Info call \<Rightarrow> Info call" where
  "or_broken name (Errors e) = Returns (broken_info name)"
| "or_broken name r = r"

definition ListSandboxes :: "view \<Rightarrow> backend \<Rightarrow> Info list call" where
  "ListSandboxes V rt = (case read_error V of
       Some e \<Rightarrow> Errors (''read sandboxes directory: '' @ e)
     | None \<Rightarrow> call_map (\<lambda>name. or_broken name (InspectSandbox V rt name)) (sandbox_entries V))"

section \<open>Several backends\<close>

definition backend_key :: "view \<Rightarrow> string \<Rightarrow> string" where
  "backend_key V name = (case load_environment V name of Inl _ \<Rightarrow> [] | Inr meta \<Rightarrow> BackendType meta)"

type_synonym groups = "(string \<times> string list) list"

definition add_group :: "string \<Rightarrow> string \<Rightarrow> groups \<Rightarrow> groups" where
  "add_group b name gs = AList.update b ((case map_of gs b of Some ns \<Rightarrow> ns | None \<Rightarrow> []) @ [name]) gs"

definition groupSandboxesByBackend :: "view \<Rightarrow> groups" where
  "groupSandboxesByBackend V = fold (\<lambda>name. add_group (backend_key V name) name) (sandbox_entries V) []"

definition inspectBackendGroup ::
  "view \<Rightarrow> (string \<Rightarrow> backend option) \<Rightarrow> string \<Rightarrow> string list \<Rightarrow> string list \<Rightarrow> (Info list \<times> string list \<times> string list) call" where
  "inspectBackendGroup V newRuntime b names unavailableSet =
     (let rt = newRuntime b;
          fresh = (if rt = None \<and> b \<notin> set unavailableSet then [b] else [])
      in call_bind (call_map (\<lambda>name. or_broken name (InspectSandboxWithBackend V rt name)) names)
           (\<lambda>infos. Returns (infos, fresh, fresh @ unavailableSet)))"

fun inspect_groups ::
  "view \<Rightarrow> (string \<Rightarrow> backend option) \<Rightarrow> string list \<Rightarrow> groups \<Rightarrow> (Info list \<times> string list) call" where
  "inspect_groups V newRuntime unavail [] = Returns ([], [])"
| "inspect_groups V newRuntime unavail ((b, names) # gs) =
     (if b = [] then call_bind (inspect_groups V newRuntime unavail gs)
        (\<lambda>(is, us). Returns (brokenInfos names @ is, us))
      else call_bind (inspectBackendGroup V newRuntime b names unavail) (\<lambda>(infos, fresh, unavail').
        call_bind (inspect_groups V newRuntime unavail' gs) (\<lambda>(is, us). Returns (infos @ is, fresh @ us))))"

text \<open>\<open>iter\<close> is the order in which Go happens to range over the map of groups.\<close>

definition ListSandboxesMultiBackend ::
  "(groups \<Rightarrow> groups) \<Rightarrow> view \<Rightarrow> (string \<Rightarrow> backend option) \<Rightarrow> (Info list \<times> string list) call" where
  "ListSandboxesMultiBackend iter V newRuntime = (case read_error V of
       Some e \<Rightarrow> Errors (''read sandboxes directory: '' @ e)
     | None \<Rightarrow> inspect_groups V newRuntime [] (iter (groupSandboxesByBackend V)))"

section \<open>Nothing is dropped\<close>

text \<open>What a listing should show for a sandbox.\<close>

definition listed :: "view \<Rightarrow> backend \<Rightarrow> string \<Rightarrow> Info" where
  "listed V rt name = (case InspectSandbox V rt name of Returns i \<Rightarrow> i | _ \<Rightarrow> broken_info name)"

definition listed_multi :: "view \<Rightarrow> (string \<Rightarrow> backend option) \<Rightarrow> string \<Rightarrow> Info" where
  "listed_multi V newRuntime name = (if backend_key V name = [] then broken_info name
     else case InspectSandboxWithBackend V (newRuntime (backend_key V name)) name of
        Returns i \<Rightarrow> i | _ \<Rightarrow> broken_info name)"

text \<open>Records that make the code panic.\<close>

definition no_dirs :: "view \<Rightarrow> string \<Rightarrow> bool" where
  "no_dirs V name \<longleftrightarrow> (case load_environment V name of Inr m \<Rightarrow> Dirs m = [] | _ \<Rightarrow> False)"

definition can_panic :: "view \<Rightarrow> bool" where
  "can_panic V \<longleftrightarrow> layout_principal V = [] \<or> list_ex (no_dirs V) (sandbox_entries V)"

lemma full_inspection_panics:
  "full_inspection V rt name meta = Panics \<Longrightarrow> layout_principal V = [] \<or> Dirs meta = []"
  by (auto simp: full_inspection_def InstanceName_def InstancePrefix_def detectWorkdirChanges_def Workdir_def Let_def
      split: sum.splits prod.splits option.splits list.splits if_splits WorkProbe.splits)

lemma inspection_panics:
  "InspectSandbox V rt name = Panics \<Longrightarrow> layout_principal V = [] \<or> no_dirs V name"
  "InspectSandboxWithBackend V rt' name = Panics \<Longrightarrow> layout_principal V = [] \<or> no_dirs V name"
  using full_inspection_panics
  by (fastforce simp: InspectSandbox_def InspectSandboxWithBackend_def no_dirs_def split: sum.splits option.splits)+

lemma or_broken_cases:
  "r \<noteq> Panics \<Longrightarrow> or_broken name r = Returns (case r of Returns i \<Rightarrow> i | _ \<Rightarrow> broken_info name)"
  "or_broken name r = Panics \<longleftrightarrow> r = Panics" "or_broken name r \<noteq> Errors e"
  by (cases r; simp)+

text \<open>A listing shows every sandbox. When it returns, the result is one entry per directory in
  the sandboxes directory, in order: the inspected one, or a broken one under the directory's name when
  the inspection fails. It fails only when the sandboxes directory cannot be read, and it panics only
  without a principal or on a record that loads and has no directories.\<close>

theorem ListSandboxes_complete:
  "case ListSandboxes V rt of
     Returns infos \<Rightarrow> infos = map (listed V rt) (sandbox_entries V)
   | Errors e \<Rightarrow> read_error V \<noteq> None
   | Panics \<Rightarrow> can_panic V"
proof (cases "read_error V")
  case None
  show ?thesis
  proof (cases "\<exists>n \<in> set (sandbox_entries V). InspectSandbox V rt n = Panics")
    case True
    then have "ListSandboxes V rt = Panics"
      using None by (simp add: ListSandboxes_def call_map_panics or_broken_cases)
    with True inspection_panics(1) show ?thesis by (auto simp: can_panic_def list_ex_iff)
  next
    case False
    then have "ListSandboxes V rt = Returns (map (listed V rt) (sandbox_entries V))"
      using None by (auto simp: ListSandboxes_def listed_def or_broken_cases intro!: call_map_returns)
    then show ?thesis by simp
  qed
qed (simp add: ListSandboxes_def)

section \<open>Grouping loses nothing\<close>

definition flat :: "groups \<Rightarrow> (string \<times> string) multiset" where
  "flat gs = (\<Sum>(b, ns) \<in># mset gs. mset (map (Pair b) ns))"

lemma flat_Cons: "flat ((b, ns) # gs) = mset (map (Pair b) ns) + flat gs"
  by (simp add: flat_def)

lemma flat_add_group: "distinct (map fst gs) \<Longrightarrow> flat (add_group b n gs) = add_mset (b, n) (flat gs)"
proof (induction gs)
  case Nil
  show ?case by (simp add: add_group_def flat_def)
next
  case (Cons g gs)
  obtain c ns where g: "g = (c, ns)" by (cases g)
  show ?case
  proof (cases "c = b")
    case False
    then have "add_group b n (g # gs) = g # add_group b n gs" by (auto simp: add_group_def g)
    then show ?thesis using Cons by (simp add: g flat_Cons)
  qed (simp add: add_group_def g flat_Cons)
qed

lemma group_fold:
  "distinct (map fst gs) \<Longrightarrow>
   distinct (map fst (fold (\<lambda>n. add_group (key n) n) ns gs)) \<and>
   flat (fold (\<lambda>n. add_group (key n) n) ns gs) = flat gs + mset (map (\<lambda>n. (key n, n)) ns)"
proof (induction ns arbitrary: gs)
  case (Cons n ns)
  have "distinct (map fst (add_group (key n) n gs))" using Cons.prems by (simp add: add_group_def)
  from Cons.IH [OF this] Cons.prems show ?case by (simp add: flat_add_group)
qed simp

lemma groupSandboxesByBackend_flat:
  "distinct (map fst (groupSandboxesByBackend V))"
  "flat (groupSandboxesByBackend V) = mset (map (\<lambda>n. (backend_key V n, n)) (sandbox_entries V))"
  using group_fold [of "[]" "backend_key V" "sandbox_entries V"]
  by (simp_all add: groupSandboxesByBackend_def flat_def)

lemma mem_flat: "(b, n) \<in># flat gs \<longleftrightarrow> (\<exists>ns. (b, ns) \<in> set gs \<and> n \<in> set ns)"
  by (induction gs) (auto simp: flat_Cons flat_def)

definition no_empty :: "groups \<Rightarrow> bool" where
  "no_empty gs \<longleftrightarrow> (\<forall>g \<in> set gs. snd g \<noteq> [])"

lemma no_empty_add_group: "no_empty gs \<Longrightarrow> no_empty (add_group b n gs)"
proof -
  have "no_empty gs \<Longrightarrow> ns \<noteq> [] \<Longrightarrow> no_empty (AList.update b ns gs)" for ns
    by (induction gs) (auto simp: no_empty_def)
  then show "no_empty gs \<Longrightarrow> no_empty (add_group b n gs)" by (simp add: add_group_def)
qed

lemma no_empty_groups: "no_empty (groupSandboxesByBackend V)"
proof -
  have "no_empty gs \<Longrightarrow> no_empty (fold (\<lambda>n. add_group (key n) n) ns gs)" for key ns gs
    by (induction ns arbitrary: gs) (auto intro: no_empty_add_group)
  from this [of "[]"] show ?thesis by (simp add: groupSandboxesByBackend_def no_empty_def)
qed

lemma no_empty_keys: "no_empty gs \<Longrightarrow> b \<in> set (map fst gs) \<longleftrightarrow> (\<exists>n. (b, n) \<in># flat gs)"
  unfolding mem_flat no_empty_def by (force simp: neq_Nil_conv)

lemma inspect_groups_result:
  assumes "\<And>b n. (b, n) \<in># flat gs \<Longrightarrow> b \<noteq> [] \<Longrightarrow> InspectSandboxWithBackend V (newRuntime b) n \<noteq> Panics"
    and "distinct (map fst gs)" and "set unavail \<inter> set (map fst gs) = {}"
    and "\<And>b n. (b, n) \<in># flat gs \<Longrightarrow> b = backend_key V n"
  shows "\<exists>is us. inspect_groups V newRuntime unavail gs = Returns (is, us) \<and>
    mset is = {#listed_multi V newRuntime n. (b, n) \<in># flat gs#} \<and> distinct us \<and>
    set us = {b \<in> set (map fst gs). b \<noteq> [] \<and> newRuntime b = None}"
  using assms
proof (induction gs arbitrary: unavail)
  case (Cons g gs)
  obtain b ns where g: "g = (b, ns)" by (cases g)
  have key: "backend_key V n = b" if "n \<in> set ns" for n
    using Cons.prems(4) [of b n] that by (auto simp: g flat_Cons)
  have sub: "(b', n) \<in># flat gs \<Longrightarrow> (b', n) \<in># flat (g # gs)" for b' n by (simp add: g flat_Cons)
  have IH: "\<exists>is us. inspect_groups V newRuntime u gs = Returns (is, us) \<and>
    mset is = {#listed_multi V newRuntime n. (b, n) \<in># flat gs#} \<and> distinct us \<and>
    set us = {b \<in> set (map fst gs). b \<noteq> [] \<and> newRuntime b = None}"
    if "set u \<inter> set (map fst gs) = {}" for u
    by (rule Cons.IH) (use Cons.prems sub that in auto)
  have here: "{#listed_multi V newRuntime n. (b, n) \<in># mset (map (Pair b) ns)#} = mset (map (listed_multi V newRuntime) ns)"
    by (induction ns) auto
  show ?case
  proof (cases "b = []")
    case True
    then have "map (listed_multi V newRuntime) ns = brokenInfos ns"
      using key by (auto simp: listed_multi_def brokenInfos_def)
    moreover obtain "is" us where "inspect_groups V newRuntime unavail gs = Returns (is, us)"
      "mset is = {#listed_multi V newRuntime n. (b, n) \<in># flat gs#}" "distinct us"
      "set us = {b \<in> set (map fst gs). b \<noteq> [] \<and> newRuntime b = None}"
      using IH [of unavail] Cons.prems(3) by (auto simp: g)
    ultimately show ?thesis using True here by (auto simp: g flat_Cons)
  next
    case False
    let ?fresh = "if newRuntime b = None then [b] else []"
    have "InspectSandboxWithBackend V (newRuntime b) n \<noteq> Panics" if "n \<in> set ns" for n
      by (rule Cons.prems(1)) (use that False in \<open>auto simp: g flat_Cons\<close>)
    then have "call_map (\<lambda>name. or_broken name (InspectSandboxWithBackend V (newRuntime b) name)) ns
        = Returns (map (listed_multi V newRuntime) ns)"
      using False key by (intro call_map_returns) (auto simp: or_broken_cases listed_multi_def)
    then have grp: "inspectBackendGroup V newRuntime b ns unavail
        = Returns (map (listed_multi V newRuntime) ns, ?fresh, ?fresh @ unavail)"
      using Cons.prems(3) by (auto simp: inspectBackendGroup_def g)
    have disj: "set (?fresh @ unavail) \<inter> set (map fst gs) = {}"
      using Cons.prems(2,3) by (auto simp: g)
    obtain "is" us where "inspect_groups V newRuntime (?fresh @ unavail) gs = Returns (is, us)"
      "mset is = {#listed_multi V newRuntime n. (b, n) \<in># flat gs#}" "distinct us"
      "set us = {b \<in> set (map fst gs). b \<noteq> [] \<and> newRuntime b = None}"
      using IH [OF disj] by blast
    then show ?thesis using False grp here Cons.prems(2) by (auto simp: g flat_Cons)
  qed
qed (simp add: flat_def)

text \<open>C33: Provided the sandboxes directory can be read and no record loads without its directories (inspecting
  such a record panics, and the listing with it), listing across several backends shows every sandbox exactly
  once, whatever order the groups are visited in: the entries are, up to order, one per directory, broken when the record cannot be read or
  names no backend, unavailable when its backend cannot be started. The backends reported as unavailable
  are exactly those that some readable record names and that cannot be started, each once.\<close>

theorem ListSandboxesMultiBackend_complete:
  assumes "mset (iter (groupSandboxesByBackend V)) = mset (groupSandboxesByBackend V)"
    and "\<not> can_panic V" and "read_error V = None"
  shows "\<exists>infos us. ListSandboxesMultiBackend iter V newRuntime = Returns (infos, us) \<and>
    mset infos = mset (map (listed_multi V newRuntime) (sandbox_entries V)) \<and> distinct us \<and>
    set us = {b. b \<noteq> [] \<and> newRuntime b = None \<and> (\<exists>n \<in> set (sandbox_entries V). backend_key V n = b)}"
proof -
  let ?gs = "iter (groupSandboxesByBackend V)"
  have flat: "flat ?gs = mset (map (\<lambda>n. (backend_key V n, n)) (sandbox_entries V))"
    using groupSandboxesByBackend_flat(2) [of V] assms(1) by (simp add: flat_def)
  have "mset (map fst ?gs) = mset (map fst (groupSandboxesByBackend V))" using assms(1) by simp
  then have dist: "distinct (map fst ?gs)"
    using groupSandboxesByBackend_flat(1) mset_eq_imp_distinct_iff by blast
  have "InspectSandboxWithBackend V (newRuntime b) n \<noteq> Panics" if "(b, n) \<in># flat ?gs" for b n
    using that inspection_panics(2) assms(2) unfolding flat can_panic_def list_ex_iff by fastforce
  moreover have "b = backend_key V n" if "(b, n) \<in># flat ?gs" for b n using that unfolding flat by auto
  ultimately obtain "is" us where r: "inspect_groups V newRuntime [] ?gs = Returns (is, us)"
    "mset is = {#listed_multi V newRuntime n. (b, n) \<in># flat ?gs#}" "distinct us"
    "set us = {b \<in> set (map fst ?gs). b \<noteq> [] \<and> newRuntime b = None}"
    using inspect_groups_result [of ?gs V newRuntime "[]"] dist by auto
  have "mset is = mset (map (listed_multi V newRuntime) (sandbox_entries V))"
    unfolding r(2) flat by (simp add: image_mset.compositionality comp_def)
  moreover have "set us = {b. b \<noteq> [] \<and> newRuntime b = None \<and> (\<exists>n \<in> set (sandbox_entries V). backend_key V n = b)}"
  proof -
    have "no_empty ?gs" using no_empty_groups [of V] mset_eq_setD [OF assms(1)] by (simp add: no_empty_def)
    from no_empty_keys [OF this] show ?thesis unfolding r(4) flat by auto
  qed
  ultimately show ?thesis using r(1,3) assms(3) by (auto simp: ListSandboxesMultiBackend_def)
qed

text \<open>The view reads the record as \<open>LoadEnvironment\<close> does on the machine.\<close>

lemma load_environment_agrees:
  assumes "live w ''sandboxes'' = Some (Dir (tree V))"
  shows "fst (LoadEnvironment (env_codec V) (Under sandboxes name) (w, []))
    = (case load_environment V name of Inl e \<Rightarrow> Fail e | Inr m \<Rightarrow> Ret m)"
  using assms
  by (auto simp: LoadEnvironment_def LoadEnvironmentFrom_def io_bind_def os_ReadFile_def prim_def io_fail_def
      io_ret_def load_environment_def file_at_def sandbox_dir_def EnvironmentPath_def HostTierDir_def
      split: option.split node.split sum.split)

definition demo_view :: view where
  "demo_view = \<lparr>tree = [(''box'', Dir [(HostTierName, Dir [(EnvironmentFileName, File ''{}'')])]), (''junk'', Dir []),
       (''box.lock'', File [])],
     read_error = None, layout_principal = ''cli'', now = 0, env_codec = one_record_json, status_dec = (\<lambda>_. None),
     agent_dec = (\<lambda>_. None), net_dec = (\<lambda>_. None), walk_fails = (\<lambda>_. False)\<rparr>"

lemma demo_view_entries: "sandbox_entries demo_view = [''box'', ''junk'']"
  by (code_simp)

lemma demo_view_records:
  "load_environment demo_view ''box'' = Inr (blank_env\<lparr>Version := metaVersion\<rparr>)"
  "load_environment demo_view ''junk'' = Inl ''read environment.json''"
  by (simp_all add: load_environment_def file_at_def sandbox_dir_def demo_view_def EnvironmentPath_def HostTierDir_def
      decode_env_def one_record_json_def)

lemma demo_view_fine: "\<not> can_panic demo_view"
  by (simp add: can_panic_def demo_view_entries no_dirs_def demo_view_records) (simp add: demo_view_def blank_env_def)

theorem ListSandboxesMultiBackend_complete_witness:
  "\<exists>infos us. ListSandboxesMultiBackend rev demo_view (\<lambda>_. None) = Returns (infos, us) \<and> length infos = 2 \<and>
     set us = {''docker''}"
proof -
  have key: "backend_key demo_view ''box'' = ''docker''" "backend_key demo_view ''junk'' = []"
    by (simp_all add: backend_key_def demo_view_records blank_env_def)
  have "read_error demo_view = None" by (simp add: demo_view_def)
  from ListSandboxesMultiBackend_complete [of rev demo_view "\<lambda>_. None", OF _ demo_view_fine this]
  obtain infos us where r: "ListSandboxesMultiBackend rev demo_view (\<lambda>_. None) = Returns (infos, us)"
    "mset infos = mset (map (listed_multi demo_view (\<lambda>_. None)) [''box'', ''junk''])"
    "set us = {b. b \<noteq> [] \<and> (\<exists>n \<in> {''box'', ''junk''}. backend_key demo_view n = b)}"
    unfolding demo_view_entries by auto
  from mset_eq_length [OF r(2)] have "length infos = 2" by simp
  moreover from r(3) key have "set us = {''docker''}" by auto
  ultimately show ?thesis using r(1) by blast
qed

text \<open>One malformed record stops the whole listing. If any sandbox has a record that loads but lists
  no directories, and the backend answers for its instance, listing panics instead of showing that
  sandbox as broken.\<close>

theorem ListSandboxes_panics_without_dirs:
  assumes "read_error V = None" and "n \<in> set (sandbox_entries V)" and "load_environment V n = Inr meta"
    and "Dirs meta = []" and "InstanceName (layout_principal V) n = Inr inst"
    and "\<forall>e. Inspect rt inst \<noteq> InspectError e"
  shows "ListSandboxes V rt = Panics"
proof -
  have "detectWorkdirChanges g meta = None" for g using assms(4) by (simp add: detectWorkdirChanges_def Workdir_def)
  moreover have "\<exists>r. detectStatusWithExit (status_dec V) (now V) (Inspect rt inst)
      (file_at (sandbox_dir V n) (AgentStatusPath [])) = Inr r"
    using assms(6) by (cases "Inspect rt inst") (auto simp: detectStatusWithExit_def split: option.split prod.split)
  ultimately have "full_inspection V rt n meta = Panics"
    using assms(5) by (auto simp: full_inspection_def Let_def split: prod.split)
  moreover have "RequireSandboxDir V n = Inr ()"
    using assms(3) by (auto simp: RequireSandboxDir_def load_environment_def file_at_def EnvironmentPath_def
        HostTierDir_def split: option.splits)
  ultimately have "InspectSandbox V rt n = Panics" using assms(3) by (simp add: InspectSandbox_def)
  then show ?thesis using assms(1,2) by (auto simp: ListSandboxes_def call_map_panics or_broken_cases)
qed

definition no_dirs_view :: view where
  "no_dirs_view = demo_view\<lparr>env_codec := \<lparr>probe = (\<lambda>_. Some metaVersion),
     unmarshal = (\<lambda>_. Some (blank_env\<lparr>Dirs := []\<rparr>)), marshal = (\<lambda>_. [])\<rparr>\<rparr>"

theorem ListSandboxes_panics_without_dirs_witness:
  "ListSandboxes no_dirs_view \<lparr>Inspect = (\<lambda>_. NotFound), net_health = (\<lambda>_. None), git_of = (\<lambda>_ _ _. GitError)\<rparr> = Panics"
proof (rule ListSandboxes_panics_without_dirs [where n = "''box''" and meta = "blank_env\<lparr>Dirs := []\<rparr>"])
  have "sandbox_entries no_dirs_view = sandbox_entries demo_view" by (simp add: sandbox_entries_def no_dirs_view_def)
  then show "''box'' \<in> set (sandbox_entries no_dirs_view)" by (simp add: demo_view_entries)
  show "load_environment no_dirs_view ''box'' = Inr (blank_env\<lparr>Dirs := []\<rparr>)"
    by (simp add: load_environment_def file_at_def sandbox_dir_def no_dirs_view_def demo_view_def EnvironmentPath_def
        HostTierDir_def decode_env_def)
  show "InstanceName (layout_principal no_dirs_view) ''box'' = Inr ''yoloai-cli-box''"
    by (simp add: no_dirs_view_def demo_view_def InstanceName_def InstancePrefix_def)
qed (simp_all add: no_dirs_view_def demo_view_def)

end
