(* ===== verification/Locking.thy ===== *)
theory Locking
  imports Prelude
begin

text \<open>
  Advisory file locks: the flock primitives of \<open>internal/locking/flock.go\<close> and the per-sandbox locks of
  \<open>store/lock_unix.go\<close>. The kernel's side is a table of lock file names, inodes, open file descriptors
  and the descriptor that holds the lock of each inode; the code is written over the five system calls
  it makes. Each operation is first a function on the kernel, run without interruption. A transition
  system then interleaves the calls of any number of processes.
\<close>

section \<open>The kernel\<close>

record kernel =
  entries :: "string \<rightharpoonup> nat"
  content :: "nat \<Rightarrow> string"
  holder :: "nat \<rightharpoonup> nat"
  fds :: "nat \<rightharpoonup> nat"
  fresh :: nat

definition boot :: kernel where
  "boot = \<lparr>entries = Map.empty, content = (\<lambda>_. []), holder = Map.empty, fds = Map.empty, fresh = 0\<rparr>"

text \<open>\<open>openLockFile\<close>: \<open>O_CREATE | O_RDWR\<close>, after the parent directory is made. A new file gets a new
  inode; every call gets a new descriptor.\<close>

definition openLockFile :: "string \<Rightarrow> kernel \<Rightarrow> nat \<times> kernel" where
  "openLockFile name k = (case entries k name of
       Some i \<Rightarrow> (fresh k, k\<lparr>fds := (fds k)(fresh k \<mapsto> i), fresh := fresh k + 1\<rparr>)
     | None \<Rightarrow> (fresh k + 1, k\<lparr>entries := (entries k)(name \<mapsto> fresh k), content := (content k)(fresh k := []),
         holder := (holder k)(fresh k := None), fds := (fds k)(fresh k + 1 \<mapsto> fresh k), fresh := fresh k + 2\<rparr>))"

text \<open>\<open>flock(fd, LOCK_EX | LOCK_NB)\<close>; \<open>None\<close> is \<open>EWOULDBLOCK\<close>.\<close>

definition sys_flock :: "nat \<Rightarrow> kernel \<Rightarrow> kernel option" where
  "sys_flock fd k = (case fds k fd of
       None \<Rightarrow> None
     | Some i \<Rightarrow> if holder k i = None \<or> holder k i = Some fd then Some (k\<lparr>holder := (holder k)(i \<mapsto> fd)\<rparr>) else None)"

definition sys_unlock :: "nat \<Rightarrow> kernel \<Rightarrow> kernel" where
  "sys_unlock fd k = (case fds k fd of
       None \<Rightarrow> k
     | Some i \<Rightarrow> if holder k i = Some fd then k\<lparr>holder := (holder k)(i := None)\<rparr> else k)"

text \<open>Closing a descriptor gives up its lock.\<close>

definition sys_close :: "nat \<Rightarrow> kernel \<Rightarrow> kernel" where
  "sys_close fd k = (sys_unlock fd k)\<lparr>fds := (fds k)(fd := None)\<rparr>"

definition sys_unlink :: "string \<Rightarrow> kernel \<Rightarrow> kernel" where
  "sys_unlink name k = k\<lparr>entries := (entries k)(name := None)\<rparr>"

section \<open>The primitives\<close>

text \<open>
  Which calls fail for another reason than a held lock: making the directory or opening the file, and
  \<open>flock\<close>.
\<close>

record lock_faults =
  lf_open :: "string \<Rightarrow> kernel \<Rightarrow> bool"
  lf_flock :: "nat \<Rightarrow> kernel \<Rightarrow> bool"

definition no_lock_faults :: lock_faults where
  "no_lock_faults = \<lparr>lf_open = (\<lambda>_ _. False), lf_flock = (\<lambda>_ _. False)\<rparr>"

datatype acquire_error = ErrWouldBlock | AcquireFailed

text \<open>The release closure: the calls it makes, one after the other.\<close>

definition release_calls :: "nat \<Rightarrow> (kernel \<Rightarrow> kernel) list" where
  "release_calls fd = [sys_unlock fd, sys_close fd]"

definition makeRelease :: "nat \<Rightarrow> kernel \<Rightarrow> kernel" where
  "makeRelease fd k = fold (\<lambda>call k. call k) (release_calls fd) k"

text \<open>What \<open>AcquireWithFile\<close> does once the file is open.\<close>

definition try_flock :: "lock_faults \<Rightarrow> nat \<Rightarrow> kernel \<Rightarrow> (acquire_error, nat) result \<times> kernel" where
  "try_flock F fd k =
     (if lf_flock F fd k then (Inl AcquireFailed, sys_close fd k)
      else case sys_flock fd k of Some k1 \<Rightarrow> (Inr fd, k1) | None \<Rightarrow> (Inl ErrWouldBlock, sys_close fd k))"

definition AcquireWithFile :: "lock_faults \<Rightarrow> string \<Rightarrow> kernel \<Rightarrow> (acquire_error, nat) result \<times> kernel" where
  "AcquireWithFile F name k =
     (if lf_open F name k then (Inl AcquireFailed, k)
      else case openLockFile name k of (fd, k1) \<Rightarrow> try_flock F fd k1)"

definition AcquireNonBlocking :: "lock_faults \<Rightarrow> string \<Rightarrow> kernel \<Rightarrow> (acquire_error, nat) result \<times> kernel" where
  "AcquireNonBlocking F name k = AcquireWithFile F name k"

text \<open>A blocking acquire waits until the lock is free: no result while another descriptor holds it.\<close>

definition AcquireBlocking :: "lock_faults \<Rightarrow> string \<Rightarrow> kernel \<Rightarrow> ((acquire_error, nat) result \<times> kernel) option" where
  "AcquireBlocking F name k =
     (if lf_open F name k then Some (Inl AcquireFailed, k)
      else case openLockFile name k of (fd, k1) \<Rightarrow>
        if lf_flock F fd k1 then Some (Inl AcquireFailed, sys_close fd k1)
        else map_option (Pair (Inr fd)) (sys_flock fd k1))"

definition writeHolderPID :: "nat \<Rightarrow> nat \<Rightarrow> kernel \<Rightarrow> kernel" where
  "writeHolderPID fd pid k = (case fds k fd of
       Some i \<Rightarrow> k\<lparr>content := (content k)(i := Itoa pid @ [CHR 10])\<rparr> | None \<Rightarrow> k)"

definition clearHolderPID :: "nat \<Rightarrow> kernel \<Rightarrow> kernel" where
  "clearHolderPID fd k = (case fds k fd of Some i \<Rightarrow> k\<lparr>content := (content k)(i := [])\<rparr> | None \<Rightarrow> k)"

definition readHolderPID :: "string \<Rightarrow> kernel \<Rightarrow> int" where
  "readHolderPID name k = (case entries k name of
       None \<Rightarrow> 0
     | Some i \<Rightarrow> (let s = TrimSpace (content k i) in
         if s = [] then 0 else case Atoi s of None \<Rightarrow> 0 | Some pid \<Rightarrow> pid))"

text \<open>\<open>signal pid\<close> is the answer of \<open>kill(pid, 0)\<close>.\<close>

datatype kill_result = KillOk | EPERM | ESRCH

definition isProcessAlive :: "(int \<Rightarrow> kill_result) \<Rightarrow> int \<Rightarrow> bool" where
  "isProcessAlive signal pid = (if pid \<le> 0 then False
     else case signal pid of KillOk \<Rightarrow> True | EPERM \<Rightarrow> True | ESRCH \<Rightarrow> False)"

record SandboxLockedError =
  LName :: string
  HolderPID :: int
  HolderAlive :: bool

definition newLockedError :: "(int \<Rightarrow> kill_result) \<Rightarrow> string \<Rightarrow> kernel \<Rightarrow> SandboxLockedError" where
  "newLockedError signal name k = (let pid = readHolderPID name k in
     \<lparr>LName = name, HolderPID = pid, HolderAlive = (pid \<noteq> 0 \<and> isProcessAlive signal pid)\<rparr>)"

section \<open>Per-sandbox locks\<close>

definition lockRetryAttempts :: nat where "lockRetryAttempts = 30"

text \<open>What the process sees of the rest of the system: its own id, the answers of \<open>kill\<close>, the calls that
  fail, and what the others do to the kernel while it sleeps after attempt \<open>i\<close>.\<close>

record surroundings =
  own_pid :: nat
  signals :: "int \<Rightarrow> kill_result"
  failing :: lock_faults
  others :: "string \<Rightarrow> nat \<Rightarrow> kernel \<Rightarrow> kernel"

fun retry :: "surroundings \<Rightarrow> string \<Rightarrow> nat \<Rightarrow> nat \<Rightarrow> kernel \<Rightarrow> (acquire_error, nat) result \<times> kernel" where
  "retry S name i 0 k = (Inl ErrWouldBlock, k)"
| "retry S name i (Suc left) k = (case AcquireWithFile (failing S) name k of
       (Inr fd, k1) \<Rightarrow> (Inr fd, k1)
     | (Inl AcquireFailed, k1) \<Rightarrow> (Inl AcquireFailed, k1)
     | (Inl ErrWouldBlock, k1) \<Rightarrow> retry S name (Suc i) left (if left = 0 then k1 else others S name i k1))"

datatype lock_error = LockHeld SandboxLockedError | LockFailed string

definition acquireWithRetry ::
  "surroundings \<Rightarrow> string \<Rightarrow> kernel \<Rightarrow> (lock_error, nat) result \<times> kernel" where
  "acquireWithRetry S name k = (case retry S name 0 lockRetryAttempts k of
       (Inl ErrWouldBlock, k1) \<Rightarrow> (Inl (LockHeld (newLockedError (signals S) name k1)), k1)
     | (Inl AcquireFailed, k1) \<Rightarrow> (Inl (LockFailed name), k1)
     | (Inr fd, k1) \<Rightarrow> (Inr fd, writeHolderPID fd (own_pid S) k1))"

text \<open>The release closure that \<open>acquireWithRetry\<close> returns.\<close>

definition release_lock :: "nat \<Rightarrow> kernel \<Rightarrow> kernel" where
  "release_lock fd k = makeRelease fd (clearHolderPID fd k)"

definition AcquireLock :: "surroundings \<Rightarrow> string \<Rightarrow> kernel \<Rightarrow> (lock_error, nat) result \<times> kernel" where
  "AcquireLock S name k = acquireWithRetry S name k"

fun acquire_all ::
  "surroundings \<Rightarrow> nat list \<Rightarrow> string list \<Rightarrow> kernel \<Rightarrow> (lock_error, nat list) result \<times> kernel" where
  "acquire_all S releases [] k = (Inr releases, k)"
| "acquire_all S releases (name # names) k = (case acquireWithRetry S name k of
       (Inl e, k1) \<Rightarrow> (Inl e, fold release_lock releases k1)
     | (Inr fd, k1) \<Rightarrow> acquire_all S (releases @ [fd]) names k1)"

definition AcquireMultiLock ::
  "surroundings \<Rightarrow> string list \<Rightarrow> kernel \<Rightarrow> (lock_error, nat list) result \<times> kernel" where
  "AcquireMultiLock S names k = acquire_all S [] (sort names) k"

definition ForceUnlock :: "(int \<Rightarrow> kill_result) \<Rightarrow> string \<Rightarrow> kernel \<Rightarrow> (string, bool) result \<times> kernel" where
  "ForceUnlock signal name k =
     (if entries k name = None then (Inr False, k)
      else let pid = readHolderPID name k in
        if pid \<noteq> 0 \<and> isProcessAlive signal pid then (Inl ''in use by another process'', k)
        else (Inr True, sys_unlink name k))"

definition RemoveLockFile :: "string \<Rightarrow> kernel \<Rightarrow> kernel" where
  "RemoveLockFile name k = sys_unlink name k"

text \<open>The sweep over the lock files beside the sandboxes; \<open>dirs\<close> are the sandbox directories that exist,
  \<open>names\<close> the lock files in directory order, without their suffix.\<close>

fun sweep :: "lock_faults \<Rightarrow> string list \<Rightarrow> bool \<Rightarrow> string list \<Rightarrow> kernel \<Rightarrow> string list \<times> kernel" where
  "sweep F dirs dryRun [] k = ([], k)"
| "sweep F dirs dryRun (name # names) k =
     (if name \<in> set dirs then sweep F dirs dryRun names k
      else case AcquireNonBlocking F name k of
          (Inl _, k1) \<Rightarrow> sweep F dirs dryRun names k1
        | (Inr fd, k1) \<Rightarrow>
            (let k2 = (if dryRun then makeRelease fd k1 else makeRelease fd (sys_unlink name k1));
                 (removed, k3) = sweep F dirs dryRun names k2
             in (name # removed, k3)))"

definition SweepStaleLocks :: "lock_faults \<Rightarrow> (string \<times> bool) list \<Rightarrow> string list \<Rightarrow> bool \<Rightarrow> kernel \<Rightarrow> string list \<times> kernel" where
  "SweepStaleLocks F files dirs dryRun k = sweep F dirs dryRun
     (map (\<lambda>e. TrimSuffix (fst e) ''.lock'') (filter (\<lambda>e. \<not> snd e \<and> HasSuffix (fst e) ''.lock'') files)) k"

section \<open>Interleaving\<close>

text \<open>
  The same code with its system calls interleaved. A process is idle, has opened the lock file of a name and
  not tried to lock it, holds the lock, or is in the release closure with some of its calls still to make.
\<close>

datatype pc = Idle | Opened string nat | Holding string nat | Releasing string nat "(kernel \<Rightarrow> kernel) list"

record sys =
  kern :: kernel
  pcs :: "nat \<Rightarrow> pc"

definition start :: sys where "start = \<lparr>kern = boot, pcs = (\<lambda>_. Idle)\<rparr>"

text \<open>The descriptor a process has.\<close>

fun has_fd :: "pc \<Rightarrow> (string \<times> nat) option" where
  "has_fd Idle = None"
| "has_fd (Opened n fd) = Some (n, fd)"
| "has_fd (Holding n fd) = Some (n, fd)"
| "has_fd (Releasing n fd cs) = Some (n, fd)"

text \<open>
  The steps: the two parts of \<open>AcquireWithFile\<close>, with any failure of its calls, the writes of the holder's id,
  the calls of \<open>makeRelease\<close> one at a time, and the death of a process, which closes its descriptor. With
  \<open>rm\<close>, a process may also remove the lock file it holds, as destroying a sandbox, a failed creation and the
  sweep do.
\<close>

inductive lock_step :: "bool \<Rightarrow> sys \<Rightarrow> sys \<Rightarrow> bool" for rm where
  opens: "pcs s p = Idle \<Longrightarrow> openLockFile name (kern s) = (fd, k) \<Longrightarrow>
    lock_step rm s (s\<lparr>kern := k, pcs := (pcs s)(p := Opened name fd)\<rparr>)"
| tries: "pcs s p = Opened name fd \<Longrightarrow> try_flock F fd (kern s) = (r, k) \<Longrightarrow>
    lock_step rm s (s\<lparr>kern := k, pcs := (pcs s)(p := case r of Inr fd' \<Rightarrow> Holding name fd' | Inl _ \<Rightarrow> Idle)\<rparr>)"
| records: "pcs s p = Holding name fd \<Longrightarrow>
    lock_step rm s (s\<lparr>kern := writeHolderPID fd p (kern s)\<rparr>)"
| clears: "pcs s p = Holding name fd \<Longrightarrow>
    lock_step rm s (s\<lparr>kern := clearHolderPID fd (kern s)\<rparr>)"
| releases: "pcs s p = Holding name fd \<Longrightarrow>
    lock_step rm s (s\<lparr>pcs := (pcs s)(p := Releasing name fd (release_calls fd))\<rparr>)"
| calls: "pcs s p = Releasing name fd (c # cs) \<Longrightarrow>
    lock_step rm s (s\<lparr>kern := c (kern s), pcs := (pcs s)(p := if cs = [] then Idle else Releasing name fd cs)\<rparr>)"
| dies: "has_fd (pcs s p) = Some (name, fd) \<Longrightarrow>
    lock_step rm s (s\<lparr>kern := sys_close fd (kern s), pcs := (pcs s)(p := Idle)\<rparr>)"
| removes: "rm \<Longrightarrow> pcs s p = Holding name fd \<Longrightarrow>
    lock_step rm s (s\<lparr>kern := RemoveLockFile name (kern s)\<rparr>)"

inductive lock_reach :: "bool \<Rightarrow> sys \<Rightarrow> bool" for rm where
  init: "lock_reach rm start"
| step: "lock_reach rm s \<Longrightarrow> lock_step rm s t \<Longrightarrow> lock_reach rm t"

lemma makeRelease_eq: "makeRelease fd k = sys_close fd (sys_unlock fd k)"
  by (simp add: makeRelease_def release_calls_def)

lemmas lock_defs = sys_flock_def sys_unlock_def sys_close_def sys_unlink_def makeRelease_eq try_flock_def
  release_lock_def clearHolderPID_def writeHolderPID_def openLockFile_def RemoveLockFile_def

text \<open>
  The invariant: every descriptor refers to the file that its name still names, no two processes share one,
  names have inodes of their own, and a lock is held exactly by the descriptor of a process that holds it or has not made
  the first call of its release.
\<close>

fun locking :: "pc \<Rightarrow> (string \<times> nat) option" where
  "locking (Holding n fd) = Some (n, fd)"
| "locking (Releasing n fd [_, _]) = Some (n, fd)"
| "locking _ = None"

definition lock_inv :: "sys \<Rightarrow> bool" where
  "lock_inv s \<longleftrightarrow>
     (\<forall>p n fd. has_fd (pcs s p) = Some (n, fd) \<longrightarrow> fd < fresh (kern s) \<and>
        (\<exists>i. fds (kern s) fd = Some i \<and> entries (kern s) n = Some i)) \<and>
     (\<forall>p q n m fd. has_fd (pcs s p) = Some (n, fd) \<longrightarrow> has_fd (pcs s q) = Some (m, fd) \<longrightarrow> p = q) \<and>
     (\<forall>p n fd. locking (pcs s p) = Some (n, fd) \<longrightarrow> (\<exists>i. fds (kern s) fd = Some i \<and> holder (kern s) i = Some fd)) \<and>
     (\<forall>p n fd cs. pcs s p = Releasing n fd cs \<longrightarrow> cs = release_calls fd \<or> cs = [sys_close fd]) \<and>
     (\<forall>i fd. holder (kern s) i = Some fd \<longrightarrow> (\<exists>p n. locking (pcs s p) = Some (n, fd) \<and> fds (kern s) fd = Some i)) \<and>
     (\<forall>n m i. entries (kern s) n = Some i \<longrightarrow> i < fresh (kern s) \<and> (entries (kern s) m = Some i \<longrightarrow> m = n))"

lemma locking_fd: "locking c = Some x \<Longrightarrow> has_fd c = Some x"
  by (cases c rule: locking.cases) simp_all

lemma lock_invD:
  assumes "lock_inv s"
  shows "has_fd (pcs s p) = Some (n, fd) \<Longrightarrow> fd < fresh (kern s)"
    and "has_fd (pcs s p) = Some (n, fd) \<Longrightarrow> \<exists>i. fds (kern s) fd = Some i \<and> entries (kern s) n = Some i"
    and "has_fd (pcs s p) = Some (n, fd) \<Longrightarrow> has_fd (pcs s q) = Some (m, fd) \<Longrightarrow> p = q"
    and "locking (pcs s p) = Some (n, fd) \<Longrightarrow> \<exists>i. fds (kern s) fd = Some i \<and> holder (kern s) i = Some fd"
    and "pcs s p = Releasing n fd cs \<Longrightarrow> cs = release_calls fd \<or> cs = [sys_close fd]"
    and "holder (kern s) i = Some fd \<Longrightarrow> \<exists>p n. locking (pcs s p) = Some (n, fd) \<and> fds (kern s) fd = Some i"
    and "entries (kern s) n = Some i \<Longrightarrow> i < fresh (kern s)"
    and "entries (kern s) n = Some i \<Longrightarrow> entries (kern s) m = Some i \<Longrightarrow> m = n"
  using assms unfolding lock_inv_def by blast+

lemma lock_invI:
  assumes "\<And>p n fd. has_fd (P p) = Some (n, fd) \<Longrightarrow> fd < fresh K \<and> (\<exists>i. fds K fd = Some i \<and> entries K n = Some i)"
    and "\<And>p q n m fd. has_fd (P p) = Some (n, fd) \<Longrightarrow> has_fd (P q) = Some (m, fd) \<Longrightarrow> p = q"
    and "\<And>p n fd. locking (P p) = Some (n, fd) \<Longrightarrow> \<exists>i. fds K fd = Some i \<and> holder K i = Some fd"
    and "\<And>p n fd cs. P p = Releasing n fd cs \<Longrightarrow> cs = release_calls fd \<or> cs = [sys_close fd]"
    and "\<And>i fd. holder K i = Some fd \<Longrightarrow> \<exists>p n. locking (P p) = Some (n, fd) \<and> fds K fd = Some i"
    and "\<And>n m i. entries K n = Some i \<Longrightarrow> i < fresh K \<and> (entries K m = Some i \<longrightarrow> m = n)"
  shows "lock_inv (s\<lparr>kern := K, pcs := P\<rparr>)"
  unfolding lock_inv_def sys.simps using assms by simp

lemma lock_inv_start: "lock_inv start"
  by (simp add: lock_inv_def start_def boot_def)

lemma lock_inv_open:
  assumes inv: "lock_inv s" and idle: "pcs s p = Idle" and op: "openLockFile name (kern s) = (fd, k)"
  shows "lock_inv (s\<lparr>kern := k, pcs := (pcs s)(p := Opened name fd)\<rparr>)"
proof -
  let ?k = "kern s"
  have k: "fresh ?k \<le> fd" "fd < fresh k" "fresh ?k \<le> fresh k"
    "\<And>e. e \<noteq> fd \<Longrightarrow> fds k e = fds ?k e" "\<exists>i. fds k fd = Some i \<and> entries k name = Some i"
    "\<And>n i. entries ?k n = Some i \<Longrightarrow> entries k n = Some i"
    "\<And>i e. i < fresh ?k \<Longrightarrow> holder ?k i = Some e \<Longrightarrow> holder k i = Some e"
    "\<And>n i. entries k n = Some i \<Longrightarrow> entries ?k n = Some i \<or> n = name \<and> i = fresh ?k \<and> fresh ?k < fresh k"
    "\<And>i e. holder k i = Some e \<Longrightarrow> holder ?k i = Some e"
    using op by (auto simp: openLockFile_def split: option.splits if_splits)
  have other: "e < fresh ?k \<and> (\<exists>i < fresh ?k. fds k e = Some i \<and> entries k n = Some i)"
    if h: "has_fd (pcs s q) = Some (n, e)" for q n e
  proof -
    from lock_invD(2) [OF inv h] obtain i where i: "fds ?k e = Some i" "entries ?k n = Some i" by blast
    have "e < fresh ?k" "i < fresh ?k" using lock_invD(1) [OF inv h] lock_invD(7) [OF inv i(2)] by auto
    then show ?thesis using i k(1,4,6) by (metis leD)
  qed
  have hold: "\<exists>i. fds k e = Some i \<and> holder k i = Some e" if h: "locking (pcs s q) = Some (n, e)" for q n e
  proof -
    from lock_invD(4) [OF inv h] obtain i where i: "fds ?k e = Some i" "holder ?k i = Some e" by blast
    note f = locking_fd [OF h]
    from lock_invD(2) [OF inv f] i(1) have "i < fresh ?k" using lock_invD(7) [OF inv] by auto
    moreover have "fds k e = Some i" using i(1) k(1,4) lock_invD(1) [OF inv f] by auto
    ultimately show ?thesis using k(7) i(2) by blast
  qed
  have clash: "\<not> has_fd (pcs s q) = Some (m, fd)" for q m using other [of q m fd] k(1) by auto
  show ?thesis
  proof (rule lock_invI)
    fix q n e assume "has_fd (((pcs s)(p := Opened name fd)) q) = Some (n, e)"
    then show "e < fresh k \<and> (\<exists>i. fds k e = Some i \<and> entries k n = Some i)"
      using k(2,3,5) other [of q n e] by (cases "q = p") auto
  next
    fix q q' n m e
    assume "has_fd (((pcs s)(p := Opened name fd)) q) = Some (n, e)" "has_fd (((pcs s)(p := Opened name fd)) q') = Some (m, e)"
    then show "q = q'" using clash lock_invD(3) [OF inv] by (cases "q = p"; cases "q' = p") auto
  next
    fix q n e assume "locking (((pcs s)(p := Opened name fd)) q) = Some (n, e)"
    then show "\<exists>i. fds k e = Some i \<and> holder k i = Some e" using hold by (cases "q = p") auto
  next
    fix q n e cs assume "((pcs s)(p := Opened name fd)) q = Releasing n e cs"
    then show "cs = release_calls e \<or> cs = [sys_close e]" using lock_invD(5) [OF inv] by (cases "q = p") auto
  next
    fix i e assume "holder k i = Some e"
    from lock_invD(6) [OF inv k(9) [OF this]] obtain q n where q: "locking (pcs s q) = Some (n, e)" "fds ?k e = Some i" by blast
    have "q \<noteq> p" using q(1) idle by auto
    moreover have "e \<noteq> fd" using clash locking_fd [OF q(1)] by auto
    ultimately show "\<exists>q n. locking (((pcs s)(p := Opened name fd)) q) = Some (n, e) \<and> fds k e = Some i"
      using q k(4) by (intro exI [of _ q] exI [of _ n]) simp
  next
    fix n m i assume e: "entries k n = Some i"
    then have "i < fresh k" using k(3,8) lock_invD(7) [OF inv] by (metis less_le_trans)
    moreover have "m = n" if "entries k m = Some i"
      using k(8) [OF e] k(8) [OF that] lock_invD(7,8) [OF inv] by (metis less_irrefl)
    ultimately show "i < fresh k \<and> (entries k m = Some i \<longrightarrow> m = n)" by blast
  qed
qed

text \<open>Every other step concerns one descriptor and leaves the locks of the others alone.\<close>

lemma lock_inv_frame:
  assumes inv: "lock_inv s" and mine: "has_fd (pcs s p) = Some (n, fd)"
    and k: "entries k = entries (kern s)" "fresh k = fresh (kern s)" "\<And>e. e \<noteq> fd \<Longrightarrow> fds k e = fds (kern s) e"
      "\<And>e i. e \<noteq> fd \<Longrightarrow> holder k i = Some e \<longleftrightarrow> holder (kern s) i = Some e"
    and c: "has_fd c = None \<or> has_fd c = Some (n, fd) \<and> fds k fd = fds (kern s) fd"
      "\<And>x cs. c = Releasing n fd cs \<Longrightarrow> cs = release_calls fd \<or> cs = [sys_close fd]"
      "locking c \<noteq> None \<Longrightarrow> \<exists>i. fds k fd = Some i \<and> holder k i = Some fd"
      "\<And>i. holder k i = Some fd \<Longrightarrow> locking c \<noteq> None \<and> fds k fd = Some i"
  shows "lock_inv (s\<lparr>kern := k, pcs := (pcs s)(p := c)\<rparr>)"
proof (rule lock_invI)
  fix q m e assume h: "has_fd (((pcs s)(p := c)) q) = Some (m, e)"
  show "e < fresh k \<and> (\<exists>i. fds k e = Some i \<and> entries k m = Some i)"
  proof (cases "q = p")
    case True
    then show ?thesis using h c(1) k(1,2) lock_invD(1,2) [OF inv mine] by auto
  next
    case False
    then have h': "has_fd (pcs s q) = Some (m, e)" using h by simp
    then have "e \<noteq> fd" using False lock_invD(3) [OF inv mine] by metis
    then show ?thesis using k lock_invD(1,2) [OF inv h'] by auto
  qed
next
  fix q q' m m' e
  assume "has_fd (((pcs s)(p := c)) q) = Some (m, e)" "has_fd (((pcs s)(p := c)) q') = Some (m', e)"
  then show "q = q'" using c(1) mine lock_invD(3) [OF inv] by (cases "q = p"; cases "q' = p") auto
next
  fix q m e assume h: "locking (((pcs s)(p := c)) q) = Some (m, e)"
  show "\<exists>i. fds k e = Some i \<and> holder k i = Some e"
  proof (cases "q = p")
    case True
    then have l: "locking c = Some (m, e)" using h by simp
    then have "e = fd" using locking_fd [OF l] c(1) by auto
    then show ?thesis using c(3) l by auto
  next
    case False
    then have h': "locking (pcs s q) = Some (m, e)" using h by simp
    then have "e \<noteq> fd" using False lock_invD(3) [OF inv mine, of q m] locking_fd [OF h'] by auto
    then show ?thesis using k lock_invD(4) [OF inv h'] by auto
  qed
next
  fix q m e cs assume h: "((pcs s)(p := c)) q = Releasing m e cs"
  show "cs = release_calls e \<or> cs = [sys_close e]"
  proof (cases "q = p")
    case True
    then have "c = Releasing m e cs" using h by simp
    moreover from this have "m = n" "e = fd" using c(1) by auto
    ultimately show ?thesis using c(2) by simp
  next
    case False
    then show ?thesis using h lock_invD(5) [OF inv] by simp
  qed
next
  fix i e assume h: "holder k i = Some e"
  show "\<exists>q m. locking (((pcs s)(p := c)) q) = Some (m, e) \<and> fds k e = Some i"
  proof (cases "e = fd")
    case True
    then have l: "locking c \<noteq> None" "fds k fd = Some i" using c(4) h by auto
    then obtain m e' where "locking c = Some (m, e')" by auto
    moreover from this have "e' = fd" using locking_fd c(1) by fastforce
    ultimately show ?thesis using True l(2) by (intro exI [of _ p] exI [of _ m]) simp
  next
    case False
    then have "holder (kern s) i = Some e" using h k(4) by simp
    from lock_invD(6) [OF inv this] obtain q m where q: "locking (pcs s q) = Some (m, e)" "fds (kern s) e = Some i" by blast
    have "q \<noteq> p" using locking_fd [OF q(1)] mine False by auto
    then show ?thesis using q k(3) False by (intro exI [of _ q] exI [of _ m]) simp
  qed
next
  fix m m' i assume "entries k m = Some i"
  then show "i < fresh k \<and> (entries k m' = Some i \<longrightarrow> m' = m)" using k lock_invD(7,8) [OF inv] by auto
qed

text \<open>The descriptor of a process holds a lock exactly if the process is locking, and then that of its file.\<close>

lemma lock_inv_own:
  assumes inv: "lock_inv s" and mine: "has_fd (pcs s p) = Some (n, fd)"
  obtains i where "fds (kern s) fd = Some i"
    "\<And>j. holder (kern s) j = Some fd \<Longrightarrow> j = i \<and> locking (pcs s p) \<noteq> None"
    "locking (pcs s p) \<noteq> None \<Longrightarrow> holder (kern s) i = Some fd"
proof -
  from lock_invD(2) [OF inv mine] obtain i where i: "fds (kern s) fd = Some i" by blast
  have "j = i \<and> locking (pcs s p) \<noteq> None" if h: "holder (kern s) j = Some fd" for j
  proof -
    from lock_invD(6) [OF inv h] obtain q m where q: "locking (pcs s q) = Some (m, fd)" "fds (kern s) fd = Some j" by blast
    have "q = p" using lock_invD(3) [OF inv locking_fd [OF q(1)] mine] .
    then show ?thesis using q i by simp
  qed
  moreover have "holder (kern s) i = Some fd" if l: "locking (pcs s p) \<noteq> None"
  proof -
    from l obtain x where x: "locking (pcs s p) = Some x" by blast
    then have "x = (n, fd)" using locking_fd mine by fastforce
    from lock_invD(4) [OF inv x [unfolded this]] show ?thesis using i by auto
  qed
  ultimately show thesis using i that by blast
qed

lemma sys_unlock_at:
  assumes "fds k fd = Some i" and "\<And>j. holder k j = Some fd \<Longrightarrow> j = i"
  shows "holder (sys_unlock fd k) j \<noteq> Some fd"
    and "e \<noteq> fd \<Longrightarrow> holder (sys_unlock fd k) j = Some e \<longleftrightarrow> holder k j = Some e"
proof -
  have j: "j = i" if "holder k j = Some fd" using assms(2) [OF that] .
  show "holder (sys_unlock fd k) j \<noteq> Some fd" using assms(1) j by (cases "holder k i = Some fd") (auto simp: sys_unlock_def)
  show "e \<noteq> fd \<Longrightarrow> holder (sys_unlock fd k) j = Some e \<longleftrightarrow> holder k j = Some e"
    using assms(1) by (cases "j = i") (auto simp: sys_unlock_def)
qed

lemma sys_unlock_tables [simp]:
  "entries (sys_unlock fd k) = entries k" "fresh (sys_unlock fd k) = fresh k" "fds (sys_unlock fd k) = fds k"
  by (simp_all add: sys_unlock_def split: option.split)

lemma sys_close_tables [simp]:
  "entries (sys_close fd k) = entries k" "fresh (sys_close fd k) = fresh k" "fds (sys_close fd k) = (fds k)(fd := None)"
  "holder (sys_close fd k) = holder (sys_unlock fd k)"
  by (simp_all add: sys_close_def)

lemma lock_inv_close:
  assumes inv: "lock_inv s" and mine: "has_fd (pcs s p) = Some (n, fd)"
  shows "lock_inv (s\<lparr>kern := sys_close fd (kern s), pcs := (pcs s)(p := Idle)\<rparr>)"
proof -
  obtain i where i: "fds (kern s) fd = Some i"
    "\<And>j. holder (kern s) j = Some fd \<Longrightarrow> j = i \<and> locking (pcs s p) \<noteq> None"
    "locking (pcs s p) \<noteq> None \<Longrightarrow> holder (kern s) i = Some fd" by (rule lock_inv_own [OF inv mine]) (rule that)
  note u = sys_unlock_at [OF i(1) conjunct1 [OF i(2)]]
  show ?thesis by (rule lock_inv_frame [OF inv mine]) (simp_all add: u)
qed

lemma lock_inv_content:
  assumes inv: "lock_inv s" and hold: "pcs s p = Holding n fd" and "entries k = entries (kern s)"
    and "fresh k = fresh (kern s)" and "fds k = fds (kern s)" and "holder k = holder (kern s)"
  shows "lock_inv (s\<lparr>kern := k\<rparr>)"
  using assms by (simp add: lock_inv_def)

lemma lock_inv_step:
  assumes "lock_step False s t" and inv: "lock_inv s"
  shows "lock_inv t"
  using assms(1)
proof cases
  case (opens p name fd k)
  then show ?thesis using lock_inv_open inv by blast
next
  case (tries p name fd F r k)
  have mine: "has_fd (pcs s p) = Some (name, fd)" using tries by simp
  obtain i where i: "fds (kern s) fd = Some i"
    "\<And>j. holder (kern s) j = Some fd \<Longrightarrow> j = i \<and> locking (pcs s p) \<noteq> None"
    "locking (pcs s p) \<noteq> None \<Longrightarrow> holder (kern s) i = Some fd" by (rule lock_inv_own [OF inv mine]) (rule that)
  consider "r = Inr fd" "sys_flock fd (kern s) = Some k" | e where "r = Inl e" "k = sys_close fd (kern s)"
    using tries(3) by (auto simp: try_flock_def split: if_splits option.splits)
  then show ?thesis
  proof cases
    case 1
    then have k: "k = (kern s)\<lparr>holder := (holder (kern s))(i \<mapsto> fd)\<rparr>" "holder (kern s) i = None"
      using i tries(2) by (auto simp: sys_flock_def split: if_splits)
    have "lock_inv (s\<lparr>kern := k, pcs := (pcs s)(p := Holding name fd)\<rparr>)"
      by (rule lock_inv_frame [OF inv mine]) (use i k tries(2) in \<open>auto split: if_splits\<close>)
    then show ?thesis unfolding tries(1) 1(1) by simp
  next
    case 2
    then show ?thesis using lock_inv_close [OF inv mine] unfolding tries(1) by simp
  qed
next
  case (records p name fd)
  show ?thesis unfolding records(1)
    by (rule lock_inv_content [OF inv records(2)]) (simp_all add: writeHolderPID_def split: option.split)
next
  case (clears p name fd)
  show ?thesis unfolding clears(1)
    by (rule lock_inv_content [OF inv clears(2)]) (simp_all add: clearHolderPID_def split: option.split)
next
  case (releases p name fd)
  have mine: "has_fd (pcs s p) = Some (name, fd)" using releases by simp
  obtain i where i: "fds (kern s) fd = Some i"
    "\<And>j. holder (kern s) j = Some fd \<Longrightarrow> j = i \<and> locking (pcs s p) \<noteq> None"
    "locking (pcs s p) \<noteq> None \<Longrightarrow> holder (kern s) i = Some fd" by (rule lock_inv_own [OF inv mine]) (rule that)
  have "lock_inv (s\<lparr>kern := kern s, pcs := (pcs s)(p := Releasing name fd (release_calls fd))\<rparr>)"
  proof (rule lock_inv_frame [OF inv mine])
    fix j assume "holder (kern s) j = Some fd"
    then show "locking (Releasing name fd (release_calls fd)) \<noteq> None \<and> fds (kern s) fd = Some j"
      using i(1) i(2) [of j] by (simp add: release_calls_def)
  qed (use i(1,3) releases in \<open>simp_all add: release_calls_def\<close>)
  then show ?thesis unfolding releases(1) by simp
next
  case (calls p name fd c cs)
  have mine: "has_fd (pcs s p) = Some (name, fd)" using calls by simp
  obtain i where i: "fds (kern s) fd = Some i"
    "\<And>j. holder (kern s) j = Some fd \<Longrightarrow> j = i \<and> locking (pcs s p) \<noteq> None"
    "locking (pcs s p) \<noteq> None \<Longrightarrow> holder (kern s) i = Some fd" by (rule lock_inv_own [OF inv mine]) (rule that)
  from lock_invD(5) [OF inv calls(2)] consider "c = sys_unlock fd" "cs = [sys_close fd]" | "c = sys_close fd" "cs = []"
    by (auto simp: release_calls_def)
  then show ?thesis
  proof cases
    case 1
    have "lock_inv (s\<lparr>kern := sys_unlock fd (kern s), pcs := (pcs s)(p := Releasing name fd [sys_close fd])\<rparr>)"
      by (rule lock_inv_frame [OF inv mine]) (simp_all add: sys_unlock_at [OF i(1) conjunct1 [OF i(2)]])
    then show ?thesis unfolding calls(1) 1 by simp
  next
    case 2
    then show ?thesis using lock_inv_close [OF inv mine] unfolding calls(1) by simp
  qed
next
  case (dies p name fd)
  then show ?thesis using lock_inv_close [OF inv dies(2)] by simp
qed simp

lemma lock_reach_inv: "lock_reach False s \<Longrightarrow> lock_inv s"
  by (induction rule: lock_reach.induct) (auto intro: lock_inv_start lock_inv_step)

lemma opened_inode:
  assumes inv: "lock_inv s" and "openLockFile name (kern s) = (fd, k)"
  obtains i where "fds k fd = Some i" "holder k i = (case entries (kern s) name of None \<Rightarrow> None | Some j \<Rightarrow> holder (kern s) j)"
    "holder k i \<noteq> Some fd" "entries (kern s) name = None \<or> entries (kern s) name = Some i"
proof -
  have "holder (kern s) j \<noteq> Some (fresh (kern s))" for j
    using lock_invD(6) [OF inv, of j "fresh (kern s)"] lock_invD(1) [OF inv] locking_fd by (metis less_irrefl)
  then show thesis using assms(2) that by (auto simp: openLockFile_def split: option.splits)
qed

text \<open>
  C23: Mutual exclusion, and no lock is lost. As long as lock files are not removed, in every state that any
  number of processes can reach, with their system calls in any order, any of them failing and any process
  dying, at most one process holds the lock of a sandbox; while one does, \<open>AcquireWithFile\<close> of that sandbox
  fails; and when none holds it and none is about to unlock it, \<open>AcquireWithFile\<close> succeeds unless a call fails.
\<close>

theorem lock_mutual_exclusion:
  assumes "lock_reach False s"
  shows "(\<forall>p q fd fd'. pcs s p = Holding name fd \<and> pcs s q = Holding name fd' \<longrightarrow> p = q)
    \<and> ((\<exists>p fd. pcs s p = Holding name fd) \<longrightarrow> (\<exists>e k. AcquireWithFile F name (kern s) = (Inl e, k)))
    \<and> ((\<forall>p fd cs. pcs s p \<noteq> Holding name fd \<and> pcs s p \<noteq> Releasing name fd cs)
        \<longrightarrow> (\<exists>fd k. AcquireWithFile no_lock_faults name (kern s) = (Inr fd, k) \<and> holder k (the (entries k name)) = Some fd))"
proof (intro conjI allI impI)
  note inv = lock_reach_inv [OF assms(1)]
  obtain fd k where op: "openLockFile name (kern s) = (fd, k)" by force
  from opened_inode [OF inv op] obtain i where i: "fds k fd = Some i"
    "holder k i = (case entries (kern s) name of None \<Rightarrow> None | Some j \<Rightarrow> holder (kern s) j)"
    "holder k i \<noteq> Some fd" "entries (kern s) name = None \<or> entries (kern s) name = Some i" by blast
  {
    fix p q fd fd' assume a: "pcs s p = Holding name fd \<and> pcs s q = Holding name fd'"
    then have p: "locking (pcs s p) = Some (name, fd)" and q: "locking (pcs s q) = Some (name, fd')" by simp_all
    obtain i where "fds (kern s) fd = Some i" "fds (kern s) fd' = Some i"
      using lock_invD(2) [OF inv locking_fd [OF p]] lock_invD(2) [OF inv locking_fd [OF q]] by auto
    then have "fd = fd'" using lock_invD(4) [OF inv p] lock_invD(4) [OF inv q] by auto
    then show "p = q" using lock_invD(3) [OF inv locking_fd [OF p], of q name] locking_fd [OF q] by simp
  next
    assume "\<exists>p fd. pcs s p = Holding name fd"
    then obtain p e where "locking (pcs s p) = Some (name, e)" by (metis locking.simps(1))
    from lock_invD(2) [OF inv locking_fd [OF this]] lock_invD(4) [OF inv this] i(2-4)
    have "holder k i = Some e" "e \<noteq> fd" by auto
    then show "\<exists>e k. AcquireWithFile F name (kern s) = (Inl e, k)"
      using op i(1) by (simp add: AcquireWithFile_def try_flock_def sys_flock_def)
  next
    assume free: "\<forall>p fd cs. pcs s p \<noteq> Holding name fd \<and> pcs s p \<noteq> Releasing name fd cs"
    have "holder k i = None"
    proof (rule ccontr)
      assume "holder k i \<noteq> None"
      then obtain e j where j: "entries (kern s) name = Some j" "holder (kern s) j = Some e" using i(2) by (auto split: option.splits)
      from lock_invD(6) [OF inv j(2)] obtain p n where p: "locking (pcs s p) = Some (n, e)" "fds (kern s) e = Some j" by blast
      have "entries (kern s) n = Some j" using lock_invD(2) [OF inv locking_fd [OF p(1)]] p(2) by auto
      then have "n = name" using lock_invD(8) [OF inv j(1)] by blast
      then show False using p(1) free by (cases "pcs s p" rule: locking.cases) auto
    qed
    then have a: "AcquireWithFile no_lock_faults name (kern s) = (Inr fd, k\<lparr>holder := (holder k)(i \<mapsto> fd)\<rparr>)"
      using op i(1) by (simp add: AcquireWithFile_def try_flock_def sys_flock_def no_lock_faults_def)
    have "entries k name = Some i" using op i(1) by (auto simp: openLockFile_def split: option.splits)
    with a show "\<exists>fd k. AcquireWithFile no_lock_faults name (kern s) = (Inr fd, k) \<and> holder k (the (entries k name)) = Some fd"
      by simp
  }
qed

definition one_holder :: sys where
  "one_holder = \<lparr>kern = snd (AcquireWithFile no_lock_faults ''box'' boot), pcs = (\<lambda>_. Idle)(0 := Holding ''box'' 1)\<rparr>"

theorem lock_mutual_exclusion_witness:
  "lock_reach False one_holder \<and> {q. \<exists>fd. pcs one_holder q = Holding ''box'' fd} = {0}
    \<and> \<not> is_ok (fst (AcquireWithFile no_lock_faults ''box'' (kern one_holder)))"
proof -
  let ?s1 = "start\<lparr>kern := snd (openLockFile ''box'' boot), pcs := (pcs start)(0 := Opened ''box'' 1)\<rparr>"
  have "lock_step False start ?s1"
    by (rule lock_step.opens) (simp_all add: start_def boot_def openLockFile_def)
  moreover have "lock_step False ?s1 (?s1\<lparr>kern := snd (AcquireWithFile no_lock_faults ''box'' boot), pcs := (pcs ?s1)(0 := case (Inr 1 :: (acquire_error, nat) result) of Inr fd \<Rightarrow> Holding ''box'' fd | Inl e \<Rightarrow> Idle)\<rparr>)"
    by (rule lock_step.tries [of ?s1 0 "''box''" 1 no_lock_faults "Inr 1"])
      (simp_all add: AcquireWithFile_def boot_def openLockFile_def sys_flock_def try_flock_def no_lock_faults_def)
  moreover have "?s1\<lparr>kern := snd (AcquireWithFile no_lock_faults ''box'' boot), pcs := (pcs ?s1)(0 := case (Inr 1 :: (acquire_error, nat) result) of Inr fd \<Rightarrow> Holding ''box'' fd | Inl e \<Rightarrow> Idle)\<rparr> = one_holder"
    by (simp add: one_holder_def start_def)
  ultimately have r: "lock_reach False one_holder"
    by (metis lock_reach.init lock_reach.step)
  have h: "pcs one_holder 0 = Holding ''box'' 1" by (simp add: one_holder_def)
  note m = lock_mutual_exclusion [OF r, of "''box''" no_lock_faults]
  have "{q. \<exists>fd. pcs one_holder q = Holding ''box'' fd} = {0}" using conjunct1 [OF m] h by auto
  moreover have "\<not> is_ok (fst (AcquireWithFile no_lock_faults ''box'' (kern one_holder)))" using m h by auto
  ultimately show ?thesis using r by simp
qed

text \<open>C24: Removing the lock file breaks mutual exclusion. When a holder may remove the lock file before it
  releases the lock, as destroying a sandbox, a failed creation and the stale-lock sweep do, a state is
  reachable in which two processes hold the lock of the same sandbox: one had opened the old file just
  before it was removed and locks that, the other creates and locks a new file.\<close>

theorem lock_removal_breaks_exclusion:
  "\<exists>s p q fd fd'. lock_reach True s \<and> p \<noteq> q \<and> pcs s p = Holding ''box'' fd \<and> pcs s q = Holding ''box'' fd'"
proof -
  let ?k1 = "snd (openLockFile ''box'' boot)"
  let ?k2 = "the (sys_flock 1 ?k1)"
  let ?k3 = "snd (openLockFile ''box'' ?k2)"
  let ?k4 = "RemoveLockFile ''box'' ?k3"
  let ?k5 = "sys_unlock 1 ?k4"
  let ?k6 = "the (sys_flock 2 ?k5)"
  let ?k7 = "snd (openLockFile ''box'' ?k6)"
  let ?k8 = "the (sys_flock 4 ?k7)"
  note ev = lock_defs boot_def start_def no_lock_faults_def
  have r1: "lock_reach True \<lparr>kern = ?k1, pcs = (\<lambda>_. Idle)(0 := Opened ''box'' 1)\<rparr>"
    using lock_reach.step [OF lock_reach.init lock_step.opens [of start 0 "''box''" 1 ?k1 True]] by (simp add: ev)
  have r2: "lock_reach True \<lparr>kern = ?k2, pcs = (\<lambda>_. Idle)(0 := Holding ''box'' 1)\<rparr>"
    using lock_reach.step [OF r1 lock_step.tries [of _ 0 "''box''" 1 no_lock_faults "Inr 1" ?k2 True]] by (simp add: ev)
  have r3: "lock_reach True \<lparr>kern = ?k3, pcs = (\<lambda>_. Idle)(0 := Holding ''box'' 1, 1 := Opened ''box'' 2)\<rparr>"
    using lock_reach.step [OF r2 lock_step.opens [of _ 1 "''box''" 2 ?k3 True]] by (simp add: ev)
  have r4: "lock_reach True \<lparr>kern = ?k4, pcs = (\<lambda>_. Idle)(0 := Holding ''box'' 1, 1 := Opened ''box'' 2)\<rparr>"
    using lock_reach.step [OF r3 lock_step.removes [of True _ 0 "''box''" 1]] by simp
  have r4': "lock_reach True \<lparr>kern = ?k4, pcs = (\<lambda>_. Idle)(0 := Releasing ''box'' 1 (release_calls 1), 1 := Opened ''box'' 2)\<rparr>"
    using lock_reach.step [OF r4 lock_step.releases [of _ 0 "''box''" 1 True]] by (simp add: fun_upd_twist)
  have r5: "lock_reach True \<lparr>kern = ?k5, pcs = (\<lambda>_. Idle)(0 := Releasing ''box'' 1 [sys_close 1], 1 := Opened ''box'' 2)\<rparr>"
    using lock_reach.step [OF r4' lock_step.calls [of _ 0 "''box''" 1 "sys_unlock 1" "[sys_close 1]" True]]
    by (simp add: fun_upd_twist release_calls_def)
  have r6: "lock_reach True \<lparr>kern = ?k6, pcs = (\<lambda>_. Idle)(0 := Releasing ''box'' 1 [sys_close 1], 1 := Holding ''box'' 2)\<rparr>"
    using lock_reach.step [OF r5 lock_step.tries [of _ 1 "''box''" 2 no_lock_faults "Inr 2" ?k6 True]] by (simp add: ev)
  have r7: "lock_reach True \<lparr>kern = ?k7, pcs = (\<lambda>_. Idle)(0 := Releasing ''box'' 1 [sys_close 1], 1 := Holding ''box'' 2, 2 := Opened ''box'' 4)\<rparr>"
    using lock_reach.step [OF r6 lock_step.opens [of _ 2 "''box''" 4 ?k7 True]] by (simp add: ev)
  have r8: "lock_reach True \<lparr>kern = ?k8, pcs = (\<lambda>_. Idle)(0 := Releasing ''box'' 1 [sys_close 1], 1 := Holding ''box'' 2, 2 := Holding ''box'' 4)\<rparr>"
    using lock_reach.step [OF r7 lock_step.tries [of _ 2 "''box''" 4 no_lock_faults "Inr 4" ?k8 True]] by (simp add: ev)
  then show ?thesis
    by (intro exI [of _ "\<lparr>kern = ?k8, pcs = (\<lambda>_. Idle)(0 := Releasing ''box'' 1 [sys_close 1], 1 := Holding ''box'' 2, 2 := Holding ''box'' 4)\<rparr>"]
        exI [of _ "1 :: nat"] exI [of _ "2 :: nat"] exI [of _ "2 :: nat"] exI [of _ "4 :: nat"]) simp
qed

section \<open>Operations run alone\<close>

text \<open>A kernel whose tables agree: descriptors and inodes are below the next fresh number and only open
  descriptors hold locks.\<close>

definition kernel_ok :: "kernel \<Rightarrow> bool" where
  "kernel_ok k \<longleftrightarrow> (\<forall>fd. fds k fd \<noteq> None \<longrightarrow> fd < fresh k) \<and> (\<forall>i fd. holder k i = Some fd \<longrightarrow> fds k fd = Some i) \<and>
     (\<forall>i. holder k i \<noteq> None \<longrightarrow> i < fresh k) \<and> (\<forall>n i. entries k n = Some i \<longrightarrow> i < fresh k)"

text \<open>\<open>grown k k'\<close>: \<open>k'\<close> has every file of \<open>k\<close>.\<close>

definition grown :: "kernel \<Rightarrow> kernel \<Rightarrow> bool" where
  "grown k k' \<longleftrightarrow> entries k \<subseteq>\<^sub>m entries k'"

lemma grown_refl [simp]: "grown k k" and grown_trans: "grown a b \<Longrightarrow> grown b c \<Longrightarrow> grown a c"
  by (auto simp: grown_def intro: map_le_trans)

definition owns :: "kernel \<Rightarrow> string \<Rightarrow> nat \<Rightarrow> bool" where
  "owns k name fd \<longleftrightarrow> (\<exists>i. entries k name = Some i \<and> fds k fd = Some i \<and> holder k i = Some fd)"

text \<open>Opening makes one new descriptor of the file of the name and touches no lock.\<close>

lemma openLockFile_result:
  assumes "kernel_ok k" and "openLockFile name k = (fd, k1)"
  obtains i where "kernel_ok k1" "grown k k1" "entries k1 name = Some i" "fds k1 = (fds k)(fd \<mapsto> i)"
    "holder k1 = holder k" "fds k fd = None" "holder k i \<noteq> Some fd"
proof -
  have new: "fds k (fresh k) = None" "holder k (fresh k) = None" "fds k (Suc (fresh k)) = None"
    using assms(1) unfolding kernel_ok_def
    by (metis less_irrefl option.exhaust, metis less_irrefl, metis Suc_n_not_le_n less_imp_le option.exhaust)
  have free: "holder k i \<noteq> Some (fresh k)" for i using assms(1) new(1) unfolding kernel_ok_def by force
  show thesis
  proof (cases "entries k name")
    case None
    then have "k1 = k\<lparr>entries := (entries k)(name \<mapsto> fresh k), content := (content k)(fresh k := []),
        holder := holder k, fds := (fds k)(Suc (fresh k) \<mapsto> fresh k), fresh := fresh k + 2\<rparr>" "fd = Suc (fresh k)"
      using assms(2) new(2) by (auto simp: openLockFile_def fun_upd_idem)
    then show thesis using assms(1) new None
      by (intro that [of "fresh k"]) (auto simp: kernel_ok_def grown_def map_le_def less_Suc_eq)
  next
    case (Some i)
    then have "k1 = k\<lparr>fds := (fds k)(fresh k \<mapsto> i), fresh := fresh k + 1\<rparr>" "fd = fresh k"
      using assms(2) by (auto simp: openLockFile_def)
    then show thesis using assms(1) new(1) free Some
      by (intro that [of i]) (auto simp: kernel_ok_def grown_def less_Suc_eq)
  qed
qed

lemma kernel_ok_close:
  assumes "kernel_ok k1" "fds k1 = (fds k)(fd \<mapsto> i)" "holder k1 = holder k" "fds k fd = None" "holder k i \<noteq> Some fd"
  shows "kernel_ok (sys_close fd k1) \<and> fds (sys_close fd k1) = fds k \<and> holder (sys_close fd k1) = holder k
    \<and> entries (sys_close fd k1) = entries k1"
proof -
  have k: "sys_close fd k1 = k1\<lparr>fds := fds k\<rparr>"
    using assms by (simp add: sys_close_def sys_unlock_def fun_upd_idem)
  have h: "fds k e = Some j" if j: "holder k j = Some e" for j e
  proof -
    have "((fds k)(fd \<mapsto> i)) e = Some j" using assms(1-3) j by (simp add: kernel_ok_def)
    then show ?thesis using assms(5) j by (cases "e = fd") auto
  qed
  have l: "e < fresh k1" if "fds k e \<noteq> None" for e
  proof -
    have "((fds k)(fd \<mapsto> i)) e \<noteq> None \<longrightarrow> e < fresh k1" using assms(1,2) by (simp add: kernel_ok_def)
    then show ?thesis using assms(4) that by (cases "e = fd") auto
  qed
  show ?thesis using assms(1,3) h l unfolding k by (auto simp: kernel_ok_def)
qed

lemma AcquireWithFile_taken:
  assumes "kernel_ok k" and "AcquireWithFile F name k = (Inr fd, k')"
  obtains i where "kernel_ok k'" "grown k k'" "entries k' name = Some i" "fds k' = (fds k)(fd \<mapsto> i)"
    "holder k' = (holder k)(i \<mapsto> fd)" "fds k fd = None" "holder k i = None"
proof -
  obtain fd' k1 where op: "openLockFile name k = (fd', k1)" by force
  obtain i where i: "kernel_ok k1" "grown k k1" "entries k1 name = Some i" "fds k1 = (fds k)(fd' \<mapsto> i)"
    "holder k1 = holder k" "fds k fd' = None" "holder k i \<noteq> Some fd'"
    by (rule openLockFile_result [OF assms(1) op])
  have "fd = fd'" "holder k i = None" "k' = k1\<lparr>holder := (holder k)(i \<mapsto> fd)\<rparr>"
    using assms(2) op i by (auto simp: AcquireWithFile_def try_flock_def sys_flock_def split: if_splits)
  moreover from this i have "kernel_ok k'" by (auto simp: kernel_ok_def)
  ultimately show thesis using i that [of i] by (simp add: grown_def)
qed

lemma AcquireWithFile_refused:
  assumes "kernel_ok k" and "AcquireWithFile F name k = (Inl e, k')"
  shows "kernel_ok k' \<and> grown k k' \<and> fds k' = fds k \<and> holder k' = holder k"
proof (cases "lf_open F name k")
  case True
  then show ?thesis using assms by (simp add: AcquireWithFile_def)
next
  case False
  obtain fd k1 where op: "openLockFile name k = (fd, k1)" by force
  obtain i where i: "kernel_ok k1" "grown k k1" "entries k1 name = Some i" "fds k1 = (fds k)(fd \<mapsto> i)"
    "holder k1 = holder k" "fds k fd = None" "holder k i \<noteq> Some fd"
    by (rule openLockFile_result [OF assms(1) op])
  have "k' = sys_close fd k1"
    using assms(2) op False by (auto simp: AcquireWithFile_def try_flock_def split: if_splits option.splits)
  then show ?thesis using kernel_ok_close [OF i(1,4-7)] i(2) by (simp add: grown_def)
qed

text \<open>Nobody else touches the kernel meanwhile.\<close>

definition undisturbed :: "surroundings \<Rightarrow> bool" where
  "undisturbed S \<longleftrightarrow> (\<forall>name i k. others S name i k = k)"

lemma retry_result:
  assumes "undisturbed S" and "kernel_ok k" and "retry S name i n k = (r, k')"
  shows "(case r of
      Inl e \<Rightarrow> kernel_ok k' \<and> grown k k' \<and> fds k' = fds k \<and> holder k' = holder k
    | Inr fd \<Rightarrow> (\<exists>i. kernel_ok k' \<and> grown k k' \<and> entries k' name = Some i \<and> fds k' = (fds k)(fd \<mapsto> i) \<and>
        holder k' = (holder k)(i \<mapsto> fd) \<and> fds k fd = None \<and> holder k i = None))"
  using assms(2,3)
proof (induction n arbitrary: i k)
  case (Suc n)
  obtain r1 k1 where a: "AcquireWithFile (failing S) name k = (r1, k1)" by (cases "AcquireWithFile (failing S) name k")
  show ?case
  proof (cases r1)
    case (Inl e)
    have k1: "kernel_ok k1 \<and> grown k k1 \<and> fds k1 = fds k \<and> holder k1 = holder k"
      by (rule AcquireWithFile_refused [OF Suc.prems(1)]) (use a Inl in simp)
    show ?thesis
    proof (cases e)
      case AcquireFailed
      then have "r = Inl AcquireFailed" "k' = k1" using Suc.prems(2) a Inl by auto
      with k1 show ?thesis by simp
    next
      case ErrWouldBlock
      then have "retry S name (Suc i) n k1 = (r, k')"
        using Suc.prems(2) a Inl assms(1) by (simp add: undisturbed_def cong: if_cong)
      with k1 show ?thesis using Suc.IH [of k1 "Suc i"] grown_trans [of k k1 k']
        by (cases r) (auto simp del: fun_upd_apply)
    qed
  next
    case (Inr fd)
    then have "r = Inr fd" "k' = k1" using Suc.prems(2) a by auto
    moreover obtain j where "kernel_ok k1" "grown k k1" "entries k1 name = Some j" "fds k1 = (fds k)(fd \<mapsto> j)"
      "holder k1 = (holder k)(j \<mapsto> fd)" "fds k fd = None" "holder k j = None"
      by (rule AcquireWithFile_taken [OF Suc.prems(1)]) (use a Inr in simp)
    ultimately show ?thesis by auto
  qed
qed auto

lemma writeHolderPID_frame [simp]:
  "entries (writeHolderPID fd pid k) = entries k" "fds (writeHolderPID fd pid k) = fds k"
  "holder (writeHolderPID fd pid k) = holder k" "fresh (writeHolderPID fd pid k) = fresh k"
  by (simp_all add: writeHolderPID_def split: option.split)

lemma kernel_ok_cong:
  "entries k = entries l \<Longrightarrow> fds k = fds l \<Longrightarrow> holder k = holder l \<Longrightarrow> fresh k = fresh l \<Longrightarrow> kernel_ok k = kernel_ok l"
  by (simp add: kernel_ok_def)

lemma acquireWithRetry_result:
  assumes "undisturbed S" and "kernel_ok k" and "acquireWithRetry S name k = (r, k')"
  shows "(case r of
      Inl e \<Rightarrow> kernel_ok k' \<and> grown k k' \<and> fds k' = fds k \<and> holder k' = holder k
    | Inr fd \<Rightarrow> (\<exists>i. kernel_ok k' \<and> grown k k' \<and> entries k' name = Some i \<and> fds k' = (fds k)(fd \<mapsto> i) \<and>
        holder k' = (holder k)(i \<mapsto> fd) \<and> fds k fd = None \<and> holder k i = None))"
proof -
  obtain r1 k1 where a: "retry S name 0 lockRetryAttempts k = (r1, k1)" by (cases "retry S name 0 lockRetryAttempts k")
  show ?thesis
  proof (cases r1)
    case (Inl e)
    then show ?thesis using retry_result [OF assms(1,2) a] a assms(3)
      by (cases e) (auto simp: acquireWithRetry_def)
  next
    case (Inr fd)
    have "kernel_ok (writeHolderPID fd (own_pid S) k1) = kernel_ok k1" by (rule kernel_ok_cong) simp_all
    moreover have "r = Inr fd" "k' = writeHolderPID fd (own_pid S) k1"
      using Inr a assms(3) by (auto simp: acquireWithRetry_def)
    ultimately show ?thesis using Inr retry_result [OF assms(1,2) a] by (auto simp: grown_def)
  qed
qed

text \<open>\<open>took F0 H0 rs F H\<close>: the descriptors \<open>rs\<close> and their locks are all that the tables \<open>F\<close> and \<open>H\<close> have
  beyond \<open>F0\<close> and \<open>H0\<close>.\<close>

fun took :: "(nat \<rightharpoonup> nat) \<Rightarrow> (nat \<rightharpoonup> nat) \<Rightarrow> nat list \<Rightarrow> (nat \<rightharpoonup> nat) \<Rightarrow> (nat \<rightharpoonup> nat) \<Rightarrow> bool" where
  "took F0 H0 [] F H = (F = F0 \<and> H = H0)"
| "took F0 H0 (r # rs) F H = (\<exists>i. F r = Some i \<and> H i = Some r \<and> took F0 H0 rs (F(r := None)) (H(i := None)))"

lemma took_snoc:
  "took F0 H0 rs F H \<Longrightarrow> F r = None \<Longrightarrow> H i = None \<Longrightarrow> took F0 H0 (rs @ [r]) (F(r \<mapsto> i)) (H(i \<mapsto> r))"
proof (induction rs arbitrary: F H)
  case (Cons a rs)
  then obtain j where j: "F a = Some j" "H j = Some a" "took F0 H0 rs (F(a := None)) (H(j := None))" by auto
  have ne: "a \<noteq> r" "j \<noteq> i" using j Cons.prems(2,3) by auto
  have "took F0 H0 (rs @ [r]) ((F(a := None))(r \<mapsto> i)) ((H(j := None))(i \<mapsto> r))"
    by (rule Cons.IH [OF j(3)]) (use Cons.prems ne in auto)
  then have "took F0 H0 (rs @ [r]) ((F(r \<mapsto> i))(a := None)) ((H(i \<mapsto> r))(j := None))"
    using ne by (simp add: fun_upd_twist)
  then have "\<exists>i'. (F(r \<mapsto> i)) a = Some i' \<and> (H(i \<mapsto> r)) i' = Some a \<and>
      took F0 H0 (rs @ [r]) ((F(r \<mapsto> i))(a := None)) ((H(i \<mapsto> r))(i' := None))"
    using j ne by (intro exI [of _ j]) simp
  then show ?case unfolding append_Cons took.simps .
qed (simp add: fun_upd_idem)

lemma release_lock_frame:
  assumes "fds k r = Some i" and "holder k i = Some r"
  shows "fds (release_lock r k) = (fds k)(r := None)" "holder (release_lock r k) = (holder k)(i := None)"
    "entries (release_lock r k) = entries k"
  using assms by (simp_all add: release_lock_def makeRelease_eq clearHolderPID_def sys_close_def sys_unlock_def)

lemma release_all:
  "took F0 H0 rs (fds k) (holder k) \<Longrightarrow> fds (fold release_lock rs k) = F0 \<and> holder (fold release_lock rs k) = H0 \<and>
     entries (fold release_lock rs k) = entries k"
proof (induction rs arbitrary: k)
  case (Cons r rs)
  then obtain i where i: "fds k r = Some i" "holder k i = Some r"
    "took F0 H0 rs ((fds k)(r := None)) ((holder k)(i := None))" by auto
  have "took F0 H0 rs (fds (release_lock r k)) (holder (release_lock r k))"
    unfolding release_lock_frame [OF i(1,2)] by (rule i(3))
  from Cons.IH [OF this] show ?case by (simp add: release_lock_frame [OF i(1,2)])
qed simp

lemma acquire_all_result:
  assumes "undisturbed S" and "kernel_ok k" and "took F0 H0 rs (fds k) (holder k)"
    and "list_all2 (owns k) done rs" and "acquire_all S rs names k = (r, k')"
  shows "grown k k' \<and> (case r of
      Inl e \<Rightarrow> fds k' = F0 \<and> holder k' = H0
    | Inr rs' \<Rightarrow> list_all2 (owns k') (done @ names) rs' \<and> took F0 H0 rs' (fds k') (holder k'))"
  using assms(2-5)
proof (induction names arbitrary: k rs "done")
  case (Cons name names)
  obtain r1 k1 where a: "acquireWithRetry S name k = (r1, k1)" by (cases "acquireWithRetry S name k")
  note res = acquireWithRetry_result [OF assms(1) Cons.prems(1) a]
  show ?case
  proof (cases r1)
    case (Inl e)
    then have "took F0 H0 rs (fds k1) (holder k1)" "grown k k1" using res Cons.prems(2) by auto
    then show ?thesis using release_all [of F0 H0 rs k1] Inl a Cons.prems(4) by (auto simp: grown_def)
  next
    case (Inr fd)
    then obtain i where k1: "kernel_ok k1" "grown k k1" "entries k1 name = Some i" "fds k1 = (fds k)(fd \<mapsto> i)"
      "holder k1 = (holder k)(i \<mapsto> fd)" "fds k fd = None" "holder k i = None" using res by auto
    have t: "took F0 H0 (rs @ [fd]) (fds k1) (holder k1)"
      unfolding k1(4,5) by (rule took_snoc [OF Cons.prems(2) k1(6,7)])
    have "owns k1 n e" if "owns k n e" for n e
    proof -
      from that obtain j where j: "entries k n = Some j" "fds k e = Some j" "holder k j = Some e" by (auto simp: owns_def)
      then have "entries k1 n = Some j" using k1(2) by (metis domI grown_def map_le_def)
      moreover have "e \<noteq> fd" "j \<noteq> i" using j k1(6,7) by auto
      ultimately show ?thesis using j k1(4,5) by (simp add: owns_def)
    qed
    then have "list_all2 (owns k1) done rs" using Cons.prems(3) by (rule list_all2_mono [rotated])
    then have o: "list_all2 (owns k1) (done @ [name]) (rs @ [fd])"
      by (rule list_all2_appendI) (use k1(3-5) in \<open>simp add: owns_def\<close>)
    have "acquire_all S (rs @ [fd]) names k1 = (r, k')" using Cons.prems(4) a Inr by simp
    from Cons.IH [OF k1(1) t o this] grown_trans [OF k1(2)] show ?thesis by (cases r) auto
  qed
qed auto

text \<open>C26: Locking several sandboxes is all or nothing. When nobody interferes, the call either returns
  one descriptor per name, in sorted order, each holding the lock of its sandbox, or it fails having
  given back everything it took: the open descriptors and the locks are those from before.\<close>

theorem AcquireMultiLock_all_or_nothing:
  assumes "undisturbed S" and "kernel_ok k"
  shows "case AcquireMultiLock S names k of
      (Inl e, k') \<Rightarrow> fds k' = fds k \<and> holder k' = holder k
    | (Inr rs, k') \<Rightarrow> list_all2 (owns k') (sort names) rs"
proof -
  obtain r k' where a: "AcquireMultiLock S names k = (r, k')" by (cases "AcquireMultiLock S names k")
  have "acquire_all S [] (sort names) k = (r, k')" using a by (simp add: AcquireMultiLock_def)
  from acquire_all_result [OF assms _ _ this, of "fds k" "holder k" "[]"] show ?thesis
    unfolding a by (cases r) auto
qed

definition quiet_place :: surroundings where
  "quiet_place = \<lparr>own_pid = 7, signals = (\<lambda>_. ESRCH), failing = no_lock_faults, others = (\<lambda>_ _ k. k)\<rparr>"

theorem AcquireMultiLock_all_or_nothing_witness:
  "case AcquireMultiLock quiet_place [''src'', ''dst''] boot of
      (Inl e, k') \<Rightarrow> fds k' = fds boot \<and> holder k' = holder boot
    | (Inr rs, k') \<Rightarrow> list_all2 (owns k') (sort [''src'', ''dst'']) rs"
  by (rule AcquireMultiLock_all_or_nothing) (simp_all add: undisturbed_def quiet_place_def kernel_ok_def boot_def)

lemma makeRelease_frame:
  assumes "fds k r = Some i" and "holder k i = Some r"
  shows "fds (makeRelease r k) = (fds k)(r := None)" "holder (makeRelease r k) = (holder k)(i := None)"
    "entries (makeRelease r k) = entries k" "fresh (makeRelease r k) = fresh k"
  using assms by (simp_all add: makeRelease_eq sys_close_def sys_unlock_def)

lemma sweep_one:
  fixes dryRun :: bool
  assumes "kernel_ok k" and "AcquireNonBlocking F name k = (Inr fd, k1)"
  defines "k2 \<equiv> makeRelease fd (if dryRun then k1 else sys_unlink name k1)"
  shows "kernel_ok k2 \<and> fds k2 = fds k \<and> holder k2 = holder k \<and>
    (\<forall>n i. n \<noteq> name \<or> dryRun \<longrightarrow> entries k n = Some i \<longrightarrow> entries k2 n = Some i) \<and>
    (\<forall>i. entries k name = Some i \<longrightarrow> holder k i = None)"
proof -
  obtain i where k1: "kernel_ok k1" "grown k k1" "entries k1 name = Some i" "fds k1 = (fds k)(fd \<mapsto> i)"
    "holder k1 = (holder k)(i \<mapsto> fd)" "fds k fd = None" "holder k i = None"
    by (rule AcquireWithFile_taken [OF assms(1)]) (use assms(2) in \<open>simp add: AcquireNonBlocking_def\<close>)
  let ?k = "if dryRun then k1 else sys_unlink name k1"
  have f: "fds ?k fd = Some i" "holder ?k i = Some fd" using k1 by (simp_all add: sys_unlink_def)
  note frame = makeRelease_frame [OF f, folded k2_def]
  have tabs: "fds k2 = fds k" "holder k2 = holder k"
    using k1 by (simp_all add: frame sys_unlink_def fun_upd_idem)
  have "fresh k2 = fresh k1" by (simp add: frame sys_unlink_def)
  moreover have "entries k2 \<subseteq>\<^sub>m entries k1" by (auto simp: frame sys_unlink_def map_le_def)
  ultimately have "kernel_ok k2" using k1(1,4-7) assms(1) tabs unfolding kernel_ok_def map_le_def
    by (auto simp: domIff split: if_splits) (metis domI)
  moreover have "entries k2 n = Some j" if "n \<noteq> name \<or> dryRun" "entries k n = Some j" for n j
    using that k1(2) by (auto simp: frame sys_unlink_def grown_def map_le_def dom_def)
  moreover have "holder k j = None" if "entries k name = Some j" for j
  proof -
    have "entries k1 name = Some j" using that k1(2) by (metis domI grown_def map_le_def)
    then show ?thesis using k1(3,7) by simp
  qed
  ultimately show ?thesis using tabs by blast
qed

lemma sweep_result:
  "kernel_ok k \<Longrightarrow> sweep F dirs dryRun names k = (removed, k') \<Longrightarrow>
   fds k' = fds k \<and> holder k' = holder k \<and> set removed \<subseteq> set names - set dirs \<and>
   (\<forall>n i. n \<notin> set removed \<or> dryRun \<longrightarrow> entries k n = Some i \<longrightarrow> entries k' n = Some i) \<and>
   (\<forall>n i. n \<in> set removed \<longrightarrow> entries k n = Some i \<longrightarrow> holder k i = None)"
proof (induction names arbitrary: k removed k')
  case (Cons name names)
  show ?case
  proof (cases "name \<in> set dirs")
    case True
    then show ?thesis using Cons.IH [of k removed k'] Cons.prems by auto
  next
    case False
    obtain r k1 where a: "AcquireNonBlocking F name k = (r, k1)" by (cases "AcquireNonBlocking F name k")
    show ?thesis
    proof (cases r)
      case (Inl e)
      have "kernel_ok k1 \<and> grown k k1 \<and> fds k1 = fds k \<and> holder k1 = holder k"
        by (rule AcquireWithFile_refused [OF Cons.prems(1)]) (use a Inl in \<open>simp add: AcquireNonBlocking_def\<close>)
      moreover from this have "entries k n = Some i \<Longrightarrow> entries k1 n = Some i" for n i
        by (metis domI grown_def map_le_def)
      moreover have "sweep F dirs dryRun names k1 = (removed, k')" using Cons.prems(2) False a Inl by simp
      ultimately show ?thesis using Cons.IH [of k1 removed k'] by auto
    next
      case (Inr fd)
      let ?k2 = "makeRelease fd (if dryRun then k1 else sys_unlink name k1)"
      note one = sweep_one [OF Cons.prems(1), where name = name and fd = fd and ?k1.0 = k1 and dryRun = dryRun]
      obtain rem' k3 where b: "sweep F dirs dryRun names ?k2 = (rem', k3)" by (cases "sweep F dirs dryRun names ?k2")
      have "removed = name # rem'" "k' = k3"
        using Cons.prems(2) False a Inr b by (auto simp: Let_def split: if_splits prod.splits)
      moreover have "kernel_ok ?k2" "fds ?k2 = fds k" "holder ?k2 = holder k"
        "\<And>n i. n \<noteq> name \<or> dryRun \<Longrightarrow> entries k n = Some i \<Longrightarrow> entries ?k2 n = Some i"
        "\<And>i. entries k name = Some i \<Longrightarrow> holder k i = None"
        using one a Inr by blast+
      moreover note Cons.IH [OF \<open>kernel_ok ?k2\<close> b]
      ultimately have r: "removed = name # rem'" "k' = k3" "fds k3 = fds k" "holder k3 = holder k"
        "set rem' \<subseteq> set names - set dirs"
        "\<And>n i. n \<notin> set rem' \<or> dryRun \<Longrightarrow> entries ?k2 n = Some i \<Longrightarrow> entries k3 n = Some i"
        "\<And>n i. n \<in> set rem' \<Longrightarrow> entries ?k2 n = Some i \<Longrightarrow> holder k i = None"
        "\<And>n i. n \<noteq> name \<or> dryRun \<Longrightarrow> entries k n = Some i \<Longrightarrow> entries ?k2 n = Some i"
        "\<And>i. entries k name = Some i \<Longrightarrow> holder k i = None"
        by simp_all
      have "holder k i = None" if "n \<in> set removed" "entries k n = Some i" for n i
        using that r(1) r(7) [of n i] r(8) [of n i] r(9) [of i] by (cases "n = name") auto
      moreover have "entries k' n = Some i" if "n \<notin> set removed \<or> dryRun" "entries k n = Some i" for n i
        using that r(1,2) r(6) [of n i] r(8) [of n i] by auto
      ultimately show ?thesis using False r(1-5) by auto
    qed
  qed
qed simp

text \<open>The stale-lock sweep, run alone, removes only what is stale. It changes no held lock and no open
  descriptor; every lock file it removes belongs to a sandbox whose directory is gone and is held by
  nobody; every other lock file stays, and a dry run removes none.\<close>

theorem SweepStaleLocks_only_stale:
  assumes "kernel_ok k" and "SweepStaleLocks F files dirs dryRun k = (removed, k')"
  shows "fds k' = fds k \<and> holder k' = holder k \<and> set removed \<inter> set dirs = {} \<and>
    (\<forall>n i. n \<in> set removed \<longrightarrow> entries k n = Some i \<longrightarrow> holder k i = None) \<and>
    (\<forall>n i. n \<notin> set removed \<or> dryRun \<longrightarrow> entries k n = Some i \<longrightarrow> entries k' n = Some i)"
  using sweep_result [OF assms(1), of F dirs dryRun] assms(2) unfolding SweepStaleLocks_def by fastforce

theorem SweepStaleLocks_only_stale_witness:
  "set (fst (SweepStaleLocks no_lock_faults [(''gone.lock'', False)] [''box''] False boot)) \<inter> set [''box''] = {}"
  using SweepStaleLocks_only_stale [of boot no_lock_faults "[(''gone.lock'', False)]" "[''box'']" False]
  by (cases "SweepStaleLocks no_lock_faults [(''gone.lock'', False)] [''box''] False boot")
    (auto simp: kernel_ok_def boot_def)

text \<open>The recorded holder is read back, and a released lock names nobody.\<close>

lemma readHolderPID_write:
  assumes "owns k name fd" and "int pid < 2 ^ 63"
  shows "readHolderPID name (writeHolderPID fd pid k) = int pid"
    and "readHolderPID name (clearHolderPID fd k) = 0"
proof -
  obtain i where i: "entries k name = Some i" "fds k fd = Some i" using assms(1) by (auto simp: owns_def)
  have "TrimSpace (Itoa pid @ [CHR 10]) = Itoa pid"
  proof -
    have nl: "is_space (CHR 10)" by (simp add: is_space_def)
    have "TrimSpace (s @ [CHR 10]) = TrimSpace s" for s
    proof (cases "\<forall>x \<in> set s. is_space x")
      case True
      with nl show ?thesis by (auto simp: TrimSpace_def dropWhile_append dest: set_dropWhileD)
    qed (use nl in \<open>auto simp: TrimSpace_def dropWhile_append\<close>)
    then show ?thesis by simp
  qed
  then show "readHolderPID name (writeHolderPID fd pid k) = int pid"
    using i Atoi_Itoa [OF assms(2)] by (simp add: readHolderPID_def writeHolderPID_def Let_def)
  show "readHolderPID name (clearHolderPID fd k) = 0"
    using i by (simp add: readHolderPID_def clearHolderPID_def Let_def TrimSpace_def)
qed

end
