(* ===== verification/TailBuffer.thy ===== *)
theory TailBuffer
  imports Prelude
begin

text \<open>
  \<open>internal/sysexec/tail.go\<close>: the writer that keeps the last lines of a subprocess's output for its
  error message. Its bounded state refines the full text written to it.
\<close>

section \<open>The buffer\<close>

record TailBuffer =
  maxLines :: nat
  tb_lines :: "string list"
  partial :: string

definition NewTailBuffer :: "int \<Rightarrow> TailBuffer" where
  "NewTailBuffer n = \<lparr>maxLines = nat (if n < 1 then 1 else n), tb_lines = [], partial = []\<rparr>"

definition compact :: "TailBuffer \<Rightarrow> TailBuffer" where
  "compact b = (if length (tb_lines b) \<ge> 2 * maxLines b
     then b\<lparr>tb_lines := drop (length (tb_lines b) - maxLines b) (tb_lines b)\<rparr> else b)"

definition write_byte :: "char \<Rightarrow> TailBuffer \<Rightarrow> TailBuffer" where
  "write_byte c b =
     (if c = CHR 10 then compact (b\<lparr>tb_lines := tb_lines b @ [partial b], partial := []\<rparr>)
      else if c = CHR 13 then b
      else b\<lparr>partial := partial b @ [c]\<rparr>)"

definition Write :: "string \<Rightarrow> TailBuffer \<Rightarrow> nat \<times> TailBuffer" where
  "Write p b = (length p, fold write_byte p b)"

definition tail_String :: "TailBuffer \<Rightarrow> string" where
  "tail_String b =
     (let ls = (if partial b = [] then tb_lines b else tb_lines b @ [partial b]);
          ls' = (if length ls > maxLines b then drop (length ls - maxLines b) ls else ls)
      in TrimSpace (join_lines ls'))"

fun indent_newlines :: "string \<Rightarrow> string" where
  "indent_newlines [] = []"
| "indent_newlines (c # s) = (if c = CHR 10 then CHR 10 # ''  '' @ indent_newlines s else c # indent_newlines s)"

definition ErrorSuffix :: "TailBuffer \<Rightarrow> string" where
  "ErrorSuffix b = (let tail = tail_String b in
     if tail = [] then [] else CHR 10 # ''last output:'' @ CHR 10 # ''  '' @ indent_newlines tail)"

section \<open>The abstract buffer\<close>

text \<open>The lines of everything written, carriage returns dropped, without an empty last line.\<close>

definition lines_of :: "string \<Rightarrow> string list" where
  "lines_of t = (let ls = split_lines (filter (\<lambda>c. c \<noteq> CHR 13) t) in
     butlast ls @ (if last ls = [] then [] else [last ls]))"

definition take_last :: "nat \<Rightarrow> 'a list \<Rightarrow> 'a list" where
  "take_last n xs = drop (length xs - n) xs"

lemma take_last_append: "n \<le> length ys \<Longrightarrow> take_last n (xs @ ys) = take_last n ys"
  by (simp add: take_last_def)

text \<open>\<open>b\<close> represents the text \<open>t\<close>: it has the unfinished line, and the finished lines but for some
  that more than \<open>maxLines\<close> lines follow.\<close>

definition represents :: "string \<Rightarrow> TailBuffer \<Rightarrow> bool" where
  "represents t b \<longleftrightarrow> (let ls = split_lines (filter (\<lambda>c. c \<noteq> CHR 13) t) in
     partial b = last ls \<and>
     (\<exists>old. butlast ls = old @ tb_lines b \<and> (old = [] \<or> maxLines b \<le> length (tb_lines b)))) \<and>
     length (tb_lines b) < 2 * maxLines b"

lemma represents_New: "represents [] (NewTailBuffer n)"
  by (simp add: represents_def NewTailBuffer_def)

lemma compact_keeps:
  assumes "xs = old @ tb_lines b" and "old = [] \<or> maxLines b \<le> length (tb_lines b)"
    and "length (tb_lines b) \<le> 2 * maxLines b" and "0 < maxLines b"
  shows "(\<exists>old'. xs = old' @ tb_lines (compact b) \<and> (old' = [] \<or> maxLines b \<le> length (tb_lines (compact b)))) \<and>
    length (tb_lines (compact b)) < 2 * maxLines b"
proof (cases "length (tb_lines b) \<ge> 2 * maxLines b")
  case True
  let ?d = "length (tb_lines b) - maxLines b"
  have "xs = (old @ take ?d (tb_lines b)) @ tb_lines (compact b)"
    using assms(1) True by (simp add: compact_def)
  moreover have "maxLines b \<le> length (tb_lines (compact b))" "length (tb_lines (compact b)) < 2 * maxLines b"
    using True assms(3,4) by (simp_all add: compact_def)
  ultimately show ?thesis by blast
qed (use assms in \<open>auto simp: compact_def\<close>)

lemma represents_write_byte:
  assumes "represents t b" and "0 < maxLines b"
  shows "represents (t @ [c]) (write_byte c b) \<and> maxLines (write_byte c b) = maxLines b"
proof (cases "c = CHR 10")
  case True
  let ?ls = "split_lines (filter (\<lambda>c. c \<noteq> CHR 13) t)"
  let ?b = "b\<lparr>tb_lines := tb_lines b @ [partial b], partial := []\<rparr>"
  obtain old where old: "butlast ?ls = old @ tb_lines b" "old = [] \<or> maxLines b \<le> length (tb_lines b)"
    and p: "partial b = last ?ls" and l: "length (tb_lines b) < 2 * maxLines b"
    using assms(1) by (auto simp: represents_def Let_def)
  have "?ls = old @ tb_lines ?b" using old(1) p append_butlast_last_id [of ?ls] by simp
  from compact_keeps [OF this] old(2) l assms(2)
  have k: "(\<exists>old'. ?ls = old' @ tb_lines (compact ?b) \<and> (old' = [] \<or> maxLines b \<le> length (tb_lines (compact ?b)))) \<and>
    length (tb_lines (compact ?b)) < 2 * maxLines b" by auto
  have "maxLines (compact ?b) = maxLines b" "partial (compact ?b) = []" by (simp_all add: compact_def)
  moreover have "split_lines (filter (\<lambda>c. c \<noteq> CHR 13) (t @ [c])) = ?ls @ [[]]"
    using True by (simp add: split_lines_newline)
  moreover have "write_byte c b = compact ?b" using True by (simp add: write_byte_def)
  ultimately show ?thesis using k by (simp add: represents_def Let_def)
next
  case False
  then show ?thesis
    using assms(1) by (cases "c = CHR 13") (auto simp: represents_def write_byte_def split_lines_snoc Let_def)
qed

lemma represents_fold:
  "represents t b \<Longrightarrow> 0 < maxLines b \<Longrightarrow> represents (t @ p) (fold write_byte p b) \<and> maxLines (fold write_byte p b) = maxLines b"
proof (induction p arbitrary: t b)
  case (Cons c p)
  from represents_write_byte [OF Cons.prems, of c] Cons.IH [of "t @ [c]" "write_byte c b"] Cons.prems(2)
  show ?case by simp
qed simp

lemma represents_String:
  assumes "represents t b"
  shows "tail_String b = TrimSpace (join_lines (take_last (maxLines b) (lines_of t)))"
proof -
  let ?ls = "split_lines (filter (\<lambda>c. c \<noteq> CHR 13) t)"
  let ?cur = "if partial b = [] then tb_lines b else tb_lines b @ [partial b]"
  obtain old where old: "butlast ?ls = old @ tb_lines b" "old = [] \<or> maxLines b \<le> length (tb_lines b)"
    and p: "partial b = last ?ls" using assms by (auto simp: represents_def Let_def)
  have "lines_of t = old @ ?cur" using old(1) p by (simp add: lines_of_def Let_def)
  moreover have "old = [] \<or> maxLines b \<le> length ?cur" using old(2) by auto
  ultimately have "take_last (maxLines b) (lines_of t) = take_last (maxLines b) ?cur"
    by (metis append_Nil take_last_append)
  then show ?thesis by (simp add: tail_String_def Let_def take_last_def)
qed

text \<open>C36: The tail buffer refines the whole output. After any sequence of writes its text is the last
  lines, at least one and at most the number asked for, of everything written, however the bytes were
  split over the writes; a write always accepts all its bytes, and the buffer never keeps twice the
  number of lines.\<close>

theorem TailBuffer_refines:
  "let m = nat (max 1 n); b = fold (\<lambda>p b. snd (Write p b)) ps (NewTailBuffer n)
   in tail_String b = TrimSpace (join_lines (take_last m (lines_of (concat ps)))) \<and>
      length (tb_lines b) < 2 * m \<and> fst (Write p b) = length p"
proof -
  let ?b = "fold (\<lambda>p b. snd (Write p b)) ps (NewTailBuffer n)"
  have m: "maxLines (NewTailBuffer n) = nat (max 1 n)" by (simp add: NewTailBuffer_def max_def)
  have "fold (\<lambda>p b. snd (Write p b)) ps b = fold write_byte (concat ps) b" for b
    by (induction ps arbitrary: b) (simp_all add: Write_def)
  with represents_fold [OF represents_New, of n "concat ps"] m
  have r: "represents (concat ps) ?b" "maxLines ?b = nat (max 1 n)" by simp_all
  then show ?thesis using represents_String [OF r(1)] by (simp add: Let_def Write_def represents_def)
qed

end
