(* ===== verification/HostEnv.thy ===== *)
theory HostEnv
  imports Prelude
begin

text \<open>
  What subprocesses and configuration files see of the host environment: \<open>internal/config/host_env.go\<close>,
  the curation function of \<open>internal/sysexec/sysexec.go\<close> and the path expansion of
  \<open>internal/config/pathutil.go\<close>. A Go map is an association list with distinct keys where its entries
  are enumerated, and a partial function where it is only looked up.
\<close>

section \<open>Curation\<close>

definition assign :: "string \<Rightarrow> string \<Rightarrow> string" where
  "assign k v = k @ ''='' @ v"

fun pick :: "(string \<rightharpoonup> string) \<Rightarrow> string list \<Rightarrow> string list \<Rightarrow> string list" where
  "pick env chosen [] = []"
| "pick env chosen (k # ks) =
     (if k \<in> set chosen then pick env chosen ks
      else case env k of
          Some v \<Rightarrow> assign k v # pick env (k # chosen) ks
        | None \<Rightarrow> pick env chosen ks)"

definition Curated :: "(string \<rightharpoonup> string) \<Rightarrow> string list \<Rightarrow> (string \<times> string) list \<Rightarrow> string list" where
  "Curated layoutEnv allow overrides =
     sort (map (\<lambda>(k, v). assign k v) overrides @ pick layoutEnv (map fst overrides) allow)"

definition GitEnv :: "(string \<rightharpoonup> string) \<Rightarrow> string list" where
  "GitEnv layoutEnv = Curated layoutEnv [''PATH'', ''HOME'', ''TMPDIR'', ''SUDO_UID''] []"

text \<open>\<open>requireEnv\<close>: \<open>nil\<close> is the error; every curated environment is a proper slice.\<close>

definition requireEnv :: "string list option \<Rightarrow> (string, string list) result" where
  "requireEnv env = (case env of None \<Rightarrow> Inl ''sysexec: explicit env required'' | Some e \<Rightarrow> Inr e)"

definition curatedMap :: "(string \<rightharpoonup> string) \<Rightarrow> string list \<Rightarrow> (string \<rightharpoonup> string)" where
  "curatedMap vars allow = (\<lambda>k. if k \<in> set allow then vars k else None)"

section \<open>Purposes\<close>

record HostEnv =
  vars :: "string \<rightharpoonup> string"
  homeDir :: string

definition dockerExecAllowlist :: "string list" where
  "dockerExecAllowlist = [''PATH'', ''TMPDIR'', ''SSL_CERT_FILE'', ''SSL_CERT_DIR'',
     ''DOCKER_HOST'', ''DOCKER_CERT_PATH'', ''DOCKER_TLS_VERIFY'', ''DOCKER_API_VERSION'',
     ''CONTAINER_HOST'', ''XDG_RUNTIME_DIR'']"

definition dockerBuildAllowlist :: "string list" where
  "dockerBuildAllowlist = [''HOME'', ''PATH'',
     ''DOCKER_HOST'', ''DOCKER_CONTEXT'', ''DOCKER_CONFIG'',
     ''DOCKER_TLS_VERIFY'', ''DOCKER_CERT_PATH'', ''DOCKER_API_VERSION'',
     ''CONTAINER_HOST'', ''CONTAINERS_CONF'', ''REGISTRY_AUTH_FILE'',
     ''HTTP_PROXY'', ''HTTPS_PROXY'', ''NO_PROXY'', ''FTP_PROXY'', ''ALL_PROXY'',
     ''http_proxy'', ''https_proxy'', ''no_proxy'', ''ftp_proxy'', ''all_proxy'',
     ''SSH_AUTH_SOCK'',
     ''XDG_RUNTIME_DIR'', ''XDG_CONFIG_HOME'', ''XDG_CACHE_HOME'',
     ''BUILDX_CONFIG'', ''BUILDX_BUILDER'']"

definition containerdExecAllowlist :: "string list" where
  "containerdExecAllowlist = [''PATH'', ''TMPDIR'', ''SSL_CERT_FILE'', ''SSL_CERT_DIR'', ''XDG_RUNTIME_DIR'']"

definition tartEnvAllowlist :: "string list" where
  "tartEnvAllowlist = [''PATH'', ''TMPDIR'', ''SSL_CERT_FILE'', ''SSL_CERT_DIR'']"

definition appleExecAllowlist :: "string list" where
  "appleExecAllowlist = [''PATH'', ''HOME'', ''TMPDIR'',
     ''CONTAINER_APP_ROOT'', ''CONTAINER_INSTALL_ROOT'', ''CONTAINER_LOG_ROOT'',
     ''CONTAINER_DEFAULT_PLATFORM'',
     ''CONTAINER_REGISTRY_HOST'', ''CONTAINER_REGISTRY_USER'', ''CONTAINER_REGISTRY_TOKEN'',
     ''CONTAINER_DEBUG'']"

definition seatbeltSandboxAllowlist :: "string list" where
  "seatbeltSandboxAllowlist = [''PATH'', ''HOME'', ''USER'', ''LOGNAME'',
     ''SHELL'', ''TERM'', ''TMPDIR'',
     ''LANG'', ''LC_ALL'', ''LC_CTYPE'',
     ''LC_COLLATE'', ''LC_MESSAGES'', ''LC_MONETARY'',
     ''LC_NUMERIC'', ''LC_TIME'']"

definition daemonEnvAllowlist :: "string list" where
  "daemonEnvAllowlist = [''DOCKER_HOST'', ''DOCKER_CONFIG'', ''DOCKER_CONTEXT'',
     ''DOCKER_CERT_PATH'', ''DOCKER_TLS_VERIFY'', ''DOCKER_API_VERSION'',
     ''CONTAINER_HOST'', ''XDG_RUNTIME_DIR'', ''HOME'', ''TMPDIR'']"

definition hostToolAllowlist :: "string list" where
  "hostToolAllowlist = [''PATH'', ''HOME'', ''TMPDIR'']"

definition diagnosticEnvAllowlist :: "string list" where
  "diagnosticEnvAllowlist = [''DOCKER_HOST'', ''CONTAINER_HOST'', ''XDG_RUNTIME_DIR'', ''YOLOAI_SANDBOX'', ''HOME'', ''TMUX'']"

definition interpolationExactAllowlist :: "string list" where
  "interpolationExactAllowlist = [''HOME'', ''USER'', ''LANG'', ''TZ'']"

definition interpolationPrefixAllowlist :: "string list" where
  "interpolationPrefixAllowlist = [''LC_'']"

definition EnvForGitInvocation :: "HostEnv \<Rightarrow> string list" where
  "EnvForGitInvocation h = GitEnv (vars h)"

definition EnvForDockerExec :: "HostEnv \<Rightarrow> string list" where
  "EnvForDockerExec h = Curated (vars h) dockerExecAllowlist [(''HOME'', homeDir h)]"

fun present :: "(string \<rightharpoonup> string) \<Rightarrow> string list \<Rightarrow> (string \<times> string) list" where
  "present env [] = []"
| "present env (k # ks) = (case env k of
       Some v \<Rightarrow> if v = [] then present env ks else (k, v) # present env ks
     | None \<Rightarrow> present env ks)"

definition EnvForDockerBuild :: "HostEnv \<Rightarrow> string list" where
  "EnvForDockerBuild h = map (\<lambda>(k, v). assign k v) (present (vars h) dockerBuildAllowlist) @ [''DOCKER_BUILDKIT=1'']"

definition EnvForContainerdExec :: "HostEnv \<Rightarrow> string list" where
  "EnvForContainerdExec h = Curated (vars h) containerdExecAllowlist [(''HOME'', homeDir h)]"

definition EnvForSeatbeltExec :: "HostEnv \<Rightarrow> string list" where
  "EnvForSeatbeltExec h = Curated (vars h) seatbeltSandboxAllowlist []"

definition EnvForSeatbeltSandbox :: "HostEnv \<Rightarrow> string list" where
  "EnvForSeatbeltSandbox h = Curated (vars h) seatbeltSandboxAllowlist []"

definition EnvForAppleContainer :: "HostEnv \<Rightarrow> string list" where
  "EnvForAppleContainer h = Curated (vars h) appleExecAllowlist []"

definition EnvForHostTool :: "HostEnv \<Rightarrow> string list" where
  "EnvForHostTool h = Curated (vars h) hostToolAllowlist []"

text \<open>\<open>filepath.Clean\<close> on Unix paths: a lexical walk over the slash-separated parts, and \<open>Join\<close>.\<close>

fun split_slash :: "string \<Rightarrow> string list" where
  "split_slash [] = [[]]"
| "split_slash (c # s) = (if c = CHR ''/'' then [] # split_slash s
     else case split_slash s of l # ls \<Rightarrow> (c # l) # ls | [] \<Rightarrow> [[c]])"

fun join_slash :: "string list \<Rightarrow> string" where
  "join_slash [] = []"
| "join_slash [p] = p"
| "join_slash (p # ps) = p @ CHR ''/'' # join_slash ps"

text \<open>\<open>out\<close> holds the parts kept so far, last first.\<close>

fun clean_parts :: "bool \<Rightarrow> string list \<Rightarrow> string list \<Rightarrow> string list" where
  "clean_parts rooted out [] = rev out"
| "clean_parts rooted out (p # ps) =
     (if p = [] \<or> p = ''.'' then clean_parts rooted out ps
      else if p = ''..'' then
        (case out of
           [] \<Rightarrow> if rooted then clean_parts rooted out ps else clean_parts rooted [''..''] ps
         | q # out' \<Rightarrow> if q = ''..'' then clean_parts rooted (''..'' # out) ps else clean_parts rooted out' ps)
      else clean_parts rooted (p # out) ps)"

definition Clean :: "string \<Rightarrow> string" where
  "Clean path = (let rooted = HasPrefix path ''/'';
       body = join_slash (clean_parts rooted [] (split_slash path))
     in if rooted then CHR ''/'' # body else if body = [] then ''.'' else body)"

definition Join :: "string \<Rightarrow> string \<Rightarrow> string" where
  "Join a b = (if a = [] \<and> b = [] then [] else if a = [] then Clean b else Clean (a @ ''/'' @ b))"

definition EnvForTartInvocation :: "HostEnv \<Rightarrow> string list" where
  "EnvForTartInvocation h =
     (let tartHome = (case vars h ''TART_HOME'' of
          Some v \<Rightarrow> if v = [] then Join (homeDir h) ''.tart'' else v
        | None \<Rightarrow> Join (homeDir h) ''.tart'')
      in Curated (vars h) tartEnvAllowlist [(''HOME'', homeDir h), (''TART_HOME'', tartHome)])"

text \<open>The whole snapshot, given as the list of its entries.\<close>

definition PassthroughEnv :: "(string \<times> string) list \<Rightarrow> string list" where
  "PassthroughEnv entries = sort (map (\<lambda>(k, v). assign k v) entries)"

definition EnvForDaemonDiscovery :: "HostEnv \<Rightarrow> (string \<rightharpoonup> string)" where
  "EnvForDaemonDiscovery h = curatedMap (vars h) daemonEnvAllowlist"

definition EnvForDiagnostics :: "HostEnv \<Rightarrow> (string \<rightharpoonup> string)" where
  "EnvForDiagnostics h = curatedMap (vars h) diagnosticEnvAllowlist"

definition interpolable :: "string \<Rightarrow> bool" where
  "interpolable k \<longleftrightarrow> k \<in> set interpolationExactAllowlist \<or> list_ex (HasPrefix k) interpolationPrefixAllowlist"

definition EnvForConfigInterpolation :: "HostEnv \<Rightarrow> (string \<rightharpoonup> string)" where
  "EnvForConfigInterpolation h = (\<lambda>k. if interpolable k then vars h k else None)"

definition EnvForAgentCredentials :: "HostEnv \<Rightarrow> string list \<Rightarrow> (string \<rightharpoonup> string)" where
  "EnvForAgentCredentials h declaredKeys = map_of (present (vars h) declaredKeys)"

definition InHostTmux :: "HostEnv \<Rightarrow> bool" where
  "InHostTmux h = (case vars h ''TMUX'' of Some v \<Rightarrow> v \<noteq> [] | None \<Rightarrow> False)"

definition TerminalColumns :: "HostEnv \<Rightarrow> int option" where
  "TerminalColumns h = (case vars h ''COLUMNS'' of None \<Rightarrow> None | Some s \<Rightarrow> if s = [] then None else Atoi s)"

section \<open>Expansion\<close>

function expandEnvBraced :: "(string \<rightharpoonup> string) \<Rightarrow> string \<Rightarrow> (string, string) result" where
  "expandEnvBraced env s = (case IndexOf s ''${'' of
       None \<Rightarrow> Inr s
     | Some idx \<Rightarrow> (let rest = drop (idx + 2) s in
         case IndexOf rest ''}'' of
           None \<Rightarrow> Inl ''unclosed''
         | Some e \<Rightarrow> (case env (take e rest) of
             None \<Rightarrow> Inl (''environment variable is not set: '' @ take e rest)
           | Some v \<Rightarrow> (case expandEnvBraced env (drop (e + 1) rest) of
               Inl err \<Rightarrow> Inl err
             | Inr t \<Rightarrow> Inr (take idx s @ v @ t)))))"
  by pat_completeness auto
termination
proof (relation "measure (length o snd)")
  fix env :: "string \<rightharpoonup> string" and s :: string and idx rest e v
  assume "IndexOf s ''${'' = Some idx" "rest = drop (idx + 2) s"
  then show "((env, drop (e + 1) rest), env, s) \<in> measure (length o snd)"
    using IndexOf_Some [of s "''${''" idx] by (cases s) auto
qed simp

declare expandEnvBraced.simps [simp del]

definition ExpandTilde :: "string \<Rightarrow> string \<Rightarrow> string" where
  "ExpandTilde path home = (if \<not> HasPrefix path ''~'' then path else Join home (drop 1 path))"

definition ExpandPath :: "string \<Rightarrow> string \<Rightarrow> (string \<rightharpoonup> string) \<Rightarrow> (string, string) result" where
  "ExpandPath path home env = expandEnvBraced env (ExpandTilde path home)"

section \<open>What a purpose can see\<close>

lemma pick_set:
  "e \<in> set (pick env chosen ks) \<longleftrightarrow> (\<exists>k v. e = assign k v \<and> k \<in> set ks \<and> k \<notin> set chosen \<and> env k = Some v)"
proof (induction ks arbitrary: chosen)
  case (Cons k ks)
  show ?case
  proof (cases "env k")
    case (Some a)
    then show ?thesis by (cases "k \<in> set chosen") (auto simp: Cons.IH, metis option.inject)
  qed (auto simp: Cons.IH)
qed simp

text \<open>A curated environment holds the overrides, and the allowed variables that are set and not overridden.\<close>

lemma Curated_set:
  "e \<in> set (Curated env allow ov) \<longleftrightarrow>
     (\<exists>k v. e = assign k v \<and> ((k, v) \<in> set ov \<or> k \<in> set allow \<and> k \<notin> fst ` set ov \<and> env k = Some v))"
  by (auto simp: Curated_def pick_set)

lemma pick_cong: "(\<And>k. k \<in> set ks \<Longrightarrow> env k = env' k) \<Longrightarrow> pick env chosen ks = pick env' chosen ks"
proof (induction ks arbitrary: chosen)
  case (Cons k ks)
  then have "env k = env' k" and "pick env c ks = pick env' c ks" for c by auto
  then show ?case by (simp split: option.split)
qed simp

lemma Curated_cong: "(\<And>k. k \<in> set allow \<Longrightarrow> env k = env' k) \<Longrightarrow> Curated env allow ov = Curated env' allow ov"
  using pick_cong [of allow env env' "map fst ov"] by (simp add: Curated_def)

lemma present_cong: "(\<And>k. k \<in> set ks \<Longrightarrow> env k = env' k) \<Longrightarrow> present env ks = present env' ks"
  by (induction ks) (auto split: option.split)

datatype purpose = Git | DockerExec | DockerBuild | ContainerdExec | SeatbeltExec | SeatbeltSandbox | Tart
  | AppleContainer | HostTool

definition env_for :: "purpose \<Rightarrow> HostEnv \<Rightarrow> string list" where
  "env_for p h = (case p of
       Git \<Rightarrow> EnvForGitInvocation h | DockerExec \<Rightarrow> EnvForDockerExec h | DockerBuild \<Rightarrow> EnvForDockerBuild h
     | ContainerdExec \<Rightarrow> EnvForContainerdExec h | SeatbeltExec \<Rightarrow> EnvForSeatbeltExec h
     | SeatbeltSandbox \<Rightarrow> EnvForSeatbeltSandbox h | Tart \<Rightarrow> EnvForTartInvocation h
     | AppleContainer \<Rightarrow> EnvForAppleContainer h | HostTool \<Rightarrow> EnvForHostTool h)"

definition sees :: "purpose \<Rightarrow> string list" where
  "sees p = (case p of
       Git \<Rightarrow> [''PATH'', ''HOME'', ''TMPDIR'', ''SUDO_UID''] | DockerExec \<Rightarrow> dockerExecAllowlist
     | DockerBuild \<Rightarrow> dockerBuildAllowlist | ContainerdExec \<Rightarrow> containerdExecAllowlist
     | SeatbeltExec \<Rightarrow> seatbeltSandboxAllowlist | SeatbeltSandbox \<Rightarrow> seatbeltSandboxAllowlist
     | Tart \<Rightarrow> ''TART_HOME'' # tartEnvAllowlist | AppleContainer \<Rightarrow> appleExecAllowlist
     | HostTool \<Rightarrow> hostToolAllowlist)"

lemmas purpose_defs = env_for_def sees_def EnvForGitInvocation_def GitEnv_def EnvForDockerExec_def EnvForDockerBuild_def
  EnvForContainerdExec_def EnvForSeatbeltExec_def EnvForSeatbeltSandbox_def EnvForTartInvocation_def
  EnvForAppleContainer_def EnvForHostTool_def

text \<open>A name that looks like that of a credential.\<close>

definition secret_looking :: "string \<Rightarrow> bool" where
  "secret_looking k \<longleftrightarrow> list_ex (Contains k)
     [''TOKEN'', ''KEY'', ''SECRET'', ''PASSW'', ''CREDENTIAL'', ''token'', ''key'', ''secret'', ''passw'', ''credential'']"

lemma lists_no_secrets:
  "list_all (\<lambda>k. \<not> secret_looking k) ([''PATH'', ''HOME'', ''TMPDIR'', ''SUDO_UID'', ''TART_HOME''] @ dockerExecAllowlist
     @ dockerBuildAllowlist @ containerdExecAllowlist @ seatbeltSandboxAllowlist @ tartEnvAllowlist @ hostToolAllowlist)"
  "list_all (\<lambda>k. \<not> secret_looking k \<or> k = ''CONTAINER_REGISTRY_TOKEN'') appleExecAllowlist"
  by code_simp+

lemma sees_no_secrets: "k \<in> set (sees p) \<Longrightarrow> \<not> secret_looking k \<or> p = AppleContainer \<and> k = ''CONTAINER_REGISTRY_TOKEN''"
  using lists_no_secrets by (cases p) (auto simp: sees_def list_all_iff)

lemma env_for_cong:
  assumes "\<forall>k \<in> set (sees p). vars h k = vars h' k" and "homeDir h = homeDir h'"
  shows "env_for p h = env_for p h'"
proof (cases p)
  case Tart
  then have "vars h ''TART_HOME'' = vars h' ''TART_HOME''" "\<forall>k \<in> set tartEnvAllowlist. vars h k = vars h' k"
    using assms(1) by (simp_all add: sees_def)
  then show ?thesis unfolding Tart env_for_def EnvForTartInvocation_def purpose.case Let_def assms(2)
    by (simp only:) (rule Curated_cong, simp)
qed (use assms in \<open>auto simp: purpose_defs intro!: Curated_cong arg_cong [where f = "map (\<lambda>(k, v). assign k v)"] present_cong\<close>)


lemma secret_key: "secret_looking ''AWS_SECRET_ACCESS_KEY''"
  by code_simp


section \<open>What a configuration file can see\<close>

text \<open>The names between braces, in order.\<close>

function braced_refs :: "string \<Rightarrow> string list" where
  "braced_refs s = (case IndexOf s ''${'' of
       None \<Rightarrow> []
     | Some idx \<Rightarrow> (let rest = drop (idx + 2) s in
         case IndexOf rest ''}'' of
           None \<Rightarrow> []
         | Some e \<Rightarrow> take e rest # braced_refs (drop (e + 1) rest)))"
  by pat_completeness auto
termination
proof (relation "measure length")
  fix s :: string and idx rest e
  assume "IndexOf s ''${'' = Some idx" "rest = drop (idx + 2) s"
  then show "(drop (e + 1) rest, s) \<in> measure length"
    using IndexOf_Some [of s "''${''" idx] by (cases s) auto
qed simp

declare braced_refs.simps [simp del]

lemma expandEnvBraced_refs:
  "expandEnvBraced env s = Inr t \<Longrightarrow> k \<in> set (braced_refs s) \<Longrightarrow> env k \<noteq> None"
proof (induction env s arbitrary: t rule: expandEnvBraced.induct)
  case (1 env s)
  show ?case
  proof (cases "IndexOf s ''${''")
    case None
    then show ?thesis using 1 by (simp add: braced_refs.simps [of s])
  next
    case (Some idx)
    let ?rest = "drop (idx + 2) s"
    obtain e v t' where e: "IndexOf ?rest ''}'' = Some e" "env (take e ?rest) = Some v"
      "expandEnvBraced env (drop (e + 1) ?rest) = Inr t'"
      using 1(2) Some by (auto simp: expandEnvBraced.simps [of env s] Let_def split: option.splits sum.splits)
    have "k = take e ?rest \<or> k \<in> set (braced_refs (drop (e + 1) ?rest))"
      using 1(3) Some e by (auto simp: braced_refs.simps [of s] Let_def)
    then show ?thesis using 1(1) [OF Some refl e(1,2,3)] e(2) by auto
  qed
qed

text \<open>Text without references is unchanged, and what a reference stands for is not expanded again.\<close>

lemma expandEnvBraced_plain: "\<not> Contains s ''${'' \<Longrightarrow> expandEnvBraced env s = Inr s"
  by (simp add: expandEnvBraced.simps [of env s] Contains_def)

text \<open>Configuration files cannot read arbitrary variables. When the expansion of a path from a
  configuration file or a directory argument succeeds, every variable it refers to is one of the few
  that may be interpolated and is set; a path that refers to any other variable is an error.\<close>

theorem config_interpolation_allowlist:
  assumes "ExpandPath path home (EnvForConfigInterpolation h) = Inr t"
    and "k \<in> set (braced_refs (ExpandTilde path home))"
  shows "interpolable k \<and> vars h k \<noteq> None"
  using expandEnvBraced_refs [OF assms(1) [unfolded ExpandPath_def] assms(2)]
  by (auto simp: EnvForConfigInterpolation_def split: if_splits)

theorem config_interpolation_allowlist_witness:
  "ExpandPath ''/srv/${USER}/x'' ''/h'' (EnvForConfigInterpolation \<lparr>vars = [''USER'' \<mapsto> ''me''], homeDir = ''/h''\<rparr>) = Inr ''/srv/me/x'' \<and>
   interpolable ''USER''"
proof
  have n: "ExpandTilde ''/srv/${USER}/x'' ''/h'' = ''/srv/${USER}/x''" by code_simp
  show e: "ExpandPath ''/srv/${USER}/x'' ''/h'' (EnvForConfigInterpolation \<lparr>vars = [''USER'' \<mapsto> ''me''], homeDir = ''/h''\<rparr>) = Inr ''/srv/me/x''"
    by code_simp
  have "''USER'' \<in> set (braced_refs (ExpandTilde ''/srv/${USER}/x'' ''/h''))" by code_simp
  from config_interpolation_allowlist [OF e this] show "interpolable ''USER''" by simp
qed

end
