(* ===== verification/DirSpec.thy ===== *)
theory DirSpec
  imports HostEnv
begin

text \<open>
  Directory arguments of the command line, \<open>internal/cli/cliutil/dirspec.go\<close>: a host path, mode suffixes
  in any order, and a mount path. The working directory that \<open>filepath.Abs\<close> consults is a parameter.
\<close>

section \<open>Parsing\<close>

record DirSpec =
  SPath :: string
  SMountPath :: string
  SMode :: string
  SIncludeIgnored :: bool
  SStripHistory :: bool
  SAllowDangerousPath :: bool
  SAllowDirty :: bool

definition empty_spec :: DirSpec where
  "empty_spec = \<lparr>SPath = [], SMountPath = [], SMode = [], SIncludeIgnored = False, SStripHistory = False,
     SAllowDangerousPath = False, SAllowDirty = False\<rparr>"

definition knownSuffixes :: "string list" where
  "knownSuffixes = [''copy'', ''copy-all'', ''copy-strict'', ''rw'', ''force'']"

definition applyDirSuffix :: "DirSpec \<Rightarrow> string \<Rightarrow> (string, DirSpec) result" where
  "applyDirSuffix r sfx =
     (if sfx = ''copy'' then
        (if SMode r = ''rw'' then Inl ''cannot combine :copy and :rw'' else Inr (r\<lparr>SMode := ''copy''\<rparr>))
      else if sfx = ''copy-all'' then
        (if SMode r = ''rw'' then Inl ''cannot combine :copy-all and :rw''
         else if SStripHistory r then Inl ''cannot combine :copy-all and :copy-strict''
         else Inr (r\<lparr>SMode := ''copy'', SIncludeIgnored := True\<rparr>))
      else if sfx = ''copy-strict'' then
        (if SMode r = ''rw'' then Inl ''cannot combine :copy-strict and :rw''
         else if SIncludeIgnored r then Inl ''cannot combine :copy-strict and :copy-all''
         else Inr (r\<lparr>SMode := ''copy'', SStripHistory := True\<rparr>))
      else if sfx = ''rw'' then
        (if SMode r = ''copy'' then Inl ''cannot combine :rw and :copy'' else Inr (r\<lparr>SMode := ''rw''\<rparr>))
      else if sfx = ''force'' then Inr (r\<lparr>SAllowDangerousPath := True\<rparr>)
      else Inr r)"

function parse_suffixes :: "DirSpec \<Rightarrow> string \<Rightarrow> (string, DirSpec \<times> string) result" where
  "parse_suffixes r remaining = (case split_last (CHR '':'') remaining of
       None \<Rightarrow> Inr (r, remaining)
     | Some (before, sfx) \<Rightarrow>
         if sfx \<notin> set knownSuffixes then Inr (r, remaining)
         else case applyDirSuffix r sfx of Inl e \<Rightarrow> Inl e | Inr r' \<Rightarrow> parse_suffixes r' before)"
  by pat_completeness auto
termination
  by (relation "measure (length o snd)") (auto simp: split_last_Some)

declare parse_suffixes.simps [simp del]

definition Abs :: "string \<Rightarrow> string \<Rightarrow> string" where
  "Abs cwd path = (if HasPrefix path ''/'' then Clean path else Join cwd path)"

text \<open>The text before and after the last equals sign that is not the first character.\<close>

definition split_mount :: "string \<Rightarrow> string \<times> string" where
  "split_mount arg = (case split_last (CHR ''='') arg of
       Some (a, b) \<Rightarrow> if a = [] then (arg, []) else (a, b)
     | None \<Rightarrow> (arg, []))"

definition ParseDirArg :: "string \<Rightarrow> string \<Rightarrow> string \<Rightarrow> (string \<rightharpoonup> string) \<Rightarrow> (string, DirSpec) result" where
  "ParseDirArg cwd arg home env = (case split_mount arg of (remaining, mountPart) \<Rightarrow>
     (case parse_suffixes empty_spec remaining of
        Inl e \<Rightarrow> Inl e
      | Inr (r, path) \<Rightarrow> (case ExpandPath path home env of
          Inl e \<Rightarrow> Inl (''expand path: '' @ e)
        | Inr p \<Rightarrow>
            (let r1 = r\<lparr>SPath := Abs cwd p\<rparr> in
             if mountPart = [] then Inr r1
             else case ExpandPath mountPart home env of
                 Inl e \<Rightarrow> Inl (''expand mount path: '' @ e)
               | Inr m \<Rightarrow> Inr (r1\<lparr>SMountPath := Abs cwd m\<rparr>)))))"

definition ParseAuxDirArg :: "string \<Rightarrow> string \<Rightarrow> string \<Rightarrow> (string \<rightharpoonup> string) \<Rightarrow> (string, DirSpec) result" where
  "ParseAuxDirArg cwd arg home env = (case ParseDirArg cwd arg home env of Inl e \<Rightarrow> Inl e | Inr d \<Rightarrow> Inr d)"

section \<open>What the suffixes mean\<close>

definition some_copy :: "string set \<Rightarrow> bool" where
  "some_copy S \<longleftrightarrow> ''copy'' \<in> S \<or> ''copy-all'' \<in> S \<or> ''copy-strict'' \<in> S"

definition conflict :: "string set \<Rightarrow> bool" where
  "conflict S \<longleftrightarrow> ''rw'' \<in> S \<and> some_copy S \<or> ''copy-all'' \<in> S \<and> ''copy-strict'' \<in> S"

definition meaning :: "string set \<Rightarrow> DirSpec" where
  "meaning S = empty_spec\<lparr>SMode := (if some_copy S then ''copy'' else if ''rw'' \<in> S then ''rw'' else []),
     SIncludeIgnored := (''copy-all'' \<in> S), SStripHistory := (''copy-strict'' \<in> S), SAllowDangerousPath := (''force'' \<in> S)\<rparr>"

definition suffix_text :: "string list \<Rightarrow> string" where
  "suffix_text ss = concat (map (\<lambda>s. CHR '':'' # s) ss)"

lemma suffix_text_snoc: "suffix_text (ss @ [s]) = suffix_text ss @ CHR '':'' # s"
  by (simp add: suffix_text_def)

lemma known_no_colon: "s \<in> set knownSuffixes \<Longrightarrow> CHR '':'' \<notin> set s"
  by (auto simp: knownSuffixes_def)

text \<open>A path whose own text after its last colon, if it has one, is not a suffix.\<close>

definition plain_path :: "string \<Rightarrow> bool" where
  "plain_path p \<longleftrightarrow> (case split_last (CHR '':'') p of None \<Rightarrow> True | Some (_, s) \<Rightarrow> s \<notin> set knownSuffixes)"

lemma applyDirSuffix_meaning:
  assumes "s \<in> set knownSuffixes" and "\<not> conflict S"
  shows "applyDirSuffix (meaning S) s = (case applyDirSuffix (meaning S) s of
      Inl e \<Rightarrow> Inl e | Inr _ \<Rightarrow> Inr (meaning (insert s S)))"
    and "is_ok (applyDirSuffix (meaning S) s) \<longleftrightarrow> \<not> conflict (insert s S)"
  using assms
  by (auto simp: knownSuffixes_def applyDirSuffix_def meaning_def empty_spec_def conflict_def some_copy_def)

lemma conflict_mono: "conflict S \<Longrightarrow> S \<subseteq> T \<Longrightarrow> conflict T"
  by (auto simp: conflict_def some_copy_def)

lemma parse_suffixes_text:
  assumes "plain_path p" and "set ss \<subseteq> set knownSuffixes" and "\<not> conflict S"
  shows "(if conflict (S \<union> set ss) then \<not> is_ok (parse_suffixes (meaning S) (p @ suffix_text ss))
    else parse_suffixes (meaning S) (p @ suffix_text ss) = Inr (meaning (S \<union> set ss), p))"
  using assms(2,3)
proof (induction ss arbitrary: S rule: rev_induct)
  case Nil
  then show ?case using assms(1)
    by (auto simp: suffix_text_def plain_path_def parse_suffixes.simps [of "meaning S" p] split: option.splits)
next
  case (snoc s ss)
  have s: "s \<in> set knownSuffixes" using snoc.prems by simp
  have split: "split_last (CHR '':'') (p @ suffix_text (ss @ [s])) = Some (p @ suffix_text ss, s)"
    using known_no_colon [OF s] by (simp add: split_last_Some suffix_text_snoc)
  note one = applyDirSuffix_meaning [OF s snoc.prems(2)]
  have U: "S \<union> set (ss @ [s]) = insert s S \<union> set ss" by auto
  show ?case
  proof (cases "conflict (insert s S)")
    case True
    then obtain e where "applyDirSuffix (meaning S) s = Inl e"
      using one(2) by (cases "applyDirSuffix (meaning S) s") auto
    moreover have "conflict (insert s S \<union> set ss)" by (rule conflict_mono [OF True]) auto
    ultimately show ?thesis unfolding U using split s by (simp add: parse_suffixes.simps [of "meaning S" "p @ suffix_text (ss @ [s])"])
  next
    case False
    then obtain r where "applyDirSuffix (meaning S) s = Inr r"
      using one(2) by (cases "applyDirSuffix (meaning S) s") auto
    then have "applyDirSuffix (meaning S) s = Inr (meaning (insert s S))" using one(1) by simp
    then have "parse_suffixes (meaning S) (p @ suffix_text (ss @ [s])) = parse_suffixes (meaning (insert s S)) (p @ suffix_text ss)"
      using split s by (simp add: parse_suffixes.simps [of "meaning S" "p @ suffix_text (ss @ [s])"])
    with snoc.IH [of "insert s S"] snoc.prems(1) False show ?thesis unfolding U by auto
  qed
qed

text \<open>Directory arguments mean the same in every order of their suffixes. A plain host path without an
  equals sign, followed by recognised suffixes, is refused when the suffixes contradict each other
  (rw with any copy, copy-all with copy-strict); otherwise it gives the expanded absolute path with the
  mode and the options that the set of suffixes names, and the mount path stays empty.\<close>

theorem ParseDirArg_suffixes:
  assumes "plain_path p" and "CHR ''='' \<notin> set p" and "set ss \<subseteq> set knownSuffixes"
  shows "if conflict (set ss) then \<not> is_ok (ParseDirArg cwd (p @ suffix_text ss) home env)
    else ParseDirArg cwd (p @ suffix_text ss) home env = (case ExpandPath p home env of
        Inl e \<Rightarrow> Inl (''expand path: '' @ e)
      | Inr q \<Rightarrow> Inr ((meaning (set ss))\<lparr>SPath := Abs cwd q\<rparr>))"
proof -
  have "CHR ''='' \<notin> set s" if "s \<in> set knownSuffixes" for s using that by (auto simp: knownSuffixes_def)
  then have "CHR ''='' \<notin> set (p @ suffix_text ss)" using assms(2,3) by (auto simp: suffix_text_def)
  then have m: "split_mount (p @ suffix_text ss) = (p @ suffix_text ss, [])"
    by (simp add: split_mount_def split_last_None [THEN iffD2])
  have e: "meaning {} = empty_spec" "\<not> conflict {}" by (simp_all add: meaning_def empty_spec_def conflict_def some_copy_def)
  show ?thesis
    using parse_suffixes_text [OF assms(1,3) e(2)] m
    by (cases "parse_suffixes empty_spec (p @ suffix_text ss)")
      (auto simp: ParseDirArg_def e Let_def split: if_splits sum.splits)
qed

theorem ParseDirArg_suffixes_witness:
  "ParseDirArg ''/w'' ''/src:force:copy-all'' ''/h'' Map.empty = Inr ((meaning {''force'', ''copy-all''})\<lparr>SPath := Abs ''/w'' ''/src''\<rparr>)"
proof -
  have "plain_path ''/src''" "CHR ''='' \<notin> set ''/src''" "set [''force'', ''copy-all''] \<subseteq> set knownSuffixes"
    by (simp_all add: plain_path_def knownSuffixes_def)
  note r = ParseDirArg_suffixes [OF this, of "''/w''" "''/h''" Map.empty]
  have "\<not> conflict (set [''force'', ''copy-all''])" by (simp add: conflict_def some_copy_def)
  moreover have "ExpandPath ''/src'' ''/h'' Map.empty = Inr ''/src''" by code_simp
  ultimately show ?thesis using r by (simp add: suffix_text_def)
qed

text \<open>The variant for auxiliary directories accepts exactly the same arguments.\<close>

lemma ParseAuxDirArg_same: "ParseAuxDirArg = ParseDirArg"
  by (auto simp: ParseAuxDirArg_def fun_eq_iff split: sum.split)

end
