(* ===== verification/YamlNode.thy ===== *)
theory YamlNode
  imports Prelude
begin

text \<open>
  Reading and writing configuration values by dotted path: the node engine of
  \<open>internal/config/yamlnode.go\<close>, the tables of known settings of \<open>internal/config/config.go\<close>, the
  scaffold of \<open>internal/config/defaults.go\<close> and the handle of \<open>system_config.go\<close> that routes keys to
  the two files. A node is the struct of the YAML library with the fields the code uses; a mapping's
  content alternates keys and values, as there. The library's parser and printer are parameters.
\<close>

section \<open>Nodes\<close>

datatype ykind = DocumentNode | SequenceNode | MappingNode | ScalarNode | AliasNode

datatype ynode = YNode (Kind: ykind) (Tag: string) (Value: string) (Content: "ynode list")

definition scalar :: "string \<Rightarrow> ynode" where
  "scalar v = YNode ScalarNode [] v []"

definition with_content :: "(ynode list \<Rightarrow> ynode list) \<Rightarrow> ynode \<Rightarrow> ynode" where
  "with_content f n = YNode (Kind n) (Tag n) (Value n) (f (Content n))"

lemma with_content_sel [simp]:
  "Kind (with_content f n) = Kind n" "Content (with_content f n) = f (Content n)" "Value (with_content f n) = Value n"
  by (simp_all add: with_content_def)

section \<open>Dotted paths and known settings\<close>

fun splitDottedPath :: "string \<Rightarrow> string list" where
  "splitDottedPath [] = [[]]"
| "splitDottedPath (c # s) = (if c = CHR ''.'' then [] # splitDottedPath s
     else case splitDottedPath s of l # ls \<Rightarrow> (c # l) # ls | [] \<Rightarrow> [[c]])"

definition validDottedParts :: "string list \<Rightarrow> bool" where
  "validDottedParts parts = list_all (\<lambda>p. p \<noteq> []) parts"

type_synonym knownSetting = "string \<times> string"
type_synonym knownCollectionSetting = "string \<times> ykind"

definition knownSettings :: "knownSetting list" where
  "knownSettings = [(''os'', ''linux''), (''container_backend'', []), (''tart.image'', []), (''agent'', ''claude''),
     (''model'', []), (''resources.cpus'', []), (''resources.memory'', []), (''network.isolated'', ''false''),
     (''auto_commit_interval'', ''0''), (''isolation'', [])]"

definition knownCollectionSettings :: "knownCollectionSetting list" where
  "knownCollectionSettings = [(''agent_args'', MappingNode), (''env'', MappingNode), (''ports'', SequenceNode),
     (''network.allow'', SequenceNode), (''cap_add'', SequenceNode), (''devices'', SequenceNode), (''setup'', SequenceNode)]"

definition globalKnownSettings :: "knownSetting list" where
  "globalKnownSettings = [(''tmux_conf'', ''default+host'')]"

definition globalKnownCollectionSettings :: "knownCollectionSetting list" where
  "globalKnownCollectionSettings = [(''model_aliases'', MappingNode)]"

definition knownDefaultsKeys :: "string list" where
  "knownDefaultsKeys = [''os'', ''agent'', ''model'', ''container_backend'',
     ''isolation'', ''tart'', ''network'', ''agent_files'',
     ''directories'', ''ports'', ''resources'', ''agent_args'',
     ''env'', ''auto_commit_interval'', ''cap_add'',
     ''devices'', ''setup'']"

definition configMapEntryPaths :: "string list" where
  "configMapEntryPaths = [''agent_args'', ''env'', ''model_aliases'']"

definition isKnownScalarPath :: "string \<Rightarrow> knownSetting list \<Rightarrow> bool" where
  "isKnownScalarPath path settings = list_ex (\<lambda>s. fst s = path) settings"

definition isKnownCollectionPath :: "string \<Rightarrow> knownCollectionSetting list \<Rightarrow> bool" where
  "isKnownCollectionPath path settings = list_ex (\<lambda>s. fst s = path) settings"

definition IsKnownConfigPath :: "string \<Rightarrow> bool" where
  "IsKnownConfigPath path = (let parts = splitDottedPath path in
     if \<not> validDottedParts parts then False
     else if isKnownScalarPath path knownSettings \<or> isKnownScalarPath path globalKnownSettings \<or>
          isKnownCollectionPath path knownCollectionSettings \<or>
          isKnownCollectionPath path globalKnownCollectionSettings then True
     else if length parts = 1 then path \<in> set knownDefaultsKeys \<or> path = ''model_aliases'' \<or> path = ''tmux_conf''
     else if length parts = 2 then hd parts \<in> set configMapEntryPaths
     else False)"

definition IsSettableConfigPath :: "string \<Rightarrow> bool" where
  "IsSettableConfigPath path = (let parts = splitDottedPath path in
     if \<not> validDottedParts parts then False
     else if isKnownScalarPath path knownSettings \<or> isKnownScalarPath path globalKnownSettings \<or>
          path = ''agent_files'' then True
     else if length parts = 2 then hd parts \<in> set configMapEntryPaths
     else False)"

definition isGlobalKey :: "string \<Rightarrow> bool" where
  "isGlobalKey path = (let first = hd (splitDottedPath path) in
     list_ex (\<lambda>s. hd (splitDottedPath (fst s)) = first) globalKnownSettings \<or>
     list_ex (\<lambda>s. hd (splitDottedPath (fst s)) = first) globalKnownCollectionSettings)"

definition IsGlobalKey :: "string \<Rightarrow> bool" where "IsGlobalKey path = isGlobalKey path"

definition knownDefaultFrom :: "string \<Rightarrow> knownSetting list \<Rightarrow> string option" where
  "knownDefaultFrom path defaults = map_of defaults path"

section \<open>The node engine\<close>

text \<open>The loops over key and value pairs. A trailing key without a value is passed over, as
  \<open>i < len - 1\<close> does.\<close>

fun find_key :: "string \<Rightarrow> ynode list \<Rightarrow> ynode option" where
  "find_key k (a # b # rest) = (if Value a = k then Some b else find_key k rest)"
| "find_key k [] = None"
| "find_key k [a] = None"

fun set_value :: "string \<Rightarrow> ynode \<Rightarrow> ynode list \<Rightarrow> ynode list" where
  "set_value k v (a # b # rest) = (if Value a = k then a # v # rest else a # b # set_value k v rest)"
| "set_value k v [] = [scalar k, v]"
| "set_value k v [a] = [a, scalar k, v]"

definition setNodeValue :: "ynode \<Rightarrow> string \<Rightarrow> ynode \<Rightarrow> ynode" where
  "setNodeValue parent k v = with_content (set_value k v) parent"

text \<open>\<open>getOrCreateMapping\<close> and the change made through the pointer it returns: the first mapping under
  the key is changed, or a new one is appended.\<close>

fun in_mapping :: "string \<Rightarrow> (ynode \<Rightarrow> ynode) \<Rightarrow> ynode list \<Rightarrow> ynode list" where
  "in_mapping k f (a # b # rest) =
     (if Value a = k \<and> Kind b = MappingNode then a # f b # rest else a # b # in_mapping k f rest)"
| "in_mapping k f [] = [scalar k, f (YNode MappingNode [] [] [])]"
| "in_mapping k f [a] = [a, scalar k, f (YNode MappingNode [] [] [])]"

definition getOrCreateMapping :: "ynode \<Rightarrow> string \<Rightarrow> (ynode \<Rightarrow> ynode) \<Rightarrow> ynode" where
  "getOrCreateMapping parent k f = with_content (in_mapping k f) parent"

definition value_tag :: "string \<Rightarrow> string" where
  "value_tag v = (if v = ''true'' \<or> v = ''false'' then ''!!bool'' else ''!!str'')"

fun set_leaf :: "string \<Rightarrow> string \<Rightarrow> ynode list \<Rightarrow> ynode list" where
  "set_leaf k v (a # b # rest) =
     (if Value a = k then a # YNode (Kind b) (value_tag v) v (Content b) # rest else a # b # set_leaf k v rest)"
| "set_leaf k v [] = [scalar k, YNode ScalarNode (value_tag v) v []]"
| "set_leaf k v [a] = [a, scalar k, YNode ScalarNode (value_tag v) v []]"

fun set_parts :: "string list \<Rightarrow> string \<Rightarrow> ynode \<Rightarrow> ynode" where
  "set_parts [] v n = n"
| "set_parts [leaf] v n = with_content (set_leaf leaf v) n"
| "set_parts (p # ps) v n = getOrCreateMapping n p (set_parts ps v)"

definition setYAMLField :: "ynode \<Rightarrow> string \<Rightarrow> string \<Rightarrow> ynode" where
  "setYAMLField root path v = set_parts (splitDottedPath path) v root"

fun delete_leaf :: "string \<Rightarrow> ynode list \<Rightarrow> ynode list" where
  "delete_leaf k (a # b # rest) = (if Value a = k then rest else a # b # delete_leaf k rest)"
| "delete_leaf k [] = []"
| "delete_leaf k [a] = [a]"

fun in_existing :: "string \<Rightarrow> (ynode \<Rightarrow> ynode) \<Rightarrow> ynode list \<Rightarrow> ynode list" where
  "in_existing k f (a # b # rest) =
     (if Value a = k \<and> Kind b = MappingNode then a # f b # rest else a # b # in_existing k f rest)"
| "in_existing k f [] = []"
| "in_existing k f [a] = [a]"

fun delete_parts :: "string list \<Rightarrow> ynode \<Rightarrow> ynode" where
  "delete_parts [] n = n"
| "delete_parts [leaf] n = with_content (delete_leaf leaf) n"
| "delete_parts (p # ps) n = with_content (in_existing p (delete_parts ps)) n"

definition deleteYAMLField :: "ynode \<Rightarrow> string \<Rightarrow> ynode" where
  "deleteYAMLField root path = delete_parts (splitDottedPath path) root"

text \<open>The walk of \<open>GetConfigValue\<close>.\<close>

fun get_parts :: "string list \<Rightarrow> ynode \<Rightarrow> ynode option" where
  "get_parts [] n = Some n"
| "get_parts (p # ps) n = (case find_key p (Content n) of None \<Rightarrow> None | Some c \<Rightarrow> get_parts ps c)"

text \<open>Sorting and merging, for the effective configuration.\<close>

fun pairs_of :: "ynode list \<Rightarrow> (ynode \<times> ynode) list" where
  "pairs_of (a # b # rest) = (a, b) # pairs_of rest"
| "pairs_of _ = []"

definition sort_pairs :: "ynode list \<Rightarrow> ynode list" where
  "sort_pairs c = (if length c div 2 < 2 then c
     else concat (map (\<lambda>(a, b). [a, b]) (sort_key (\<lambda>p. Value (fst p)) (pairs_of c))) @ drop (2 * (length c div 2)) c)"

definition sortMappingNode :: "ynode \<Rightarrow> ynode" where
  "sortMappingNode n = with_content sort_pairs n"

lemma size_Content: "size_list size (Content n) < size n"
  by (cases n) simp

function sortMappingNodesRecursive :: "ynode \<Rightarrow> ynode" and sort_values :: "ynode list \<Rightarrow> ynode list" where
  "sortMappingNodesRecursive n =
     (if Kind n = MappingNode then sortMappingNode (YNode (Kind n) (Tag n) (Value n) (sort_values (Content n))) else n)"
| "sort_values (a # b # rest) = a # sortMappingNodesRecursive b # sort_values rest"
| "sort_values [] = []"
| "sort_values [a] = [a]"
  by pat_completeness auto
termination
  by (relation "measure (case_sum size (size_list size))") (auto simp: size_Content)

function mergeNodes :: "ynode list \<Rightarrow> ynode list \<Rightarrow> ynode list" where
  "mergeNodes dst (k # v # rest) =
     mergeNodes (if Kind v = MappingNode then in_mapping (Value k) (with_content (\<lambda>c. mergeNodes c (Content v))) dst
                 else set_value (Value k) v dst) rest"
| "mergeNodes dst [] = dst"
| "mergeNodes dst [k] = dst"
  by pat_completeness auto
termination
proof (relation "measure (size_list size o snd)")
  fix dst rest c :: "ynode list" and k v :: ynode
  show "((c, Content v), dst, k # v # rest) \<in> measure (size_list size o snd)"
    using size_Content [of v] by simp
qed auto

declare mergeNodes.simps [simp del] sortMappingNodesRecursive.simps [simp del]

definition setCollectionDefault :: "ynode \<Rightarrow> knownCollectionSetting \<Rightarrow> ynode" where
  "setCollectionDefault root cs = (let parts = splitDottedPath (fst cs); leaf = last parts in
     foldr (\<lambda>p f n. getOrCreateMapping n p f) (butlast parts) (\<lambda>n. setNodeValue n leaf (YNode (snd cs) [] [] [])) root)"

definition buildEffectiveConfigDefaults :: ynode where
  "buildEffectiveConfigDefaults =
     (let root0 = YNode MappingNode [] [] [];
          root1 = fold (\<lambda>s r. setYAMLField r (fst s) (snd s)) globalKnownSettings root0;
          root2 = fold (\<lambda>s r. setYAMLField r (fst s) (snd s)) knownSettings root1;
          root3 = fold (\<lambda>c r. setCollectionDefault r c) globalKnownCollectionSettings root2
      in fold (\<lambda>c r. setCollectionDefault r c) knownCollectionSettings root3)"

section \<open>Files\<close>

text \<open>The YAML library, and the text of the baked-in defaults from which the scaffold is made.\<close>

record yaml =
  yunmarshal :: "string \<Rightarrow> ynode option"
  ymarshal :: "ynode \<Rightarrow> string"
  DefaultConfigYAML :: string

record config_files =
  global_yaml :: "string option"
  defaults_yaml :: "string option"

definition doc_root :: "ynode \<Rightarrow> ynode option" where
  "doc_root doc = (if Kind doc \<noteq> DocumentNode \<or> Content doc = [] then None
     else if Kind (hd (Content doc)) \<noteq> MappingNode then None else Some (hd (Content doc)))"

definition replace_root :: "ynode \<Rightarrow> ynode \<Rightarrow> ynode" where
  "replace_root doc root = YNode (Kind doc) (Tag doc) (Value doc) (root # tl (Content doc))"

definition scaffold_line :: "string \<Rightarrow> string" where
  "scaffold_line line = (let trimmed = TrimSpace line in
     if trimmed = [] \<or> HasPrefix trimmed ''#'' then line @ [CHR 10] else ''# '' @ line @ [CHR 10])"

definition GenerateScaffoldConfig :: "string \<Rightarrow> string" where
  "GenerateScaffoldConfig bakedInYAML = concat (map scaffold_line (split_lines bakedInYAML))"

definition GetConfigValue :: "yaml \<Rightarrow> config_files \<Rightarrow> string \<Rightarrow> (string, string option) result" where
  "GetConfigValue Y F path =
     (if \<not> IsKnownConfigPath path then Inr None
      else let data = (if isGlobalKey path then global_yaml F else defaults_yaml F);
               defaults = (if isGlobalKey path then globalKnownSettings else knownSettings)
           in (case data of
                 None \<Rightarrow> Inr (knownDefaultFrom path defaults)
               | Some text \<Rightarrow> (case yunmarshal Y text of
                   None \<Rightarrow> Inl ''parse config''
                 | Some doc \<Rightarrow> (case doc_root doc of
                     None \<Rightarrow> Inr (knownDefaultFrom path defaults)
                   | Some root \<Rightarrow> (case get_parts (splitDottedPath path) root of
                       None \<Rightarrow> Inr (knownDefaultFrom path defaults)
                     | Some n \<Rightarrow> if Kind n = ScalarNode then Inr (Some (Value n))
                                 else Inr (Some (ymarshal Y (sortMappingNodesRecursive n))))))))"

definition set_fields :: "(string \<times> string) list \<Rightarrow> ynode \<Rightarrow> ynode" where
  "set_fields fs root = fold (\<lambda>f r. setYAMLField r (fst f) (snd f)) fs root"

definition UpdateConfigFields :: "yaml \<Rightarrow> config_files \<Rightarrow> (string \<times> string) list \<Rightarrow> (string, config_files) result" where
  "UpdateConfigFields Y F fs = (case defaults_yaml F of
       None \<Rightarrow> Inl ''read config.yaml''
     | Some text \<Rightarrow> (case yunmarshal Y text of
         None \<Rightarrow> Inl ''parse config.yaml''
       | Some doc \<Rightarrow>
           (let out = (case doc_root doc of
                 Some root \<Rightarrow> replace_root doc (set_fields fs root)
               | None \<Rightarrow> YNode DocumentNode (Tag doc) (Value doc) [set_fields fs (YNode MappingNode [] [] [])])
            in Inr (F\<lparr>defaults_yaml := Some (ymarshal Y out)\<rparr>))))"

definition UpdateGlobalConfigFields :: "yaml \<Rightarrow> config_files \<Rightarrow> (string \<times> string) list \<Rightarrow> (string, config_files) result" where
  "UpdateGlobalConfigFields Y F fs = (case global_yaml F of
       None \<Rightarrow> Inl ''read global config.yaml''
     | Some text \<Rightarrow> (case yunmarshal Y text of
         None \<Rightarrow> Inl ''parse global config.yaml''
       | Some doc \<Rightarrow> (case doc_root doc of
           None \<Rightarrow> Inl ''global config.yaml has unexpected structure''
         | Some root \<Rightarrow> Inr (F\<lparr>global_yaml := Some (ymarshal Y (replace_root doc (set_fields fs root)))\<rparr>))))"

definition delete_in :: "yaml \<Rightarrow> string option \<Rightarrow> string \<Rightarrow> (string, string option) result" where
  "delete_in Y data path = (case data of
       None \<Rightarrow> Inr None
     | Some text \<Rightarrow> (case yunmarshal Y text of
         None \<Rightarrow> Inl ''parse config.yaml''
       | Some doc \<Rightarrow> (case doc_root doc of
           None \<Rightarrow> Inr (Some text)
         | Some root \<Rightarrow> Inr (Some (ymarshal Y (replace_root doc (deleteYAMLField root path)))))))"

definition DeleteConfigField :: "yaml \<Rightarrow> config_files \<Rightarrow> string \<Rightarrow> (string, config_files) result" where
  "DeleteConfigField Y F path = (case delete_in Y (defaults_yaml F) path of
     Inl e \<Rightarrow> Inl e | Inr t \<Rightarrow> Inr (F\<lparr>defaults_yaml := t\<rparr>))"

definition DeleteGlobalConfigField :: "yaml \<Rightarrow> config_files \<Rightarrow> string \<Rightarrow> (string, config_files) result" where
  "DeleteGlobalConfigField Y F path = (case delete_in Y (global_yaml F) path of
     Inl e \<Rightarrow> Inl e | Inr t \<Rightarrow> Inr (F\<lparr>global_yaml := t\<rparr>))"

definition mergeRawYAMLInto :: "yaml \<Rightarrow> ynode \<Rightarrow> string \<Rightarrow> (string, ynode) result" where
  "mergeRawYAMLInto Y root data = (case yunmarshal Y data of
       None \<Rightarrow> Inl ''parse config YAML''
     | Some doc \<Rightarrow> (case doc_root doc of
         None \<Rightarrow> Inr root | Some src \<Rightarrow> Inr (with_content (\<lambda>c. mergeNodes c (Content src)) root)))"

definition overlayConfigFile :: "yaml \<Rightarrow> ynode \<Rightarrow> string option \<Rightarrow> (string, ynode) result" where
  "overlayConfigFile Y root data = (case data of None \<Rightarrow> Inr root | Some text \<Rightarrow> mergeRawYAMLInto Y root text)"

definition GetEffectiveConfig :: "yaml \<Rightarrow> config_files \<Rightarrow> (string, string) result" where
  "GetEffectiveConfig Y F =
     res_bind (overlayConfigFile Y buildEffectiveConfigDefaults (global_yaml F)) (\<lambda>r1.
     res_bind (overlayConfigFile Y r1 (defaults_yaml F)) (\<lambda>r2.
       Inr (ymarshal Y (YNode DocumentNode [] [] [sortMappingNodesRecursive r2]))))"

section \<open>The configuration handle\<close>

definition ensureGlobalConfig :: "config_files \<Rightarrow> config_files" where
  "ensureGlobalConfig F = (if global_yaml F = None then F\<lparr>global_yaml := Some (''{}'' @ [CHR 10])\<rparr> else F)"

definition ensureProfileConfig :: "yaml \<Rightarrow> config_files \<Rightarrow> config_files" where
  "ensureProfileConfig Y F = (if defaults_yaml F = None
     then F\<lparr>defaults_yaml := Some (GenerateScaffoldConfig (DefaultConfigYAML Y))\<rparr> else F)"

definition ConfigAdmin_Get :: "yaml \<Rightarrow> config_files \<Rightarrow> string \<Rightarrow> (string, string) result" where
  "ConfigAdmin_Get Y F key =
     (if \<not> IsKnownConfigPath key then Inl ''config key not found''
      else case GetConfigValue Y F key of
          Inl e \<Rightarrow> Inl e
        | Inr None \<Rightarrow> Inl ''config key not found''
        | Inr (Some v) \<Rightarrow> Inr v)"

definition ConfigAdmin_Set :: "yaml \<Rightarrow> config_files \<Rightarrow> string \<Rightarrow> string \<Rightarrow> (string, config_files) result" where
  "ConfigAdmin_Set Y F key v =
     (if \<not> IsSettableConfigPath key then Inl ''config key not found''
      else if IsGlobalKey key then UpdateGlobalConfigFields Y (ensureGlobalConfig F) [(key, v)]
      else UpdateConfigFields Y (ensureProfileConfig Y F) [(key, v)])"

definition ConfigAdmin_Reset :: "yaml \<Rightarrow> config_files \<Rightarrow> string \<Rightarrow> (string, config_files) result" where
  "ConfigAdmin_Reset Y F key =
     (if \<not> IsKnownConfigPath key then Inl ''config key not found''
      else if IsGlobalKey key then DeleteGlobalConfigField Y F key
      else DeleteConfigField Y F key)"

section \<open>Setting and reading back\<close>

text \<open>The places where a value can be set: every mapping on the way is absent or the first entry of its
  key, and the value itself is absent or a scalar.\<close>

fun settable_at :: "string list \<Rightarrow> ynode \<Rightarrow> bool" where
  "settable_at [] n = False"
| "settable_at [leaf] n = (case find_key leaf (Content n) of None \<Rightarrow> True | Some c \<Rightarrow> Kind c = ScalarNode)"
| "settable_at (p # ps) n = (case find_key p (Content n) of None \<Rightarrow> True | Some c \<Rightarrow> Kind c = MappingNode \<and> settable_at ps c)"

lemma find_set_leaf:
  "even (length c) \<Longrightarrow> find_key k (set_leaf k v c) = Some (case find_key k c of
      None \<Rightarrow> YNode ScalarNode (value_tag v) v [] | Some b \<Rightarrow> YNode (Kind b) (value_tag v) v (Content b))"
  by (induction k v c rule: set_leaf.induct) (auto simp: scalar_def)

lemma find_set_leaf_other: "even (length c) \<Longrightarrow> q \<noteq> k \<Longrightarrow> find_key q (set_leaf k v c) = find_key q c"
  by (induction k v c rule: set_leaf.induct) (auto simp: scalar_def)

lemma find_in_mapping:
  "even (length c) \<Longrightarrow> find_key k (in_mapping k f c) = (case find_key k c of
      None \<Rightarrow> Some (f (YNode MappingNode [] [] []))
    | Some b \<Rightarrow> if Kind b = MappingNode then Some (f b) else Some b)"
  by (induction k f c rule: in_mapping.induct) (auto simp: scalar_def)

lemma find_in_mapping_other: "even (length c) \<Longrightarrow> q \<noteq> k \<Longrightarrow> find_key q (in_mapping k f c) = find_key q c"
  by (induction k f c rule: in_mapping.induct) (auto simp: scalar_def)

text \<open>Mappings have as many keys as values, everywhere.\<close>

fun well_paired :: "ynode \<Rightarrow> bool" where
  "well_paired (YNode k t v c) = ((k = MappingNode \<longrightarrow> even (length c)) \<and> list_all well_paired c)"

lemma well_paired_child: "well_paired n \<Longrightarrow> find_key p (Content n) = Some c \<Longrightarrow> well_paired c"
proof -
  have "find_key p xs = Some c \<Longrightarrow> list_all well_paired xs \<Longrightarrow> well_paired c" for xs
    by (induction p xs rule: find_key.induct) (auto split: if_splits)
  then show "well_paired n \<Longrightarrow> find_key p (Content n) = Some c \<Longrightarrow> well_paired c"
    by (cases n) simp
qed

lemma well_paired_mapping: "well_paired n \<Longrightarrow> Kind n = MappingNode \<Longrightarrow> even (length (Content n))"
  by (cases n) simp

lemma get_set_parts:
  "settable_at ps n \<Longrightarrow> well_paired n \<Longrightarrow> Kind n = MappingNode \<Longrightarrow>
   \<exists>x. get_parts ps (set_parts ps v n) = Some x \<and> Kind x = ScalarNode \<and> Value x = v"
proof (induction ps v n rule: set_parts.induct)
  case (2 leaf v n)
  then show ?case using well_paired_mapping [of n]
    by (auto simp: find_set_leaf split: option.splits)
next
  case (3 p q ps v n)
  note e = well_paired_mapping [OF 3(3,4)]
  show ?case
  proof (cases "find_key p (Content n)")
    case None
    have "settable_at (q # ps) (YNode MappingNode [] [] [])" by (cases ps) auto
    with 3(1) [of "YNode MappingNode [] [] []"] None e show ?thesis
      by (auto simp: getOrCreateMapping_def find_in_mapping)
  next
    case (Some c)
    with 3 well_paired_child [OF 3(3) Some] e show ?thesis
      by (auto simp: getOrCreateMapping_def find_in_mapping)
  qed
qed auto

lemma get_set_parts_other:
  "\<not> prefix ps qs \<Longrightarrow> \<not> prefix qs ps \<Longrightarrow> well_paired n \<Longrightarrow> Kind n = MappingNode \<Longrightarrow>
   get_parts qs (set_parts ps v n) = get_parts qs n"
proof (induction ps v n arbitrary: qs rule: set_parts.induct)
  case (2 leaf v n)
  then obtain q qs' where "qs = q # qs'" "q \<noteq> leaf" by (cases qs) auto
  then show ?case using well_paired_mapping [OF 2(3,4)] by (simp add: find_set_leaf_other)
next
  case (3 p q ps v n)
  note e = well_paired_mapping [OF 3(4,5)]
  obtain r qs' where qs: "qs = r # qs'" using 3(3) by (cases qs) auto
  show ?case
  proof (cases "r = p")
    case False
    then show ?thesis using e by (simp add: qs getOrCreateMapping_def find_in_mapping_other)
  next
    case True
    have np: "\<not> prefix (q # ps) qs'" "\<not> prefix qs' (q # ps)" using 3(2,3) True by (auto simp: qs)
    let ?new = "YNode MappingNode [] [] []"
    have new: "get_parts qs' ?new = None" using np(2) by (cases qs') auto
    show ?thesis
    proof (cases "find_key p (Content n)")
      case None
      then show ?thesis using 3(1) [OF np, of ?new] new e True
        by (simp add: qs getOrCreateMapping_def find_in_mapping)
    next
      case (Some c)
      then show ?thesis using 3(1) [OF np well_paired_child [OF 3(4) Some]] e True
        by (simp add: qs getOrCreateMapping_def find_in_mapping)
    qed
  qed
qed auto

text \<open>Printing and parsing keep a tree up to its tags.\<close>

fun erase :: "ynode \<Rightarrow> ynode" where
  "erase (YNode k t v c) = YNode k [] v (map erase c)"

definition yaml_keeps :: "yaml \<Rightarrow> ynode \<Rightarrow> bool" where
  "yaml_keeps Y doc \<longleftrightarrow> map_option erase (yunmarshal Y (ymarshal Y doc)) = Some (erase doc)"

lemma erase_sel: "Kind (erase n) = Kind n" "Value (erase n) = Value n" "Content (erase n) = map erase (Content n)"
  by (cases n; simp)+

lemma find_key_erase: "find_key p (map erase c) = map_option erase (find_key p c)"
  by (induction p c rule: find_key.induct) (auto simp: erase_sel)

lemma get_parts_erase: "get_parts ps (erase n) = map_option erase (get_parts ps n)"
  by (induction ps n rule: get_parts.induct) (auto simp: erase_sel find_key_erase split: option.split)

lemma doc_root_erase: "doc_root (erase doc) = map_option erase (doc_root doc)"
  by (cases "Content doc") (auto simp: doc_root_def erase_sel)

lemma get_after_reparse:
  assumes "yaml_keeps Y doc" and "doc_root doc = Some root" and "get_parts ps root = Some x"
  shows "\<exists>doc' root' x'. yunmarshal Y (ymarshal Y doc) = Some doc' \<and> doc_root doc' = Some root' \<and>
    get_parts ps root' = Some x' \<and> Kind x' = Kind x \<and> Value x' = Value x"
proof -
  obtain doc' where d: "yunmarshal Y (ymarshal Y doc) = Some doc'" "erase doc' = erase doc"
    using assms(1) by (auto simp: yaml_keeps_def)
  have "map_option erase (doc_root doc') = Some (erase root)"
    using assms(2) d(2) by (metis doc_root_erase option.simps(9))
  then obtain root' where r: "doc_root doc' = Some root'" "erase root' = erase root" by auto
  have "map_option erase (get_parts ps root') = Some (erase x)"
    using assms(3) r(2) by (metis get_parts_erase option.simps(9))
  then obtain x' where "get_parts ps root' = Some x'" "erase x' = erase x" by auto
  with d r show ?thesis by (metis erase_sel(1,2))
qed

text \<open>The document that a set writes, and the mapping it works in.\<close>

definition target_root :: "string \<Rightarrow> ynode \<Rightarrow> ynode option" where
  "target_root path doc = (case doc_root doc of
       Some r \<Rightarrow> Some r | None \<Rightarrow> if isGlobalKey path then None else Some (YNode MappingNode [] [] []))"

definition updated_doc :: "string \<Rightarrow> string \<Rightarrow> ynode \<Rightarrow> ynode" where
  "updated_doc path v doc = (case doc_root doc of
       Some r \<Rightarrow> replace_root doc (setYAMLField r path v)
     | None \<Rightarrow> YNode DocumentNode (Tag doc) (Value doc) [setYAMLField (YNode MappingNode [] [] []) path v])"

definition config_text :: "yaml \<Rightarrow> config_files \<Rightarrow> string \<Rightarrow> string option" where
  "config_text Y F path =
     (if isGlobalKey path then global_yaml (ensureGlobalConfig F) else defaults_yaml (ensureProfileConfig Y F))"

lemma set_parts_Kind: "ps \<noteq> [] \<Longrightarrow> Kind (set_parts ps v n) = Kind n"
  by (cases ps; cases "tl ps") (auto simp: getOrCreateMapping_def)

lemma splitDottedPath_ne [simp]: "splitDottedPath s \<noteq> []"
  by (cases s) (auto split: list.split)

lemma doc_root_updated:
  "target_root path doc = Some root \<Longrightarrow> doc_root (updated_doc path v doc) = Some (setYAMLField root path v)"
  by (auto simp: target_root_def updated_doc_def doc_root_def replace_root_def setYAMLField_def set_parts_Kind
      split: option.splits if_splits)

lemma settable_is_known: "IsSettableConfigPath path \<Longrightarrow> IsKnownConfigPath path"
  by (auto simp: IsSettableConfigPath_def IsKnownConfigPath_def Let_def knownDefaultsKeys_def split: if_splits)

text \<open>A configuration value that was set is read back. For a key that can be set, when the file parses
  and the place of the key in it is a scalar or not there yet, setting succeeds and getting the same key
  then gives the value, for a YAML library that keeps the written document up to tags.\<close>

theorem ConfigAdmin_set_get:
  assumes "IsSettableConfigPath path" and "config_text Y F path = Some body" and "yunmarshal Y body = Some doc"
    and "target_root path doc = Some root" and "Kind root = MappingNode" and "well_paired root"
    and "settable_at (splitDottedPath path) root" and "yaml_keeps Y (updated_doc path v doc)"
  shows "\<exists>F'. ConfigAdmin_Set Y F path v = Inr F' \<and> ConfigAdmin_Get Y F' path = Inr v"
proof -
  obtain x where x: "get_parts (splitDottedPath path) (setYAMLField root path v) = Some x" "Kind x = ScalarNode" "Value x = v"
    using get_set_parts [OF assms(7,6,5), of v] by (auto simp: setYAMLField_def)
  from get_after_reparse [OF assms(8) doc_root_updated [OF assms(4)] x(1)] x(2,3)
  obtain doc' root' x' where r: "yunmarshal Y (ymarshal Y (updated_doc path v doc)) = Some doc'" "doc_root doc' = Some root'"
    "get_parts (splitDottedPath path) root' = Some x'" "Kind x' = ScalarNode" "Value x' = v" by auto
  note known = settable_is_known [OF assms(1)]
  let ?out = "Some (ymarshal Y (updated_doc path v doc))"
  show ?thesis
  proof (cases "isGlobalKey path")
    case True
    then obtain r0 where "doc_root doc = Some r0" using assms(4) by (auto simp: target_root_def split: option.splits)
    then have "ConfigAdmin_Set Y F path v = Inr ((ensureGlobalConfig F)\<lparr>global_yaml := ?out\<rparr>)"
      using True assms(1-3) by (simp add: ConfigAdmin_Set_def IsGlobalKey_def config_text_def UpdateGlobalConfigFields_def
          updated_doc_def set_fields_def)
    then show ?thesis using True known r by (simp add: ConfigAdmin_Get_def GetConfigValue_def Let_def)
  next
    case False
    then have "ConfigAdmin_Set Y F path v = Inr ((ensureProfileConfig Y F)\<lparr>defaults_yaml := ?out\<rparr>)"
      using assms(1-3) by (simp add: ConfigAdmin_Set_def IsGlobalKey_def config_text_def UpdateConfigFields_def
          updated_doc_def set_fields_def Let_def split: option.split)
    then show ?thesis using False known r by (simp add: ConfigAdmin_Get_def GetConfigValue_def Let_def)
  qed
qed

text \<open>Some settings are accepted and have no effect. When the value at a key is a list or a mapping, setting
  it keeps that node's kind and its elements, so the new value is not part of the document's data; and when a section of the
  path is present as a scalar, the value goes into a second section of the same name that reading the
  key never reaches.\<close>

theorem setYAMLField_ineffective:
  assumes "well_paired root" and "Kind root = MappingNode" and "find_key p (Content root) = Some c"
  shows "(\<exists>x. get_parts [p] (set_parts [p] v root) = Some x \<and> Kind x = Kind c \<and> Content x = Content c) \<and>
    (if Kind c = ScalarNode \<and> Content c = [] then get_parts [p, leaf] (set_parts [p, leaf] v root) = None else True)"
  using well_paired_mapping [OF assms(1,2)] assms(3)
  by (simp add: find_set_leaf getOrCreateMapping_def find_in_mapping)

section \<open>Examples\<close>

definition empty_doc :: ynode where
  "empty_doc = YNode DocumentNode [] [] [YNode MappingNode [] [] []]"

definition demo_yaml :: yaml where
  "demo_yaml = \<lparr>yunmarshal = (\<lambda>t. if t = ''old'' then Some empty_doc else Some (updated_doc ''agent'' ''codex'' empty_doc)),
     ymarshal = (\<lambda>_. ''new''), DefaultConfigYAML = []\<rparr>"

theorem ConfigAdmin_set_get_witness:
  "\<exists>F'. ConfigAdmin_Set demo_yaml \<lparr>global_yaml = None, defaults_yaml = Some ''old''\<rparr> ''agent'' ''codex'' = Inr F' \<and>
     ConfigAdmin_Get demo_yaml F' ''agent'' = Inr ''codex''"
proof (rule ConfigAdmin_set_get [where body = "''old''" and doc = empty_doc and root = "YNode MappingNode [] [] []"])
  show "IsSettableConfigPath ''agent''" by code_simp
  have g: "\<not> isGlobalKey ''agent''" by code_simp
  show "config_text demo_yaml \<lparr>global_yaml = None, defaults_yaml = Some ''old''\<rparr> ''agent'' = Some ''old''"
    using g by (simp add: config_text_def ensureProfileConfig_def)
  show "target_root ''agent'' empty_doc = Some (YNode MappingNode [] [] [])"
    by (simp add: target_root_def empty_doc_def doc_root_def)
qed (simp_all add: demo_yaml_def yaml_keeps_def)

theorem setYAMLField_ineffective_witness:
  "\<exists>x. get_parts [''agent_files''] (set_parts [''agent_files''] ''/new''
       (YNode MappingNode [] [] [scalar ''agent_files'', YNode SequenceNode [] [] [scalar ''/old'']])) = Some x \<and>
     Content x = [scalar ''/old'']"
  using setYAMLField_ineffective [of "YNode MappingNode [] [] [scalar ''agent_files'', YNode SequenceNode [] [] [scalar ''/old'']]"
      "''agent_files''" "YNode SequenceNode [] [] [scalar ''/old'']" "''/new''" "[]"]
  by (auto simp: scalar_def)

text \<open>The scaffold written for a new configuration file is inert: every line of it is blank or a comment.\<close>

lemma scaffold_inert:
  "\<exists>t. scaffold_line l = t @ [CHR 10] \<and> (TrimSpace t = [] \<or> HasPrefix (TrimSpace t) ''#'')"
proof (cases "TrimSpace l = [] \<or> HasPrefix (TrimSpace l) ''#''")
  case False
  have "\<not> is_space (CHR ''#'')" by (simp add: is_space_def)
  then have "dropWhile is_space (''# '' @ l) = CHR ''#'' # CHR '' '' # l" by simp
  moreover have "\<exists>r. rev (dropWhile is_space (rev (CHR ''#'' # u))) = CHR ''#'' # r" for u
    using \<open>\<not> is_space (CHR ''#'')\<close> by (auto simp: dropWhile_append) (metis rev_rev_ident)
  ultimately have "HasPrefix (TrimSpace (''# '' @ l)) ''#''"
    by (metis HasPrefix_iff TrimSpace_def append_Cons append_Nil)
  then show ?thesis using False by (simp add: scaffold_line_def Let_def)
qed (auto simp: scaffold_line_def Let_def)

end
