(* ===== verification/ConfigLoad.thy ===== *)
theory ConfigLoad
  imports HostEnv YamlNode
begin

text \<open>
  Loading the configuration, after \<open>internal/config/config.go\<close>: the handlers of the top-level keys,
  the parser of a configuration document with its checks, the merge of two configurations, and the
  loaders of the defaults and of the global file.

  The nil and the empty map or slice of Go are both the empty one here; the sources only test their
  length. A configuration file is read as \<open>Inl\<close> a read error, \<open>Inr None\<close> when it does not exist, or
  its text. The YAML library is the parameter of \<open>YamlNode\<close>.
\<close>

section \<open>Data\<close>

record AgentFilesConfig =
  BaseDir :: string
  Files :: "string list"

definition IsStringForm :: "AgentFilesConfig option \<Rightarrow> bool" where
  "IsStringForm c = (case c of None \<Rightarrow> False | Some a \<Rightarrow> BaseDir a \<noteq> [])"

record ResourceLimits =
  CPUs :: string
  Memory :: string

record NetworkConfig =
  Isolated :: bool
  Allow :: "string list"

record ProfileDir =
  pd_Path :: string
  pd_Mode :: string
  pd_Mount :: string

record YoloaiConfig =
  OS :: string
  ContainerBackend :: string
  TartImage :: string
  Agent :: string
  Model :: string
  Env :: "string \<rightharpoonup> string"
  Resources :: "ResourceLimits option"
  Network :: "NetworkConfig option"
  Directories :: "ProfileDir list"
  Ports :: "string list"
  AgentArgs :: "string \<rightharpoonup> string"
  AgentFiles :: "AgentFilesConfig option"
  CapAdd :: "string list"
  Devices :: "string list"
  Setup :: "string list"
  AutoCommitInterval :: int
  Isolation :: string

record GlobalConfig =
  TmuxConf :: string
  ModelAliases :: "string \<rightharpoonup> string"

definition empty_config :: YoloaiConfig where
  "empty_config = \<lparr>OS = [], ContainerBackend = [], TartImage = [], Agent = [], Model = [], Env = Map.empty,
     Resources = None, Network = None, Directories = [], Ports = [], AgentArgs = Map.empty, AgentFiles = None,
     CapAdd = [], Devices = [], Setup = [], AutoCommitInterval = 0, Isolation = []\<rparr>"

definition ValidateIsolationMode :: "string \<Rightarrow> (string, unit) result" where
  "ValidateIsolationMode mode =
     (if mode \<in> set [[], ''container'', ''container-enhanced'', ''container-privileged'', ''vm'', ''vm-enhanced''] then Inr ()
      else Inl (''unknown isolation mode '' @ mode))"

section \<open>Handlers of the top-level keys\<close>

type_synonym interpolation = "string \<rightharpoonup> string"
type_synonym yoloaiConfigHandler = "YoloaiConfig \<Rightarrow> ynode \<Rightarrow> interpolation \<Rightarrow> (string, YoloaiConfig) result"

text \<open>\<open>fmt.Errorf("\<dots>: %w", \<dots>)\<close>.\<close>

definition wrap :: "string \<Rightarrow> (string, 'a) result \<Rightarrow> (string, 'a) result" where
  "wrap label r = (case r of Inl e \<Rightarrow> Inl (label @ '': '' @ e) | Inr a \<Rightarrow> Inr a)"

definition yoloaiScalarHandler :: "(string \<Rightarrow> YoloaiConfig \<Rightarrow> YoloaiConfig) \<Rightarrow> yoloaiConfigHandler" where
  "yoloaiScalarHandler put cfg val env =
     res_bind (expandEnvBraced env (Value val)) (\<lambda>expanded. Inr (put expanded cfg))"

definition yoloaiExpandedSeqHandler ::
  "((string list \<Rightarrow> string list) \<Rightarrow> YoloaiConfig \<Rightarrow> YoloaiConfig) \<Rightarrow> string \<Rightarrow> yoloaiConfigHandler" where
  "yoloaiExpandedSeqHandler upd label cfg val env =
     (if Kind val \<noteq> SequenceNode then Inr cfg
      else res_foldl (\<lambda>c item. res_bind (wrap label (expandEnvBraced env (Value item))) (\<lambda>x. Inr (upd (\<lambda>l. l @ [x]) c)))
             cfg (Content val))"

definition yoloaiRawSeqHandler ::
  "((string list \<Rightarrow> string list) \<Rightarrow> YoloaiConfig \<Rightarrow> YoloaiConfig) \<Rightarrow> yoloaiConfigHandler" where
  "yoloaiRawSeqHandler upd cfg val env =
     (if Kind val \<noteq> SequenceNode then Inr cfg else Inr (foldl (\<lambda>c item. upd (\<lambda>l. l @ [Value item]) c) cfg (Content val)))"

text \<open>The expanded entries of a mapping of strings, in document order, later entries winning.\<close>

definition string_map :: "string \<Rightarrow> ynode \<Rightarrow> interpolation \<Rightarrow> (string, string \<rightharpoonup> string) result" where
  "string_map label val env =
     res_foldl (\<lambda>m (k, v). res_bind (wrap (label @ ''.'' @ Value k) (expandEnvBraced env (Value v))) (\<lambda>x. Inr (m(Value k \<mapsto> x))))
       Map.empty (pairs_of (Content val))"

definition yoloaiStringMapHandler ::
  "((string \<rightharpoonup> string) \<Rightarrow> YoloaiConfig \<Rightarrow> YoloaiConfig) \<Rightarrow> string \<Rightarrow> yoloaiConfigHandler" where
  "yoloaiStringMapHandler put label cfg val env =
     (if Kind val \<noteq> MappingNode then Inr cfg else res_bind (string_map label val env) (\<lambda>m. Inr (put m cfg)))"

definition handleYoloaiTart :: yoloaiConfigHandler where
  "handleYoloaiTart cfg val env =
     (if Kind val \<noteq> MappingNode then Inr cfg
      else res_foldl (\<lambda>c (k, v). res_bind (wrap (''tart.'' @ Value k) (expandEnvBraced env (Value v)))
             (\<lambda>x. Inr (if Value k = ''image'' then c\<lparr>TartImage := x\<rparr> else c))) cfg (pairs_of (Content val)))"

definition handleYoloaiResources :: yoloaiConfigHandler where
  "handleYoloaiResources cfg val env =
     (if Kind val \<noteq> MappingNode then Inr cfg
      else res_bind
        (res_foldl (\<lambda>r (k, v). res_bind (wrap (''resources.'' @ Value k) (expandEnvBraced env (Value v)))
             (\<lambda>x. Inr (if Value k = ''cpus'' then r\<lparr>CPUs := x\<rparr> else if Value k = ''memory'' then r\<lparr>Memory := x\<rparr> else r)))
           \<lparr>CPUs = [], Memory = []\<rparr> (pairs_of (Content val)))
        (\<lambda>r. Inr (cfg\<lparr>Resources := Some r\<rparr>)))"

definition network_entry :: "NetworkConfig \<Rightarrow> ynode \<times> ynode \<Rightarrow> NetworkConfig" where
  "network_entry n p = (case p of (k, v) \<Rightarrow>
     if Value k = ''isolated'' then n\<lparr>Isolated := (Value v = ''true'')\<rparr>
     else if Value k = ''allow'' \<and> Kind v = SequenceNode then n\<lparr>Allow := Allow n @ map Value (Content v)\<rparr>
     else n)"

definition handleYoloaiNetwork :: yoloaiConfigHandler where
  "handleYoloaiNetwork cfg val env =
     (if Kind val \<noteq> MappingNode then Inr cfg
      else Inr (cfg\<lparr>Network := Some (foldl network_entry \<lparr>Isolated = False, Allow = []\<rparr> (pairs_of (Content val)))\<rparr>))"

definition parseAgentFilesNode :: "ynode \<Rightarrow> (string, AgentFilesConfig) result" where
  "parseAgentFilesNode val = (case Kind val of
       ScalarNode \<Rightarrow> Inr \<lparr>BaseDir = Value val, Files = []\<rparr>
     | SequenceNode \<Rightarrow> Inr \<lparr>BaseDir = [], Files = map Value (Content val)\<rparr>
     | _ \<Rightarrow> Inl ''expected string or list'')"

definition handleYoloaiAgentFiles :: yoloaiConfigHandler where
  "handleYoloaiAgentFiles cfg val env = res_bind (parseAgentFilesNode val) (\<lambda>af. Inr (cfg\<lparr>AgentFiles := Some af\<rparr>))"

definition handleYoloaiAutoCommitInterval :: yoloaiConfigHandler where
  "handleYoloaiAutoCommitInterval cfg val env =
     (case Atoi (Value val) of None \<Rightarrow> Inl ''invalid syntax'' | Some n \<Rightarrow> Inr (cfg\<lparr>AutoCommitInterval := n\<rparr>))"

definition handleYoloaiIsolation :: yoloaiConfigHandler where
  "handleYoloaiIsolation cfg val env =
     res_bind (expandEnvBraced env (Value val)) (\<lambda>expanded.
     res_bind (ValidateIsolationMode expanded) (\<lambda>_. Inr (cfg\<lparr>Isolation := expanded\<rparr>)))"

definition yoloaiConfigHandlers :: "(string \<times> yoloaiConfigHandler) list" where
  "yoloaiConfigHandlers =
    [(''agent'', yoloaiScalarHandler (\<lambda>x c. c\<lparr>Agent := x\<rparr>)),
     (''model'', yoloaiScalarHandler (\<lambda>x c. c\<lparr>Model := x\<rparr>)),
     (''os'', yoloaiScalarHandler (\<lambda>x c. c\<lparr>OS := x\<rparr>)),
     (''container_backend'', yoloaiScalarHandler (\<lambda>x c. c\<lparr>ContainerBackend := x\<rparr>)),
     (''ports'', yoloaiRawSeqHandler (\<lambda>f c. c\<lparr>Ports := f (Ports c)\<rparr>)),
     (''cap_add'', yoloaiExpandedSeqHandler (\<lambda>f c. c\<lparr>CapAdd := f (CapAdd c)\<rparr>) ''cap_add[]''),
     (''devices'', yoloaiExpandedSeqHandler (\<lambda>f c. c\<lparr>Devices := f (Devices c)\<rparr>) ''devices[]''),
     (''setup'', yoloaiExpandedSeqHandler (\<lambda>f c. c\<lparr>Setup := f (Setup c)\<rparr>) ''setup[]''),
     (''env'', yoloaiStringMapHandler (\<lambda>m c. c\<lparr>Env := m\<rparr>) ''env''),
     (''agent_args'', yoloaiStringMapHandler (\<lambda>m c. c\<lparr>AgentArgs := m\<rparr>) ''agent_args''),
     (''tart'', handleYoloaiTart),
     (''resources'', handleYoloaiResources),
     (''network'', handleYoloaiNetwork),
     (''agent_files'', handleYoloaiAgentFiles),
     (''auto_commit_interval'', handleYoloaiAutoCommitInterval),
     (''isolation'', handleYoloaiIsolation)]"

section \<open>Parsing a document\<close>

definition dir_entry :: "interpolation \<Rightarrow> ProfileDir \<Rightarrow> ynode \<times> ynode \<Rightarrow> (string, ProfileDir) result" where
  "dir_entry env d p = (case p of (k, v) \<Rightarrow>
     res_bind (wrap (''directories[].'' @ Value k) (expandEnvBraced env (Value v))) (\<lambda>x. Inr
       (if Value k = ''path'' then d\<lparr>pd_Path := x\<rparr> else if Value k = ''mode'' then d\<lparr>pd_Mode := x\<rparr>
        else if Value k = ''mount'' then d\<lparr>pd_Mount := x\<rparr> else d)))"

definition parseDirectoriesNode :: "ynode \<Rightarrow> interpolation \<Rightarrow> (string, ProfileDir list) result" where
  "parseDirectoriesNode val env =
     (if Kind val \<noteq> SequenceNode then Inr []
      else res_foldl (\<lambda>dirs item.
             if Kind item \<noteq> MappingNode then Inr dirs
             else res_bind (res_foldl (dir_entry env) \<lparr>pd_Path = [], pd_Mode = [], pd_Mount = []\<rparr> (pairs_of (Content item)))
                    (\<lambda>d. Inr (dirs @ [d]))) [] (Content val))"

fun joined :: "string \<Rightarrow> string list \<Rightarrow> string" where
  "joined sep [] = []"
| "joined sep [x] = x"
| "joined sep (x # xs) = x @ sep @ joined sep xs"

definition key_values :: "ynode \<Rightarrow> string list" where
  "key_values root = map (\<lambda>p. Value (fst p)) (pairs_of (Content root))"

definition checkMountsKeyRemoved :: "ynode \<Rightarrow> (string, unit) result" where
  "checkMountsKeyRemoved root =
     (if ''mounts'' \<in> set (key_values root) then Inl ''\"mounts:\" is no longer supported (D142)'' else Inr ())"

definition validateKnownKeys :: "ynode \<Rightarrow> string \<Rightarrow> string list \<Rightarrow> (string, unit) result" where
  "validateKnownKeys root source knownKeys =
     (let unknown = filter (\<lambda>k. k \<notin> set knownKeys) (key_values root) in
      if unknown \<noteq> [] then Inl (source @ '': unknown config field(s): '' @ joined '', '' (sort unknown)) else Inr ())"

definition parseYAMLRoot ::
  "yaml \<Rightarrow> string \<Rightarrow> string \<Rightarrow> string list option \<Rightarrow> (string, ynode option) result" where
  "parseYAMLRoot Y data source knownKeys = (case yunmarshal Y data of
       None \<Rightarrow> Inl (''parse '' @ source)
     | Some doc \<Rightarrow>
        (if Kind doc \<noteq> DocumentNode \<or> Content doc = [] then Inr None
         else let root = hd (Content doc) in
           if Kind root \<noteq> MappingNode then Inr None
           else res_bind (wrap source (checkMountsKeyRemoved root)) (\<lambda>_.
             case knownKeys of
               None \<Rightarrow> Inr (Some root)
             | Some ks \<Rightarrow> res_bind (validateKnownKeys root source ks) (\<lambda>_. Inr (Some root)))))"

definition config_entry :: "string \<Rightarrow> interpolation \<Rightarrow> YoloaiConfig \<Rightarrow> ynode \<times> ynode \<Rightarrow> (string, YoloaiConfig) result" where
  "config_entry source env cfg p = (case p of (k, val) \<Rightarrow>
     if Value k = ''directories'' then
       res_bind (wrap (source @ '': '' @ Value k) (parseDirectoriesNode val env)) (\<lambda>dirs. Inr (cfg\<lparr>Directories := Directories cfg @ dirs\<rparr>))
     else case map_of yoloaiConfigHandlers (Value k) of
         None \<Rightarrow> Inr cfg
       | Some handler \<Rightarrow> wrap (source @ '': '' @ Value k) (handler cfg val env))"

definition parseConfigYAML ::
  "yaml \<Rightarrow> string \<Rightarrow> string \<Rightarrow> string list option \<Rightarrow> interpolation \<Rightarrow> (string, YoloaiConfig) result" where
  "parseConfigYAML Y data source knownKeys env =
     res_bind (parseYAMLRoot Y data source knownKeys) (\<lambda>r. case r of
         None \<Rightarrow> Inr empty_config
       | Some root \<Rightarrow> res_foldl (config_entry source env) empty_config (pairs_of (Content root)))"

section \<open>Merging\<close>

definition mergeStringField :: "string \<Rightarrow> string \<Rightarrow> string" where
  "mergeStringField base override = (if override \<noteq> [] then override else base)"

definition mergeMapFields :: "(string \<rightharpoonup> string) \<Rightarrow> (string \<rightharpoonup> string) \<Rightarrow> (string \<rightharpoonup> string)" where
  "mergeMapFields base override = base ++ override"

definition mergeSlices :: "string list \<Rightarrow> string list \<Rightarrow> string list" where
  "mergeSlices base override = base @ override"

definition mergeDirectories :: "ProfileDir list \<Rightarrow> ProfileDir list \<Rightarrow> ProfileDir list" where
  "mergeDirectories base override = base @ override"

definition mergeResources :: "ResourceLimits option \<Rightarrow> ResourceLimits option \<Rightarrow> ResourceLimits option" where
  "mergeResources base override =
     (if base = None \<and> override = None then None
      else let r0 = \<lparr>CPUs = [], Memory = []\<rparr>;
               r1 = (case base of None \<Rightarrow> r0 | Some b \<Rightarrow> \<lparr>CPUs = CPUs b, Memory = Memory b\<rparr>);
               r2 = (case override of None \<Rightarrow> r1 | Some ov \<Rightarrow>
                       \<lparr>CPUs = mergeStringField (CPUs r1) (CPUs ov), Memory = mergeStringField (Memory r1) (Memory ov)\<rparr>)
           in Some r2)"

definition mergeNetwork :: "NetworkConfig option \<Rightarrow> NetworkConfig option \<Rightarrow> NetworkConfig option" where
  "mergeNetwork base override =
     (if base = None \<and> override = None then None
      else let n0 = \<lparr>Isolated = False, Allow = []\<rparr>;
               n1 = (case base of None \<Rightarrow> n0 | Some b \<Rightarrow> \<lparr>Isolated = Isolated b, Allow = Allow b\<rparr>);
               n2 = (case override of None \<Rightarrow> n1 | Some ov \<Rightarrow> \<lparr>Isolated = Isolated ov, Allow = Allow n1 @ Allow ov\<rparr>)
           in Some n2)"

definition mergeConfigs :: "YoloaiConfig \<Rightarrow> YoloaiConfig \<Rightarrow> YoloaiConfig" where
  "mergeConfigs base override =
     \<lparr>OS = mergeStringField (OS base) (OS override),
      ContainerBackend = mergeStringField (ContainerBackend base) (ContainerBackend override),
      TartImage = mergeStringField (TartImage base) (TartImage override),
      Agent = mergeStringField (Agent base) (Agent override),
      Model = mergeStringField (Model base) (Model override),
      Env = mergeMapFields (Env base) (Env override),
      Resources = mergeResources (Resources base) (Resources override),
      Network = mergeNetwork (Network base) (Network override),
      Directories = mergeDirectories (Directories base) (Directories override),
      Ports = mergeSlices (Ports base) (Ports override),
      AgentArgs = mergeMapFields (AgentArgs base) (AgentArgs override),
      AgentFiles = (if AgentFiles override \<noteq> None then AgentFiles override else AgentFiles base),
      CapAdd = mergeSlices (CapAdd base) (CapAdd override),
      Devices = mergeSlices (Devices base) (Devices override),
      Setup = mergeSlices (Setup base) (Setup override),
      AutoCommitInterval = (if AutoCommitInterval override > 0 then AutoCommitInterval override else AutoCommitInterval base),
      Isolation = mergeStringField (Isolation base) (Isolation override)\<rparr>"

section \<open>Loading\<close>

record layout =
  DefaultsConfigPath :: string
  defaults_file :: "(string, string option) result"
  global_file :: "(string, string option) result"
  layout_env :: HostEnv

definition LoadBakedInDefaults :: "yaml \<Rightarrow> (string, YoloaiConfig) result" where
  "LoadBakedInDefaults Y = parseConfigYAML Y (DefaultConfigYAML Y) ''<baked-in>'' (Some knownDefaultsKeys) Map.empty"

definition LoadDefaultsConfig :: "yaml \<Rightarrow> 'a layout_scheme \<Rightarrow> (string, YoloaiConfig) result" where
  "LoadDefaultsConfig Y L =
     res_bind (LoadBakedInDefaults Y) (\<lambda>base.
     res_bind (wrap ''read defaults/config.yaml'' (defaults_file L)) (\<lambda>f. case f of
         None \<Rightarrow> Inr base
       | Some data \<Rightarrow>
          res_bind (parseConfigYAML Y data (DefaultsConfigPath L) (Some knownDefaultsKeys) (EnvForConfigInterpolation (layout_env L)))
            (\<lambda>override. Inr (mergeConfigs base override))))"

definition LoadConfig :: "yaml \<Rightarrow> 'a layout_scheme \<Rightarrow> (string, YoloaiConfig) result" where
  "LoadConfig Y L =
     res_bind (wrap ''read config.yaml'' (defaults_file L)) (\<lambda>f. case f of
         None \<Rightarrow> Inr empty_config
       | Some data \<Rightarrow> parseConfigYAML Y data (DefaultsConfigPath L) (Some knownDefaultsKeys) (EnvForConfigInterpolation (layout_env L)))"

definition parseModelAliases :: "ynode \<Rightarrow> interpolation \<Rightarrow> (string, string \<rightharpoonup> string) result" where
  "parseModelAliases val env = string_map ''model_aliases'' val env"

definition applyGlobalConfigField :: "GlobalConfig \<Rightarrow> string \<Rightarrow> ynode \<Rightarrow> interpolation \<Rightarrow> (string, GlobalConfig) result" where
  "applyGlobalConfigField cfg key val env =
     (if key = ''tmux_conf'' then
        res_bind (wrap ''tmux_conf'' (expandEnvBraced env (Value val))) (\<lambda>x. Inr (cfg\<lparr>TmuxConf := x\<rparr>))
      else if key = ''model_aliases'' then
        (if Kind val \<noteq> MappingNode then Inr cfg
         else res_bind (parseModelAliases val env) (\<lambda>m. Inr (cfg\<lparr>ModelAliases := m\<rparr>)))
      else Inr cfg)"

definition applyGlobalDefaults :: "GlobalConfig \<Rightarrow> GlobalConfig" where
  "applyGlobalDefaults cfg =
     (if TmuxConf cfg = []
      then cfg\<lparr>TmuxConf := (case knownDefaultFrom ''tmux_conf'' globalKnownSettings of None \<Rightarrow> [] | Some d \<Rightarrow> d)\<rparr> else cfg)"

definition LoadGlobalConfig :: "yaml \<Rightarrow> 'a layout_scheme \<Rightarrow> (string, GlobalConfig) result" where
  "LoadGlobalConfig Y L = (let cfg = \<lparr>TmuxConf = [], ModelAliases = Map.empty\<rparr> in
     res_bind (wrap ''read global config.yaml'' (global_file L)) (\<lambda>f. case f of
         None \<Rightarrow> Inr (applyGlobalDefaults cfg)
       | Some data \<Rightarrow> (case yunmarshal Y data of
            None \<Rightarrow> Inl ''parse global config.yaml''
          | Some doc \<Rightarrow>
             (if Kind doc \<noteq> DocumentNode \<or> Content doc = [] then Inr (applyGlobalDefaults cfg)
              else let root = hd (Content doc) in
                if Kind root \<noteq> MappingNode then Inr (applyGlobalDefaults cfg)
                else res_bind (res_foldl (\<lambda>c (k, v). applyGlobalConfigField c (Value k) v (EnvForConfigInterpolation (layout_env L)))
                       cfg (pairs_of (Content root)))
                  (\<lambda>c. Inr (applyGlobalDefaults c))))))"

definition ReadConfigRaw :: "'a layout_scheme \<Rightarrow> (string, string option) result" where
  "ReadConfigRaw L = wrap ''read config.yaml'' (defaults_file L)"

definition ReadGlobalConfigRaw :: "'a layout_scheme \<Rightarrow> (string, string option) result" where
  "ReadGlobalConfigRaw L = wrap ''read global config.yaml'' (global_file L)"

definition expand_all :: "string \<Rightarrow> interpolation \<Rightarrow> string list \<Rightarrow> (string, string list) result" where
  "expand_all home env fs = res_foldl (\<lambda>acc f. res_bind (ExpandPath f home env) (\<lambda>x. Inr (acc @ [x]))) [] fs"

definition ExpandAgentFiles ::
  "AgentFilesConfig option \<Rightarrow> string \<Rightarrow> interpolation \<Rightarrow> (string, AgentFilesConfig option) result" where
  "ExpandAgentFiles af home env = (case af of
       None \<Rightarrow> Inr None
     | Some a \<Rightarrow>
        (if IsStringForm af
         then res_bind (ExpandPath (BaseDir a) home env) (\<lambda>x. Inr (Some \<lparr>BaseDir = x, Files = []\<rparr>))
         else res_bind (expand_all home env (Files a)) (\<lambda>fs. Inr (Some \<lparr>BaseDir = [], Files = fs\<rparr>))))"

section \<open>Merging layers\<close>

lemmas merge_defs = mergeStringField_def mergeMapFields_def mergeSlices_def mergeDirectories_def

lemma mergeStringField_assoc: "mergeStringField (mergeStringField a b) c = mergeStringField a (mergeStringField b c)"
  by (simp add: mergeStringField_def)

lemma mergeResources_assoc: "mergeResources (mergeResources a b) c = mergeResources a (mergeResources b c)"
  by (cases a; cases b; cases c) (auto simp: mergeResources_def mergeStringField_def Let_def)

lemma mergeNetwork_assoc: "mergeNetwork (mergeNetwork a b) c = mergeNetwork a (mergeNetwork b c)"
  by (cases a; cases b; cases c) (auto simp: mergeNetwork_def Let_def)

lemma mergeResources_None [simp]: "mergeResources r None = r" "mergeResources None r = r"
  by (cases r; simp add: mergeResources_def mergeStringField_def Let_def)+

lemma mergeNetwork_None [simp]: "mergeNetwork n None = n" "mergeNetwork None n = n"
  by (cases n; simp add: mergeNetwork_def Let_def)+

text \<open>Layers can be merged in any grouping, and a layer that sets nothing changes nothing.\<close>

lemma mergeConfigs_assoc: "mergeConfigs (mergeConfigs a b) c = mergeConfigs a (mergeConfigs b c)"
  by (auto simp: mergeConfigs_def mergeStringField_assoc mergeResources_assoc mergeNetwork_assoc mergeMapFields_def
      mergeSlices_def mergeDirectories_def)

lemma mergeConfigs_empty: "mergeConfigs a empty_config = a"
  by (simp add: mergeConfigs_def empty_config_def merge_defs)

lemma mergeConfigs_from_empty: "AutoCommitInterval a \<ge> 0 \<Longrightarrow> mergeConfigs empty_config a = a"
  by (auto simp: mergeConfigs_def empty_config_def merge_defs intro!: YoloaiConfig.equality)

section \<open>The tables of keys agree\<close>

lemma key_values_Cons: "key_values (YNode k t v (a # b # rest)) = Value a # key_values (YNode k t v rest)"
  by (simp add: key_values_def)

lemma pairs_in_mapping:
  "even (length c) \<Longrightarrow>
   set (map (\<lambda>p. Value (fst p)) (pairs_of (in_mapping k f c))) \<subseteq> insert k (set (map (\<lambda>p. Value (fst p)) (pairs_of c)))"
  by (induction k f c rule: in_mapping.induct) (auto simp: scalar_def)

lemma pairs_set_leaf:
  "even (length c) \<Longrightarrow>
   set (map (\<lambda>p. Value (fst p)) (pairs_of (set_leaf k v c))) \<subseteq> insert k (set (map (\<lambda>p. Value (fst p)) (pairs_of c)))"
  by (induction k v c rule: set_leaf.induct) (auto simp: scalar_def)

lemma key_values_set:
  assumes "even (length (Content root))" and "ps \<noteq> []"
  shows "set (key_values (set_parts ps v root)) \<subseteq> insert (hd ps) (set (key_values root))"
  using assms pairs_in_mapping [OF assms(1)] pairs_set_leaf [OF assms(1)]
  by (cases "(ps, v, root)" rule: set_parts.cases) (simp_all add: key_values_def getOrCreateMapping_def)

lemma handled_keys: "list_all (\<lambda>k. k = ''directories'' \<or> k \<in> set (map fst yoloaiConfigHandlers)) knownDefaultsKeys"
  by code_simp

lemma known_setting_keys: "list_all (\<lambda>s. hd (splitDottedPath (fst s)) \<in> set knownDefaultsKeys) knownSettings"
  by code_simp

lemma collection_keys: "list_all (\<lambda>k. k \<in> set knownDefaultsKeys \<or> k = ''model_aliases'') configMapEntryPaths"
  by code_simp

lemma global_path:
  "isKnownScalarPath path globalKnownSettings \<Longrightarrow> IsGlobalKey path"
  by (auto simp: isKnownScalarPath_def IsGlobalKey_def isGlobalKey_def globalKnownSettings_def)

lemma settable_key:
  assumes "IsSettableConfigPath path" and "\<not> IsGlobalKey path"
  shows "hd (splitDottedPath path) \<in> set knownDefaultsKeys"
proof -
  let ?h = "hd (splitDottedPath path)"
  have m: "?h \<noteq> ''model_aliases''"
  proof
    assume "?h = ''model_aliases''"
    moreover have "splitDottedPath ''model_aliases'' = [''model_aliases'']" by code_simp
    ultimately show False using assms(2) by (simp add: IsGlobalKey_def isGlobalKey_def globalKnownCollectionSettings_def)
  qed
  consider "isKnownScalarPath path knownSettings" | "isKnownScalarPath path globalKnownSettings" | "path = ''agent_files''"
    | "?h \<in> set configMapEntryPaths"
    using assms(1) by (auto simp: IsSettableConfigPath_def Let_def split: if_splits)
  then show ?thesis
  proof cases
    case 1
    then show ?thesis using known_setting_keys by (auto simp: isKnownScalarPath_def list_ex_iff list_all_iff)
  next
    case 2
    then show ?thesis using global_path assms(2) by blast
  next
    case 3
    moreover have "hd (splitDottedPath ''agent_files'') \<in> set knownDefaultsKeys" by code_simp
    ultimately show ?thesis by simp
  next
    case 4
    then show ?thesis using collection_keys m by (auto simp: list_all_iff)
  qed
qed

text \<open>The configuration commands and the loader agree on the keys. Setting a key that is not a global one in
  a document the loader accepts gives a document whose top-level keys the loader accepts, so no accepted
  set makes the file unloadable by its keys; and every key the loader accepts has a handler, so none is
  silently ignored.\<close>

theorem config_set_keeps_loadable:
  assumes "IsSettableConfigPath path" and "\<not> IsGlobalKey path" and "Kind root = MappingNode" and "well_paired root"
    and "validateKnownKeys root source knownDefaultsKeys = Inr ()" and "checkMountsKeyRemoved root = Inr ()"
  shows "validateKnownKeys (setYAMLField root path v) source knownDefaultsKeys = Inr () \<and>
    checkMountsKeyRemoved (setYAMLField root path v) = Inr () \<and>
    (\<forall>k \<in> set (key_values (setYAMLField root path v)). k = ''directories'' \<or> map_of yoloaiConfigHandlers k \<noteq> None)"
proof -
  have known: "set (key_values root) \<subseteq> set knownDefaultsKeys"
    using assms(5) by (auto simp: validateKnownKeys_def Let_def filter_empty_conv split: if_splits)
  have "set (key_values (setYAMLField root path v)) \<subseteq> insert (hd (splitDottedPath path)) (set (key_values root))"
    unfolding setYAMLField_def
    by (rule key_values_set [OF well_paired_mapping [OF assms(4,3)] splitDottedPath_ne])
  then have all: "set (key_values (setYAMLField root path v)) \<subseteq> set knownDefaultsKeys"
    using known settable_key [OF assms(1,2)] by auto
  have "''mounts'' \<notin> set knownDefaultsKeys" by (simp add: knownDefaultsKeys_def)
  with all have m: "''mounts'' \<notin> set (key_values (setYAMLField root path v))" by auto
  have h: "k = ''directories'' \<or> map_of yoloaiConfigHandlers k \<noteq> None" if "k \<in> set knownDefaultsKeys" for k
    using that handled_keys by (auto simp: list_all_iff map_of_eq_None_iff)
  show ?thesis using all m h
    by (auto simp: validateKnownKeys_def checkMountsKeyRemoved_def Let_def filter_empty_conv)
qed

theorem config_set_keeps_loadable_witness:
  "validateKnownKeys (setYAMLField (YNode MappingNode [] [] [scalar ''os'', scalar ''linux'']) ''network.isolated'' ''true'')
     ''config'' knownDefaultsKeys = Inr ()"
proof -
  have "IsSettableConfigPath ''network.isolated''" by code_simp
  moreover have "\<not> IsGlobalKey ''network.isolated''" by code_simp
  moreover have "validateKnownKeys (YNode MappingNode [] [] [scalar ''os'', scalar ''linux'']) ''config'' knownDefaultsKeys = Inr ()"
    "checkMountsKeyRemoved (YNode MappingNode [] [] [scalar ''os'', scalar ''linux'']) = Inr ()"
    by (simp_all add: validateKnownKeys_def checkMountsKeyRemoved_def key_values_def scalar_def knownDefaultsKeys_def)
  ultimately show ?thesis
    using config_set_keeps_loadable [of "''network.isolated''" "YNode MappingNode [] [] [scalar ''os'', scalar ''linux'']"]
    by (simp add: scalar_def)
qed

end
