(* ===== verification/Profiles.thy ===== *)
theory Profiles
  imports ConfigLoad Names
begin

text \<open>
  Profiles, after \<open>internal/config/profile.go\<close>: finding, validating and loading a profile, the chain of
  profiles it extends, the image it runs from and the configuration merged along the chain.

  The directories that a profile name can resolve to are an association list from cleaned paths, so a
  name such as \<open>../x\<close> resolves where \<open>filepath.Join\<close> puts it. The loop over the chain is a partial
  function, and that it always returns is a theorem.
\<close>

section \<open>Data\<close>

record ProfileWorkdir =
  pw_Path :: string
  pw_Mode :: string
  pw_Mount :: string
  pw_CopyStrict :: bool

text \<open>The struct embeds \<open>YoloaiConfig\<close>; its own \<open>Directories\<close> shadows the embedded one.\<close>

record ProfileConfig =
  common :: YoloaiConfig
  pc_Backend :: string
  pc_Workdir :: "ProfileWorkdir option"
  pc_Directories :: "ProfileDir list"

record MergedConfig =
  m_Agent :: string
  m_Model :: string
  m_OS :: string
  m_Backend :: string
  m_ContainerBackend :: string
  m_TartImage :: string
  m_Env :: "string \<rightharpoonup> string"
  m_Ports :: "string list"
  m_Workdir :: "ProfileWorkdir option"
  m_Directories :: "ProfileDir list"
  m_Resources :: "ResourceLimits option"
  m_Network :: "NetworkConfig option"
  m_AgentArgs :: "string \<rightharpoonup> string"
  m_AgentFiles :: "AgentFilesConfig option"
  m_CapAdd :: "string list"
  m_Devices :: "string list"
  m_Setup :: "string list"
  m_AutoCommitInterval :: int
  m_Isolation :: string

definition empty_profile :: ProfileConfig where
  "empty_profile = \<lparr>common = empty_config, pc_Backend = [], pc_Workdir = None, pc_Directories = []\<rparr>"

text \<open>A directory that a profile name resolves to: what reading its \<open>config.yaml\<close> gives (\<open>Inr None\<close> when
  the file is not there) and whether it has a \<open>Dockerfile\<close>.\<close>

record profile_dir =
  config_yaml :: "(string, string option) result"
  dockerfile :: bool

record profile_layout = layout +
  ProfilesDir :: string
  profiles_error :: "string option"
  profile_dirs :: "(string \<times> profile_dir) list"
  Principal :: string

definition ProfileDirPath :: "'a profile_layout_scheme \<Rightarrow> string \<Rightarrow> string" where
  "ProfileDirPath L name = Join (ProfilesDir L) name"

definition profile_at :: "'a profile_layout_scheme \<Rightarrow> string \<Rightarrow> profile_dir option" where
  "profile_at L name = map_of (profile_dirs L) (ProfileDirPath L name)"

section \<open>Names and directories\<close>

definition ValidateProfileName :: "string \<Rightarrow> (string, unit) result" where
  "ValidateProfileName name =
     (if name = [] then Inl ''profile name is required''
      else if length name > MaxNameLength then Inl ''invalid profile name: too long''
      else if hd name = CHR ''/'' \<or> hd name = CHR 0x5C then Inl ''invalid profile name: looks like a path''
      else if \<not> ValidNameRe name then Inl ''invalid profile name''
      else Inr ())"

definition ProfileExists :: "'a profile_layout_scheme \<Rightarrow> string \<Rightarrow> bool" where
  "ProfileExists L name = (case profile_at L name of None \<Rightarrow> False | Some d \<Rightarrow> config_yaml d \<noteq> Inr None)"

definition ProfileHasDockerfile :: "'a profile_layout_scheme \<Rightarrow> string \<Rightarrow> bool" where
  "ProfileHasDockerfile L name = (case profile_at L name of None \<Rightarrow> False | Some d \<Rightarrow> dockerfile d)"

text \<open>The entries of the profiles directory, by the paths directly below it.\<close>

definition entry_name :: "'a profile_layout_scheme \<Rightarrow> string \<Rightarrow> string list" where
  "entry_name L p = (if HasPrefix p (ProfilesDir L @ ''/'')
     then (let n = drop (length (ProfilesDir L) + 1) p in if n \<noteq> [] \<and> CHR ''/'' \<notin> set n then [n] else []) else [])"

definition ListProfiles :: "'a profile_layout_scheme \<Rightarrow> (string, string list) result" where
  "ListProfiles L = (case profiles_error L of
       Some e \<Rightarrow> Inl (''read profiles directory: '' @ e)
     | None \<Rightarrow> Inr (sort (concat (map (\<lambda>(p, d). if config_yaml d \<noteq> Inr None then entry_name L p else []) (profile_dirs L)))))"

section \<open>Loading a profile\<close>

type_synonym profileOnlyHandler = "ProfileConfig \<Rightarrow> ynode \<Rightarrow> interpolation \<Rightarrow> (string, ProfileConfig) result"

definition handleProfileBackend :: profileOnlyHandler where
  "handleProfileBackend cfg val env =
     res_bind (expandEnvBraced env (Value val)) (\<lambda>x. Inr (cfg\<lparr>pc_Backend := x\<rparr>))"

definition workdir_entry :: "interpolation \<Rightarrow> ProfileWorkdir \<Rightarrow> ynode \<times> ynode \<Rightarrow> (string, ProfileWorkdir) result" where
  "workdir_entry env w p = (case p of (k, v) \<Rightarrow>
     res_bind (wrap (''workdir.'' @ Value k) (expandEnvBraced env (Value v))) (\<lambda>x. Inr
       (if Value k = ''path'' then w\<lparr>pw_Path := x\<rparr> else if Value k = ''mode'' then w\<lparr>pw_Mode := x\<rparr>
        else if Value k = ''mount'' then w\<lparr>pw_Mount := x\<rparr> else w)))"

definition handleProfileWorkdir :: profileOnlyHandler where
  "handleProfileWorkdir cfg val env =
     (if Kind val \<noteq> MappingNode then Inr cfg
      else res_bind (res_foldl (workdir_entry env) \<lparr>pw_Path = [], pw_Mode = [], pw_Mount = [], pw_CopyStrict = False\<rparr>
             (pairs_of (Content val))) (\<lambda>w. Inr (cfg\<lparr>pc_Workdir := Some w\<rparr>)))"

definition handleProfileDirectories :: profileOnlyHandler where
  "handleProfileDirectories cfg val env =
     res_bind (parseDirectoriesNode val env) (\<lambda>dirs. Inr (cfg\<lparr>pc_Directories := pc_Directories cfg @ dirs\<rparr>))"

definition profileOnlyHandlers :: "(string \<times> profileOnlyHandler) list" where
  "profileOnlyHandlers = [(''backend'', handleProfileBackend), (''workdir'', handleProfileWorkdir),
     (''directories'', handleProfileDirectories)]"

definition checkOSKeyRejectedInProfile :: "ynode \<Rightarrow> (string, unit) result" where
  "checkOSKeyRejectedInProfile root =
     (if ''os'' \<in> set (key_values root) then Inl ''\"os:\" has no effect in a profile (DF210)'' else Inr ())"

definition profile_entry :: "interpolation \<Rightarrow> ProfileConfig \<Rightarrow> ynode \<times> ynode \<Rightarrow> (string, ProfileConfig) result" where
  "profile_entry env cfg p = (case p of (k, val) \<Rightarrow>
     (case map_of yoloaiConfigHandlers (Value k) of
        Some handler \<Rightarrow> res_bind (handler (common cfg) val env) (\<lambda>c. Inr (cfg\<lparr>common := c\<rparr>))
      | None \<Rightarrow> (case map_of profileOnlyHandlers (Value k) of
           Some handler \<Rightarrow> handler cfg val env
         | None \<Rightarrow> Inr cfg)))"

definition LoadProfile :: "yaml \<Rightarrow> 'a profile_layout_scheme \<Rightarrow> string \<Rightarrow> (string, ProfileConfig) result" where
  "LoadProfile Y L name =
     (case (case profile_at L name of None \<Rightarrow> Inr None | Some d \<Rightarrow> config_yaml d) of
        Inl e \<Rightarrow> Inl (''read config.yaml for '' @ name @ '': '' @ e)
      | Inr None \<Rightarrow> Inl (''read config.yaml for '' @ name @ '': no such file'')
      | Inr (Some data) \<Rightarrow>
         (if data = [] then Inr empty_profile
          else case yunmarshal Y data of
              None \<Rightarrow> Inl (''parse config.yaml for '' @ name)
            | Some doc \<Rightarrow>
               (if Kind doc \<noteq> DocumentNode \<or> Content doc = [] then Inr empty_profile
                else let root = hd (Content doc) in
                  if Kind root \<noteq> MappingNode then Inr empty_profile
                  else res_bind (wrap (''config.yaml for '' @ name) (checkMountsKeyRemoved root)) (\<lambda>_.
                       res_bind (wrap (''config.yaml for '' @ name) (checkOSKeyRejectedInProfile root)) (\<lambda>_.
                       res_foldl (profile_entry (EnvForConfigInterpolation (layout_env L))) empty_profile
                         (pairs_of (Content root)))))))"

section \<open>Images\<close>

definition BaseImage :: string where "BaseImage = ''yoloai-base''"

definition ProfileImageTag :: "'a profile_layout_scheme \<Rightarrow> string \<Rightarrow> (name_error, string) result" where
  "ProfileImageTag L profileName = res_bind (InstancePrefix (Principal L)) (\<lambda>pre. Inr (pre @ profileName))"

definition ResolveProfileImage :: "'a profile_layout_scheme \<Rightarrow> string \<Rightarrow> string list \<Rightarrow> (name_error, string) result" where
  "ResolveProfileImage L profileName chain =
     (case find (\<lambda>n. n \<noteq> ''base'' \<and> ProfileHasDockerfile L n) (rev chain) of
        Some n \<Rightarrow> ProfileImageTag L n
      | None \<Rightarrow> Inr BaseImage)"

section \<open>The chain of profiles\<close>

text \<open>\<open>loadProfileLegacy\<close>. The error of the expansion is dropped, and the value is then empty.\<close>

definition extends_value :: "interpolation \<Rightarrow> string \<Rightarrow> string" where
  "extends_value env v = (case expandEnvBraced env v of Inl _ \<Rightarrow> [] | Inr x \<Rightarrow> x)"

definition read_extends ::
  "yaml \<Rightarrow> interpolation \<Rightarrow> string \<Rightarrow> (string, string option) result \<Rightarrow> (string, string) result" where
  "read_extends Y env name f = (case f of
       Inl e \<Rightarrow> Inl (''read profile '' @ name @ '' config: '' @ e)
     | Inr None \<Rightarrow> Inr ''base''
     | Inr (Some data) \<Rightarrow> (case yunmarshal Y data of
          None \<Rightarrow> Inl (''parse profile '' @ name @ '' config.yaml'')
        | Some doc \<Rightarrow>
           (if Kind doc \<noteq> DocumentNode \<or> Content doc = [] then Inr ''base''
            else let root = hd (Content doc) in
              if Kind root \<noteq> MappingNode then Inr ''base''
              else case find_key ''extends'' (Content root) of
                  Some v \<Rightarrow> Inr (extends_value env (Value v))
                | None \<Rightarrow> Inr ''base'')))"

definition loadProfileLegacy :: "yaml \<Rightarrow> 'a profile_layout_scheme \<Rightarrow> string \<Rightarrow> (string, string) result" where
  "loadProfileLegacy Y L name = read_extends Y (EnvForConfigInterpolation (layout_env L)) name
     (case profile_at L name of None \<Rightarrow> Inr None | Some d \<Rightarrow> config_yaml d)"

text \<open>The arrow is the three bytes of its UTF-8 encoding.\<close>

definition formatCycle :: "string list \<Rightarrow> string \<Rightarrow> string" where
  "formatCycle chain repeated =
     concat (map (\<lambda>n. n @ [CHR 0x20, CHR 0xE2, CHR 0x86, CHR 0x92, CHR 0x20]) chain) @ repeated"

text \<open>The set of visited names holds exactly the elements of the chain at the head of the loop.\<close>

partial_function (option) resolve_loop ::
  "yaml \<Rightarrow> 'a profile_layout_scheme \<Rightarrow> string list \<Rightarrow> string \<Rightarrow> (string, string list) result option" where
  "resolve_loop Y L chain current =
     (if current = ''base'' then Some (Inr (''base'' # rev chain))
      else if current \<in> set chain then Some (Inl (''profile inheritance cycle: '' @ formatCycle chain current))
      else if \<not> ProfileExists L current then Some (Inl (''profile '' @ current @ '' does not exist''))
      else case loadProfileLegacy Y L current of
          Inl e \<Rightarrow> Some (Inl e)
        | Inr ext \<Rightarrow> resolve_loop Y L (chain @ [current]) (if ext = [] then ''base'' else ext))"

definition ResolveProfileChain ::
  "yaml \<Rightarrow> 'a profile_layout_scheme \<Rightarrow> string \<Rightarrow> (string, string list) result option" where
  "ResolveProfileChain Y L name = resolve_loop Y L [] name"

section \<open>Merging along the chain\<close>

definition mergedConfigFromBase :: "YoloaiConfig \<Rightarrow> MergedConfig" where
  "mergedConfigFromBase base =
     \<lparr>m_Agent = Agent base, m_Model = Model base, m_OS = OS base, m_Backend = [], m_ContainerBackend = ContainerBackend base,
      m_TartImage = TartImage base, m_Env = Env base, m_Ports = Ports base, m_Workdir = None, m_Directories = [],
      m_Resources = map_option (\<lambda>r. \<lparr>CPUs = CPUs r, Memory = Memory r\<rparr>) (Resources base),
      m_Network = map_option (\<lambda>n. \<lparr>Isolated = Isolated n, Allow = Allow n\<rparr>) (Network base),
      m_AgentArgs = AgentArgs base, m_AgentFiles = AgentFiles base, m_CapAdd = CapAdd base, m_Devices = Devices base,
      m_Setup = Setup base, m_AutoCommitInterval = AutoCommitInterval base, m_Isolation = Isolation base\<rparr>"

definition applyProfileMaps :: "ProfileConfig \<Rightarrow> MergedConfig \<Rightarrow> MergedConfig" where
  "applyProfileMaps p m = m\<lparr>m_Env := m_Env m ++ Env (common p), m_AgentArgs := m_AgentArgs m ++ AgentArgs (common p)\<rparr>"

text \<open>The groups of statements of \<open>applyProfileToMerged\<close>, in order.\<close>

definition apply_scalars :: "ProfileConfig \<Rightarrow> MergedConfig \<Rightarrow> MergedConfig" where
  "apply_scalars p m = m\<lparr>m_Agent := mergeStringField (m_Agent m) (Agent (common p)),
     m_Model := mergeStringField (m_Model m) (Model (common p)),
     m_OS := mergeStringField (m_OS m) (OS (common p)),
     m_Backend := mergeStringField (m_Backend m) (pc_Backend p),
     m_ContainerBackend := mergeStringField (m_ContainerBackend m) (ContainerBackend (common p)),
     m_TartImage := mergeStringField (m_TartImage m) (TartImage (common p)),
     m_Isolation := mergeStringField (m_Isolation m) (Isolation (common p)),
     m_AgentFiles := (if AgentFiles (common p) \<noteq> None then AgentFiles (common p) else m_AgentFiles m),
     m_AutoCommitInterval := (if AutoCommitInterval (common p) > 0 then AutoCommitInterval (common p) else m_AutoCommitInterval m),
     m_Workdir := (if pc_Workdir p \<noteq> None then pc_Workdir p else m_Workdir m)\<rparr>"

definition apply_lists :: "ProfileConfig \<Rightarrow> MergedConfig \<Rightarrow> MergedConfig" where
  "apply_lists p m = m\<lparr>m_Ports := m_Ports m @ Ports (common p), m_CapAdd := m_CapAdd m @ CapAdd (common p),
     m_Devices := m_Devices m @ Devices (common p), m_Setup := m_Setup m @ Setup (common p),
     m_Directories := m_Directories m @ pc_Directories p\<rparr>"

definition apply_resources :: "ProfileConfig \<Rightarrow> MergedConfig \<Rightarrow> MergedConfig" where
  "apply_resources p m = (case Resources (common p) of None \<Rightarrow> m | Some r \<Rightarrow>
     let r0 = (case m_Resources m of None \<Rightarrow> \<lparr>CPUs = [], Memory = []\<rparr> | Some x \<Rightarrow> x) in
     m\<lparr>m_Resources := Some (r0\<lparr>CPUs := mergeStringField (CPUs r0) (CPUs r), Memory := mergeStringField (Memory r0) (Memory r)\<rparr>)\<rparr>)"

definition apply_network :: "ProfileConfig \<Rightarrow> MergedConfig \<Rightarrow> MergedConfig" where
  "apply_network p m = (case Network (common p) of None \<Rightarrow> m | Some n \<Rightarrow>
     let n0 = (case m_Network m of None \<Rightarrow> \<lparr>Isolated = False, Allow = []\<rparr> | Some x \<Rightarrow> x) in
     m\<lparr>m_Network := Some (n0\<lparr>Isolated := Isolated n, Allow := Allow n0 @ Allow n\<rparr>)\<rparr>)"

definition applyProfileToMerged :: "MergedConfig \<Rightarrow> ProfileConfig \<Rightarrow> MergedConfig" where
  "applyProfileToMerged m p =
     apply_network p (apply_resources p (apply_lists p (applyProfileMaps p (apply_scalars p m))))"

definition MergeProfileChain ::
  "yaml \<Rightarrow> 'a profile_layout_scheme \<Rightarrow> YoloaiConfig \<Rightarrow> string list \<Rightarrow> (string, MergedConfig) result" where
  "MergeProfileChain Y L base chain =
     res_foldl (\<lambda>m name. if name = ''base'' then Inr m
                else res_bind (LoadProfile Y L name) (\<lambda>p. Inr (applyProfileToMerged m p)))
       (mergedConfigFromBase base) chain"

definition ValidateProfileBackend :: "string \<Rightarrow> string \<Rightarrow> (string, unit) result" where
  "ValidateProfileBackend profileBackend resolvedBackend =
     (if profileBackend = [] then Inr ()
      else if profileBackend \<noteq> resolvedBackend
      then Inl (''profile requires backend '' @ profileBackend @ '' but resolved backend is '' @ resolvedBackend)
      else Inr ())"

section \<open>The chain is resolved, always\<close>

text \<open>What the chain means, without the loop: the profiles met on the way to \<open>base\<close>, root first.\<close>

definition parent :: "yaml \<Rightarrow> 'a profile_layout_scheme \<Rightarrow> string \<Rightarrow> string option" where
  "parent Y L name = (if name = ''base'' \<or> \<not> ProfileExists L name then None
     else case loadProfileLegacy Y L name of Inl _ \<Rightarrow> None | Inr ext \<Rightarrow> Some (if ext = [] then ''base'' else ext))"

inductive extends_chain :: "yaml \<Rightarrow> 'a profile_layout_scheme \<Rightarrow> string \<Rightarrow> string list \<Rightarrow> bool" for Y L where
  base: "extends_chain Y L ''base'' [''base'']"
| step: "parent Y L name = Some up \<Longrightarrow> extends_chain Y L up chain \<Longrightarrow> extends_chain Y L name (chain @ [name])"

lemma parent_base [simp]: "parent Y L ''base'' = None"
  by (simp add: parent_def)

lemma extends_chain_base: "extends_chain Y L ''base'' chain \<longleftrightarrow> chain = [''base'']"
  by (subst extends_chain.simps) auto

lemma extends_chain_step:
  assumes "parent Y L name = Some up"
  shows "extends_chain Y L name chain \<longleftrightarrow> (\<exists>c. extends_chain Y L up c \<and> chain = c @ [name])"
  using assms by (subst extends_chain.simps) auto

lemma extends_chain_stuck: "parent Y L name = None \<Longrightarrow> name \<noteq> ''base'' \<Longrightarrow> \<not> extends_chain Y L name chain"
  by (subst extends_chain.simps) auto

lemma extends_chain_unique: "extends_chain Y L name c \<Longrightarrow> extends_chain Y L name d \<Longrightarrow> c = d"
proof (induction arbitrary: d rule: extends_chain.induct)
  case base
  then show ?case by (simp add: extends_chain_base)
next
  case (step name up chain)
  from step.prems obtain c where "extends_chain Y L up c" "d = c @ [name]"
    unfolding extends_chain_step [OF step.hyps(1)] by blast
  then show ?case using step.IH by blast
qed

text \<open>Every name the loop can come to after the first is a value of \<open>extends\<close> in one of finitely many
  files.\<close>

definition all_parents :: "yaml \<Rightarrow> 'a profile_layout_scheme \<Rightarrow> string set" where
  "all_parents Y L = (\<Union>(p, d) \<in> set (profile_dirs L).
     {up. \<exists>name ext. read_extends Y (EnvForConfigInterpolation (layout_env L)) name (config_yaml d) = Inr ext \<and>
          up = (if ext = [] then ''base'' else ext)})"

lemma read_extends_name:
  "read_extends Y env n f = Inr x \<Longrightarrow> read_extends Y env m f = Inr y \<Longrightarrow> x = y"
proof (cases f)
  case (Inr f0)
  assume a: "read_extends Y env n f = Inr x" "read_extends Y env m f = Inr y"
  show ?thesis
  proof (cases "f0 = None \<or> yunmarshal Y (the f0) = None")
    case True
    then show ?thesis using a Inr by (cases f0) (auto simp: read_extends_def)
  next
    case False
    then show ?thesis using a Inr by (cases f0) (auto simp: read_extends_def)
  qed
qed (simp add: read_extends_def)

lemma finite_all_parents: "finite (all_parents Y L)"
proof -
  have "finite {up. \<exists>name ext. read_extends Y (EnvForConfigInterpolation (layout_env L)) name f = Inr ext \<and>
          up = (if ext = [] then ''base'' else ext)}" (is "finite ?A") for f
  proof (cases "?A = {}")
    case False
    then obtain a where "a \<in> ?A" by blast
    then have "?A \<subseteq> {a}" by (auto dest: read_extends_name)
    then show ?thesis by (rule finite_subset) simp
  qed (simp only: finite.emptyI)
  then show ?thesis unfolding all_parents_def by (intro finite_UN_I finite_set) (simp only: case_prod_beta)
qed

lemma parent_in: "parent Y L name = Some up \<Longrightarrow> up \<in> all_parents Y L"
  unfolding parent_def all_parents_def loadProfileLegacy_def ProfileExists_def profile_at_def
  by (auto split: if_splits sum.splits option.splits dest!: map_of_SomeD)

text \<open>From every name on the chain so far the current name is reached by at least one step.\<close>

definition leads_to :: "yaml \<Rightarrow> 'a profile_layout_scheme \<Rightarrow> string list \<Rightarrow> string \<Rightarrow> bool" where
  "leads_to Y L chain current = (\<forall>v \<in> set chain. \<forall>c. extends_chain Y L v c \<longrightarrow>
     (\<exists>d. extends_chain Y L current d \<and> length d < length c))"

lemma leads_to_step:
  assumes "leads_to Y L chain current" and "parent Y L current = Some up"
  shows "leads_to Y L (chain @ [current]) up"
  using assms(1) unfolding leads_to_def
  by (auto simp: extends_chain_step [OF assms(2)]) (metis Suc_lessD length_append_singleton)

lemma leads_to_cycle:
  assumes "leads_to Y L chain current" and "current \<in> set chain"
  shows "\<not> extends_chain Y L current c"
  using assms extends_chain_unique unfolding leads_to_def by (metis less_irrefl)

lemma resolve_loop_result:
  assumes "leads_to Y L chain current"
  shows "\<exists>r. resolve_loop Y L chain current = Some r \<and>
    (\<forall>res. r = Inr res \<longleftrightarrow> (\<exists>c. extends_chain Y L current c \<and> res = c @ rev chain))"
  using assms
proof (induction "card (insert current (all_parents Y L) - set chain)" arbitrary: chain current rule: less_induct)
  case less
  note unfold = resolve_loop.simps [of Y L chain current]
  consider "current = ''base''" | "current \<noteq> ''base''" "current \<in> set chain"
    | up where "current \<noteq> ''base''" "current \<notin> set chain" "parent Y L current = Some up"
    | "current \<noteq> ''base''" "current \<notin> set chain" "parent Y L current = None"
    by (cases "parent Y L current") auto
  then show ?case
  proof cases
    case 1
    then show ?thesis using unfold by (auto simp: extends_chain_base)
  next
    case 2
    then show ?thesis using unfold leads_to_cycle [OF less.prems] by simp
  next
    case (3 up)
    have eq: "resolve_loop Y L chain current = resolve_loop Y L (chain @ [current]) up"
      using 3 unfold by (auto simp: parent_def split: if_splits sum.splits)
    have fin: "finite (insert current (all_parents Y L) - set chain)"
      by (simp add: finite_all_parents)
    have "insert up (all_parents Y L) - set (chain @ [current]) \<subset> insert current (all_parents Y L) - set chain"
      using 3 parent_in [OF 3(3)] by auto
    from less.hyps [OF psubset_card_mono [OF fin this] leads_to_step [OF less.prems 3(3)]]
    show ?thesis unfolding eq by (auto simp: extends_chain_step [OF 3(3)])
  next
    case 4
    then have "\<exists>e. resolve_loop Y L chain current = Some (Inl e)"
      using unfold by (auto simp: parent_def split: if_splits sum.splits)
    then show ?thesis using extends_chain_stuck [OF 4(3,1)] by auto
  qed
qed

text \<open>C31: The profile chain is always resolved. Whatever the profile files say, the loop that follows
  \<open>extends\<close> returns. It succeeds exactly when following \<open>extends\<close> from the profile reaches \<open>base\<close>
  through existing readable profiles, and then gives those profiles root first; otherwise, for a cycle
  of any length, a missing profile or one that does not parse, it gives an error.\<close>

theorem ResolveProfileChain_returns:
  "\<exists>r. ResolveProfileChain Y L name = Some r \<and> (\<forall>chain. r = Inr chain \<longleftrightarrow> extends_chain Y L name chain)"
  using resolve_loop_result [of Y L "[]" name] by (simp add: ResolveProfileChain_def leads_to_def)

text \<open>A resolved chain starts with \<open>base\<close>, ends with the profile and names no profile twice.\<close>

lemma extends_chain_shape: "extends_chain Y L name chain \<Longrightarrow> hd chain = ''base'' \<and> last chain = name \<and> chain \<noteq> []"
  by (induction rule: extends_chain.induct) auto

lemma extends_chain_suffix:
  "extends_chain Y L name chain \<Longrightarrow> v \<in> set chain \<Longrightarrow> \<exists>c. extends_chain Y L v c \<and> length c \<le> length chain"
proof (induction rule: extends_chain.induct)
  case base
  then show ?case by (auto intro: extends_chain.base)
next
  case (step name up chain)
  show ?case
  proof (cases "v = name")
    case True
    then show ?thesis using extends_chain.step [OF step.hyps(1,2)] by auto
  next
    case False
    then obtain c where "extends_chain Y L v c" "length c \<le> length chain" using step by auto
    then show ?thesis by auto
  qed
qed

lemma extends_chain_distinct: "extends_chain Y L name chain \<Longrightarrow> distinct chain"
proof (induction rule: extends_chain.induct)
  case (step name up chain)
  have "name \<notin> set chain"
  proof
    assume "name \<in> set chain"
    from extends_chain_suffix [OF step.hyps(2) this]
    obtain c where c: "extends_chain Y L name c" "length c \<le> length chain" by auto
    have "c = chain @ [name]"
      by (rule extends_chain_unique [OF c(1) extends_chain.step [OF step.hyps(1,2)]])
    with c(2) show False by simp
  qed
  then show ?case using step.IH by simp
qed simp

section \<open>Merging is layering\<close>

text \<open>The part of a merged configuration that a configuration file can also set, and the layer a profile
  adds to it.\<close>

definition merged_layer :: "MergedConfig \<Rightarrow> YoloaiConfig" where
  "merged_layer m = \<lparr>OS = m_OS m, ContainerBackend = m_ContainerBackend m, TartImage = m_TartImage m, Agent = m_Agent m,
     Model = m_Model m, Env = m_Env m, Resources = m_Resources m, Network = m_Network m, Directories = m_Directories m,
     Ports = m_Ports m, AgentArgs = m_AgentArgs m, AgentFiles = m_AgentFiles m, CapAdd = m_CapAdd m, Devices = m_Devices m,
     Setup = m_Setup m, AutoCommitInterval = m_AutoCommitInterval m, Isolation = m_Isolation m\<rparr>"

definition profile_layer :: "ProfileConfig \<Rightarrow> YoloaiConfig" where
  "profile_layer p = (common p)\<lparr>Directories := pc_Directories p\<rparr>"

definition or_else :: "'a option \<Rightarrow> 'a option \<Rightarrow> 'a option" where
  "or_else old new = (case new of None \<Rightarrow> old | Some x \<Rightarrow> Some x)"

lemma mergedConfigFromBase_layer: "merged_layer (mergedConfigFromBase b) = b\<lparr>Directories := []\<rparr>"
  by (auto simp: merged_layer_def mergedConfigFromBase_def option.map_ident
      intro!: YoloaiConfig.equality option.map_ident_strong)

lemma mergedConfigFromBase_own:
  "m_Backend (mergedConfigFromBase b) = []" "m_Workdir (mergedConfigFromBase b) = None"
  by (simp_all add: mergedConfigFromBase_def)

lemma apply_resources_eq:
  "apply_resources p m = m\<lparr>m_Resources := mergeResources (m_Resources m) (Resources (common p))\<rparr>"
  by (cases "Resources (common p)"; cases "m_Resources m")
    (simp_all add: apply_resources_def mergeResources_def mergeStringField_def Let_def)

lemma apply_network_eq:
  "apply_network p m = m\<lparr>m_Network := mergeNetwork (m_Network m) (Network (common p))\<rparr>"
  by (cases "Network (common p)"; cases "m_Network m") (simp_all add: apply_network_def mergeNetwork_def Let_def)

lemmas apply_defs = applyProfileToMerged_def apply_network_eq apply_resources_eq apply_lists_def applyProfileMaps_def
  apply_scalars_def

lemma applyProfileToMerged_layer:
  "merged_layer (applyProfileToMerged m p) = mergeConfigs (merged_layer m) (profile_layer p)"
  by (simp add: apply_defs merged_layer_def profile_layer_def mergeConfigs_def mergeMapFields_def mergeSlices_def
      mergeDirectories_def)

lemma applyProfileToMerged_own:
  "m_Backend (applyProfileToMerged m p) = mergeStringField (m_Backend m) (pc_Backend p)"
  "m_Workdir (applyProfileToMerged m p) = or_else (m_Workdir m) (pc_Workdir p)"
  by (simp_all add: apply_defs or_else_def split: option.split)

lemma merge_loop:
  "case res_foldl (\<lambda>m name. if name = ''base'' then Inr m
                else res_bind (LoadProfile Y L name) (\<lambda>p. Inr (applyProfileToMerged m p))) start chain of
     Inl e \<Rightarrow> \<exists>name \<in> set chain. name \<noteq> ''base'' \<and> LoadProfile Y L name = Inl e
   | Inr m \<Rightarrow> \<exists>ps. map (LoadProfile Y L) (filter (\<lambda>n. n \<noteq> ''base'') chain) = map Inr ps \<and>
       merged_layer m = foldl mergeConfigs (merged_layer start) (map profile_layer ps) \<and>
       m_Backend m = foldl mergeStringField (m_Backend start) (map pc_Backend ps) \<and>
       m_Workdir m = foldl or_else (m_Workdir start) (map pc_Workdir ps)"
  (is "case res_foldl ?f start chain of Inl e \<Rightarrow> _ e | Inr m \<Rightarrow> _ m")
proof (induction chain arbitrary: start)
  case Nil
  show ?case by (auto intro: exI [of _ "[]"])
next
  case (Cons name chain)
  show ?case
  proof (cases "name = ''base''")
    case True
    then show ?thesis using Cons.IH [of start] by (auto split: sum.splits)
  next
    case False
    show ?thesis
    proof (cases "LoadProfile Y L name")
      case (Inl e)
      then show ?thesis using False by simp
    next
      case (Inr p)
      show ?thesis
      proof (cases "res_foldl ?f (applyProfileToMerged start p) chain")
        case (Inl e)
        then show ?thesis using False Inr Cons.IH [of "applyProfileToMerged start p"] by auto
      next
        case res: (Inr m)
        from Cons.IH [of "applyProfileToMerged start p"] obtain ps where
          "map (LoadProfile Y L) (filter (\<lambda>n. n \<noteq> ''base'') chain) = map Inr ps"
          "merged_layer m = foldl mergeConfigs (merged_layer (applyProfileToMerged start p)) (map profile_layer ps)"
          "m_Backend m = foldl mergeStringField (m_Backend (applyProfileToMerged start p)) (map pc_Backend ps)"
          "m_Workdir m = foldl or_else (m_Workdir (applyProfileToMerged start p)) (map pc_Workdir ps)"
          unfolding res sum.case by blast
        then show ?thesis using False Inr res
          by (simp add: applyProfileToMerged_layer applyProfileToMerged_own) (rule exI [of _ "p # ps"], simp)
      qed
    qed
  qed
qed

text \<open>C32: Merging a profile chain is layering configurations. The merge along the chain fails exactly with the
  error of a profile that does not load. Otherwise every setting that a configuration file can also hold
  is what merging the profiles' settings one after the other, with the merge of configuration files,
  makes of the base configuration without its directories; the backend constraint and the workdir are
  those of the last profile that has one.\<close>

theorem MergeProfileChain_layers:
  "case MergeProfileChain Y L base chain of
     Inl e \<Rightarrow> \<exists>name \<in> set chain. name \<noteq> ''base'' \<and> LoadProfile Y L name = Inl e
   | Inr m \<Rightarrow> \<exists>ps. map (LoadProfile Y L) (filter (\<lambda>n. n \<noteq> ''base'') chain) = map Inr ps \<and>
       merged_layer m = foldl mergeConfigs (base\<lparr>Directories := []\<rparr>) (map profile_layer ps) \<and>
       m_Backend m = foldl mergeStringField [] (map pc_Backend ps) \<and>
       m_Workdir m = foldl or_else None (map pc_Workdir ps)"
  using merge_loop [where start = "mergedConfigFromBase base" and chain = chain and Y = Y and L = L]
  unfolding MergeProfileChain_def mergedConfigFromBase_layer mergedConfigFromBase_own .

text \<open>Since merging is associative, what a chain adds does not depend on the base.\<close>

lemma foldl_mergeConfigs: "foldl mergeConfigs b cs = mergeConfigs b (foldl mergeConfigs empty_config cs)"
proof (induction cs arbitrary: b)
  case Nil
  show ?case by (simp add: mergeConfigs_empty)
next
  case (Cons c cs)
  have "mergeConfigs b (mergeConfigs empty_config c) = mergeConfigs b c"
    by (simp add: mergeConfigs_assoc [symmetric] mergeConfigs_empty)
  then show ?case
    by (simp add: Cons.IH [of "mergeConfigs b c"] Cons.IH [of "mergeConfigs empty_config c"] mergeConfigs_assoc [symmetric])
qed

text \<open>A profile whose \<open>extends\<close> refers to a variable that is not set is taken to extend \<open>base\<close>.\<close>

lemma extends_unset_variable:
  assumes "expandEnvBraced (EnvForConfigInterpolation (layout_env L)) (Value v) = Inl e"
    and "profile_at L name = Some d" and "config_yaml d = Inr (Some data)" and "name \<noteq> ''base''"
    and "yunmarshal Y data = Some (YNode DocumentNode t x [root])" and "Kind root = MappingNode"
    and "find_key ''extends'' (Content root) = Some v"
  shows "ResolveProfileChain Y L name = Some (Inr [''base'', name])"
  using assms by (simp add: ResolveProfileChain_def resolve_loop.simps ProfileExists_def loadProfileLegacy_def
      read_extends_def extends_value_def)

end
