(* ===== verification/CreateDirs.thy ===== *)
theory CreateDirs
  imports DirSpec
begin

text \<open>
  The checks on the directories of a new sandbox: \<open>internal/workspace/safety.go\<close> and the validation half of
  \<open>internal/orchestrator/create/prepare_dirs.go\<close>. What the host answers (which paths exist, what symbolic
  links resolve to, what git says about a repository) is a record of functions; the outcome of the check
  of the agent's credentials is an argument.
\<close>

section \<open>Path safety\<close>

record host =
  stat_ok :: "string \<Rightarrow> bool"
  EvalSymlinks :: "string \<Rightarrow> string option"
  CheckDirtyRepo :: "string \<Rightarrow> (string, string) result"

definition dangerousDirs :: "string list" where
  "dangerousDirs = [''/'', ''/usr'', ''/etc'', ''/var'', ''/boot'', ''/bin'', ''/sbin'', ''/lib'', ''/System'', ''/Library'',
     ''/Applications'']"

definition resolved :: "host \<Rightarrow> string \<Rightarrow> string" where
  "resolved H p = (case EvalSymlinks H p of None \<Rightarrow> p | Some r \<Rightarrow> r)"

definition IsDangerousDir :: "host \<Rightarrow> string \<Rightarrow> string \<Rightarrow> bool" where
  "IsDangerousDir H absPath home =
     (absPath \<in> set dangerousDirs \<or> resolved H absPath \<in> set dangerousDirs \<or>
      home \<noteq> [] \<and> (resolved H absPath = home \<or> absPath = home))"

definition pathsOverlap :: "string \<Rightarrow> string \<Rightarrow> bool" where
  "pathsOverlap a b = (a = b \<or> HasPrefix b (a @ ''/'') \<or> HasPrefix a (b @ ''/''))"

fun overlap_with :: "string \<Rightarrow> string list \<Rightarrow> (string \<times> string) option" where
  "overlap_with a [] = None"
| "overlap_with a (b # bs) =
     (if pathsOverlap a b then Some (if length b < length a then (b, a) else (a, b)) else overlap_with a bs)"

fun first_overlap :: "string list \<Rightarrow> (string \<times> string) option" where
  "first_overlap [] = None"
| "first_overlap (a # as) = (case overlap_with a as of Some x \<Rightarrow> Some x | None \<Rightarrow> first_overlap as)"

definition CheckPathOverlap :: "host \<Rightarrow> string list \<Rightarrow> (string, unit) result" where
  "CheckPathOverlap H paths = (case first_overlap (map (resolved H) paths) of
       None \<Rightarrow> Inr ()
     | Some (shorter, longer) \<Rightarrow> Inl (''path overlap: '' @ shorter @ '' contains '' @ longer))"

section \<open>Validation\<close>

datatype create_error = UsageError string | Failure string | DirtyWorkdirError "(string \<times> string) list"

definition ResolvedMountPath :: "DirSpec \<Rightarrow> string" where
  "ResolvedMountPath d = (if SMountPath d \<noteq> [] then SMountPath d else SPath d)"

fun buildAuxDirs :: "host \<Rightarrow> DirSpec list \<Rightarrow> (create_error, DirSpec list) result" where
  "buildAuxDirs H [] = Inr []"
| "buildAuxDirs H (d # ds) =
     (if \<not> stat_ok H (SPath d) then Inl (UsageError (''directory does not exist: '' @ SPath d))
      else res_bind (buildAuxDirs H ds) (\<lambda>r. Inr (d # r)))"

definition default_mode :: "string \<Rightarrow> DirSpec \<Rightarrow> DirSpec" where
  "default_mode m d = (if SMode d = [] then d\<lparr>SMode := m\<rparr> else d)"

definition defaultDirModes :: "DirSpec \<Rightarrow> DirSpec list \<Rightarrow> DirSpec \<times> DirSpec list" where
  "defaultDirModes w auxs = (default_mode ''copy'' w, map (default_mode ''ro'') auxs)"

text \<open>The result is the list of directories that a warning was emitted for.\<close>

fun checkDirSafety :: "host \<Rightarrow> string \<Rightarrow> DirSpec list \<Rightarrow> (create_error, string list) result" where
  "checkDirSafety H home [] = Inr []"
| "checkDirSafety H home (d # ds) =
     (if IsDangerousDir H (SPath d) home then
        (if SAllowDangerousPath d then res_bind (checkDirSafety H home ds) (\<lambda>ws. Inr (SPath d # ws))
         else Inl (UsageError (''refusing to mount dangerous directory '' @ SPath d @ '' (use :force to override)'')))
      else checkDirSafety H home ds)"

fun duplicate_mounts :: "(string \<times> string) list \<Rightarrow> DirSpec list \<Rightarrow> (create_error, unit) result" where
  "duplicate_mounts seen [] = Inr ()"
| "duplicate_mounts seen (d # ds) = (case map_of seen (ResolvedMountPath d) of
       Some prev \<Rightarrow> Inl (UsageError (''duplicate container mount path '' @ ResolvedMountPath d @ '' (from '' @ prev @ '' and '' @ SPath d @ '')''))
     | None \<Rightarrow> duplicate_mounts ((ResolvedMountPath d, SPath d) # seen) ds)"

definition checkDirOverlaps :: "host \<Rightarrow> DirSpec \<Rightarrow> DirSpec list \<Rightarrow> (create_error, unit) result" where
  "checkDirOverlaps H w auxs = (case CheckPathOverlap H (SPath w # map SPath auxs) of
       Inl e \<Rightarrow> Inl (UsageError e)
     | Inr _ \<Rightarrow> duplicate_mounts [(ResolvedMountPath w, SPath w)] auxs)"

definition dirty_check :: "host \<Rightarrow> (string \<times> string) list \<Rightarrow> DirSpec \<Rightarrow> (create_error, (string \<times> string) list) result" where
  "dirty_check H dirty d =
     (if SAllowDirty d then Inr dirty
      else case CheckDirtyRepo H (SPath d) of
          Inl e \<Rightarrow> Inl (Failure (''check repo status: '' @ e))
        | Inr msg \<Rightarrow> Inr (if msg \<noteq> [] then dirty @ [(SPath d, msg)] else dirty))"

definition checked_dirs :: "DirSpec \<Rightarrow> DirSpec list \<Rightarrow> DirSpec list" where
  "checked_dirs w auxs = w # filter (\<lambda>d. SMode d = ''copy'' \<or> SMode d = ''rw'') auxs"

definition checkDirtyRepos :: "host \<Rightarrow> DirSpec \<Rightarrow> DirSpec list \<Rightarrow> (create_error, unit) result" where
  "checkDirtyRepos H w auxs =
     res_bind (res_foldl (dirty_check H) [] (checked_dirs w auxs)) (\<lambda>dirty.
       if dirty \<noteq> [] then Inl (DirtyWorkdirError dirty) else Inr ())"

definition parseAndValidateDirs ::
  "host \<Rightarrow> string \<Rightarrow> (create_error, unit) result \<Rightarrow> DirSpec \<Rightarrow> DirSpec list \<Rightarrow>
   (create_error, DirSpec \<times> DirSpec list \<times> string list) result" where
  "parseAndValidateDirs H home auth w auxSpecs =
     (if SPath w = [] then Inl (UsageError ''no workdir specified and no default workdir in profile'')
      else if \<not> stat_ok H (SPath w) then Inl (UsageError (''workdir does not exist: '' @ SPath w))
      else res_bind auth (\<lambda>_.
           res_bind (buildAuxDirs H auxSpecs) (\<lambda>auxs0.
           let (workdir, auxs) = defaultDirModes w auxs0 in
           res_bind (checkDirSafety H home (workdir # auxs)) (\<lambda>warned.
           res_bind (checkDirOverlaps H workdir auxs) (\<lambda>_.
           res_bind (checkDirtyRepos H workdir auxs) (\<lambda>_. Inr (workdir, auxs, warned)))))))"

definition collectCopyDirs :: "DirSpec \<Rightarrow> DirSpec list \<Rightarrow> string list" where
  "collectCopyDirs w auxs = map ResolvedMountPath (filter (\<lambda>d. SMode d = ''copy'') (w # auxs))"

section \<open>Overlap is containment of paths\<close>

text \<open>The components of a path, and when one path contains another.\<close>

definition comps :: "string \<Rightarrow> string list" where
  "comps p = filter (\<lambda>c. c \<noteq> []) (split_slash p)"

definition path_contains :: "string \<Rightarrow> string \<Rightarrow> bool" where
  "path_contains a b = prefix (comps a) (comps b)"

definition abs_path :: "string list \<Rightarrow> string" where
  "abs_path cs = concat (map (\<lambda>c. CHR ''/'' # c) cs)"

text \<open>A cleaned absolute path other than the root.\<close>

definition clean_abs :: "string \<Rightarrow> bool" where
  "clean_abs p = (comps p \<noteq> [] \<and> p = abs_path (comps p))"

definition plain_comp :: "string \<Rightarrow> bool" where
  "plain_comp c = (c \<noteq> [] \<and> CHR ''/'' \<notin> set c)"

lemma split_slash_parts: "\<forall>c \<in> set (split_slash p). CHR ''/'' \<notin> set c"
  by (induction p) (auto split: list.splits)

lemma comps_plain: "list_all plain_comp (comps p)"
  using split_slash_parts by (auto simp: comps_def plain_comp_def list_all_iff)

lemma prefix_part:
  assumes "CHR ''/'' \<notin> set c" and "CHR ''/'' \<notin> set d"
  shows "prefix (c @ CHR ''/'' # x) (d @ CHR ''/'' # y) \<longleftrightarrow> c = d \<and> prefix x y"
  using assms
proof (induction c arbitrary: d)
  case Nil
  then show ?case by (cases d) auto
next
  case (Cons a c)
  then show ?case by (cases d) auto
qed

lemma abs_path_snoc: "abs_path cs @ ''/'' = CHR ''/'' # concat (map (\<lambda>c. c @ ''/'') cs)"
  by (induction cs) (simp_all add: abs_path_def)

lemma prefix_abs_path:
  assumes "list_all plain_comp as" and "list_all plain_comp bs"
  shows "prefix (abs_path as @ ''/'') (abs_path bs @ ''/'') \<longleftrightarrow> prefix as bs"
proof -
  have "prefix (concat (map (\<lambda>c. c @ ''/'') as)) (concat (map (\<lambda>c. c @ ''/'') bs)) \<longleftrightarrow> prefix as bs"
    using assms
  proof (induction as arbitrary: bs)
    case (Cons a as)
    show ?case
    proof (cases bs)
      case Nil
      then show ?thesis by simp
    next
      case (Cons b bs')
      then show ?thesis using Cons.prems Cons.IH [of bs'] prefix_part [of a b] by (simp add: plain_comp_def)
    qed
  qed simp
  then show ?thesis by (simp add: abs_path_snoc)
qed

lemma HasPrefix_prefix: "HasPrefix s p \<longleftrightarrow> prefix p s"
  by (auto simp: HasPrefix_iff prefix_def)

lemma pathsOverlap_iff:
  assumes "clean_abs a" and "clean_abs b"
  shows "pathsOverlap a b \<longleftrightarrow> path_contains a b \<or> path_contains b a"
proof -
  have p: "prefix (a @ ''/'') (b @ ''/'') \<longleftrightarrow> path_contains a b" if "clean_abs a" "clean_abs b" for a b
    using prefix_abs_path [OF comps_plain [of a] comps_plain [of b]] that by (simp add: clean_abs_def path_contains_def)
  have "pathsOverlap a b \<longleftrightarrow> prefix (a @ ''/'') (b @ ''/'') \<or> prefix (b @ ''/'') (a @ ''/'')"
    by (auto simp: pathsOverlap_def HasPrefix_prefix prefix_snoc)
  then show ?thesis using p [OF assms] p [OF assms(2,1)] by blast
qed

lemma overlap_with_None: "overlap_with a bs = None \<longleftrightarrow> (\<forall>b \<in> set bs. \<not> pathsOverlap a b)"
  by (induction bs) auto

lemma first_overlap_None: "first_overlap ps = None \<longleftrightarrow> sorted_wrt (\<lambda>a b. \<not> pathsOverlap a b) ps"
  by (induction ps) (auto split: option.splits simp: overlap_with_None [symmetric])

lemma CheckPathOverlap_ok:
  assumes "\<forall>p \<in> set paths. clean_abs (resolved H p)"
  shows "is_ok (CheckPathOverlap H paths) \<longleftrightarrow>
    sorted_wrt (\<lambda>a b. \<not> path_contains a b \<and> \<not> path_contains b a) (map (resolved H) paths)"
proof -
  have "is_ok (CheckPathOverlap H paths) \<longleftrightarrow> first_overlap (map (resolved H) paths) = None"
    by (auto simp: CheckPathOverlap_def split: option.splits)
  also have "\<dots> \<longleftrightarrow> sorted_wrt (\<lambda>a b. \<not> path_contains a b \<and> \<not> path_contains b a) (map (resolved H) paths)"
    unfolding first_overlap_None using assms
    by (induction paths) (auto simp: pathsOverlap_iff)
  finally show ?thesis .
qed

text \<open>The root directory, which contains everything, is not found to overlap with anything below it.\<close>

lemma root_overlap_missed: "p \<noteq> [] \<Longrightarrow> hd p \<noteq> CHR ''/'' \<Longrightarrow> \<not> pathsOverlap ''/'' (CHR ''/'' # p)"
  by (cases p) (auto simp: pathsOverlap_def HasPrefix_iff)

section \<open>What a validated set of directories satisfies\<close>

lemma buildAuxDirs_eq:
  "buildAuxDirs H ds = (if list_all (\<lambda>d. stat_ok H (SPath d)) ds then Inr ds else buildAuxDirs H ds)"
  "is_ok (buildAuxDirs H ds) \<longleftrightarrow> list_all (\<lambda>d. stat_ok H (SPath d)) ds"
  by (induction ds) (auto simp: is_ok_iff)

lemma checkDirSafety_eq:
  "is_ok (checkDirSafety H home ds) \<longleftrightarrow> list_all (\<lambda>d. IsDangerousDir H (SPath d) home \<longrightarrow> SAllowDangerousPath d) ds"
  "checkDirSafety H home ds = Inr ws \<Longrightarrow> ws = map SPath (filter (\<lambda>d. IsDangerousDir H (SPath d) home) ds)"
  by (induction ds arbitrary: ws) (auto simp: is_ok_iff split: if_splits)

lemma duplicate_mounts_ok:
  "is_ok (duplicate_mounts seen ds) \<longleftrightarrow>
     distinct (map ResolvedMountPath ds) \<and> fst ` set seen \<inter> ResolvedMountPath ` set ds = {}"
proof (induction ds arbitrary: seen)
  case (Cons d ds)
  show ?case
  proof (cases "map_of seen (ResolvedMountPath d)")
    case None
    then have "ResolvedMountPath d \<notin> fst ` set seen" by (simp add: map_of_eq_None_iff)
    then show ?thesis using None Cons.IH [of "(ResolvedMountPath d, SPath d) # seen"] by auto
  next
    case (Some prev)
    then have "ResolvedMountPath d \<in> fst ` set seen" by (metis map_of_eq_None_iff option.distinct(1))
    then show ?thesis using Some by auto
  qed
qed simp

definition acceptably_clean :: "host \<Rightarrow> DirSpec \<Rightarrow> bool" where
  "acceptably_clean H d = (SAllowDirty d \<or> CheckDirtyRepo H (SPath d) = Inr [])"

lemma dirty_fold:
  "res_foldl (dirty_check H) acc ds = Inr [] \<longleftrightarrow> acc = [] \<and> list_all (acceptably_clean H) ds"
proof (induction ds arbitrary: acc)
  case (Cons d ds)
  have "dirty_check H acc d = Inr [] \<longleftrightarrow> acc = [] \<and> acceptably_clean H d"
    by (auto simp: dirty_check_def acceptably_clean_def split: sum.splits)
  then show ?case by (auto simp: Cons.IH)
qed simp

lemma checkDirtyRepos_ok: "is_ok (checkDirtyRepos H w auxs) \<longleftrightarrow> list_all (acceptably_clean H) (checked_dirs w auxs)"
proof -
  have "is_ok (checkDirtyRepos H w auxs) \<longleftrightarrow> res_foldl (dirty_check H) [] (checked_dirs w auxs) = Inr []"
    by (cases "res_foldl (dirty_check H) [] (checked_dirs w auxs)") (auto simp: checkDirtyRepos_def)
  then show ?thesis by (simp add: dirty_fold)
qed

text \<open>The conditions under which a set of directories may be used, over the directories with their default
  modes filled in.\<close>

definition usable_dirs :: "host \<Rightarrow> string \<Rightarrow> DirSpec \<Rightarrow> DirSpec list \<Rightarrow> bool" where
  "usable_dirs H home w auxs =
     (SPath w \<noteq> [] \<and> list_all (\<lambda>d. stat_ok H (SPath d)) (w # auxs) \<and>
      list_all (\<lambda>d. IsDangerousDir H (SPath d) home \<longrightarrow> SAllowDangerousPath d) (w # auxs) \<and>
      sorted_wrt (\<lambda>a b. \<not> path_contains a b \<and> \<not> path_contains b a) (map (\<lambda>d. resolved H (SPath d)) (w # auxs)) \<and>
      distinct (map ResolvedMountPath (w # auxs)) \<and>
      acceptably_clean H w \<and> (\<forall>d \<in> set auxs. SMode d = ''copy'' \<or> SMode d = ''rw'' \<longrightarrow> acceptably_clean H d))"

lemma default_mode_simps [simp]:
  "SPath (default_mode m d) = SPath d" "SMountPath (default_mode m d) = SMountPath d"
  "SAllowDangerousPath (default_mode m d) = SAllowDangerousPath d" "SAllowDirty (default_mode m d) = SAllowDirty d"
  "ResolvedMountPath (default_mode m d) = ResolvedMountPath d"
  by (simp_all add: default_mode_def ResolvedMountPath_def)

lemma checkDirOverlaps_ok:
  assumes "\<forall>d \<in> set (w # auxs). clean_abs (resolved H (SPath d))"
  shows "is_ok (checkDirOverlaps H w auxs) \<longleftrightarrow>
    sorted_wrt (\<lambda>a b. \<not> path_contains a b \<and> \<not> path_contains b a) (map (\<lambda>d. resolved H (SPath d)) (w # auxs)) \<and>
    distinct (map ResolvedMountPath (w # auxs))"
proof -
  have "is_ok (CheckPathOverlap H (SPath w # map SPath auxs)) \<longleftrightarrow>
      sorted_wrt (\<lambda>a b. \<not> path_contains a b \<and> \<not> path_contains b a) (map (\<lambda>d. resolved H (SPath d)) (w # auxs))"
    using CheckPathOverlap_ok [of "SPath w # map SPath auxs" H] assms by (simp add: comp_def)
  moreover have "is_ok (checkDirOverlaps H w auxs) \<longleftrightarrow> is_ok (CheckPathOverlap H (SPath w # map SPath auxs)) \<and>
      is_ok (duplicate_mounts [(ResolvedMountPath w, SPath w)] auxs)"
    by (auto simp: checkDirOverlaps_def split: sum.split)
  ultimately show ?thesis by (auto simp: duplicate_mounts_ok)
qed

text \<open>C30: What the validation of the directories of a new sandbox accepts. Provided the resolved paths are
  cleaned absolute paths other than the root, it succeeds exactly when the credentials check does, every
  directory exists, every dangerous one was forced, no directory contains another, no two have the same
  mount path, and the workdir and every auxiliary directory in mode copy or rw is a clean repository or was
  declared fine dirty; read-only auxiliary directories are not looked at for changes. It then returns the directories in order with only missing modes filled in, copy for the workdir
  and read-only for the others, and has warned about exactly the dangerous ones.\<close>

theorem parseAndValidateDirs_exact:
  fixes w :: DirSpec and auxs :: "DirSpec list"
  defines "w' \<equiv> default_mode ''copy'' w" and "auxs' \<equiv> map (default_mode ''ro'') auxs"
  assumes "\<forall>d \<in> set (w # auxs). clean_abs (resolved H (SPath d))"
  shows "if is_ok auth \<and> usable_dirs H home w' auxs'
    then parseAndValidateDirs H home auth w auxs =
      Inr (w', auxs', map SPath (filter (\<lambda>d. IsDangerousDir H (SPath d) home) (w' # auxs')))
    else \<not> is_ok (parseAndValidateDirs H home auth w auxs)"
proof -
  have clean: "\<forall>d \<in> set (w' # auxs'). clean_abs (resolved H (SPath d))"
    using assms(3) by (auto simp: w'_def auxs'_def)
  let ?built = "list_all (\<lambda>d. stat_ok H (SPath d)) auxs"
  have stat: "list_all (\<lambda>d. stat_ok H (SPath d)) auxs' = ?built" "SPath w' = SPath w"
    by (simp_all add: auxs'_def w'_def list_all_iff)
  have run: "parseAndValidateDirs H home auth w auxs =
      res_bind (checkDirSafety H home (w' # auxs')) (\<lambda>warned.
      res_bind (checkDirOverlaps H w' auxs') (\<lambda>_.
      res_bind (checkDirtyRepos H w' auxs') (\<lambda>_. Inr (w', auxs', warned))))"
    if "SPath w \<noteq> []" "stat_ok H (SPath w)" "is_ok auth" ?built
    using that buildAuxDirs_eq(1) [of H auxs]
    by (auto simp: parseAndValidateDirs_def defaultDirModes_def w'_def auxs'_def is_ok_iff simp del: buildAuxDirs.simps)
  have refuse: "\<not> is_ok (parseAndValidateDirs H home auth w auxs)"
    if "\<not> (SPath w \<noteq> [] \<and> stat_ok H (SPath w) \<and> is_ok auth \<and> ?built)"
    using that buildAuxDirs_eq(2) [of H auxs]
    by (cases auth; cases "buildAuxDirs H auxs") (auto simp: parseAndValidateDirs_def)
  show ?thesis
  proof (cases "SPath w \<noteq> [] \<and> stat_ok H (SPath w) \<and> is_ok auth \<and> ?built")
    case True
    note ok = checkDirSafety_eq(1) [of H home "w' # auxs'"] checkDirOverlaps_ok [OF clean] checkDirtyRepos_ok [of H w' auxs']
    have u: "usable_dirs H home w' auxs' \<longleftrightarrow> is_ok (checkDirSafety H home (w' # auxs')) \<and>
        is_ok (checkDirOverlaps H w' auxs') \<and> is_ok (checkDirtyRepos H w' auxs')"
      unfolding usable_dirs_def ok checked_dirs_def using True stat by (auto simp: list_all_iff)
    show ?thesis
      using run True u checkDirSafety_eq(2) [of H home "w' # auxs'"]
      by (cases "checkDirSafety H home (w' # auxs')"; cases "checkDirOverlaps H w' auxs'"; cases "checkDirtyRepos H w' auxs'")
        (simp_all add: is_ok_iff)
  next
    case False
    then have n: "\<not> (is_ok auth \<and> usable_dirs H home w' auxs')" using stat by (auto simp: usable_dirs_def)
    show ?thesis unfolding if_not_P [OF n] by (rule refuse [OF False])
  qed
qed

definition demo_host :: host where
  "demo_host = \<lparr>stat_ok = (\<lambda>_. True), EvalSymlinks = (\<lambda>p. Some p), CheckDirtyRepo = (\<lambda>_. Inr [])\<rparr>"

theorem parseAndValidateDirs_exact_witness:
  "parseAndValidateDirs demo_host ''/home/u'' (Inr ()) (empty_spec\<lparr>SPath := ''/src/a''\<rparr>) [empty_spec\<lparr>SPath := ''/src/b''\<rparr>] =
     Inr (empty_spec\<lparr>SPath := ''/src/a'', SMode := ''copy''\<rparr>, [empty_spec\<lparr>SPath := ''/src/b'', SMode := ''ro''\<rparr>], [])"
proof -
  have "clean_abs ''/src/a''" "clean_abs ''/src/b''"
    by (simp_all add: clean_abs_def comps_def abs_path_def)
  then have "\<forall>d \<in> set [empty_spec\<lparr>SPath := ''/src/a''\<rparr>, empty_spec\<lparr>SPath := ''/src/b''\<rparr>]. clean_abs (resolved demo_host (SPath d))"
    by (simp add: resolved_def demo_host_def)
  from parseAndValidateDirs_exact [OF this, of "Inr ()" "''/home/u''"]
  show ?thesis
    by (simp add: usable_dirs_def demo_host_def IsDangerousDir_def resolved_def dangerousDirs_def path_contains_def comps_def
        ResolvedMountPath_def acceptably_clean_def default_mode_def empty_spec_def)
qed

end
