(* ===== verification/PrincipalRename.thy ===== *)
theory PrincipalRename
  imports Status MigratePlan Schema Names
begin

text \<open>
  The migration from schema version 4 to 5, \<open>internal/orchestrator/migrate_principal.go\<close>: every sandbox of
  the empty principal is moved to the principal of the command line, its instance is renamed or, where a
  backend cannot rename, removed for later re-creation, and its record is stamped with the principal.

  The state holds the entries of the sandboxes directory with the records they load to, the instances of
  every backend and the schema stamp. A call that changes the state is one atomic effect: saving a record
  and stamping go through the atomic write of \<open>FaultIO\<close>, and a backend call either happens or does not. A
  run has a number of effects after which the process dies, so every interruption is a run with fewer
  effects. The backends are parameters with the contracts their interfaces document.
\<close>

section \<open>State and effects\<close>

record inst =
  running :: bool
  suspended :: bool
  layer :: string

type_synonym insts = "string \<rightharpoonup> inst"

datatype dir_entry = NotADir | NoRecord | Loads "(string, Environment) result"

record pstate =
  dir_entries :: "(string \<times> dir_entry) list"
  instances :: "string \<Rightarrow> insts"
  stamp :: int

datatype 'a out = Done 'a | Fails string | Dies

type_synonym 'a act = "pstate \<times> nat \<Rightarrow> 'a out \<times> pstate \<times> nat"

definition act_ret :: "'a \<Rightarrow> 'a act" where "act_ret a sn = (Done a, sn)"

definition act_fail :: "string \<Rightarrow> 'a act" where "act_fail e sn = (Fails e, sn)"

definition act_get :: "(pstate \<Rightarrow> 'a) \<Rightarrow> 'a act" where "act_get f sn = (Done (f (fst sn)), sn)"

definition act_bind :: "'a act \<Rightarrow> ('a \<Rightarrow> 'b act) \<Rightarrow> 'b act" where
  "act_bind m f sn = (case m sn of (Done a, sn') \<Rightarrow> f a sn' | (Fails e, sn') \<Rightarrow> (Fails e, sn') | (Dies, sn') \<Rightarrow> (Dies, sn'))"

definition act_lift :: "(string, 'a) result \<Rightarrow> 'a act" where
  "act_lift r = (case r of Inl e \<Rightarrow> act_fail e | Inr a \<Rightarrow> act_ret a)"

definition act_effect :: "(pstate \<Rightarrow> pstate) \<Rightarrow> unit act" where
  "act_effect f sn = (case sn of (s, n) \<Rightarrow> if n = 0 then (Dies, s, 0) else (Done (), f s, n - 1))"

section \<open>Backends\<close>

datatype renamed = Renamed insts | RenameNotFound | RenameFails string

record rt =
  HostKeepAlive :: bool
  Renamer :: bool
  rt_Rename :: "string \<Rightarrow> string \<Rightarrow> insts \<Rightarrow> renamed"
  rt_Remove :: "string \<Rightarrow> insts \<Rightarrow> (string, insts) result"
  rt_Inspect :: "string \<Rightarrow> insts \<Rightarrow> inspect"

record rename_env =
  runtimeFor :: "string \<Rightarrow> (string, rt) result"
  status_dec :: "string \<Rightarrow> statusJSON option"
  status_now :: int
  status_file :: "string \<Rightarrow> string option"
  target :: string

definition backendHasInstance :: "rt \<Rightarrow> bool" where "backendHasInstance b = (\<not> HostKeepAlive b)"

definition isRenamer :: "rt \<Rightarrow> bool" where "isRenamer b = Renamer b"

definition isInstanceUp :: "Status \<Rightarrow> bool" where
  "isInstanceUp st = (st \<in> {StatusActive, StatusIdle, StatusDone, StatusFailed, StatusSuspended})"

definition isUnauditable :: "Status \<Rightarrow> bool" where
  "isUnauditable st = (st = StatusBroken \<or> st = StatusUnavailable)"

section \<open>Reading the realm\<close>

fun unmigrated :: "(string \<times> dir_entry) list \<Rightarrow> (string, string list) result" where
  "unmigrated [] = Inr []"
| "unmigrated ((n, e) # es) = (case e of
       NotADir \<Rightarrow> unmigrated es
     | NoRecord \<Rightarrow> unmigrated es
     | Loads (Inl err) \<Rightarrow> Inl (''sandbox '' @ n @ '': '' @ err)
     | Loads (Inr env) \<Rightarrow> res_bind (unmigrated es) (\<lambda>ns. Inr (if Principal env = [] then n # ns else ns)))"

definition unmigratedSandboxNames :: "pstate \<Rightarrow> (string, string list) result" where
  "unmigratedSandboxNames s = unmigrated (dir_entries s)"

definition load_flat :: "pstate \<Rightarrow> string \<Rightarrow> (string, Environment) result" where
  "load_flat s name = (case map_of (dir_entries s) name of Some (Loads r) \<Rightarrow> r | _ \<Rightarrow> Inl ''read environment.json'')"

definition backendType :: "pstate \<Rightarrow> string \<Rightarrow> string" where
  "backendType s name = (case load_flat s name of Inl _ \<Rightarrow> [] | Inr env \<Rightarrow> BackendType env)"

definition backendFor :: "rename_env \<Rightarrow> pstate \<Rightarrow> string \<Rightarrow> (string, rt) result" where
  "backendFor E s name = (let bt = backendType s name in
     if bt = [] then Inl (''load backend for '' @ name)
     else case runtimeFor E bt of Inl e \<Rightarrow> Inl (''connect to '' @ bt @ '' runtime: '' @ e) | Inr b \<Rightarrow> Inr b)"

definition pr_detectStatus :: "rename_env \<Rightarrow> rt \<Rightarrow> pstate \<Rightarrow> string \<Rightarrow> (string, Status) result" where
  "pr_detectStatus E b s name =
     DetectStatus (status_dec E) (status_now E) (rt_Inspect b (LegacyCLIInstanceName name) (instances s (backendType s name)))
       (status_file E name)"

section \<open>Planning\<close>

definition classifyPrincipalRename :: "string \<Rightarrow> string \<Rightarrow> Status \<Rightarrow> bool \<Rightarrow> bool \<Rightarrow> Op" where
  "classifyPrincipalRename name bt st hasInstance renameCapable = (let op = (\<lambda>desc a.
       \<lparr>Description = desc, Auth = a, Sandbox = name, NeedsOlderRelease = False\<rparr>) in
     if \<not> hasInstance then op (''adopt the cli principal for sandbox '' @ name) AuthNone
     else if renameCapable then
       (if isUnauditable st then op (''cannot audit sandbox '' @ name @ '' to rename it'') AuthBlocked
        else op (''rename the instance of sandbox '' @ name) AuthNone)
     else if isUnauditable st then op (''cannot audit sandbox '' @ name) AuthBlocked
     else if isInstanceUp st then op (''stop sandbox '' @ name @ '', then re-run migrate'') AuthBlocked
     else op (''recreate sandbox '' @ name @ '' under its new name'') AuthConfirm)"

definition plan_one :: "rename_env \<Rightarrow> pstate \<Rightarrow> string \<Rightarrow> (string, Op) result" where
  "plan_one E s name =
     res_bind (backendFor E s name) (\<lambda>b.
     res_bind (pr_detectStatus E b s name) (\<lambda>st.
       Inr (classifyPrincipalRename name (backendType s name) st (backendHasInstance b) (isRenamer b))))"

definition PrincipalPlan :: "rename_env \<Rightarrow> pstate \<Rightarrow> (string, Plan) result" where
  "PrincipalPlan E s =
     res_bind (unmigratedSandboxNames s) (\<lambda>names.
     res_bind (res_foldl (\<lambda>ops name. res_bind (plan_one E s name) (\<lambda>op. Inr (ops @ [op]))) [] names) (\<lambda>ops.
       Inr \<lparr>MigratorName = [], Ops = ops\<rparr>))"

text \<open>Detection never reports a state that cannot be audited: when the backend cannot inspect the instance it
  fails, and planning fails with it, so the operations that block on such a state are never planned.\<close>

lemma detected_is_auditable: "pr_detectStatus E b s name = Inr st \<Longrightarrow> \<not> isUnauditable st"
  by (auto simp: pr_detectStatus_def DetectStatus_def detectStatusWithExit_def parseStatusJSON_def isUnauditable_def Let_def
      split: inspect.splits option.splits if_splits)

section \<open>Applying\<close>

definition set_instances :: "string \<Rightarrow> insts \<Rightarrow> pstate \<Rightarrow> pstate" where
  "set_instances bt m s = s\<lparr>instances := (instances s)(bt := m)\<rparr>"

definition applyBackendOp ::
  "rename_env \<Rightarrow> rt \<Rightarrow> string \<Rightarrow> string \<Rightarrow> string \<Rightarrow> string \<Rightarrow> Status \<Rightarrow> Decision \<Rightarrow> unit act" where
  "applyBackendOp E b bt name oldName newName st d =
     (if isRenamer b then
        (if isUnauditable st then act_fail (''sandbox '' @ name @ '' cannot be audited to rename its instance'')
         else act_bind (act_get (\<lambda>s. rt_Rename b oldName newName (instances s bt))) (\<lambda>r. case r of
             Renamed m \<Rightarrow> act_effect (set_instances bt m)
           | RenameNotFound \<Rightarrow> act_ret ()
           | RenameFails e \<Rightarrow> act_fail (''rename sandbox '' @ name @ '' instance: '' @ e)))
      else if isUnauditable st then act_fail (''sandbox '' @ name @ '' cannot be audited'')
      else if isInstanceUp st then act_fail (''sandbox '' @ name @ '' is running and its backend cannot rename a running instance'')
      else if \<not> Yes d then act_fail (''sandbox '' @ name @ '' must be recreated under its new name and that was not authorized'')
      else act_bind (act_get (\<lambda>s. rt_Remove b oldName (instances s bt))) (\<lambda>r. case r of
             Inl e \<Rightarrow> act_fail (''remove old instance for sandbox '' @ name @ '': '' @ e)
           | Inr m \<Rightarrow> act_effect (set_instances bt m)))"

definition restampedImageRef :: "rename_env \<Rightarrow> string \<Rightarrow> (name_error, string) result" where
  "restampedImageRef E ref =
     (if ref = [] \<or> ref = ''yoloai-base'' then Inr ref
      else if HasPrefix ref ''yoloai-''
        then res_bind (InstancePrefix (target E)) (\<lambda>pre. Inr (pre @ drop (length ''yoloai-'') ref))
      else Inr ref)"

definition restamped :: "rename_env \<Rightarrow> Environment \<Rightarrow> Environment" where
  "restamped E env = env\<lparr>Principal := target E,
     ImageRef := (case restampedImageRef E (ImageRef env) of Inr r \<Rightarrow> r | Inl _ \<Rightarrow> ImageRef env), Version := metaVersion\<rparr>"

definition set_record :: "string \<Rightarrow> Environment \<Rightarrow> pstate \<Rightarrow> pstate" where
  "set_record name env s =
     s\<lparr>dir_entries := map (\<lambda>(n, e). (n, if n = name then Loads (Inr env) else e)) (dir_entries s)\<rparr>"

definition restampPrincipal :: "rename_env \<Rightarrow> string \<Rightarrow> unit act" where
  "restampPrincipal E name =
     act_bind (act_get (\<lambda>s. load_flat s name)) (\<lambda>r. case r of
         Inl e \<Rightarrow> act_fail (''load environment for '' @ name @ '': '' @ e)
       | Inr env \<Rightarrow> act_effect (set_record name (restamped E env)))"

definition migrateOne :: "rename_env \<Rightarrow> string \<Rightarrow> Decision \<Rightarrow> Report act" where
  "migrateOne E name d =
     act_bind (act_get (\<lambda>s. (backendFor E s name, backendType s name))) (\<lambda>(r, bt).
     act_bind (act_lift r) (\<lambda>b.
     act_bind (case InstanceName (target E) name of Inl _ \<Rightarrow> act_fail ''panic: no principal'' | Inr n \<Rightarrow> act_ret n) (\<lambda>newName.
     act_bind
       (if backendHasInstance b then
          act_bind (act_get (\<lambda>s. pr_detectStatus E b s name)) (\<lambda>q.
          act_bind (act_lift q) (\<lambda>st.
            applyBackendOp E b bt name (LegacyCLIInstanceName name) newName st d))
        else act_ret ()) (\<lambda>_.
     act_bind (restampPrincipal E name) (\<lambda>_.
       act_ret \<lparr>Migrated = [name], Quarantined = [], Notes = []\<rparr>)))))"

definition pr_stampSchemaAdvancing :: "int \<Rightarrow> unit act" where
  "pr_stampSchemaAdvancing v =
     act_bind (act_get stamp) (\<lambda>current. if current \<ge> v then act_ret () else act_effect (\<lambda>s. s\<lparr>stamp := v\<rparr>))"

fun migrate_all :: "rename_env \<Rightarrow> Decision \<Rightarrow> Report \<Rightarrow> string list \<Rightarrow> Report act" where
  "migrate_all E d report [] = act_ret report"
| "migrate_all E d report (name # names) =
     act_bind (migrateOne E name d) (\<lambda>rep. migrate_all E d (Merge report rep) names)"

definition PrincipalApply :: "rename_env \<Rightarrow> Decision \<Rightarrow> Report act" where
  "PrincipalApply E d =
     act_bind (act_get unmigratedSandboxNames) (\<lambda>r.
     act_bind (act_lift r) (\<lambda>names.
     act_bind (migrate_all E d no_report names) (\<lambda>report.
     act_bind (pr_stampSchemaAdvancing SchemaPrincipalRenamed) (\<lambda>_. act_ret report))))"

text \<open>Runs one after the other, each dying after so many effects.\<close>

fun reruns :: "rename_env \<Rightarrow> (nat \<times> Decision) list \<Rightarrow> pstate \<Rightarrow> pstate" where
  "reruns E [] s = s"
| "reruns E ((n, d) # rs) s = reruns E rs (fst (snd (PrincipalApply E d (s, n))))"

section \<open>What the backends promise\<close>

text \<open>A rename that succeeds moves the instance unchanged and reports a missing one only when there is
  none; a removal that succeeds removes that instance; an inspection that succeeds tells whether the
  instance exists, runs and is suspended.\<close>

definition good_rt :: "rt \<Rightarrow> bool" where
  "good_rt b = (
     (\<forall>oldN newN m m'. rt_Rename b oldN newN m = Renamed m' \<longrightarrow> m oldN \<noteq> None \<and> m' = m(oldN := None, newN := m oldN)) \<and>
     (\<forall>oldN newN m. rt_Rename b oldN newN m = RenameNotFound \<longrightarrow> m oldN = None) \<and>
     (\<forall>name m m'. rt_Remove b name m = Inr m' \<longrightarrow> m' = m(name := None)) \<and>
     (\<forall>name m. (\<forall>e. rt_Inspect b name m \<noteq> InspectError e) \<longrightarrow>
        rt_Inspect b name m = (case m name of None \<Rightarrow> NotFound | Some i \<Rightarrow> Inspected (running i) (suspended i))))"

definition newName :: "rename_env \<Rightarrow> string \<Rightarrow> string" where
  "newName E name = ''yoloai-'' @ target E @ ''-'' @ name"

definition rename_ready :: "rename_env \<Rightarrow> pstate \<Rightarrow> string list \<Rightarrow> bool" where
  "rename_ready E s names = (target E \<noteq> [] \<and> unmigratedSandboxNames s = Inr names \<and> distinct (map fst (dir_entries s)) \<and>
     (\<forall>bt b. runtimeFor E bt = Inr b \<longrightarrow> good_rt b) \<and>
     (\<forall>n \<in> set names. instances s (backendType s n) (newName E n) = None) \<and>
     (\<forall>n \<in> set names. \<forall>m \<in> set names. m \<noteq> target E @ ''-'' @ n))"

section \<open>What is kept\<close>

definition up :: "inst option \<Rightarrow> bool" where
  "up i = (case i of None \<Rightarrow> False | Some x \<Rightarrow> running x \<or> suspended x)"

text \<open>Where the instance of a sandbox is, while its record is not stamped yet and once it is.\<close>

definition instance_safe :: "rename_env \<Rightarrow> pstate \<Rightarrow> pstate \<Rightarrow> string \<Rightarrow> bool \<Rightarrow> bool" where
  "instance_safe E s0 s n stamped = (let bt = backendType s0 n; was = instances s0 bt (LegacyCLIInstanceName n);
       is = instances s bt (LegacyCLIInstanceName n); new = instances s bt (newName E n) in
     case runtimeFor E bt of
       Inl _ \<Rightarrow> is = was \<and> new = None
     | Inr b \<Rightarrow>
        if HostKeepAlive b then is = was \<and> new = None
        else if Renamer b then is = None \<and> new = was \<or> \<not> stamped \<and> is = was \<and> new = None
        else new = None \<and> (is = None \<and> \<not> up was \<or> \<not> stamped \<and> is = was))"

fun stamped_entry :: "rename_env \<Rightarrow> dir_entry \<Rightarrow> dir_entry" where
  "stamped_entry E (Loads (Inr env)) = Loads (Inr (restamped E env))"
| "stamped_entry E e = e"

definition entries_with :: "rename_env \<Rightarrow> string set \<Rightarrow> (string \<times> dir_entry) list \<Rightarrow> (string \<times> dir_entry) list" where
  "entries_with E S es = map (\<lambda>(n, e). (n, if n \<in> S then stamped_entry E e else e)) es"

definition rename_inv :: "rename_env \<Rightarrow> pstate \<Rightarrow> string list \<Rightarrow> string set \<Rightarrow> pstate \<Rightarrow> bool" where
  "rename_inv E s0 names S s = (S \<subseteq> set names \<and> dir_entries s = entries_with E S (dir_entries s0) \<and>
     (\<forall>n \<in> set names. instance_safe E s0 s n (n \<in> S)))"

lemma restamped_simps [simp]:
  "BackendType (restamped E env) = BackendType env" "Principal (restamped E env) = target E"
  by (simp_all add: restamped_def)

lemma map_of_entries_with:
  "map_of (entries_with E S es) n = map_option (\<lambda>e. if n \<in> S then stamped_entry E e else e) (map_of es n)"
  by (induction es) (auto simp: entries_with_def)

lemma load_flat_with:
  assumes "dir_entries s = entries_with E S (dir_entries s0)"
  shows "load_flat s n = (if n \<in> S then map_sum id (restamped E) (load_flat s0 n) else load_flat s0 n)"
proof (cases "map_of (dir_entries s0) n")
  case (Some e)
  then show ?thesis unfolding load_flat_def assms map_of_entries_with
    by (cases "(E, e)" rule: stamped_entry.cases) simp_all
qed (simp add: load_flat_def assms map_of_entries_with)

lemma backendType_with:
  assumes "dir_entries s = entries_with E S (dir_entries s0)"
  shows "backendType s n = backendType s0 n"
  unfolding backendType_def load_flat_with [OF assms] by (auto split: sum.split)

lemma unmigrated_loads:
  "unmigrated es = Inr names \<Longrightarrow> distinct (map fst es) \<Longrightarrow> n \<in> set names \<Longrightarrow>
   \<exists>env. map_of es n = Some (Loads (Inr env)) \<and> Principal env = []"
proof (induction es arbitrary: names rule: unmigrated.induct)
  case (2 m e es)
  have sub: "set ns \<subseteq> fst ` set es" if "unmigrated es = Inr ns" for es ns
    using that by (induction es arbitrary: ns rule: unmigrated.induct)
      (auto split: dir_entry.splits sum.splits if_splits, fastforce+)
  show ?case
  proof (cases e)
    case (Loads r)
    then obtain env ns where e: "r = Inr env" "unmigrated es = Inr ns" "names = (if Principal env = [] then m # ns else ns)"
      using 2 by (cases r) auto
    have "m \<notin> set ns" using sub [OF e(2)] 2(5) by auto
    then show ?thesis using 2 Loads e by (cases "n = m") (auto split: if_splits)
  qed (use 2 sub in \<open>fastforce+\<close>)
qed simp

lemma unmigrated_with:
  "target E \<noteq> [] \<Longrightarrow> unmigrated es = Inr names \<Longrightarrow> unmigrated (entries_with E S es) = Inr (filter (\<lambda>n. n \<notin> S) names)"
  by (induction es arbitrary: names rule: unmigrated.induct)
    (auto simp: entries_with_def split: dir_entry.splits sum.splits if_splits)

section \<open>One sandbox\<close>

lemma names_differ:
  assumes "rename_ready E s0 names" and "n \<in> set names" and "m \<in> set names"
  shows "LegacyCLIInstanceName m \<noteq> newName E n" "n \<noteq> m \<Longrightarrow> LegacyCLIInstanceName m \<noteq> LegacyCLIInstanceName n"
    "n \<noteq> m \<Longrightarrow> newName E m \<noteq> newName E n"
  using assms by (auto simp: rename_ready_def LegacyCLIInstanceName_def newName_def)

lemma instance_safe_cong:
  assumes "instances s' (backendType s0 n) (LegacyCLIInstanceName n) = instances s (backendType s0 n) (LegacyCLIInstanceName n)"
    and "instances s' (backendType s0 n) (newName E n) = instances s (backendType s0 n) (newName E n)"
  shows "instance_safe E s0 s' n st = instance_safe E s0 s n st"
  unfolding instance_safe_def Let_def assms ..

text \<open>Changing the instances of one sandbox leaves those of the others alone.\<close>

lemma rename_inv_instances:
  assumes r: "rename_ready E s0 names" and inv: "rename_inv E s0 names S s" and n: "n \<in> set names"
    and m: "\<And>x. x \<noteq> LegacyCLIInstanceName n \<Longrightarrow> x \<noteq> newName E n \<Longrightarrow> m x = instances s (backendType s0 n) x"
    and safe: "instance_safe E s0 (set_instances (backendType s0 n) m s) n (n \<in> S)"
  shows "rename_inv E s0 names S (set_instances (backendType s0 n) m s)"
proof -
  have "instance_safe E s0 (set_instances (backendType s0 n) m s) k (k \<in> S)" if k: "k \<in> set names" for k
  proof (cases "k = n")
    case False
    have "instances (set_instances (backendType s0 n) m s) (backendType s0 k) x = instances s (backendType s0 k) x"
      if "x = LegacyCLIInstanceName k \<or> x = newName E k" for x
      using that m [of x] names_differ [OF r n k] names_differ [OF r k n] False by (auto simp: set_instances_def)
    then show ?thesis using inv k instance_safe_cong [where s' = "set_instances (backendType s0 n) m s" and s = s and n = k] by (simp add: rename_inv_def)
  qed (use safe in simp)
  then show ?thesis using inv by (simp add: rename_inv_def set_instances_def)
qed

lemma not_up_status:
  assumes "good_rt b" and "DetectStatus dec now (rt_Inspect b x m) f = Inr st"
  shows "\<not> isUnauditable st" "\<not> isInstanceUp st \<Longrightarrow> \<not> up (m x)"
proof -
  have i: "rt_Inspect b x m = (case m x of None \<Rightarrow> NotFound | Some i \<Rightarrow> Inspected (running i) (suspended i))"
    using assms by (cases "rt_Inspect b x m") (auto simp: good_rt_def DetectStatus_def detectStatusWithExit_def)
  show "\<not> isUnauditable st" "\<not> isInstanceUp st \<Longrightarrow> \<not> up (m x)"
    using assms(2) unfolding i
    by (auto simp: DetectStatus_def detectStatusWithExit_def parseStatusJSON_def isUnauditable_def isInstanceUp_def up_def Let_def
        split: option.splits if_splits)
qed

lemmas act_defs = act_bind_def act_get_def act_ret_def act_fail_def act_lift_def act_effect_def

lemma applyBackendOp_inv:
  assumes r: "rename_ready E s0 names" and inv: "rename_inv E s0 names S s" and n: "n \<in> set names" "n \<notin> S"
    and b: "runtimeFor E (backendType s0 n) = Inr b" "backendHasInstance b"
    and st: "pr_detectStatus E b s n = Inr st"
    and run: "applyBackendOp E b (backendType s0 n) n (LegacyCLIInstanceName n) (newName E n) st d (s, k) = (res, s', k')"
  shows "rename_inv E s0 names S s' \<and> stamp s' = stamp s \<and> (res = Done () \<longrightarrow> instance_safe E s0 s' n True)"
proof -
  let ?bt = "backendType s0 n"
  let ?i = "instances s ?bt" and ?o = "LegacyCLIInstanceName n" and ?w = "newName E n"
  have good: "good_rt b" using r b(1) by (auto simp: rename_ready_def)
  have bt: "backendType s n = ?bt" using inv backendType_with by (auto simp: rename_inv_def)
  have ow: "?o \<noteq> ?w" by (rule names_differ(1) [OF r n(1) n(1)])
  note st' = not_up_status [OF good st [unfolded pr_detectStatus_def bt]]
  have before: "instance_safe E s0 s n False" using inv n by (auto simp: rename_inv_def)
  have keep: ?thesis if "s' = s" "res \<noteq> Done ()" using that inv by simp
  have move: ?thesis if "s' = set_instances ?bt m s" "\<And>x. x \<noteq> ?o \<Longrightarrow> x \<noteq> ?w \<Longrightarrow> m x = ?i x"
    "instance_safe E s0 (set_instances ?bt m s) n True" "instance_safe E s0 (set_instances ?bt m s) n False" for m
    using that rename_inv_instances [OF r inv n(1) that(2)] n(2) by (simp add: set_instances_def)
  show ?thesis
  proof (cases "Renamer b")
    case True
    note run' = run [unfolded applyBackendOp_def isRenamer_def if_P [OF True] if_not_P [OF st'(1)]]
    show ?thesis
    proof (cases "rt_Rename b ?o ?w ?i")
      case (Renamed m)
      have m: "?i ?o \<noteq> None" "m = ?i(?o := None, ?w := ?i ?o)" using good Renamed by (auto simp: good_rt_def)
      have "instance_safe E s0 (set_instances ?bt m s) n t" for t
        using before m True b ow by (auto simp: instance_safe_def Let_def set_instances_def backendHasInstance_def)
      then show ?thesis using run' Renamed keep move [of m] m(2) by (auto simp: act_defs split: if_splits)
    next
      case RenameNotFound
      then have "?i ?o = None" using good by (auto simp: good_rt_def)
      then have "instance_safe E s0 s n True"
        using before True b by (auto simp: instance_safe_def Let_def backendHasInstance_def)
      then show ?thesis using run' RenameNotFound inv by (simp add: act_defs)
    next
      case (RenameFails e)
      then show ?thesis using run' keep by (auto simp: act_defs)
    qed
  next
    case False
    note run' = run [unfolded applyBackendOp_def isRenamer_def if_not_P [OF False] if_not_P [OF st'(1)]]
    show ?thesis
    proof (cases "isInstanceUp st \<or> \<not> Yes d \<or> (\<exists>e. rt_Remove b ?o ?i = Inl e)")
      case True
      then show ?thesis using run' keep by (auto simp: act_defs split: if_splits)
    next
      case ok: False
      then obtain m where rm: "rt_Remove b ?o ?i = Inr m" by (cases "rt_Remove b ?o ?i") auto
      have m: "m = ?i(?o := None)" using good rm by (auto simp: good_rt_def)
      have "instance_safe E s0 (set_instances ?bt m s) n t" for t
        using before st'(2) m False b ow ok by (auto simp: instance_safe_def Let_def set_instances_def backendHasInstance_def)
      then show ?thesis using run' ok rm keep move [of m] m by (auto simp: act_defs split: if_splits)
    qed
  qed
qed

lemma restamp_entries:
  assumes "distinct (map fst es)" and "map_of es n = Some (Loads (Inr env))" and "n \<notin> S"
  shows "map (\<lambda>(k, e). (k, if k = n then Loads (Inr (restamped E env)) else e)) (entries_with E S es) = entries_with E (insert n S) es"
proof -
  have u: "e = Loads (Inr env)" if "(n, e) \<in> set es" for e using that assms(1,2) by (simp add: map_of_eq_Some_iff)
  show ?thesis using assms(3) by (auto simp: entries_with_def dest!: u)
qed

lemma restampPrincipal_inv:
  assumes r: "rename_ready E s0 names" and inv: "rename_inv E s0 names S s" and n: "n \<in> set names" "n \<notin> S"
    and safe: "instance_safe E s0 s n True" and run: "restampPrincipal E n (s, k) = (res, s', k')"
  shows "stamp s' = stamp s \<and> rename_inv E s0 names (if res = Done () then insert n S else S) s'"
proof -
  have es: "dir_entries s = entries_with E S (dir_entries s0)" using inv by (simp add: rename_inv_def)
  have d: "distinct (map fst (dir_entries s0))" and u: "unmigrated (dir_entries s0) = Inr names"
    using r by (simp_all add: rename_ready_def unmigratedSandboxNames_def)
  obtain env where env: "map_of (dir_entries s0) n = Some (Loads (Inr env))" using unmigrated_loads [OF u d n(1)] by blast
  have load: "load_flat s n = Inr env" using n(2) env by (simp add: load_flat_with [OF es]) (simp add: load_flat_def)
  show ?thesis
  proof (cases k)
    case 0
    then show ?thesis using run load inv by (auto simp: restampPrincipal_def act_defs)
  next
    case (Suc j)
    then have s': "res = Done ()" "s' = set_record n (restamped E env) s"
      using run load by (auto simp: restampPrincipal_def act_defs)
    have "dir_entries s' = entries_with E (insert n S) (dir_entries s0)"
      unfolding s'(2) set_record_def es by (simp add: restamp_entries [OF d env n(2)])
    moreover have "instance_safe E s0 s' m (m \<in> insert n S)" if "m \<in> set names" for m
    proof -
      have "instance_safe E s0 s' m t = instance_safe E s0 s m t" for t
        by (rule instance_safe_cong) (simp_all add: s'(2) set_record_def)
      then show ?thesis using inv safe that by (cases "m = n") (simp_all add: rename_inv_def)
    qed
    ultimately show ?thesis using inv n(1) s' by (simp add: rename_inv_def) (simp add: set_record_def)
  qed
qed

lemma InstanceName_target: "target E \<noteq> [] \<Longrightarrow> InstanceName (target E) n = Inr (newName E n)"
  by (simp add: InstanceName_def InstancePrefix_def newName_def)

lemma act_bind_cases:
  assumes "act_bind m f (s, k) = (res, s', k')"
  obtains (stop) e where "m (s, k) = (Fails e, s', k')" "res = Fails e"
    | (die) "m (s, k) = (Dies, s', k')" "res = Dies"
    | (go) a s1 k1 where "m (s, k) = (Done a, s1, k1)" "f a (s1, k1) = (res, s', k')"
  using assms unfolding act_bind_def by (auto split: prod.splits out.splits)

lemma migrateOne_inv:
  assumes r: "rename_ready E s0 names" and inv: "rename_inv E s0 names S s" and n: "n \<in> set names" "n \<notin> S"
    and run: "migrateOne E n d (s, k) = (res, s', k')"
  shows "stamp s' = stamp s \<and> rename_inv E s0 names (case res of Done _ \<Rightarrow> insert n S | _ \<Rightarrow> S) s'"
proof (cases "backendFor E s n")
  case (Inl e)
  then show ?thesis using run inv by (auto simp: migrateOne_def act_defs)
next
  case (Inr b)
  let ?bt = "backendType s0 n"
  have bt: "backendType s n = ?bt" using inv backendType_with by (auto simp: rename_inv_def)
  have b: "runtimeFor E ?bt = Inr b" using Inr by (auto simp: backendFor_def bt Let_def split: if_splits sum.splits)
  let ?op = "if backendHasInstance b then act_bind (act_get (\<lambda>s. pr_detectStatus E b s n)) (\<lambda>q.
      act_bind (act_lift q) (\<lambda>st. applyBackendOp E b ?bt n (LegacyCLIInstanceName n) (newName E n) st d)) else act_ret ()"
  let ?rest = "\<lambda>_::unit. act_bind (restampPrincipal E n) (\<lambda>_. act_ret \<lparr>Migrated = [n], Quarantined = [], Notes = []\<rparr>)"
  have run': "act_bind ?op ?rest (s, k) = (res, s', k')"
    using run Inr r by (simp add: migrateOne_def rename_ready_def InstanceName_target bt act_bind_def act_get_def act_lift_def act_ret_def)
  have op: "rename_inv E s0 names S s1 \<and> stamp s1 = stamp s \<and> (o1 = Done () \<longrightarrow> instance_safe E s0 s1 n True)"
    if o1: "?op (s, k) = (o1, s1, k1)" for o1 s1 k1
  proof (cases "backendHasInstance b")
    case True
    show ?thesis
    proof (cases "pr_detectStatus E b s n")
      case (Inl e)
      then show ?thesis using o1 True inv by (auto simp: act_defs)
    next
      case (Inr st)
      then show ?thesis using o1 True applyBackendOp_inv [OF r inv n b True Inr]
        by (auto simp: act_bind_def act_get_def act_lift_def act_ret_def)
    qed
  next
    case False
    then have "instance_safe E s0 s n True" using inv n b
      by (auto simp: rename_inv_def instance_safe_def backendHasInstance_def)
    then show ?thesis using o1 False inv by (auto simp: act_ret_def)
  qed
  from run' show ?thesis
  proof (cases rule: act_bind_cases)
    case (go a s1 k1)
    note o = op [OF go(1)]
    obtain res2 s2 k2 where st: "restampPrincipal E n (s1, k1) = (res2, s2, k2)" by (cases "restampPrincipal E n (s1, k1)") auto
    have "stamp s2 = stamp s1 \<and> rename_inv E s0 names (if res2 = Done () then insert n S else S) s2"
      by (rule restampPrincipal_inv [OF r _ n _ st]) (use o in auto)
    then show ?thesis using go(2) st o by (cases res2) (auto simp: act_bind_def act_ret_def)
  qed (use op in auto)
qed

section \<open>The whole run\<close>

lemma migrate_all_inv:
  assumes r: "rename_ready E s0 names"
  shows "rename_inv E s0 names S s \<Longrightarrow> set ns \<subseteq> set names - S \<Longrightarrow> distinct ns \<Longrightarrow>
    migrate_all E d rep ns (s, k) = (res, s', k') \<Longrightarrow>
    stamp s' = stamp s \<and> (\<exists>T. rename_inv E s0 names T s' \<and> ((\<exists>x. res = Done x) \<longrightarrow> T = S \<union> set ns))"
proof (induction ns arbitrary: S s k rep)
  case Nil
  then show ?case by (auto simp: act_ret_def)
next
  case (Cons n ns)
  have n: "n \<in> set names" "n \<notin> S" using Cons.prems(2) by auto
  from Cons.prems(4) have "act_bind (migrateOne E n d) (\<lambda>rp. migrate_all E d (Merge rep rp) ns) (s, k) = (res, s', k')"
    by simp
  then show ?case
  proof (cases rule: act_bind_cases)
    case (go a s1 k1)
    from migrateOne_inv [OF r Cons.prems(1) n go(1)] have i: "stamp s1 = stamp s" "rename_inv E s0 names (insert n S) s1" by auto
    have "set ns \<subseteq> set names - insert n S" "distinct ns" using Cons.prems(2,3) by auto
    from Cons.IH [OF i(2) this go(2)] show ?thesis using i(1) by auto
  next
    case (stop e)
    from migrateOne_inv [OF r Cons.prems(1) n stop(1)] show ?thesis using stop(2) by auto
  next
    case die
    from migrateOne_inv [OF r Cons.prems(1) n die(1)] show ?thesis using die(2) by auto
  qed
qed

lemma unmigrated_distinct: "unmigrated es = Inr names \<Longrightarrow> distinct (map fst es) \<Longrightarrow> distinct names \<and> set names \<subseteq> fst ` set es"
  by (induction es arbitrary: names rule: unmigrated.induct) (fastforce split: dir_entry.splits sum.splits if_splits)+

lemma PrincipalApply_inv:
  assumes r: "rename_ready E s0 names" and inv: "rename_inv E s0 names S s"
    and st: "stamp s = stamp s0 \<or> S = set names"
    and run: "PrincipalApply E d (s, k) = (res, s', k')"
  shows "\<exists>T. rename_inv E s0 names T s' \<and> (stamp s' = stamp s0 \<or> T = set names) \<and>
    ((\<exists>x. res = Done x) \<longrightarrow> T = set names \<and> stamp s' \<ge> SchemaPrincipalRenamed)"
proof -
  let ?todo = "filter (\<lambda>n. n \<notin> S) names"
  have S: "S \<subseteq> set names" using inv by (simp add: rename_inv_def)
  have u: "unmigratedSandboxNames s = Inr ?todo"
    using r inv unmigrated_with by (auto simp: rename_ready_def rename_inv_def unmigratedSandboxNames_def)
  have dist: "distinct ?todo" "set ?todo \<subseteq> set names - S"
    using r unmigrated_distinct by (auto simp: rename_ready_def unmigratedSandboxNames_def)
  have "act_bind (migrate_all E d no_report ?todo)
      (\<lambda>report. act_bind (pr_stampSchemaAdvancing SchemaPrincipalRenamed) (\<lambda>_. act_ret report)) (s, k) = (res, s', k')"
    using run u by (simp add: PrincipalApply_def act_bind_def act_get_def act_lift_def act_ret_def)
  then show ?thesis
  proof (cases rule: act_bind_cases)
    case (go a s1 k1)
    have all: "S \<union> set ?todo = set names" using S by auto
    from migrate_all_inv [OF r inv dist(2,1) go(1), unfolded all] obtain T where
      i: "stamp s1 = stamp s" "rename_inv E s0 names T s1" "T = set names" by auto
    have "rename_inv E s0 names T (s1\<lparr>stamp := v\<rparr>)" for v
      using i(2) unfolding rename_inv_def by (simp add: instance_safe_def)
    then show ?thesis using go(2) i
      by (auto simp: pr_stampSchemaAdvancing_def act_defs split: if_splits intro!: exI [of _ "set names"])
  next
    case (stop e)
    from migrate_all_inv [OF r inv dist(2,1) stop(1)] show ?thesis using st stop by (auto simp: act_ret_def)
  next
    case die
    from migrate_all_inv [OF r inv dist(2,1) die(1)] show ?thesis using st die by (auto simp: act_ret_def)
  qed
qed

lemma rename_inv_start: "rename_ready E s0 names \<Longrightarrow> rename_inv E s0 names {} s0"
  by (auto simp: rename_ready_def rename_inv_def entries_with_def instance_safe_def Let_def split: sum.split)

lemma reruns_inv:
  assumes r: "rename_ready E s0 names"
  shows "rename_inv E s0 names S s \<Longrightarrow> stamp s = stamp s0 \<or> S = set names \<Longrightarrow>
    \<exists>T. rename_inv E s0 names T (reruns E rs s) \<and> (stamp (reruns E rs s) = stamp s0 \<or> T = set names)"
proof (induction rs arbitrary: S s)
  case (Cons x rs)
  obtain k d where x: "x = (k, d)" by (cases x)
  obtain res s' k' where run: "PrincipalApply E d (s, k) = (res, s', k')" by (cases "PrincipalApply E d (s, k)") auto
  from PrincipalApply_inv [OF r Cons.prems run] obtain T where
    "rename_inv E s0 names T s'" "stamp s' = stamp s0 \<or> T = set names" by blast
  from Cons.IH [OF this] show ?case by (simp add: x run)
qed auto

lemma rename_inv_sandbox:
  assumes r: "rename_ready E s0 names" and inv: "rename_inv E s0 names S s" and n: "n \<in> set names"
  shows "\<exists>env. load_flat s0 n = Inr env \<and> Principal env = [] \<and>
    load_flat s n = Inr (if n \<in> S then restamped E env else env) \<and> instance_safe E s0 s n (n \<in> S)"
proof -
  have d: "distinct (map fst (dir_entries s0))" and u: "unmigrated (dir_entries s0) = Inr names"
    using r by (simp_all add: rename_ready_def unmigratedSandboxNames_def)
  from unmigrated_loads [OF u d n] obtain env where env: "load_flat s0 n = Inr env" "Principal env = []"
    by (auto simp: load_flat_def)
  have "dir_entries s = entries_with E S (dir_entries s0)" using inv by (simp add: rename_inv_def)
  from load_flat_with [OF this, of n] show ?thesis using env inv n by (auto simp: rename_inv_def)
qed

text \<open>C12: Under stated conditions the principal rename loses no record and no running instance. Start from a realm whose records load, with
  backends that keep their contracts, no instance under a name that the migration will use and no
  sandbox named like the principal, a dash and another sandbox. However many runs are made, under any
  decisions and each dying after any number of effects, every sandbox still has its record, untouched
  with its instance under the old name or already under the new one, or stamped with its instance under
  the new name. A backend that cannot rename loses a stopped instance (neither running nor suspended) and
  no other. The realm is stamped only when every sandbox is, and a run that returns has stamped all.\<close>

theorem principal_rename_never_loses:
  assumes "rename_ready E s0 names" and "n \<in> set names"
  shows "\<exists>env. load_flat s0 n = Inr env \<and>
    (load_flat (reruns E rs s0) n = Inr env \<and> instance_safe E s0 (reruns E rs s0) n False \<and>
       stamp (reruns E rs s0) = stamp s0 \<and>
       (\<forall>d k. case PrincipalApply E d (reruns E rs s0, k) of
          (Done _, s', _) \<Rightarrow> load_flat s' n = Inr (restamped E env) \<and> instance_safe E s0 s' n True | _ \<Rightarrow> True) \<or>
     load_flat (reruns E rs s0) n = Inr (restamped E env) \<and> instance_safe E s0 (reruns E rs s0) n True)"
proof -
  let ?s = "reruns E rs s0"
  from reruns_inv [OF assms(1) rename_inv_start [OF assms(1)]] obtain T where
    T: "rename_inv E s0 names T ?s" "stamp ?s = stamp s0 \<or> T = set names" by blast
  from rename_inv_sandbox [OF assms(1) T(1) assms(2)] obtain env where
    env: "load_flat s0 n = Inr env" "load_flat ?s n = Inr (if n \<in> T then restamped E env else env)"
    "instance_safe E s0 ?s n (n \<in> T)" by blast
  have "case PrincipalApply E d (?s, k) of
      (Done _, s', _) \<Rightarrow> load_flat s' n = Inr (restamped E env) \<and> instance_safe E s0 s' n True | _ \<Rightarrow> True" for d k
  proof (cases "PrincipalApply E d (?s, k)")
    case (fields res s' k')
    from PrincipalApply_inv [OF assms(1) T fields] obtain U where
      U: "rename_inv E s0 names U s'" "(\<exists>x. res = Done x) \<longrightarrow> U = set names" by blast
    show ?thesis using rename_inv_sandbox [OF assms(1) U(1) assms(2)] U(2) assms(2) env(1) fields
      by (auto split: out.split)
  qed
  then show ?thesis using env T(2) assms(2) by (cases "n \<in> T") auto
qed

section \<open>Sandboxes named after the principal\<close>

text \<open>A backend that keeps its contract.\<close>

definition demo_rt :: rt where
  "demo_rt = \<lparr>HostKeepAlive = False, Renamer = True,
     rt_Rename = (\<lambda>oldN newN m. case m oldN of None \<Rightarrow> RenameNotFound
        | Some i \<Rightarrow> if m newN = None then Renamed (m(oldN := None, newN := Some i)) else RenameFails ''name in use''),
     rt_Remove = (\<lambda>name m. Inr (m(name := None))),
     rt_Inspect = (\<lambda>name m. case m name of None \<Rightarrow> NotFound | Some i \<Rightarrow> Inspected (running i) (suspended i))\<rparr>"

definition demo_rename :: rename_env where
  "demo_rename = \<lparr>runtimeFor = (\<lambda>_. Inr demo_rt), status_dec = (\<lambda>_. None), status_now = 0, status_file = (\<lambda>_. None),
     target = ''cli''\<rparr>"

definition demo_record :: Environment where
  "demo_record = \<lparr>Version = 3, YoloaiVersion = [], EnvName = [], Principal = [], CreatedAt = 0, BackendType = ''docker'',
     Profile = [], ImageRef = [], Headless = False, Dirs = [], LegacyWorkdir = None, LegacyDirectories = [], HasPrompt = False,
     Ports = [], Resources = None, Mounts = [], CapAdd = [], Devices = [], Setup = [], AutoCommitInterval = 0, Debug = False,
     UsernsMode = [], Isolation = [], HostFilesystem = False, VscodeTunnel = False, BrokerCredentials = False,
     BrokerDisabled = False, Archetype = []\<rparr>"

definition demo_pstate :: "string list \<Rightarrow> pstate" where
  "demo_pstate names = \<lparr>dir_entries = map (\<lambda>n. (n, Loads (Inr demo_record))) names,
     instances = (\<lambda>_. [''yoloai-api'' \<mapsto> \<lparr>running = True, suspended = False, layer = ''work''\<rparr>]), stamp = 4\<rparr>"

definition yes :: Decision where "yes = \<lparr>Yes = True, AbandonStoppedOverlay = False\<rparr>"

text \<open>The conditions matter: the rename can give an instance to another sandbox. With a sandbox \<open>api\<close> whose instance is running
  and a sandbox \<open>cli-api\<close> that has none, the first gets the name that the second had before, the migration
  then takes it for the second one's and renames it again. The run succeeds and stamps the realm, nothing
  is left under the name that \<open>api\<close> now resolves to, and its instance is the one that \<open>cli-api\<close> resolves to.\<close>

lemma principal_rename_misattributes:
  "case PrincipalApply demo_rename yes (demo_pstate [''api'', ''cli-api''], 10) of (res, s, k) \<Rightarrow>
     (case res of Done rep \<Rightarrow> Migrated rep = [''api'', ''cli-api''] | _ \<Rightarrow> False) \<and> stamp s = 5 \<and>
     instances s ''docker'' ''yoloai-cli-api'' = None \<and>
     instances s ''docker'' ''yoloai-cli-cli-api'' = Some \<lparr>running = True, suspended = False, layer = ''work''\<rparr>"
  by code_simp

theorem principal_rename_never_loses_witness:
  "instance_safe demo_rename (demo_pstate [''api'']) (reruns demo_rename [(1, yes)] (demo_pstate [''api''])) ''api'' False"
proof -
  have "good_rt demo_rt"
    by (auto simp: good_rt_def demo_rt_def split: option.splits if_splits)
  then have "rename_ready demo_rename (demo_pstate [''api'']) [''api'']"
    by (auto simp: rename_ready_def demo_rename_def demo_pstate_def unmigratedSandboxNames_def demo_record_def newName_def)
  from principal_rename_never_loses [OF this, of "''api''" "[(1, yes)]"]
  show ?thesis by (auto simp: instance_safe_def Let_def demo_rename_def demo_rt_def)
qed

end
