(* ===== verification/OverlayFlatten.thy ===== *)
theory OverlayFlatten
  imports TierMigration
begin

text \<open>
  The migration from schema version 3 to 4, \<open>internal/orchestrator/migrate_overlay.go\<close>: sandboxes whose
  directories are overlays become sandboxes with plain copies. The live directory of the world is the
  sandboxes directory, and one sandbox is one unit of the promotion.

  Modelled are the choice of the sandboxes, the plan, the decision per sandbox, the flattening onto the
  pristine lower layer, which is the second client of the promotion, and the quarantine. Capturing the
  merged tree of a running container is a command executed in it; it is an argument here. The caret
  encoding of a host path is a field of the environment (\<open>Encode\<close> has it on code points).
\<close>

section \<open>Parameters and records\<close>

record overlay_env =
  ov_json :: json_env
  encoded :: "string \<Rightarrow> string"
  ov_status :: "string \<Rightarrow> (string, Status) result"
  ov_owner :: "string \<Rightarrow> string \<Rightarrow> int option"
  ov_uid :: int
  ov_isRoot :: bool
  goos :: string

definition DirModeOverlay :: string where "DirModeOverlay = ''overlay''"

definition pretier_work :: string where "pretier_work = ''work''"

definition lower_name :: string where "lower_name = ''lower''"

definition allDirs :: "Environment \<Rightarrow> DirEnvironment list" where
  "allDirs env = (case Workdir env of None \<Rightarrow> [] | Some wd \<Rightarrow> [wd]) @ AuxDirs env"

definition hasOverlayDir :: "Environment \<Rightarrow> bool" where
  "hasOverlayDir env = list_ex (\<lambda>d. Mode d = DirModeOverlay) (allDirs env)"

section \<open>Choosing and classifying\<close>

text \<open>\<open>overlaySandboxNames\<close>, over the entries of the sandboxes directory.\<close>

fun overlay_names :: "overlay_env \<Rightarrow> dir \<Rightarrow> (string, string list) result" where
  "overlay_names E [] = Inr []"
| "overlay_names E ((n, x) # es) = (case x of
       Dir d \<Rightarrow> (case map_of d EnvironmentFileName of
           None \<Rightarrow> overlay_names E es
         | Some (File data) \<Rightarrow> (case decode_env (ov_json E) data of
               Inl e \<Rightarrow> Inl (''sandbox '' @ n @ '': '' @ e)
             | Inr env \<Rightarrow> res_bind (overlay_names E es) (\<lambda>ns. Inr (if hasOverlayDir env then n # ns else ns)))
         | Some _ \<Rightarrow> Inl (''sandbox '' @ n @ '': read environment.json''))
     | _ \<Rightarrow> overlay_names E es)"

definition overlaySandboxNames :: "overlay_env \<Rightarrow> dir \<Rightarrow> (string, string list) result" where
  "overlaySandboxNames E es = overlay_names E (sort_key fst es)"

definition classifyOverlay :: "string \<Rightarrow> Status \<Rightarrow> string \<Rightarrow> Op" where
  "classifyOverlay name st os = (let op = (\<lambda>desc a.
       \<lparr>Description = desc, Auth = a, Sandbox = name, NeedsOlderRelease = False\<rparr>) in
     if st \<in> {StatusActive, StatusIdle, StatusDone, StatusFailed}
       then op (''flatten overlay sandbox '' @ name @ '' to copy mode'') AuthNone
     else if st = StatusStopped then
       (if os = ''darwin'' then op (''abandon stopped overlay sandbox '' @ name @ '' (macOS)'') AuthAbandonOverlay
        else op (''abandon stopped overlay sandbox '' @ name @ '' (Linux: recoverable)'') AuthAbandonOverlay)
     else if st = StatusRemoved then op (''abandon overlay sandbox '' @ name @ '' (container removed)'') AuthAbandonOverlay
     else op (''quarantine sandbox '' @ name) AuthConfirm)"

text \<open>\<open>hostUnmanageableReason\<close>: the first entry besides the work directory that another user owns; an
  unreadable directory and root give no reason.\<close>

definition hostUnmanageableEntry :: "overlay_env \<Rightarrow> string \<Rightarrow> node option \<Rightarrow> string option" where
  "hostUnmanageableEntry E name x =
     (if ov_isRoot E then None
      else case x of
          Some (Dir d) \<Rightarrow> map_option fst (find (\<lambda>(n, _). n \<noteq> pretier_work \<and>
             (case ov_owner E name n of None \<Rightarrow> False | Some u \<Rightarrow> u \<noteq> ov_uid E \<and> u \<noteq> 0)) (sort_key fst d))
        | _ \<Rightarrow> None)"

definition plan_overlay :: "overlay_env \<Rightarrow> dir \<Rightarrow> string \<Rightarrow> (string, Op) result" where
  "plan_overlay E es name = res_bind (ov_status E name) (\<lambda>st.
     let op = classifyOverlay name st (goos E) in
     Inr (if Auth op \<noteq> AuthConfirm \<and> hostUnmanageableEntry E name (map_of es name) \<noteq> None
          then \<lparr>Description = ''sandbox '' @ name @ '' can't be migrated in place'', Auth = AuthBlocked, Sandbox = name,
                NeedsOlderRelease = True\<rparr>
          else op))"

definition OverlayPlan :: "overlay_env \<Rightarrow> dir \<Rightarrow> (string, Plan) result" where
  "OverlayPlan E es = res_bind (overlaySandboxNames E es) (\<lambda>names.
     res_bind (res_foldl (\<lambda>ops n. res_bind (plan_overlay E es n) (\<lambda>op. Inr (ops @ [op]))) [] names) (\<lambda>ops.
       Inr \<lparr>MigratorName = [], Ops = ops\<rparr>))"

section \<open>Flattening onto the lower layer\<close>

definition buildWork :: "overlay_env \<Rightarrow> string \<Rightarrow> (path \<Rightarrow> DirEnvironment \<Rightarrow> path) \<Rightarrow> path \<Rightarrow> unit io" where
  "buildWork E name srcFor dst =
     io_bind (LoadEnvironmentFrom (ov_json E) (Under (Live name) EnvironmentFileName)) (\<lambda>env.
     io_seq (os_MkdirAll ''create work dir'' (Under dst pretier_work))
       (io_each (\<lambda>d. CopyPathFaithful ''build work dir'' (srcFor (Live name) d)
           (Under (Under dst pretier_work) (encoded E (HostPath d)))) (allDirs env)))"

definition lower_source :: "overlay_env \<Rightarrow> path \<Rightarrow> DirEnvironment \<Rightarrow> path" where
  "lower_source E sandboxDir d = (let base = Under (Under sandboxDir pretier_work) (encoded E (HostPath d)) in
     if Mode d = DirModeOverlay then Under base lower_name else base)"

definition buildFromLower :: "overlay_env \<Rightarrow> string \<Rightarrow> path \<Rightarrow> unit io" where
  "buildFromLower E name dst = buildWork E name (lower_source E) dst"

definition to_copy :: "DirEnvironment \<Rightarrow> DirEnvironment" where
  "to_copy d = (if Mode d = DirModeOverlay
     then d\<lparr>Mode := DirModeCopy, MountPath := HostPath d, BaselineSHA := [], InceptionSHA := []\<rparr> else d)"

definition copy_mode :: "Environment \<Rightarrow> Environment" where
  "copy_mode env = env\<lparr>Dirs := map to_copy (Dirs env)\<rparr>"

definition writeCopyModeEnv :: "overlay_env \<Rightarrow> path \<Rightarrow> unit io" where
  "writeCopyModeEnv E newDir =
     io_bind (LoadEnvironmentFrom (ov_json E) (Under newDir EnvironmentFileName)) (\<lambda>env.
       SaveEnvironmentTo (ov_json E) newDir EnvironmentFileName (copy_mode env))"

definition isCopyMode :: "overlay_env \<Rightarrow> path \<Rightarrow> bool io" where
  "isCopyMode E d = io_bind (os_ReadFile ''read environment.json'' (Under d EnvironmentFileName)) (\<lambda>r. case r of
       None \<Rightarrow> io_ret False
     | Some data \<Rightarrow> (case decode_env (ov_json E) data of
          Inl e \<Rightarrow> io_fail e
        | Inr env \<Rightarrow> io_ret (list_all (\<lambda>d. Mode d \<noteq> DirModeOverlay) (Dirs env))))"

definition overlay_promotion :: "overlay_env \<Rightarrow> string \<Rightarrow> promotion" where
  "overlay_promotion E name = \<lparr>Name = name, Build = buildFromLower E name, WriteReadyMarker = writeCopyModeEnv E,
     IsReady = isCopyMode E, DisposeOrig = DropDisposer\<rparr>"

definition assertHostOwnedState :: "overlay_env \<Rightarrow> string \<Rightarrow> unit io" where
  "assertHostOwnedState E name = io_bind (io_get (\<lambda>w. hostUnmanageableEntry E name (live w name))) (\<lambda>r. case r of
       None \<Rightarrow> io_ret ()
     | Some n \<Rightarrow> io_fail (''sandbox '' @ name @ '' can't be migrated in place: '' @ n))"

definition flattenAbandon :: "overlay_env \<Rightarrow> string \<Rightarrow> Report io" where
  "flattenAbandon E name =
     io_seq (assertHostOwnedState E name) (io_seq (Run (overlay_promotion E name))
       (io_ret \<lparr>Migrated = [name], Quarantined = [], Notes = [''overlay changes abandoned'']\<rparr>))"

definition quarantine :: "string \<Rightarrow> Report io" where
  "quarantine name = io_seq (TrashDisposer (Live name)) (io_ret \<lparr>Migrated = [], Quarantined = [name], Notes = []\<rparr>)"

definition flattenOne :: "overlay_env \<Rightarrow> (string \<Rightarrow> Report io) \<Rightarrow> string \<Rightarrow> Status \<Rightarrow> Decision \<Rightarrow> Report io" where
  "flattenOne E flattenRunning name st d =
     (if st \<in> {StatusActive, StatusIdle, StatusDone, StatusFailed} then flattenRunning name
      else if st = StatusStopped \<or> st = StatusRemoved then
        (if \<not> AbandonStoppedOverlay d then io_fail (''sandbox '' @ name @ '' is not running and abandoning its overlay changes was not authorized'')
         else flattenAbandon E name)
      else if \<not> Yes d then io_fail (''sandbox '' @ name @ '' cannot be audited and quarantine was not authorized'')
      else quarantine name)"

section \<open>What the build makes\<close>

lemma allDirs_Dirs: "allDirs env = Dirs env"
  by (cases "Dirs env") (auto simp: allDirs_def Workdir_def AuxDirs_def Suc_le_eq)

fun entry_in :: "node option \<Rightarrow> string \<Rightarrow> node option" where
  "entry_in (Some (Dir d)) n = map_of d n"
| "entry_in _ n = None"

definition lower_tree :: "overlay_env \<Rightarrow> dir \<Rightarrow> DirEnvironment \<Rightarrow> node option" where
  "lower_tree E D d = (let base = entry_in (map_of D pretier_work) (encoded E (HostPath d)) in
     if Mode d = DirModeOverlay then entry_in base lower_name else base)"

text \<open>The record of a unit, and the units that the migration accepts: the record loads and has an overlay,
  the source of every directory is there, no two directories share an encoded name, and the codec gives
  back the record that will be written.\<close>

definition unit_record :: "overlay_env \<Rightarrow> dir \<Rightarrow> Environment option" where
  "unit_record E D = (case map_of D EnvironmentFileName of
       Some (File data) \<Rightarrow> (case decode_env (ov_json E) data of Inr env \<Rightarrow> Some env | Inl _ \<Rightarrow> None)
     | _ \<Rightarrow> None)"

definition flat_record :: "overlay_env \<Rightarrow> Environment \<Rightarrow> string" where
  "flat_record E env = marshal (ov_json E) ((copy_mode env)\<lparr>Version := metaVersion\<rparr>)"

definition overlay_adm :: "overlay_env \<Rightarrow> dir \<Rightarrow> bool" where
  "overlay_adm E D = (distinct (map fst D) \<and> names_ok (map_of D) \<and> (case unit_record E D of
       None \<Rightarrow> False
     | Some env \<Rightarrow> hasOverlayDir env \<and> list_all (\<lambda>d. lower_tree E D d \<noteq> None) (Dirs env) \<and>
         distinct (map (\<lambda>d. encoded E (HostPath d)) (Dirs env)) \<and>
         decode_env (ov_json E) (flat_record E env) = Inr ((copy_mode env)\<lparr>Version := metaVersion\<rparr>)))"

definition the_record :: "overlay_env \<Rightarrow> dir \<Rightarrow> Environment" where "the_record E D = the (unit_record E D)"

definition work_of :: "overlay_env \<Rightarrow> dir \<Rightarrow> DirEnvironment list \<Rightarrow> dir" where
  "work_of E D ds = map (\<lambda>d. (encoded E (HostPath d), the (lower_tree E D d))) ds"

definition overlay_built :: "overlay_env \<Rightarrow> dir \<Rightarrow> entries" where
  "overlay_built E D = [pretier_work \<mapsto> Dir (work_of E D (Dirs (the_record E D)))]"

definition overlay_mark :: "overlay_env \<Rightarrow> dir \<Rightarrow> node" where
  "overlay_mark E D = File (flat_record E (the_record E D))"

lemma overlay_admE:
  assumes "overlay_adm E D"
  obtains data env where "map_of D EnvironmentFileName = Some (File data)" "decode_env (ov_json E) data = Inr env"
    "the_record E D = env" "hasOverlayDir env" "list_all (\<lambda>d. lower_tree E D d \<noteq> None) (Dirs env)"
    "distinct (map (\<lambda>d. encoded E (HostPath d)) (Dirs env))"
    "decode_env (ov_json E) (flat_record E env) = Inr ((copy_mode env)\<lparr>Version := metaVersion\<rparr>)"
  using assms unfolding overlay_adm_def the_record_def unit_record_def
  by (auto split: option.splits node.splits sum.splits)

lemma to_copy_mode: "Mode (to_copy d) \<noteq> DirModeOverlay"
  by (simp add: to_copy_def DirModeOverlay_def DirModeCopy_def)

lemma copy_mode_ready: "list_all (\<lambda>d. Mode d \<noteq> DirModeOverlay) (Dirs ((copy_mode env)\<lparr>Version := v\<rparr>))"
  by (simp add: copy_mode_def list_all_iff to_copy_mode)

lemma overlay_not_ready: "hasOverlayDir env \<Longrightarrow> \<not> list_all (\<lambda>d. Mode d \<noteq> DirModeOverlay) (Dirs env)"
  by (auto simp: hasOverlayDir_def allDirs_Dirs list_ex_iff list_all_iff)

lemma env_name_plain: "plain EnvironmentFileName" "EnvironmentFileName \<noteq> pretier_work" "plain pretier_work"
  by code_simp+

lemma LoadEnvironmentFrom_bind:
  assumes "get p v = Some (File data)" "decode_env J data = Inr env" "R v"
    and "spec (\<lambda>w. w = v) (f env) Q R"
  shows "spec (\<lambda>w. w = v) (io_bind (LoadEnvironmentFrom J p) f) Q R"
proof -
  have "spec (\<lambda>w. w = v) (LoadEnvironmentFrom J p) (\<lambda>a w. w = v \<and> a = env) R"
    unfolding LoadEnvironmentFrom_def
    by (rule exact_bind [OF exact_ReadFile]) (use assms in \<open>simp_all add: spec_ret del: get.simps\<close>)
  then show ?thesis by (rule exact_bind) (rule assms(4))
qed

lemma get_lower_source:
  assumes "live w name = Some (Dir D)"
  shows "get (lower_source E (Live name) d) (staged w X) = lower_tree E D d"
  using assms by (cases "map_of D pretier_work"; cases "entry_in (map_of D pretier_work) (encoded E (HostPath d))")
    (auto simp: lower_source_def lower_tree_def Let_def split: node.splits)

lemma buildFromLower_spec:
  assumes adm: "overlay_adm E D" and D: "live w name = Some (Dir D)"
  shows "spec (dir_at Scratch w (\<lambda>m. m = Map.empty)) (buildFromLower E name Scratch)
        (\<lambda>_. dir_at Scratch w (\<lambda>m. m = overlay_built E D)) (\<lambda>v. \<exists>x. v = put Scratch x w)"
proof -
  obtain data env where r: "map_of D EnvironmentFileName = Some (File data)" "decode_env (ov_json E) data = Inr env"
      "the_record E D = env" and src: "list_all (\<lambda>d. lower_tree E D d \<noteq> None) (Dirs env)"
      and dist: "distinct (map (\<lambda>d. encoded E (HostPath d)) (Dirs env))"
    using overlay_admE [OF adm] by metis
  let ?W = "\<lambda>ys. staged w [(pretier_work, Dir (work_of E D ys))]"
  let ?f = "\<lambda>d. CopyPathFaithful ''build work dir'' (lower_source E (Live name) d)
           (Under (Under Scratch pretier_work) (encoded E (HostPath d)))"
  have rec: "get (Under (Live name) EnvironmentFileName) (staged w []) = Some (File data)" using D r(1) by simp
  have mk: "spec (\<lambda>v. v = staged w []) (os_MkdirAll ''create work dir'' (Under Scratch pretier_work)) (\<lambda>_ v. v = ?W []) (only_scratch w)"
    by (rule spec_post [OF exact_MkdirAll]) (simp_all add: staged_def set_entry_new work_of_def)
  have loop: "spec (\<lambda>v. v = ?W []) (io_each ?f (Dirs env)) (\<lambda>_ v. v = ?W (Dirs env)) (only_scratch w)"
  proof (rule spec_each [where I = "\<lambda>ys v. v = ?W ys"])
    fix ys d zs assume ds: "Dirs env = ys @ d # zs"
    obtain x where x: "lower_tree E D d = Some x" using src ds by (auto simp: list_all_iff)
    have new: "encoded E (HostPath d) \<notin> fst ` set (work_of E D ys)"
      using dist ds by (auto simp: work_of_def)
    have app: "work_of E D (ys @ [d]) = work_of E D ys @ [(encoded E (HostPath d), x)]"
      by (simp add: work_of_def x)
    have g: "get (lower_source E (Live name) d) (?W ys) = Some x" using get_lower_source [OF D] x by simp
    show "spec (\<lambda>v. v = ?W ys) (?f d) (\<lambda>_ v. v = ?W (ys @ [d])) (only_scratch w)"
      by (rule spec_post [OF exact_Copy [OF g]])
        (simp_all add: staged_def set_entry_new [OF new] app set_entry_last [of _ "[]", simplified])
  qed
  have "spec (\<lambda>v. v = staged w []) (buildFromLower E name Scratch) (\<lambda>_ v. v = ?W (Dirs env)) (only_scratch w)"
    unfolding buildFromLower_def buildWork_def
    by (rule LoadEnvironmentFrom_bind [OF rec r(2)], simp, unfold allDirs_Dirs, rule spec_seq [OF mk loop])
  then show ?thesis
  proof (rule spec_conseq)
    fix v assume "dir_at Scratch w (\<lambda>m. m = Map.empty) v"
    then show "v = staged w []" by (auto simp: staged_def elim!: dir_atE)
  next
    fix v assume "v = ?W (Dirs env)"
    then show "dir_at Scratch w (\<lambda>m. m = overlay_built E D) v"
      by (intro dir_atI [of "[(pretier_work, Dir (work_of E D (Dirs env)))]"])
        (simp_all add: staged_def overlay_built_def r(3))
  qed (auto simp: only_scratch_def)
qed

section \<open>The abandoning flatten is a client of the promotion\<close>

lemma mark_differs:
  assumes "overlay_adm E D"
  shows "map_of D EnvironmentFileName \<noteq> Some (overlay_mark E D)"
proof
  assume a: "map_of D EnvironmentFileName = Some (overlay_mark E D)"
  obtain data env where r: "map_of D EnvironmentFileName = Some (File data)" "decode_env (ov_json E) data = Inr env"
      "the_record E D = env" "hasOverlayDir env"
      "decode_env (ov_json E) (flat_record E env) = Inr ((copy_mode env)\<lparr>Version := metaVersion\<rparr>)"
    using overlay_admE [OF assms] by metis
  have "data = flat_record E env" using a r(1,3) by (simp add: overlay_mark_def)
  then have "env = (copy_mode env)\<lparr>Version := metaVersion\<rparr>" using r(2,5) by simp
  then show False using overlay_not_ready [OF r(4)] copy_mode_ready by metis
qed

lemma overlay_built_env [simp]: "overlay_built E D EnvironmentFileName = None"
  using env_name_plain by (simp add: overlay_built_def)

lemma overlay_built_names:
  "names_ok (overlay_built E D)" "overlay_built E D buildCompleteName = None"
  using env_name_plain(3) by (auto simp: names_ok_def overlay_built_def plain_def stray_temp_def not_dir_def)

lemma isCopyMode_spec:
  assumes adm: "overlay_adm E D" and X: "get t w = Some (Dir X)"
    and x: "map_of X EnvironmentFileName \<in> {None, map_of D EnvironmentFileName, Some (overlay_mark E D)}"
  shows "spec (\<lambda>v. v = w) (isCopyMode E t)
    (\<lambda>r v. v = w \<and> r = (map_of X EnvironmentFileName = Some (overlay_mark E D))) (\<lambda>v. v = w)"
proof -
  let ?x = "map_of X EnvironmentFileName"
  obtain data env where r: "map_of D EnvironmentFileName = Some (File data)" "decode_env (ov_json E) data = Inr env"
      "the_record E D = env" "hasOverlayDir env"
      "decode_env (ov_json E) (flat_record E env) = Inr ((copy_mode env)\<lparr>Version := metaVersion\<rparr>)"
    using overlay_admE [OF adm] by metis
  have g: "get (Under t EnvironmentFileName) w = ?x" using X by simp
  show ?thesis
  proof (cases ?x)
    case None
    show ?thesis unfolding isCopyMode_def
      by (rule exact_bind [OF exact_ReadFile]) (simp_all add: g None spec_ret del: get.simps)
  next
    case (Some y)
    have "\<exists>s e. ?x = Some (File s) \<and> decode_env (ov_json E) s = Inr e \<and>
      list_all (\<lambda>d. Mode d \<noteq> DirModeOverlay) (Dirs e) = (?x = Some (overlay_mark E D))"
    proof (cases "?x = Some (overlay_mark E D)")
      case True
      then show ?thesis using r(3,5) copy_mode_ready by (auto simp: overlay_mark_def)
    next
      case False
      then have "?x = Some (File data)" using x Some r(1) by auto
      then show ?thesis using False r(2) overlay_not_ready [OF r(4)] by simp
    qed
    then obtain s e where s: "?x = Some (File s)" "decode_env (ov_json E) s = Inr e"
        "list_all (\<lambda>d. Mode d \<noteq> DirModeOverlay) (Dirs e) = (?x = Some (overlay_mark E D))" by blast
    show ?thesis unfolding isCopyMode_def
      by (rule exact_bind [OF exact_ReadFile])
        (simp_all add: g s(1,2) s(3) [unfolded s(1)] spec_ret del: get.simps)
  qed
qed

lemma record_temp_stray: "stray_temp (temp_name EnvironmentFileName names)"
proof -
  have "is_write_temp (temp_name EnvironmentFileName names)"
    unfolding is_write_temp_def using temp_name_write_temp by blast
  moreover have "\<not> is_repop_temp (temp_name EnvironmentFileName names)"
    by (simp add: is_repop_temp_def repopTempPrefix_def temp_name_def entry_names go_string)
  ultimately show ?thesis by (simp add: stray_temp_def)
qed

lemma dir_LoadEnvironment_bind:
  assumes "slot t w" and "m0 n = Some (File data)" "decode_env J data = Inr env" and "\<And>m. m = m0 \<Longrightarrow> R m"
    and "spec (dir_at t w (\<lambda>m. m = m0)) (f env) Q (dir_at t w R)"
  shows "spec (dir_at t w (\<lambda>m. m = m0)) (io_bind (LoadEnvironmentFrom J (Under t n)) f) Q (dir_at t w R)"
proof -
  have "io_bind (LoadEnvironmentFrom J (Under t n)) f = io_bind (os_ReadFile ''read environment.json'' (Under t n))
      (\<lambda>r. case r of None \<Rightarrow> io_fail ''read environment.json''
         | Some data \<Rightarrow> (case decode_env J data of Inl e \<Rightarrow> io_fail e | Inr m \<Rightarrow> f m))" (is "?l = ?r")
    by (rule ext) (auto simp: LoadEnvironmentFrom_def io_bind_def io_fail_def io_ret_def
        split: prod.splits outcome.splits option.splits sum.splits)
  then show ?thesis using assms
    by (simp only:) (rule dir_ReadFile_bind [where x = "Some data"]; simp)
qed

lemma writeCopyModeEnv_spec:
  assumes adm: "overlay_adm E D" and t: "slot t w" and "m0 EnvironmentFileName = map_of D EnvironmentFileName"
  shows "spec (dir_at t w (\<lambda>m. m = m0)) (writeCopyModeEnv E t)
    (\<lambda>_. dir_at t w (\<lambda>m. near EnvironmentFileName m0 m \<and> m EnvironmentFileName = Some (overlay_mark E D)))
    (dir_at t w (\<lambda>m. near EnvironmentFileName m0 m \<and>
       m EnvironmentFileName \<in> {m0 EnvironmentFileName, Some (overlay_mark E D)}))"
proof -
  obtain data env where r: "map_of D EnvironmentFileName = Some (File data)" "decode_env (ov_json E) data = Inr env"
      "the_record E D = env"
    using overlay_admE [OF adm] by metis
  have m0: "m0 EnvironmentFileName = Some (File data)" using assms(3) r(1) by simp
  have mark: "overlay_mark E D = File (marshal (ov_json E) ((copy_mode env)\<lparr>Version := metaVersion\<rparr>))"
    by (simp add: overlay_mark_def flat_record_def r(3))
  show ?thesis unfolding writeCopyModeEnv_def
  proof (rule dir_LoadEnvironment_bind [of t w m0 EnvironmentFileName, OF t m0 r(2)])
    show "spec (dir_at t w (\<lambda>m. m = m0)) (SaveEnvironmentTo (ov_json E) t EnvironmentFileName (copy_mode env))
      (\<lambda>_. dir_at t w (\<lambda>m. near EnvironmentFileName m0 m \<and> m EnvironmentFileName = Some (overlay_mark E D)))
      (dir_at t w (\<lambda>m. near EnvironmentFileName m0 m \<and>
        m EnvironmentFileName \<in> {m0 EnvironmentFileName, Some (overlay_mark E D)}))"
      unfolding SaveEnvironmentTo_def mark
    proof (rule dir_AtomicWriteFile [OF t])
      fix m n names x assume "m = m0" "n = temp_name EnvironmentFileName names" "m n = None" "not_dir x"
      then show "near EnvironmentFileName m0 (m(n := x)) \<and> (m(n := x)) EnvironmentFileName \<in> {m0 EnvironmentFileName,
          Some (File (marshal (ov_json E) ((copy_mode env)\<lparr>Version := metaVersion\<rparr>)))}"
        using record_temp_stray [of names] temp_name_not_base [of EnvironmentFileName names] by (auto simp: near_def)
    qed (use m0 in \<open>auto simp: near_def not_dir_def\<close>)
  qed (simp add: near_def)
qed

lemma overlay_promotion_simps [simp]:
  "Name (overlay_promotion E name) = name" "Build (overlay_promotion E name) = buildFromLower E name"
  "WriteReadyMarker (overlay_promotion E name) = writeCopyModeEnv E" "IsReady (overlay_promotion E name) = isCopyMode E"
  "DisposeOrig (overlay_promotion E name) = DropDisposer"
  by (simp_all add: overlay_promotion_def)

interpretation overlay: promotion_client "overlay_promotion E name" drop_pend drop_pend
    "overlay_adm E" "overlay_built E" EnvironmentFileName "overlay_mark E" for E name
proof (unfold_locales, unfold overlay_promotion_simps)
  show "plain EnvironmentFileName" by (rule env_name_plain)
next
  fix D assume "overlay_adm E D"
  then show "distinct (map fst D)" "names_ok (map_of D)" by (simp_all add: overlay_adm_def)
next
  fix D assume a: "overlay_adm E D"
  show "map_of D EnvironmentFileName \<noteq> Some (overlay_mark E D)" by (rule mark_differs [OF a])
  show "overlay_built E D EnvironmentFileName \<noteq> Some (overlay_mark E D)" by simp
next
  fix D and w :: world assume "overlay_adm E D" "live w name = Some (Dir D)"
  then show "spec (dir_at Scratch w (\<lambda>m. m = Map.empty)) (buildFromLower E name Scratch)
        (\<lambda>_. dir_at Scratch w (\<lambda>m. m = overlay_built E D)) (\<lambda>v. \<exists>x. v = put Scratch x w)"
    by (rule buildFromLower_spec)
next
  fix D t X and w :: world
  assume "overlay_adm E D" "get t w = Some (Dir X)"
    and "map_of X EnvironmentFileName \<in> {None, map_of D EnvironmentFileName, overlay_built E D EnvironmentFileName, Some (overlay_mark E D)}"
  then show "spec (\<lambda>v. v = w) (isCopyMode E t)
      (\<lambda>r v. v = w \<and> r = (map_of X EnvironmentFileName = Some (overlay_mark E D))) (\<lambda>v. v = w)"
    by (intro isCopyMode_spec) auto
next
  fix D m0 and w :: world
  assume "overlay_adm E D" "m0 EnvironmentFileName = (map_of D ++ overlay_built E D) EnvironmentFileName"
  then show "spec (dir_at (newer (overlay_promotion E name)) w (\<lambda>m. m = m0)) (writeCopyModeEnv E (newer (overlay_promotion E name)))
        (\<lambda>_. dir_at (newer (overlay_promotion E name)) w
          (\<lambda>m. near EnvironmentFileName m0 m \<and> m EnvironmentFileName = Some (overlay_mark E D)))
        (dir_at (newer (overlay_promotion E name)) w
          (\<lambda>m. near EnvironmentFileName m0 m \<and> m EnvironmentFileName \<in> {m0 EnvironmentFileName, Some (overlay_mark E D)}))"
    by (intro writeCopyModeEnv_spec) (simp_all add: newer_def map_add_def)
qed (rule overlay_built_names | erule (2) dropping.pend_start | erule (2) dropping.pend_frame |
    erule (1) dropping.gone_frame | erule (1) dropping.Dispose_ok)+

section \<open>Crash safety of the flattening\<close>

definition overlay_start :: "world \<Rightarrow> string \<Rightarrow> dir \<Rightarrow> bool" where
  "overlay_start w name D \<longleftrightarrow> live w name = Some (Dir D) \<and> live w (name @ suffixOrig) = None \<and>
     live w (name @ suffixNew) = None \<and> trash_ok w"

text \<open>What a finished flattening leaves of a unit: the record in copy mode, the rebuilt work directory and
  every other entry as it was, without the temporaries of a promotion.\<close>

definition flattened :: "overlay_env \<Rightarrow> dir \<Rightarrow> entries" where
  "flattened E D = (\<lambda>n. if n = EnvironmentFileName then Some (overlay_mark E D)
     else if n = pretier_work then Some (Dir (work_of E D (Dirs (the_record E D))))
     else if plain n then map_of D n else None)"

lemma final_flattened: "final_map (map_of D) (overlay_built E D) EnvironmentFileName (overlay_mark E D) = flattened E D"
  using env_name_plain by (auto simp: final_map_def flattened_def overlay_built_def fun_eq_iff)

lemma overlay_start_stage: "overlay_start w name D \<Longrightarrow> overlay.stages E name w D w"
  by (simp add: overlay_start_def overlay.stages_def overlay.st_init_def overlay.trio_def overlay.frame_def)

lemma overlay_run_all:
  assumes "overlay_adm E D" and "overlay.stages E name w0 D w"
  shows "overlay.stages E name w0 D (run_all (overlay_promotion E name) schs w)"
  using assms(2)
proof (induction schs arbitrary: w)
  case (Cons sch schs)
  have "overlay.stages E name w0 D (world_of (Run (overlay_promotion E name) (w, sch)))"
    using spec_runD [OF overlay.Run_spec [OF assms(1)] Cons.prems, of sch]
    by (auto simp: overlay.stages_def split: outcome.splits)
  then show ?case using Cons.IH by simp
qed simp

definition is_flattened :: "overlay_env \<Rightarrow> dir \<Rightarrow> node option \<Rightarrow> bool" where
  "is_flattened E D x \<longleftrightarrow> (\<exists>N. x = Some (Dir N) \<and> map_of N = flattened E D)"

lemma overlay_finished: "overlay.finished E D x \<Longrightarrow> is_flattened E D x"
  by (auto simp: overlay.finished_def is_flattened_def final_flattened)

lemma overlay_stages_kept:
  assumes "overlay.stages E name w0 D v"
  shows "live v name = Some (Dir D) \<or> live v (name @ suffixOrig) = Some (Dir D) \<or> is_flattened E D (live v name)"
    and "trash v = trash w0"
    and "n \<notin> {name, name @ suffixOrig, name @ suffixNew} \<Longrightarrow> live v n = live w0 n"
  using assms unfolding overlay.stages_def overlay.stage_defs overlay.trio_def drop_pend_def overlay.frame_def
  by (auto dest: overlay_finished)

lemma overlay_run_finishes:
  assumes "overlay_adm E D" and "overlay.stages E name w0 D w"
  shows "let r = Run (overlay_promotion E name) (w, []) in
    fst r = Ret () \<and> is_flattened E D (live (world_of r) name) \<and>
    live (world_of r) (name @ suffixOrig) = None \<and> live (world_of r) (name @ suffixNew) = None"
proof -
  define r where "r = Run (overlay_promotion E name) (w, [])"
  have "fst r = Ret () \<and> overlay.st_done E name w0 D (world_of r)"
    using spec_runD [OF overlay.Run_spec [OF assms(1)] assms(2), of "[]"]
    by (cases "fst r") (auto simp: r_def)
  then show ?thesis unfolding r_def [symmetric] Let_def
    by (auto simp: overlay.st_done_def overlay.trio_def dest: overlay_finished)
qed

text \<open>C19: Flattening a sandbox that is not running survives every interruption. After any number of
  runs of its promotion, each failing or dying anywhere, the original is whole at its name or under the
  set-aside name, or the finished sandbox is at its name; the trash and every other sandbox are untouched.
  One more run without faults returns and leaves the record in copy mode, the work directory rebuilt
  from the lower layers and every other entry as it was, and no leftover beside it.\<close>

theorem overlay_flatten_is_crash_safe:
  assumes "overlay_adm E D" and "overlay_start w name D"
  shows "let v = run_all (overlay_promotion E name) schs w; r = Run (overlay_promotion E name) (v, []) in
    (live v name = Some (Dir D) \<or> live v (name @ suffixOrig) = Some (Dir D) \<or> is_flattened E D (live v name)) \<and>
    trash v = trash w \<and> (\<forall>n. n \<notin> {name, name @ suffixOrig, name @ suffixNew} \<longrightarrow> live v n = live w n) \<and>
    fst r = Ret () \<and> is_flattened E D (live (world_of r) name) \<and>
    live (world_of r) (name @ suffixOrig) = None \<and> live (world_of r) (name @ suffixNew) = None"
proof -
  have st: "overlay.stages E name w D (run_all (overlay_promotion E name) schs w)"
    by (rule overlay_run_all [OF assms(1) overlay_start_stage [OF assms(2)]])
  show ?thesis
    using overlay_stages_kept [OF st] overlay_run_finishes [OF assms(1) st] unfolding Let_def by blast
qed

text \<open>A stopped sandbox with one overlay directory, whose lower layer has one file.\<close>

definition overlay_record :: Environment where
  "overlay_record = blank_env\<lparr>Version := metaVersion, Dirs := [\<lparr>HostPath = ''/p'', MountPath = ''/merged'', Mode = DirModeOverlay,
     BaselineSHA = ''a1'', InceptionSHA = ''a0'', IncludeIgnored = False, StripHistory = False\<rparr>]\<rparr>"

definition demo_overlay :: overlay_env where
  "demo_overlay = \<lparr>ov_json = \<lparr>probe = (\<lambda>s. Some metaVersion),
       unmarshal = (\<lambda>s. Some (if s = ''overlay'' then overlay_record else copy_mode overlay_record)),
       marshal = (\<lambda>_. ''copy'')\<rparr>,
     encoded = (\<lambda>_. ''^sp''), ov_status = (\<lambda>_. Inr StatusStopped), ov_owner = (\<lambda>_ _. Some 1000), ov_uid = 1000,
     ov_isRoot = False, goos = ''linux''\<rparr>"

definition demo_unit :: dir where
  "demo_unit = [(''environment.json'', File ''overlay''), (''work'', Dir [(''^sp'',
     Dir [(''lower'', Dir [(''f'', File ''1'')]), (''upper'', Dir [(''f'', File ''2'')])])])]"

definition demo_sandboxes :: world where
  "demo_sandboxes = \<lparr>live = [''box'' \<mapsto> Dir demo_unit], scratch = None, trash = None\<rparr>"

lemma demo_overlay_record: "unit_record demo_overlay demo_unit = Some overlay_record"
  by (simp add: unit_record_def demo_unit_def demo_overlay_def decode_env_def entry_names)

lemma demo_names_ok: "names_ok (map_of demo_unit)"
proof -
  have "plain ''environment.json''" "plain ''work''" by code_simp+
  then show ?thesis by (auto simp: names_ok_def demo_unit_def plain_def stray_temp_def not_dir_def)
qed

lemma demo_overlay_adm: "overlay_adm demo_overlay demo_unit"
proof -
  have "distinct (map fst demo_unit)" by (simp add: demo_unit_def)
  moreover have "hasOverlayDir overlay_record" by (simp add: hasOverlayDir_def allDirs_Dirs overlay_record_def)
  moreover have "list_all (\<lambda>d. lower_tree demo_overlay demo_unit d \<noteq> None) (Dirs overlay_record)" by code_simp
  moreover have "distinct (map (\<lambda>d. encoded demo_overlay (HostPath d)) (Dirs overlay_record))"
    by (simp add: overlay_record_def)
  moreover have "decode_env (ov_json demo_overlay) (flat_record demo_overlay overlay_record) =
      Inr ((copy_mode overlay_record)\<lparr>Version := metaVersion\<rparr>)"
    by (simp add: demo_overlay_def decode_env_def flat_record_def overlay_record_def copy_mode_def)
  ultimately show ?thesis using demo_names_ok by (simp add: overlay_adm_def demo_overlay_record)
qed

lemma demo_overlay_start: "overlay_start demo_sandboxes ''box'' demo_unit"
  by (simp add: overlay_start_def demo_sandboxes_def promo_consts trash_ok_def)

theorem overlay_flatten_is_crash_safe_witness:
  "is_flattened demo_overlay demo_unit (live (world_of (Run (overlay_promotion demo_overlay ''box'')
     (run_all (overlay_promotion demo_overlay ''box'') [replicate 9 Succeed @ [Crash None]] demo_sandboxes, []))) ''box'')"
  using overlay_flatten_is_crash_safe [OF demo_overlay_adm demo_overlay_start] unfolding Let_def by blast

section \<open>The names of a re-run\<close>

definition is_overlay :: "overlay_env \<Rightarrow> dir \<Rightarrow> bool" where
  "is_overlay E d = (case unit_record E d of None \<Rightarrow> False | Some env \<Rightarrow> hasOverlayDir env)"

lemma overlay_names_set:
  "overlay_names E es = Inr ns \<Longrightarrow> n \<in> set ns \<longleftrightarrow> (\<exists>d. (n, Dir d) \<in> set es \<and> is_overlay E d)"
proof (induction es arbitrary: ns)
  case (Cons e es)
  obtain k x where e: "e = (k, x)" by (cases e)
  show ?case
  proof (cases "\<exists>d data. x = Dir d \<and> map_of d EnvironmentFileName = Some (File data)")
    case True
    then obtain d data where d: "x = Dir d" "map_of d EnvironmentFileName = Some (File data)" by blast
    obtain env ms where r: "decode_env (ov_json E) data = Inr env" "overlay_names E es = Inr ms"
        "ns = (if hasOverlayDir env then k # ms else ms)"
      using Cons.prems e d by (auto split: sum.splits)
    then have "is_overlay E d = hasOverlayDir env" using d by (simp add: is_overlay_def unit_record_def)
    then show ?thesis using Cons.IH [OF r(2)] r(3) e d(1) by auto
  next
    case False
    then have "overlay_names E es = Inr ns" "\<And>d. x = Dir d \<Longrightarrow> \<not> is_overlay E d"
      using Cons.prems e by (auto simp: is_overlay_def unit_record_def split: node.splits option.splits)
    then show ?thesis using Cons.IH e by auto
  qed
qed simp

lemma overlay_adm_is_overlay: "overlay_adm E D \<Longrightarrow> is_overlay E D"
  by (auto simp: overlay_adm_def is_overlay_def split: option.splits)

lemma overlay_names_of_listing:
  assumes "overlaySandboxNames E es = Inr ns" and "distinct (map fst es)"
  shows "n \<in> set ns \<longleftrightarrow> (\<exists>d. map_of es n = Some (Dir d) \<and> is_overlay E d)"
  using overlay_names_set [OF assms(1) [unfolded overlaySandboxNames_def]] assms(2)
  by (simp add: map_of_eq_Some_iff)

lemma flattenAbandon_runs:
  assumes "overlay_adm E D" and "overlay_start w name D" and "hostUnmanageableEntry E name (Some (Dir D)) = None"
  shows "let r = flattenAbandon E name (w, []) in
    fst r = Ret \<lparr>Migrated = [name], Quarantined = [], Notes = [''overlay changes abandoned'']\<rparr> \<and>
    is_flattened E D (live (world_of r) name) \<and>
    (\<forall>n. n \<notin> {name, name @ suffixOrig, name @ suffixNew} \<longrightarrow> live (world_of r) n = live w n)"
proof -
  let ?r = "Run (overlay_promotion E name) (w, [])"
  have st: "overlay.stages E name w D w" by (rule overlay_start_stage [OF assms(2)])
  have "overlay.stages E name w D (world_of ?r)" using overlay_run_all [OF assms(1) st, of "[[]]"] by simp
  note frame = overlay_stages_kept(3) [OF this]
  note fin = overlay_run_finishes [OF assms(1) st, unfolded Let_def]
  have "live w name = Some (Dir D)" using assms(2) by (simp add: overlay_start_def)
  then have "assertHostOwnedState E name (w, []) = (Ret (), w, [])"
    by (simp add: assertHostOwnedState_def io_bind_def io_get_def io_ret_def assms(3))
  then have eq: "fst (flattenAbandon E name (w, [])) =
        Ret \<lparr>Migrated = [name], Quarantined = [], Notes = [''overlay changes abandoned'']\<rparr>"
      "world_of (flattenAbandon E name (w, [])) = world_of ?r"
    using fin by (cases ?r; simp add: flattenAbandon_def io_seq_def io_bind_def io_ret_def world_of_def)+
  show ?thesis unfolding Let_def eq using fin frame by blast
qed

lemma replayable_overlay: "replayable (buildFromLower E name Scratch)" "replayable (isCopyMode E t)"
  unfolding buildFromLower_def buildWork_def LoadEnvironmentFrom_def isCopyMode_def
  by (auto intro!: replayable_bind replayable_seq replayable_each split: option.split sum.split)

text \<open>C20: An interrupted flattening is taken up under the wrong name. For every acceptable sandbox there is
  a point at which its promotion can die such that the names a re-run collects from the sandboxes
  directory have the set-aside name and not the sandbox's own. A container of that name never existed, so
  it counts as removed; once abandoning is authorized, flattening it succeeds, drops the overlay changes
  and leaves the sandbox under the set-aside name, with nothing at its own.\<close>

theorem interrupted_flatten_is_taken_up_as_another_sandbox:
  assumes "overlay_adm E D" and "overlay_start w name D"
    and "live w (name @ suffixOrig @ suffixOrig) = None" and "live w (name @ suffixOrig @ suffixNew) = None"
    and "hostUnmanageableEntry E (name @ suffixOrig) (Some (Dir D)) = None" and "AbandonStoppedOverlay d"
  shows "\<exists>sch. let v = world_of (Run (overlay_promotion E name) (w, sch));
      r = flattenOne E fr (name @ suffixOrig) StatusRemoved d (v, []) in
    fst (Run (overlay_promotion E name) (w, sch)) = Dead \<and>
    (\<forall>es ns. distinct (map fst es) \<longrightarrow> map_of es = live v \<longrightarrow> overlaySandboxNames E es = Inr ns \<longrightarrow>
       name @ suffixOrig \<in> set ns \<and> name \<notin> set ns) \<and>
    fst r = Ret \<lparr>Migrated = [name @ suffixOrig], Quarantined = [], Notes = [''overlay changes abandoned'']\<rparr> \<and>
    is_flattened E D (live (world_of r) (name @ suffixOrig)) \<and> live (world_of r) name = None"
proof -
  have init: "overlay.st_init E name w D w"
    using assms(2) by (simp add: overlay_start_def overlay.st_init_def overlay.trio_def overlay.frame_def)
  have "\<exists>sch. fst (Run (overlay_promotion E name) (w, sch)) = Dead \<and>
      overlay.st_orig E name w D (world_of (Run (overlay_promotion E name) (w, sch)))"
    by (rule overlay.Run_dies_set_aside [OF assms(1) init]) (simp_all add: replayable_overlay)
  then obtain sch where sch: "fst (Run (overlay_promotion E name) (w, sch)) = Dead"
      "overlay.st_orig E name w D (world_of (Run (overlay_promotion E name) (w, sch)))"
    by blast
  define v where "v = world_of (Run (overlay_promotion E name) (w, sch))"
  have v: "live v name = None" "live v (name @ suffixOrig) = Some (Dir D)" "trash v = trash w" "trash_ok w"
    "live v (name @ suffixOrig @ suffixOrig) = None" "live v (name @ suffixOrig @ suffixNew) = None"
    using sch(2) assms(3,4) by (auto simp: v_def overlay.st_orig_def overlay.trio_def overlay.frame_def promo_consts)
  then have start: "overlay_start v (name @ suffixOrig) D"
    by (simp add: overlay_start_def trash_ok_def)
  have names: "name @ suffixOrig \<in> set ns \<and> name \<notin> set ns"
    if "distinct (map fst es)" "map_of es = live v" "overlaySandboxNames E es = Inr ns" for es ns
    unfolding overlay_names_of_listing [OF that(3,1)] that(2)
    using v(1,2) overlay_adm_is_overlay [OF assms(1)] by simp
  have one: "flattenOne E fr (name @ suffixOrig) StatusRemoved d = flattenAbandon E (name @ suffixOrig)"
    using assms(6) by (simp add: flattenOne_def)
  have "name \<notin> {name @ suffixOrig, (name @ suffixOrig) @ suffixOrig, (name @ suffixOrig) @ suffixNew}"
    by (simp add: promo_consts)
  then show ?thesis
    using flattenAbandon_runs [OF assms(1) start assms(5)] sch(1) v(1) names
    by (intro exI [of _ sch]) (simp add: Let_def one v_def [symmetric])
qed

theorem interrupted_flatten_is_taken_up_as_another_sandbox_witness:
  "\<exists>sch. fst (Run (overlay_promotion demo_overlay ''box'') (demo_sandboxes, sch)) = Dead"
proof -
  have "live demo_sandboxes (''box'' @ suffixOrig @ suffixOrig) = None"
      "live demo_sandboxes (''box'' @ suffixOrig @ suffixNew) = None"
    by (simp_all add: demo_sandboxes_def promo_consts)
  moreover have "hostUnmanageableEntry demo_overlay (''box'' @ suffixOrig) (Some (Dir demo_unit)) = None" by code_simp
  moreover have "AbandonStoppedOverlay \<lparr>Yes = True, AbandonStoppedOverlay = True\<rparr>" by simp
  ultimately show ?thesis
    using interrupted_flatten_is_taken_up_as_another_sandbox [OF demo_overlay_adm demo_overlay_start]
    unfolding Let_def by blast
qed

end
