(* ===== verification/Effects.thy ===== *)
theory Effects
  imports Prelude
begin

text \<open>
  Sequential programs with an error result over an explicit state.

  A Go method that calls a backend, reads and writes files and returns \<open>(T, error)\<close> is a function
  from a state to a result and a new state. The state survives an error, so that what a failed
  operation leaves behind can be spoken about; this is where the Go idioms \<open>defer\<close>, the rollback on
  a non-nil named error and the discarded error \<open>_ = f()\<close> have their meaning. The second half is the
  logic the components use: triples with one postcondition for success and one for failure, the
  preservation of a state predicate, and the relation between two runs.
\<close>

named_theorems prog_triple \<open>rules for triples\<close>
named_theorems prog_keeps \<open>rules for the preservation of a state predicate\<close>
named_theorems prog_rel \<open>rules for the relation between two runs\<close>

section \<open>Errors\<close>

text \<open>
  A Go error is a message and what \<open>errors.Is\<close> or \<open>errors.As\<close> finds in its chain; \<open>ErrExec\<close> is the
  \<open>runtime.ExecError\<close> of a command that exited, with its exit code and standard error. Wrapping with
  the verb \<open>%w\<close> keeps the kind and extends the message.
\<close>

datatype err_kind = ErrOther | ErrNotFound | ErrNotRunning | ErrInjectorUnsupported | ErrNotExist
  | ErrUsage | ErrPlatform | ErrAuth | ErrSandboxNotFound | ErrExec int string | ErrConflict | Panic

datatype gerror = GErr (kind_of: err_kind) (message_of: string)

fun wrap :: "string \<Rightarrow> gerror \<Rightarrow> gerror" where
  "wrap p (GErr k m) = GErr k (p @ '': '' @ m)"

fun after_err :: "gerror \<Rightarrow> string \<Rightarrow> gerror" where
  "after_err (GErr k m) t = GErr k (m @ t)"

lemma kind_of_wrap [simp]: "kind_of (wrap p e) = kind_of e"
  by (cases e) simp

lemma kind_of_after_err [simp]: "kind_of (after_err e t) = kind_of e"
  by (cases e) simp

definition errorf :: "string \<Rightarrow> gerror" where
  "errorf m = GErr ErrOther m"

definition usage_error :: "string \<Rightarrow> gerror" where
  "usage_error m = GErr ErrUsage m"

fun res_ctx :: "string \<Rightarrow> (gerror, 'a) result \<Rightarrow> (gerror, 'a) result" where
  "res_ctx p (Inl e) = Inl (wrap p e)"
| "res_ctx p (Inr a) = Inr a"

lemma res_ctx_Inr [simp]: "res_ctx p r = Inr a \<longleftrightarrow> r = Inr a"
  by (cases r) auto

lemma is_ok_res_ctx [simp]: "is_ok (res_ctx p r) = is_ok r"
  by (cases r) auto

section \<open>Programs\<close>

type_synonym ('s, 'a) prog = "'s \<Rightarrow> (gerror, 'a) result \<times> 's"

definition p_ret :: "'a \<Rightarrow> ('s, 'a) prog" where
  "p_ret a = (\<lambda>s. (Inr a, s))"

definition p_fail :: "gerror \<Rightarrow> ('s, 'a) prog" where
  "p_fail e = (\<lambda>s. (Inl e, s))"

definition p_bind :: "('s, 'a) prog \<Rightarrow> ('a \<Rightarrow> ('s, 'b) prog) \<Rightarrow> ('s, 'b) prog" where
  "p_bind m f = (\<lambda>s. case m s of (Inl e, s') \<Rightarrow> (Inl e, s') | (Inr a, s') \<Rightarrow> f a s')"

definition p_seq :: "('s, 'a) prog \<Rightarrow> ('s, 'b) prog \<Rightarrow> ('s, 'b) prog" where
  "p_seq m n = p_bind m (\<lambda>_. n)"

definition p_lift :: "(gerror, 'a) result \<Rightarrow> ('s, 'a) prog" where
  "p_lift r = (\<lambda>s. (r, s))"

definition p_get :: "('s, 's) prog" where
  "p_get = (\<lambda>s. (Inr s, s))"

text \<open>\<open>err := f()\<close> with the error inspected by what follows.\<close>

definition p_try :: "('s, 'a) prog \<Rightarrow> ('s, (gerror, 'a) result) prog" where
  "p_try m = (\<lambda>s. case m s of (r, s') \<Rightarrow> (Inr r, s'))"

text \<open>\<open>_ = f()\<close>\<close>

definition p_ignore :: "('s, 'a) prog \<Rightarrow> ('s, unit) prog" where
  "p_ignore m = (\<lambda>s. (Inr (), snd (m s)))"

text \<open>\<open>fmt.Errorf("p: %w", err)\<close>\<close>

definition p_ctx :: "string \<Rightarrow> ('s, 'a) prog \<Rightarrow> ('s, 'a) prog" where
  "p_ctx p m = (\<lambda>s. case m s of (r, s') \<Rightarrow> (res_ctx p r, s'))"

text \<open>A \<open>defer\<close> that always runs, and one that runs when the named error is not nil.\<close>

definition p_finally :: "('s, 'a) prog \<Rightarrow> ('s, unit) prog \<Rightarrow> ('s, 'a) prog" where
  "p_finally m d = (\<lambda>s. case m s of (r, s') \<Rightarrow> (r, snd (d s')))"

definition p_onerr :: "('s, 'a) prog \<Rightarrow> ('s, unit) prog \<Rightarrow> ('s, 'a) prog" where
  "p_onerr m d = (\<lambda>s. case m s of (Inl e, s') \<Rightarrow> (Inl e, snd (d s')) | (Inr a, s') \<Rightarrow> (Inr a, s'))"

definition p_when :: "bool \<Rightarrow> ('s, unit) prog \<Rightarrow> ('s, unit) prog" where
  "p_when b m = (if b then m else p_ret ())"

text \<open>\<open>for _, x := range xs\<close> with a body that may return early with an error.\<close>

fun p_each :: "('x \<Rightarrow> ('s, unit) prog) \<Rightarrow> 'x list \<Rightarrow> ('s, unit) prog" where
  "p_each f [] = p_ret ()"
| "p_each f (x # xs) = p_seq (f x) (p_each f xs)"

lemma p_bind_ret [simp]: "p_bind (p_ret a) f = f a"
  by (simp add: p_bind_def p_ret_def)

lemma p_bind_fail [simp]: "p_bind (p_fail e) f = p_fail e"
  by (simp add: p_bind_def p_fail_def)

lemma p_bind_assoc: "p_bind (p_bind m f) g = p_bind m (\<lambda>a. p_bind (f a) g)"
  by (rule ext) (auto simp: p_bind_def split: prod.splits sum.splits)

lemma p_lift_simps [simp]: "p_lift (Inr a) = p_ret a" "p_lift (Inl e) = p_fail e"
  by (simp_all add: p_lift_def p_ret_def p_fail_def)

lemma p_ctx_simps [simp]: "p_ctx p (p_ret a) = p_ret a" "p_ctx p (p_fail e) = p_fail (wrap p e)"
  by (simp_all add: p_ctx_def p_ret_def p_fail_def)

lemma p_when_simps [simp]: "p_when True m = m" "p_when False m = p_ret ()"
  by (simp_all add: p_when_def)

section \<open>Triples\<close>

definition triple :: "('s \<Rightarrow> bool) \<Rightarrow> ('s, 'a) prog \<Rightarrow> ('a \<Rightarrow> 's \<Rightarrow> bool) \<Rightarrow> (gerror \<Rightarrow> 's \<Rightarrow> bool) \<Rightarrow> bool" where
  "triple P m Q X \<longleftrightarrow>
     (\<forall>s. P s \<longrightarrow> (case m s of (Inr a, s') \<Rightarrow> Q a s' | (Inl e, s') \<Rightarrow> X e s'))"

lemma triple_ok: "triple P m Q X \<Longrightarrow> P s \<Longrightarrow> m s = (Inr a, s') \<Longrightarrow> Q a s'"
  unfolding triple_def by (drule spec [of _ s]) simp

lemma triple_err: "triple P m Q X \<Longrightarrow> P s \<Longrightarrow> m s = (Inl e, s') \<Longrightarrow> X e s'"
  unfolding triple_def by (drule spec [of _ s]) simp

lemma tripleI:
  assumes "\<And>s a s'. P s \<Longrightarrow> m s = (Inr a, s') \<Longrightarrow> Q a s'"
    and "\<And>s e s'. P s \<Longrightarrow> m s = (Inl e, s') \<Longrightarrow> X e s'"
  shows "triple P m Q X"
  unfolding triple_def using assms by (auto split: prod.splits sum.splits)

lemma triple_conseq:
  assumes t: "triple P m Q X" and "\<And>s. P' s \<Longrightarrow> P s"
    and "\<And>a s. Q a s \<Longrightarrow> Q' a s" and "\<And>e s. X e s \<Longrightarrow> X' e s"
  shows "triple P' m Q' X'"
  by (rule tripleI) (use assms in \<open>blast dest: triple_ok triple_err\<close>)+

lemma triple_same: "triple P m (\<lambda>_. R) (\<lambda>_. R) \<longleftrightarrow> (\<forall>s. P s \<longrightarrow> R (snd (m s)))"
proof -
  have "(case m s of (Inr a, s') \<Rightarrow> R s' | (Inl e, s') \<Rightarrow> R s') \<longleftrightarrow> R (snd (m s))" for s
    by (cases "m s"; cases "fst (m s)") simp_all
  then show ?thesis by (simp add: triple_def)
qed

lemma triple_ret [prog_triple]: "(\<And>s. P s \<Longrightarrow> Q a s) \<Longrightarrow> triple P (p_ret a) Q X"
  by (rule tripleI) (auto simp: p_ret_def)

lemma triple_fail [prog_triple]: "(\<And>s. P s \<Longrightarrow> X e s) \<Longrightarrow> triple P (p_fail e) Q X"
  by (rule tripleI) (auto simp: p_fail_def)

lemma triple_lift [prog_triple]:
  assumes "\<And>a s. r = Inr a \<Longrightarrow> P s \<Longrightarrow> Q a s" and "\<And>e s. r = Inl e \<Longrightarrow> P s \<Longrightarrow> X e s"
  shows "triple P (p_lift r) Q X"
  by (cases r) (auto intro!: prog_triple assms)

lemma triple_bind:
  assumes m: "triple P m R X" and f: "\<And>a. triple (R a) (f a) Q X"
  shows "triple P (p_bind m f) Q X"
proof (rule tripleI)
  fix s a s' assume s: "P s" and r: "p_bind m f s = (Inr a, s')"
  then obtain b t where b: "m s = (Inr b, t)" "f b t = (Inr a, s')"
    by (auto simp: p_bind_def split: prod.splits sum.splits)
  show "Q a s'" by (rule triple_ok [OF f triple_ok [OF m s b(1)] b(2)])
next
  fix s e s' assume s: "P s" and r: "p_bind m f s = (Inl e, s')"
  then consider "m s = (Inl e, s')" | b t where "m s = (Inr b, t)" "f b t = (Inl e, s')"
    by (auto simp: p_bind_def split: prod.splits sum.splits)
  then show "X e s'"
  proof cases
    case 1
    show ?thesis by (rule triple_err [OF m s 1])
  next
    case 2
    show ?thesis by (rule triple_err [OF f triple_ok [OF m s 2(1)] 2(2)])
  qed
qed

lemma triple_seq:
  "triple P m (\<lambda>_. R) X \<Longrightarrow> triple R n Q X \<Longrightarrow> triple P (p_seq m n) Q X"
  unfolding p_seq_def by (rule triple_bind)

lemma triple_try:
  "triple P m (\<lambda>a. Q (Inr a)) (\<lambda>e. Q (Inl e)) \<Longrightarrow> triple P (p_try m) Q X"
proof (rule tripleI)
  fix s r s' assume t: "triple P m (\<lambda>a. Q (Inr a)) (\<lambda>e. Q (Inl e))" "P s" and "p_try m s = (Inr r, s')"
  then have "m s = (r, s')" by (auto simp: p_try_def split: prod.splits)
  with t show "Q r s'" by (cases r) (auto dest: triple_ok triple_err)
qed (auto simp: p_try_def split: prod.splits)

lemma triple_ignore: "triple P m (\<lambda>_. R) (\<lambda>_. R) \<Longrightarrow> triple P (p_ignore m) (\<lambda>_. R) X"
  by (rule tripleI) (auto simp: triple_same p_ignore_def)

lemma triple_ctx: "triple P m Q (\<lambda>e. X (wrap p e)) \<Longrightarrow> triple P (p_ctx p m) Q X"
proof (rule tripleI)
  fix s a s' assume "triple P m Q (\<lambda>e. X (wrap p e))" "P s" "p_ctx p m s = (Inr a, s')"
  then show "Q a s'" by (auto simp: p_ctx_def split: prod.splits dest: triple_ok)
next
  fix s e s' assume t: "triple P m Q (\<lambda>e. X (wrap p e))" "P s" and "p_ctx p m s = (Inl e, s')"
  then obtain e' where "m s = (Inl e', s')" "e = wrap p e'"
    by (auto simp: p_ctx_def split: prod.splits elim: res_ctx.elims)
  with t show "X e s'" by (auto dest: triple_err)
qed

lemma triple_onerr:
  assumes m: "triple P m Q Y" and d: "\<And>e. triple (Y e) d (\<lambda>_. X e) (\<lambda>_. X e)"
  shows "triple P (p_onerr m d) Q X"
proof (rule tripleI)
  fix s a s' assume "P s" "p_onerr m d s = (Inr a, s')"
  with m show "Q a s'" by (auto simp: p_onerr_def split: prod.splits sum.splits dest: triple_ok)
next
  fix s e s' assume s: "P s" and r: "p_onerr m d s = (Inl e, s')"
  then obtain t where t: "m s = (Inl e, t)" and s': "s' = snd (d t)"
    by (auto simp: p_onerr_def split: prod.splits sum.splits)
  have "Y e t" by (rule triple_err [OF m s t])
  then show "X e s'" using d [of e] s' by (simp add: triple_same)
qed

lemma triple_finally:
  assumes m: "triple P m Q Y"
    and ok: "\<And>a. triple (Q a) d (\<lambda>_. R a) (\<lambda>_. R a)" and er: "\<And>e. triple (Y e) d (\<lambda>_. X e) (\<lambda>_. X e)"
  shows "triple P (p_finally m d) R X"
proof (rule tripleI)
  fix s a s' assume s: "P s" and r: "p_finally m d s = (Inr a, s')"
  then obtain t where t: "m s = (Inr a, t)" and s': "s' = snd (d t)"
    by (auto simp: p_finally_def split: prod.splits sum.splits)
  have "Q a t" by (rule triple_ok [OF m s t])
  then show "R a s'" using ok [of a] s' by (simp add: triple_same)
next
  fix s e s' assume s: "P s" and r: "p_finally m d s = (Inl e, s')"
  then obtain t where t: "m s = (Inl e, t)" and s': "s' = snd (d t)"
    by (auto simp: p_finally_def split: prod.splits sum.splits)
  have "Y e t" by (rule triple_err [OF m s t])
  then show "X e s'" using er [of e] s' by (simp add: triple_same)
qed

section \<open>Preservation\<close>

definition pkeeps :: "('s \<Rightarrow> bool) \<Rightarrow> ('s, 'a) prog \<Rightarrow> bool" where
  "pkeeps I m \<longleftrightarrow> (\<forall>s. I s \<longrightarrow> I (snd (m s)))"

lemma pkeepsD: "pkeeps I m \<Longrightarrow> I s \<Longrightarrow> I (snd (m s))"
  by (simp add: pkeeps_def)

lemma pkeeps_triple: "pkeeps I m \<longleftrightarrow> triple I m (\<lambda>_. I) (\<lambda>_. I)"
  by (simp add: pkeeps_def triple_same)

lemma pkeeps_basic [prog_keeps]:
  "pkeeps I (p_ret a)" "pkeeps I (p_fail e)" "pkeeps I (p_lift r)" "pkeeps I p_get"
  by (simp_all add: pkeeps_def p_ret_def p_fail_def p_lift_def p_get_def)

lemma pkeeps_bind [prog_keeps]:
  "pkeeps I m \<Longrightarrow> (\<And>a. pkeeps I (f a)) \<Longrightarrow> pkeeps I (p_bind m f)"
  unfolding pkeeps_triple by (rule triple_bind)

lemma pkeeps_seq [prog_keeps]: "pkeeps I m \<Longrightarrow> pkeeps I n \<Longrightarrow> pkeeps I (p_seq m n)"
  unfolding pkeeps_triple by (rule triple_seq)

lemma pkeeps_wrappers [prog_keeps]:
  "pkeeps I m \<Longrightarrow> pkeeps I (p_try m)" "pkeeps I m \<Longrightarrow> pkeeps I (p_ignore m)"
  "pkeeps I m \<Longrightarrow> pkeeps I (p_ctx p m)" "pkeeps I n \<Longrightarrow> pkeeps I (p_when b n)"
  by (auto simp: pkeeps_def p_try_def p_ignore_def p_ctx_def p_when_def p_ret_def split: prod.splits)

lemma pkeeps_defer [prog_keeps]:
  "pkeeps I m \<Longrightarrow> pkeeps I d \<Longrightarrow> pkeeps I (p_finally m d)"
  "pkeeps I m \<Longrightarrow> pkeeps I d \<Longrightarrow> pkeeps I (p_onerr m d)"
  by (auto simp: pkeeps_def p_finally_def p_onerr_def split: prod.splits sum.splits)

lemma pkeeps_each [prog_keeps]: "(\<And>x. x \<in> set xs \<Longrightarrow> pkeeps I (f x)) \<Longrightarrow> pkeeps I (p_each f xs)"
  by (induction xs) (auto intro!: prog_keeps)

section \<open>Two runs\<close>

text \<open>
  Two programs are related when runs from related states end in related states with the same
  result. A program related to itself does not observe what the relation hides.
\<close>

definition related :: "('s \<Rightarrow> 's \<Rightarrow> bool) \<Rightarrow> ('s, 'a) prog \<Rightarrow> ('s, 'a) prog \<Rightarrow> bool" where
  "related R m n \<longleftrightarrow> (\<forall>s t. R s t \<longrightarrow> fst (m s) = fst (n t) \<and> R (snd (m s)) (snd (n t)))"

lemma relatedD:
  "related R m n \<Longrightarrow> R s t \<Longrightarrow> fst (m s) = fst (n t)"
  "related R m n \<Longrightarrow> R s t \<Longrightarrow> R (snd (m s)) (snd (n t))"
  by (auto simp: related_def)

lemma related_basic [prog_rel]:
  "related R (p_ret a) (p_ret a)" "related R (p_fail e) (p_fail e)" "related R (p_lift r) (p_lift r)"
  by (simp_all add: related_def p_ret_def p_fail_def p_lift_def)

lemma related_bind [prog_rel]:
  assumes m: "related R m m'" and f: "\<And>a. related R (f a) (f' a)"
  shows "related R (p_bind m f) (p_bind m' f')"
  unfolding related_def
proof (intro allI impI)
  fix s t assume R: "R s t"
  obtain r u where u: "m s = (r, u)" by force
  obtain r' v where v: "m' t = (r', v)" by force
  from relatedD [OF m R] u v have rr: "r' = r" and uv: "R u v" by simp_all
  show "fst (p_bind m f s) = fst (p_bind m' f' t) \<and> R (snd (p_bind m f s)) (snd (p_bind m' f' t))"
  proof (cases r)
    case (Inl e)
    then show ?thesis using u v rr uv by (simp add: p_bind_def)
  next
    case (Inr a)
    then show ?thesis using u v rr relatedD [OF f uv, of a] by (simp add: p_bind_def)
  qed
qed

lemma related_seq [prog_rel]: "related R m m' \<Longrightarrow> related R n n' \<Longrightarrow> related R (p_seq m n) (p_seq m' n')"
  unfolding p_seq_def by (rule related_bind)

lemma related_wrappers [prog_rel]:
  "related R m m' \<Longrightarrow> related R (p_try m) (p_try m')"
  "related R m m' \<Longrightarrow> related R (p_ignore m) (p_ignore m')"
  "related R m m' \<Longrightarrow> related R (p_ctx p m) (p_ctx p m')"
  "related R n n' \<Longrightarrow> related R (p_when b n) (p_when b n')"
  by (auto simp: related_def p_try_def p_ignore_def p_ctx_def p_when_def p_ret_def split: prod.splits)
    (metis fst_conv snd_conv)+

lemma related_finally [prog_rel]:
  assumes m: "related R m m'" and d: "related R d d'"
  shows "related R (p_finally m d) (p_finally m' d')"
  unfolding related_def
proof (intro allI impI)
  fix s t assume R: "R s t"
  obtain r u where u: "m s = (r, u)" by force
  obtain r' v where v: "m' t = (r', v)" by force
  from relatedD [OF m R] u v have rr: "r' = r" and uv: "R u v" by simp_all
  then show "fst (p_finally m d s) = fst (p_finally m' d' t) \<and> R (snd (p_finally m d s)) (snd (p_finally m' d' t))"
    using u v relatedD [OF d uv] by (simp add: p_finally_def)
qed

lemma related_onerr [prog_rel]:
  assumes m: "related R m m'" and d: "related R d d'"
  shows "related R (p_onerr m d) (p_onerr m' d')"
  unfolding related_def
proof (intro allI impI)
  fix s t assume R: "R s t"
  obtain r u where u: "m s = (r, u)" by force
  obtain r' v where v: "m' t = (r', v)" by force
  from relatedD [OF m R] u v have rr: "r' = r" and uv: "R u v" by simp_all
  then show "fst (p_onerr m d s) = fst (p_onerr m' d' t) \<and> R (snd (p_onerr m d s)) (snd (p_onerr m' d' t))"
    using u v relatedD [OF d uv] by (cases r) (simp_all add: p_onerr_def)
qed

lemma related_each [prog_rel]:
  "(\<And>x. x \<in> set xs \<Longrightarrow> related R (f x) (g x)) \<Longrightarrow> related R (p_each f xs) (p_each g xs)"
  by (induction xs) (auto intro!: prog_rel)

end
