(* ===== verification/BackendSelect.thy ===== *)
theory BackendSelect
  imports Names HostEnv Effects
begin

text \<open>
  Backend selection: isolation modes and what they need of the host (\<open>runtime/isolation.go\<close>,
  \<open>runtime/isomode.go\<close>), the registry of backends (\<open>runtime/registry.go\<close>), probing and routing
  (\<open>runtime/probe.go\<close>), the container-system aliases (\<open>runtime/container_system.go\<close>) and the
  ownership test of the orphan sweep (\<open>runtime/orphan.go\<close>). Probing a backend asks the host; its
  answer is the field \<open>probe\<close> of a registry entry.
\<close>

section \<open>Names\<close>

definition IsolationModeDefault :: string where "IsolationModeDefault = []"
definition IsolationModeContainer :: string where "IsolationModeContainer = ''container''"
definition IsolationModeContainerEnhanced :: string where "IsolationModeContainerEnhanced = ''container-enhanced''"
definition IsolationModeContainerPrivileged :: string where "IsolationModeContainerPrivileged = ''container-privileged''"
definition IsolationModeVM :: string where "IsolationModeVM = ''vm''"
definition IsolationModeVMEnhanced :: string where "IsolationModeVMEnhanced = ''vm-enhanced''"
definition IsolationModeProcess :: string where "IsolationModeProcess = ''process''"

lemmas isolation_modes = IsolationModeDefault_def IsolationModeContainer_def
  IsolationModeContainerEnhanced_def IsolationModeContainerPrivileged_def IsolationModeVM_def
  IsolationModeVMEnhanced_def IsolationModeProcess_def

definition BackendDocker :: string where "BackendDocker = ''docker''"
definition BackendPodman :: string where "BackendPodman = ''podman''"
definition BackendTart :: string where "BackendTart = ''tart''"
definition BackendSeatbelt :: string where "BackendSeatbelt = ''seatbelt''"
definition BackendContainerd :: string where "BackendContainerd = ''containerd''"
definition BackendApple :: string where "BackendApple = ''apple''"

lemmas backend_names = BackendDocker_def BackendPodman_def BackendTart_def BackendSeatbelt_def
  BackendContainerd_def BackendApple_def

section \<open>Isolation modes\<close>

definition IsolationContainerRuntime :: "string \<Rightarrow> string" where
  "IsolationContainerRuntime isolation =
     (if isolation = IsolationModeContainerEnhanced then ''runsc''
      else if isolation = IsolationModeVM then ''io.containerd.kata.v2''
      else if isolation = IsolationModeVMEnhanced then ''io.containerd.kata-fc.v2''
      else [])"

definition IsolationSnapshotter :: "string \<Rightarrow> string" where
  "IsolationSnapshotter isolation = (if isolation = IsolationModeVMEnhanced then ''devmapper'' else [])"

definition IsolationEnforcesInSandboxIptables :: "string \<Rightarrow> bool" where
  "IsolationEnforcesInSandboxIptables isolation \<longleftrightarrow> isolation \<noteq> IsolationModeContainerEnhanced"

definition SupportsAgentFreeLaunch :: "string \<Rightarrow> bool" where
  "SupportsAgentFreeLaunch isolation \<longleftrightarrow> isolation \<noteq> IsolationModeContainerEnhanced"

definition appleMinMacOS :: int where "appleMinMacOS = 26"

definition mac_menu :: string where
  "mac_menu = ''  container   macOS sandbox-exec (seatbelt)'' @ [CHR 10] @ ''  vm          Full macOS VM (Tart)''"

definition macAlternatives :: string where
  "macAlternatives = ''Available isolation modes with --os mac:'' @ [CHR 10] @ mac_menu"

definition macVMFallbacks :: string where
  "macVMFallbacks =
     ''Use a Linux host for VM isolation, or use --os mac for macOS-native sandboxing:'' @ [CHR 10] @ mac_menu"

text \<open>The verb \<open>%d\<close>, and the UTF-8 bytes of a dash in a message.\<close>

definition show_int :: "int \<Rightarrow> string" where
  "show_int i = (if i < 0 then ''-'' @ Itoa (nat (- i)) else Itoa (nat i))"

definition em_dash :: string where
  "em_dash = [CHR 0xE2, CHR 0x80, CHR 0x94]"

definition appleVMAvailability :: "int \<Rightarrow> bool \<Rightarrow> bool \<times> string \<times> string" where
  "appleVMAvailability hostMacOSMajor containerInstalled =
     (if 0 < hostMacOSMajor \<and> hostMacOSMajor < appleMinMacOS then
        (False,
         ''--isolation vm on macOS needs Apple `container`, which requires macOS '' @ show_int appleMinMacOS
           @ '' or newer on Apple Silicon (this Mac runs macOS '' @ show_int hostMacOSMajor @ '').'',
         ''Upgrade to macOS '' @ show_int appleMinMacOS
           @ ''+ (Apple Silicon), use a Linux host, or use --os mac for macOS-native sandboxing:'' @ [CHR 10] @ mac_menu)
      else if containerInstalled then (True, [], [])
      else
        (False,
         ''--isolation vm on macOS needs Apple `container`, which isn'' @ [CHR 39] @ ''t installed.'',
         ''Install it from https://github.com/apple/container, then re-run '' @ em_dash
           @ '' or use a Linux host, or --os mac for macOS-native sandboxing:'' @ [CHR 10] @ mac_menu))"

definition IsolationAvailability :: "string \<Rightarrow> string \<Rightarrow> string \<Rightarrow> int \<Rightarrow> bool \<Rightarrow> bool \<times> string \<times> string" where
  "IsolationAvailability isolation targetOS hostOS hostMacOSMajor containerInstalled =
     (if hostOS = ''darwin'' \<and> targetOS \<noteq> ''mac'' \<and> isolation = IsolationModeVM then
        appleVMAvailability hostMacOSMajor containerInstalled
      else if hostOS = ''darwin'' \<and> targetOS \<noteq> ''mac'' \<and> isolation = IsolationModeVMEnhanced then
        (False, ''--isolation vm-enhanced requires containerd, which is not available on macOS.'', macVMFallbacks)
      else if targetOS = ''mac'' \<and> (isolation = IsolationModeContainerEnhanced \<or> isolation = IsolationModeVMEnhanced) then
        (False, ''--isolation '' @ isolation @ '' is not available with --os mac.'', macAlternatives)
      else if hostOS = ''darwin'' \<and> isolation = IsolationModeContainerEnhanced then
        (False, ''--isolation container-enhanced (gVisor) is not supported on macOS.'',
         ''gVisor requires a Linux host. The macOS Docker VMs can'' @ [CHR 39] @ ''t run runsc without'' @ [CHR 10]
           @ ''manual, unsupported setup. Use a Linux host for gVisor isolation, or on macOS:'' @ [CHR 10]
           @ ''  container             container sandbox (runc)'' @ [CHR 10]
           @ ''  container-privileged  privileged container (docker-in-docker, etc.)'')
      else if isolation = IsolationModeContainerPrivileged \<and> targetOS = ''mac'' then
        (False, ''--isolation '' @ isolation @ '' is not available with --os mac.'', macAlternatives)
      else (True, [], []))"

section \<open>The registry and probing\<close>

datatype ProbeStatus = ProbeAbsent | ProbeInstalled | ProbeRunning

fun ProbeStatus_String :: "ProbeStatus \<Rightarrow> string" where
  "ProbeStatus_String ProbeRunning = ''running''"
| "ProbeStatus_String ProbeInstalled = ''installed''"
| "ProbeStatus_String ProbeAbsent = ''absent''"

record registered =
  reg_type :: string
  BaseModeName :: string
  probe_host :: "((string \<rightharpoonup> string) \<Rightarrow> ProbeStatus \<times> string) option"

text \<open>The registry maps a backend type to its entry; a second registration is a programming error.\<close>

type_synonym registry = "registered list"

definition Register :: "registry \<Rightarrow> registered \<Rightarrow> (string, registry) result" where
  "Register R e = (if reg_type e \<in> reg_type ` set R
     then Inl (''runtime backend '' @ reg_type e @ '' registered twice'') else Inr (e # R))"

definition IsAvailable :: "registry \<Rightarrow> string \<Rightarrow> bool" where
  "IsAvailable R name \<longleftrightarrow> find (\<lambda>e. reg_type e = name) R \<noteq> None"

definition Descriptors :: "registry \<Rightarrow> registered list" where
  "Descriptors R = sort_key reg_type R"

definition Available :: "registry \<Rightarrow> string list" where
  "Available R = sort (map reg_type R)"

definition Probe :: "registry \<Rightarrow> string \<Rightarrow> (string \<rightharpoonup> string) \<Rightarrow> ProbeStatus \<times> string" where
  "Probe R name env = (case find (\<lambda>e. reg_type e = name) R of
     None \<Rightarrow> (ProbeAbsent, ''backend '' @ name @ '' is not available on this platform'')
   | Some e \<Rightarrow> (case probe_host e of None \<Rightarrow> (ProbeRunning, []) | Some p \<Rightarrow> p env))"

definition Installed :: "registry \<Rightarrow> string \<Rightarrow> (string \<rightharpoonup> string) \<Rightarrow> bool" where
  "Installed R name env \<longleftrightarrow> fst (Probe R name env) \<noteq> ProbeAbsent"

definition Running :: "registry \<Rightarrow> string \<Rightarrow> (string \<rightharpoonup> string) \<Rightarrow> bool" where
  "Running R name env \<longleftrightarrow> fst (Probe R name env) = ProbeRunning"

section \<open>Routing\<close>

definition containerBackends :: "registry \<Rightarrow> string list" where
  "containerBackends R = map reg_type (filter (\<lambda>d. BaseModeName d = IsolationModeContainer) (Descriptors R))"

definition orderCandidates :: "string list \<Rightarrow> string \<Rightarrow> string list" where
  "orderCandidates candidates preferred =
     (if preferred = [] \<or> preferred \<notin> set candidates then candidates
      else preferred # filter (\<lambda>c. c \<noteq> preferred) candidates)"

definition SelectContainerBackend :: "registry \<Rightarrow> string \<Rightarrow> (string \<rightharpoonup> string) \<Rightarrow> string \<times> string" where
  "SelectContainerBackend R preferred env =
     (let candidates = containerBackends R; ordered = orderCandidates candidates preferred
      in if candidates = [] then (if preferred \<noteq> [] then preferred else BackendDocker, [])
         else case find (\<lambda>name. Installed R name env) ordered of
           Some name \<Rightarrow> (name, if preferred \<noteq> [] \<and> name \<noteq> preferred
             then ''Warning: container_backend='' @ preferred @ '' not available; falling back to '' @ name else [])
         | None \<Rightarrow> (if preferred \<noteq> [] \<and> preferred \<in> set candidates then (preferred, []) else (hd ordered, [])))"

definition darwinPrefersApple :: "registry \<Rightarrow> string \<Rightarrow> string \<Rightarrow> (string \<rightharpoonup> string) \<Rightarrow> bool" where
  "darwinPrefersApple R preferred isolation env =
     (if \<not> Installed R BackendApple env then False
      else if preferred = BackendApple then True
      else if isolation = IsolationModeVM then True
      else if isolation = IsolationModeDefault then preferred = []
      else False)"

definition SelectBackend ::
  "registry \<Rightarrow> string \<Rightarrow> string \<Rightarrow> string \<Rightarrow> string \<Rightarrow> (string \<rightharpoonup> string) \<Rightarrow> string \<times> string" where
  "SelectBackend R hostOS preferred isolation targetOS env =
     (if targetOS = ''mac'' then (if isolation = IsolationModeVM then (BackendTart, []) else (BackendSeatbelt, []))
      else if hostOS = ''darwin'' \<and> darwinPrefersApple R preferred isolation env then (BackendApple, [])
      else if (isolation = IsolationModeVM \<or> isolation = IsolationModeVMEnhanced) \<and> IsAvailable R BackendContainerd
        then (BackendContainerd, [])
      else SelectContainerBackend R preferred env)"

section \<open>Container systems\<close>

definition ContainerSystemOrbstack :: string where "ContainerSystemOrbstack = ''orbstack''"
definition ContainerSystemDockerDesktop :: string where "ContainerSystemDockerDesktop = ''docker-desktop''"

definition containerSystemSockets :: "(string \<times> string) list" where
  "containerSystemSockets = [(ContainerSystemOrbstack, ''.orbstack/run/docker.sock''),
     (ContainerSystemDockerDesktop, ''.docker/run/docker.sock'')]"

definition containerSystemLabels :: "(string \<times> string) list" where
  "containerSystemLabels = [(ContainerSystemOrbstack, ''OrbStack''),
     (ContainerSystemDockerDesktop, ''Docker Desktop'')]"

definition ResolveContainerSystem :: "string \<Rightarrow> string \<Rightarrow> string \<times> string" where
  "ResolveContainerSystem sys home = (case map_of containerSystemSockets sys of
     None \<Rightarrow> (sys, [])
   | Some rel \<Rightarrow> if home = [] then (BackendDocker, []) else (BackendDocker, ''unix://'' @ Join home rel))"

definition IsContainerSystemAlias :: "string \<Rightarrow> bool" where
  "IsContainerSystemAlias sys \<longleftrightarrow> map_of containerSystemSockets sys \<noteq> None"

definition ContainerSystems :: "string list" where
  "ContainerSystems = [ContainerSystemOrbstack, ContainerSystemDockerDesktop]"

definition ContainerSystemLabel :: "string \<Rightarrow> string" where
  "ContainerSystemLabel sys = (case map_of containerSystemLabels sys of Some label \<Rightarrow> label | None \<Rightarrow> sys)"

section \<open>Ownership of instances\<close>

definition LabelPrincipal :: string where "LabelPrincipal = ''com.yoloai.principal''"
definition LabelSandbox :: string where "LabelSandbox = ''com.yoloai.sandbox''"

definition label :: "(string \<rightharpoonup> string) \<Rightarrow> string \<Rightarrow> string" where
  "label labels k = (case labels k of Some v \<Rightarrow> v | None \<Rightarrow> [])"

definition legacyCLIInstance :: "(string \<rightharpoonup> string) \<Rightarrow> string \<Rightarrow> bool" where
  "legacyCLIInstance labels owner \<longleftrightarrow> owner = CLIPrincipal \<and> label labels LabelPrincipal = []"

definition IsOrphanCandidate :: "(string \<rightharpoonup> string) \<Rightarrow> string \<Rightarrow> bool" where
  "IsOrphanCandidate labels owner =
     (if label labels LabelSandbox = [] then False
      else if label labels LabelPrincipal = owner then True
      else legacyCLIInstance labels owner)"

section \<open>Properties\<close>

lemma find_first: "find P xs = Some x \<Longrightarrow> x \<in> set xs \<and> P x"
  by (metis find_Some_iff nth_mem)

lemma set_orderCandidates [simp]: "set (orderCandidates cs p) = set cs"
  by (auto simp: orderCandidates_def)

lemma orderCandidates_Nil [simp]: "orderCandidates cs p = [] \<longleftrightarrow> cs = []"
  by (auto simp: orderCandidates_def)

lemma orderCandidates_distinct: "distinct cs \<Longrightarrow> distinct (orderCandidates cs p)"
  by (auto simp: orderCandidates_def)

lemma containerBackends_spec:
  "b \<in> set (containerBackends R) \<longleftrightarrow> (\<exists>e \<in> set R. reg_type e = b \<and> BaseModeName e = IsolationModeContainer)"
  by (auto simp: containerBackends_def Descriptors_def)

text \<open>A registry built by \<open>Register\<close> has one entry per type.\<close>

lemma Register_distinct:
  "distinct (map reg_type R) \<Longrightarrow> Register R e = Inr R' \<Longrightarrow> distinct (map reg_type R')"
  by (auto simp: Register_def split: if_splits)

lemma IsAvailable_iff: "IsAvailable R b \<longleftrightarrow> b \<in> set (Available R)"
  by (auto simp: IsAvailable_def Available_def find_None_iff)

lemma select_installed:
  assumes "b \<in> set (containerBackends R)" and "Installed R b env"
  shows "fst (SelectContainerBackend R p env) \<in> set (containerBackends R)
    \<and> Installed R (fst (SelectContainerBackend R p env)) env"
proof -
  have ne: "containerBackends R \<noteq> []" using assms(1) by auto
  have "\<exists>x. x \<in> set (orderCandidates (containerBackends R) p) \<and> Installed R x env"
    using assms by auto
  then obtain y where y: "find (\<lambda>n. Installed R n env) (orderCandidates (containerBackends R) p) = Some y"
    by (metis find_None_iff not_Some_eq)
  from find_first [OF y] y ne show ?thesis by (simp add: SelectContainerBackend_def)
qed

lemma select_preferred:
  assumes "p \<in> set (containerBackends R)" "p \<noteq> []" "Installed R p env"
  shows "SelectContainerBackend R p env = (p, [])"
proof -
  have "orderCandidates (containerBackends R) p = p # filter (\<lambda>c. c \<noteq> p) (containerBackends R)"
    using assms by (simp add: orderCandidates_def)
  moreover have "containerBackends R \<noteq> []" using assms(1) by auto
  ultimately show ?thesis using assms by (simp add: SelectContainerBackend_def)
qed

text \<open>
  Choosing a container backend never picks one that is not installed while another is: the
  preferred backend is taken without a warning when it is an installed container backend, and
  otherwise, as soon as any registered container backend is installed, the choice is an installed
  container backend and a warning is given exactly when a preference was set aside.
\<close>

theorem SelectContainerBackend_installed:
  assumes "b \<in> set (containerBackends R)" and "Installed R b env"
  shows "Installed R (fst (SelectContainerBackend R p env)) env
    \<and> fst (SelectContainerBackend R p env) \<in> set (containerBackends R)
    \<and> (p \<in> set (containerBackends R) \<and> Installed R p env \<and> p \<noteq> [] \<longrightarrow> SelectContainerBackend R p env = (p, []))
    \<and> (snd (SelectContainerBackend R p env) \<noteq> [] \<longleftrightarrow> p \<noteq> [] \<and> fst (SelectContainerBackend R p env) \<noteq> p)"
proof -
  have ne: "containerBackends R \<noteq> []" using assms(1) by auto
  have "\<exists>x. x \<in> set (orderCandidates (containerBackends R) p) \<and> Installed R x env"
    using assms by auto
  then obtain y where y: "find (\<lambda>n. Installed R n env) (orderCandidates (containerBackends R) p) = Some y"
    by (metis find_None_iff not_Some_eq)
  then have "snd (SelectContainerBackend R p env) \<noteq> [] \<longleftrightarrow> p \<noteq> [] \<and> fst (SelectContainerBackend R p env) \<noteq> p"
    using ne by (simp add: SelectContainerBackend_def)
  then show ?thesis using select_installed [OF assms] select_preferred by blast
qed

definition two_backends :: registry where
  "two_backends = [\<lparr>reg_type = BackendPodman, BaseModeName = IsolationModeContainer, probe_host = Some (\<lambda>_. (ProbeInstalled, []))\<rparr>,
     \<lparr>reg_type = BackendDocker, BaseModeName = IsolationModeContainer, probe_host = Some (\<lambda>_. (ProbeAbsent, ''no socket''))\<rparr>]"

lemma two_backends_facts:
  "set (containerBackends two_backends) = {BackendPodman, BackendDocker}"
  "Installed two_backends BackendPodman Map.empty" "\<not> Installed two_backends BackendDocker Map.empty"
  by (auto simp: containerBackends_def Descriptors_def two_backends_def Installed_def Probe_def backend_names)

theorem SelectContainerBackend_installed_witness:
  "fst (SelectContainerBackend two_backends BackendDocker Map.empty) = BackendPodman
   \<and> snd (SelectContainerBackend two_backends BackendDocker Map.empty) \<noteq> []"
proof -
  have b: "BackendPodman \<in> set (containerBackends two_backends)" by (simp add: two_backends_facts)
  note sel = SelectContainerBackend_installed [OF b two_backends_facts(2), of BackendDocker]
  define S where "S = SelectContainerBackend two_backends BackendDocker Map.empty"
  have S: "Installed two_backends (fst S) Map.empty" "fst S \<in> {BackendPodman, BackendDocker}"
    "snd S \<noteq> [] \<longleftrightarrow> BackendDocker \<noteq> [] \<and> fst S \<noteq> BackendDocker"
    using sel [folded S_def, unfolded two_backends_facts(1)] by - (elim conjE, assumption)+
  have "fst S \<noteq> BackendDocker" using S(1) two_backends_facts(3) by metis
  then have "fst S = BackendPodman" using S(2) by simp
  moreover have "BackendPodman \<noteq> BackendDocker" "BackendDocker \<noteq> []" by (simp_all add: backend_names)
  ultimately have "fst S = BackendPodman \<and> snd S \<noteq> []" using S(3) by simp
  then show ?thesis unfolding S_def .
qed

text \<open>
  Where virtual machine isolation selects a virtual machine backend: when \<open>IsolationAvailability\<close> accepts
  a \<open>vm\<close> or \<open>vm-enhanced\<close> request, off macOS the containerd backend is registered, and on macOS the
  probe of the Apple backend agrees with the installed \<open>container\<close> tool. Without containerd the
  selection falls through to the container backends, and the later check of the mode refuses.
\<close>

theorem vm_isolation_selects_a_vm_backend:
  assumes "isolation = IsolationModeVM \<or> isolation = IsolationModeVMEnhanced"
    and "fst (IsolationAvailability isolation targetOS hostOS major installed)"
    and "hostOS \<noteq> ''darwin'' \<Longrightarrow> IsAvailable R BackendContainerd"
    and "hostOS = ''darwin'' \<Longrightarrow> installed \<Longrightarrow> Installed R BackendApple env"
  shows "fst (SelectBackend R hostOS preferred isolation targetOS env) \<in> {BackendTart, BackendApple, BackendContainerd}"
proof (cases "targetOS = ''mac''")
  case True
  then have "isolation \<noteq> IsolationModeVMEnhanced"
    using assms(2) by (auto simp: IsolationAvailability_def isolation_modes)
  then have "isolation = IsolationModeVM" using assms(1) by blast
  with True show ?thesis by (simp add: SelectBackend_def)
next
  case other: False
  show ?thesis
  proof (cases "hostOS = ''darwin''")
    case True
    then have vm: "isolation = IsolationModeVM"
      using assms(1,2) other by (auto simp: IsolationAvailability_def isolation_modes)
    then have "installed"
      using assms(2) True other by (auto simp: IsolationAvailability_def appleVMAvailability_def split: if_splits)
    then have "darwinPrefersApple R preferred isolation env"
      using assms(4) [OF True] vm by (simp add: darwinPrefersApple_def)
    then show ?thesis using True other by (simp add: SelectBackend_def)
  next
    case False
    then have "IsAvailable R BackendContainerd" by (rule assms(3))
    with False other assms(1) show ?thesis by (auto simp: SelectBackend_def)
  qed
qed

definition linux_registry :: registry where
  "linux_registry = [\<lparr>reg_type = BackendContainerd, BaseModeName = IsolationModeVM, probe_host = None\<rparr>]"

theorem vm_isolation_selects_a_vm_backend_witness:
  "fst (SelectBackend linux_registry ''linux'' [] IsolationModeVM ''linux'' Map.empty)
     \<in> {BackendTart, BackendApple, BackendContainerd}"
  by (rule vm_isolation_selects_a_vm_backend [where major = 0 and installed = False])
    (simp_all add: IsolationAvailability_def IsAvailable_def linux_registry_def isolation_modes)

text \<open>
  The sweep touches an instance only if it carries a sandbox label and either its owner label is the
  sweeping principal or it has none and the sweeper is the command line.
\<close>

lemma orphan_owner:
  "IsOrphanCandidate labels p \<Longrightarrow> label labels LabelSandbox \<noteq> []
     \<and> (label labels LabelPrincipal = p \<or> p = CLIPrincipal \<and> label labels LabelPrincipal = [])"
  by (auto simp: IsOrphanCandidate_def legacyCLIInstance_def split: if_splits)

lemma orphan_disjoint:
  "IsOrphanCandidate labels p \<Longrightarrow> IsOrphanCandidate labels q \<Longrightarrow> p \<noteq> [] \<Longrightarrow> q \<noteq> [] \<Longrightarrow> p = q"
  by (auto simp: IsOrphanCandidate_def legacyCLIInstance_def split: if_splits)

lemma alias_is_docker:
  "IsContainerSystemAlias sys \<Longrightarrow> fst (ResolveContainerSystem sys home) = BackendDocker"
  by (auto simp: IsContainerSystemAlias_def ResolveContainerSystem_def)

end
