(* ===== verification/Injector.thy ===== *)
theory Injector
  imports Effects
begin

text \<open>
  The credential injector: what a credential is and where it may go (\<open>internal/credential\<close>), the
  reverse proxy that swaps a sandbox's placeholder for the real credential
  (\<open>internal/broker/injector.go\<close>), and the configuration the helper process is started with
  (\<open>internal/broker/sidecar.go\<close>). Header names are compared without regard to case, as Go's canonical
  header keys are; what \<open>httputil.ReverseProxy\<close> removes from a request before it calls the rewrite
  is the function \<open>hop\<close>.
\<close>

section \<open>Host and port\<close>

text \<open>\<open>net.SplitHostPort\<close> and \<open>net.JoinHostPort\<close>.\<close>

fun before_bracket :: "string \<Rightarrow> (string \<times> string) option" where
  "before_bracket [] = None"
| "before_bracket (c # s) = (if c = CHR '']'' then Some ([], s)
     else map_option (\<lambda>(a, b). (c # a, b)) (before_bracket s))"

definition SplitHostPort :: "string \<Rightarrow> (string \<times> string) option" where
  "SplitHostPort s = (case split_last (CHR '':'') s of
     None \<Rightarrow> None
   | Some (a, port) \<Rightarrow>
       if s \<noteq> [] \<and> hd s = CHR ''['' then
         (case before_bracket (tl s) of
            None \<Rightarrow> None
          | Some (host, rest) \<Rightarrow>
              if rest = CHR '':'' # port \<and> CHR ''['' \<notin> set (tl s) \<and> CHR '']'' \<notin> set rest then Some (host, port) else None)
       else if CHR '':'' \<in> set a \<or> CHR ''['' \<in> set s \<or> CHR '']'' \<in> set s then None
       else Some (a, port))"

definition JoinHostPort :: "string \<Rightarrow> string \<Rightarrow> string" where
  "JoinHostPort host port = (if CHR '':'' \<in> set host then ''['' @ host @ '']:'' @ port else host @ '':'' @ port)"

lemma before_bracket_append: "CHR '']'' \<notin> set a \<Longrightarrow> before_bracket (a @ CHR '']'' # b) = Some (a, b)"
  by (induction a) auto

lemma SplitHostPort_Join:
  assumes "CHR ''['' \<notin> set h" "CHR '']'' \<notin> set h" "set p \<inter> {CHR '':'', CHR ''['', CHR '']''} = {}"
  shows "SplitHostPort (JoinHostPort h p) = Some (h, p)"
proof (cases "CHR '':'' \<in> set h")
  case True
  have "split_last (CHR '':'') (''['' @ h @ '']:'' @ p) = Some (''['' @ h @ '']'', p)"
    using assms(3) by (subst split_last_Some) auto
  moreover have "before_bracket (h @ CHR '']'' # CHR '':'' # p) = Some (h, CHR '':'' # p)"
    using assms(2) by (rule before_bracket_append)
  ultimately show ?thesis using True assms by (simp add: SplitHostPort_def JoinHostPort_def)
next
  case False
  have "split_last (CHR '':'') (h @ '':'' @ p) = Some (h, p)"
    using assms(3) by (subst split_last_Some) auto
  moreover have "\<not> (h @ '':'' @ p \<noteq> [] \<and> hd (h @ '':'' @ p) = CHR ''['')"
    using assms(1) by (cases h) auto
  ultimately show ?thesis using False assms by (simp add: SplitHostPort_def JoinHostPort_def)
qed

section \<open>Requests\<close>

text \<open>The URL path is the escaped one, as it is sent.\<close>

type_synonym headers = "(string \<times> string list) list"

record request =
  url_scheme :: string
  url_host :: string
  url_path :: string
  url_query :: string
  req_host :: string
  req_headers :: headers

definition Header_Get :: "headers \<Rightarrow> string \<Rightarrow> string" where
  "Header_Get hs k = (case map_of hs (ToLower k) of Some (v # _) \<Rightarrow> v | _ \<Rightarrow> [])"

definition Header_Set :: "headers \<Rightarrow> string \<Rightarrow> string \<Rightarrow> headers" where
  "Header_Set hs k v = AList.update (ToLower k) [v] hs"

definition Header_Del :: "headers \<Rightarrow> string \<Rightarrow> headers" where
  "Header_Del hs k = AList.delete (ToLower k) hs"

lemma Header_Set_lookup [simp]:
  "map_of (Header_Set hs k v) j = (if j = ToLower k then Some [v] else map_of hs j)"
  by (simp add: Header_Set_def)

lemma Header_Del_lookup [simp]:
  "map_of (Header_Del hs k) j = (if j = ToLower k then None else map_of hs j)"
  by (simp add: Header_Del_def)

section \<open>Credentials\<close>

text \<open>\<open>encoding/base64\<close>, the standard alphabet.\<close>

definition b64_char :: "nat \<Rightarrow> char" where
  "b64_char n = (''ABCDEFGHIJKLMNOPQRSTUVWXYZabcdefghijklmnopqrstuvwxyz0123456789+/'') ! (n mod 64)"

fun base64 :: "nat list \<Rightarrow> string" where
  "base64 [] = []"
| "base64 [a] = [b64_char (a div 4), b64_char (a mod 4 * 16), CHR ''='', CHR ''='']"
| "base64 [a, b] = [b64_char (a div 4), b64_char (a mod 4 * 16 + b div 16), b64_char (b mod 16 * 4), CHR ''='']"
| "base64 (a # b # c # r) = b64_char (a div 4) # b64_char (a mod 4 * 16 + b div 16)
     # b64_char (b mod 16 * 4 + c div 64) # b64_char (c mod 64) # base64 r"

datatype Apply = HeaderSet (hs_Header: string) (hs_Prefix: string) | BasicAuth (ba_Username: string) | RequestSigner (rs_Scheme: string)

definition ErrNotImplemented :: gerror where
  "ErrNotImplemented = errorf ''credential: not implemented''"

fun applyTo :: "Apply \<Rightarrow> request \<Rightarrow> string \<Rightarrow> (gerror, request) result" where
  "applyTo (HeaderSet h p) req v =
     (if h = [] then Inl (errorf ''credential: HeaderSet has an empty Header'')
      else Inr (req\<lparr>req_headers := Header_Set (req_headers req) h (p @ v)\<rparr>))"
| "applyTo (BasicAuth u) req v = Inr (req\<lparr>req_headers := Header_Set (req_headers req) ''Authorization''
      (''Basic '' @ base64 (map of_char (u @ '':'' @ v)))\<rparr>)"
| "applyTo (RequestSigner s) req v = Inl ErrNotImplemented"

fun runsLast :: "Apply \<Rightarrow> bool" where
  "runsLast (RequestSigner _) = True"
| "runsLast (HeaderSet _ _) = False"
| "runsLast (BasicAuth _) = False"

definition hostWithoutPort :: "string \<Rightarrow> string" where
  "hostWithoutPort host = (case SplitHostPort host of Some (h, _) \<Rightarrow> h | None \<Rightarrow> host)"

definition Destination_Matches :: "string \<Rightarrow> string \<Rightarrow> bool" where
  "Destination_Matches d host = (d \<noteq> [] \<and> ToLower d = ToLower (hostWithoutPort host))"

definition requestHost :: "request \<Rightarrow> string" where
  "requestHost req = (if url_host req \<noteq> [] then url_host req else req_host req)"

record CredentialBinding =
  cb_Destination :: string
  cb_Apply :: "Apply option"
  cb_Source :: "(gerror, string) result option"

fun applyPass :: "bool \<Rightarrow> CredentialBinding list \<Rightarrow> request \<Rightarrow> (gerror, request) result" where
  "applyPass signers [] req = Inr req"
| "applyPass signers (b # bs) req = (case (cb_Apply b, cb_Source b) of
     (Some a, Some src) \<Rightarrow>
       if runsLast a \<noteq> signers then applyPass signers bs req
       else res_bind (res_ctx (''credential: resolve '' @ cb_Destination b) src) (\<lambda>value.
            res_bind (res_ctx (''credential: apply to '' @ cb_Destination b) (applyTo a req value)) (\<lambda>req'.
            applyPass signers bs req'))
   | _ \<Rightarrow> applyPass signers bs req)"

definition ApplyTo :: "request \<Rightarrow> CredentialBinding list \<Rightarrow> (gerror, request) result" where
  "ApplyTo req bindings =
     (let host = requestHost req;
          matched = filter (\<lambda>b. cb_Apply b \<noteq> None \<and> cb_Source b \<noteq> None \<and> Destination_Matches (cb_Destination b) host) bindings
      in res_bind (applyPass False matched req) (applyPass True matched))"

subsection \<open>A source that refreshes\<close>

text \<open>Times are nanoseconds; \<open>expiresAt = None\<close> is the zero time. The mutex makes each call one step.\<close>

record RefreshingSource =
  skew :: int
  src_value :: string
  expiresAt :: "int option"
  fetched :: bool

definition defaultRefreshSkew :: int where "defaultRefreshSkew = 60 * 10 ^ 9"

definition expired :: "RefreshingSource \<Rightarrow> int \<Rightarrow> bool" where
  "expired s now = (case expiresAt s of None \<Rightarrow> False | Some t \<Rightarrow> \<not> now < t - skew s)"

definition Refreshing_Value ::
  "RefreshingSource \<Rightarrow> int \<Rightarrow> (gerror, string \<times> int option) result \<Rightarrow> (gerror, string) result \<times> RefreshingSource" where
  "Refreshing_Value s now fetch_result =
     (if fetched s \<and> \<not> expired s now then (Inr (src_value s), s)
      else case fetch_result of
        Inl e \<Rightarrow> (Inl (wrap ''credential: refresh'' e), s)
      | Inr (v, t) \<Rightarrow> (Inr v, s\<lparr>src_value := v, expiresAt := t, fetched := True\<rparr>))"

section \<open>The injector\<close>

record Upstream =
  up_Scheme :: string
  up_Host :: string
  up_Path :: string
  up_Query :: string
  up_Bindings :: "CredentialBinding list"
  up_StripHeaders :: "string list"
  up_ExpectedToken :: string

definition NewInjector :: "Upstream option \<Rightarrow> (gerror, Upstream) result" where
  "NewInjector u = (case u of
     Some up \<Rightarrow> if up_Scheme up = [] \<or> up_Host up = [] then Inl (errorf ''broker: upstream URL needs a scheme and host'') else Inr up
   | None \<Rightarrow> Inl (errorf ''broker: upstream URL needs a scheme and host''))"

definition TrimPrefix :: "string \<Rightarrow> string \<Rightarrow> string" where
  "TrimPrefix s p = (if HasPrefix s p then drop (length p) s else s)"

definition presentsExpectedToken :: "Upstream \<Rightarrow> headers \<Rightarrow> bool" where
  "presentsExpectedToken up hs =
     (up_ExpectedToken up = [] \<or>
      list_ex (\<lambda>h. let v = Header_Get hs h in v \<noteq> [] \<and> TrimPrefix v ''Bearer '' = up_ExpectedToken up) (up_StripHeaders up))"

text \<open>\<open>ProxyRequest.SetURL\<close>: scheme and host of the upstream, its path and query before those of the request.\<close>

definition singleJoiningSlash :: "string \<Rightarrow> string \<Rightarrow> string" where
  "singleJoiningSlash a b =
     (if HasSuffix a ''/'' \<and> HasPrefix b ''/'' then a @ drop 1 b
      else if \<not> HasSuffix a ''/'' \<and> \<not> HasPrefix b ''/'' then a @ ''/'' @ b
      else a @ b)"

definition SetURL :: "Upstream \<Rightarrow> request \<Rightarrow> request" where
  "SetURL up r = r\<lparr>url_scheme := up_Scheme up, url_host := up_Host up, req_host := [],
     url_path := singleJoiningSlash (up_Path up) (url_path r),
     url_query := (if up_Query up = [] \<or> url_query r = [] then up_Query up @ url_query r
       else up_Query up @ ''&'' @ url_query r)\<rparr>"

text \<open>The outgoing request, or the error that the transport turns into a failed round trip.\<close>

definition rewrite :: "Upstream \<Rightarrow> request \<Rightarrow> (gerror, request) result" where
  "rewrite up out =
     (let r1 = (SetURL up out)\<lparr>req_host := up_Host up\<rparr>;
          r2 = r1\<lparr>req_headers := foldl Header_Del (req_headers r1) (up_StripHeaders up)\<rparr>
      in ApplyTo r2 (up_Bindings up))"

datatype served = Forbidden | InjectionFailed gerror | RoundTrip request

definition ServeHTTP :: "(headers \<Rightarrow> headers) \<Rightarrow> Upstream \<Rightarrow> request \<Rightarrow> served" where
  "ServeHTTP hop up r =
     (if \<not> presentsExpectedToken up (req_headers r) then Forbidden
      else case rewrite up (r\<lparr>req_headers := hop (req_headers r)\<rparr>) of
        Inl e \<Rightarrow> InjectionFailed (wrap ''broker: credential injection failed'' e)
      | Inr out \<Rightarrow> RoundTrip out)"

section \<open>The helper process\<close>

definition KindHeaderSet :: string where "KindHeaderSet = ''header-set''"
definition KindBasicAuth :: string where "KindBasicAuth = ''basic-auth''"

record BindingConfig =
  bd_Destination :: string
  bd_Kind :: string
  bd_Header :: string
  bd_Prefix :: string
  bd_Username :: string
  bd_Secret :: string

record SidecarConfig =
  sc_UpstreamURL :: string
  sc_BindAddr :: string
  sc_StripHeaders :: "string list"
  sc_ExpectedToken :: string
  sc_Bindings :: "BindingConfig list"

definition binding_apply :: "BindingConfig \<Rightarrow> (gerror, Apply) result" where
  "binding_apply c =
     (if bd_Kind c = KindHeaderSet then Inr (HeaderSet (bd_Header c) (bd_Prefix c))
      else if bd_Kind c = KindBasicAuth then Inr (BasicAuth (bd_Username c))
      else Inl (errorf (''broker: unsupported binding kind '' @ bd_Kind c @ '' (Phase 1 supports '' @ KindHeaderSet
        @ '' and '' @ KindBasicAuth @ '')'')))"

fun buildBindings :: "BindingConfig list \<Rightarrow> (gerror, CredentialBinding list) result" where
  "buildBindings [] = Inr []"
| "buildBindings (c # cs) = res_bind (binding_apply c) (\<lambda>a. res_bind (buildBindings cs) (\<lambda>bs.
     Inr (\<lparr>cb_Destination = bd_Destination c, cb_Apply = Some a, cb_Source = Some (Inr (bd_Secret c))\<rparr> # bs)))"

text \<open>What \<open>RunSidecar\<close> serves: \<open>parse\<close> is \<open>url.Parse\<close>, giving a scheme and a host.\<close>

definition sidecar_upstream :: "(string \<Rightarrow> (gerror, string \<times> string \<times> string \<times> string) result) \<Rightarrow> SidecarConfig \<Rightarrow> (gerror, Upstream) result" where
  "sidecar_upstream parse cfg =
     res_bind (res_ctx (''broker: parse upstream URL '' @ sc_UpstreamURL cfg) (parse (sc_UpstreamURL cfg))) (\<lambda>(scheme, host, path, query).
     res_bind (buildBindings (sc_Bindings cfg)) (\<lambda>bs.
     NewInjector (Some \<lparr>up_Scheme = scheme, up_Host = host, up_Path = path, up_Query = query, up_Bindings = bs,
       up_StripHeaders = sc_StripHeaders cfg, up_ExpectedToken = sc_ExpectedToken cfg\<rparr>)))"

section \<open>Properties\<close>

lemma applyTo_host:
  "applyTo a req v = Inr r \<Longrightarrow> url_host r = url_host req \<and> req_host r = req_host req
     \<and> url_scheme r = url_scheme req \<and> url_path r = url_path req"
  by (cases a) (auto split: if_splits)

lemma applyPass_host:
  "applyPass s bs req = Inr r \<Longrightarrow> url_host r = url_host req \<and> req_host r = req_host req
     \<and> url_scheme r = url_scheme req \<and> url_path r = url_path req"
proof (induction bs arbitrary: req)
  case (Cons b bs)
  then show ?case by (fastforce split: option.splits if_splits dest: applyTo_host)
qed simp

text \<open>A pass without bindings, or over bindings of the other kind, changes nothing.\<close>

lemma applyPass_skip: "(\<And>b a. b \<in> set bs \<Longrightarrow> cb_Apply b = Some a \<Longrightarrow> runsLast a \<noteq> s) \<Longrightarrow> applyPass s bs req = Inr req"
proof (induction bs)
  case (Cons b bs)
  have "applyPass s bs req = Inr req" by (rule Cons.IH) (use Cons.prems in auto)
  moreover have "runsLast a \<noteq> s" if "cb_Apply b = Some a" for a using Cons.prems [OF _ that] by simp
  ultimately show ?case by (auto split: option.splits)
qed simp

lemma ApplyTo_no_match:
  "(\<And>b. b \<in> set bs \<Longrightarrow> \<not> Destination_Matches (cb_Destination b) (requestHost req)) \<Longrightarrow> ApplyTo req bs = Inr req"
proof -
  assume "\<And>b. b \<in> set bs \<Longrightarrow> \<not> Destination_Matches (cb_Destination b) (requestHost req)"
  then have "filter (\<lambda>b. cb_Apply b \<noteq> None \<and> cb_Source b \<noteq> None \<and> Destination_Matches (cb_Destination b) (requestHost req)) bs = []"
    by (auto simp: filter_empty_conv)
  then show ?thesis by (simp add: ApplyTo_def)
qed

lemma Header_Del_foldl:
  "map_of (foldl Header_Del hs ks) j = (if j \<in> ToLower ` set ks then None else map_of hs j)"
  by (induction ks arbitrary: hs) auto

text \<open>What a credential puts into a header.\<close>

fun injected :: "Apply \<Rightarrow> string \<Rightarrow> string \<Rightarrow> string option" where
  "injected (HeaderSet h p) v j = (if ToLower h = j then Some (p @ v) else None)"
| "injected (BasicAuth u) v j =
     (if j = ToLower ''Authorization'' then Some (''Basic '' @ base64 (map of_char (u @ '':'' @ v))) else None)"
| "injected (RequestSigner _) v j = None"

definition from_binding :: "CredentialBinding list \<Rightarrow> string \<Rightarrow> string list option \<Rightarrow> bool" where
  "from_binding bs j x \<longleftrightarrow> (\<exists>b \<in> set bs. \<exists>a v y. cb_Apply b = Some a \<and> cb_Source b = Some (Inr v)
     \<and> injected a v j = Some y \<and> x = Some [y])"

lemma applyTo_header:
  "applyTo a req v = Inr r \<Longrightarrow> map_of (req_headers r) j = map_of (req_headers req) j
     \<or> (\<exists>y. injected a v j = Some y \<and> map_of (req_headers r) j = Some [y])"
  by (cases a) (auto split: if_splits)

lemma applyPass_header:
  "applyPass s bs req = Inr r \<Longrightarrow> map_of (req_headers r) j = map_of (req_headers req) j \<or> from_binding bs j (map_of (req_headers r) j)"
proof (induction bs arbitrary: req)
  case (Cons b bs)
  have mono: "from_binding bs j x \<Longrightarrow> from_binding (b # bs) j x" for x by (auto simp: from_binding_def)
  show ?case
  proof (cases "\<exists>a src. cb_Apply b = Some a \<and> cb_Source b = Some src \<and> runsLast a = s")
    case True
    then obtain a src where a: "cb_Apply b = Some a" "cb_Source b = Some src" "runsLast a = s" by blast
    with Cons.prems obtain v req' where v: "src = Inr v" "applyTo a req v = Inr req'" "applyPass s bs req' = Inr r" by auto
    from Cons.IH [OF v(3)] applyTo_header [OF v(2), of j] show ?thesis
      using a v(1) by (auto simp: from_binding_def)
  next
    case False
    then have "applyPass s bs req = Inr r" using Cons.prems by (auto split: option.splits if_splits)
    from Cons.IH [OF this] show ?thesis using mono by blast
  qed
qed (simp add: from_binding_def)

definition matching :: "Upstream \<Rightarrow> CredentialBinding list" where
  "matching up = filter (\<lambda>b. Destination_Matches (cb_Destination b) (up_Host up)) (up_Bindings up)"

lemma from_binding_mono: "from_binding bs j x \<Longrightarrow> set bs \<subseteq> set bs' \<Longrightarrow> from_binding bs' j x"
  by (auto simp: from_binding_def)

lemma rewrite_spec:
  assumes "rewrite up r = Inr out" and "up_Host up \<noteq> []"
  shows "url_host out = up_Host up \<and> req_host out = up_Host up \<and> url_scheme out = up_Scheme up
    \<and> url_path out = singleJoiningSlash (up_Path up) (url_path r)
    \<and> (map_of (req_headers out) j = (if j \<in> ToLower ` set (up_StripHeaders up) then None else map_of (req_headers r) j)
       \<or> from_binding (matching up) j (map_of (req_headers out) j))"
proof -
  define r2 where "r2 = (SetURL up r)\<lparr>req_host := up_Host up,
    req_headers := foldl Header_Del (req_headers r) (up_StripHeaders up)\<rparr>"
  define bs where "bs = filter (\<lambda>b. cb_Apply b \<noteq> None \<and> cb_Source b \<noteq> None
    \<and> Destination_Matches (cb_Destination b) (requestHost r2)) (up_Bindings up)"
  have "ApplyTo r2 (up_Bindings up) = Inr out" using assms(1) by (simp add: rewrite_def Let_def r2_def SetURL_def)
  then obtain mid where p: "applyPass False bs r2 = Inr mid" "applyPass True bs mid = Inr out"
    by (auto simp: ApplyTo_def Let_def bs_def)
  have bs: "set bs \<subseteq> set (matching up)" using assms(2) by (auto simp: bs_def matching_def requestHost_def r2_def SetURL_def)
  have "map_of (req_headers out) j = map_of (req_headers r2) j \<or> from_binding bs j (map_of (req_headers out) j)"
    using applyPass_header [OF p(1), of j] applyPass_header [OF p(2), of j] by auto
  then show ?thesis using from_binding_mono [OF _ bs] applyPass_host [OF p(1)] applyPass_host [OF p(2)]
    by (auto simp: r2_def SetURL_def Header_Del_foldl)
qed

text \<open>
  C9: the injector forwards only what it must and only to its upstream. A request that does not
  present the sandbox's token in one of the placeholder headers is refused and nothing is sent. A
  request that is sent goes to the upstream host with the scheme of the upstream, whatever host and scheme the sandbox
  asked for, and its path is below that of the upstream. A header that
  may have carried the placeholder holds nothing of the sandbox any more: it is absent or holds what
  a binding for the upstream host puts there; every other header is the sandbox's own or, again, set
  by such a binding. When a credential cannot be applied, nothing is sent.
\<close>

theorem injector_forwards_only_authorised_requests:
  assumes "NewInjector (Some up) = Inr J"
  shows "(up_ExpectedToken J \<noteq> []
      \<and> \<not> list_ex (\<lambda>h. Header_Get (req_headers r) h \<noteq> [] \<and> TrimPrefix (Header_Get (req_headers r) h) ''Bearer '' = up_ExpectedToken J) (up_StripHeaders J)
      \<longrightarrow> ServeHTTP hop J r = Forbidden)
   \<and> (\<forall>out. ServeHTTP hop J r = RoundTrip out \<longrightarrow>
        url_host out = up_Host J \<and> req_host out = up_Host J \<and> url_scheme out = up_Scheme J
        \<and> url_path out = singleJoiningSlash (up_Path J) (url_path r)
        \<and> (\<forall>j. (map_of (req_headers out) j = (if j \<in> ToLower ` set (up_StripHeaders J) then None else map_of (hop (req_headers r)) j))
               \<or> from_binding (matching J) j (map_of (req_headers out) j)))
   \<and> (\<forall>e. rewrite J (r\<lparr>req_headers := hop (req_headers r)\<rparr>) = Inl e \<longrightarrow> (\<forall>out. ServeHTTP hop J r \<noteq> RoundTrip out))"
proof -
  have host: "up_Host J \<noteq> []" using assms by (auto simp: NewInjector_def split: if_splits)
  have fwd: "rewrite J (r\<lparr>req_headers := hop (req_headers r)\<rparr>) = Inr out" if "ServeHTTP hop J r = RoundTrip out" for out
    using that by (auto simp: ServeHTTP_def split: if_splits sum.splits)
  have "ServeHTTP hop J r = Forbidden" if "up_ExpectedToken J \<noteq> []
      \<and> \<not> list_ex (\<lambda>h. Header_Get (req_headers r) h \<noteq> [] \<and> TrimPrefix (Header_Get (req_headers r) h) ''Bearer '' = up_ExpectedToken J) (up_StripHeaders J)"
    using that by (simp add: ServeHTTP_def presentsExpectedToken_def Let_def)
  moreover have "ServeHTTP hop J r \<noteq> RoundTrip out" if "rewrite J (r\<lparr>req_headers := hop (req_headers r)\<rparr>) = Inl e" for e out
    using fwd [of out] that by auto
  moreover have "url_host out = up_Host J \<and> req_host out = up_Host J \<and> url_scheme out = up_Scheme J
      \<and> url_path out = singleJoiningSlash (up_Path J) (url_path r)
      \<and> (map_of (req_headers out) j = (if j \<in> ToLower ` set (up_StripHeaders J) then None else map_of (hop (req_headers r)) j)
         \<or> from_binding (matching J) j (map_of (req_headers out) j))" if "ServeHTTP hop J r = RoundTrip out" for out j
    using rewrite_spec [OF fwd [OF that] host, of j] by (simp split: if_splits)
  ultimately show ?thesis by blast
qed

definition demo_upstream :: Upstream where
  "demo_upstream = \<lparr>up_Scheme = ''https'', up_Host = ''api.x'', up_Path = [], up_Query = [],
     up_Bindings = [\<lparr>cb_Destination = ''api.x'', cb_Apply = Some (HeaderSet ''x-api-key'' []), cb_Source = Some (Inr ''real'')\<rparr>],
     up_StripHeaders = [''Authorization''], up_ExpectedToken = ''tok''\<rparr>"

theorem injector_forwards_only_authorised_requests_witness:
  "ServeHTTP (\<lambda>h. h) demo_upstream \<lparr>url_scheme = [], url_host = [], url_path = ''/v1'', url_query = [], req_host = ''127.0.0.1:1'', req_headers = [(''authorization'', [''Bearer no''])]\<rparr> = Forbidden"
proof -
  have "NewInjector (Some demo_upstream) = Inr demo_upstream" by (simp add: NewInjector_def demo_upstream_def)
  note f = injector_forwards_only_authorised_requests [OF this,
      of "\<lparr>url_scheme = [], url_host = [], url_path = ''/v1'', url_query = [], req_host = ''127.0.0.1:1'', req_headers = [(''authorization'', [''Bearer no''])]\<rparr>" "\<lambda>h. h", THEN conjunct1]
  show ?thesis by (rule mp [OF f]) (simp add: demo_upstream_def Header_Get_def, code_simp)
qed

text \<open>
  A refreshing credential is never served stale. A value that is returned without error is either
  the freshly fetched one, or was fetched before and its expiry, less the safety margin, is still in
  the future; when the refresh fails the call fails and the cached value is not used.
\<close>

theorem refreshing_source_never_serves_stale:
  "(\<forall>v s'. Refreshing_Value s now r = (Inr v, s') \<longrightarrow>
      (\<exists>t. r = Inr (v, t) \<and> expiresAt s' = t \<and> src_value s' = v)
      \<or> (s' = s \<and> v = src_value s \<and> fetched s \<and> (\<forall>t. expiresAt s = Some t \<longrightarrow> now < t - skew s)))
   \<and> (\<forall>e. r = Inl e \<and> fetched s \<and> expired s now \<longrightarrow> Refreshing_Value s now r = (Inl (wrap ''credential: refresh'' e), s))"
  by (auto simp: Refreshing_Value_def expired_def split: if_splits sum.splits option.splits)


theorem refreshing_source_never_serves_stale_witness:
  "Refreshing_Value \<lparr>skew = 60, src_value = ''old'', expiresAt = Some 100, fetched = True\<rparr> 50 (Inl (errorf ''down''))
   = (Inl (wrap ''credential: refresh'' (errorf ''down'')), \<lparr>skew = 60, src_value = ''old'', expiresAt = Some 100, fetched = True\<rparr>)"
  by (rule refreshing_source_never_serves_stale [THEN conjunct2, rule_format]) (simp add: expired_def)

end
