(* ===== verification/Backend.thy ===== *)
theory Backend
  imports BackendSelect Injector SandboxLayout
begin

text \<open>
  The backend interface (\<open>runtime/runtime.go\<close>, \<open>runtime/runtime_optional.go\<close>) as the launch and
  lifecycle code uses it. A backend is a descriptor, the optional interfaces it implements, and its
  answers. An answer may depend on everything that was asked before, so the state carries the trace of
  all calls, newest first, each with its arguments and whether it succeeded; nothing is assumed of the
  answers. The files of the sandbox directory are a map. A write that fails may leave anything behind
  (\<open>torn\<close>), since \<open>fileutil.WriteFile\<close> truncates in place.
\<close>

section \<open>Records\<close>

record MountSpec =
  ms_HostPath :: string
  ms_ContainerPath :: string
  ms_ReadOnly :: bool

record PortMapping =
  HostPort :: int
  ContainerPort :: int
  Protocol :: string

record RtResources =
  NanoCPUs :: int
  MemoryBytes :: int

record InstanceConfig =
  ic_Name :: string
  ic_Hostname :: string
  ic_WorkingDir :: string
  ic_Mounts :: "MountSpec list"
  ic_Ports :: "PortMapping list"
  ic_NetworkMode :: string
  ic_Resources :: "RtResources option"
  ic_Labels :: "(string \<times> string) list"
  ic_ImageRef :: string
  ic_CapAdd :: "string list"
  ic_Devices :: "string list"
  ic_UseInit :: bool
  ic_Privileged :: bool
  ic_ContainerEnv :: "string list"
  ic_ContainerRuntime :: string
  ic_Snapshotter :: string

record InstanceInfo =
  ii_Running :: bool
  ii_Suspended :: bool
  ii_Labels :: "(string \<times> string) list"

record ProcSpec =
  ps_Argv :: "string list"
  ps_Env :: "string list"
  ps_Cwd :: string
  ps_User :: string
  ps_Detached :: bool

record InjectorReach =
  BindHost :: string
  DialHost :: string
  RequiredNetworkMode :: string

record NetnsSidecarSpec =
  ns_Target :: string
  ns_Image :: string
  ns_Argv :: "string list"
  ns_Env :: "string list"
  ns_CapAdd :: "string list"
  ns_Mounts :: "MountSpec list"

datatype FilesystemLocality = LocalityHostSide | LocalitySandboxSide

datatype KeepAliveModel = KeepAliveContainerInit | KeepAliveGuestOSInit | KeepAliveHostKeepAlive

record BackendCaps =
  NetworkIsolation :: bool
  cap_CapAdd :: bool
  cap_HostFilesystem :: bool
  VMRuntimeDir :: string
  Locality :: FilesystemLocality
  KeepAlive :: KeepAliveModel
  GitExecInConfinement :: bool
  AgentFreeLaunch :: bool

record BackendDescriptor =
  bd_Type :: string
  SupportedIsolationModes :: "string list"
  Capabilities :: BackendCaps
  SecretsConsumedTimeout :: int

definition RuntimeScriptDir :: string where "RuntimeScriptDir = ''/yoloai/bin''"
definition BaseChecksumLabel :: string where "BaseChecksumLabel = ''yoloai.base.checksum''"

definition GitHardeningArgs :: "string list" where
  "GitHardeningArgs = [''-c'', ''core.hooksPath=/dev/null'', ''-c'', ''core.fsmonitor=false'']"

section \<open>Calls\<close>

type_synonym senv = "(string \<times> string) list"

datatype event =
    ESetup | ERebuildProfile string bool | EImageLabels string | EWriteScripts fpath
  | ECreate InstanceConfig | EStart string | EStop string | ERemove string | EInspect string
  | EExec string "string list" string | EReady string | ELaunch string ProcSpec | ESidecar NetnsSidecarSpec
  | ELogs string | EInjectorReach | ESpawnInjector SidecarConfig | EAlive int | EKill int | ERandom
  | EStageSecrets senv | EUnstage string | EListen int | EDeadline | ERead fpath | EWrite fpath string
  | EMkdir fpath | EUnlink fpath
  | ELock | EDropLock | EStatSandbox | EStatHost string | ERefreshSeed bool "string list" | ECopyAgentFiles string
  | EIsolation string | EStatFile fpath | EGit string "string list" | EMaterialize string bool | EClearDir fpath | ERename fpath fpath | ERemoveTree

type_synonym trace = "(event \<times> bool) list"

record rtw =
  trace :: trace
  files :: "fpath \<rightharpoonup> string"

record rtb =
  Descriptor :: BackendDescriptor
  is_launcher :: bool
  is_netns_runner :: bool
  is_image_builder :: bool
  is_script_provider :: bool
  is_injector_reachable :: bool
  is_log_tailer :: bool
  ans_unit :: "trace \<Rightarrow> event \<Rightarrow> (gerror, unit) result"
  ans_bool :: "trace \<Rightarrow> event \<Rightarrow> (gerror, bool) result"
  ans_str :: "trace \<Rightarrow> event \<Rightarrow> (gerror, string) result"
  ans_info :: "trace \<Rightarrow> event \<Rightarrow> (gerror, InstanceInfo) result"
  ans_reach :: "trace \<Rightarrow> event \<Rightarrow> (gerror, InjectorReach) result"
  ans_labels :: "trace \<Rightarrow> event \<Rightarrow> (gerror, senv option) result"
  ans_proc :: "trace \<Rightarrow> event \<Rightarrow> (gerror, int \<times> string) result"
  torn :: "trace \<Rightarrow> event \<Rightarrow> string option"

definition call :: "(trace \<Rightarrow> event \<Rightarrow> (gerror, 'a) result) \<Rightarrow> event \<Rightarrow> (rtw, 'a) prog" where
  "call ans e = (\<lambda>w. let r = ans (trace w) e in (r, w\<lparr>trace := (e, is_ok r) # trace w\<rparr>))"

definition set_file :: "fpath \<Rightarrow> string option \<Rightarrow> (rtw, unit) prog" where
  "set_file p v = (\<lambda>w. (Inr (), w\<lparr>files := (files w)(p := v)\<rparr>))"

definition peek :: "fpath \<Rightarrow> (rtw, string option) prog" where
  "peek p = (\<lambda>w. (Inr (files w p), w))"

text \<open>\<open>os.ReadFile\<close>, \<open>fileutil.WriteFile\<close> and \<open>os.Remove\<close> below the sandbox directory.\<close>

definition ReadFile :: "rtb \<Rightarrow> fpath \<Rightarrow> (rtw, string) prog" where
  "ReadFile B p = p_seq (call (ans_unit B) (ERead p)) (p_bind (peek p) (\<lambda>v. case v of
     None \<Rightarrow> p_fail (GErr ErrNotExist ''no such file or directory'') | Some d \<Rightarrow> p_ret d))"

definition WriteFile :: "rtb \<Rightarrow> fpath \<Rightarrow> string \<Rightarrow> (rtw, unit) prog" where
  "WriteFile B p d = (\<lambda>w. case call (ans_unit B) (EWrite p d) w of
     (Inr _, w') \<Rightarrow> (Inr (), w'\<lparr>files := (files w')(p \<mapsto> d)\<rparr>)
   | (Inl e, w') \<Rightarrow> (Inl e, w'\<lparr>files := (files w')(p := torn B (trace w) (EWrite p d))\<rparr>))"

text \<open>\<open>fileutil.AtomicWriteFile\<close>: the new content is renamed into place.\<close>

definition AtomicWrite :: "rtb \<Rightarrow> fpath \<Rightarrow> string \<Rightarrow> (rtw, unit) prog" where
  "AtomicWrite B p d = p_seq (call (ans_unit B) (EWrite p d)) (set_file p (Some d))"

definition Unlink :: "rtb \<Rightarrow> fpath \<Rightarrow> (rtw, unit) prog" where
  "Unlink B p = p_seq (call (ans_unit B) (EUnlink p)) (p_bind (peek p) (\<lambda>v. case v of
     None \<Rightarrow> p_fail (GErr ErrNotExist ''no such file or directory'') | Some _ \<Rightarrow> set_file p None))"

definition MkdirAll :: "rtb \<Rightarrow> fpath \<Rightarrow> (rtw, unit) prog" where
  "MkdirAll B p = call (ans_unit B) (EMkdir p)"

text \<open>
  The backend methods. Removing an instance of a backend that keeps its state on the host
  (\<open>seatbelt.Remove\<close>) deletes the sandbox directory.
\<close>

definition rt_Create :: "rtb \<Rightarrow> InstanceConfig \<Rightarrow> (rtw, unit) prog" where "rt_Create B cfg = call (ans_unit B) (ECreate cfg)"
definition rt_Start :: "rtb \<Rightarrow> string \<Rightarrow> (rtw, unit) prog" where "rt_Start B n = call (ans_unit B) (EStart n)"
definition rt_Stop :: "rtb \<Rightarrow> string \<Rightarrow> (rtw, unit) prog" where "rt_Stop B n = call (ans_unit B) (EStop n)"
definition rt_Inspect :: "rtb \<Rightarrow> string \<Rightarrow> (rtw, InstanceInfo) prog" where "rt_Inspect B n = call (ans_info B) (EInspect n)"

definition host_filesystem :: "rtb \<Rightarrow> bool" where
  "host_filesystem B = cap_HostFilesystem (Capabilities (Descriptor B))"

definition rt_Remove :: "rtb \<Rightarrow> string \<Rightarrow> (rtw, unit) prog" where
  "rt_Remove B n = p_seq (call (ans_unit B) (ERemove n))
     (\<lambda>w. (Inr (), if host_filesystem B then w\<lparr>files := (\<lambda>_. None)\<rparr> else w))"

definition usesAgentFreeLaunch :: "rtb \<Rightarrow> string \<Rightarrow> bool" where
  "usesAgentFreeLaunch B isolation =
     (is_launcher B \<and> AgentFreeLaunch (Capabilities (Descriptor B)) \<and> SupportsAgentFreeLaunch isolation)"

definition UsesSidecarFirewall :: "rtb \<Rightarrow> string \<Rightarrow> string \<Rightarrow> bool" where
  "UsesSidecarFirewall B isolation networkMode =
     (if networkMode \<noteq> ''isolated'' then False
      else if \<not> is_netns_runner B then False
      else usesAgentFreeLaunch B isolation)"

definition LocalityOf :: "rtb option \<Rightarrow> FilesystemLocality" where
  "LocalityOf rt = (case rt of None \<Rightarrow> LocalityHostSide | Some B \<Rightarrow> Locality (Capabilities (Descriptor B)))"

definition GitRunsInConfinement :: "rtb option \<Rightarrow> bool" where
  "GitRunsInConfinement rt = (case rt of None \<Rightarrow> False
     | Some B \<Rightarrow> Locality (Capabilities (Descriptor B)) = LocalitySandboxSide \<or> GitExecInConfinement (Capabilities (Descriptor B)))"

definition KeepAliveModelOf :: "rtb option \<Rightarrow> KeepAliveModel" where
  "KeepAliveModelOf rt = (case rt of None \<Rightarrow> KeepAliveContainerInit | Some B \<Rightarrow> KeepAlive (Capabilities (Descriptor B)))"

definition LogsFor :: "rtb \<Rightarrow> string \<Rightarrow> (rtw, string) prog" where
  "LogsFor B n = (if is_log_tailer B
     then p_bind (p_try (call (ans_str B) (ELogs n))) (\<lambda>r. p_ret (case r of Inr s \<Rightarrow> s | Inl _ \<Rightarrow> []))
     else p_ret [])"

section \<open>The host-side injector\<close>

text \<open>
  \<open>internal/broker/host.go\<close>. Starting the helper process, sending it its configuration and reading its
  address is one call, which fails or gives the process and the address it listens on.
\<close>

record InjectorRecord =
  ir_PID :: int
  ir_Addr :: string

record InjectorSpec =
  is_BindHost :: string
  is_UpstreamURL :: string
  is_StripHeaders :: "string list"
  is_ExpectedToken :: string
  is_Bindings :: "BindingConfig list"

record rec_codec =
  rec_dec :: "string \<Rightarrow> InjectorRecord option"
  rec_enc :: "InjectorRecord \<Rightarrow> string"

definition loadRecord :: "rtb \<Rightarrow> rec_codec \<Rightarrow> (rtw, InjectorRecord option) prog" where
  "loadRecord B J = p_bind (p_try (ReadFile B (InjectorRecordPath []))) (\<lambda>r. case r of
     Inl e \<Rightarrow> if kind_of e = ErrNotExist then p_ret None else p_fail (wrap ''broker: read injector.json'' e)
   | Inr data \<Rightarrow> (case rec_dec J data of
        None \<Rightarrow> p_fail (errorf ''broker: parse injector.json'') | Some x \<Rightarrow> p_ret (Some x)))"

definition saveRecord :: "rtb \<Rightarrow> rec_codec \<Rightarrow> InjectorRecord \<Rightarrow> (rtw, unit) prog" where
  "saveRecord B J x = p_seq (p_ctx ''broker: ensure host tier'' (MkdirAll B (HostTierDir [])))
     (p_ctx ''broker: write injector.json'' (WriteFile B (InjectorRecordPath []) (rec_enc J x)))"

definition removeRecord :: "rtb \<Rightarrow> (rtw, unit) prog" where
  "removeRecord B = p_bind (p_try (Unlink B (InjectorRecordPath []))) (\<lambda>r. case r of
     Inr _ \<Rightarrow> p_ret ()
   | Inl e \<Rightarrow> if kind_of e = ErrNotExist then p_ret () else p_fail (wrap ''broker: remove injector.json'' e))"

definition processAlive :: "rtb \<Rightarrow> int \<Rightarrow> (rtw, bool) prog" where
  "processAlive B pid = (if pid \<le> 0 then p_ret False
     else p_bind (p_try (call (ans_unit B) (EAlive pid))) (\<lambda>r. p_ret (is_ok r)))"

definition killProcess :: "rtb \<Rightarrow> int \<Rightarrow> (rtw, unit) prog" where
  "killProcess B pid = (if pid \<le> 0 then p_ret () else p_ignore (call (ans_unit B) (EKill pid)))"

definition HasRecord :: "rtb \<Rightarrow> rec_codec \<Rightarrow> (rtw, bool) prog" where
  "HasRecord B J = p_bind (p_try (loadRecord B J)) (\<lambda>r. p_ret (case r of Inr (Some _) \<Rightarrow> True | _ \<Rightarrow> False))"

definition InjectorAlive :: "rtb \<Rightarrow> rec_codec \<Rightarrow> (rtw, bool) prog" where
  "InjectorAlive B J = p_bind (p_try (loadRecord B J)) (\<lambda>r. case r of
     Inr (Some x) \<Rightarrow> processAlive B (ir_PID x) | _ \<Rightarrow> p_ret False)"

definition respawnBindPort :: "InjectorRecord option \<Rightarrow> string" where
  "respawnBindPort x = (case x of
     None \<Rightarrow> ''0''
   | Some y \<Rightarrow> (case SplitHostPort (ir_Addr y) of Some (_, port) \<Rightarrow> if port \<noteq> [] then port else ''0'' | None \<Rightarrow> ''0''))"

definition sidecarConfig :: "InjectorSpec \<Rightarrow> string \<Rightarrow> SidecarConfig" where
  "sidecarConfig spec bindPort = \<lparr>sc_UpstreamURL = is_UpstreamURL spec, sc_BindAddr = JoinHostPort (is_BindHost spec) bindPort,
     sc_StripHeaders = is_StripHeaders spec, sc_ExpectedToken = is_ExpectedToken spec, sc_Bindings = is_Bindings spec\<rparr>"

definition spawn :: "rtb \<Rightarrow> rec_codec \<Rightarrow> InjectorSpec \<Rightarrow> string \<Rightarrow> (rtw, string) prog" where
  "spawn B J spec bindPort =
     p_bind (call (ans_proc B) (ESpawnInjector (sidecarConfig spec bindPort))) (\<lambda>(pid, addr).
       if addr = [] then p_seq (killProcess B pid) (p_fail (errorf ''broker: sidecar handshake failed: empty handshake address''))
       else p_bind (p_try (saveRecord B J \<lparr>ir_PID = pid, ir_Addr = addr\<rparr>)) (\<lambda>r. case r of
          Inl e \<Rightarrow> p_seq (killProcess B pid) (p_fail e)
        | Inr _ \<Rightarrow> p_ret addr))"

definition Ensure :: "rtb \<Rightarrow> rec_codec \<Rightarrow> InjectorSpec \<Rightarrow> (rtw, string) prog" where
  "Ensure B J spec =
     p_bind (p_try (loadRecord B J)) (\<lambda>r.
       let x = (case r of Inr v \<Rightarrow> v | Inl _ \<Rightarrow> None) in
       case x of
         None \<Rightarrow> spawn B J spec (respawnBindPort None)
       | Some y \<Rightarrow> p_bind (processAlive B (ir_PID y)) (\<lambda>alive.
           if alive then p_ret (ir_Addr y) else spawn B J spec (respawnBindPort (Some y))))"

definition Injector_Stop :: "rtb \<Rightarrow> rec_codec \<Rightarrow> (rtw, unit) prog" where
  "Injector_Stop B J = p_bind (loadRecord B J) (\<lambda>x.
     p_seq (case x of None \<Rightarrow> p_ret () | Some y \<Rightarrow> killProcess B (ir_PID y)) (removeRecord B))"

definition PlaceholderToken :: "rtb \<Rightarrow> (rtw, string) prog" where
  "PlaceholderToken B =
     p_bind (p_try (ReadFile B (InjectorTokenPath []))) (\<lambda>r.
       let generate = p_bind (p_ctx ''broker: generate placeholder token'' (call (ans_str B) ERandom)) (\<lambda>tok.
             p_seq (p_ctx ''broker: ensure host tier'' (MkdirAll B (HostTierDir [])))
            (p_seq (p_ctx ''broker: persist injector-token'' (WriteFile B (InjectorTokenPath []) tok)) (p_ret tok)))
       in case r of
         Inr tok \<Rightarrow> if tok \<noteq> [] then p_ret tok else generate
       | Inl e \<Rightarrow> if kind_of e = ErrNotExist then generate else p_fail (wrap ''broker: read injector-token'' e))"

section \<open>What calls keep\<close>

text \<open>A predicate on the trace and the files that every call keeps is kept by every operation.\<close>

definition call_closed :: "(rtw \<Rightarrow> bool) \<Rightarrow> event \<Rightarrow> bool" where
  "call_closed I e \<longleftrightarrow> (\<forall>w b. I w \<longrightarrow> I (w\<lparr>trace := (e, b) # trace w\<rparr>))"

definition file_closed :: "(rtw \<Rightarrow> bool) \<Rightarrow> bool" where
  "file_closed I \<longleftrightarrow> (\<forall>w f. I w \<longrightarrow> I (w\<lparr>files := f\<rparr>))"

lemma pkeeps_call: "call_closed I e \<Longrightarrow> pkeeps I (call ans e)"
  by (simp add: pkeeps_def call_def call_closed_def Let_def)

lemma pkeeps_set_file: "file_closed I \<Longrightarrow> pkeeps I (set_file p v)"
  by (simp add: pkeeps_def set_file_def file_closed_def)

lemma pkeeps_peek [prog_keeps]: "pkeeps I (peek p)"
  by (simp add: pkeeps_def peek_def)

lemma pkeeps_ReadFile: "call_closed I (ERead p) \<Longrightarrow> pkeeps I (ReadFile B p)"
  unfolding ReadFile_def
  by (intro prog_keeps pkeeps_call) (auto intro: prog_keeps split: option.splits)

lemma pkeeps_WriteFile:
  assumes "call_closed I (EWrite p d)" "file_closed I"
  shows "pkeeps I (WriteFile B p d)"
proof -
  have "I (snd (call (ans_unit B) (EWrite p d) w))" if "I w" for w
    using pkeepsD [OF pkeeps_call [OF assms(1)] that] .
  then show ?thesis using assms(2)
    by (auto simp: pkeeps_def WriteFile_def file_closed_def split: prod.splits sum.splits) (metis snd_conv)+
qed

end
