(* ===== verification/AgentDefs.thy ===== *)
theory AgentDefs
  imports Effects HostEnv Status
begin

text \<open>
  Agent definitions (\<open>internal/agent\<close>): the built-in table of \<open>agent.go\<close>, the hook and settings
  patches an agent needs, the Codex configuration patches of \<open>codex.go\<close>, agents defined in files
  (\<open>fileagent.go\<close>), and their neutral projection \<open>BuildEnvSpec\<close>
  (\<open>internal/orchestrator/envspec\<close>). A Go \<open>map[string]any\<close> is an association list of JSON values.
  The TOML package and \<open>encoding/json\<close> are the codecs \<open>C\<close>; the embedded status plugin of OpenCode is
  the parameter \<open>plugin\<close>.
\<close>

section \<open>JSON values\<close>

datatype json = JNull | JBool bool | JNum string | JStr string | JArr "json list" | JObj "(string \<times> json) list"

type_synonym obj = "(string \<times> json) list"

text \<open>\<open>x, _ := m[k].(map[string]any)\<close> with a nil result replaced by an empty map, and the same for a list.\<close>

definition obj_at :: "obj \<Rightarrow> string \<Rightarrow> obj" where
  "obj_at m k = (case map_of m k of Some (JObj o1) \<Rightarrow> o1 | _ \<Rightarrow> [])"

definition arr_at :: "obj \<Rightarrow> string \<Rightarrow> json list" where
  "arr_at m k = (case map_of m k of Some (JArr xs) \<Rightarrow> xs | _ \<Rightarrow> [])"

text \<open>Encoders and decoders of the two libraries; \<open>None\<close> is their error.\<close>

record codecs =
  toml_dec :: "string \<Rightarrow> obj option"
  toml_enc :: "obj \<Rightarrow> string option"
  json_dec :: "string \<Rightarrow> json option"
  json_enc :: "obj \<Rightarrow> string option"

section \<open>Definitions\<close>

definition PromptModeInteractive :: string where "PromptModeInteractive = ''interactive''"
definition PromptModeHeadless :: string where "PromptModeHeadless = ''headless''"

record SeedFile =
  sf_HostPath :: string
  sf_TargetPath :: string
  sf_Content :: "string option"
  sf_AuthOnly :: bool
  sf_HomeDir :: bool
  sf_KeychainService :: string
  sf_OwnerAPIKeys :: "string list"
  sf_Executable :: bool

record IdleSupport =
  is_Hook :: bool
  ReadyPattern :: string
  ContextSignal :: bool
  WchanApplicable :: bool

record BrokerCredential =
  bc_EnvVar :: string
  bc_Header :: string
  bc_Prefix :: string

record BrokerConfigFile =
  cf_RelPath :: string
  cf_Patch :: "string \<Rightarrow> string \<Rightarrow> string \<Rightarrow> (gerror, string) result"

record BrokerConfig =
  UpstreamURL :: string
  Destination :: string
  Credentials :: "BrokerCredential list"
  PlaceholderHeader :: string
  BaseURLEnvVar :: string
  ConfigFiles :: "BrokerConfigFile list"
  AuthTokenEnvVar :: string
  DummyToken :: string

record WorkdirTrustPatch =
  wt_RelPath :: string
  wt_Patch :: "string \<Rightarrow> string \<Rightarrow> (gerror, string) result"

record DirectCredentialFile =
  dc_RelPath :: string
  dc_EnvVars :: "string list"
  dc_Render :: "string \<Rightarrow> (gerror, string) result"

record Definition =
  ag_Type :: string
  ag_Description :: string
  ag_InteractiveCmd :: string
  ag_HeadlessCmd :: string
  ag_PromptMode :: string
  ag_APIKeyEnvVars :: "string list"
  ag_AuthHintEnvVars :: "string list"
  ag_AuthOptional :: bool
  ag_SeedFiles :: "SeedFile list"
  ag_StateDir :: string
  ag_SubmitSequence :: string
  ag_StartupDelay :: int
  ag_Idle :: IdleSupport
  ag_ModelFlag :: string
  ag_ModelAliases :: "(string \<times> string) list"
  ag_ModelPrefixes :: "(string \<times> string) list"
  ag_NetworkAllowlist :: "string list"
  ag_ContextFile :: string
  ag_AgentFilesExclude :: "string list"
  ag_ResumeFlag :: string
  ag_ApplySettings :: "(obj \<Rightarrow> obj) option"
  ag_SettingsFileName :: string
  ag_ShortLivedOAuthWarning :: bool
  ag_SeedsAllAgents :: bool
  ag_Broker :: "BrokerConfig option"
  ag_WorkdirTrust :: "WorkdirTrustPatch option"
  ag_DirectCredential :: "DirectCredentialFile option"
  ag_UserDefined :: bool

text \<open>The zero values of the two structs.\<close>

definition seed_file :: SeedFile where
  "seed_file = \<lparr>sf_HostPath = [], sf_TargetPath = [], sf_Content = None, sf_AuthOnly = False, sf_HomeDir = False,
     sf_KeychainService = [], sf_OwnerAPIKeys = [], sf_Executable = False\<rparr>"

definition blank_agent :: Definition where
  "blank_agent = \<lparr>ag_Type = [], ag_Description = [], ag_InteractiveCmd = [], ag_HeadlessCmd = [],
     ag_PromptMode = [], ag_APIKeyEnvVars = [], ag_AuthHintEnvVars = [], ag_AuthOptional = False,
     ag_SeedFiles = [], ag_StateDir = [], ag_SubmitSequence = [], ag_StartupDelay = 0,
     ag_Idle = \<lparr>is_Hook = False, ReadyPattern = [], ContextSignal = False, WchanApplicable = False\<rparr>,
     ag_ModelFlag = [], ag_ModelAliases = [], ag_ModelPrefixes = [], ag_NetworkAllowlist = [],
     ag_ContextFile = [], ag_AgentFilesExclude = [], ag_ResumeFlag = [], ag_ApplySettings = None,
     ag_SettingsFileName = [], ag_ShortLivedOAuthWarning = False, ag_SeedsAllAgents = False, ag_Broker = None,
     ag_WorkdirTrust = None, ag_DirectCredential = None, ag_UserDefined = False\<rparr>"

fun select_from :: "BrokerCredential list \<Rightarrow> (string \<rightharpoonup> string) \<Rightarrow> (BrokerCredential \<times> string) option" where
  "select_from [] env = None"
| "select_from (c # cs) env = (case env (bc_EnvVar c) of
     Some v \<Rightarrow> if v \<noteq> [] then Some (c, v) else select_from cs env
   | None \<Rightarrow> select_from cs env)"

definition SelectCredential :: "BrokerConfig \<Rightarrow> (string \<rightharpoonup> string) \<Rightarrow> (BrokerCredential \<times> string) option" where
  "SelectCredential bc secretEnv = select_from (Credentials bc) secretEnv"

section \<open>Hooks\<close>

definition statusIdleCommand :: string where
  "statusIdleCommand =
      ''printf '' @ [CHR 39] @ ''{'' @ [CHR 34] @ ''ts'' @ [CHR 34] @ '':'' @ [CHR 34] @ ''%s''
      @ [CHR 34] @ '','' @ [CHR 34] @ ''level'' @ [CHR 34] @ '':'' @ [CHR 34] @ ''info'' @ [CHR 34]
      @ '','' @ [CHR 34] @ ''event'' @ [CHR 34] @ '':'' @ [CHR 34] @ ''hook.idle'' @ [CHR 34] @ '',''
      @ [CHR 34] @ ''msg'' @ [CHR 34] @ '':'' @ [CHR 34] @ ''agent hook: idle'' @ [CHR 34] @ '',''
      @ [CHR 34] @ ''status'' @ [CHR 34] @ '':'' @ [CHR 34] @ ''idle'' @ [CHR 34] @ ''}'' @ [CHR 92]
      @ ''n'' @ [CHR 39] @ '' '' @ [CHR 34] @ ''$(date -u +%Y-%m-%dT%H:%M:%S.000Z)'' @ [CHR 34]
      @ '' >> '' @ [CHR 34] @ ''${YOLOAI_DIR:-/yoloai}/logs/agent-hooks.jsonl'' @ [CHR 34]
      @ '' && printf '' @ [CHR 39] @ ''{'' @ [CHR 34] @ ''schema_version'' @ [CHR 34] @ '':1,''
      @ [CHR 34] @ ''status'' @ [CHR 34] @ '':'' @ [CHR 34] @ ''idle'' @ [CHR 34] @ '','' @ [CHR 34]
      @ ''exit_code'' @ [CHR 34] @ '':null,'' @ [CHR 34] @ ''timestamp'' @ [CHR 34] @ '':%d}''
      @ [CHR 92] @ ''n'' @ [CHR 39] @ '' '' @ [CHR 34] @ ''$(date +%s)'' @ [CHR 34] @ '' > ''
      @ [CHR 34] @ ''${YOLOAI_DIR:-/yoloai}/agent-status.json'' @ [CHR 34]"

definition statusActiveCommand :: string where
  "statusActiveCommand =
      ''printf '' @ [CHR 39] @ ''{'' @ [CHR 34] @ ''ts'' @ [CHR 34] @ '':'' @ [CHR 34] @ ''%s''
      @ [CHR 34] @ '','' @ [CHR 34] @ ''level'' @ [CHR 34] @ '':'' @ [CHR 34] @ ''info'' @ [CHR 34]
      @ '','' @ [CHR 34] @ ''event'' @ [CHR 34] @ '':'' @ [CHR 34] @ ''hook.active'' @ [CHR 34]
      @ '','' @ [CHR 34] @ ''msg'' @ [CHR 34] @ '':'' @ [CHR 34] @ ''agent hook: active'' @ [CHR 34]
      @ '','' @ [CHR 34] @ ''status'' @ [CHR 34] @ '':'' @ [CHR 34] @ ''active'' @ [CHR 34] @ ''}''
      @ [CHR 92] @ ''n'' @ [CHR 39] @ '' '' @ [CHR 34] @ ''$(date -u +%Y-%m-%dT%H:%M:%S.000Z)''
      @ [CHR 34] @ '' >> '' @ [CHR 34] @ ''${YOLOAI_DIR:-/yoloai}/logs/agent-hooks.jsonl'' @ [CHR 34]
      @ '' && printf '' @ [CHR 39] @ ''{'' @ [CHR 34] @ ''schema_version'' @ [CHR 34] @ '':1,''
      @ [CHR 34] @ ''status'' @ [CHR 34] @ '':'' @ [CHR 34] @ ''active'' @ [CHR 34] @ '','' @ [CHR 34]
      @ ''exit_code'' @ [CHR 34] @ '':null,'' @ [CHR 34] @ ''timestamp'' @ [CHR 34] @ '':%d}''
      @ [CHR 92] @ ''n'' @ [CHR 39] @ '' '' @ [CHR 34] @ ''$(date +%s)'' @ [CHR 34] @ '' > ''
      @ [CHR 34] @ ''${YOLOAI_DIR:-/yoloai}/agent-status.json'' @ [CHR 34]"

definition geminiActiveCommand :: string where
  "geminiActiveCommand = statusActiveCommand @ '' && printf '' @ [CHR 39] @ ''{}'' @ [CHR 39]"

definition geminiIdleCommand :: string where
  "geminiIdleCommand = statusIdleCommand @ '' && printf '' @ [CHR 39] @ ''{}'' @ [CHR 39]"

definition hook_group :: "string \<Rightarrow> json" where
  "hook_group command = JObj [(''hooks'', JArr [JObj [(''type'', JStr ''command''), (''command'', JStr command)]])]"

definition hook_runs :: "string \<Rightarrow> json \<Rightarrow> bool" where
  "hook_runs command h = (case h of JObj hm \<Rightarrow>
     (case map_of hm ''command'' of Some (JStr cmd) \<Rightarrow> cmd = command | _ \<Rightarrow> command = []) | _ \<Rightarrow> False)"

definition hookEventHasCommand :: "json list \<Rightarrow> string \<Rightarrow> bool" where
  "hookEventHasCommand groups command =
     list_ex (\<lambda>g. case g of JObj gm \<Rightarrow> list_ex (hook_runs command) (arr_at gm ''hooks'') | _ \<Rightarrow> False) groups"

definition appendHookGroup :: "obj \<Rightarrow> string \<Rightarrow> string \<Rightarrow> json \<Rightarrow> obj" where
  "appendHookGroup hooks event command grp =
     (let existing = arr_at hooks event
      in if hookEventHasCommand existing command then hooks
         else AList.update event (JArr (existing @ [grp])) hooks)"

definition injectGeminiHook :: "obj \<Rightarrow> obj" where
  "injectGeminiHook settings =
     (let hooks = obj_at settings ''hooks'';
          h1 = appendHookGroup hooks ''BeforeAgent'' geminiActiveCommand (hook_group geminiActiveCommand);
          h2 = appendHookGroup h1 ''AfterAgent'' geminiIdleCommand (hook_group geminiIdleCommand)
      in AList.update ''hooks'' (JObj h2) settings)"

definition injectCodexHooks :: "obj \<Rightarrow> obj" where
  "injectCodexHooks root =
     (let hooks = obj_at root ''hooks'';
          h1 = appendHookGroup hooks ''UserPromptSubmit'' statusActiveCommand (hook_group statusActiveCommand);
          h2 = appendHookGroup h1 ''PreToolUse'' statusActiveCommand (hook_group statusActiveCommand);
          h3 = appendHookGroup h2 ''Stop'' statusIdleCommand (hook_group statusIdleCommand)
      in AList.update ''hooks'' (JObj h3) root)"

definition injectIdleHook :: "obj \<Rightarrow> obj" where
  "injectIdleHook settings =
     (let hooks = obj_at settings ''hooks'';
          h1 = appendHookGroup hooks ''Stop'' statusIdleCommand (hook_group statusIdleCommand);
          h2 = appendHookGroup h1 ''PreToolUse'' statusActiveCommand (hook_group statusActiveCommand);
          h3 = appendHookGroup h2 ''UserPromptSubmit'' statusActiveCommand (hook_group statusActiveCommand)
      in AList.update ''hooks'' (JObj h3) settings)"

definition claude_settings :: "obj \<Rightarrow> obj" where
  "claude_settings s =
     (let a1 = AList.update ''skipDangerousModePermissionPrompt'' (JBool True) s;
          a2 = (if map_of a1 ''tui'' = None then AList.update ''tui'' (JStr ''default'') a1 else a1);
          a3 = AList.update ''sandbox'' (JObj [(''enabled'', JBool False)]) a2;
          a4 = AList.update ''preferredNotifChannel'' (JStr ''terminal_bell'') a3;
          a5 = AList.update ''env'' (JObj (AList.update ''DISABLE_AUTOUPDATER'' (JStr ''1'') (obj_at a4 ''env''))) a4
      in injectIdleHook a5)"

definition gemini_settings :: "obj \<Rightarrow> obj" where
  "gemini_settings s =
     injectGeminiHook (AList.update ''security''
       (JObj (AList.update ''folderTrust'' (JObj [(''enabled'', JBool False)]) (obj_at s ''security''))) s)"

section \<open>The Codex configuration\<close>

definition toml_base :: "codecs \<Rightarrow> string \<Rightarrow> (gerror, obj) result" where
  "toml_base C current = (if current = [] then Inr []
     else case toml_dec C current of None \<Rightarrow> Inl (errorf ''agent: parse codex config.toml'') | Some cfg \<Rightarrow> Inr cfg)"

definition toml_out :: "codecs \<Rightarrow> obj \<Rightarrow> (gerror, string) result" where
  "toml_out C cfg = (case toml_enc C cfg of None \<Rightarrow> Inl (errorf ''agent: encode codex config.toml'') | Some t \<Rightarrow> Inr t)"

definition patchCodexBaseURL :: "codecs \<Rightarrow> string \<Rightarrow> string \<Rightarrow> string \<Rightarrow> (gerror, string) result" where
  "patchCodexBaseURL C current baseURL placeholder =
     res_bind (toml_base C current) (\<lambda>cfg. toml_out C (AList.update ''openai_base_url'' (JStr (baseURL @ ''/v1'')) cfg))"

definition renderCodexAuth :: "codecs \<Rightarrow> string \<Rightarrow> (gerror, string) result" where
  "renderCodexAuth C key =
     (case json_enc C [(''auth_mode'', JStr ''apikey''), (''OPENAI_API_KEY'', JStr key)] of
        None \<Rightarrow> Inl (errorf ''agent: encode codex auth.json'') | Some t \<Rightarrow> Inr (t @ [CHR 10]))"

definition patchCodexAuth :: "codecs \<Rightarrow> string \<Rightarrow> string \<Rightarrow> string \<Rightarrow> (gerror, string) result" where
  "patchCodexAuth C current baseURL placeholder = renderCodexAuth C placeholder"

definition patchCodexWorkdirTrust :: "codecs \<Rightarrow> string \<Rightarrow> string \<Rightarrow> (gerror, string) result" where
  "patchCodexWorkdirTrust C current workdir =
     (if workdir = [] then Inr current
      else res_bind (toml_base C current) (\<lambda>cfg.
        let projects = obj_at cfg ''projects'';
            entry = AList.update ''trust_level'' (JStr ''trusted'') (obj_at projects workdir)
        in toml_out C (AList.update ''projects'' (JObj (AList.update workdir (JObj entry) projects)) cfg)))"

section \<open>The built-in agents\<close>

definition aider_agent :: "Definition" where
  "aider_agent = blank_agent\<lparr>
     ag_Type := ''aider'',
     ag_Description := ''Aider '' @ [CHR 0xE2, CHR 0x80, CHR 0x94] @ '' AI pair programming in your terminal'',
     ag_InteractiveCmd := ''aider --yes-always --notifications --notifications-command '' @ [CHR 39]
      @ ''python3 /yoloai/bin/status-monitor.py --write-status idle /yoloai/agent-status.json''
      @ [CHR 39],
     ag_HeadlessCmd := ''aider --message '' @ [CHR 34] @ ''PROMPT'' @ [CHR 34]
      @ '' --yes-always --no-pretty --no-fancy-input'',
     ag_SubmitSequence := ''Enter'',
     ag_PromptMode := PromptModeInteractive,
     ag_APIKeyEnvVars := [''ANTHROPIC_API_KEY'', ''OPENAI_API_KEY'', ''GEMINI_API_KEY'', ''DEEPSEEK_API_KEY'', ''OPENROUTER_API_KEY''],
     ag_AuthHintEnvVars := [''OLLAMA_API_BASE'', ''OPENAI_API_BASE''],
     ag_SeedFiles := [seed_file\<lparr>sf_HostPath := ''~/.aider.conf.yml'', sf_TargetPath := ''.aider.conf.yml'', sf_Content := Some (''{}'' @ [CHR 10]), sf_HomeDir := True\<rparr>],
     ag_StartupDelay := 3000,
     ag_Idle := \<lparr>is_Hook = True, ReadyPattern = ''> $'', ContextSignal = True, WchanApplicable = True\<rparr>,
     ag_ModelFlag := ''--model'',
     ag_ModelAliases := [(''sonnet'', ''sonnet''),
         (''opus'', ''opus''),
         (''haiku'', ''haiku''),
         (''deepseek'', ''deepseek''),
         (''flash'', ''flash'')],
     ag_ModelPrefixes := [(''OLLAMA_API_BASE'', ''ollama_chat/''),
         (''OPENAI_API_BASE'', ''openai/'')]\<rparr>"

definition claude_broker :: BrokerConfig where
  "claude_broker = \<lparr>UpstreamURL = ''https://api.anthropic.com'', Destination = ''api.anthropic.com'',
     Credentials = [\<lparr>bc_EnvVar = ''ANTHROPIC_API_KEY'', bc_Header = ''x-api-key'', bc_Prefix = []\<rparr>,
       \<lparr>bc_EnvVar = ''CLAUDE_CODE_OAUTH_TOKEN'', bc_Header = ''Authorization'', bc_Prefix = ''Bearer ''\<rparr>],
     PlaceholderHeader = ''Authorization'', BaseURLEnvVar = ''ANTHROPIC_BASE_URL'', ConfigFiles = [],
     AuthTokenEnvVar = ''ANTHROPIC_AUTH_TOKEN'', DummyToken = ''yoloai-broker-dummy''\<rparr>"

definition claude_agent :: "Definition" where
  "claude_agent = blank_agent\<lparr>
     ag_Type := ''claude'',
     ag_Description := ''Anthropic Claude Code '' @ [CHR 0xE2, CHR 0x80, CHR 0x94] @ '' AI coding assistant'',
     ag_InteractiveCmd := ''claude --dangerously-skip-permissions'',
     ag_HeadlessCmd := ''claude -p '' @ [CHR 34] @ ''PROMPT'' @ [CHR 34] @ '' --dangerously-skip-permissions'',
     ag_PromptMode := PromptModeInteractive,
     ag_ResumeFlag := ''--continue'',
     ag_APIKeyEnvVars := [''ANTHROPIC_API_KEY'', ''CLAUDE_CODE_OAUTH_TOKEN''],
     ag_Broker := Some claude_broker,
     ag_SeedFiles := [seed_file\<lparr>sf_HostPath := ''~/.claude/.credentials.json'', sf_TargetPath := ''.credentials.json'', sf_AuthOnly := True, sf_KeychainService := ''Claude Code-credentials''\<rparr>,
       seed_file\<lparr>sf_HostPath := ''~/.claude/settings.json'', sf_TargetPath := ''settings.json''\<rparr>,
       seed_file\<lparr>sf_TargetPath := ''.claude.json'', sf_Content := Some (''{'' @ [CHR 34] @ ''hasCompletedOnboarding'' @ [CHR 34] @ '':true,'' @ [CHR 34] @ ''lastOnboardingVersion'' @ [CHR 34] @ '':'' @ [CHR 34] @ ''99.0.0'' @ [CHR 34] @ ''}'' @ [CHR 10]), sf_HomeDir := True\<rparr>,
       seed_file\<lparr>sf_HostPath := ''~/.claude/statusline.sh'', sf_TargetPath := ''statusline.sh'', sf_Executable := True\<rparr>],
     ag_StateDir := ''/home/yoloai/.claude/'',
     ag_SubmitSequence := ''Enter Enter'',
     ag_StartupDelay := 3000,
     ag_Idle := \<lparr>is_Hook = True, ReadyPattern = [CHR 0xE2, CHR 0x9D, CHR 0xAF], ContextSignal = True, WchanApplicable = True\<rparr>,
     ag_ModelFlag := ''--model'',
     ag_ModelAliases := [(''sonnet'', ''sonnet''),
         (''opus'', ''opus''),
         (''haiku'', ''haiku'')],
     ag_NetworkAllowlist := [''api.anthropic.com'', ''claude.ai'', ''platform.claude.com'', ''statsig.anthropic.com'', ''sentry.io''],
     ag_ContextFile := ''CLAUDE.md'',
     ag_AgentFilesExclude := [''projects/'', ''statsig/'', ''todos/'', ''.credentials.json'', ''*.log''],
     ag_ApplySettings := Some claude_settings,
     ag_ShortLivedOAuthWarning := True\<rparr>"

definition gemini_broker :: BrokerConfig where
  "gemini_broker = \<lparr>UpstreamURL = ''https://generativelanguage.googleapis.com'',
     Destination = ''generativelanguage.googleapis.com'',
     Credentials = [\<lparr>bc_EnvVar = ''GEMINI_API_KEY'', bc_Header = ''x-goog-api-key'', bc_Prefix = []\<rparr>],
     PlaceholderHeader = ''x-goog-api-key'', BaseURLEnvVar = ''GOOGLE_GEMINI_BASE_URL'', ConfigFiles = [],
     AuthTokenEnvVar = ''GEMINI_API_KEY'', DummyToken = ''yoloai-broker-dummy''\<rparr>"

definition gemini_agent :: "Definition" where
  "gemini_agent = blank_agent\<lparr>
     ag_Type := ''gemini'',
     ag_Description := ''Google Gemini CLI '' @ [CHR 0xE2, CHR 0x80, CHR 0x94] @ '' AI coding assistant'',
     ag_InteractiveCmd := ''gemini --yolo'',
     ag_HeadlessCmd := ''gemini -p '' @ [CHR 34] @ ''PROMPT'' @ [CHR 34] @ '' --yolo'',
     ag_SubmitSequence := ''Enter'',
     ag_PromptMode := PromptModeInteractive,
     ag_APIKeyEnvVars := [''GEMINI_API_KEY''],
     ag_Broker := Some gemini_broker,
     ag_SeedFiles := [seed_file\<lparr>sf_HostPath := ''~/.gemini/oauth_creds.json'', sf_TargetPath := ''oauth_creds.json'', sf_AuthOnly := True\<rparr>,
       seed_file\<lparr>sf_HostPath := ''~/.gemini/gemini-credentials.json'', sf_TargetPath := ''gemini-credentials.json'', sf_AuthOnly := True\<rparr>,
       seed_file\<lparr>sf_HostPath := ''~/.gemini/google_accounts.json'', sf_TargetPath := ''google_accounts.json'', sf_AuthOnly := True\<rparr>,
       seed_file\<lparr>sf_HostPath := ''~/.gemini/settings.json'', sf_TargetPath := ''settings.json''\<rparr>],
     ag_StateDir := ''/home/yoloai/.gemini/'',
     ag_StartupDelay := 3000,
     ag_Idle := \<lparr>is_Hook = True, ReadyPattern = ''Type your message'', ContextSignal = True, WchanApplicable = True\<rparr>,
     ag_ModelFlag := ''--model'',
     ag_ModelAliases := [(''pro'', ''gemini-2.5-pro''),
         (''flash'', ''gemini-2.5-flash''),
         (''preview-pro'', ''gemini-3.1-pro-preview''),
         (''preview-flash'', ''gemini-3-flash-preview'')],
     ag_NetworkAllowlist := [''generativelanguage.googleapis.com'', ''cloudcode-pa.googleapis.com'', ''oauth2.googleapis.com''],
     ag_ContextFile := ''GEMINI.md'',
     ag_AgentFilesExclude := [''logs/'', ''oauth_creds.json'', ''gemini-credentials.json'', ''google_accounts.json''],
     ag_ApplySettings := Some gemini_settings\<rparr>"

definition opencode_agent :: "string \<Rightarrow> Definition" where
  "opencode_agent plugin = blank_agent\<lparr>
     ag_Type := ''opencode'',
     ag_Description := ''OpenCode '' @ [CHR 0xE2, CHR 0x80, CHR 0x94] @ '' open-source AI coding agent'',
     ag_InteractiveCmd := ''opencode'',
     ag_HeadlessCmd := ''opencode run '' @ [CHR 34] @ ''PROMPT'' @ [CHR 34],
     ag_SubmitSequence := ''Enter'',
     ag_PromptMode := PromptModeHeadless,
     ag_APIKeyEnvVars := [''ANTHROPIC_API_KEY'', ''OPENAI_API_KEY'', ''GEMINI_API_KEY'', ''GROQ_API_KEY'', ''OPENROUTER_API_KEY'', ''XAI_API_KEY''],
     ag_AuthHintEnvVars := [''GITHUB_TOKEN'', ''LOCAL_ENDPOINT'', ''AZURE_OPENAI_ENDPOINT'', ''AWS_ACCESS_KEY_ID'', ''AWS_PROFILE'',
       ''AWS_DEFAULT_PROFILE'', ''AWS_REGION'', ''AWS_DEFAULT_REGION'', ''VERTEXAI_PROJECT''],
     ag_AuthOptional := True,
     ag_SeedFiles := [seed_file\<lparr>sf_HostPath := ''~/.local/share/opencode/auth.json'', sf_TargetPath := ''auth.json'', sf_AuthOnly := True\<rparr>,
       seed_file\<lparr>sf_HostPath := ''~/.opencode.json'', sf_TargetPath := ''.opencode.json'', sf_AuthOnly := True, sf_HomeDir := True\<rparr>,
       seed_file\<lparr>sf_HostPath := ''~/.config/github-copilot/hosts.json'', sf_TargetPath := ''.config/github-copilot/hosts.json'', sf_AuthOnly := True, sf_HomeDir := True\<rparr>,
       seed_file\<lparr>sf_HostPath := ''~/.config/github-copilot/apps.json'', sf_TargetPath := ''.config/github-copilot/apps.json'', sf_AuthOnly := True, sf_HomeDir := True\<rparr>,
       seed_file\<lparr>sf_HostPath := ''~/.config/opencode/.opencode.json'', sf_TargetPath := ''.config/opencode/.opencode.json'', sf_HomeDir := True\<rparr>,
       seed_file\<lparr>sf_TargetPath := ''.config/opencode/plugins/yoloai-status.js'', sf_Content := Some (plugin), sf_HomeDir := True\<rparr>],
     ag_StateDir := ''/home/yoloai/.local/share/opencode/'',
     ag_StartupDelay := 3000,
     ag_Idle := \<lparr>is_Hook = True, ReadyPattern = [], ContextSignal = False, WchanApplicable = True\<rparr>,
     ag_ModelFlag := ''--model'',
     ag_ModelAliases := [(''sonnet'', ''anthropic/claude-sonnet-4-5-latest''),
         (''opus'', ''anthropic/claude-opus-4-latest''),
         (''haiku'', ''anthropic/claude-haiku-4-5-latest''),
         (''gpt4o'', ''openai/gpt-4o''),
         (''mini'', ''openai/gpt-4o-mini'')],
     ag_NetworkAllowlist := [''api.anthropic.com'', ''api.openai.com'', ''generativelanguage.googleapis.com'',
       ''api.github.com'', ''api.githubcopilot.com''],
     ag_AgentFilesExclude := [''auth.json'', ''sessions/'']\<rparr>"

definition codex_broker :: "codecs \<Rightarrow> BrokerConfig" where
  "codex_broker C = \<lparr>UpstreamURL = ''https://api.openai.com'', Destination = ''api.openai.com'',
     Credentials = [\<lparr>bc_EnvVar = ''OPENAI_API_KEY'', bc_Header = ''Authorization'', bc_Prefix = ''Bearer ''\<rparr>,
       \<lparr>bc_EnvVar = ''CODEX_API_KEY'', bc_Header = ''Authorization'', bc_Prefix = ''Bearer ''\<rparr>],
     PlaceholderHeader = ''Authorization'', BaseURLEnvVar = [],
     ConfigFiles = [\<lparr>cf_RelPath = ''config.toml'', cf_Patch = patchCodexBaseURL C\<rparr>,
       \<lparr>cf_RelPath = ''auth.json'', cf_Patch = patchCodexAuth C\<rparr>],
     AuthTokenEnvVar = [], DummyToken = ''yoloai-broker-dummy''\<rparr>"

definition codex_agent :: "codecs \<Rightarrow> Definition" where
  "codex_agent C = blank_agent\<lparr>
     ag_Type := ''codex'',
     ag_Description := ''OpenAI Codex '' @ [CHR 0xE2, CHR 0x80, CHR 0x94] @ '' AI coding agent'',
     ag_InteractiveCmd := ''codex --dangerously-bypass-approvals-and-sandbox --dangerously-bypass-hook-trust'',
     ag_HeadlessCmd := ''codex exec --dangerously-bypass-approvals-and-sandbox --dangerously-bypass-hook-trust ''
      @ [CHR 34] @ ''PROMPT'' @ [CHR 34],
     ag_SubmitSequence := ''Enter'',
     ag_PromptMode := PromptModeInteractive,
     ag_APIKeyEnvVars := [''CODEX_API_KEY'', ''OPENAI_API_KEY''],
     ag_Broker := Some (codex_broker C),
     ag_WorkdirTrust := Some \<lparr>wt_RelPath = ''config.toml'', wt_Patch = patchCodexWorkdirTrust C\<rparr>,
     ag_DirectCredential := Some \<lparr>dc_RelPath = ''auth.json'', dc_EnvVars = [''OPENAI_API_KEY'', ''CODEX_API_KEY''], dc_Render = renderCodexAuth C\<rparr>,
     ag_SeedFiles := [seed_file\<lparr>sf_HostPath := ''~/.codex/auth.json'', sf_TargetPath := ''auth.json'', sf_AuthOnly := True\<rparr>,
       seed_file\<lparr>sf_HostPath := ''~/.codex/config.toml'', sf_TargetPath := ''config.toml''\<rparr>],
     ag_StateDir := ''/home/yoloai/.codex/'',
     ag_StartupDelay := 3000,
     ag_Idle := \<lparr>is_Hook = True, ReadyPattern = [CHR 0xE2, CHR 0x80, CHR 0xBA], ContextSignal = True, WchanApplicable = True\<rparr>,
     ag_ModelFlag := ''--model'',
     ag_ModelAliases := [(''default'', ''gpt-5.3-codex''),
         (''spark'', ''gpt-5.3-codex-spark''),
         (''mini'', ''codex-mini-latest'')],
     ag_NetworkAllowlist := [''api.openai.com''],
     ag_AgentFilesExclude := [''auth.json'', ''sessions/'', ''hooks.json''],
     ag_SettingsFileName := ''hooks.json'',
     ag_ApplySettings := Some injectCodexHooks\<rparr>"

definition test_agent :: "Definition" where
  "test_agent = blank_agent\<lparr>
     ag_Type := ''test'',
     ag_Description := ''Bash shell for testing and development'',
     ag_InteractiveCmd := ''bash'',
     ag_HeadlessCmd := ''sh -c '' @ [CHR 34] @ ''PROMPT'' @ [CHR 34],
     ag_SubmitSequence := ''Enter'',
     ag_PromptMode := PromptModeHeadless\<rparr>"

definition idle_agent :: "Definition" where
  "idle_agent = blank_agent\<lparr>
     ag_Type := ''idle'',
     ag_Description := ''No-op container '' @ [CHR 0xE2, CHR 0x80, CHR 0x94]
      @ '' keeps the sandbox running without an AI agent. Default for mcp-proxy.'',
     ag_InteractiveCmd := ''tail -f /dev/null'',
     ag_HeadlessCmd := ''tail -f /dev/null'',
     ag_SubmitSequence := ''Enter'',
     ag_PromptMode := PromptModeInteractive\<rparr>"

type_synonym agents = "(string \<times> Definition) list"

text \<open>The map literal of \<open>agent.go\<close>, before the shell agent is derived from it.\<close>

definition agent_table :: "codecs \<Rightarrow> string \<Rightarrow> agents" where
  "agent_table C plugin = [(''aider'', aider_agent), (''claude'', claude_agent), (''gemini'', gemini_agent),
     (''opencode'', opencode_agent plugin), (''codex'', codex_agent C), (''test'', test_agent), (''idle'', idle_agent)]"

definition GetAgent :: "agents \<Rightarrow> string \<Rightarrow> Definition option" where
  "GetAgent A name = map_of A name"

definition AllAgentTypes :: "agents \<Rightarrow> string list" where
  "AllAgentTypes A = sort (map fst A)"

definition RealAgents :: "agents \<Rightarrow> string list" where
  "RealAgents A = sort (filter (\<lambda>n. n \<notin> {''test'', ''shell'', ''idle''}) (map fst A))"

definition StateRelPath :: "Definition \<Rightarrow> string" where
  "StateRelPath d = (let p = TrimSuffix (ag_StateDir d) ''/''
     in if ag_StateDir d = [] then [] else if HasPrefix p ''/home/yoloai/'' then drop (length ''/home/yoloai/'') p else [])"

definition remap_seed :: "Definition \<Rightarrow> SeedFile \<Rightarrow> SeedFile" where
  "remap_seed ag sf =
     (let r = sf\<lparr>sf_OwnerAPIKeys := ag_APIKeyEnvVars ag\<rparr>
      in if sf_HomeDir sf then r
         else r\<lparr>sf_HomeDir := True, sf_TargetPath := Base (ag_StateDir ag) @ ''/'' @ sf_TargetPath sf\<rparr>)"

text \<open>Append the elements that have not been seen, in order.\<close>

fun add_new :: "string list \<Rightarrow> string list \<Rightarrow> string list" where
  "add_new acc [] = acc"
| "add_new acc (x # xs) = add_new (if x \<in> set acc then acc else acc @ [x]) xs"

definition shell_step :: "agents \<Rightarrow> SeedFile list \<times> string list \<times> string list \<Rightarrow> string \<Rightarrow>
    SeedFile list \<times> string list \<times> string list" where
  "shell_step A acc name = (case (acc, GetAgent A name) of
     ((seeds, keys, domains), Some ag) \<Rightarrow>
       (seeds @ map (remap_seed ag) (ag_SeedFiles ag), add_new keys (ag_APIKeyEnvVars ag), add_new domains (ag_NetworkAllowlist ag))
   | (_, None) \<Rightarrow> acc)"

definition shell_intro :: string where
  "shell_intro = ''bash -c '' @ [CHR 39] @ ''printf '' @ [CHR 34, CHR 92] @ ''n  yoloai shell ''
      @ [CHR 0xE2, CHR 0x80, CHR 0x94] @ '' launch any agent with yolo-<name>'' @ [CHR 92]
      @ ''n  Available: yolo-aider  yolo-claude  yolo-codex  yolo-gemini  yolo-opencode'' @ [CHR 92]
      @ ''n'' @ [CHR 92] @ ''n'' @ [CHR 34] @ ''; exec bash'' @ [CHR 39]"

definition buildShellAgent :: "agents \<Rightarrow> Definition" where
  "buildShellAgent A =
     (case foldl (shell_step A) ([], [], []) (RealAgents A) of (seeds, keys, domains) \<Rightarrow>
        blank_agent\<lparr>ag_Type := ''shell'', ag_Description := ''Bash shell with all agents'' @ [CHR 39] @ '' credentials seeded'',
          ag_InteractiveCmd := shell_intro, ag_HeadlessCmd := ''sh -c '' @ [CHR 34] @ ''PROMPT'' @ [CHR 34],
          ag_PromptMode := PromptModeHeadless, ag_APIKeyEnvVars := keys, ag_SeedFiles := seeds,
          ag_SubmitSequence := ''Enter'', ag_NetworkAllowlist := domains, ag_SeedsAllAgents := True\<rparr>)"

definition builtin_agents :: "codecs \<Rightarrow> string \<Rightarrow> agents" where
  "builtin_agents C plugin = (let A = agent_table C plugin in A @ [(''shell'', buildShellAgent A)])"

section \<open>Agents defined in files\<close>

record FileAgentSeedFile =
  fs_HostPath :: string
  fs_TargetPath :: string
  fs_AuthOnly :: bool
  fs_HomeDir :: bool

record FileAgentSpec =
  fa_Type :: string
  fa_Description :: string
  fa_InteractiveCmd :: string
  fa_HeadlessCmd :: string
  fa_PromptMode :: string
  fa_APIKeyEnvVars :: "string list"
  fa_AuthHintEnvVars :: "string list"
  fa_AuthOptional :: bool
  fa_SeedFiles :: "FileAgentSeedFile list"
  fa_StateDir :: string
  fa_SubmitSequence :: string
  fa_StartupDelayMS :: int
  fa_ReadyPattern :: string
  fa_ContextSignal :: bool
  fa_WchanApplicable :: bool
  fa_ModelFlag :: string
  fa_ModelAliases :: "(string \<times> string) list"
  fa_ModelPrefixes :: "(string \<times> string) list"
  fa_NetworkAllowlist :: "string list"
  fa_ContextFile :: string
  fa_AgentFilesExclude :: "string list"

definition toDefinition :: "FileAgentSpec \<Rightarrow> Definition" where
  "toDefinition s = blank_agent\<lparr>
     ag_Type := fa_Type s, ag_Description := fa_Description s, ag_InteractiveCmd := fa_InteractiveCmd s,
     ag_HeadlessCmd := fa_HeadlessCmd s,
     ag_PromptMode := (if fa_PromptMode s = [] then PromptModeInteractive else fa_PromptMode s),
     ag_APIKeyEnvVars := fa_APIKeyEnvVars s, ag_AuthHintEnvVars := fa_AuthHintEnvVars s,
     ag_AuthOptional := fa_AuthOptional s,
     ag_SeedFiles := map (\<lambda>f. seed_file\<lparr>sf_HostPath := fs_HostPath f, sf_TargetPath := fs_TargetPath f,
       sf_AuthOnly := fs_AuthOnly f, sf_HomeDir := fs_HomeDir f\<rparr>) (fa_SeedFiles s),
     ag_StateDir := fa_StateDir s, ag_SubmitSequence := fa_SubmitSequence s, ag_StartupDelay := fa_StartupDelayMS s,
     ag_Idle := \<lparr>is_Hook = False, ReadyPattern = fa_ReadyPattern s, ContextSignal = fa_ContextSignal s,
       WchanApplicable = fa_WchanApplicable s\<rparr>,
     ag_ModelFlag := fa_ModelFlag s, ag_ModelAliases := fa_ModelAliases s, ag_ModelPrefixes := fa_ModelPrefixes s,
     ag_NetworkAllowlist := fa_NetworkAllowlist s, ag_ContextFile := fa_ContextFile s,
     ag_AgentFilesExclude := fa_AgentFilesExclude s, ag_UserDefined := True\<rparr>"

definition validAgentTypeName :: "string \<Rightarrow> bool" where
  "validAgentTypeName s = (case s of [] \<Rightarrow> False
     | c # cs \<Rightarrow> is_lower c \<and> list_all (\<lambda>x. is_lower x \<or> is_digit x \<or> x = CHR ''-'') cs)"

definition file_agent_error :: "string \<Rightarrow> string \<Rightarrow> gerror" where
  "file_agent_error b m = errorf (''file-defined agent '' @ b @ m)"

definition validateFileAgentSpec :: "FileAgentSpec \<Rightarrow> string \<Rightarrow> string list \<Rightarrow> (gerror, unit) result" where
  "validateFileAgentSpec s filePath builtIns =
     (let b = Base filePath in
      if fa_Type s = [] then Inl (file_agent_error b '': type is required'')
      else if \<not> validAgentTypeName (fa_Type s) then
        Inl (file_agent_error b ('': type '' @ fa_Type s @ '' must match [a-z][a-z0-9-]* (lowercase kebab-case)''))
      else if fa_InteractiveCmd s = [] \<and> fa_HeadlessCmd s = [] then
        Inl (file_agent_error b ('' (type '' @ fa_Type s @ ''): at least one of interactive_cmd or headless_cmd is required''))
      else if fa_PromptMode s \<noteq> [] \<and> fa_PromptMode s \<noteq> PromptModeInteractive \<and> fa_PromptMode s \<noteq> PromptModeHeadless then
        Inl (file_agent_error b ('' (type '' @ fa_Type s @ ''): prompt_mode must be '' @ PromptModeInteractive @ '' or ''
          @ PromptModeHeadless @ '', got '' @ fa_PromptMode s))
      else if fa_Type s \<in> set builtIns then
        Inl (file_agent_error b ('': type '' @ fa_Type s @ '' is a reserved built-in name''))
      else Inr ())"

text \<open>
  The files of the directory in the order the two patterns list them, each with what reading it gave;
  \<open>yaml\<close> is the YAML decoder.
\<close>

fun load_agents :: "(string \<Rightarrow> (gerror, FileAgentSpec) result) \<Rightarrow> string list \<Rightarrow>
    (string \<times> (gerror, string) result) list \<Rightarrow> (gerror, Definition list) result" where
  "load_agents yaml builtIns [] = Inr []"
| "load_agents yaml builtIns ((f, r) # fs) =
     res_bind (res_ctx (''file-defined agent '' @ Base f) r) (\<lambda>data.
     res_bind (res_ctx (''file-defined agent '' @ Base f @ '': YAML parse error'') (yaml data)) (\<lambda>spec.
     res_bind (validateFileAgentSpec spec f builtIns) (\<lambda>_.
     res_bind (load_agents yaml builtIns fs) (\<lambda>defs. Inr (toDefinition spec # defs)))))"

definition LoadFileAgents :: "(string \<Rightarrow> (gerror, FileAgentSpec) result) \<Rightarrow> agents \<Rightarrow>
    (string \<times> (gerror, string) result) list \<Rightarrow> (gerror, Definition list) result" where
  "LoadFileAgents yaml A files =
     (let yamls = filter (\<lambda>f. HasSuffix (fst f) ''.yaml'') files; ymls = filter (\<lambda>f. HasSuffix (fst f) ''.yml'') files
      in load_agents yaml (map fst A) (yamls @ ymls))"

definition RegisterFileAgents :: "(string \<Rightarrow> (gerror, FileAgentSpec) result) \<Rightarrow> agents \<Rightarrow>
    (string \<times> (gerror, string) result) list \<Rightarrow> (gerror, agents) result" where
  "RegisterFileAgents yaml A files =
     res_bind (LoadFileAgents yaml A files) (\<lambda>defs. Inr (foldl (\<lambda>B d. AList.update (ag_Type d) d B) A defs))"

section \<open>The environment specification of an agent\<close>

datatype settings_dir = AgentRuntimeDir | HomeSeedSub string

record SettingsPatch =
  sp_Dir :: settings_dir
  sp_FileName :: string
  sp_Apply :: "obj \<Rightarrow> obj"

record EnvSpec =
  es_APIKeyEnvVars :: "string list"
  es_AuthHintEnvVars :: "string list"
  es_SeedFiles :: "SeedFile list"
  es_StateRelPath :: string
  es_HasStateDir :: bool
  es_AgentFilesExclude :: "string list"
  es_ContextFile :: string
  es_SettingsPatches :: "SettingsPatch list"
  es_ShortLivedOAuthWarning :: bool
  es_AgentName :: string
  es_UserDefined :: bool

definition settings_patch :: "settings_dir \<Rightarrow> Definition \<Rightarrow> SettingsPatch list" where
  "settings_patch dir d = (case ag_ApplySettings d of
     Some f \<Rightarrow> if ag_StateDir d = [] then [] else [\<lparr>sp_Dir = dir, sp_FileName = ag_SettingsFileName d, sp_Apply = f\<rparr>]
   | None \<Rightarrow> [])"

definition settingsPatches :: "agents \<Rightarrow> Definition \<Rightarrow> SettingsPatch list" where
  "settingsPatches A d =
     (if ag_SeedsAllAgents d
      then concat (map (\<lambda>name. case GetAgent A name of
             Some ag \<Rightarrow> settings_patch (HomeSeedSub (Base (ag_StateDir ag))) ag | None \<Rightarrow> []) (RealAgents A))
      else settings_patch AgentRuntimeDir d)"

definition BuildEnvSpec :: "agents \<Rightarrow> Definition \<Rightarrow> EnvSpec" where
  "BuildEnvSpec A d = \<lparr>es_APIKeyEnvVars = ag_APIKeyEnvVars d, es_AuthHintEnvVars = ag_AuthHintEnvVars d,
     es_SeedFiles = ag_SeedFiles d, es_StateRelPath = StateRelPath d, es_HasStateDir = (ag_StateDir d \<noteq> []),
     es_AgentFilesExclude = ag_AgentFilesExclude d, es_ContextFile = ag_ContextFile d,
     es_SettingsPatches = settingsPatches A d, es_ShortLivedOAuthWarning = ag_ShortLivedOAuthWarning d,
     es_AgentName = ag_Type d, es_UserDefined = ag_UserDefined d\<rparr>"

section \<open>Credential selection\<close>

lemma select_from_Some:
  "select_from cs env = Some (c, v) \<Longrightarrow> c \<in> set cs \<and> env (bc_EnvVar c) = Some v \<and> v \<noteq> []"
  by (induction cs) (auto split: option.splits if_splits)

lemma select_from_None:
  "select_from cs env = None \<longleftrightarrow> (\<forall>c \<in> set cs. env (bc_EnvVar c) \<in> {None, Some []})"
  by (induction cs) (auto split: option.splits if_splits)

text \<open>Which credential is selected depends only on which of them have a value.\<close>

definition has_value :: "(string \<rightharpoonup> string) \<Rightarrow> string \<Rightarrow> bool" where
  "has_value env k \<longleftrightarrow> env k \<notin> {None, Some []}"

lemma select_from_presence:
  assumes "\<And>c. c \<in> set cs \<Longrightarrow> has_value env (bc_EnvVar c) = has_value env' (bc_EnvVar c)"
  shows "map_option fst (select_from cs env) = map_option fst (select_from cs env')"
  using assms
proof (induction cs)
  case (Cons c cs)
  have IH: "map_option fst (select_from cs env) = map_option fst (select_from cs env')"
    by (rule Cons.IH) (simp add: Cons.prems)
  have "has_value env (bc_EnvVar c) = has_value env' (bc_EnvVar c)" by (simp add: Cons.prems)
  then show ?case using IH by (auto simp: has_value_def split: option.splits if_splits)
qed simp

section \<open>Hook injection\<close>

lemma update_triv: "map_of s k = Some v \<Longrightarrow> AList.update k v s = s"
  by (induction s) auto

lemma arr_at_update [simp]:
  "arr_at (AList.update k (JArr xs) h) e = (if e = k then xs else arr_at h e)"
  by (simp add: arr_at_def)

lemma hook_group_runs: "hookEventHasCommand (xs @ [hook_group c]) c"
  by (simp add: hookEventHasCommand_def hook_group_def hook_runs_def arr_at_def)

lemma hookEventHasCommand_append [simp]:
  "hookEventHasCommand (xs @ ys) c \<longleftrightarrow> hookEventHasCommand xs c \<or> hookEventHasCommand ys c"
  by (simp add: hookEventHasCommand_def)

lemma append_has: "hookEventHasCommand (arr_at (appendHookGroup h e c (hook_group c)) e) c"
  using hook_group_runs by (auto simp: appendHookGroup_def Let_def simp del: hookEventHasCommand_append)

lemma append_mono:
  "hookEventHasCommand (arr_at h e') c' \<Longrightarrow> hookEventHasCommand (arr_at (appendHookGroup h e c g) e') c'"
  by (auto simp: appendHookGroup_def Let_def)

lemma append_keeps: "set (arr_at h e') \<subseteq> set (arr_at (appendHookGroup h e c g) e')"
  by (auto simp: appendHookGroup_def Let_def)

lemma append_noop: "hookEventHasCommand (arr_at h e) c \<Longrightarrow> appendHookGroup h e c g = h"
  by (simp add: appendHookGroup_def)

text \<open>All three agents inject a fixed list of (event, command) pairs under the key \<open>hooks\<close>.\<close>

definition add_hooks :: "(string \<times> string) list \<Rightarrow> obj \<Rightarrow> obj" where
  "add_hooks L h = foldl (\<lambda>h (e, c). appendHookGroup h e c (hook_group c)) h L"

definition inject :: "(string \<times> string) list \<Rightarrow> obj \<Rightarrow> obj" where
  "inject L s = AList.update ''hooks'' (JObj (add_hooks L (obj_at s ''hooks''))) s"

lemma inject_defs:
  "injectGeminiHook s = inject [(''BeforeAgent'', geminiActiveCommand), (''AfterAgent'', geminiIdleCommand)] s"
  "injectCodexHooks s = inject [(''UserPromptSubmit'', statusActiveCommand), (''PreToolUse'', statusActiveCommand),
     (''Stop'', statusIdleCommand)] s"
  "injectIdleHook s = inject [(''Stop'', statusIdleCommand), (''PreToolUse'', statusActiveCommand),
     (''UserPromptSubmit'', statusActiveCommand)] s"
  by (simp_all add: injectGeminiHook_def injectCodexHooks_def injectIdleHook_def inject_def add_hooks_def Let_def)

definition has_hooks :: "(string \<times> string) list \<Rightarrow> obj \<Rightarrow> bool" where
  "has_hooks L h \<longleftrightarrow> (\<forall>(e, c) \<in> set L. hookEventHasCommand (arr_at h e) c)"

lemma add_hooks_mono:
  "hookEventHasCommand (arr_at h e) c \<Longrightarrow> hookEventHasCommand (arr_at (add_hooks L h) e) c"
  by (induction L arbitrary: h) (auto simp: add_hooks_def append_mono)

lemma add_hooks_has: "has_hooks L (add_hooks L h)"
proof (induction L arbitrary: h)
  case (Cons ec L)
  obtain e c where ec: "ec = (e, c)" by force
  have "hookEventHasCommand (arr_at (add_hooks L (appendHookGroup h e c (hook_group c))) e) c"
    by (rule add_hooks_mono) (rule append_has)
  with Cons.IH [of "appendHookGroup h e c (hook_group c)"] show ?case
    by (simp add: has_hooks_def add_hooks_def ec)
qed (simp add: has_hooks_def)

lemma add_hooks_noop: "has_hooks L h \<Longrightarrow> add_hooks L h = h"
  by (induction L) (auto simp: has_hooks_def add_hooks_def append_noop)

lemma add_hooks_keeps: "set (arr_at h e) \<subseteq> set (arr_at (add_hooks L h) e)"
  by (induction L arbitrary: h) (auto simp: add_hooks_def dest: subsetD [OF append_keeps])

lemma obj_at_update [simp]: "obj_at (AList.update k (JObj x) s) k' = (if k' = k then x else obj_at s k')"
  by (simp add: obj_at_def)

lemma obj_at_map_of: "map_of s k = map_of t k \<Longrightarrow> obj_at s k = obj_at t k"
  by (simp add: obj_at_def)

lemma inject_done: "map_of s ''hooks'' = Some (JObj h) \<Longrightarrow> has_hooks L h \<Longrightarrow> inject L s = s"
  by (simp add: inject_def obj_at_def add_hooks_noop update_triv)

lemma inject_idem: "inject L (inject L s) = inject L s"
  by (rule inject_done [of _ "add_hooks L (obj_at s ''hooks'')"]) (simp_all add: inject_def add_hooks_has)

lemma inject_keeps: "set (arr_at (obj_at s ''hooks'') e) \<subseteq> set (arr_at (obj_at (inject L s) ''hooks'') e)"
  by (simp add: inject_def add_hooks_keeps)

lemma inject_other: "k \<noteq> ''hooks'' \<Longrightarrow> map_of (inject L s) k = map_of s k"
  by (simp add: inject_def)

text \<open>A settings patch is stable when applying it again changes nothing and the hooks of the user survive.\<close>

definition stable_patch :: "(obj \<Rightarrow> obj) \<Rightarrow> bool" where
  "stable_patch f \<longleftrightarrow> (\<forall>s. f (f s) = f s
     \<and> (\<forall>e. set (arr_at (obj_at s ''hooks'') e) \<subseteq> set (arr_at (obj_at (f s) ''hooks'') e)))"

lemma stable_inject: "stable_patch (inject L)"
  by (simp add: stable_patch_def inject_idem inject_keeps)

lemma gemini_stable: "stable_patch gemini_settings"
proof -
  define u where "u s = AList.update ''security''
    (JObj (AList.update ''folderTrust'' (JObj [(''enabled'', JBool False)]) (obj_at s ''security''))) s" for s :: obj
  define L where "L = [(''BeforeAgent'', geminiActiveCommand), (''AfterAgent'', geminiIdleCommand)]"
  have f: "gemini_settings s = inject L (u s)" for s
    by (simp add: gemini_settings_def u_def inject_defs L_def)
  have u: "u (inject L (u s)) = inject L (u s)" for s
  proof -
    have sec: "map_of (inject L (u s)) ''security'' =
        Some (JObj (AList.update ''folderTrust'' (JObj [(''enabled'', JBool False)]) (obj_at s ''security'')))"
      by (simp add: inject_other u_def)
    then have at: "obj_at (inject L (u s)) ''security'' =
        AList.update ''folderTrust'' (JObj [(''enabled'', JBool False)]) (obj_at s ''security'')"
      by (simp add: obj_at_def)
    show ?thesis unfolding u_def [of "inject L (u s)"] at
      by (rule update_triv) (simp add: sec update_triv)
  qed
  have hooks: "obj_at (u s) ''hooks'' = obj_at s ''hooks''" for s by (simp add: u_def)
  show ?thesis unfolding stable_patch_def
    using inject_keeps [of "u _" _ L] by (simp add: f u inject_idem hooks)
qed

definition claude_base :: "obj \<Rightarrow> obj" where
  "claude_base s =
     (let a1 = AList.update ''skipDangerousModePermissionPrompt'' (JBool True) s;
          a2 = (if map_of a1 ''tui'' = None then AList.update ''tui'' (JStr ''default'') a1 else a1);
          a3 = AList.update ''sandbox'' (JObj [(''enabled'', JBool False)]) a2;
          a4 = AList.update ''preferredNotifChannel'' (JStr ''terminal_bell'') a3
      in AList.update ''env'' (JObj (AList.update ''DISABLE_AUTOUPDATER'' (JStr ''1'') (obj_at a4 ''env''))) a4)"

lemma claude_base_done:
  assumes "map_of s ''skipDangerousModePermissionPrompt'' = Some (JBool True)" "map_of s ''tui'' \<noteq> None"
    "map_of s ''sandbox'' = Some (JObj [(''enabled'', JBool False)])"
    "map_of s ''preferredNotifChannel'' = Some (JStr ''terminal_bell'')"
    "map_of s ''env'' = Some (JObj E)" "map_of E ''DISABLE_AUTOUPDATER'' = Some (JStr ''1'')"
  shows "claude_base s = s"
  using assms by (auto simp: claude_base_def Let_def update_triv obj_at_def)

lemma claude_base_keys:
  "map_of (claude_base s) ''skipDangerousModePermissionPrompt'' = Some (JBool True)"
  "map_of (claude_base s) ''tui'' \<noteq> None"
  "map_of (claude_base s) ''sandbox'' = Some (JObj [(''enabled'', JBool False)])"
  "map_of (claude_base s) ''preferredNotifChannel'' = Some (JStr ''terminal_bell'')"
  "\<exists>E. map_of (claude_base s) ''env'' = Some (JObj E) \<and> map_of E ''DISABLE_AUTOUPDATER'' = Some (JStr ''1'')"
  "map_of (claude_base s) ''hooks'' = map_of s ''hooks''"
  by (simp_all add: claude_base_def Let_def)

lemma claude_stable: "stable_patch claude_settings"
proof -
  define L where "L = [(''Stop'', statusIdleCommand), (''PreToolUse'', statusActiveCommand),
     (''UserPromptSubmit'', statusActiveCommand)]"
  have f: "claude_settings s = inject L (claude_base s)" for s
    by (simp add: claude_settings_def claude_base_def Let_def inject_defs L_def)
  have b: "claude_base (inject L (claude_base s)) = inject L (claude_base s)" for s
  proof -
    obtain E where E: "map_of (claude_base s) ''env'' = Some (JObj E)" "map_of E ''DISABLE_AUTOUPDATER'' = Some (JStr ''1'')"
      using claude_base_keys(5) [of s] by blast
    show ?thesis
      by (rule claude_base_done [of _ E]) (simp_all add: inject_other claude_base_keys(1-4) E del: not_None_eq)
  qed
  have hooks: "obj_at (claude_base s) ''hooks'' = obj_at s ''hooks''" for s
    by (rule obj_at_map_of) (rule claude_base_keys(6))
  show ?thesis unfolding stable_patch_def
    using inject_keeps [of "claude_base _" _ L] by (simp add: f b inject_idem hooks)
qed

section \<open>The built-in table\<close>

lemmas agent_defs = aider_agent_def claude_agent_def gemini_agent_def opencode_agent_def codex_agent_def
  test_agent_def idle_agent_def blank_agent_def

lemma table_cases:
  "(n, d) \<in> set (agent_table C plugin) \<Longrightarrow>
     d \<in> {aider_agent, claude_agent, gemini_agent, opencode_agent plugin, codex_agent C, test_agent, idle_agent}"
  by (auto simp: agent_table_def)

lemma table_ApplySettings:
  assumes "(n, d) \<in> set (agent_table C plugin)" "ag_ApplySettings d = Some f"
  shows "f \<in> {claude_settings, gemini_settings, injectCodexHooks}"
  using table_cases [OF assms(1)] assms(2) by (auto simp: agent_defs)

lemma shell_plain: "ag_ApplySettings (buildShellAgent A) = None" "ag_Broker (buildShellAgent A) = None"
  "ag_DirectCredential (buildShellAgent A) = None" "ag_WorkdirTrust (buildShellAgent A) = None"
  by (simp_all add: buildShellAgent_def blank_agent_def split: prod.splits)

text \<open>
  C29: patching the settings of an agent is idempotent and additive. For every built-in agent that
  patches its settings file, and whatever the file holds, a second patch changes nothing (so
  refreshing on every start does not grow the file), and every hook group the user configured for an
  event is still configured for it.
\<close>

theorem settings_patches_are_stable:
  assumes "GetAgent (builtin_agents C plugin) n = Some d" and "ag_ApplySettings d = Some f"
  shows "f (f s) = f s \<and> set (arr_at (obj_at s ''hooks'') e) \<subseteq> set (arr_at (obj_at (f s) ''hooks'') e)"
proof -
  have "(n, d) \<in> set (agent_table C plugin) \<or> d = buildShellAgent (agent_table C plugin)"
    using map_of_SomeD [OF assms(1) [unfolded GetAgent_def]] by (auto simp: builtin_agents_def Let_def)
  then have "(n, d) \<in> set (agent_table C plugin)" using assms(2) shell_plain by auto
  then have "f \<in> {claude_settings, gemini_settings, injectCodexHooks}"
    using assms(2) by (rule table_ApplySettings)
  moreover have "stable_patch injectCodexHooks"
    using stable_inject by (simp add: inject_defs stable_patch_def)
  ultimately have "stable_patch f" using claude_stable gemini_stable by blast
  then show ?thesis by (simp add: stable_patch_def)
qed

theorem settings_patches_are_stable_witness:
  "claude_settings (claude_settings []) = claude_settings []"
proof -
  let ?C = "\<lparr>toml_dec = (\<lambda>_. None), toml_enc = (\<lambda>_. None), json_dec = (\<lambda>_. None), json_enc = (\<lambda>_. None)\<rparr>"
  have d: "GetAgent (builtin_agents ?C []) ''claude'' = Some claude_agent"
    by (simp add: GetAgent_def builtin_agents_def agent_table_def)
  have f: "ag_ApplySettings claude_agent = Some claude_settings" by (simp add: claude_agent_def)
  show ?thesis using settings_patches_are_stable [OF d f, of "[]" "[]"] by simp
qed

lemma builtin_cases:
  assumes "GetAgent (builtin_agents C plugin) n = Some d"
  shows "(n, d) \<in> set (agent_table C plugin) \<or> d = buildShellAgent (agent_table C plugin)"
  using map_of_SomeD [OF assms [unfolded GetAgent_def]] by (auto simp: builtin_agents_def Let_def)

text \<open>
  Every credential variable of a brokerable built-in agent is one its broker knows: brokering removes
  all of them, so none is left for the environment or for the credential file of the agent.
\<close>

lemma agent_brokers:
  "ag_Broker aider_agent = None" "ag_Broker claude_agent = Some claude_broker"
  "ag_Broker gemini_agent = Some gemini_broker" "ag_Broker (opencode_agent plugin) = None"
  "ag_Broker (codex_agent C) = Some (codex_broker C)" "ag_Broker test_agent = None" "ag_Broker idle_agent = None"
  by (simp_all add: agent_defs)

lemma broker_covers_credentials:
  assumes "GetAgent (builtin_agents C plugin) n = Some d" and "ag_Broker d = Some bc"
  shows "set (ag_APIKeyEnvVars d) \<subseteq> bc_EnvVar ` set (Credentials bc) \<and> ag_AuthHintEnvVars d = []
    \<and> (\<forall>dc. ag_DirectCredential d = Some dc \<longrightarrow> set (dc_EnvVars dc) \<subseteq> bc_EnvVar ` set (Credentials bc))"
proof -
  have "(n, d) \<in> set (agent_table C plugin)" using builtin_cases [OF assms(1)] assms(2) shell_plain(2) by auto
  from table_cases [OF this]
  have "d \<in> {aider_agent, claude_agent, gemini_agent, opencode_agent plugin, codex_agent C, test_agent, idle_agent}" .
  then have "d = claude_agent \<and> bc = claude_broker \<or> d = gemini_agent \<and> bc = gemini_broker \<or> d = codex_agent C \<and> bc = codex_broker C"
    using assms(2) agent_brokers by force
  then show ?thesis
    by (elim disjE conjE) (simp_all add: agent_defs claude_broker_def gemini_broker_def codex_broker_def)
qed

section \<open>The shell agent\<close>

lemma set_add_new: "set (add_new acc xs) = set acc \<union> set xs"
  by (induction xs arbitrary: acc) auto

lemma distinct_add_new: "distinct acc \<Longrightarrow> distinct (add_new acc xs)"
  by (induction xs arbitrary: acc) auto

lemma shell_fold:
  assumes "foldl (shell_step A) (s0, k0, d0) ns = (s1, k1, d1)" and "distinct k0" "distinct d0"
  shows "set s1 = set s0 \<union> (\<Union>n \<in> set ns. case GetAgent A n of Some ag \<Rightarrow> remap_seed ag ` set (ag_SeedFiles ag) | None \<Rightarrow> {})
    \<and> set k1 = set k0 \<union> (\<Union>n \<in> set ns. case GetAgent A n of Some ag \<Rightarrow> set (ag_APIKeyEnvVars ag) | None \<Rightarrow> {})
    \<and> set d1 = set d0 \<union> (\<Union>n \<in> set ns. case GetAgent A n of Some ag \<Rightarrow> set (ag_NetworkAllowlist ag) | None \<Rightarrow> {})
    \<and> distinct k1 \<and> distinct d1"
  using assms
proof (induction ns arbitrary: s0 k0 d0)
  case (Cons n ns)
  have step: "shell_step A (s0, k0, d0) n = (case GetAgent A n of None \<Rightarrow> (s0, k0, d0) | Some ag \<Rightarrow>
      (s0 @ map (remap_seed ag) (ag_SeedFiles ag), add_new k0 (ag_APIKeyEnvVars ag), add_new d0 (ag_NetworkAllowlist ag)))"
    by (simp add: shell_step_def split: option.splits)
  show ?case
  proof (cases "GetAgent A n")
    case None
    then show ?thesis using Cons.IH [OF _ Cons.prems(2,3)] Cons.prems(1) by (simp add: step)
  next
    case (Some ag)
    have "foldl (shell_step A) (s0 @ map (remap_seed ag) (ag_SeedFiles ag), add_new k0 (ag_APIKeyEnvVars ag),
        add_new d0 (ag_NetworkAllowlist ag)) ns = (s1, k1, d1)"
      using Cons.prems(1) Some by (simp add: step)
    from Cons.IH [OF this distinct_add_new [OF Cons.prems(2)] distinct_add_new [OF Cons.prems(3)]]
    show ?thesis by (simp add: Some set_add_new Un_assoc)
  qed
qed simp

text \<open>
  The shell agent offers exactly what the real agents need. Its credential variables and its
  allowed domains are the unions over the agents other than \<open>test\<close>, \<open>shell\<close> and \<open>idle\<close>, each listed
  once, and its seed files are theirs, each tagged with the credential variables of its own agent.
\<close>

theorem shell_agent_is_the_union:
  "set (ag_APIKeyEnvVars (buildShellAgent A)) = (\<Union>n \<in> set (RealAgents A). case GetAgent A n of Some ag \<Rightarrow> set (ag_APIKeyEnvVars ag) | None \<Rightarrow> {})
   \<and> set (ag_NetworkAllowlist (buildShellAgent A)) = (\<Union>n \<in> set (RealAgents A). case GetAgent A n of Some ag \<Rightarrow> set (ag_NetworkAllowlist ag) | None \<Rightarrow> {})
   \<and> set (ag_SeedFiles (buildShellAgent A)) = (\<Union>n \<in> set (RealAgents A). case GetAgent A n of Some ag \<Rightarrow> remap_seed ag ` set (ag_SeedFiles ag) | None \<Rightarrow> {})
   \<and> distinct (ag_APIKeyEnvVars (buildShellAgent A)) \<and> distinct (ag_NetworkAllowlist (buildShellAgent A))"
proof -
  obtain s k d where f: "foldl (shell_step A) ([], [], []) (RealAgents A) = (s, k, d)"
    by (metis prod_cases3)
  from shell_fold [OF f] show ?thesis by (simp add: buildShellAgent_def f blank_agent_def)
qed

text \<open>
  The seed of OpenCode's login lands in \<open>opencode/auth.json\<close> of the shell agent's home, because the
  remapping keeps only the last element of the state directory; OpenCode reads it below
  \<open>.local/share/opencode\<close>.
\<close>

lemma shell_misplaces_opencode_login:
  "StateRelPath (opencode_agent plugin) = ''.local/share/opencode''
   \<and> map sf_TargetPath (map (remap_seed (opencode_agent plugin)) (take 1 (ag_SeedFiles (opencode_agent plugin)))) = [''opencode/auth.json'']"
  by (simp add: StateRelPath_def opencode_agent_def blank_agent_def remap_seed_def seed_file_def Let_def) code_simp

section \<open>Registering agents from files\<close>

lemma load_agents_fresh:
  "load_agents yaml names files = Inr defs \<Longrightarrow> d \<in> set defs \<Longrightarrow>
     ag_Type d \<notin> set names \<and> ag_UserDefined d \<and> ag_Broker d = None \<and> ag_ApplySettings d = None"
proof (induction files arbitrary: defs)
  case (Cons f files)
  obtain n r where f: "f = (n, r)" by force
  from Cons.prems(1) f obtain t spec rest where sp: "validateFileAgentSpec spec n names = Inr ()"
    and rest: "load_agents yaml names files = Inr rest" and defs: "defs = toDefinition spec # rest"
    by auto
  have "fa_Type spec \<notin> set names" using sp by (auto simp: validateFileAgentSpec_def Let_def split: if_splits)
  then show ?case using Cons.IH [OF rest] Cons.prems(2) defs by (auto simp: toDefinition_def blank_agent_def)
qed simp

lemma foldl_update_other:
  "(\<And>d. d \<in> set defs \<Longrightarrow> ag_Type d \<noteq> n) \<Longrightarrow> map_of (foldl (\<lambda>B d. AList.update (ag_Type d) d B) A defs) n = map_of A n"
  by (induction defs arbitrary: A) auto

lemma foldl_update_new:
  "map_of (foldl (\<lambda>B d. AList.update (ag_Type d) d B) A defs) n = Some x \<Longrightarrow> map_of A n = Some x \<or> x \<in> set defs"
  by (induction defs arbitrary: A) (fastforce split: if_splits)+

text \<open>
  A file cannot redefine a built-in agent. When the files of the agents directory load, every
  agent that was registered before is what it was, and every added agent is marked user-defined and
  has neither a broker nor a settings patch.
\<close>

theorem file_agents_never_redefine:
  assumes "RegisterFileAgents yaml A files = Inr B"
  shows "(\<forall>n \<in> set (map fst A). GetAgent B n = GetAgent A n)
    \<and> (\<forall>n d. GetAgent B n = Some d \<longrightarrow> GetAgent A n = Some d \<or> ag_UserDefined d \<and> ag_Broker d = None \<and> ag_ApplySettings d = None)"
proof -
  from assms obtain defs where defs: "LoadFileAgents yaml A files = Inr defs"
    and B: "B = foldl (\<lambda>B d. AList.update (ag_Type d) d B) A defs"
    by (auto simp: RegisterFileAgents_def)
  note fresh = load_agents_fresh [OF defs [unfolded LoadFileAgents_def Let_def]]
  show ?thesis
  proof (intro conjI ballI allI impI)
    fix n assume "n \<in> set (map fst A)"
    then show "GetAgent B n = GetAgent A n"
      unfolding GetAgent_def B by (intro foldl_update_other) (use fresh in blast)
  next
    fix n d assume "GetAgent B n = Some d"
    then have "map_of A n = Some d \<or> d \<in> set defs" unfolding GetAgent_def B by (rule foldl_update_new)
    then show "GetAgent A n = Some d \<or> ag_UserDefined d \<and> ag_Broker d = None \<and> ag_ApplySettings d = None"
      using fresh unfolding GetAgent_def by blast
  qed
qed

definition demo_file_agent :: FileAgentSpec where
  "demo_file_agent = \<lparr>fa_Type = ''mine'', fa_Description = [], fa_InteractiveCmd = ''mine'', fa_HeadlessCmd = [],
     fa_PromptMode = [], fa_APIKeyEnvVars = [], fa_AuthHintEnvVars = [], fa_AuthOptional = False, fa_SeedFiles = [],
     fa_StateDir = [], fa_SubmitSequence = [], fa_StartupDelayMS = 0, fa_ReadyPattern = [], fa_ContextSignal = False,
     fa_WchanApplicable = False, fa_ModelFlag = [], fa_ModelAliases = [], fa_ModelPrefixes = [],
     fa_NetworkAllowlist = [], fa_ContextFile = [], fa_AgentFilesExclude = []\<rparr>"

lemma demo_file_agent_loads:
  "RegisterFileAgents (\<lambda>_. Inr demo_file_agent) [(''idle'', idle_agent)] [(''mine.yml'', Inr [])]
     = Inr [(''idle'', idle_agent), (''mine'', toDefinition demo_file_agent)]"
proof -
  have "validateFileAgentSpec demo_file_agent ''mine.yml'' [''idle''] = Inr ()"
    by (simp add: validateFileAgentSpec_def demo_file_agent_def Let_def validAgentTypeName_def) code_simp
  moreover have "HasSuffix ''mine.yml'' ''.yml''" "\<not> HasSuffix ''mine.yml'' ''.yaml''" by code_simp+
  moreover have "ag_Type (toDefinition demo_file_agent) = ''mine''" by (simp add: toDefinition_def demo_file_agent_def blank_agent_def)
  ultimately show ?thesis by (simp add: RegisterFileAgents_def LoadFileAgents_def Let_def)
qed

theorem file_agents_never_redefine_witness:
  "GetAgent [(''idle'', idle_agent), (''mine'', toDefinition demo_file_agent)] ''idle'' = GetAgent [(''idle'', idle_agent)] ''idle''"
  using file_agents_never_redefine [OF demo_file_agent_loads] by simp

end
