(* ===== verification/HostFS.thy ===== *)
theory HostFS
  imports Effects HostEnv SandboxLayout
begin

text \<open>
  A host file system with symbolic links, shared by the preparation of the agent's home and the work copies:
  a map from absolute paths to files, links and directories, and the calls of \<open>os\<close> that the code makes, which
  follow links the way the kernel does. Every call can be made to fail by the parameter \<open>faults\<close>.
  Permissions, times and ownership are left out.
\<close>

section \<open>The host file system\<close>

datatype hnode = HFile string | HLink string | HDir

type_synonym hfs = "fpath \<rightharpoonup> hnode"

datatype fs_op = FMkdir fpath | FOpen fpath | FWrite fpath | FSymlink fpath | FRemove fpath | FClone fpath

type_synonym faults = "fs_op \<Rightarrow> gerror option"

definition op_ok :: "faults \<Rightarrow> fs_op \<Rightarrow> (hfs, unit) prog" where
  "op_ok E op = p_lift (case E op of Some e \<Rightarrow> Inl e | None \<Rightarrow> Inr ())"

fun host_node :: "hfs \<Rightarrow> fpath \<Rightarrow> hnode option" where
  "host_node fs [] = Some HDir"
| "host_node fs (c # cs) = fs (c # cs)"

definition not_exist :: gerror where "not_exist = GErr ErrNotExist ''no such file or directory''"

definition link_limit :: nat where "link_limit = 40"

text \<open>
  Path resolution from the directory \<open>cur\<close>: the path that is named, which may not exist itself. A link
  is replaced by its target, and more than 40 of them are an error. \<open>resolve_at\<close> forgets which error it was.
\<close>

function resolve_path :: "nat \<Rightarrow> hfs \<Rightarrow> fpath \<Rightarrow> string list \<Rightarrow> (gerror, fpath) result" where
  "resolve_path n fs cur [] = Inr cur"
| "resolve_path n fs cur (c # cs) =
     (if c = [] \<or> c = ''.'' then resolve_path n fs cur cs
      else if c = ''..'' then resolve_path n fs (butlast cur) cs
      else case fs (cur @ [c]) of
          Some (HLink t) \<Rightarrow> (if n = 0 then Inl (errorf ''too many levels of symbolic links'')
             else resolve_path (n - 1) fs (if HasPrefix t ''/'' then [] else cur) (split_slash t @ cs))
        | Some HDir \<Rightarrow> resolve_path n fs (cur @ [c]) cs
        | Some (HFile _) \<Rightarrow> if cs = [] then Inr (cur @ [c]) else Inl (errorf ''not a directory'')
        | None \<Rightarrow> if cs = [] then Inr (cur @ [c]) else Inl not_exist)"
  by pat_completeness auto
termination
  by (relation "measures [\<lambda>(n, _, _, _). n, \<lambda>(_, _, _, cs). length cs]") auto

definition resolve_at :: "nat \<Rightarrow> hfs \<Rightarrow> fpath \<Rightarrow> string list \<Rightarrow> fpath option" where
  "resolve_at n fs cur cs = (case resolve_path n fs cur cs of Inl _ \<Rightarrow> None | Inr p \<Rightarrow> Some p)"

lemma resolve_at_simps [simp]:
  "resolve_at n fs cur [] = Some cur"
  "resolve_at n fs cur (c # cs) =
     (if c = [] \<or> c = ''.'' then resolve_at n fs cur cs
      else if c = ''..'' then resolve_at n fs (butlast cur) cs
      else case fs (cur @ [c]) of
          Some (HLink t) \<Rightarrow> (if n = 0 then None
             else resolve_at (n - 1) fs (if HasPrefix t ''/'' then [] else cur) (split_slash t @ cs))
        | Some HDir \<Rightarrow> resolve_at n fs (cur @ [c]) cs
        | _ \<Rightarrow> if cs = [] then Some (cur @ [c]) else None)"
  by (simp_all add: resolve_at_def split: option.split hnode.split)

declare resolve_path.simps [simp del]

definition Stat :: "hfs \<Rightarrow> fpath \<Rightarrow> hnode option" where
  "Stat fs p = (case resolve_at link_limit fs [] p of None \<Rightarrow> None | Some q \<Rightarrow> host_node fs q)"

text \<open>The directory entry a path names; its last component is not followed.\<close>

definition entry_of :: "hfs \<Rightarrow> fpath \<Rightarrow> fpath option" where
  "entry_of fs p = (if p = [] then Some []
     else case resolve_at link_limit fs [] (butlast p) of
         None \<Rightarrow> None
       | Some q \<Rightarrow> if host_node fs q = Some HDir then Some (q @ [last p]) else None)"

definition Lstat :: "hfs \<Rightarrow> fpath \<Rightarrow> hnode option" where
  "Lstat fs p = (case entry_of fs p of None \<Rightarrow> None | Some e \<Rightarrow> host_node fs e)"

definition host_mkdir :: "faults \<Rightarrow> fpath \<Rightarrow> (hfs, unit) prog" where
  "host_mkdir E p = p_seq (op_ok E (FMkdir p)) (\<lambda>fs. case entry_of fs p of
       None \<Rightarrow> (Inl not_exist, fs)
     | Some e \<Rightarrow> (case host_node fs e of
         None \<Rightarrow> (Inr (), fs(e \<mapsto> HDir))
       | Some HDir \<Rightarrow> (Inr (), fs)
       | Some _ \<Rightarrow> (Inl (errorf ''file exists''), fs)))"

text \<open>\<open>os.MkdirAll\<close>\<close>

function mkdir_all :: "faults \<Rightarrow> fpath \<Rightarrow> (hfs, unit) prog" where
  "mkdir_all E p = (\<lambda>fs. case Stat fs p of
       Some HDir \<Rightarrow> (Inr (), fs)
     | Some _ \<Rightarrow> (Inl (errorf ''not a directory''), fs)
     | None \<Rightarrow> p_seq (if p = [] then p_ret () else mkdir_all E (butlast p)) (host_mkdir E p) fs)"
  by pat_completeness auto
termination
  by (relation "measure (\<lambda>(_, p). length p)") auto

declare mkdir_all.simps [simp del]

text \<open>Opening with \<open>O_CREATE|O_WRONLY|O_TRUNC\<close> and writing; the last component is followed if it is a link.\<close>

definition open_trunc :: "faults \<Rightarrow> fpath \<Rightarrow> string \<Rightarrow> (hfs, unit) prog" where
  "open_trunc E p d = p_seq (op_ok E (FOpen p)) (\<lambda>fs. case resolve_at link_limit fs [] p of
       None \<Rightarrow> (Inl not_exist, fs)
     | Some q \<Rightarrow> (if host_node fs q = Some HDir then (Inl (errorf ''is a directory''), fs)
         else case E (FWrite p) of
             Some e \<Rightarrow> (Inl e, fs(q \<mapsto> HFile []))
           | None \<Rightarrow> (Inr (), fs(q \<mapsto> HFile d))))"

definition os_symlink :: "faults \<Rightarrow> string \<Rightarrow> fpath \<Rightarrow> (hfs, unit) prog" where
  "os_symlink E t p = p_seq (op_ok E (FSymlink p)) (\<lambda>fs. case entry_of fs p of
       None \<Rightarrow> (Inl not_exist, fs)
     | Some e \<Rightarrow> (case host_node fs e of
         None \<Rightarrow> (Inr (), fs(e \<mapsto> HLink t))
       | Some _ \<Rightarrow> (Inl (errorf ''file exists''), fs)))"

text \<open>Removing the entry \<open>e\<close> and all below it; \<open>os.RemoveAll\<close> and \<open>os.Remove\<close> of a file or link.\<close>

definition without :: "hfs \<Rightarrow> fpath \<Rightarrow> hfs" where
  "without fs e = (\<lambda>x. if take (length e) x = e then None else fs x)"

definition remove_all :: "faults \<Rightarrow> fpath \<Rightarrow> (hfs, unit) prog" where
  "remove_all E p = p_seq (op_ok E (FRemove p)) (\<lambda>fs. case entry_of fs p of
       None \<Rightarrow> (Inr (), fs)
     | Some e \<Rightarrow> (Inr (), without fs e))"

definition remove_file :: "faults \<Rightarrow> fpath \<Rightarrow> (hfs, unit) prog" where
  "remove_file E p = p_seq (op_ok E (FRemove p)) (\<lambda>fs. case entry_of fs p of
       None \<Rightarrow> (Inl not_exist, fs)
     | Some e \<Rightarrow> if fs e = None then (Inl not_exist, fs) else (Inr (), fs(e := None)))"

text \<open>
  A walk over the host that collects entries and then removes them: the entry of the root, and below it
  all paths whose relative path and node satisfy a predicate. One verdict covers the removals.
\<close>

definition remove_below :: "faults \<Rightarrow> fpath \<Rightarrow> (fpath \<Rightarrow> hnode \<Rightarrow> bool) \<Rightarrow> (hfs, unit) prog" where
  "remove_below E root doomed = (\<lambda>fs. case entry_of fs root of
       None \<Rightarrow> (Inl not_exist, fs)
     | Some e \<Rightarrow> (if host_node fs e = None then (Inl not_exist, fs)
         else p_seq (op_ok E (FRemove root)) (\<lambda>fs. (Inr (), \<lambda>x.
           if take (length e) x = e \<and> (case fs x of Some n \<Rightarrow> doomed (drop (length e) x) n | None \<Rightarrow> False) then None
           else fs x)) fs))"

section \<open>Names, directories and links on the host\<close>

definition plain_name :: "string \<Rightarrow> bool" where
  "plain_name n \<longleftrightarrow> n \<noteq> [] \<and> n \<noteq> ''.'' \<and> n \<noteq> ''..''"

definition real_dir :: "hfs \<Rightarrow> fpath \<Rightarrow> bool" where
  "real_dir fs p \<longleftrightarrow> list_all plain_name p \<and> (\<forall>k<length p. fs (take (Suc k) p) = Some HDir)"

definition unlinked :: "hfs \<Rightarrow> fpath \<Rightarrow> bool" where
  "unlinked fs p \<longleftrightarrow> list_all plain_name p \<and> (\<forall>k<length p. \<forall>t. fs (take (Suc k) p) \<noteq> Some (HLink t))"

lemma real_dir_Nil [simp]: "real_dir fs []"
  by (simp add: real_dir_def)

lemma real_dir_snoc: "real_dir fs (p @ [c]) \<longleftrightarrow> real_dir fs p \<and> plain_name c \<and> fs (p @ [c]) = Some HDir"
  by (auto simp: real_dir_def less_Suc_eq)

lemma unlinked_snoc: "unlinked fs (p @ [c]) \<longleftrightarrow> unlinked fs p \<and> plain_name c \<and> (\<forall>t. fs (p @ [c]) \<noteq> Some (HLink t))"
  by (auto simp: unlinked_def less_Suc_eq)

lemma unlinked_Nil [simp]: "unlinked fs []"
  by (simp add: unlinked_def)

lemma real_dir_unlinked: "real_dir fs p \<Longrightarrow> unlinked fs p"
  by (simp add: real_dir_def unlinked_def)

lemma real_dir_node: "real_dir fs p \<Longrightarrow> host_node fs p = Some HDir"
  by (cases p rule: rev_cases) (auto simp: real_dir_snoc, metis append_is_Nil_conv host_node.elims not_Cons_self2)

lemma host_node_snoc [simp]: "host_node fs (p @ [c]) = fs (p @ [c])"
  by (cases p) auto

lemma resolve_unlinked_from:
  "list_all plain_name cs \<Longrightarrow> (\<And>k t. k < length cs \<Longrightarrow> fs (cur @ take (Suc k) cs) \<noteq> Some (HLink t)) \<Longrightarrow>
     resolve_at n fs cur cs \<in> {None, Some (cur @ cs)}"
proof (induction cs arbitrary: cur)
  case (Cons c cs)
  have "resolve_at n fs (cur @ [c]) cs \<in> {None, Some ((cur @ [c]) @ cs)}"
    by (rule Cons.IH) (use Cons.prems(1) Cons.prems(2) [of "Suc _"] in auto)
  then show ?case using Cons.prems(1) Cons.prems(2) [of 0]
    by (auto simp: plain_name_def split: option.splits hnode.splits)
qed simp

lemma resolve_unlinked: "unlinked fs p \<Longrightarrow> resolve_at n fs [] p \<in> {None, Some p}"
  using resolve_unlinked_from [of p fs "[]" n] by (auto simp: unlinked_def)

lemma resolve_real_from:
  "list_all plain_name cs \<Longrightarrow> (\<And>k. k < length cs \<Longrightarrow> fs (cur @ take (Suc k) cs) = Some HDir) \<Longrightarrow>
     resolve_at n fs cur (cs @ ds) = resolve_at n fs (cur @ cs) ds"
proof (induction cs arbitrary: cur)
  case (Cons c cs)
  have "resolve_at n fs (cur @ [c]) (cs @ ds) = resolve_at n fs ((cur @ [c]) @ cs) ds"
    by (rule Cons.IH) (use Cons.prems(1) Cons.prems(2) [of "Suc _"] in auto)
  then show ?case using Cons.prems(1) Cons.prems(2) [of 0] by (auto simp: plain_name_def)
qed simp

lemma resolve_real: "real_dir fs p \<Longrightarrow> resolve_at n fs [] (p @ ds) = resolve_at n fs p ds"
  using resolve_real_from [of p fs "[]" n ds] by (auto simp: real_dir_def)

lemma resolve_child:
  "real_dir fs p \<Longrightarrow> plain_name c \<Longrightarrow> (\<And>t. fs (p @ [c]) \<noteq> Some (HLink t)) \<Longrightarrow> resolve_at n fs [] (p @ [c]) = Some (p @ [c])"
  by (auto simp: resolve_real plain_name_def split: option.splits hnode.splits)

lemma entry_of_child: "real_dir fs p \<Longrightarrow> entry_of fs (p @ [c]) = Some (p @ [c])"
  using resolve_real [of fs p link_limit "[]"] by (simp add: entry_of_def real_dir_node)

lemma Stat_real: "real_dir fs p \<Longrightarrow> Stat fs p = Some HDir"
  using resolve_real [of fs p link_limit "[]"] by (simp add: Stat_def real_dir_node)

lemma Stat_child:
  "real_dir fs p \<Longrightarrow> plain_name c \<Longrightarrow> (\<And>t. fs (p @ [c]) \<noteq> Some (HLink t)) \<Longrightarrow> Stat fs (p @ [c]) = fs (p @ [c])"
  by (simp add: Stat_def resolve_child)

lemma mkdir_all_real: "real_dir fs p \<Longrightarrow> mkdir_all E p fs = (Inr (), fs)"
  by (subst mkdir_all.simps) (simp add: Stat_real)

lemma entry_of_unlinked: "unlinked fs p \<Longrightarrow> entry_of fs (p @ [c]) \<in> {None, Some (p @ [c])}"
  using resolve_unlinked [of fs p link_limit] by (auto simp: entry_of_def)

section \<open>Below a directory\<close>

definition below :: "fpath \<Rightarrow> fpath \<Rightarrow> bool" where
  "below D x \<longleftrightarrow> take (length D) x = D"

lemma below_append [simp]: "below D (D @ rel)"
  by (simp add: below_def)

lemma belowE: "below D x \<Longrightarrow> (\<And>rel. x = D @ rel \<Longrightarrow> thesis) \<Longrightarrow> thesis"
  by (metis append_take_drop_id below_def)

lemma below_longer: "length x < length D \<Longrightarrow> \<not> below D x"
  by (auto simp: below_def)

lemma below_app: "take (length D + length rel) x = D @ rel \<Longrightarrow> below D x"
proof -
  assume a: "take (length D + length rel) x = D @ rel"
  have "take (length D) x = take (length D) (take (length D + length rel) x)" by (simp add: min_def)
  then show "below D x" using a by (simp add: below_def)
qed

lemma below_deeper: "below (D @ rel) x \<Longrightarrow> below D x"
  by (elim belowE) simp

section \<open>What calls keep\<close>

lemma pkeeps_op_ok [prog_keeps]: "pkeeps I (op_ok E op)"
  by (auto simp: op_ok_def intro: prog_keeps split: option.splits)

lemma pkeeps_guarded: "(\<And>fs. I fs \<Longrightarrow> I (snd (g fs))) \<Longrightarrow> pkeeps I (p_seq (op_ok E op) g)"
  by (rule pkeeps_seq [OF pkeeps_op_ok]) (simp add: pkeeps_def)

section \<open>Writing at given paths\<close>

text \<open>
  \<open>filepath.Join\<close> of a clean absolute path and a string: dots are taken away lexically.
\<close>

definition join_path :: "fpath \<Rightarrow> string \<Rightarrow> fpath" where
  "join_path p s = foldl (\<lambda>q c. if c = [] \<or> c = ''.'' then q else if c = ''..'' then butlast q else q @ [c]) p (split_slash s)"

definition path_string :: "fpath \<Rightarrow> string" where
  "path_string p = (if p = [] then ''/'' else concat (map (\<lambda>c. CHR ''/'' # c) p))"

text \<open>A string that names something strictly below the directory it is joined to.\<close>

definition goes_below :: "string \<Rightarrow> bool" where
  "goes_below s \<longleftrightarrow> ''..'' \<notin> set (split_slash s) \<and> list_ex plain_name (split_slash s)"

lemma join_path_plain: "''..'' \<notin> set (split_slash s) \<Longrightarrow> join_path p s = p @ filter plain_name (split_slash s)"
proof -
  have "''..'' \<notin> set cs \<Longrightarrow> foldl (\<lambda>q c. if c = [] \<or> c = ''.'' then q else if c = ''..'' then butlast q else q @ [c]) p cs
      = p @ filter plain_name cs" for cs
    by (induction cs arbitrary: p) (auto simp: plain_name_def)
  then show "''..'' \<notin> set (split_slash s) \<Longrightarrow> join_path p s = p @ filter plain_name (split_slash s)"
    unfolding join_path_def .
qed

lemma join_path_below: "goes_below s \<Longrightarrow> \<exists>rel. rel \<noteq> [] \<and> join_path p s = p @ rel"
  unfolding goes_below_def
  by (intro exI [of _ "filter plain_name (split_slash s)"]) (auto simp: join_path_plain list_ex_iff filter_empty_conv)

definition strictly_below :: "fpath \<Rightarrow> fpath \<Rightarrow> bool" where
  "strictly_below D x \<longleftrightarrow> below D x \<and> x \<noteq> D"

text \<open>
  Only the paths in a set and the directories on the way to them have changed, no directory has been
  replaced, and there is still no link on the way.
\<close>

definition sealed :: "fpath set \<Rightarrow> hfs \<Rightarrow> hfs \<Rightarrow> bool" where
  "sealed A fs0 fs \<longleftrightarrow>
     (\<forall>x. fs x \<noteq> fs0 x \<longrightarrow> x \<noteq> [] \<and> (\<exists>p\<in>A. below x p) \<and> fs0 x \<noteq> Some HDir) \<and> (\<forall>p\<in>A. unlinked fs p)"

lemma unlinked_prefix: "unlinked fs (p @ q) \<Longrightarrow> unlinked fs p"
proof (induction q rule: rev_induct)
  case (snoc c q)
  then show ?case using unlinked_snoc [of fs "p @ q" c] by simp
qed simp

lemma unlinked_upd: "unlinked fs p \<Longrightarrow> (\<And>t. n \<noteq> HLink t) \<Longrightarrow> unlinked (fs(e \<mapsto> n)) p"
  by (simp add: unlinked_def)

lemma sealed_upd:
  assumes "sealed A fs0 fs" and "p \<in> A" "below x p" and "host_node fs x \<noteq> Some HDir" and "\<And>t. n \<noteq> HLink t"
  shows "sealed A fs0 (fs(x \<mapsto> n))"
proof -
  have "x \<noteq> []" using assms(4) by auto
  moreover from this have "fs x \<noteq> Some HDir" using assms(4) by (cases x) auto
  then have "fs0 x \<noteq> Some HDir" using assms(1) unfolding sealed_def by metis
  ultimately have "y \<noteq> [] \<and> (\<exists>p\<in>A. below y p) \<and> fs0 y \<noteq> Some HDir" if "(fs(x \<mapsto> n)) y \<noteq> fs0 y" for y
    using that assms(1-3) unfolding sealed_def by (cases "y = x") auto
  moreover have "\<forall>p\<in>A. unlinked (fs(x \<mapsto> n)) p"
    using assms(1,5) unlinked_upd unfolding sealed_def by blast
  ultimately show ?thesis unfolding sealed_def by blast
qed

lemma sealed_open_trunc:
  assumes "p \<in> A"
  shows "pkeeps (sealed A fs0) (open_trunc E p d)"
  unfolding open_trunc_def
proof (rule pkeeps_guarded)
  fix fs assume h: "sealed A fs0 fs"
  then have "resolve_at link_limit fs [] p \<in> {None, Some p}" using resolve_unlinked assms by (auto simp: sealed_def)
  then show "sealed A fs0 (snd (case resolve_at link_limit fs [] p of
       None \<Rightarrow> (Inl not_exist, fs)
     | Some q \<Rightarrow> (if host_node fs q = Some HDir then (Inl (errorf ''is a directory''), fs)
         else case E (FWrite p) of
             Some e \<Rightarrow> (Inl e, fs(q \<mapsto> HFile []))
           | None \<Rightarrow> (Inr (), fs(q \<mapsto> HFile d)))))"
    using h assms by (auto intro!: sealed_upd [OF _ assms] simp: below_def split: option.splits)
qed

lemma sealed_mkdir_all:
  assumes "p \<in> A"
  shows "below q p \<Longrightarrow> pkeeps (sealed A fs0) (mkdir_all E q)"
proof (induction q rule: rev_induct)
  case Nil
  then show ?case unfolding pkeeps_def by (subst mkdir_all.simps) (simp add: Stat_real)
next
  case (snoc c q)
  from snoc.prems obtain r where p: "p = q @ c # r" by (elim belowE) simp
  have host: "pkeeps (sealed A fs0) (host_mkdir E (q @ [c]))"
    unfolding host_mkdir_def
  proof (rule pkeeps_guarded)
    fix fs assume h: "sealed A fs0 fs"
    then have "unlinked fs q" using assms p unlinked_prefix unfolding sealed_def by blast
    from entry_of_unlinked [OF this, of c]
    show "sealed A fs0 (snd (case entry_of fs (q @ [c]) of None \<Rightarrow> (Inl not_exist, fs)
       | Some e \<Rightarrow> (case host_node fs e of None \<Rightarrow> (Inr (), fs(e \<mapsto> HDir)) | Some HDir \<Rightarrow> (Inr (), fs)
         | Some _ \<Rightarrow> (Inl (errorf ''file exists''), fs))))"
      using h snoc.prems by (auto intro!: sealed_upd [OF _ assms] split: option.splits hnode.splits)
  qed
  have "below q p" unfolding p by simp
  then have k: "pkeeps (sealed A fs0) (p_seq (mkdir_all E q) (host_mkdir E (q @ [c])))"
    by (intro pkeeps_seq snoc.IH host)
  show ?case unfolding pkeeps_def
  proof (intro allI impI)
    fix fs assume h: "sealed A fs0 fs"
    then show "sealed A fs0 (snd (mkdir_all E (q @ [c]) fs))" using k
      by (subst mkdir_all.simps) (auto simp: pkeeps_def split: option.splits hnode.splits)
  qed
qed

text \<open>A change on the way to a path below a directory that exists is strictly below that directory.\<close>

lemma sealed_strictly_below:
  assumes "real_dir fs0 D" and "x \<noteq> []" "below x (D @ rel)" "fs0 x \<noteq> Some HDir"
  shows "strictly_below D x"
proof -
  have x: "x = take (length x) (D @ rel)" using assms(3) by (simp add: below_def)
  have "\<not> length x \<le> length D"
  proof
    assume l: "length x \<le> length D"
    then obtain k where k: "length x = Suc k" "k < length D" using assms(2) by (cases "length x") auto
    then have "x = take (Suc k) D" using x l by simp
    then show False using assms(1,4) k by (auto simp: real_dir_def)
  qed
  then have l: "length D < length x" by simp
  then have "take (length D) x = D" by (subst x) (simp add: min_def)
  then show ?thesis using l by (auto simp: strictly_below_def below_def)
qed

section \<open>No faults\<close>

definition no_faults :: faults where
  "no_faults = (\<lambda>_. None)"

lemma op_ok_no_faults [simp]: "op_ok no_faults op = p_ret ()" "op_ok (\<lambda>_. None) op = p_ret ()"
  by (simp_all add: op_ok_def no_faults_def)

lemma p_seq_ret [simp]: "p_seq (p_ret a) m = m"
  by (simp add: p_seq_def)

end
