(* ===== verification/EnvSetup.thy ===== *)
theory EnvSetup
  imports AgentDefs SandboxLayout HostFS
begin

text \<open>
  Preparing a sandbox for its agent (\<open>internal/envsetup/envsetup.go\<close>): which credentials are resolved
  from the host, which login files are copied, and the settings files that are patched before a start.
  The host file system is that of \<open>HostFS\<close>: opening a path follows links in every component, and a directory
  that is missing is an error. Which operations fail, and what the keychain holds, is the record \<open>os\<close>.
\<close>

section \<open>The file system\<close>

record os =
  os_faults :: faults
  read_fault :: "fpath \<Rightarrow> gerror option"
  keychain :: "string \<Rightarrow> string option"

text \<open>\<open>os.Stat\<close> without an error, \<open>os.ReadFile\<close>, \<open>os.WriteFile\<close> and \<open>os.MkdirAll\<close>.\<close>

definition stat_ok :: "hfs \<Rightarrow> fpath \<Rightarrow> bool" where
  "stat_ok fs p \<longleftrightarrow> Stat fs p \<noteq> None"

definition fs_exists :: "fpath \<Rightarrow> (hfs, bool) prog" where
  "fs_exists p = (\<lambda>fs. (Inr (stat_ok fs p), fs))"

definition content_at :: "hfs \<Rightarrow> fpath \<Rightarrow> (gerror, string) result" where
  "content_at fs p = (case resolve_path link_limit fs [] p of
     Inl e \<Rightarrow> Inl e
   | Inr q \<Rightarrow> (case host_node fs q of
       Some (HFile d) \<Rightarrow> Inr d | Some HDir \<Rightarrow> Inl (errorf ''is a directory'') | _ \<Rightarrow> Inl not_exist))"

definition fs_ReadFile :: "os \<Rightarrow> fpath \<Rightarrow> (hfs, string) prog" where
  "fs_ReadFile S p = (\<lambda>fs. (case read_fault S p of Some e \<Rightarrow> Inl e | None \<Rightarrow> content_at fs p, fs))"

definition fs_WriteFile :: "os \<Rightarrow> fpath \<Rightarrow> string \<Rightarrow> (hfs, unit) prog" where
  "fs_WriteFile S p d = open_trunc (os_faults S) p d"

definition fs_MkdirAll :: "os \<Rightarrow> fpath \<Rightarrow> (hfs, unit) prog" where
  "fs_MkdirAll S p = mkdir_all (os_faults S) p"

text \<open>A path of the sandbox layout below the sandbox directory.\<close>

definition path_in :: "string \<Rightarrow> fpath \<Rightarrow> string" where
  "path_in sandboxDir p = sandboxDir @ concat (map (\<lambda>c. CHR ''/'' # c) p)"

section \<open>Credentials\<close>

definition resolvedHostCredentials :: "EnvSpec \<Rightarrow> HostEnv \<Rightarrow> (string \<times> string) list" where
  "resolvedHostCredentials es h = present (vars h) (es_APIKeyEnvVars es @ es_AuthHintEnvVars es)"

definition ResolveSecretEnv :: "EnvSpec \<Rightarrow> (string \<times> string) list \<Rightarrow> HostEnv \<Rightarrow> (string \<times> string) list" where
  "ResolveSecretEnv es configEnv h =
     foldl (\<lambda>m (k, v). AList.update k v m) configEnv (resolvedHostCredentials es h)"

definition HasAnyAPIKey :: "EnvSpec \<Rightarrow> HostEnv \<Rightarrow> bool" where
  "HasAnyAPIKey es h = (if es_APIKeyEnvVars es = [] then True else present (vars h) (es_APIKeyEnvVars es) \<noteq> [])"

definition HasAnyAuthFile :: "os \<Rightarrow> hfs \<Rightarrow> EnvSpec \<Rightarrow> string \<Rightarrow> bool" where
  "HasAnyAuthFile S fs es home = list_ex (\<lambda>sf. sf_AuthOnly sf \<and>
     (stat_ok fs (split_slash (ExpandTilde (sf_HostPath sf) home))
      \<or> sf_KeychainService sf \<noteq> [] \<and> keychain S (sf_KeychainService sf) \<noteq> None)) (es_SeedFiles es)"

definition HasAnyAuthHint :: "EnvSpec \<Rightarrow> (string \<rightharpoonup> string) \<Rightarrow> HostEnv \<Rightarrow> bool" where
  "HasAnyAuthHint es configEnv h =
     (let hostCreds = EnvForAgentCredentials h (es_AuthHintEnvVars es)
      in list_ex (\<lambda>k. has_value hostCreds k \<or> has_value configEnv k) (es_AuthHintEnvVars es))"

record AuthPresence =
  ap_APIKey :: bool
  ap_AuthFile :: bool
  ap_AuthHint :: bool

definition AuthPresence_OK :: "AuthPresence \<Rightarrow> bool" where
  "AuthPresence_OK a = (ap_APIKey a \<or> ap_AuthFile a \<or> ap_AuthHint a)"

definition ResolveAuthPresence :: "os \<Rightarrow> hfs \<Rightarrow> EnvSpec \<Rightarrow> (string \<rightharpoonup> string) \<Rightarrow> HostEnv \<Rightarrow> AuthPresence" where
  "ResolveAuthPresence S fs es configEnv h = \<lparr>ap_APIKey = HasAnyAPIKey es h,
     ap_AuthFile = HasAnyAuthFile S fs es (homeDir h), ap_AuthHint = HasAnyAuthHint es configEnv h\<rparr>"

fun join_comma :: "string list \<Rightarrow> string" where
  "join_comma [] = []"
| "join_comma [x] = x"
| "join_comma (x # xs) = x @ '', '' @ join_comma xs"

definition quoted :: "string \<Rightarrow> string" where
  "quoted s = [CHR 34] @ s @ [CHR 34]"

definition DescribeInjectedCredentials :: "EnvSpec \<Rightarrow> HostEnv \<Rightarrow> string" where
  "DescribeInjectedCredentials es h =
     (let keys = sort (remdups (map fst (resolvedHostCredentials es h)));
          declarer = (if es_UserDefined es then ''user-defined agent '' else ''agent '') @ quoted (es_AgentName es)
      in if keys = [] then []
         else ''credentials injected from the environment: '' @ join_comma keys @ '' (declared by '' @ declarer @ '')'')"

definition DescribeSeedAuthFiles :: "EnvSpec \<Rightarrow> string" where
  "DescribeSeedAuthFiles es = join_comma (map sf_HostPath (filter sf_AuthOnly (es_SeedFiles es)))"

section \<open>Seed files\<close>

definition shouldSkipSeedFile :: "SeedFile \<Rightarrow> bool \<Rightarrow> HostEnv \<Rightarrow> bool" where
  "shouldSkipSeedFile sf hasAPIKey h =
     (if \<not> sf_AuthOnly sf then False
      else if sf_OwnerAPIKeys sf \<noteq> [] then present (vars h) (sf_OwnerAPIKeys sf) \<noteq> []
      else hasAPIKey)"

definition seed_fallback :: "os \<Rightarrow> SeedFile \<Rightarrow> string option" where
  "seed_fallback S sf = (case (if sf_KeychainService sf \<noteq> [] then keychain S (sf_KeychainService sf) else None) of
     Some d \<Rightarrow> Some d | None \<Rightarrow> sf_Content sf)"

definition loadSeedFileData :: "os \<Rightarrow> SeedFile \<Rightarrow> string \<Rightarrow> (hfs, string option) prog" where
  "loadSeedFileData S sf home =
     (let hostPath = ExpandTilde (sf_HostPath sf) home in
      if sf_HostPath sf = [] then p_ret (seed_fallback S sf)
      else p_bind (fs_exists (split_slash hostPath)) (\<lambda>ok.
        if ok then p_bind (p_ctx (''read '' @ hostPath) (fs_ReadFile S (split_slash hostPath))) (\<lambda>d. p_ret (Some d))
        else p_ret (seed_fallback S sf)))"

definition seed_target :: "fpath \<Rightarrow> SeedFile \<Rightarrow> fpath" where
  "seed_target sandboxDir sf =
     join_path (if sf_HomeDir sf then HomeSeedPath sandboxDir else AgentRuntimePath sandboxDir) (sf_TargetPath sf)"

fun CopySeedFiles :: "os \<Rightarrow> SeedFile list \<Rightarrow> fpath \<Rightarrow> bool \<Rightarrow> string \<Rightarrow> HostEnv \<Rightarrow> bool \<Rightarrow> (hfs, bool) prog" where
  "CopySeedFiles S [] sandboxDir hasAPIKey home h copiedAuth = p_ret copiedAuth"
| "CopySeedFiles S (sf # sfs) sandboxDir hasAPIKey home h copiedAuth =
     (if shouldSkipSeedFile sf hasAPIKey h then CopySeedFiles S sfs sandboxDir hasAPIKey home h copiedAuth
      else p_bind (loadSeedFileData S sf home) (\<lambda>r. case r of
        None \<Rightarrow> CopySeedFiles S sfs sandboxDir hasAPIKey home h copiedAuth
      | Some data \<Rightarrow>
          p_seq (p_ctx (''create dir for '' @ sf_TargetPath sf) (fs_MkdirAll S (butlast (seed_target sandboxDir sf))))
         (p_seq (p_ctx (''write '' @ path_string (seed_target sandboxDir sf)) (fs_WriteFile S (seed_target sandboxDir sf) data))
           (CopySeedFiles S sfs sandboxDir hasAPIKey home h (copiedAuth \<or> sf_AuthOnly sf)))))"

section \<open>Settings\<close>

text \<open>
  \<open>fileutil.ReadJSONMap\<close>: a missing file is an empty map; the JSON text \<open>null\<close> unmarshals into a nil
  map without an error. Assigning to a nil map panics.
\<close>

definition ReadJSONMap :: "os \<Rightarrow> codecs \<Rightarrow> fpath \<Rightarrow> (hfs, obj option) prog" where
  "ReadJSONMap S C p = p_bind (p_try (fs_ReadFile S p)) (\<lambda>r. case r of
     Inl e \<Rightarrow> if kind_of e = ErrNotExist then p_ret (Some []) else p_fail e
   | Inr d \<Rightarrow> (case json_dec C d of
        Some (JObj m) \<Rightarrow> p_ret (Some m)
      | Some JNull \<Rightarrow> p_ret None
      | _ \<Rightarrow> p_fail (errorf ''json: cannot unmarshal into a map'')))"

definition WriteJSONMap :: "os \<Rightarrow> codecs \<Rightarrow> fpath \<Rightarrow> obj \<Rightarrow> (hfs, unit) prog" where
  "WriteJSONMap S C p m = (case json_enc C m of None \<Rightarrow> p_fail (errorf ''json: marshal'') | Some d \<Rightarrow> fs_WriteFile S p d)"

definition nil_map_panic :: gerror where
  "nil_map_panic = GErr Panic ''assignment to entry in nil map''"

fun settings_dir_path :: "fpath \<Rightarrow> settings_dir \<Rightarrow> fpath" where
  "settings_dir_path sandboxDir AgentRuntimeDir = AgentRuntimePath sandboxDir"
| "settings_dir_path sandboxDir (HomeSeedSub n) = join_path (HomeSeedPath sandboxDir) n"

definition settings_path :: "fpath \<Rightarrow> SettingsPatch \<Rightarrow> fpath" where
  "settings_path sandboxDir p =
     join_path (settings_dir_path sandboxDir (sp_Dir p)) (if sp_FileName p = [] then ''settings.json'' else sp_FileName p)"

definition EnsureContainerSettings :: "os \<Rightarrow> codecs \<Rightarrow> fpath \<Rightarrow> SettingsPatch list \<Rightarrow> (hfs, unit) prog" where
  "EnsureContainerSettings S C sandboxDir patches = p_each (\<lambda>p.
     p_seq (p_ctx (''create settings dir '' @ path_string (settings_dir_path sandboxDir (sp_Dir p))) (fs_MkdirAll S (settings_dir_path sandboxDir (sp_Dir p))))
    (p_bind (ReadJSONMap S C (settings_path sandboxDir p)) (\<lambda>m. case m of
       None \<Rightarrow> p_fail nil_map_panic
     | Some settings \<Rightarrow> WriteJSONMap S C (settings_path sandboxDir p) (sp_Apply p settings)))) patches"

definition trust_entry :: "obj \<Rightarrow> string \<Rightarrow> obj" where
  "trust_entry projects p = (if p = [] then projects
     else AList.update p (JObj (AList.update ''hasTrustDialogAccepted'' (JBool True) (obj_at projects p))) projects)"

definition home_seed_config :: "obj \<Rightarrow> string list \<Rightarrow> obj" where
  "home_seed_config cfg trustPaths =
     (let cfg1 = AList.delete ''installMethod'' cfg
      in if trustPaths = [] then cfg1
         else AList.update ''projects'' (JObj (foldl trust_entry (obj_at cfg1 ''projects'') trustPaths)) cfg1)"

definition claude_json_path :: "fpath \<Rightarrow> fpath" where
  "claude_json_path sandboxDir = HomeSeedPath sandboxDir @ [''.claude.json'']"

text \<open>Deleting from a nil map is allowed, and a nil map is written as \<open>null\<close>; assigning is not.\<close>

definition ensureHomeSeedConfig :: "os \<Rightarrow> codecs \<Rightarrow> EnvSpec \<Rightarrow> fpath \<Rightarrow> string list \<Rightarrow> (hfs, unit) prog" where
  "ensureHomeSeedConfig S C es sandboxDir trustPaths =
     (if \<not> list_ex (\<lambda>sf. sf_HomeDir sf \<and> sf_TargetPath sf = ''.claude.json'') (es_SeedFiles es) then p_ret ()
      else p_bind (ReadJSONMap S C (claude_json_path sandboxDir)) (\<lambda>m. case m of
        None \<Rightarrow> if trustPaths = [] then fs_WriteFile S (claude_json_path sandboxDir) ''null'' else p_fail nil_map_panic
      | Some cfg \<Rightarrow> WriteJSONMap S C (claude_json_path sandboxDir) (home_seed_config cfg trustPaths)))"

definition RefreshHomeSeed :: "os \<Rightarrow> codecs \<Rightarrow> EnvSpec \<Rightarrow> fpath \<Rightarrow> bool \<Rightarrow> HostEnv \<Rightarrow> string list \<Rightarrow> (hfs, bool) prog" where
  "RefreshHomeSeed S C es sandboxDir hasAPIKey h trustPaths =
     p_bind (p_ctx ''copy seed files'' (CopySeedFiles S (es_SeedFiles es) sandboxDir hasAPIKey (homeDir h) h False)) (\<lambda>copiedAuth.
     p_seq (p_ctx ''ensure container settings'' (EnsureContainerSettings S C sandboxDir (es_SettingsPatches es)))
    (p_seq (p_ctx ''ensure home seed config'' (ensureHomeSeedConfig S C es sandboxDir trustPaths))
     (p_ret copiedAuth)))"

section \<open>Which files are written\<close>

text \<open>The files a refresh names, before links are followed.\<close>

definition refresh_paths :: "fpath \<Rightarrow> EnvSpec \<Rightarrow> fpath set" where
  "refresh_paths sandboxDir es = seed_target sandboxDir ` set (es_SeedFiles es)
     \<union> settings_path sandboxDir ` set (es_SettingsPatches es) \<union> {claude_json_path sandboxDir}"

lemma pkeeps_fs [prog_keeps]: "pkeeps I (fs_ReadFile S p)" "pkeeps I (fs_exists p)"
  by (simp_all add: pkeeps_def fs_ReadFile_def fs_exists_def)

lemma sealed_WriteFile: "p \<in> A \<Longrightarrow> pkeeps (sealed A fs0) (fs_WriteFile S p d)"
  unfolding fs_WriteFile_def by (rule sealed_open_trunc)

lemma sealed_MkdirAll: "p \<in> A \<Longrightarrow> below q p \<Longrightarrow> pkeeps (sealed A fs0) (fs_MkdirAll S q)"
  unfolding fs_MkdirAll_def by (rule sealed_mkdir_all)

lemma pkeeps_ReadJSONMap [prog_keeps]: "pkeeps I (ReadJSONMap S C p)"
  unfolding ReadJSONMap_def
  by (intro prog_keeps) (auto intro!: prog_keeps split: sum.splits option.splits json.splits)

lemma sealed_WriteJSONMap: "p \<in> A \<Longrightarrow> pkeeps (sealed A fs0) (WriteJSONMap S C p m)"
  unfolding WriteJSONMap_def by (auto intro!: prog_keeps sealed_WriteFile split: option.splits)

lemma pkeeps_loadSeed [prog_keeps]: "pkeeps I (loadSeedFileData S sf home)"
  unfolding loadSeedFileData_def Let_def by (auto intro!: prog_keeps)

lemma below_butlast: "below (butlast p) p"
  by (cases p rule: rev_cases) (simp_all add: below_def)

lemma sealed_CopySeedFiles:
  "(\<And>sf. sf \<in> set sfs \<Longrightarrow> \<not> shouldSkipSeedFile sf k h \<Longrightarrow> seed_target d sf \<in> A) \<Longrightarrow>
     pkeeps (sealed A fs0) (CopySeedFiles S sfs d k home h c)"
proof (induction sfs arbitrary: c)
  case (Cons sf sfs)
  have IH: "pkeeps (sealed A fs0) (CopySeedFiles S sfs d k home h c')" for c'
    by (rule Cons.IH) (use Cons.prems in auto)
  show ?case
  proof (cases "shouldSkipSeedFile sf k h")
    case True
    then show ?thesis by (simp add: IH)
  next
    case False
    have t: "seed_target d sf \<in> A" by (rule Cons.prems [OF _ False]) simp
    show ?thesis unfolding CopySeedFiles.simps if_not_P [OF False]
      by (rule pkeeps_bind [OF pkeeps_loadSeed])
        (auto intro!: prog_keeps IH sealed_WriteFile t sealed_MkdirAll [OF t] below_butlast split: option.splits)
  qed
qed (simp add: prog_keeps)

lemma below_join: "''..'' \<notin> set (split_slash s) \<Longrightarrow> below p (join_path p s)"
  by (simp add: join_path_plain)

text \<open>Targets and file names that do not climb.\<close>

definition stays_inside :: "EnvSpec \<Rightarrow> bool" where
  "stays_inside es \<longleftrightarrow> list_all (\<lambda>sf. ''..'' \<notin> set (split_slash (sf_TargetPath sf))) (es_SeedFiles es)
     \<and> list_all (\<lambda>p. (case sp_Dir p of AgentRuntimeDir \<Rightarrow> True | HomeSeedSub n \<Rightarrow> ''..'' \<notin> set (split_slash n))
         \<and> ''..'' \<notin> set (split_slash (sp_FileName p))) (es_SettingsPatches es)"

lemma settings_dir_above:
  assumes "''..'' \<notin> set (split_slash (sp_FileName p))"
  shows "below (settings_dir_path d (sp_Dir p)) (settings_path d p)"
proof -
  have "''..'' \<notin> set (split_slash ''settings.json'')" by code_simp
  then show ?thesis unfolding settings_path_def using assms below_join by (cases "sp_FileName p = []") simp_all
qed

lemma sealed_EnsureContainerSettings:
  assumes "settings_path d ` set ps \<subseteq> A" and "list_all (\<lambda>p. ''..'' \<notin> set (split_slash (sp_FileName p))) ps"
  shows "pkeeps (sealed A fs0) (EnsureContainerSettings S C d ps)"
  unfolding EnsureContainerSettings_def
proof (rule pkeeps_each)
  fix p assume p: "p \<in> set ps"
  then have a: "settings_path d p \<in> A" using assms(1) by auto
  have b: "below (settings_dir_path d (sp_Dir p)) (settings_path d p)"
    by (rule settings_dir_above) (use p assms(2) in \<open>simp add: list_all_iff\<close>)
  show "pkeeps (sealed A fs0) (p_seq (p_ctx (''create settings dir '' @ path_string (settings_dir_path d (sp_Dir p))) (fs_MkdirAll S (settings_dir_path d (sp_Dir p))))
    (p_bind (ReadJSONMap S C (settings_path d p)) (\<lambda>m. case m of
       None \<Rightarrow> p_fail nil_map_panic
     | Some settings \<Rightarrow> WriteJSONMap S C (settings_path d p) (sp_Apply p settings))))"
    by (auto intro!: prog_keeps sealed_WriteJSONMap a sealed_MkdirAll [OF a b] split: option.splits)
qed

lemma sealed_ensureHomeSeedConfig:
  "claude_json_path d \<in> A \<Longrightarrow> pkeeps (sealed A fs0) (ensureHomeSeedConfig S C es d ps)"
  unfolding ensureHomeSeedConfig_def
  by (auto intro!: prog_keeps sealed_WriteJSONMap sealed_WriteFile split: option.splits)

lemma sealed_RefreshHomeSeed:
  assumes "stays_inside es"
  shows "pkeeps (sealed (refresh_paths d es) fs0) (RefreshHomeSeed S C es d k h ps)"
proof -
  have "list_all (\<lambda>p. ''..'' \<notin> set (split_slash (sp_FileName p))) (es_SettingsPatches es)"
    using assms by (auto simp: stays_inside_def list_all_iff)
  then show ?thesis unfolding RefreshHomeSeed_def
    by (intro prog_keeps sealed_CopySeedFiles sealed_EnsureContainerSettings sealed_ensureHomeSeedConfig)
      (auto simp: refresh_paths_def)
qed

text \<open>Every path that a refresh names is in the home seed or in the state directory of the agent.\<close>

lemma refresh_paths_inside:
  assumes "stays_inside es" and "p \<in> refresh_paths d es"
  shows "below (HomeSeedPath d) p \<or> below (AgentRuntimePath d) p"
proof -
  consider sf where "sf \<in> set (es_SeedFiles es)" "p = seed_target d sf"
    | sp where "sp \<in> set (es_SettingsPatches es)" "p = settings_path d sp" | "p = claude_json_path d"
    using assms(2) by (auto simp: refresh_paths_def)
  then show ?thesis
  proof cases
    case 1
    then have "''..'' \<notin> set (split_slash (sf_TargetPath sf))" using assms(1) by (simp add: stays_inside_def list_all_iff)
    then show ?thesis using below_join by (auto simp: 1(2) seed_target_def)
  next
    case 2
    then have f: "''..'' \<notin> set (split_slash (sp_FileName sp))"
      and n: "case sp_Dir sp of AgentRuntimeDir \<Rightarrow> True | HomeSeedSub n \<Rightarrow> ''..'' \<notin> set (split_slash n)"
      using assms(1) by (auto simp: stays_inside_def list_all_iff)
    from settings_dir_above [OF f, of d] obtain rel where r: "p = settings_dir_path d (sp_Dir sp) @ rel"
      unfolding 2(2) by (rule belowE)
    show ?thesis
    proof (cases "sp_Dir sp")
      case AgentRuntimeDir
      then show ?thesis using r by simp
    next
      case (HomeSeedSub m)
      then show ?thesis using r n join_path_plain [of m "HomeSeedPath d"] by simp
    qed
  next
    case 3
    then show ?thesis by (simp add: claude_json_path_def)
  qed
qed

lemma refresh_is_confined:
  assumes "stays_inside es" and "real_dir fs (HomeSeedPath d)" "real_dir fs (AgentRuntimePath d)"
    and "\<And>p. p \<in> refresh_paths d es \<Longrightarrow> unlinked fs p"
    and "snd (RefreshHomeSeed S C es d hasAPIKey h trustPaths fs) x \<noteq> fs x"
  shows "strictly_below (HomeSeedPath d) x \<or> strictly_below (AgentRuntimePath d) x"
proof -
  have "sealed (refresh_paths d es) fs fs" using assms(4) by (simp add: sealed_def)
  then have "sealed (refresh_paths d es) fs (snd (RefreshHomeSeed S C es d hasAPIKey h trustPaths fs))"
    by (rule pkeepsD [OF sealed_RefreshHomeSeed [OF assms(1)]])
  then obtain p where p: "x \<noteq> []" "p \<in> refresh_paths d es" "below x p" "fs x \<noteq> Some HDir"
    using assms(5) unfolding sealed_def by metis
  show ?thesis using refresh_paths_inside [OF assms(1) p(2)]
  proof (elim disjE belowE)
    fix rel assume "p = HomeSeedPath d @ rel"
    then show ?thesis using sealed_strictly_below [OF assms(2) p(1), of rel] p(3,4) by simp
  next
    fix rel assume "p = AgentRuntimePath d @ rel"
    then show ?thesis using sealed_strictly_below [OF assms(3) p(1), of rel] p(3,4) by simp
  qed
qed

text \<open>The agents that are built in have such targets.\<close>

definition no_climb :: "string \<Rightarrow> bool" where
  "no_climb s \<longleftrightarrow> ''..'' \<notin> set (split_slash s)"

definition agent_inside :: "Definition \<Rightarrow> bool" where
  "agent_inside d \<longleftrightarrow> list_all no_climb (ag_SettingsFileName d # Base (ag_StateDir d) # map sf_TargetPath (ag_SeedFiles d))"

lemma table_inside:
  "agent_inside aider_agent" "agent_inside claude_agent" "agent_inside gemini_agent" "agent_inside (opencode_agent plugin)"
  "agent_inside (codex_agent C)" "agent_inside test_agent" "agent_inside idle_agent"
  by (simp_all add: agent_inside_def aider_agent_def claude_agent_def gemini_agent_def opencode_agent_def codex_agent_def
      test_agent_def idle_agent_def blank_agent_def seed_file_def) code_simp+

lemma split_slash_join: "split_slash (a @ CHR ''/'' # b) = split_slash a @ split_slash b"
proof (induction a)
  case (Cons c a)
  have "split_slash a \<noteq> []" by (cases a) (auto split: list.splits)
  then show ?case using Cons by (auto split: list.splits)
qed simp

lemma GetAgent_table_inside: "GetAgent (agent_table C plugin) n = Some d \<Longrightarrow> agent_inside d"
  by (auto simp: GetAgent_def agent_table_def table_inside split: if_splits dest: map_of_SomeD)

lemma shell_seeds_inside:
  assumes "\<And>n d. GetAgent A n = Some d \<Longrightarrow> agent_inside d"
  shows "list_all no_climb (map sf_TargetPath seeds) \<Longrightarrow>
    list_all no_climb (map sf_TargetPath (fst (foldl (shell_step A) (seeds, keys, domains) names)))"
proof (induction names arbitrary: seeds keys domains)
  case (Cons n names)
  show ?case
  proof (cases "GetAgent A n")
    case None
    then show ?thesis using Cons by (simp add: shell_step_def)
  next
    case (Some d)
    have "no_climb (sf_TargetPath (remap_seed d sf))" if "sf \<in> set (ag_SeedFiles d)" for sf
      using assms [OF Some] that
      by (auto simp: agent_inside_def remap_seed_def Let_def no_climb_def split_slash_join list_all_iff)
    then have "list_all no_climb (map sf_TargetPath (seeds @ map (remap_seed d) (ag_SeedFiles d)))"
      using Cons.prems by (auto simp: list_all_iff)
    from Cons.IH [OF this] show ?thesis using Some by (simp add: shell_step_def)
  qed
qed simp

lemma shell_inside: "agent_inside (buildShellAgent (agent_table C plugin))"
proof -
  let ?A = "agent_table C plugin"
  obtain seeds keys domains where f: "foldl (shell_step ?A) ([], [], []) (RealAgents ?A) = (seeds, keys, domains)"
    by (metis prod_cases3)
  have "list_all no_climb (map sf_TargetPath seeds)"
    using shell_seeds_inside [OF GetAgent_table_inside, where A = ?A and seeds = "[]" and keys = "[]" and domains = "[]"
        and names = "RealAgents ?A"] f by simp
  moreover have "no_climb []" "no_climb (Base [])" by code_simp+
  ultimately show ?thesis using f by (simp add: agent_inside_def buildShellAgent_def blank_agent_def)
qed

lemma builtin_inside: "GetAgent (builtin_agents C plugin) n = Some d \<Longrightarrow> agent_inside d"
  using GetAgent_table_inside [of C plugin n d] shell_inside [of C plugin]
  by (auto simp: GetAgent_def builtin_agents_def Let_def map_add_def split: if_splits option.splits)

lemma builtin_stays_inside:
  assumes "GetAgent (builtin_agents C plugin) n = Some d"
  shows "stays_inside (BuildEnvSpec (builtin_agents C plugin) d)"
proof -
  let ?A = "builtin_agents C plugin"
  have i: "agent_inside d" by (rule builtin_inside [OF assms])
  have "(\<forall>n. sp_Dir p = HomeSeedSub n \<longrightarrow> no_climb n) \<and> no_climb (sp_FileName p)"
    if p: "p \<in> set (settingsPatches ?A d)" for p
  proof (cases "ag_SeedsAllAgents d")
    case True
    then obtain m e where "GetAgent ?A m = Some e" "p \<in> set (settings_patch (HomeSeedSub (Base (ag_StateDir e))) e)"
      using p by (auto simp: settingsPatches_def split: option.splits dest: sym)
    then show ?thesis using builtin_inside [of C plugin m e]
      by (auto simp: settings_patch_def agent_inside_def split: option.splits if_splits)
  next
    case False
    then show ?thesis using p i by (auto simp: settingsPatches_def settings_patch_def agent_inside_def split: option.splits if_splits)
  qed
  with i show ?thesis
    by (simp add: stays_inside_def BuildEnvSpec_def agent_inside_def list_all_iff no_climb_def split: settings_dir.splits)
qed

text \<open>
  C8: refreshing the home of a built-in agent changes nothing outside the two directories it is prepared in. When
  \<open>ro/home-seed\<close> and \<open>rw/agent-runtime\<close> of the sandbox exist and no path that the refresh names has a symbolic link
  in any of its components, then whichever calls fail, every path that changes is strictly below one of
  these two directories.
\<close>

theorem refresh_is_confined_without_links:
  assumes "GetAgent (builtin_agents C plugin) n = Some d"
    and "real_dir fs (HomeSeedPath sandboxDir)" and "real_dir fs (AgentRuntimePath sandboxDir)"
    and "\<forall>p \<in> refresh_paths sandboxDir (BuildEnvSpec (builtin_agents C plugin) d). unlinked fs p"
    and "snd (RefreshHomeSeed S C (BuildEnvSpec (builtin_agents C plugin) d) sandboxDir hasAPIKey h trustPaths fs) x \<noteq> fs x"
  shows "(\<exists>rel. rel \<noteq> [] \<and> x = sandboxDir @ [''ro'', ''home-seed''] @ rel)
    \<or> (\<exists>rel. rel \<noteq> [] \<and> x = sandboxDir @ [''rw'', ''agent-runtime''] @ rel)"
proof -
  have "strictly_below (HomeSeedPath sandboxDir) x \<or> strictly_below (AgentRuntimePath sandboxDir) x"
    by (rule refresh_is_confined [OF builtin_stays_inside [OF assms(1)] assms(2,3) _ assms(5)]) (use assms(4) in blast)
  moreover have "HomeSeedPath sandboxDir = sandboxDir @ [''ro'', ''home-seed'']"
    "AgentRuntimePath sandboxDir = sandboxDir @ [''rw'', ''agent-runtime'']"
    by (simp_all add: HomeSeedPath_def AgentRuntimePath_def ReadOnlyTierDir_def ReadWriteTierDir_def entry_names AgentRuntimeDirName_def)
  ultimately show ?thesis
    by (auto simp: strictly_below_def elim!: belowE)
qed

definition demo_home :: HostEnv where
  "demo_home = \<lparr>vars = [''ANTHROPIC_API_KEY'' \<mapsto> ''k''], homeDir = ''/home/u''\<rparr>"

definition no_errors :: os where
  "no_errors = \<lparr>os_faults = no_faults, read_fault = (\<lambda>_. None), keychain = (\<lambda>_. None)\<rparr>"

definition no_codec :: codecs where
  "no_codec = \<lparr>toml_dec = (\<lambda>_. None), toml_enc = (\<lambda>_. None), json_dec = (\<lambda>_. None), json_enc = (\<lambda>_. None)\<rparr>"

definition demo_dirs :: "fpath set" where
  "demo_dirs = {[''sb''], [''sb'', ''ro''], [''sb'', ''ro'', ''home-seed''], [''sb'', ''rw''], [''sb'', ''rw'', ''agent-runtime''],
     [''home''], [''home'', ''u'']}"

definition demo_host :: hfs where
  "demo_host = (\<lambda>p. if p \<in> demo_dirs then Some HDir
     else if p = [''home'', ''u'', ''s.json''] then Some (HFile ''login'') else None)"

lemma demo_host_real: "real_dir demo_host [''sb'', ''ro'', ''home-seed'']" "real_dir demo_host [''sb'', ''rw'', ''agent-runtime'']"
  by (simp_all add: real_dir_def demo_host_def demo_dirs_def plain_name_def less_Suc_eq)

lemma demo_host_unlinked: "list_all plain_name p \<Longrightarrow> unlinked demo_host p"
  by (simp add: unlinked_def demo_host_def)

lemma aider_refresh:
  "snd (RefreshHomeSeed no_errors no_codec (BuildEnvSpec (builtin_agents no_codec []) aider_agent) [''sb''] True demo_home [] demo_host)
     [''sb'', ''ro'', ''home-seed'', ''.aider.conf.yml''] = Some (HFile (''{}'' @ [CHR 10]))"
  by code_simp

lemma aider_paths: "\<forall>p \<in> refresh_paths [''sb''] (BuildEnvSpec (builtin_agents no_codec []) aider_agent). unlinked demo_host p"
proof -
  have s: "es_SettingsPatches (BuildEnvSpec A aider_agent) = []" for A
    by (simp add: BuildEnvSpec_def settingsPatches_def settings_patch_def aider_agent_def blank_agent_def)
  have f: "es_SeedFiles (BuildEnvSpec A aider_agent) = ag_SeedFiles aider_agent" for A by (simp add: BuildEnvSpec_def)
  have "list_all (list_all plain_name) (claude_json_path [''sb''] # map (seed_target [''sb'']) (ag_SeedFiles aider_agent))"
    by code_simp
  then show ?thesis unfolding refresh_paths_def s f by (auto simp: list_all_iff demo_host_unlinked)
qed

theorem refresh_is_confined_without_links_witness:
  "\<exists>rel. rel \<noteq> [] \<and> [''sb'', ''ro'', ''home-seed'', ''.aider.conf.yml''] = [''sb''] @ [''ro'', ''home-seed''] @ rel"
proof -
  have g: "GetAgent (builtin_agents no_codec []) ''aider'' = Some aider_agent"
    by (simp add: GetAgent_def builtin_agents_def agent_table_def)
  have d: "real_dir demo_host (HomeSeedPath [''sb''])" "real_dir demo_host (AgentRuntimePath [''sb''])"
    using demo_host_real by (simp_all add: HomeSeedPath_def AgentRuntimePath_def ReadOnlyTierDir_def ReadWriteTierDir_def
        entry_names AgentRuntimeDirName_def)
  have "snd (RefreshHomeSeed no_errors no_codec (BuildEnvSpec (builtin_agents no_codec []) aider_agent) [''sb''] True demo_home [] demo_host)
     [''sb'', ''ro'', ''home-seed'', ''.aider.conf.yml''] \<noteq> demo_host [''sb'', ''ro'', ''home-seed'', ''.aider.conf.yml'']"
    unfolding aider_refresh by (simp add: demo_host_def demo_dirs_def)
  from refresh_is_confined_without_links [OF g d aider_paths this] show ?thesis by auto
qed

text \<open>
  A file-defined agent is not checked: its targets may climb out of the directory they are joined to, here to the
  record of the sandbox.
\<close>

lemma file_agent_target_climbs:
  "seed_target [''sb''] (seed_file\<lparr>sf_TargetPath := ''../../host/environment.json''\<rparr>) = [''sb'', ''host'', ''environment.json'']"
  by code_simp

text \<open>
  The agent can write its state directory, so it can replace a seeded file by a symbolic link. The next
  refresh then writes through the link: a file of the host outside the sandbox is overwritten.
\<close>

definition settings_seed :: SeedFile where
  "settings_seed = seed_file\<lparr>sf_HostPath := ''~/s.json'', sf_TargetPath := ''s.json''\<rparr>"

lemma planted_link_overwrites_host_file:
  "snd (CopySeedFiles no_errors [settings_seed] [''sb''] True ''/home/u'' demo_home False
      (demo_host([''sb'', ''rw'', ''agent-runtime'', ''s.json''] \<mapsto> HLink ''/home/u/rc'', [''home'', ''u'', ''rc''] \<mapsto> HFile ''mine'')))
     [''home'', ''u'', ''rc''] = Some (HFile ''login'')"
  by code_simp

definition link_free :: "hfs \<Rightarrow> fpath set \<Rightarrow> bool" where
  "link_free fs A \<longleftrightarrow> (\<forall>p \<in> A. unlinked fs p)"

lemma CopySeedFiles_confined:
  assumes "link_free fs A" and "\<And>sf. sf \<in> set sfs \<Longrightarrow> \<not> shouldSkipSeedFile sf k h \<Longrightarrow> seed_target d sf \<in> A"
    and "\<And>p. p \<in> A \<Longrightarrow> \<not> below q p"
  shows "snd (CopySeedFiles S sfs d k home h c fs) q = fs q"
proof -
  have "sealed A fs fs" using assms(1) by (auto simp: sealed_def link_free_def)
  moreover have "pkeeps (sealed A fs) (CopySeedFiles S sfs d k home h c)"
    by (rule sealed_CopySeedFiles) (rule assms(2))
  ultimately have "sealed A fs (snd (CopySeedFiles S sfs d k home h c fs))" by (rule pkeepsD [rotated])
  then show ?thesis using assms(3) unfolding sealed_def by blast
qed

text \<open>
  C28: a login file is not copied into the sandbox when a key is delivered by environment. For a seed
  file marked as needed for authentication only, if one of its owner's variables is set (or, for an
  agent that is not the shell, any of its key variables), its target is what it was after copying,
  whatever the outcome of the other copies. No other target is at or below this one, and none has a
  link on the way.
\<close>

theorem login_files_stay_home:
  assumes "sf \<in> set sfs" "sf_AuthOnly sf"
    and "if sf_OwnerAPIKeys sf = [] then hasAPIKey else present (vars h) (sf_OwnerAPIKeys sf) \<noteq> []"
    and "\<And>sf'. sf' \<in> set sfs \<Longrightarrow> sf' \<noteq> sf \<Longrightarrow> \<not> below (seed_target d sf) (seed_target d sf')"
    and "link_free fs (seed_target d ` set sfs)"
  shows "snd (CopySeedFiles S sfs d hasAPIKey home h c fs) (seed_target d sf) = fs (seed_target d sf)"
proof (rule CopySeedFiles_confined)
  show "link_free fs (seed_target d ` {sf' \<in> set sfs. \<not> shouldSkipSeedFile sf' hasAPIKey h})"
    using assms(5) by (auto simp: link_free_def)
  have skip: "shouldSkipSeedFile sf hasAPIKey h" using assms(2,3) by (auto simp: shouldSkipSeedFile_def split: if_splits)
  fix p assume "p \<in> seed_target d ` {sf' \<in> set sfs. \<not> shouldSkipSeedFile sf' hasAPIKey h}"
  then obtain sf' where sf': "sf' \<in> set sfs" "\<not> shouldSkipSeedFile sf' hasAPIKey h" "p = seed_target d sf'" by auto
  have "sf' \<noteq> sf" using sf'(2) skip by metis
  from assms(4) [OF sf'(1) this] show "\<not> below (seed_target d sf) p" unfolding sf'(3) .
qed simp

theorem login_files_stay_home_witness:
  "snd (CopySeedFiles no_errors [settings_seed\<lparr>sf_AuthOnly := True\<rparr>] [''sb''] True ''/home/u'' demo_home False demo_host)
     (seed_target [''sb''] (settings_seed\<lparr>sf_AuthOnly := True\<rparr>)) = None"
proof -
  let ?sf = "settings_seed\<lparr>sf_AuthOnly := True\<rparr>"
  have t: "seed_target [''sb''] ?sf = [''sb'', ''rw'', ''agent-runtime'', ''s.json'']" by code_simp
  have "list_all plain_name (seed_target [''sb''] ?sf)" by code_simp
  then have l: "link_free demo_host (seed_target [''sb''] ` set [?sf])" by (simp add: link_free_def demo_host_unlinked)
  have "snd (CopySeedFiles no_errors [?sf] [''sb''] True ''/home/u'' demo_home False demo_host) (seed_target [''sb''] ?sf)
     = demo_host (seed_target [''sb''] ?sf)"
    by (rule login_files_stay_home [OF _ _ _ _ l]) (auto simp: settings_seed_def seed_file_def)
  then show ?thesis by (simp add: t demo_host_def demo_dirs_def)
qed

text \<open>A host settings file that holds \<open>null\<close> crashes the preparation of the sandbox.\<close>

lemma null_settings_panic:
  assumes "content_at fs (settings_path d p) = Inr t" "json_dec C t = Some JNull"
    and "read_fault S = (\<lambda>_. None)" "real_dir fs (settings_dir_path d (sp_Dir p))"
  shows "fst (EnsureContainerSettings S C d [p] fs) = Inl nil_map_panic"
  using assms by (simp add: EnsureContainerSettings_def p_seq_def p_bind_def p_ctx_def fs_MkdirAll_def mkdir_all_real
      ReadJSONMap_def p_try_def fs_ReadFile_def p_ret_def p_fail_def)

section \<open>Trust\<close>

lemma trust_entry_at:
  "map_of (obj_at (trust_entry projects p) q) k =
     (if q = p \<and> p \<noteq> [] \<and> k = ''hasTrustDialogAccepted'' then Some (JBool True) else map_of (obj_at projects q) k)"
  by (auto simp: trust_entry_def)

lemma trust_all:
  "map_of (obj_at (foldl trust_entry projects ps) q) k =
     (if q \<in> set ps \<and> q \<noteq> [] \<and> k = ''hasTrustDialogAccepted'' then Some (JBool True) else map_of (obj_at projects q) k)"
  by (induction ps arbitrary: projects) (auto simp: trust_entry_at)

text \<open>
  Every directory the agent works in is trusted, and nothing else of the file changes. In the
  prepared \<open>.claude.json\<close> each non-empty trusted path has its dialog accepted, every other entry of
  every project is as it was, so is every other top-level key, and the install method is gone.
\<close>

theorem home_seed_config_trusts_exactly:
  assumes "trustPaths \<noteq> []"
  shows "map_of (obj_at (obj_at (home_seed_config cfg trustPaths) ''projects'') q) k =
     (if q \<in> set trustPaths \<and> q \<noteq> [] \<and> k = ''hasTrustDialogAccepted'' then Some (JBool True)
      else map_of (obj_at (obj_at cfg ''projects'') q) k)
    \<and> (\<forall>j. j \<noteq> ''projects'' \<longrightarrow> map_of (home_seed_config cfg trustPaths) j = (if j = ''installMethod'' then None else map_of cfg j))"
proof -
  have "obj_at (AList.delete ''installMethod'' cfg) ''projects'' = obj_at cfg ''projects''"
    by (rule obj_at_map_of) simp
  then show ?thesis using assms by (simp add: home_seed_config_def Let_def trust_all)
qed

theorem home_seed_config_trusts_exactly_witness:
  "map_of (obj_at (obj_at (home_seed_config [] [''/w'']) ''projects'') ''/w'') ''hasTrustDialogAccepted'' = Some (JBool True)"
  using home_seed_config_trusts_exactly [of "[''/w'']" "[]" "''/w''" "''hasTrustDialogAccepted''"] by simp

section \<open>The secret environment\<close>

lemma ResolveSecretEnv_lookup:
  "map_of (ResolveSecretEnv es configEnv h) k =
     (case map_of (rev (resolvedHostCredentials es h)) k of Some v \<Rightarrow> Some v | None \<Rightarrow> map_of configEnv k)"
proof -
  have "map_of (foldl (\<lambda>m (k, v). AList.update k v m) m xs) k =
      (case map_of (rev xs) k of Some v \<Rightarrow> Some v | None \<Rightarrow> map_of m k)" for m :: "(string \<times> string) list" and xs
    by (induction xs arbitrary: m) (auto simp: map_add_def split: option.splits)
  then show ?thesis by (simp add: ResolveSecretEnv_def)
qed

lemma present_values: "(k, v) \<in> set (present env ks) \<longleftrightarrow> k \<in> set ks \<and> env k = Some v \<and> v \<noteq> []"
  by (induction ks) (auto split: option.splits if_splits)

end
