(* ===== verification/Mounts.thy ===== *)
theory Mounts
  imports Backend EnvSetup CreateDirs
begin

text \<open>
  The mounts of an instance (\<open>internal/orchestrator/mounts/mounts.go\<close>) and the launch state they are
  built from (\<open>internal/orchestrator/state/state.go\<close>). What exists on the host is the record \<open>host_view\<close>;
  \<open>work_copy\<close> is the path of a directory's work copy, which lies below \<open>rw/work\<close>.
\<close>

section \<open>The launch state\<close>

record LimitStrings =
  lim_CPUs :: string
  lim_Memory :: string

record State =
  st_Name :: string
  st_Principal :: string
  st_SandboxDir :: string
  st_Workdir :: DirSpec
  st_WorkCopyDir :: string
  st_AuxDirs :: "DirSpec list"
  st_Agent :: Definition
  st_Model :: string
  st_Profile :: string
  st_ImageRef :: string
  st_Env :: "senv option"
  st_HasPrompt :: bool
  st_PromptSourcePath :: string
  st_NetworkMode :: string
  st_Ports :: "string list"
  st_ExtraMounts :: "string list"
  st_TmuxConf :: string
  st_Resources :: "LimitStrings option"
  st_CapAdd :: "string list"
  st_Devices :: "string list"
  st_Setup :: "string list"
  st_Isolation :: string
  st_VscodeTunnel :: bool
  st_BrokerCredentials :: bool
  st_BrokerDisabled :: bool
  st_HostEnv :: HostEnv

record host_view =
  hv_stat :: "string \<Rightarrow> bool"
  hv_isdir :: "string \<Rightarrow> bool"
  hv_machine_id :: bool
  hv_defaults :: string
  hv_work_copy :: "string \<Rightarrow> string"

section \<open>Building the list\<close>

text \<open>\<open>strings.SplitN(s, ":", n)\<close>\<close>

fun splitN :: "nat \<Rightarrow> string \<Rightarrow> string list" where
  "splitN 0 s = []"
| "splitN (Suc 0) s = [s]"
| "splitN (Suc (Suc n)) s = (case Cut s '':'' of None \<Rightarrow> [s] | Some (a, b) \<Rightarrow> a # splitN (Suc n) b)"

definition ParseConfigMount :: "string \<Rightarrow> string \<Rightarrow> (string \<rightharpoonup> string) \<Rightarrow> (gerror, MountSpec) result" where
  "ParseConfigMount s home env = (case splitN 3 s of
     p # c # opts \<Rightarrow>
       (case ExpandPath p home env of
          Inl e \<Rightarrow> Inl (errorf (''expand host path: '' @ e))
        | Inr hostPath \<Rightarrow>
            (case opts of
               [] \<Rightarrow> Inr \<lparr>ms_HostPath = hostPath, ms_ContainerPath = c, ms_ReadOnly = False\<rparr>
             | opt # _ \<Rightarrow> if opt = ''ro'' then Inr \<lparr>ms_HostPath = hostPath, ms_ContainerPath = c, ms_ReadOnly = True\<rparr>
                 else Inl (errorf (''unknown mount option '' @ opt @ '' (expected ro)''))))
   | _ \<Rightarrow> Inl (errorf ''expected host:container[:ro] format''))"

definition rw_mount :: "string \<Rightarrow> string \<Rightarrow> MountSpec" where
  "rw_mount h c = \<lparr>ms_HostPath = h, ms_ContainerPath = c, ms_ReadOnly = False\<rparr>"

definition ro_mount :: "string \<Rightarrow> string \<Rightarrow> MountSpec" where
  "ro_mount h c = \<lparr>ms_HostPath = h, ms_ContainerPath = c, ms_ReadOnly = True\<rparr>"

definition buildWorkdirMounts :: "State \<Rightarrow> MountSpec list" where
  "buildWorkdirMounts st = (let d = st_Workdir st in
     if SMode d = ''copy'' then [rw_mount (st_WorkCopyDir st) (ResolvedMountPath d)]
     else [\<lparr>ms_HostPath = SPath d, ms_ContainerPath = ResolvedMountPath d, ms_ReadOnly = (SMode d \<noteq> ''rw'')\<rparr>])"

definition buildSingleAuxDirMount :: "host_view \<Rightarrow> DirSpec \<Rightarrow> MountSpec" where
  "buildSingleAuxDirMount V ad =
     (if SMode ad = ''copy'' then rw_mount (hv_work_copy V (SPath ad)) (ResolvedMountPath ad)
      else if SMode ad = ''rw'' then rw_mount (SPath ad) (ResolvedMountPath ad)
      else ro_mount (SPath ad) (ResolvedMountPath ad))"

definition buildVscodeMounts :: "host_view \<Rightarrow> State \<Rightarrow> MountSpec list" where
  "buildVscodeMounts V st =
     rw_mount (path_in (st_SandboxDir st) (VSCodeCLIPath [])) ''/home/yoloai/.vscode/cli''
     # (if hv_machine_id V then [ro_mount (path_in (st_SandboxDir st) (MachineIDPath [])) ''/etc/machine-id''] else [])"

fun home_seed_mounts :: "host_view \<Rightarrow> string \<Rightarrow> string list \<Rightarrow> SeedFile list \<Rightarrow> MountSpec list" where
  "home_seed_mounts V sd mounted [] = []"
| "home_seed_mounts V sd mounted (sf # sfs) =
     (if \<not> sf_HomeDir sf then home_seed_mounts V sd mounted sfs
      else case Cut (sf_TargetPath sf) ''/'' of
        Some (topDir, _) \<Rightarrow>
          (let src = path_in sd (HomeSeedPath [] @ [topDir]) in
           if topDir \<in> set mounted \<or> \<not> hv_stat V src then home_seed_mounts V sd mounted sfs
           else rw_mount src (''/home/yoloai/'' @ topDir) # home_seed_mounts V sd (topDir # mounted) sfs)
      | None \<Rightarrow>
          (let src = path_in sd (HomeSeedPath [] @ [sf_TargetPath sf]) in
           if \<not> hv_stat V src then home_seed_mounts V sd mounted sfs
           else rw_mount src (''/home/yoloai/'' @ sf_TargetPath sf) # home_seed_mounts V sd mounted sfs))"

definition buildHomeSeedMounts :: "host_view \<Rightarrow> State \<Rightarrow> MountSpec list" where
  "buildHomeSeedMounts V st = home_seed_mounts V (st_SandboxDir st) [] (ag_SeedFiles (st_Agent st))"

definition buildAgentMounts :: "host_view \<Rightarrow> State \<Rightarrow> MountSpec list" where
  "buildAgentMounts V st =
     (if ag_StateDir (st_Agent st) \<noteq> [] then [rw_mount (path_in (st_SandboxDir st) (AgentRuntimePath [])) (ag_StateDir (st_Agent st))] else [])
     @ (if st_VscodeTunnel st then buildVscodeMounts V st else []) @ buildHomeSeedMounts V st"

definition buildSystemMounts :: "State \<Rightarrow> MountSpec list" where
  "buildSystemMounts st = (let p = path_in (st_SandboxDir st) in
     [rw_mount (p (LogsPath [])) ''/yoloai/logs'', rw_mount (p (AgentStatusPath [])) ''/yoloai/agent-status.json'']
     @ (if st_HasPrompt st
        then [ro_mount (if st_PromptSourcePath st \<noteq> [] then st_PromptSourcePath st else p (PromptPath [])) ''/yoloai/prompt.txt'']
        else [])
     @ [ro_mount (p (RuntimeConfigPath [])) ''/yoloai/runtime-config.json'',
        rw_mount (p (FilesPath [])) ''/yoloai/files'', rw_mount (p (CachePath [])) ''/yoloai/cache''])"

definition when_exists :: "bool \<Rightarrow> MountSpec \<Rightarrow> MountSpec list" where
  "when_exists b m = (if b then [m] else [])"

definition buildGitAndTmuxMounts :: "host_view \<Rightarrow> State \<Rightarrow> MountSpec list" where
  "buildGitAndTmuxMounts V st =
     (let home = homeDir (st_HostEnv st); conf = st_TmuxConf st;
          defaults = Join (hv_defaults V) ''tmux.conf'';
          host_tmux = ExpandTilde ''~/.tmux.conf'' home;
          gitconfig = ExpandTilde ''~/.gitconfig'' home;
          git_dir = ExpandTilde ''~/.config/git'' home
      in when_exists ((conf = ''default'' \<or> conf = ''default+host'') \<and> hv_stat V defaults) (ro_mount defaults ''/yoloai/tmux/tmux.conf'')
       @ when_exists ((conf = ''default+host'' \<or> conf = ''host'') \<and> hv_stat V host_tmux) (ro_mount host_tmux ''/home/yoloai/.tmux.conf'')
       @ when_exists (hv_stat V gitconfig) (ro_mount gitconfig ''/home/yoloai/.gitconfig'')
       @ when_exists (hv_stat V git_dir \<and> hv_isdir V git_dir) (ro_mount git_dir ''/home/yoloai/.config/git''))"

definition extra_mounts :: "State \<Rightarrow> MountSpec list" where
  "extra_mounts st = List.map_filter (\<lambda>m. case ParseConfigMount m (homeDir (st_HostEnv st)) (EnvForConfigInterpolation (st_HostEnv st)) of
     Inr x \<Rightarrow> Some x | Inl _ \<Rightarrow> None) (st_ExtraMounts st)"

definition buildConfigAndSecretsMounts :: "State \<Rightarrow> string \<Rightarrow> MountSpec list" where
  "buildConfigAndSecretsMounts st secretsDir =
     extra_mounts st @ (if secretsDir \<noteq> [] then [ro_mount secretsDir ''/run/secrets''] else [])"

definition mounts_Build :: "host_view \<Rightarrow> State \<Rightarrow> string \<Rightarrow> MountSpec list" where
  "mounts_Build V st secretsDir = buildWorkdirMounts st @ map (buildSingleAuxDirMount V) (st_AuxDirs st) @ buildAgentMounts V st
     @ buildSystemMounts st @ buildGitAndTmuxMounts V st @ buildConfigAndSecretsMounts st secretsDir"

section \<open>What the guest can write\<close>

text \<open>The directories and files the guest may change, by why.\<close>

definition copy_mounts :: "host_view \<Rightarrow> State \<Rightarrow> string set" where
  "copy_mounts V st = (if SMode (st_Workdir st) = ''copy'' then {st_WorkCopyDir st} else {})
     \<union> hv_work_copy V ` SPath ` {d \<in> set (st_AuxDirs st). SMode d = ''copy''}"

definition shared_dirs :: "State \<Rightarrow> string set" where
  "shared_dirs st = SPath ` {d \<in> insert (st_Workdir st) (set (st_AuxDirs st)). SMode d = ''rw''}"

definition rw_tier_mounts :: "State \<Rightarrow> string set" where
  "rw_tier_mounts st = path_in (st_SandboxDir st) `
     {AgentRuntimePath [], VSCodeCLIPath [], LogsPath [], AgentStatusPath [], FilesPath [], CachePath []}"

definition home_seed_entries :: "State \<Rightarrow> string set" where
  "home_seed_entries st = range (\<lambda>n. path_in (st_SandboxDir st) (HomeSeedPath [] @ [n]))"

lemma mount_simps [simp]:
  "ms_ReadOnly (ro_mount h c)" "\<not> ms_ReadOnly (rw_mount h c)" "ms_HostPath (rw_mount h c) = h" "ms_HostPath (ro_mount h c) = h"
  by (simp_all add: ro_mount_def rw_mount_def)

lemma home_seed_host:
  "m \<in> set (home_seed_mounts V sd mounted sfs) \<Longrightarrow> \<exists>n. ms_HostPath m = path_in sd (HomeSeedPath [] @ [n])"
proof (induction sfs arbitrary: mounted)
  case (Cons sf sfs)
  then show ?case by (fastforce simp: Let_def split: if_splits option.splits prod.splits)
qed simp

lemma writable_git: "m \<in> set (buildGitAndTmuxMounts V st) \<Longrightarrow> ms_ReadOnly m"
  by (auto simp: buildGitAndTmuxMounts_def Let_def when_exists_def split: if_splits)

lemma writable_system:
  "m \<in> set (buildSystemMounts st) \<Longrightarrow> \<not> ms_ReadOnly m \<Longrightarrow> ms_HostPath m \<in> rw_tier_mounts st"
  by (auto simp: buildSystemMounts_def Let_def rw_tier_mounts_def split: if_splits)

lemma writable_agent:
  "m \<in> set (buildAgentMounts V st) \<Longrightarrow> \<not> ms_ReadOnly m \<Longrightarrow> ms_HostPath m \<in> rw_tier_mounts st \<union> home_seed_entries st"
  by (auto simp: buildAgentMounts_def buildVscodeMounts_def buildHomeSeedMounts_def rw_tier_mounts_def home_seed_entries_def
      split: if_splits dest: home_seed_host)

lemma writable_dirs:
  "m \<in> set (buildWorkdirMounts st) \<union> set (map (buildSingleAuxDirMount V) (st_AuxDirs st)) \<Longrightarrow> \<not> ms_ReadOnly m \<Longrightarrow>
     ms_HostPath m \<in> copy_mounts V st \<union> shared_dirs st"
  by (auto simp: buildWorkdirMounts_def buildSingleAuxDirMount_def Let_def copy_mounts_def shared_dirs_def split: if_splits)


definition demo_state :: State where
  "demo_state = \<lparr>st_Name = ''box'', st_Principal = ''cli'', st_SandboxDir = ''/sb'', st_Workdir = empty_spec\<lparr>SPath := ''/w'', SMode := ''copy''\<rparr>,
     st_WorkCopyDir = ''/sb/rw/work/w'', st_AuxDirs = [], st_Agent = claude_agent, st_Model = [], st_Profile = [],
     st_ImageRef = ''yoloai-base'', st_Env = Some [], st_HasPrompt = False, st_PromptSourcePath = [], st_NetworkMode = [],
     st_Ports = [], st_ExtraMounts = [], st_TmuxConf = [], st_Resources = None, st_CapAdd = [], st_Devices = [], st_Setup = [],
     st_Isolation = [], st_VscodeTunnel = False, st_BrokerCredentials = False, st_BrokerDisabled = False,
     st_HostEnv = demo_home\<rparr>"

definition demo_view :: host_view where
  "demo_view = \<lparr>hv_stat = (\<lambda>_. True), hv_isdir = (\<lambda>_. True), hv_machine_id = True, hv_defaults = ''/d'', hv_work_copy = (\<lambda>p. p)\<rparr>"


text \<open>The mounts the layout prescribes: everything but the user's directories, dot files and staged secrets.\<close>

definition layout_mounts :: "host_view \<Rightarrow> State \<Rightarrow> MountSpec list" where
  "layout_mounts V st = buildAgentMounts V st @ buildSystemMounts st"

lemma path_in_tiers:
  "path_in sd (ReadOnlyTierDir [] @ q) = sd @ ''/r'' @ ''o'' @ concat (map (\<lambda>c. CHR ''/'' # c) q)"
  "path_in sd (ReadWriteTierDir [] @ q) = sd @ ''/r'' @ ''w'' @ concat (map (\<lambda>c. CHR ''/'' # c) q)"
  "path_in sd (HostTierDir [] @ q) = sd @ ''/h'' @ ''ost'' @ concat (map (\<lambda>c. CHR ''/'' # c) q)"
  by (simp_all add: path_in_def ReadOnlyTierDir_def ReadWriteTierDir_def HostTierDir_def entry_names)

lemmas guest_paths = AgentRuntimePath_def VSCodeCLIPath_def LogsPath_def AgentStatusPath_def FilesPath_def CachePath_def
  MachineIDPath_def PromptPath_def RuntimeConfigPath_def HomeSeedPath_def append_assoc

lemma layout_mount_paths:
  assumes "m \<in> set (layout_mounts V st)" and "st_PromptSourcePath st \<in> {[], path_in (st_SandboxDir st) (ResumePromptPath [])}"
  shows "\<exists>u. ms_HostPath m = st_SandboxDir st @ ''/r'' @ u"
proof -
  have seed: "\<exists>u. ms_HostPath m = st_SandboxDir st @ ''/r'' @ u" if "m \<in> set (buildHomeSeedMounts V st)"
    using home_seed_host [OF that [unfolded buildHomeSeedMounts_def]]
    by (auto simp: guest_paths path_in_tiers)
  show ?thesis using assms seed
    by (auto simp: layout_mounts_def buildAgentMounts_def buildVscodeMounts_def buildSystemMounts_def Let_def
        guest_paths path_in_tiers ResumePromptPath_def split: if_splits)
qed

text \<open>
  C7: the host tier of a sandbox is never shared with its guest. No mount the sandbox layout
  prescribes (agent state, editor state, home seed, logs, status, prompt, runtime configuration,
  files and cache) is, or contains, any file of the host tier, where the sandbox record, the network
  policy, the injector's token and the backend's state are.
\<close>

theorem host_tier_is_never_mounted:
  assumes "m \<in> set (layout_mounts V st)" and "st_PromptSourcePath st \<in> {[], path_in (st_SandboxDir st) (ResumePromptPath [])}"
  shows "\<not> HasPrefix (path_in (st_SandboxDir st) (HostTierDir [] @ q)) (ms_HostPath m)"
proof -
  obtain u where "ms_HostPath m = st_SandboxDir st @ ''/r'' @ u" using layout_mount_paths [OF assms] by blast
  then show ?thesis by (simp add: path_in_tiers HasPrefix_iff)
qed

theorem host_tier_is_never_mounted_witness:
  "\<not> HasPrefix (path_in (st_SandboxDir demo_state) (HostTierDir [] @ [''environment.json'']))
     (ms_HostPath (rw_mount (path_in ''/sb'' (LogsPath [])) ''/yoloai/logs''))"
  by (rule host_tier_is_never_mounted [of _ demo_view demo_state])
    (simp_all add: layout_mounts_def buildSystemMounts_def Let_def demo_state_def)

text \<open>
  The home seed lies in the tier that is documented as shared read-only, but its entries are mounted
  writable.
\<close>

lemma home_seed_is_writable:
  assumes "sf_HomeDir sf" "Cut (sf_TargetPath sf) ''/'' = None" "hv_stat V (path_in sd (HomeSeedPath [] @ [sf_TargetPath sf]))"
  shows "home_seed_mounts V sd ms [sf] = [rw_mount (path_in sd (HomeSeedPath [] @ [sf_TargetPath sf])) (''/home/yoloai/'' @ sf_TargetPath sf)]
    \<and> TierOfEntry HomeSeedDirName = (TierReadOnly, True)"
proof -
  have "TierOfEntry HomeSeedDirName = (TierReadOnly, True)" by code_simp
  then show ?thesis using assms by (simp add: Let_def)
qed

end
