(* ===== verification/NetPolicy.thy ===== *)
theory NetPolicy
  imports Backend AgentConfigs
begin

text \<open>
  The network policy: composing the allowed domains of a sandbox (\<open>internal/netpolicy/compose.go\<close>) and
  deciding whether a backend can enforce them (\<open>internal/netpolicy/strategy.go\<close>).
\<close>

section \<open>Composition\<close>

datatype DomainSource = AllowedFromAgentRequirement | AllowedFromUser

record AllowedDomain =
  ad_Domain :: string
  ad_Source :: DomainSource

definition WithProvenance :: "string list \<Rightarrow> string list \<Rightarrow> AllowedDomain list" where
  "WithProvenance allow agentFloor = map (\<lambda>d. \<lparr>ad_Domain = d,
     ad_Source = (if d \<in> set agentFloor then AllowedFromAgentRequirement else AllowedFromUser)\<rparr>) allow"

definition Compose :: "string \<Rightarrow> string list \<Rightarrow> string list \<Rightarrow> string \<times> string list" where
  "Compose mode agentFloor userAllow =
     (if mode = ''none'' then (''none'', [])
      else if mode = ''isolated'' then (''isolated'', agentFloor @ userAllow)
      else ([], []))"

section \<open>Enforcement\<close>

definition StrategyIPFilter :: string where "StrategyIPFilter = ''ip-filter''"
definition StrategyEgressProxy :: string where "StrategyEgressProxy = ''egress-proxy''"

definition CanEnforce :: "string \<Rightarrow> BackendCaps \<Rightarrow> string \<Rightarrow> string \<Rightarrow> bool \<times> string" where
  "CanEnforce strategy caps btype isolation =
     (if strategy = StrategyIPFilter then
        if \<not> NetworkIsolation caps then (False, ''--network=isolated is not supported by the '' @ btype @ '' backend'')
        else if \<not> IsolationEnforcesInSandboxIptables isolation then
          (False, ''--network=isolated cannot be enforced with --isolation='' @ isolation @ '': gVisor'' @ [CHR 39]
             @ ''s userspace netstack ignores in-sandbox iptables rules. ''
             @ ''Use --isolation=container (default) or a VM-based isolation mode ''
             @ ''(--isolation=vm or --isolation=vm-enhanced) instead'')
        else (True, [])
      else (False, ''network strategy '' @ strategy @ '' is not implemented''))"

lemma Compose_isolated:
  "Compose mode floor user = (m, allow) \<Longrightarrow> m \<in> {[], ''none'', ''isolated''} \<and> (allow \<noteq> [] \<longrightarrow> m = ''isolated'')
     \<and> (m = ''isolated'' \<longrightarrow> set floor \<subseteq> set allow \<and> set user \<subseteq> set allow)"
  by (auto simp: Compose_def split: if_splits)

lemma WithProvenance_domains: "map ad_Domain (WithProvenance allow floor) = allow"
  by (induction allow) (simp_all add: WithProvenance_def)

end
