(* ===== verification/Launch.thy ===== *)
theory Launch
  imports Mounts NetPolicy
begin

text \<open>
  Launching a sandbox (\<open>internal/orchestrator/launch/launch.go\<close>): brokering the credential, delivering
  secrets, building the instance configuration, bringing the instance up agent-free or the legacy way,
  installing the firewall from a sidecar, verifying, and rolling back. Every call of the backend, of the
  host and on the sandbox's files is an event of the trace. Waiting loops poll; their number of rounds
  is bounded by the timeout divided by the pause between polls.
\<close>

section \<open>What a launch is given\<close>

text \<open>\<open>runtime-config.json\<close>: the fields that are read or changed after creation, and the rest of the struct.\<close>

record ContainerConfig =
  AllowedDomains :: "string list"
  KeepaliveOnly :: bool
  rc_AgentCommand :: string
  rc_AgentLaunchPrefix :: string
  rc_StartupDelay :: int
  rc_ReadyPattern :: string
  rc_SubmitSequence :: string
  rc_TmuxConf :: string
  rc_Debug :: bool
  rc_Passthrough :: "string list"
  rc_VscodeTunnel :: bool
  rc_VscodeTunnelName :: string
  rc_rest :: string

record lenv =
  le_agents :: agents
  le_rec :: rec_codec
  le_view :: host_view
  le_config_env :: "(gerror, senv) result"
  rc_dec :: "string \<Rightarrow> ContainerConfig option"
  rc_enc :: "ContainerConfig \<Rightarrow> string"
  le_cpus :: "string \<Rightarrow> int option"
  le_mem :: "string \<Rightarrow> int \<Rightarrow> int option"
  le_agent_type :: "(gerror, string) result"

record brokerOutcome =
  bro_NetworkMode :: string
  bro_InjectorEndpoint :: string

definition direct_delivery :: brokerOutcome where
  "direct_delivery = \<lparr>bro_NetworkMode = [], bro_InjectorEndpoint = []\<rparr>"

definition cname :: "State \<Rightarrow> string" where
  "cname st = (case InstanceName (st_Principal st) (st_Name st) of Inr n \<Rightarrow> n | Inl _ \<Rightarrow> [])"

definition WorkdirMountPath :: "State \<Rightarrow> string" where
  "WorkdirMountPath st = ResolvedMountPath (st_Workdir st)"

section \<open>Brokering\<close>

definition resolveInjectorReach :: "rtb \<Rightarrow> (rtw, InjectorReach option) prog" where
  "resolveInjectorReach B = (if \<not> is_injector_reachable B then p_ret None
     else p_bind (p_try (call (ans_reach B) EInjectorReach)) (\<lambda>r. case r of
       Inr reach \<Rightarrow> p_ret (Some reach)
     | Inl e \<Rightarrow> if kind_of e = ErrInjectorUnsupported then p_ret None else p_fail e))"

definition resolveBrokerReach :: "rtb \<Rightarrow> State \<Rightarrow> (rtw, InjectorReach option) prog" where
  "resolveBrokerReach B st =
     p_bind (p_ctx ''resolve injector reachability'' (resolveInjectorReach B)) (\<lambda>r. case r of
       None \<Rightarrow> if st_BrokerCredentials st
         then p_fail (errorf (''--broker requested but the '' @ bd_Type (Descriptor B) @ '' backend cannot host a sandbox-reachable injector''))
         else p_ret None
     | Some reach \<Rightarrow>
         if st_NetworkMode st = ''isolated'' \<and> RequiredNetworkMode reach \<noteq> [] then
           if st_BrokerCredentials st
           then p_fail (errorf (''--broker is not yet supported with --network-isolated on the '' @ bd_Type (Descriptor B)
              @ '' backend: it needs a dedicated network mode ('' @ RequiredNetworkMode reach
              @ '') the isolation allowlist can'' @ [CHR 39] @ ''t compose with yet''))
           else p_ret None
         else p_ret (Some reach))"

definition buildInjectorSpec :: "BrokerConfig \<Rightarrow> BrokerCredential \<Rightarrow> InjectorReach \<Rightarrow> string \<Rightarrow> string \<Rightarrow> InjectorSpec" where
  "buildInjectorSpec bc cred reach realKey placeholderToken =
     \<lparr>is_BindHost = BindHost reach, is_UpstreamURL = UpstreamURL bc, is_StripHeaders = [PlaceholderHeader bc],
      is_ExpectedToken = placeholderToken,
      is_Bindings = [\<lparr>bd_Destination = Destination bc, bd_Kind = KindHeaderSet, bd_Header = bc_Header cred,
        bd_Prefix = bc_Prefix cred, bd_Username = [], bd_Secret = realKey\<rparr>]\<rparr>"

definition applyBrokerEnv :: "senv \<Rightarrow> BrokerConfig \<Rightarrow> InjectorReach \<Rightarrow> string \<Rightarrow> string \<Rightarrow> (gerror, senv \<times> string) result" where
  "applyBrokerEnv secretEnv bc reach injectorAddr placeholderToken =
     (case SplitHostPort injectorAddr of
        None \<Rightarrow> Inl (errorf (''parse injector address '' @ injectorAddr))
      | Some (_, port) \<Rightarrow>
          (let m1 = foldl (\<lambda>m c. AList.delete (bc_EnvVar c) m) secretEnv (Credentials bc);
               endpoint = JoinHostPort (DialHost reach) port;
               m2 = (if BaseURLEnvVar bc \<noteq> [] then AList.update (BaseURLEnvVar bc) (''http://'' @ endpoint) m1 else m1);
               m3 = (if AuthTokenEnvVar bc \<noteq> [] then AList.update (AuthTokenEnvVar bc) placeholderToken m2 else m2)
           in Inr (m3, endpoint)))"

text \<open>The shared shape of the three file patches: read what is there, patch, make the directory, write.\<close>

definition read_or_empty :: "rtb \<Rightarrow> string \<Rightarrow> fpath \<Rightarrow> (rtw, string) prog" where
  "read_or_empty B msg p = p_bind (p_try (ReadFile B p)) (\<lambda>r. case r of
     Inr d \<Rightarrow> p_ret d
   | Inl e \<Rightarrow> if kind_of e = ErrNotExist then p_ret [] else p_fail (wrap msg e))"

definition write_runtime_file :: "rtb \<Rightarrow> string \<Rightarrow> string \<Rightarrow> string \<Rightarrow> (rtw, unit) prog" where
  "write_runtime_file B what rel data =
     p_seq (p_ctx (''create dir for '' @ what @ '' '' @ rel) (MkdirAll B (AgentRuntimePath [])))
       (p_ctx (''write '' @ what @ '' '' @ rel) (WriteFile B (AgentRuntimeFilePath [] rel) data))"

definition patchBrokerConfigFiles :: "rtb \<Rightarrow> BrokerConfig \<Rightarrow> string \<Rightarrow> string \<Rightarrow> (rtw, unit) prog" where
  "patchBrokerConfigFiles B bc endpoint placeholderToken = p_each (\<lambda>cf.
     p_bind (read_or_empty B (''read broker config file '' @ cf_RelPath cf) (AgentRuntimeFilePath [] (cf_RelPath cf))) (\<lambda>current.
     p_bind (p_ctx (''patch broker config file '' @ cf_RelPath cf) (p_lift (cf_Patch cf current (''http://'' @ endpoint) placeholderToken))) (\<lambda>patched.
     write_runtime_file B ''broker config file'' (cf_RelPath cf) patched))) (ConfigFiles bc)"

definition brokerCredentials :: "rtb \<Rightarrow> lenv \<Rightarrow> State \<Rightarrow> senv \<Rightarrow> (rtw, brokerOutcome \<times> senv) prog" where
  "brokerCredentials B E st secretEnv =
     (case ag_Broker (st_Agent st) of
        None \<Rightarrow> p_ret (direct_delivery, secretEnv)
      | Some bc \<Rightarrow>
          if st_BrokerDisabled st then p_ret (direct_delivery, secretEnv)
          else (case SelectCredential bc (map_of secretEnv) of
            None \<Rightarrow> p_ret (direct_delivery, secretEnv)
          | Some (cred, realKey) \<Rightarrow>
              if st_NetworkMode st = ''none'' then
                if st_BrokerCredentials st
                then p_fail (errorf (''--broker is not supported with --network-none: the sandbox has no egress to reach the host-side injector. ''
                   @ ''Omit --broker, or use open or isolated networking''))
                else p_ret (direct_delivery, secretEnv)
              else p_bind (resolveBrokerReach B st) (\<lambda>r. case r of
                None \<Rightarrow> p_ret (direct_delivery, secretEnv)
              | Some reach \<Rightarrow>
                  p_bind (p_ctx ''broker placeholder token'' (PlaceholderToken B)) (\<lambda>tok.
                  p_bind (p_ctx ''start credential injector'' (Ensure B (le_rec E) (buildInjectorSpec bc cred reach realKey tok))) (\<lambda>addr.
                  p_bind (p_lift (applyBrokerEnv secretEnv bc reach addr tok)) (\<lambda>(env', endpoint).
                  p_seq (patchBrokerConfigFiles B bc endpoint tok)
                    (p_ret (\<lparr>bro_NetworkMode = RequiredNetworkMode reach, bro_InjectorEndpoint = endpoint\<rparr>, env'))))))))"

definition applyWorkdirTrust :: "rtb \<Rightarrow> State \<Rightarrow> (rtw, unit) prog" where
  "applyWorkdirTrust B st = (case ag_WorkdirTrust (st_Agent st) of
     None \<Rightarrow> p_ret ()
   | Some wt \<Rightarrow>
       p_bind (read_or_empty B (''read workdir-trust file '' @ wt_RelPath wt) (AgentRuntimeFilePath [] (wt_RelPath wt))) (\<lambda>current.
       p_bind (p_ctx (''patch workdir-trust file '' @ wt_RelPath wt) (p_lift (wt_Patch wt current (WorkdirMountPath st)))) (\<lambda>patched.
       write_runtime_file B ''workdir-trust file'' (wt_RelPath wt) patched)))"

fun first_value :: "senv \<Rightarrow> string list \<Rightarrow> string" where
  "first_value env [] = []"
| "first_value env (k # ks) = (case map_of env k of Some v \<Rightarrow> if v \<noteq> [] then v else first_value env ks | None \<Rightarrow> first_value env ks)"

definition applyDirectCredential :: "rtb \<Rightarrow> State \<Rightarrow> senv \<Rightarrow> (rtw, unit) prog" where
  "applyDirectCredential B st secretEnv = (case ag_DirectCredential (st_Agent st) of
     None \<Rightarrow> p_ret ()
   | Some dc \<Rightarrow>
       (let secret = first_value secretEnv (dc_EnvVars dc) in
        if secret = [] then p_ret ()
        else p_bind (p_ctx (''render direct-credential file '' @ dc_RelPath dc) (p_lift (dc_Render dc secret)))
               (write_runtime_file B ''direct-credential file'' (dc_RelPath dc))))"

section \<open>The instance configuration\<close>

definition instanceLabels :: "string \<Rightarrow> string \<Rightarrow> string \<Rightarrow> senv" where
  "instanceLabels owner name baseChecksum =
     [(LabelSandbox, name), (LabelPrincipal, owner)] @ (if baseChecksum \<noteq> [] then [(BaseChecksumLabel, baseChecksum)] else [])"

definition parseMemoryString :: "lenv \<Rightarrow> string \<Rightarrow> (gerror, int) result" where
  "parseMemoryString E s0 =
     (if s0 = [] then Inr 0
      else let s = TrimSpace s0 in
        if s = [] then Inl (errorf ''empty memory value'')
        else let c = to_lower_char (last s);
                 scale = (if c = CHR ''b'' then Some 1 else if c = CHR ''k'' then Some 1024
                          else if c = CHR ''m'' then Some (1024 * 1024) else if c = CHR ''g'' then Some (1024 * 1024 * 1024) else None);
                 numStr = (if scale = None then s else butlast s);
                 mult = (case scale of Some m \<Rightarrow> m | None \<Rightarrow> 1)
             in case le_mem E numStr mult of
                  None \<Rightarrow> Inl (errorf (''invalid memory value '' @ s @ '': must be a positive number with optional suffix (b, k, m, g)''))
                | Some v \<Rightarrow> Inr v)"

definition parseResourceLimits :: "lenv \<Rightarrow> LimitStrings \<Rightarrow> (gerror, RtResources option) result" where
  "parseResourceLimits E rl =
     res_bind (if lim_CPUs rl = [] then Inr 0
               else case le_cpus E (lim_CPUs rl) of Some n \<Rightarrow> Inr n
                 | None \<Rightarrow> Inl (errorf (''invalid cpus value '' @ lim_CPUs rl @ '': must be a positive number (e.g., 4, 2.5)''))) (\<lambda>cpus.
     res_bind (parseMemoryString E (lim_Memory rl)) (\<lambda>mem.
       Inr (if cpus = 0 \<and> mem = 0 then None else Some \<lparr>NanoCPUs = cpus, MemoryBytes = mem\<rparr>)))"

definition applyResourceLimits :: "lenv \<Rightarrow> State \<Rightarrow> InstanceConfig \<Rightarrow> (gerror, InstanceConfig) result" where
  "applyResourceLimits E st cfg = (case st_Resources st of
     None \<Rightarrow> Inr cfg | Some rl \<Rightarrow> res_bind (parseResourceLimits E rl) (\<lambda>r. Inr (cfg\<lparr>ic_Resources := r\<rparr>)))"

definition applyCaps :: "State \<Rightarrow> BackendCaps \<Rightarrow> string \<Rightarrow> InstanceConfig \<Rightarrow> (gerror, InstanceConfig) result" where
  "applyCaps st caps btype cfg =
     (if \<not> cap_CapAdd caps \<and> (st_CapAdd st \<noteq> [] \<or> st_Devices st \<noteq> [] \<or> st_Setup st \<noteq> [])
      then Inl (errorf (''cap_add, devices, and setup require a container backend (not supported with '' @ btype @ '')''))
      else Inr (cfg\<lparr>ic_CapAdd := ic_CapAdd cfg @ st_CapAdd st, ic_Devices := st_Devices st\<rparr>))"

definition container_env :: "brokerOutcome \<Rightarrow> bool \<Rightarrow> string list" where
  "container_env bro sidecarFirewall = [''LANG=C.UTF-8'']
     @ (if bro_InjectorEndpoint bro \<noteq> [] then [''YOLOAI_BROKER_INJECTOR_ENDPOINT='' @ bro_InjectorEndpoint bro] else [])
     @ (if sidecarFirewall then [''YOLOAI_FIREWALL_EXTERNAL=1''] else [])"

definition base_config :: "State \<Rightarrow> MountSpec list \<Rightarrow> PortMapping list \<Rightarrow> brokerOutcome \<Rightarrow> bool \<Rightarrow> string \<Rightarrow> InstanceConfig" where
  "base_config st mnts ports bro sidecarFirewall baseChecksum =
     \<lparr>ic_Name = cname st, ic_Hostname = SanitizeHostname (st_Name st), ic_WorkingDir = WorkdirMountPath st,
      ic_Mounts = mnts, ic_Ports = ports,
      ic_NetworkMode = (if bro_NetworkMode bro \<noteq> [] then bro_NetworkMode bro else st_NetworkMode st),
      ic_Resources = None, ic_Labels = instanceLabels (st_Principal st) (st_Name st) baseChecksum,
      ic_ImageRef = st_ImageRef st, ic_CapAdd = [], ic_Devices = [], ic_UseInit = True, ic_Privileged = False,
      ic_ContainerEnv = container_env bro sidecarFirewall, ic_ContainerRuntime = [], ic_Snapshotter = []\<rparr>"

definition buildInstanceConfig :: "lenv \<Rightarrow> BackendDescriptor \<Rightarrow> State \<Rightarrow> MountSpec list \<Rightarrow> PortMapping list \<Rightarrow> brokerOutcome \<Rightarrow>
    bool \<Rightarrow> string \<Rightarrow> (gerror, InstanceConfig) result" where
  "buildInstanceConfig E desc st mnts ports bro sidecarFirewall baseChecksum =
     (let caps = Capabilities desc; enforce = CanEnforce StrategyIPFilter caps (bd_Type desc) (st_Isolation st) in
      if st_NetworkMode st = ''isolated'' \<and> \<not> fst enforce then Inl (errorf (snd enforce))
      else res_bind (applyResourceLimits E st (base_config st mnts ports bro sidecarFirewall baseChecksum)) (\<lambda>cfg1.
        let cfg2 = (if st_NetworkMode st = ''isolated'' \<and> NetworkIsolation caps \<and> \<not> sidecarFirewall
                    then cfg1\<lparr>ic_CapAdd := ic_CapAdd cfg1 @ [''NET_ADMIN'']\<rparr> else cfg1)
        in res_bind (applyCaps st caps (bd_Type desc) cfg2) (\<lambda>cfg3.
           Inr (cfg3\<lparr>ic_Privileged := (st_Isolation st = ''container-privileged''),
                     ic_ContainerRuntime := IsolationContainerRuntime (st_Isolation st),
                     ic_Snapshotter := IsolationSnapshotter (st_Isolation st)\<rparr>))))"

section \<open>Images and scripts\<close>

definition ensureImageLineage :: "rtb \<Rightarrow> State \<Rightarrow> (rtw, string) prog" where
  "ensureImageLineage B st =
     (if \<not> is_image_builder B then p_ret []
      else p_seq (if st_Profile st = [] then p_ctx ''ensure base image is current'' (call (ans_unit B) ESetup)
                  else p_ctx ''ensure image is current'' (call (ans_unit B) (ERebuildProfile (st_Profile st) False)))
        (p_bind (p_try (call (ans_labels B) (EImageLabels (st_ImageRef st)))) (\<lambda>r. p_ret (case r of
           Inr (Some labels) \<Rightarrow> (case map_of labels BaseChecksumLabel of Some v \<Rightarrow> v | None \<Rightarrow> []) | _ \<Rightarrow> []))))"

definition deliverRuntimeScripts :: "rtb \<Rightarrow> State \<Rightarrow> (rtw, MountSpec list) prog" where
  "deliverRuntimeScripts B st =
     (if \<not> is_script_provider B then p_ret []
      else p_seq (p_ctx ''deliver runtime scripts'' (call (ans_unit B) (EWriteScripts (BinPath []))))
        (p_ret [ro_mount (path_in (st_SandboxDir st) (BinPath [])) RuntimeScriptDir]))"

definition gvisorStartHint :: "string \<Rightarrow> gerror \<Rightarrow> gerror" where
  "gvisorStartHint isolation e =
     (if isolation \<noteq> IsolationModeContainerEnhanced then e
      else if Contains (message_of e) ''looking up the specified runtime path''
         \<or> Contains (message_of e) ''runsc'' \<and> Contains (message_of e) ''no such file''
        then after_err e ''gVisor (container-enhanced): runsc is registered with the daemon but the binary is not present where the daemon runs''
      else if Contains (message_of e) ''cannot read client sync file'' \<or> Contains (message_of e) ''OCI runtime create''
        then after_err e ''gVisor (container-enhanced) failed to start the sandbox''
      else e)"

definition hinted :: "string \<Rightarrow> (rtw, 'a) prog \<Rightarrow> (rtw, 'a) prog" where
  "hinted isolation m = p_bind (p_try m) (\<lambda>r. case r of Inr a \<Rightarrow> p_ret a | Inl e \<Rightarrow> p_fail (gvisorStartHint isolation e))"

definition isMissingImageErr :: "string \<Rightarrow> gerror \<Rightarrow> bool" where
  "isMissingImageErr imageRef e = (imageRef \<noteq> [] \<and> Contains (message_of e) imageRef \<and>
     (Contains (message_of e) ''No such image'' \<or> Contains (message_of e) ''failed to resolve reference''
      \<or> Contains (message_of e) ''manifest unknown'' \<or> Contains (message_of e) ''pull access denied''
      \<or> Contains (message_of e) ''image not found''))"

definition missingImageHint :: "string \<Rightarrow> string \<Rightarrow> gerror \<Rightarrow> gerror" where
  "missingImageHint imageRef profile e =
     (if \<not> isMissingImageErr imageRef e then e
      else after_err e (''The image '' @ imageRef @ '' is recorded as built but is not in this backend'' @ [CHR 39]
        @ ''s image store. Rebuild it with yoloai system build'' @ (if profile \<noteq> [] then '' '' @ profile else [])))"

definition createWithImageRecovery :: "rtb \<Rightarrow> State \<Rightarrow> InstanceConfig \<Rightarrow> (rtw, unit) prog" where
  "createWithImageRecovery B st cfg =
     p_bind (p_try (hinted (st_Isolation st) (rt_Create B cfg))) (\<lambda>r. case r of
       Inr _ \<Rightarrow> p_ret ()
     | Inl e \<Rightarrow>
         if st_Profile st = [] \<or> \<not> isMissingImageErr (ic_ImageRef cfg) e
         then p_fail (missingImageHint (ic_ImageRef cfg) (st_Profile st) e)
         else p_bind (p_try (call (ans_unit B) (ERebuildProfile (st_Profile st) True))) (\<lambda>r. case r of
           Inl be \<Rightarrow> p_fail (after_err be '' (automatic rebuild)'')
         | Inr _ \<Rightarrow> p_bind (p_try (hinted (st_Isolation st) (rt_Create B cfg))) (\<lambda>r. case r of
             Inl re \<Rightarrow> p_fail (after_err re '' (after an automatic rebuild)'')
           | Inr _ \<Rightarrow> p_ret ())))"

section \<open>Bringing the instance up\<close>

definition secretsConsumedTimeout :: int where "secretsConsumedTimeout = 30000"

definition effectiveSecretsConsumedTimeout :: "BackendDescriptor \<Rightarrow> int" where
  "effectiveSecretsConsumedTimeout desc = (if 0 < SecretsConsumedTimeout desc then SecretsConsumedTimeout desc else secretsConsumedTimeout)"

text \<open>Polls are 100 milliseconds apart, so after this many rounds the deadline has passed.\<close>

definition poll_rounds :: "int \<Rightarrow> nat" where
  "poll_rounds timeout = nat (timeout div 100) + 1"

definition deadline_passed :: "rtb \<Rightarrow> (rtw, bool) prog" where
  "deadline_passed B = p_bind (p_try (call (ans_bool B) EDeadline)) (\<lambda>r. p_ret (case r of Inr b \<Rightarrow> b | Inl _ \<Rightarrow> False))"

fun waitForReady :: "rtb \<Rightarrow> string \<Rightarrow> nat \<Rightarrow> gerror option \<Rightarrow> (rtw, unit) prog" where
  "waitForReady B n 0 lastErr = p_fail (case lastErr of
     Some e \<Rightarrow> wrap ''substrate not ready'' e | None \<Rightarrow> errorf ''substrate not ready (root provisioning did not complete)'')"
| "waitForReady B n (Suc rounds) lastErr =
     p_bind (p_try (call (ans_bool B) (EReady n))) (\<lambda>r.
       if r = Inr True then p_ret ()
       else let lastErr' = (case r of Inl e \<Rightarrow> Some e | Inr _ \<Rightarrow> lastErr) in
         p_bind (deadline_passed B) (\<lambda>passed. waitForReady B n (if passed then 0 else rounds) lastErr'))"

fun waitForSecretsConsumed :: "rtb \<Rightarrow> nat \<Rightarrow> (rtw, unit) prog" where
  "waitForSecretsConsumed B 0 = p_ret ()"
| "waitForSecretsConsumed B (Suc rounds) =
     p_bind (p_try (call (ans_unit B) (ERead (LogFilePath [] ''.secrets-consumed'')))) (\<lambda>r.
       if is_ok r then p_ret ()
       else p_bind (deadline_passed B) (\<lambda>passed. waitForSecretsConsumed B (if passed then 0 else rounds)))"

definition readContainerConfig :: "rtb \<Rightarrow> lenv \<Rightarrow> (rtw, ContainerConfig) prog" where
  "readContainerConfig B E = p_bind (p_ctx ''read runtime-config.json'' (ReadFile B (RuntimeConfigPath []))) (\<lambda>data.
     case rc_dec E data of None \<Rightarrow> p_fail (errorf ''parse runtime-config.json'') | Some cfg \<Rightarrow> p_ret cfg)"

definition patchKeepaliveOnly :: "rtb \<Rightarrow> lenv \<Rightarrow> bool \<Rightarrow> (rtw, unit) prog" where
  "patchKeepaliveOnly B E keepalive = p_bind (readContainerConfig B E) (\<lambda>cfg.
     p_ctx ''write runtime-config.json'' (WriteFile B (RuntimeConfigPath []) (rc_enc E (cfg\<lparr>KeepaliveOnly := keepalive\<rparr>))))"

definition loadAllowedDomains :: "rtb \<Rightarrow> lenv \<Rightarrow> (rtw, string list) prog" where
  "loadAllowedDomains B E = p_bind (readContainerConfig B E) (\<lambda>cfg. p_ret (AllowedDomains cfg))"

fun join_with :: "string \<Rightarrow> string list \<Rightarrow> string" where
  "join_with sep [] = []"
| "join_with sep [x] = x"
| "join_with sep (x # xs) = x @ sep @ join_with sep xs"

definition firewall_env :: "string list \<Rightarrow> brokerOutcome \<Rightarrow> string list" where
  "firewall_env domains bro = (''YOLOAI_FW_ALLOWED_DOMAINS='' @ join_with '' '' domains)
     # (if bro_InjectorEndpoint bro \<noteq> [] then [''YOLOAI_BROKER_INJECTOR_ENDPOINT='' @ bro_InjectorEndpoint bro] else [])"

definition firewallSidecarAttempts :: nat where "firewallSidecarAttempts = 3"

text \<open>The last attempt's error is returned; a cancelled context (\<open>EDeadline\<close>) stops the retries.\<close>

fun runNetnsSidecarWithRetry :: "rtb \<Rightarrow> NetnsSidecarSpec \<Rightarrow> nat \<Rightarrow> (rtw, unit) prog" where
  "runNetnsSidecarWithRetry B spc 0 = p_fail (errorf ''no attempts'')"
| "runNetnsSidecarWithRetry B spc (Suc k) =
     p_bind (p_try (call (ans_unit B) (ESidecar spc))) (\<lambda>r. case r of
       Inr _ \<Rightarrow> p_ret ()
     | Inl e \<Rightarrow> if k = 0 then p_fail e
         else p_bind (deadline_passed B) (\<lambda>cancelled.
           if cancelled then p_fail (errorf ''context canceled'') else runNetnsSidecarWithRetry B spc k))"

definition firewall_spec :: "State \<Rightarrow> string list \<Rightarrow> brokerOutcome \<Rightarrow> MountSpec list \<Rightarrow> NetnsSidecarSpec" where
  "firewall_spec st domains bro mnts = \<lparr>ns_Target = cname st, ns_Image = st_ImageRef st,
     ns_Argv = [''python3'', RuntimeScriptDir @ ''/install-firewall.py''], ns_Env = firewall_env domains bro,
     ns_CapAdd = [''NET_ADMIN''], ns_Mounts = mnts\<rparr>"

definition installFirewallSidecar :: "rtb \<Rightarrow> lenv \<Rightarrow> State \<Rightarrow> brokerOutcome \<Rightarrow> (rtw, unit) prog" where
  "installFirewallSidecar B E st bro =
     (if \<not> is_netns_runner B then p_fail (errorf (''backend '' @ bd_Type (Descriptor B) @ '' cannot run a netns firewall sidecar''))
      else p_bind (p_ctx ''firewall sidecar'' (loadAllowedDomains B E)) (\<lambda>domains.
           p_bind (deliverRuntimeScripts B st) (\<lambda>mnts.
           p_ctx ''install network-isolation firewall'' (runNetnsSidecarWithRetry B (firewall_spec st domains bro mnts) firewallSidecarAttempts))))"

definition launch_env :: "senv \<Rightarrow> string list" where
  "launch_env secretEnv = [''HOME=/home/yoloai'', ''YOLOAI_DIR=/yoloai''] @
     (if secretEnv = [] then []
      else let keys = sort (remdups (map fst secretEnv)) in
        map (\<lambda>k. assign k (case map_of secretEnv k of Some v \<Rightarrow> v | None \<Rightarrow> [])) keys @ [''YOLOAI_SECRET_KEYS='' @ join_with '','' keys])"

definition session_runner :: "State \<Rightarrow> senv \<Rightarrow> ProcSpec" where
  "session_runner st secretEnv =
     \<lparr>ps_Argv = [''sh'', ''-c'', ''exec python3 /yoloai/bin/sandbox-setup.py docker >> /yoloai/logs/session-runner.log 2>&1''],
      ps_Env = launch_env secretEnv, ps_Cwd = WorkdirMountPath st, ps_User = ''yoloai'', ps_Detached = True\<rparr>"

definition startViaLaunch :: "rtb \<Rightarrow> lenv \<Rightarrow> State \<Rightarrow> InstanceConfig \<Rightarrow> bool \<Rightarrow> senv \<Rightarrow> brokerOutcome \<Rightarrow> bool \<Rightarrow> (rtw, unit) prog" where
  "startViaLaunch B E st instanceCfg hasSecrets secretEnv bro sidecarFirewall =
     (let cfg = instanceCfg\<lparr>ic_ContainerEnv := ic_ContainerEnv instanceCfg @ [''YOLOAI_KEEPALIVE_ONLY=1'']\<rparr>;
          rounds = poll_rounds (effectiveSecretsConsumedTimeout (Descriptor B))
      in p_seq (p_ctx ''patch keepalive_only'' (patchKeepaliveOnly B E True))
        (p_seq (p_ignore (Unlink B (LogFilePath [] ''.substrate-ready'')))
        (p_seq (createWithImageRecovery B st cfg)
        (p_seq (p_ctx ''start instance'' (hinted (st_Isolation st) (rt_Start B (cname st))))
        (p_seq (waitForReady B (cname st) rounds None)
        (p_seq (p_when sidecarFirewall (installFirewallSidecar B E st bro))
        (p_seq (p_ctx ''launch session-runner'' (call (ans_unit B) (ELaunch (cname st) (session_runner st secretEnv))))
               (p_when hasSecrets (waitForSecretsConsumed B rounds)))))))))"

definition startLegacy :: "rtb \<Rightarrow> State \<Rightarrow> InstanceConfig \<Rightarrow> bool \<Rightarrow> (rtw, unit) prog" where
  "startLegacy B st cfg hasSecrets =
     p_seq (createWithImageRecovery B st cfg)
    (p_seq (p_ctx ''start instance'' (hinted (st_Isolation st) (rt_Start B (cname st))))
     (p_when hasSecrets (waitForSecretsConsumed B (poll_rounds (effectiveSecretsConsumedTimeout (Descriptor B))))))"

section \<open>Verification after the start\<close>

definition last_lines :: "nat \<Rightarrow> string \<Rightarrow> string" where
  "last_lines n data = (if data = [] then []
     else let lines = split_lines (rev (dropWhile (\<lambda>c. c = CHR 10) (rev data)))
          in join_lines (drop (length lines - n) lines))"

definition readLogTail :: "rtb \<Rightarrow> fpath \<Rightarrow> nat \<Rightarrow> (rtw, string) prog" where
  "readLogTail B p n = p_bind (p_try (ReadFile B p)) (\<lambda>r. p_ret (case r of Inr d \<Rightarrow> last_lines n d | Inl _ \<Rightarrow> []))"

text \<open>A round sleeps a second and the deadline is four seconds away, so there are at most four rounds.\<close>

fun inspect_loop :: "rtb \<Rightarrow> string \<Rightarrow> nat \<Rightarrow> (rtw, InstanceInfo) prog" where
  "inspect_loop B n rounds = p_bind (p_try (rt_Inspect B n)) (\<lambda>r. case r of
     Inr info \<Rightarrow> p_ret info
   | Inl e \<Rightarrow> (case rounds of
        0 \<Rightarrow> p_fail (wrap ''inspect instance after start'' e)
      | Suc k \<Rightarrow> if kind_of e \<noteq> ErrNotFound then p_fail (wrap ''inspect instance after start'' e)
          else p_bind (deadline_passed B) (\<lambda>passed.
            if passed then p_fail (wrap ''inspect instance after start'' e) else inspect_loop B n k)))"

declare inspect_loop.simps [simp del]

definition verifyInstanceRunning :: "rtb \<Rightarrow> State \<Rightarrow> (rtw, unit) prog" where
  "verifyInstanceRunning B st = p_bind (inspect_loop B (cname st) 3) (\<lambda>info.
     if ii_Running info then p_ret ()
     else p_bind (readLogTail B (LogFilePath [] ''sandbox.jsonl'') 20) (\<lambda>t1.
          p_bind (if t1 \<noteq> [] then p_ret [t1] else p_bind (readLogTail B (LogFilePath [] ''agent.log'') 20) (\<lambda>t2. p_ret (if t2 \<noteq> [] then [t2] else []))) (\<lambda>parts1.
          p_bind (LogsFor B (cname st)) (\<lambda>logs.
            let parts = parts1 @ (if logs \<noteq> [] then [logs] else []) in
            if parts \<noteq> [] then p_fail (errorf (''instance exited immediately:'' @ [CHR 10] @ join_lines parts))
            else p_fail (errorf ''instance exited immediately'')))))"

definition buildAndStart :: "rtb \<Rightarrow> lenv \<Rightarrow> State \<Rightarrow> MountSpec list \<Rightarrow> PortMapping list \<Rightarrow> bool \<Rightarrow> senv \<Rightarrow> brokerOutcome \<Rightarrow> string \<Rightarrow>
    (rtw, unit) prog" where
  "buildAndStart B E st mnts ports hasSecrets secretEnv bro baseChecksum =
     (let sidecarFirewall = UsesSidecarFirewall B (st_Isolation st) (st_NetworkMode st) in
      p_bind (p_lift (buildInstanceConfig E (Descriptor B) st mnts ports bro sidecarFirewall baseChecksum)) (\<lambda>cfg.
      p_seq (p_when hasSecrets (p_ignore (Unlink B (LogFilePath [] ''.secrets-consumed''))))
     (p_seq (if usesAgentFreeLaunch B (st_Isolation st)
             then startViaLaunch B E st cfg hasSecrets secretEnv bro sidecarFirewall
             else startLegacy B st cfg hasSecrets)
      (verifyInstanceRunning B st))))"

section \<open>The launch\<close>

definition parse_port :: "string \<Rightarrow> (gerror, PortMapping) result" where
  "parse_port p = (case splitN 2 p of
     [a, b] \<Rightarrow> (case Atoi a of
         None \<Rightarrow> Inl (usage_error (''invalid host port '' @ a @ '' in mapping '' @ p))
       | Some h \<Rightarrow> (case Atoi b of
           None \<Rightarrow> Inl (usage_error (''invalid container port '' @ b @ '' in mapping '' @ p))
         | Some c \<Rightarrow> Inr \<lparr>HostPort = h, ContainerPort = c, Protocol = ''tcp''\<rparr>))
   | _ \<Rightarrow> Inl (usage_error (''invalid port format '' @ p @ '' (expected host:container)'')))"

fun parsePortBindings :: "string list \<Rightarrow> (gerror, PortMapping list) result" where
  "parsePortBindings [] = Inr []"
| "parsePortBindings (p # ps) = res_bind (parse_port p) (\<lambda>x. res_bind (parsePortBindings ps) (\<lambda>xs. Inr (x # xs)))"

fun filterAvailablePorts :: "rtb \<Rightarrow> PortMapping list \<Rightarrow> (rtw, PortMapping list) prog" where
  "filterAvailablePorts B [] = p_ret []"
| "filterAvailablePorts B (p # ps) = p_bind (p_try (call (ans_unit B) (EListen (HostPort p)))) (\<lambda>r.
     p_bind (filterAvailablePorts B ps) (\<lambda>rest. p_ret (if is_ok r then p # rest else rest)))"

definition rollbackPartialLaunch :: "rtb \<Rightarrow> lenv \<Rightarrow> State \<Rightarrow> (rtw, unit) prog" where
  "rollbackPartialLaunch B E st =
     p_seq (p_ignore (rt_Stop B (cname st)))
    (p_seq (p_ignore (rt_Remove B (cname st)))
     (p_ignore (Injector_Stop B (le_rec E))))"

definition StageSecretEnv :: "rtb \<Rightarrow> senv \<Rightarrow> (rtw, string) prog" where
  "StageSecretEnv B m = (if m = [] then p_ret [] else call (ans_str B) (EStageSecrets m))"

definition bring_up :: "rtb \<Rightarrow> lenv \<Rightarrow> State \<Rightarrow> string \<Rightarrow> senv \<Rightarrow> brokerOutcome \<Rightarrow> (rtw, unit) prog" where
  "bring_up B E st secretsDir secretEnv bro =
     p_bind (p_lift (parsePortBindings (st_Ports st))) (\<lambda>ports0.
     p_bind (filterAvailablePorts B ports0) (\<lambda>ports.
     p_bind (ensureImageLineage B st) (\<lambda>baseChecksum.
     p_bind (deliverRuntimeScripts B st) (\<lambda>scriptMount.
     buildAndStart B E st (mounts_Build (le_view E) st secretsDir @ scriptMount) ports (secretsDir \<noteq> []) secretEnv bro baseChecksum))))"

definition deliver_and_start :: "rtb \<Rightarrow> lenv \<Rightarrow> State \<Rightarrow> senv \<Rightarrow> brokerOutcome \<Rightarrow> (rtw, unit) prog" where
  "deliver_and_start B E st secretEnv bro =
     (if usesAgentFreeLaunch B (st_Isolation st) then bring_up B E st [] secretEnv bro
      else p_bind (p_ctx ''create secrets'' (StageSecretEnv B secretEnv)) (\<lambda>dir.
        p_finally (bring_up B E st dir [] bro)
          (p_when (dir \<noteq> []) (p_ignore (call (ans_unit B) (EUnstage dir))))))"

definition launch_secrets :: "lenv \<Rightarrow> State \<Rightarrow> senv \<Rightarrow> senv" where
  "launch_secrets E st envVars = ResolveSecretEnv (BuildEnvSpec (le_agents E) (st_Agent st)) envVars (st_HostEnv st)"

definition LaunchContainer :: "rtb \<Rightarrow> lenv \<Rightarrow> State \<Rightarrow> (rtw, unit) prog" where
  "LaunchContainer B E st =
     p_bind (case st_Env st of Some e \<Rightarrow> p_ret e | None \<Rightarrow> p_ctx ''load config'' (p_lift (le_config_env E))) (\<lambda>envVars.
     p_bind (brokerCredentials B E st (launch_secrets E st envVars)) (\<lambda>(bro, secretEnv).
     p_seq (applyWorkdirTrust B st)
    (p_seq (applyDirectCredential B st secretEnv)
     (p_onerr (deliver_and_start B E st secretEnv bro) (rollbackPartialLaunch B E st)))))"

definition ReconcileInjector :: "rtb \<Rightarrow> lenv \<Rightarrow> State \<Rightarrow> (rtw, unit) prog" where
  "ReconcileInjector B E st =
     p_bind (HasRecord B (le_rec E)) (\<lambda>has. if \<not> has then p_ret ()
     else p_bind (InjectorAlive B (le_rec E)) (\<lambda>alive. if alive then p_ret ()
     else p_bind (p_ctx ''reconcile injector: load agent config'' (p_lift (le_agent_type E))) (\<lambda>agentType.
     case GetAgent (le_agents E) agentType of None \<Rightarrow> p_ret ()
     | Some def \<Rightarrow> (case ag_Broker def of None \<Rightarrow> p_ret ()
       | Some bc \<Rightarrow>
           p_bind (p_ctx (''reconcile injector: inspect '' @ cname st) (rt_Inspect B (cname st))) (\<lambda>info.
           if \<not> ii_Running info then p_ret ()
           else p_bind (p_ctx ''reconcile injector: load config'' (p_lift (le_config_env E))) (\<lambda>cfgEnv.
             case SelectCredential bc (map_of (ResolveSecretEnv (BuildEnvSpec (le_agents E) def) cfgEnv (st_HostEnv st))) of
               None \<Rightarrow> p_ret ()
             | Some (cred, realKey) \<Rightarrow>
                 p_bind (p_ctx ''reconcile injector: resolve reachability'' (resolveInjectorReach B)) (\<lambda>r. case r of
                   None \<Rightarrow> p_ret ()
                 | Some reach \<Rightarrow>
                     p_bind (p_ctx ''reconcile injector: placeholder token'' (PlaceholderToken B)) (\<lambda>tok.
                     p_bind (p_ctx ''reconcile injector: respawn'' (Ensure B (le_rec E) (buildInjectorSpec bc cred reach realKey tok))) (\<lambda>_. p_ret ())))))))))"

end
