(* ===== verification/LaunchRel.thy ===== *)
theory LaunchRel
  imports Launch
begin

text \<open>
  Two runs of the launch code. A relation between states is stable for a set of calls when related
  states have the same files, get the same answers to these calls and stay related after them. Every
  launch operation then gives the same result in related states and keeps them related; a state
  predicate is the special case of equal states that satisfy it.
\<close>

definition same_answers :: "rtb \<Rightarrow> trace \<Rightarrow> event \<Rightarrow> trace \<Rightarrow> event \<Rightarrow> bool" where
  "same_answers B t e t' e' \<longleftrightarrow> ans_unit B t e = ans_unit B t' e' \<and> ans_bool B t e = ans_bool B t' e'
     \<and> ans_str B t e = ans_str B t' e' \<and> ans_info B t e = ans_info B t' e' \<and> ans_reach B t e = ans_reach B t' e'
     \<and> ans_labels B t e = ans_labels B t' e' \<and> ans_proc B t e = ans_proc B t' e' \<and> torn B t e = torn B t' e'"

definition stable :: "rtb \<Rightarrow> (event \<Rightarrow> bool) \<Rightarrow> (rtw \<Rightarrow> rtw \<Rightarrow> bool) \<Rightarrow> bool" where
  "stable B S R \<longleftrightarrow> (\<forall>s t. R s t \<longrightarrow> files s = files t \<and> (\<forall>f. R (s\<lparr>files := f\<rparr>) (t\<lparr>files := f\<rparr>))
     \<and> (\<forall>e. S e \<longrightarrow> same_answers B (trace s) e (trace t) e
          \<and> (\<forall>b. R (s\<lparr>trace := (e, b) # trace s\<rparr>) (t\<lparr>trace := (e, b) # trace t\<rparr>))))"

text \<open>Calls that neither create, start nor launch.\<close>

fun harmless :: "event \<Rightarrow> bool" where
  "harmless (ECreate _) = False"
| "harmless (EStart _) = False"
| "harmless (ELaunch _ _) = False"
| "harmless _ = True"

definition calm :: "rtb \<Rightarrow> (event \<Rightarrow> bool) \<Rightarrow> (rtw \<Rightarrow> rtw \<Rightarrow> bool) \<Rightarrow> bool" where
  "calm B S R \<longleftrightarrow> stable B S R \<and> (\<forall>e. harmless e \<longrightarrow> S e)"

section \<open>Primitive calls\<close>

lemma stable_call:
  assumes "stable B S R" "S e"
  shows "related R (call (ans_unit B) e) (call (ans_unit B) e)" "related R (call (ans_bool B) e) (call (ans_bool B) e)"
    "related R (call (ans_str B) e) (call (ans_str B) e)" "related R (call (ans_info B) e) (call (ans_info B) e)"
    "related R (call (ans_reach B) e) (call (ans_reach B) e)" "related R (call (ans_labels B) e) (call (ans_labels B) e)"
    "related R (call (ans_proc B) e) (call (ans_proc B) e)"
  using assms unfolding stable_def related_def call_def same_answers_def Let_def by simp_all

lemma calm_stable: "calm B S R \<Longrightarrow> stable B S R"
  by (simp add: calm_def)

lemma calm_call [prog_rel]:
  assumes "calm B S R" "harmless e"
  shows "related R (call (ans_unit B) e) (call (ans_unit B) e)" "related R (call (ans_bool B) e) (call (ans_bool B) e)"
    "related R (call (ans_str B) e) (call (ans_str B) e)" "related R (call (ans_info B) e) (call (ans_info B) e)"
    "related R (call (ans_reach B) e) (call (ans_reach B) e)" "related R (call (ans_labels B) e) (call (ans_labels B) e)"
    "related R (call (ans_proc B) e) (call (ans_proc B) e)"
  using stable_call [of B S R e] assms by (simp_all add: calm_def)

lemma rel_peek [prog_rel]: "calm B S R \<Longrightarrow> related R (peek p) (peek p)"
  by (simp add: calm_def stable_def related_def peek_def)

lemma rel_set_file [prog_rel]: "calm B S R \<Longrightarrow> related R (set_file p v) (set_file p v)"
  unfolding calm_def stable_def related_def set_file_def by simp

lemma rel_ReadFile [prog_rel]: "calm B S R \<Longrightarrow> related R (ReadFile B p) (ReadFile B p)"
  unfolding ReadFile_def by (auto intro!: prog_rel split: option.splits)

lemma rel_Unlink [prog_rel]: "calm B S R \<Longrightarrow> related R (Unlink B p) (Unlink B p)"
  unfolding Unlink_def by (auto intro!: prog_rel split: option.splits)

lemma rel_WriteFile [prog_rel]:
  assumes c: "calm B S R"
  shows "related R (WriteFile B p d) (WriteFile B p d)"
  unfolding related_def
proof (intro allI impI)
  fix s t assume st: "R s t"
  have S: "S (EWrite p d)" using c by (simp add: calm_def)
  from c st S have same: "same_answers B (trace s) (EWrite p d) (trace t) (EWrite p d)"
    and step: "\<And>b. R (s\<lparr>trace := (EWrite p d, b) # trace s\<rparr>) (t\<lparr>trace := (EWrite p d, b) # trace t\<rparr>)"
    and fs: "files s = files t"
    unfolding calm_def stable_def by blast+
  have upd: "R (u\<lparr>files := f\<rparr>) (v\<lparr>files := f\<rparr>)" if "R u v" for u v f
    using c that unfolding calm_def stable_def by blast
  show "fst (WriteFile B p d s) = fst (WriteFile B p d t) \<and> R (snd (WriteFile B p d s)) (snd (WriteFile B p d t))"
    using same fs upd [OF step] unfolding WriteFile_def call_def Let_def same_answers_def
    by (cases "ans_unit B (trace t) (EWrite p d)") simp_all
qed

lemma rel_MkdirAll [prog_rel]: "calm B S R \<Longrightarrow> related R (MkdirAll B p) (MkdirAll B p)"
  unfolding MkdirAll_def by (auto intro!: prog_rel)

lemma rel_wipe [prog_rel]:
  "calm B S R \<Longrightarrow> related R (\<lambda>w. (Inr (), if b then w\<lparr>files := f\<rparr> else w)) (\<lambda>w. (Inr (), if b then w\<lparr>files := f\<rparr> else w))"
  unfolding calm_def stable_def related_def by simp

lemma rel_methods [prog_rel]:
  assumes "calm B S R"
  shows "related R (rt_Stop B n) (rt_Stop B n)" "related R (rt_Inspect B n) (rt_Inspect B n)"
    "related R (rt_Remove B n) (rt_Remove B n)"
  unfolding rt_Stop_def rt_Inspect_def rt_Remove_def using assms by (auto intro!: prog_rel)

lemma rel_LogsFor [prog_rel]: "calm B S R \<Longrightarrow> related R (LogsFor B n) (LogsFor B n)"
  unfolding LogsFor_def by (auto intro!: prog_rel)

section \<open>The injector\<close>

lemma rel_loadRecord [prog_rel]: "calm B S R \<Longrightarrow> related R (loadRecord B J) (loadRecord B J)"
  unfolding loadRecord_def by (auto intro!: prog_rel split: sum.splits option.splits)

lemma rel_saveRecord [prog_rel]: "calm B S R \<Longrightarrow> related R (saveRecord B J x) (saveRecord B J x)"
  unfolding saveRecord_def by (auto intro!: prog_rel)

lemma rel_removeRecord [prog_rel]: "calm B S R \<Longrightarrow> related R (removeRecord B) (removeRecord B)"
  unfolding removeRecord_def by (auto intro!: prog_rel split: sum.splits)

lemma rel_process [prog_rel]:
  assumes "calm B S R"
  shows "related R (processAlive B pid) (processAlive B pid)" "related R (killProcess B pid) (killProcess B pid)"
  unfolding processAlive_def killProcess_def using assms by (auto intro!: prog_rel)

text \<open>Starting the helper with two configurations whose spawn calls are related.\<close>

lemma rel_spawn:
  assumes c: "calm B S R"
    and call: "related R (call (ans_proc B) (ESpawnInjector (sidecarConfig spc port))) (call (ans_proc B) (ESpawnInjector (sidecarConfig spc' port)))"
  shows "related R (spawn B J spc port) (spawn B J spc' port)"
  unfolding spawn_def
  by (rule related_bind [OF call]) (use c in \<open>auto intro!: prog_rel split: sum.splits\<close>)

lemma rel_Ensure:
  assumes c: "calm B S R"
    and call: "\<And>port. related R (call (ans_proc B) (ESpawnInjector (sidecarConfig spc port))) (call (ans_proc B) (ESpawnInjector (sidecarConfig spc' port)))"
  shows "related R (Ensure B J spc) (Ensure B J spc')"
proof -
  have sp: "related R (spawn B J spc port) (spawn B J spc' port)" for port by (rule rel_spawn [OF c call])
  have body: "related R (case x of None \<Rightarrow> spawn B J spc (respawnBindPort None)
       | Some y \<Rightarrow> p_bind (processAlive B (ir_PID y)) (\<lambda>alive. if alive then p_ret (ir_Addr y) else spawn B J spc (respawnBindPort (Some y))))
      (case x of None \<Rightarrow> spawn B J spc' (respawnBindPort None)
       | Some y \<Rightarrow> p_bind (processAlive B (ir_PID y)) (\<lambda>alive. if alive then p_ret (ir_Addr y) else spawn B J spc' (respawnBindPort (Some y))))" for x
    using c sp by (auto intro!: prog_rel split: option.splits)
  show ?thesis unfolding Ensure_def Let_def
    by (rule related_bind [OF related_wrappers(1) [OF rel_loadRecord [OF c]]]) (rule body)
qed

lemma rel_Ensure_same [prog_rel]: "calm B S R \<Longrightarrow> related R (Ensure B J spc) (Ensure B J spc)"
  by (rule rel_Ensure) (auto intro!: prog_rel)

lemma rel_Injector_Stop [prog_rel]: "calm B S R \<Longrightarrow> related R (Injector_Stop B J) (Injector_Stop B J)"
  unfolding Injector_Stop_def by (auto intro!: prog_rel split: option.splits)

lemma rel_PlaceholderToken [prog_rel]: "calm B S R \<Longrightarrow> related R (PlaceholderToken B) (PlaceholderToken B)"
  unfolding PlaceholderToken_def Let_def by (auto intro!: prog_rel split: sum.splits)

section \<open>Brokering\<close>

lemma rel_resolveInjectorReach [prog_rel]: "calm B S R \<Longrightarrow> related R (resolveInjectorReach B) (resolveInjectorReach B)"
  unfolding resolveInjectorReach_def by (auto intro!: prog_rel split: sum.splits)

lemma rel_resolveBrokerReach [prog_rel]: "calm B S R \<Longrightarrow> related R (resolveBrokerReach B st) (resolveBrokerReach B st)"
  unfolding resolveBrokerReach_def by (auto intro!: prog_rel split: option.splits)

lemma rel_read_or_empty [prog_rel]: "calm B S R \<Longrightarrow> related R (read_or_empty B msg p) (read_or_empty B msg p)"
  unfolding read_or_empty_def by (auto intro!: prog_rel split: sum.splits)

lemma rel_write_runtime_file [prog_rel]: "calm B S R \<Longrightarrow> related R (write_runtime_file B w r d) (write_runtime_file B w r d)"
  unfolding write_runtime_file_def by (auto intro!: prog_rel)

lemma rel_patchBrokerConfigFiles [prog_rel]:
  "calm B S R \<Longrightarrow> related R (patchBrokerConfigFiles B bc ep tok) (patchBrokerConfigFiles B bc ep tok)"
  unfolding patchBrokerConfigFiles_def by (auto intro!: prog_rel)

lemma rel_applyWorkdirTrust [prog_rel]: "calm B S R \<Longrightarrow> related R (applyWorkdirTrust B st) (applyWorkdirTrust B st)"
  unfolding applyWorkdirTrust_def by (auto intro!: prog_rel split: option.splits)

lemma rel_applyDirectCredential [prog_rel]:
  "calm B S R \<Longrightarrow> related R (applyDirectCredential B st env) (applyDirectCredential B st env)"
  unfolding applyDirectCredential_def Let_def by (auto intro!: prog_rel split: option.splits)

lemma rel_brokerCredentials [prog_rel]:
  "calm B S R \<Longrightarrow> related R (brokerCredentials B E st env) (brokerCredentials B E st env)"
  unfolding brokerCredentials_def by (auto intro!: prog_rel split: option.splits prod.splits)

section \<open>Preparation\<close>

lemma rel_ensureImageLineage [prog_rel]: "calm B S R \<Longrightarrow> related R (ensureImageLineage B st) (ensureImageLineage B st)"
  unfolding ensureImageLineage_def by (auto intro!: prog_rel)

lemma rel_deliverRuntimeScripts [prog_rel]: "calm B S R \<Longrightarrow> related R (deliverRuntimeScripts B st) (deliverRuntimeScripts B st)"
  unfolding deliverRuntimeScripts_def by (auto intro!: prog_rel)

lemma rel_deadline_passed [prog_rel]: "calm B S R \<Longrightarrow> related R (deadline_passed B) (deadline_passed B)"
  unfolding deadline_passed_def by (auto intro!: prog_rel)

lemma rel_waitForReady [prog_rel]: "calm B S R \<Longrightarrow> related R (waitForReady B n k l) (waitForReady B n k l)"
proof (induction k arbitrary: l rule: less_induct)
  case (less k)
  show ?case
  proof (cases k)
    case 0
    then show ?thesis by (auto intro!: prog_rel)
  next
    case (Suc m)
    have IH: "related R (waitForReady B n (if b then 0 else m) l') (waitForReady B n (if b then 0 else m) l')" for b l'
      using less Suc by simp
    show ?thesis unfolding Suc waitForReady.simps Let_def
      by (intro related_bind related_wrappers) (use less.prems IH in \<open>auto intro!: prog_rel\<close>)
  qed
qed

lemma rel_waitForSecretsConsumed [prog_rel]: "calm B S R \<Longrightarrow> related R (waitForSecretsConsumed B k) (waitForSecretsConsumed B k)"
proof (induction k rule: less_induct)
  case (less k)
  show ?case
  proof (cases k)
    case 0
    then show ?thesis by (auto intro!: prog_rel)
  next
    case (Suc m)
    have IH: "related R (waitForSecretsConsumed B (if b then 0 else m)) (waitForSecretsConsumed B (if b then 0 else m))" for b
      using less Suc by simp
    show ?thesis unfolding Suc waitForSecretsConsumed.simps
      by (intro related_bind related_wrappers) (use less.prems IH in \<open>auto intro!: prog_rel\<close>)
  qed
qed

lemma rel_readContainerConfig [prog_rel]: "calm B S R \<Longrightarrow> related R (readContainerConfig B E) (readContainerConfig B E)"
  unfolding readContainerConfig_def by (auto intro!: prog_rel split: option.splits)

lemma rel_patchKeepaliveOnly [prog_rel]: "calm B S R \<Longrightarrow> related R (patchKeepaliveOnly B E k) (patchKeepaliveOnly B E k)"
  unfolding patchKeepaliveOnly_def by (auto intro!: prog_rel)

lemma rel_loadAllowedDomains [prog_rel]: "calm B S R \<Longrightarrow> related R (loadAllowedDomains B E) (loadAllowedDomains B E)"
  unfolding loadAllowedDomains_def by (auto intro!: prog_rel)

lemma rel_sidecar_retry [prog_rel]: "calm B S R \<Longrightarrow> related R (runNetnsSidecarWithRetry B spc k) (runNetnsSidecarWithRetry B spc k)"
  by (induction k) (auto intro!: prog_rel split: sum.splits)

lemma rel_installFirewallSidecar [prog_rel]:
  "calm B S R \<Longrightarrow> related R (installFirewallSidecar B E st bro) (installFirewallSidecar B E st bro)"
  unfolding installFirewallSidecar_def by (auto intro!: prog_rel)

lemma rel_readLogTail [prog_rel]: "calm B S R \<Longrightarrow> related R (readLogTail B p n) (readLogTail B p n)"
  unfolding readLogTail_def by (auto intro!: prog_rel)

lemma rel_inspect_loop [prog_rel]: "calm B S R \<Longrightarrow> related R (inspect_loop B n k) (inspect_loop B n k)"
proof (induction k)
  case 0
  then show ?case by (subst (1 2) inspect_loop.simps) (auto intro!: prog_rel split: sum.splits)
next
  case (Suc k)
  then show ?case by (subst (1 2) inspect_loop.simps) (auto intro!: prog_rel split: sum.splits)
qed

lemma rel_verifyInstanceRunning [prog_rel]: "calm B S R \<Longrightarrow> related R (verifyInstanceRunning B st) (verifyInstanceRunning B st)"
  unfolding verifyInstanceRunning_def Let_def by (auto intro!: prog_rel)

lemma rel_filterAvailablePorts [prog_rel]: "calm B S R \<Longrightarrow> related R (filterAvailablePorts B ps) (filterAvailablePorts B ps)"
  by (induction ps) (auto intro!: prog_rel)

lemma rel_StageSecretEnv [prog_rel]: "calm B S R \<Longrightarrow> related R (StageSecretEnv B m) (StageSecretEnv B m)"
  unfolding StageSecretEnv_def by (auto intro!: prog_rel)

lemma rel_rollback [prog_rel]: "calm B S R \<Longrightarrow> related R (rollbackPartialLaunch B E st) (rollbackPartialLaunch B E st)"
  unfolding rollbackPartialLaunch_def by (auto intro!: prog_rel)

end
