(* ===== verification/LaunchSafety.thy ===== *)
theory LaunchSafety
  imports LaunchRel
begin

text \<open>
  What a launch guarantees: with brokering demanded, nothing outside the injector depends on the value
  of the credential; a sandbox with the sidecar firewall runs its agent only after the firewall is in
  place and never holds the capability to undo it unless it was given to it; and a failed launch ends
  by stopping and removing the instance and stopping the injector.
\<close>

section \<open>Bringing up, in related runs\<close>

lemma all_calm: "stable B (\<lambda>_. True) R \<Longrightarrow> calm B (\<lambda>_. True) R"
  by (simp add: calm_def)

lemma rel_hinted [prog_rel]: "related R m n \<Longrightarrow> related R (hinted i m) (hinted i n)"
  unfolding hinted_def by (auto intro!: prog_rel split: sum.splits)

lemma rel_create:
  assumes "calm B S R" "S (ECreate cfg)"
  shows "related R (createWithImageRecovery B st cfg) (createWithImageRecovery B st cfg)"
  unfolding createWithImageRecovery_def rt_Create_def using assms stable_call [OF calm_stable [OF assms(1)] assms(2)]
  by (auto intro!: prog_rel split: sum.splits)

lemma rel_rt_Start:
  "calm B S R \<Longrightarrow> S (EStart n) \<Longrightarrow> related R (rt_Start B n) (rt_Start B n)"
  unfolding rt_Start_def by (rule stable_call(1) [OF calm_stable])

lemma rel_startLegacy:
  assumes "calm B S R" "S (ECreate cfg)" "S (EStart (cname st))"
  shows "related R (startLegacy B st cfg hs) (startLegacy B st cfg hs)"
  unfolding startLegacy_def
  by (intro related_seq related_wrappers(3,4) rel_create [OF assms(1,2)] rel_hinted rel_rt_Start [OF assms(1,3)]
      rel_waitForSecretsConsumed [OF assms(1)])

lemma rel_startViaLaunch:
  assumes "stable B (\<lambda>_. True) R"
  shows "related R (startViaLaunch B E st cfg hs env bro fw) (startViaLaunch B E st cfg hs env bro fw)"
proof -
  note c = all_calm [OF assms]
  show ?thesis unfolding startViaLaunch_def Let_def
    by (intro related_seq related_wrappers(2,3,4) rel_patchKeepaliveOnly [OF c] rel_Unlink [OF c] rel_create [OF c]
        rel_hinted rel_rt_Start [OF c] rel_waitForReady [OF c] rel_installFirewallSidecar [OF c] stable_call(1) [OF assms]
        rel_waitForSecretsConsumed [OF c]) simp_all
qed

lemma rel_buildAndStart:
  assumes "stable B (\<lambda>_. True) R"
  shows "related R (buildAndStart B E st ms ps hs env bro bc) (buildAndStart B E st ms ps hs env bro bc)"
  unfolding buildAndStart_def Let_def
  using all_calm [OF assms] rel_startViaLaunch [OF assms] rel_startLegacy [OF all_calm [OF assms]]
  by (auto intro!: prog_rel)

lemma rel_bring_up:
  assumes "stable B (\<lambda>_. True) R"
  shows "related R (bring_up B E st d env bro) (bring_up B E st d env bro)"
  unfolding bring_up_def using all_calm [OF assms] rel_buildAndStart [OF assms] by (auto intro!: prog_rel)

lemma rel_deliver_and_start:
  assumes "stable B (\<lambda>_. True) R"
  shows "related R (deliver_and_start B E st env bro) (deliver_and_start B E st env bro)"
  unfolding deliver_and_start_def using all_calm [OF assms] rel_bring_up [OF assms] by (auto intro!: prog_rel)

section \<open>Hiding the credential\<close>

text \<open>A call with the secrets of an injector configuration blanked out.\<close>

definition erase_binding :: "BindingConfig \<Rightarrow> BindingConfig" where
  "erase_binding b = b\<lparr>bd_Secret := []\<rparr>"

fun erase :: "event \<Rightarrow> event" where
  "erase (ESpawnInjector c) = ESpawnInjector (c\<lparr>sc_Bindings := map erase_binding (sc_Bindings c)\<rparr>)"
| "erase e = e"

definition erase_trace :: "trace \<Rightarrow> trace" where
  "erase_trace t = map (\<lambda>(e, b). (erase e, b)) t"

definition erased :: "rtw \<Rightarrow> rtw \<Rightarrow> bool" where
  "erased s t \<longleftrightarrow> erase_trace (trace s) = erase_trace (trace t) \<and> files s = files t"

text \<open>A world that does not react to the secret handed to the injector process.\<close>

definition blind :: "rtb \<Rightarrow> bool" where
  "blind B \<longleftrightarrow> (\<forall>t t' e e'. erase_trace t = erase_trace t' \<longrightarrow> erase e = erase e' \<longrightarrow> same_answers B t e t' e')"

lemma erase_trace_Cons [simp]: "erase_trace ((e, b) # t) = (erase e, b) # erase_trace t"
  by (simp add: erase_trace_def)

lemma stable_erased: "blind B \<Longrightarrow> stable B (\<lambda>_. True) erased"
  by (simp add: stable_def erased_def blind_def)

lemma blind_call:
  assumes "blind B" "erase e = erase e'"
  shows "related erased (call (ans_proc B) e) (call (ans_proc B) e')"
proof -
  have "same_answers B (trace s) e (trace t) e'" if "erased s t" for s t
    using assms that unfolding blind_def erased_def by blast
  then show ?thesis using assms(2) unfolding related_def call_def Let_def
    by (simp add: same_answers_def erased_def)
qed

section \<open>Two environments that differ in the credential\<close>

definition creds :: "BrokerConfig \<Rightarrow> string set" where
  "creds bc = bc_EnvVar ` set (Credentials bc)"

definition twin_entry :: "string set \<Rightarrow> string \<times> string \<Rightarrow> string \<times> string \<Rightarrow> bool" where
  "twin_entry K x y \<longleftrightarrow> fst x = fst y \<and> (fst x \<notin> K \<longrightarrow> snd x = snd y) \<and> (snd x = [] \<longleftrightarrow> snd y = [])"

definition twins :: "string set \<Rightarrow> senv \<Rightarrow> senv \<Rightarrow> bool" where
  "twins K = list_all2 (twin_entry K)"

lemma twins_update:
  "twins K a b \<Longrightarrow> twin_entry K (k, v) (k, v') \<Longrightarrow> twins K (AList.update k v a) (AList.update k v' b)"
  unfolding twins_def
proof (induction a b rule: list_all2_induct)
  case (Cons x xs y ys)
  obtain kx vx where x: "x = (kx, vx)" by force
  obtain ky vy where y: "y = (ky, vy)" by force
  from Cons show ?case by (auto simp: x y twin_entry_def)
qed simp

lemma twins_foldl:
  "list_all2 (twin_entry K) xs ys \<Longrightarrow> twins K a b \<Longrightarrow>
     twins K (foldl (\<lambda>m (k, v). AList.update k v m) a xs) (foldl (\<lambda>m (k, v). AList.update k v m) b ys)"
proof (induction xs ys arbitrary: a b rule: list_all2_induct [of "twin_entry K", consumes 1, case_names Nil Cons])
  case (Cons x xs y ys)
  obtain kx vx where x: "x = (kx, vx)" by force
  obtain ky vy where y: "y = (ky, vy)" by force
  have k: "ky = kx" using Cons.hyps(1) by (simp add: x y twin_entry_def)
  have "twins K (AList.update kx vx a) (AList.update kx vy b)"
    by (rule twins_update [OF Cons.prems]) (use Cons.hyps(1) in \<open>simp add: x y twin_entry_def\<close>)
  from Cons.IH [OF this] show ?case by (simp add: x y k)
qed simp

lemma twins_refl: "twins K a a"
  by (simp add: twins_def list_all2_same twin_entry_def)

lemma twins_value:
  "twins K a b \<Longrightarrow> has_value (map_of a) k = has_value (map_of b) k \<and> (k \<notin> K \<longrightarrow> map_of a k = map_of b k)"
  unfolding twins_def
proof (induction a b rule: list_all2_induct)
  case (Cons x xs y ys)
  obtain kx vx where x: "x = (kx, vx)" by force
  obtain ky vy where y: "y = (ky, vy)" by force
  from Cons show ?case by (auto simp: x y twin_entry_def has_value_def)
qed (simp add: has_value_def)

lemma twins_delete_one: "twins K a b \<Longrightarrow> twins K (AList.delete k a) (AList.delete k b)"
  unfolding twins_def
proof (induction a b rule: list_all2_induct)
  case (Cons x xs y ys)
  obtain kx vx where x: "x = (kx, vx)" by force
  obtain ky vy where y: "y = (ky, vy)" by force
  from Cons show ?case by (auto simp: x y twin_entry_def)
qed simp

lemma delete_all_subset: "set (foldl (\<lambda>m c. AList.delete (bc_EnvVar c) m) a cs) \<subseteq> set a"
proof (induction cs arbitrary: a)
  case (Cons c cs)
  have "set (AList.delete (bc_EnvVar c) a) \<subseteq> set a" by (auto simp: AList.delete_eq)
  with Cons.IH [of "AList.delete (bc_EnvVar c) a"] show ?case by simp
qed simp

text \<open>Deleting every credential leaves the same environment on both sides.\<close>

lemma twins_delete:
  assumes "twins (creds bc) a b"
  shows "foldl (\<lambda>m c. AList.delete (bc_EnvVar c) m) a (Credentials bc) = foldl (\<lambda>m c. AList.delete (bc_EnvVar c) m) b (Credentials bc)"
proof -
  have shape: "twins K (foldl (\<lambda>m c. AList.delete (bc_EnvVar c) m) a cs) (foldl (\<lambda>m c. AList.delete (bc_EnvVar c) m) b cs)
      \<and> (\<forall>c \<in> set cs. bc_EnvVar c \<notin> fst ` set (foldl (\<lambda>m c. AList.delete (bc_EnvVar c) m) a cs))"
    if "twins K a b" for K a b cs
    using that
  proof (induction cs arbitrary: a b)
    case (Cons c cs)
    have sub: "fst ` set (foldl (\<lambda>m c. AList.delete (bc_EnvVar c) m) a' cs) \<subseteq> fst ` set a'" for a' :: senv
      by (rule image_mono) (rule delete_all_subset)
    have "bc_EnvVar c \<notin> fst ` set (AList.delete (bc_EnvVar c) a)" by (auto simp: AList.delete_eq)
    then have "bc_EnvVar c \<notin> fst ` set (foldl (\<lambda>m c. AList.delete (bc_EnvVar c) m) (AList.delete (bc_EnvVar c) a) cs)"
      using sub [of "AList.delete (bc_EnvVar c) a"] by blast
    with Cons.IH [OF twins_delete_one [OF Cons.prems]] show ?case by simp
  qed simp
  define a' where "a' = foldl (\<lambda>m c. AList.delete (bc_EnvVar c) m) a (Credentials bc)"
  define b' where "b' = foldl (\<lambda>m c. AList.delete (bc_EnvVar c) m) b (Credentials bc)"
  from shape [OF assms, of "Credentials bc"] have t: "twins (creds bc) a' b'" and no: "\<forall>k \<in> creds bc. k \<notin> fst ` set a'"
    by (auto simp: a'_def b'_def creds_def)
  have "a' = b'" using t [unfolded twins_def] no
  proof (induction a' b' rule: list_all2_induct)
    case (Cons x xs y ys)
    then show ?case by (auto simp: twin_entry_def prod_eq_iff)
  qed simp
  then show ?thesis by (simp add: a'_def b'_def)
qed

lemma twins_no_value: "twins K a b \<Longrightarrow> distinct (map fst a) \<Longrightarrow> (\<And>k. k \<in> K \<Longrightarrow> \<not> has_value (map_of a) k) \<Longrightarrow> a = b"
  unfolding twins_def
proof (induction a b rule: list_all2_induct)
  case (Cons x xs y ys)
  obtain kx vx where x: "x = (kx, vx)" by force
  obtain ky vy where y: "y = (ky, vy)" by force
  have d: "kx \<notin> fst ` set xs" "distinct (map fst xs)" using Cons.prems(1) by (auto simp: x)
  have nv: "\<not> has_value (map_of xs) k" if "k \<in> K" for k
  proof (cases "k = kx")
    case True
    then have "map_of xs k = None" using d(1) by (simp add: map_of_eq_None_iff)
    then show ?thesis by (simp add: has_value_def)
  next
    case False
    then show ?thesis using Cons.prems(2) [OF that] by (simp add: x has_value_def)
  qed
  have "xs = ys" by (rule Cons.IH [OF d(2) nv])
  moreover have "vx = vy"
  proof (cases "kx \<in> K")
    case True
    then have "vx = []" using Cons.prems(2) [OF True] by (simp add: x has_value_def)
    then show ?thesis using Cons.hyps(1) by (simp add: x y twin_entry_def)
  qed (use Cons.hyps(1) in \<open>simp add: x y twin_entry_def\<close>)
  ultimately show ?case using Cons.hyps(1) by (simp add: x y twin_entry_def)
qed simp

section \<open>Brokering two credentials\<close>

definition twin_hosts :: "string set \<Rightarrow> HostEnv \<Rightarrow> HostEnv \<Rightarrow> bool" where
  "twin_hosts K h h' \<longleftrightarrow> homeDir h = homeDir h' \<and> (\<forall>k. k \<notin> K \<longrightarrow> vars h k = vars h' k)
     \<and> (\<forall>k \<in> K. has_value (vars h) k = has_value (vars h') k)"

lemma present_twins: "twin_hosts K h h' \<Longrightarrow> list_all2 (twin_entry K) (present (vars h) ks) (present (vars h') ks)"
proof (induction ks)
  case (Cons k ks)
  have IH: "list_all2 (twin_entry K) (present (vars h) ks) (present (vars h') ks)" by (rule Cons.IH [OF Cons.prems])
  have v: "has_value (vars h) k = has_value (vars h') k" and e: "k \<notin> K \<Longrightarrow> vars h k = vars h' k"
    using Cons.prems by (auto simp: twin_hosts_def has_value_def)
  show ?case
  proof (cases "has_value (vars h) k")
    case True
    then obtain x y where xy: "vars h k = Some x" "x \<noteq> []" "vars h' k = Some y" "y \<noteq> []"
      using v by (auto simp: has_value_def)
    then have "twin_entry K (k, x) (k, y)" using e by (auto simp: twin_entry_def)
    then show ?thesis using IH xy by simp
  next
    case False
    then have "vars h k \<in> {None, Some []}" "vars h' k \<in> {None, Some []}" using v by (auto simp: has_value_def)
    then show ?thesis using IH by auto
  qed
qed simp

lemma secrets_twins:
  "twin_hosts K h h' \<Longrightarrow> twins K (launch_secrets E (st\<lparr>st_HostEnv := h\<rparr>) env) (launch_secrets E (st\<lparr>st_HostEnv := h'\<rparr>) env)"
  unfolding launch_secrets_def ResolveSecretEnv_def resolvedHostCredentials_def
  by simp (rule twins_foldl [OF present_twins twins_refl])

lemma secrets_distinct: "distinct (map fst env) \<Longrightarrow> distinct (map fst (launch_secrets E st env))"
proof -
  have "distinct (map fst m) \<Longrightarrow> distinct (map fst (foldl (\<lambda>m (k, v). AList.update k v m) m xs))" for m xs :: senv
    by (induction xs arbitrary: m) (auto simp: AList.distinct_update)
  then show "distinct (map fst env) \<Longrightarrow> ?thesis" by (simp add: launch_secrets_def ResolveSecretEnv_def)
qed

lemma forced_reach: "st_BrokerCredentials st \<Longrightarrow> fst (resolveBrokerReach B st w) \<noteq> Inr None"
proof -
  assume f: "st_BrokerCredentials st"
  have "triple (\<lambda>_. True) (resolveBrokerReach B st) (\<lambda>r _. r \<noteq> None) (\<lambda>_ _. True)"
    unfolding resolveBrokerReach_def
    by (rule triple_bind [of _ _ "\<lambda>_ _. True"]) (auto simp: f triple_def p_ret_def p_fail_def split: option.splits prod.splits sum.splits)
  then show ?thesis by (cases "resolveBrokerReach B st w") (auto dest: triple_ok)
qed

lemma bind_never_None:
  "(\<And>s. fst (m s) \<noteq> Inr None) \<Longrightarrow> p_bind m (\<lambda>r. case r of None \<Rightarrow> x | Some y \<Rightarrow> f y) = p_bind m (\<lambda>r. case r of None \<Rightarrow> x' | Some y \<Rightarrow> f y)"
proof (rule ext)
  fix s assume "\<And>s. fst (m s) \<noteq> Inr None"
  then have "fst (m s) \<noteq> Inr None" .
  then show "p_bind m (\<lambda>r. case r of None \<Rightarrow> x | Some y \<Rightarrow> f y) s = p_bind m (\<lambda>r. case r of None \<Rightarrow> x' | Some y \<Rightarrow> f y) s"
    by (auto simp: p_bind_def split: prod.splits sum.splits option.splits)
qed

lemma spec_erased:
  "erase (ESpawnInjector (sidecarConfig (buildInjectorSpec bc c reach v tok) port)) =
   erase (ESpawnInjector (sidecarConfig (buildInjectorSpec bc c reach v' tok) port))"
  by (simp add: sidecarConfig_def buildInjectorSpec_def erase_binding_def)

lemma rel_broker_twins:
  assumes B: "blind B" and t: "twins (creds bc) a b" "distinct (map fst a)"
    and st: "ag_Broker (st_Agent st) = Some bc" "st_BrokerCredentials st" "\<not> st_BrokerDisabled st"
  shows "related erased (brokerCredentials B E st a) (brokerCredentials B E st b)"
proof -
  note calm = all_calm [OF stable_erased [OF B]]
  have "map_option fst (SelectCredential bc (map_of a)) = map_option fst (SelectCredential bc (map_of b))"
    unfolding SelectCredential_def by (rule select_from_presence) (use twins_value [OF t(1)] in blast)
  then consider "SelectCredential bc (map_of a) = None"
    | c v v' where "SelectCredential bc (map_of a) = Some (c, v)" "SelectCredential bc (map_of b) = Some (c, v')"
    by (cases "SelectCredential bc (map_of a)"; cases "SelectCredential bc (map_of b)") auto
  then show ?thesis
  proof cases
    case 1
    have "a = b"
      by (rule twins_no_value [OF t]) (use 1 in \<open>auto simp: SelectCredential_def select_from_None creds_def has_value_def\<close>)
    then show ?thesis using rel_brokerCredentials [OF calm] by simp
  next
    case 2
    have env: "applyBrokerEnv a bc reach addr tok = applyBrokerEnv b bc reach addr tok" for reach addr tok
      unfolding applyBrokerEnv_def twins_delete [OF t(1)] by (rule refl)
    have ens: "related erased (Ensure B (le_rec E) (buildInjectorSpec bc c reach v tok)) (Ensure B (le_rec E) (buildInjectorSpec bc c reach v' tok))" for reach tok
      by (rule rel_Ensure [OF calm blind_call [OF B spec_erased]])
    let ?k = "\<lambda>reach key env. p_bind (p_ctx ''broker placeholder token'' (PlaceholderToken B)) (\<lambda>tok.
                  p_bind (p_ctx ''start credential injector'' (Ensure B (le_rec E) (buildInjectorSpec bc c reach key tok))) (\<lambda>addr.
                  p_bind (p_lift (applyBrokerEnv env bc reach addr tok)) (\<lambda>(env', endpoint).
                  p_seq (patchBrokerConfigFiles B bc endpoint tok)
                    (p_ret (\<lparr>bro_NetworkMode = RequiredNetworkMode reach, bro_InjectorEndpoint = endpoint\<rparr>, env')))))"
    have k: "related erased (?k reach v a) (?k reach v' b)" for reach
      unfolding env
      by (intro related_bind related_wrappers rel_PlaceholderToken [OF calm] ens related_basic)
        (use calm in \<open>auto intro!: prog_rel split: prod.splits\<close>)
    have one: "brokerCredentials B E st m = (if st_NetworkMode st = ''none''
        then p_fail (errorf (''--broker is not supported with --network-none: the sandbox has no egress to reach the host-side injector. ''
                   @ ''Omit --broker, or use open or isolated networking''))
        else p_bind (resolveBrokerReach B st) (\<lambda>r. case r of None \<Rightarrow> p_fail (errorf []) | Some reach \<Rightarrow> ?k reach key m))"
      if "SelectCredential bc (map_of m) = Some (c, key)" for m key
    proof -
      have "p_bind (resolveBrokerReach B st) (\<lambda>r. case r of None \<Rightarrow> p_ret (direct_delivery, m) | Some reach \<Rightarrow> ?k reach key m)
          = p_bind (resolveBrokerReach B st) (\<lambda>r. case r of None \<Rightarrow> p_fail (errorf []) | Some reach \<Rightarrow> ?k reach key m)"
        by (rule bind_never_None) (rule forced_reach [OF st(2)])
      then show ?thesis unfolding brokerCredentials_def using that st by simp
    qed
    have "related erased (p_bind (resolveBrokerReach B st) (\<lambda>r. case r of None \<Rightarrow> p_fail (errorf []) | Some reach \<Rightarrow> ?k reach v a))
        (p_bind (resolveBrokerReach B st) (\<lambda>r. case r of None \<Rightarrow> p_fail (errorf []) | Some reach \<Rightarrow> ?k reach v' b))"
      by (rule related_bind [OF rel_resolveBrokerReach [OF calm]]) (auto intro: k related_basic split: option.splits)
    then show ?thesis unfolding one [OF 2(1)] one [OF 2(2)] by (auto intro: related_basic)
  qed
qed

section \<open>The host environment reaches a launch only through its secrets and its mounts\<close>

lemma host_env_fields:
  "st_Name (st\<lparr>st_HostEnv := h\<rparr>) = st_Name st"
  "st_Principal (st\<lparr>st_HostEnv := h\<rparr>) = st_Principal st"
  "st_SandboxDir (st\<lparr>st_HostEnv := h\<rparr>) = st_SandboxDir st"
  "st_Workdir (st\<lparr>st_HostEnv := h\<rparr>) = st_Workdir st"
  "st_WorkCopyDir (st\<lparr>st_HostEnv := h\<rparr>) = st_WorkCopyDir st"
  "st_AuxDirs (st\<lparr>st_HostEnv := h\<rparr>) = st_AuxDirs st"
  "st_Agent (st\<lparr>st_HostEnv := h\<rparr>) = st_Agent st"
  "st_Profile (st\<lparr>st_HostEnv := h\<rparr>) = st_Profile st"
  "st_ImageRef (st\<lparr>st_HostEnv := h\<rparr>) = st_ImageRef st"
  "st_Env (st\<lparr>st_HostEnv := h\<rparr>) = st_Env st"
  "st_HasPrompt (st\<lparr>st_HostEnv := h\<rparr>) = st_HasPrompt st"
  "st_PromptSourcePath (st\<lparr>st_HostEnv := h\<rparr>) = st_PromptSourcePath st"
  "st_NetworkMode (st\<lparr>st_HostEnv := h\<rparr>) = st_NetworkMode st"
  "st_Ports (st\<lparr>st_HostEnv := h\<rparr>) = st_Ports st"
  "st_ExtraMounts (st\<lparr>st_HostEnv := h\<rparr>) = st_ExtraMounts st"
  "st_TmuxConf (st\<lparr>st_HostEnv := h\<rparr>) = st_TmuxConf st"
  "st_Resources (st\<lparr>st_HostEnv := h\<rparr>) = st_Resources st"
  "st_CapAdd (st\<lparr>st_HostEnv := h\<rparr>) = st_CapAdd st"
  "st_Devices (st\<lparr>st_HostEnv := h\<rparr>) = st_Devices st"
  "st_Setup (st\<lparr>st_HostEnv := h\<rparr>) = st_Setup st"
  "st_Isolation (st\<lparr>st_HostEnv := h\<rparr>) = st_Isolation st"
  "st_VscodeTunnel (st\<lparr>st_HostEnv := h\<rparr>) = st_VscodeTunnel st"
  "st_BrokerCredentials (st\<lparr>st_HostEnv := h\<rparr>) = st_BrokerCredentials st"
  "st_BrokerDisabled (st\<lparr>st_HostEnv := h\<rparr>) = st_BrokerDisabled st"
  by simp_all

lemma host_env_parts:
  "cname (st\<lparr>st_HostEnv := h\<rparr>) = cname st"
  "WorkdirMountPath (st\<lparr>st_HostEnv := h\<rparr>) = WorkdirMountPath st"
  "base_config (st\<lparr>st_HostEnv := h\<rparr>) = base_config st"
  by (simp_all add: cname_def WorkdirMountPath_def base_config_def fun_eq_iff)

lemma host_env_config:
  "buildInstanceConfig E desc (st\<lparr>st_HostEnv := h\<rparr>) ms ps bro fw ck = buildInstanceConfig E desc st ms ps bro fw ck"
  unfolding buildInstanceConfig_def applyResourceLimits_def applyCaps_def host_env_parts host_env_fields ..

lemma host_env_ops:
  "resolveBrokerReach B (st\<lparr>st_HostEnv := h\<rparr>) = resolveBrokerReach B st"
  "applyWorkdirTrust B (st\<lparr>st_HostEnv := h\<rparr>) = applyWorkdirTrust B st"
  "applyDirectCredential B (st\<lparr>st_HostEnv := h\<rparr>) env = applyDirectCredential B st env"
  "ensureImageLineage B (st\<lparr>st_HostEnv := h\<rparr>) = ensureImageLineage B st"
  "deliverRuntimeScripts B (st\<lparr>st_HostEnv := h\<rparr>) = deliverRuntimeScripts B st"
  "createWithImageRecovery B (st\<lparr>st_HostEnv := h\<rparr>) cfg = createWithImageRecovery B st cfg"
  "session_runner (st\<lparr>st_HostEnv := h\<rparr>) env = session_runner st env"
  "firewall_spec (st\<lparr>st_HostEnv := h\<rparr>) ds bro ms = firewall_spec st ds bro ms"
  "rollbackPartialLaunch B E (st\<lparr>st_HostEnv := h\<rparr>) = rollbackPartialLaunch B E st"
  "verifyInstanceRunning B (st\<lparr>st_HostEnv := h\<rparr>) = verifyInstanceRunning B st"
  unfolding resolveBrokerReach_def applyWorkdirTrust_def applyDirectCredential_def ensureImageLineage_def
    deliverRuntimeScripts_def createWithImageRecovery_def session_runner_def firewall_spec_def
    rollbackPartialLaunch_def verifyInstanceRunning_def host_env_parts host_env_fields
  by (rule refl)+

lemma host_env_firewall:
  "installFirewallSidecar B E (st\<lparr>st_HostEnv := h\<rparr>) bro = installFirewallSidecar B E st bro"
  unfolding installFirewallSidecar_def host_env_ops ..

lemma host_env_start:
  "startLegacy B (st\<lparr>st_HostEnv := h\<rparr>) cfg hs = startLegacy B st cfg hs"
  "startViaLaunch B E (st\<lparr>st_HostEnv := h\<rparr>) cfg hs env bro fw = startViaLaunch B E st cfg hs env bro fw"
  unfolding startLegacy_def startViaLaunch_def host_env_ops host_env_parts host_env_firewall host_env_fields by (rule refl)+

lemma host_env_build:
  "buildAndStart B E (st\<lparr>st_HostEnv := h\<rparr>) ms ps hs env bro bc = buildAndStart B E st ms ps hs env bro bc"
  unfolding buildAndStart_def host_env_config host_env_start host_env_ops host_env_fields ..

lemma host_env_broker:
  "brokerCredentials B E (st\<lparr>st_HostEnv := h\<rparr>) env = brokerCredentials B E st env"
  unfolding brokerCredentials_def host_env_ops host_env_fields ..

lemma host_env_mounts:
  assumes "twin_hosts K h h'" "\<And>k. k \<in> K \<Longrightarrow> \<not> interpolable k"
  shows "mounts_Build V (st\<lparr>st_HostEnv := h\<rparr>) d = mounts_Build V (st\<lparr>st_HostEnv := h'\<rparr>) d"
proof -
  have "EnvForConfigInterpolation h = EnvForConfigInterpolation h'"
  proof (rule ext)
    fix k
    have "vars h k = vars h' k" if "interpolable k" using assms(2) [of k] that assms(1) by (auto simp: twin_hosts_def)
    then show "EnvForConfigInterpolation h k = EnvForConfigInterpolation h' k" by (simp add: EnvForConfigInterpolation_def)
  qed
  moreover have "homeDir h = homeDir h'" using assms(1) by (simp add: twin_hosts_def)
  ultimately show ?thesis
    by (simp add: mounts_Build_def buildWorkdirMounts_def buildAgentMounts_def buildVscodeMounts_def buildHomeSeedMounts_def
        buildSystemMounts_def buildGitAndTmuxMounts_def buildConfigAndSecretsMounts_def extra_mounts_def Let_def)
qed

lemma host_env_deliver:
  assumes "twin_hosts K h h'" "\<And>k. k \<in> K \<Longrightarrow> \<not> interpolable k"
  shows "deliver_and_start B E (st\<lparr>st_HostEnv := h\<rparr>) env bro = deliver_and_start B E (st\<lparr>st_HostEnv := h'\<rparr>) env bro"
  unfolding deliver_and_start_def bring_up_def host_env_build host_env_ops host_env_fields
  using host_env_mounts [OF assms] by presburger

text \<open>
  C1: with \<open>--broker\<close> the sandbox learns nothing about the credential. Take two hosts that agree on
  everything but the values of the credential variables the agent's broker knows (set on both or on
  neither), and a world whose answers do not depend on the secret handed to the injector process. Then
  launching the same sandbox on both gives the same result, leaves the same files in the sandbox
  directory, and makes the same calls with the same arguments, environments, mounts and staged
  secrets included; only the secret inside the injector's own configuration differs.
\<close>

theorem brokered_launch_is_blind_to_the_credential:
  assumes "blind B" and "ag_Broker (st_Agent st) = Some bc"
    and "st_BrokerCredentials st" "\<not> st_BrokerDisabled st"
    and "twin_hosts (creds bc) h h'" and "\<And>k. k \<in> creds bc \<Longrightarrow> \<not> interpolable k"
    and "\<And>e. st_Env st = Some e \<or> le_config_env E = Inr e \<Longrightarrow> distinct (map fst e)"
  shows "fst (LaunchContainer B E (st\<lparr>st_HostEnv := h\<rparr>) w) = fst (LaunchContainer B E (st\<lparr>st_HostEnv := h'\<rparr>) w)
    \<and> files (snd (LaunchContainer B E (st\<lparr>st_HostEnv := h\<rparr>) w)) = files (snd (LaunchContainer B E (st\<lparr>st_HostEnv := h'\<rparr>) w))
    \<and> erase_trace (trace (snd (LaunchContainer B E (st\<lparr>st_HostEnv := h\<rparr>) w)))
      = erase_trace (trace (snd (LaunchContainer B E (st\<lparr>st_HostEnv := h'\<rparr>) w)))"
proof -
  note stab = stable_erased [OF assms(1)]
  note calm = all_calm [OF stab]
  define rest where "rest = (\<lambda>(bro, env). p_seq (applyWorkdirTrust B st) (p_seq (applyDirectCredential B st env)
    (p_onerr (deliver_and_start B E (st\<lparr>st_HostEnv := h'\<rparr>) env bro) (rollbackPartialLaunch B E st))))"
  have rest: "related erased (rest x) (rest x)" for x
    unfolding rest_def
    by (cases x) (simp, intro related_seq related_onerr rel_applyWorkdirTrust [OF calm] rel_applyDirectCredential [OF calm]
        rel_deliver_and_start [OF stab] rel_rollback [OF calm])
  have body: "related erased
      (p_bind (brokerCredentials B E st (launch_secrets E (st\<lparr>st_HostEnv := h\<rparr>) e)) rest)
      (p_bind (brokerCredentials B E st (launch_secrets E (st\<lparr>st_HostEnv := h'\<rparr>) e)) rest)" if "distinct (map fst e)" for e
    by (rule related_bind [OF rel_broker_twins [OF assms(1) secrets_twins [OF assms(5)] secrets_distinct [OF that] assms(2-4)] rest])
  have unf: "LaunchContainer B E (st\<lparr>st_HostEnv := g\<rparr>) =
      p_bind (case st_Env st of Some e \<Rightarrow> p_ret e | None \<Rightarrow> p_ctx ''load config'' (p_lift (le_config_env E)))
        (\<lambda>e. p_bind (brokerCredentials B E st (launch_secrets E (st\<lparr>st_HostEnv := g\<rparr>) e)) rest)" if "g = h \<or> g = h'" for g
    using that unfolding LaunchContainer_def rest_def host_env_ops host_env_broker host_env_fields
    by (auto simp: host_env_deliver [OF assms(5,6)])
  have r: "related erased (LaunchContainer B E (st\<lparr>st_HostEnv := h\<rparr>)) (LaunchContainer B E (st\<lparr>st_HostEnv := h'\<rparr>))"
  proof (cases "st_Env st")
    case (Some e)
    then show ?thesis using body [of e] assms(7) [of e] unf by simp
  next
    case None
    show ?thesis
    proof (cases "le_config_env E")
      case (Inl x)
      then show ?thesis using None unf by (simp add: related_basic)
    next
      case (Inr e)
      then show ?thesis using None body [of e] assms(7) [of e] unf by simp
    qed
  qed
  have "erased w w" by (simp add: erased_def)
  from relatedD [OF r this] show ?thesis by (simp add: erased_def)
qed

text \<open>A world that fails every call but hosting an injector, at which the theorem is applied.\<close>

definition demo_caps :: BackendCaps where
  "demo_caps = \<lparr>NetworkIsolation = True, cap_CapAdd = True, cap_HostFilesystem = False, VMRuntimeDir = [],
     Locality = LocalityHostSide, KeepAlive = KeepAliveContainerInit, GitExecInConfinement = False, AgentFreeLaunch = True\<rparr>"

definition demo_backend :: rtb where
  "demo_backend = \<lparr>Descriptor = \<lparr>bd_Type = ''docker'', SupportedIsolationModes = [], Capabilities = demo_caps, SecretsConsumedTimeout = 0\<rparr>,
     is_launcher = True, is_netns_runner = True, is_image_builder = True, is_script_provider = True,
     is_injector_reachable = True, is_log_tailer = False,
     ans_unit = (\<lambda>_ _. Inr ()), ans_bool = (\<lambda>_ _. Inr True), ans_str = (\<lambda>_ _. Inr ''tok''),
     ans_info = (\<lambda>_ _. Inr \<lparr>ii_Running = True, ii_Suspended = False, ii_Labels = []\<rparr>),
     ans_reach = (\<lambda>_ _. Inr \<lparr>BindHost = ''127.0.0.1'', DialHost = ''host'', RequiredNetworkMode = []\<rparr>),
     ans_labels = (\<lambda>_ _. Inr None), ans_proc = (\<lambda>_ _. Inr (7, ''127.0.0.1:80'')), torn = (\<lambda>_ _. None)\<rparr>"

definition demo_env :: lenv where
  "demo_env = \<lparr>le_agents = [], le_rec = \<lparr>rec_dec = (\<lambda>_. None), rec_enc = (\<lambda>_. ''r'')\<rparr>, le_view = demo_view,
     le_config_env = Inr [], rc_dec = (\<lambda>_. Some \<lparr>AllowedDomains = [''a.b''], KeepaliveOnly = False,
       rc_AgentCommand = [], rc_AgentLaunchPrefix = [], rc_StartupDelay = 0, rc_ReadyPattern = [], rc_SubmitSequence = [], rc_TmuxConf = [],
       rc_Debug = False, rc_Passthrough = [], rc_VscodeTunnel = False, rc_VscodeTunnelName = [], rc_rest = []\<rparr>), rc_enc = (\<lambda>_. ''{}''),
     le_cpus = (\<lambda>_. None), le_mem = (\<lambda>_ _. None), le_agent_type = Inr ''claude''\<rparr>"

definition host_with_key :: "string \<Rightarrow> HostEnv" where
  "host_with_key k = \<lparr>vars = [''ANTHROPIC_API_KEY'' \<mapsto> k], homeDir = ''/home/u''\<rparr>"

lemma demo_blind: "blind demo_backend"
  by (simp add: blind_def same_answers_def demo_backend_def)

lemma claude_creds: "creds claude_broker = {''ANTHROPIC_API_KEY'', ''CLAUDE_CODE_OAUTH_TOKEN''}"
  by (simp add: creds_def claude_broker_def)

lemma claude_creds_private: "k \<in> creds claude_broker \<Longrightarrow> \<not> interpolable k"
proof -
  have "\<not> interpolable ''ANTHROPIC_API_KEY''" "\<not> interpolable ''CLAUDE_CODE_OAUTH_TOKEN''" by code_simp+
  then show "k \<in> creds claude_broker \<Longrightarrow> ?thesis" by (auto simp: claude_creds)
qed

theorem brokered_launch_is_blind_to_the_credential_witness:
  "fst (LaunchContainer demo_backend demo_env (demo_state\<lparr>st_BrokerCredentials := True, st_HostEnv := host_with_key ''one''\<rparr>) \<lparr>trace = [], files = Map.empty\<rparr>)
   = fst (LaunchContainer demo_backend demo_env (demo_state\<lparr>st_BrokerCredentials := True, st_HostEnv := host_with_key ''two''\<rparr>) \<lparr>trace = [], files = Map.empty\<rparr>)"
proof -
  have tw: "twin_hosts (creds claude_broker) (host_with_key ''one'') (host_with_key ''two'')"
    by (auto simp: twin_hosts_def host_with_key_def claude_creds has_value_def)
  have br: "ag_Broker (st_Agent (demo_state\<lparr>st_BrokerCredentials := True\<rparr>)) = Some claude_broker"
    by (simp add: demo_state_def agent_brokers)
  have f: "st_BrokerCredentials (demo_state\<lparr>st_BrokerCredentials := True\<rparr>)"
    "\<not> st_BrokerDisabled (demo_state\<lparr>st_BrokerCredentials := True\<rparr>)"
    by (simp_all add: demo_state_def)
  show ?thesis
    using brokered_launch_is_blind_to_the_credential [OF demo_blind br f tw claude_creds_private,
        of demo_env "\<lparr>trace = [], files = Map.empty\<rparr>"]
    by (simp add: demo_env_def demo_state_def)
qed

section \<open>Predicates on runs\<close>

lemma pkeeps_of_related: "related (\<lambda>s t. s = t \<and> I s) m m \<Longrightarrow> pkeeps I m"
  by (auto simp: related_def pkeeps_def)

text \<open>
  An invariant of the world of a launch: it does not depend on the files, and the calls of a class
  that has all the harmless ones keep it. Every part of a launch that makes only such calls keeps it.
\<close>

locale launch_invariant =
  fixes I :: "rtw \<Rightarrow> bool" and S :: "event \<Rightarrow> bool"
  assumes any_files: "I w \<Longrightarrow> I (w\<lparr>files := f\<rparr>)"
    and allowed_call: "I w \<Longrightarrow> S e \<Longrightarrow> I (w\<lparr>trace := (e, b) # trace w\<rparr>)"
    and allows_harmless: "harmless e \<Longrightarrow> S e"
begin

lemma calm: "calm B S (\<lambda>s t. s = t \<and> I s)"
  by (auto simp: calm_def stable_def same_answers_def any_files allowed_call allows_harmless)

lemma preparation:
  "pkeeps I (brokerCredentials B E st env)" "pkeeps I (applyWorkdirTrust B st)" "pkeeps I (applyDirectCredential B st env)"
  "pkeeps I (rollbackPartialLaunch B E st)" "pkeeps I (Injector_Stop B J)"
  by (intro pkeeps_of_related prog_rel; rule calm)+

lemma around_start:
  "pkeeps I (filterAvailablePorts B ps)" "pkeeps I (ensureImageLineage B st)" "pkeeps I (deliverRuntimeScripts B st)"
  "pkeeps I (verifyInstanceRunning B st)" "pkeeps I (installFirewallSidecar B E st bro)"
  "pkeeps I (waitForReady B n k l)" "pkeeps I (waitForSecretsConsumed B k)" "pkeeps I (patchKeepaliveOnly B E v)" "pkeeps I (Unlink B p)"
  by (intro pkeeps_of_related prog_rel; rule calm)+

lemma starting:
  "S (ECreate cfg) \<Longrightarrow> pkeeps I (createWithImageRecovery B st cfg)"
  "S (EStart n) \<Longrightarrow> pkeeps I (hinted i (rt_Start B n))"
  by (rule pkeeps_of_related, erule rel_create [OF calm]) (rule pkeeps_of_related, rule rel_hinted, erule rel_rt_Start [OF calm])

end

section \<open>The firewall comes before the agent\<close>

text \<open>Every launch of the agent in the instance \<open>n\<close> comes after a successful sidecar that could install the rules.\<close>

definition firewall_up :: "string \<Rightarrow> trace \<Rightarrow> bool" where
  "firewall_up n t \<longleftrightarrow> (\<exists>spc. (ESidecar spc, True) \<in> set t \<and> ns_Target spc = n \<and> ns_CapAdd spc = [''NET_ADMIN'']
     \<and> ns_Argv spc = [''python3'', RuntimeScriptDir @ ''/install-firewall.py''])"

fun guarded :: "State \<Rightarrow> trace \<Rightarrow> bool" where
  "guarded st [] = True"
| "guarded st ((e, b) # t) = (guarded st t \<and> (case e of
     ELaunch n p \<Rightarrow> firewall_up n t
   | ECreate cfg \<Rightarrow> (''NET_ADMIN'' \<in> set (ic_CapAdd cfg) \<longrightarrow> ''NET_ADMIN'' \<in> set (st_CapAdd st))
       \<and> (ic_Privileged cfg \<longrightarrow> st_Isolation st = ''container-privileged'')
   | _ \<Rightarrow> True))"

definition unprivileged :: "State \<Rightarrow> InstanceConfig \<Rightarrow> bool" where
  "unprivileged st cfg \<longleftrightarrow> (''NET_ADMIN'' \<in> set (ic_CapAdd cfg) \<longrightarrow> ''NET_ADMIN'' \<in> set (st_CapAdd st))
     \<and> (ic_Privileged cfg \<longrightarrow> st_Isolation st = ''container-privileged'')"

definition safe_event :: "State \<Rightarrow> event \<Rightarrow> bool" where
  "safe_event st e = (case e of ELaunch _ _ \<Rightarrow> False | ECreate cfg \<Rightarrow> unprivileged st cfg | _ \<Rightarrow> True)"

definition I_guard :: "State \<Rightarrow> rtw \<Rightarrow> bool" where
  "I_guard st w = guarded st (trace w)"

interpretation guard: launch_invariant "I_guard st" "safe_event st" for st
proof
  fix w e b assume "I_guard st w" "safe_event st e"
  then show "I_guard st (w\<lparr>trace := (e, b) # trace w\<rparr>)"
    by (cases e) (simp_all add: I_guard_def safe_event_def unprivileged_def)
next
  show "safe_event st e" if "harmless e" for e using that by (cases e) (simp_all add: safe_event_def)
qed (simp add: I_guard_def)

lemma config_unprivileged:
  assumes "buildInstanceConfig E desc st ms ps bro True ck = Inr cfg"
  shows "unprivileged st cfg"
proof -
  have base: "ic_CapAdd (base_config st ms ps bro True ck) = []" by (simp add: base_config_def)
  from assms obtain c1 c3 where c1: "applyResourceLimits E st (base_config st ms ps bro True ck) = Inr c1"
    and c3: "applyCaps st (Capabilities desc) (bd_Type desc) c1 = Inr c3"
    and cfg: "cfg = c3\<lparr>ic_Privileged := (st_Isolation st = ''container-privileged''),
        ic_ContainerRuntime := IsolationContainerRuntime (st_Isolation st), ic_Snapshotter := IsolationSnapshotter (st_Isolation st)\<rparr>"
    by (auto simp: buildInstanceConfig_def Let_def split: if_splits)
  have "ic_CapAdd c1 = []" using c1 base by (auto simp: applyResourceLimits_def split: option.splits)
  then have "ic_CapAdd c3 = st_CapAdd st" using c3 by (auto simp: applyCaps_def split: if_splits)
  then show ?thesis by (simp add: unprivileged_def cfg)
qed


lemma triple_and_keeps:
  assumes "triple P m Q (\<lambda>_ _. True)" "pkeeps I m"
  shows "triple (\<lambda>s. P s \<and> I s) m (\<lambda>a s. Q a s \<and> I s) (\<lambda>_. I)"
proof (rule tripleI)
  fix s a s' assume "P s \<and> I s" "m s = (Inr a, s')"
  then show "Q a s' \<and> I s'" using triple_ok [OF assms(1)] pkeepsD [OF assms(2), of s] by auto
next
  fix s e s' assume "P s \<and> I s" "m s = (Inl e, s')"
  then show "I s'" using pkeepsD [OF assms(2), of s] by auto
qed

lemma pkeeps_lifted: "(\<And>a. r = Inr a \<Longrightarrow> pkeeps I (f a)) \<Longrightarrow> pkeeps I (p_bind (p_lift r) f)"
  by (cases r) (auto intro: prog_keeps)

lemma sidecar_ran:
  "triple (\<lambda>_. True) (runNetnsSidecarWithRetry B spc k) (\<lambda>_ w. (ESidecar spc, True) \<in> set (trace w)) (\<lambda>_ _. True)"
proof (induction k)
  case 0
  show ?case by (simp add: triple_fail)
next
  case (Suc k)
  define Q :: "(gerror, unit) result \<Rightarrow> rtw \<Rightarrow> bool" where "Q r w = (is_ok r \<longrightarrow> (ESidecar spc, True) \<in> set (trace w))" for r w
  have tried: "triple (\<lambda>_. True) (p_try (call (ans_unit B) (ESidecar spc))) Q (\<lambda>_ _. True)"
    by (rule tripleI) (auto simp: p_try_def call_def Q_def Let_def)
  have rest: "triple (\<lambda>_. True) (p_bind (deadline_passed B) (\<lambda>cancelled.
      if cancelled then p_fail (errorf ''context canceled'') else runNetnsSidecarWithRetry B spc k))
      (\<lambda>_ w. (ESidecar spc, True) \<in> set (trace w)) (\<lambda>_ _. True)"
    by (rule triple_bind [of _ _ "\<lambda>_ _. True"]) (auto simp: Suc.IH triple_fail intro: tripleI)
  show ?case unfolding runNetnsSidecarWithRetry.simps
  proof (rule triple_bind [OF tried])
    fix r show "triple (Q r) (case r of Inr _ \<Rightarrow> p_ret () | Inl e \<Rightarrow> if k = 0 then p_fail e
         else p_bind (deadline_passed B) (\<lambda>cancelled.
           if cancelled then p_fail (errorf ''context canceled'') else runNetnsSidecarWithRetry B spc k))
        (\<lambda>_ w. (ESidecar spc, True) \<in> set (trace w)) (\<lambda>_ _. True)"
      using triple_conseq [OF rest, of "Q r"]
      by (cases r) (auto simp: Q_def intro!: triple_ret triple_fail)
  qed
qed

lemma firewall_installed:
  "triple (\<lambda>_. True) (installFirewallSidecar B E st bro) (\<lambda>_ w. firewall_up (cname st) (trace w)) (\<lambda>_ _. True)"
proof -
  have any: "triple P m (\<lambda>_ _. True) (\<lambda>_ _. True)" for P and m :: "(rtw, 'b) prog" by (rule tripleI) simp_all
  have up: "(ESidecar (firewall_spec st d bro ms), True) \<in> set t \<Longrightarrow> firewall_up (cname st) t" for d ms t
    unfolding firewall_up_def firewall_spec_def by (intro exI conjI, assumption) simp_all
  have ran: "triple (\<lambda>_. True) (runNetnsSidecarWithRetry B (firewall_spec st d bro ms) k) (\<lambda>_ w. firewall_up (cname st) (trace w)) (\<lambda>_ _. True)" for d ms k
    by (rule triple_conseq [OF sidecar_ran]) (rule TrueI, erule up, rule TrueI)
  show ?thesis unfolding installFirewallSidecar_def
    by (auto intro!: triple_bind [OF any] triple_ctx triple_fail ran)
qed

lemma keeps_startViaLaunch:
  assumes "unprivileged st cfg"
  shows "pkeeps (I_guard st) (startViaLaunch B E st cfg hs env bro True)"
proof -
  define cfg' where "cfg' = cfg\<lparr>ic_ContainerEnv := ic_ContainerEnv cfg @ [''YOLOAI_KEEPALIVE_ONLY=1'']\<rparr>"
  have cfg': "safe_event st (ECreate cfg')" using assms by (simp add: safe_event_def unprivileged_def cfg'_def)
  have fw: "triple (I_guard st) (installFirewallSidecar B E st bro)
      (\<lambda>_ w. firewall_up (cname st) (trace w) \<and> I_guard st w) (\<lambda>_. I_guard st)"
    using triple_and_keeps [OF firewall_installed guard.around_start(5)] by simp
  have launch: "triple (\<lambda>w. firewall_up (cname st) (trace w) \<and> I_guard st w)
      (p_ctx ''launch session-runner'' (call (ans_unit B) (ELaunch (cname st) p))) (\<lambda>_. I_guard st) (\<lambda>_. I_guard st)" for p
    by (intro triple_ctx) (simp add: triple_same call_def Let_def I_guard_def)
  have tail: "pkeeps (I_guard st) (p_seq (installFirewallSidecar B E st bro)
      (p_seq (p_ctx ''launch session-runner'' (call (ans_unit B) (ELaunch (cname st) p))) (p_when hs (waitForSecretsConsumed B k))))" for p k
    unfolding pkeeps_triple
    by (rule triple_seq [OF fw triple_seq [OF launch]])
      (fold pkeeps_triple, intro pkeeps_wrappers(4) guard.around_start)
  show ?thesis unfolding startViaLaunch_def Let_def p_when_simps(1) cfg'_def [symmetric]
    by (intro pkeeps_seq pkeeps_wrappers(2,3) tail guard.around_start guard.starting cfg') (simp add: safe_event_def)
qed

lemma keeps_buildAndStart:
  assumes "UsesSidecarFirewall B (st_Isolation st) (st_NetworkMode st)"
  shows "pkeeps (I_guard st) (buildAndStart B E st ms ps hs env bro bc)"
proof -
  have l: "usesAgentFreeLaunch B (st_Isolation st)" using assms by (auto simp: UsesSidecarFirewall_def split: if_splits)
  show ?thesis unfolding buildAndStart_def Let_def
    by (rule pkeeps_lifted) (auto simp: l assms config_unprivileged intro!: pkeeps_seq keeps_startViaLaunch
        pkeeps_wrappers(2,4) guard.around_start)
qed

lemma keeps_bring_up:
  assumes "UsesSidecarFirewall B (st_Isolation st) (st_NetworkMode st)"
  shows "pkeeps (I_guard st) (bring_up B E st d env bro)"
  unfolding bring_up_def
  by (intro pkeeps_bind keeps_buildAndStart [OF assms] pkeeps_basic(3) guard.around_start)

text \<open>
  C2: the firewall comes first. In a network-isolated sandbox whose backend installs the allow-list
  from a sidecar, whatever calls fail, time out or are retried: the agent's session runner is launched
  in an instance only after the privileged sidecar has installed the firewall in that instance's
  network namespace, and the instance itself is created without \<open>NET_ADMIN\<close> and without privileges
  unless the sandbox was configured with them.
\<close>

theorem agent_runs_behind_its_firewall:
  assumes "UsesSidecarFirewall B (st_Isolation st) (st_NetworkMode st)" and "guarded st (trace w)"
  shows "guarded st (trace (snd (LaunchContainer B E st w)))"
proof -
  have l: "usesAgentFreeLaunch B (st_Isolation st)" using assms(1) by (auto simp: UsesSidecarFirewall_def split: if_splits)
  have start: "pkeeps (I_guard st) (deliver_and_start B E st env bro)" for env bro
    unfolding deliver_and_start_def by (simp add: l keeps_bring_up [OF assms(1)])
  have conf: "pkeeps (I_guard st) (case st_Env st of Some e \<Rightarrow> p_ret e | None \<Rightarrow> p_ctx ''load config'' (p_lift (le_config_env E)))"
    by (auto split: option.splits intro: prog_keeps)
  have rest: "pkeeps (I_guard st) (case x of (bro, secretEnv) \<Rightarrow> p_seq (applyWorkdirTrust B st)
    (p_seq (applyDirectCredential B st secretEnv) (p_onerr (deliver_and_start B E st secretEnv bro) (rollbackPartialLaunch B E st))))" for x
    by (cases x) (simp, intro pkeeps_seq pkeeps_defer(2) start guard.preparation)
  have "pkeeps (I_guard st) (LaunchContainer B E st)" unfolding LaunchContainer_def
    by (intro pkeeps_bind conf rest guard.preparation)
  from pkeepsD [OF this, of w] show ?thesis using assms(2) by (simp add: I_guard_def)
qed


text \<open>An isolated sandbox on a backend that can do all of it.\<close>

definition isolated_state :: State where
  "isolated_state = demo_state\<lparr>st_NetworkMode := ''isolated''\<rparr>"

theorem agent_runs_behind_its_firewall_witness:
  "guarded isolated_state (trace (snd (LaunchContainer demo_backend demo_env isolated_state \<lparr>trace = [], files = Map.empty\<rparr>)))"
proof (rule agent_runs_behind_its_firewall)
  show "UsesSidecarFirewall demo_backend (st_Isolation isolated_state) (st_NetworkMode isolated_state)" by code_simp
qed simp

section \<open>A failed launch\<close>

definition quiet :: "trace \<Rightarrow> rtw \<Rightarrow> bool" where
  "quiet t w \<longleftrightarrow> (\<exists>p. trace w = p @ t \<and> (\<forall>x \<in> set p. harmless (fst x)))"

interpretation quiet: launch_invariant "quiet t" harmless for t
proof
  fix w e b assume "quiet t w" and e: "harmless e"
  then obtain p where "trace w = p @ t" "\<forall>x \<in> set p. harmless (fst x)" by (auto simp: quiet_def)
  with e show "quiet t (w\<lparr>trace := (e, b) # trace w\<rparr>)"
    unfolding quiet_def by (intro exI [of _ "(e, b) # p"]) simp
qed (simp_all add: quiet_def)

lemma rollback_trace:
  "\<exists>p b1 b2. trace (snd (rollbackPartialLaunch B E st w)) = p @ (ERemove (cname st), b1) # (EStop (cname st), b2) # trace w
     \<and> (\<forall>x \<in> set p. harmless (fst x))"
proof -
  define w1 where "w1 = snd (rt_Stop B (cname st) w)"
  define w2 where "w2 = snd (rt_Remove B (cname st) w1)"
  obtain b2 where "trace w1 = (EStop (cname st), b2) # trace w"
    by (simp add: w1_def rt_Stop_def call_def Let_def)
  moreover have "trace w2 = (ERemove (cname st), is_ok (ans_unit B (trace w1) (ERemove (cname st)))) # trace w1"
    by (cases "ans_unit B (trace w1) (ERemove (cname st))") (simp_all add: w2_def rt_Remove_def call_def Let_def p_seq_def p_bind_def)
  ultimately obtain b1 where t: "trace w2 = (ERemove (cname st), b1) # (EStop (cname st), b2) # trace w" by simp
  have e: "snd (rollbackPartialLaunch B E st w) = snd (Injector_Stop B (le_rec E) w2)"
    by (simp add: rollbackPartialLaunch_def p_seq_def p_bind_def p_ignore_def w1_def w2_def)
  have "quiet (trace w2) w2" by (simp add: quiet_def)
  then have "quiet (trace w2) (snd (Injector_Stop B (le_rec E) w2))"
    by (rule pkeepsD [OF quiet.preparation(5)])
  then show ?thesis unfolding e quiet_def t by blast
qed

text \<open>
  C3: a failed launch leaves no instance behind. If a launch fails after it has touched an instance,
  that is after it has tried to create, start or run the agent in one, then the last such attempt is followed by a stop and
  a removal of the instance, in this order, and nothing creates or starts an instance afterwards.
\<close>

theorem failed_launch_removes_the_instance:
  assumes "\<And>y. y \<in> set (trace w) \<Longrightarrow> harmless (fst y)" and "LaunchContainer B E st w = (Inl err, w')"
    and "x \<in> set (trace w')" "\<not> harmless (fst x)"
  shows "\<exists>p b1 b2 t. trace w' = p @ (ERemove (cname st), b1) # (EStop (cname st), b2) # t \<and> x \<in> set t
     \<and> (\<forall>y \<in> set p. harmless (fst y))"
proof -
  define prep where "prep = (\<lambda>w. quiet [] (w :: rtw))"
  define undone where "undone = (\<lambda>w. quiet [] w \<or> (\<exists>p b1 b2 t. trace (w :: rtw) = p @ (ERemove (cname st), b1) # (EStop (cname st), b2) # t
     \<and> (\<forall>y \<in> set p. harmless (fst y))))"
  have safe: "triple prep m (\<lambda>_. prep) (\<lambda>_. undone)" if "pkeeps prep m" for m :: "(rtw, 'b) prog"
    by (rule tripleI) (use pkeepsD [OF that] in \<open>force simp: prep_def undone_def\<close>)+
  have conf: "triple prep (case st_Env st of Some e \<Rightarrow> p_ret e | None \<Rightarrow> p_ctx ''load config'' (p_lift (le_config_env E))) (\<lambda>_. prep) (\<lambda>_. undone)"
    by (rule safe) (auto split: option.splits intro: prog_keeps)
  have onerr: "triple prep (p_onerr m (rollbackPartialLaunch B E st)) (\<lambda>_ _. True) (\<lambda>_. undone)" for m :: "(rtw, unit) prog"
  proof (rule triple_onerr [of _ _ _ "\<lambda>_ _. True"])
    have "undone (snd (rollbackPartialLaunch B E st w))" for w
      using rollback_trace [of B E st w] unfolding undone_def by blast
    then show "triple (\<lambda>_. True) (rollbackPartialLaunch B E st) (\<lambda>_. undone) (\<lambda>_. undone)" by (simp add: triple_same)
  qed (simp add: tripleI)
  have rest: "triple prep (case v of (bro, secretEnv) \<Rightarrow> p_seq (applyWorkdirTrust B st)
    (p_seq (applyDirectCredential B st secretEnv) (p_onerr (deliver_and_start B E st secretEnv bro) (rollbackPartialLaunch B E st))))
      (\<lambda>_ _. True) (\<lambda>_. undone)" for v
    by (cases v) (simp, intro triple_seq [OF safe] onerr; unfold prep_def;
        rule quiet.preparation)
  have bro: "triple prep (brokerCredentials B E st env) (\<lambda>_. prep) (\<lambda>_. undone)" for env
    by (rule safe) (unfold prep_def, rule quiet.preparation)
  have all: "triple prep (LaunchContainer B E st) (\<lambda>_ _. True) (\<lambda>_. undone)"
    unfolding LaunchContainer_def by (intro triple_bind [OF conf] triple_bind [OF bro] rest)
  have "prep w" using assms(1) by (simp add: prep_def quiet_def)
  from triple_err [OF all this assms(2)] have "undone w'" .
  then consider "quiet [] w'" | p b1 b2 t where "trace w' = p @ (ERemove (cname st), b1) # (EStop (cname st), b2) # t"
      "\<forall>y \<in> set p. harmless (fst y)" unfolding undone_def by blast
  then show ?thesis
  proof cases
    case 1
    then show ?thesis using assms(3,4) by (auto simp: quiet_def)
  next
    case 2
    then have "x \<in> set t" using assms(3,4) by auto
    with 2 show ?thesis by blast
  qed
qed


text \<open>A world where the instance starts and is gone at the first inspection, and the run of a launch in it.\<close>

definition exits_backend :: rtb where
  "exits_backend = demo_backend\<lparr>ans_info := (\<lambda>_ _. Inr \<lparr>ii_Running = False, ii_Suspended = False, ii_Labels = []\<rparr>)\<rparr>"

definition demo_world :: rtw where
  "demo_world = \<lparr>trace = [], files = [RuntimeConfigPath [] \<mapsto> ''{}'']\<rparr>"

definition started :: "trace \<Rightarrow> bool" where
  "started t = (\<exists>x \<in> set t. \<not> harmless (fst x))"


lemma exits_run:
  "case LaunchContainer exits_backend demo_env isolated_state demo_world of (r, w) \<Rightarrow> \<not> is_ok r \<and> started (trace w)"
  by code_simp

theorem failed_launch_removes_the_instance_witness:
  "\<exists>p b1 b2 t. trace (snd (LaunchContainer exits_backend demo_env isolated_state demo_world))
     = p @ (ERemove (cname isolated_state), b1) # (EStop (cname isolated_state), b2) # t"
proof -
  obtain e w' where r: "LaunchContainer exits_backend demo_env isolated_state demo_world = (Inl e, w')" and "started (trace w')"
    using exits_run by (cases "LaunchContainer exits_backend demo_env isolated_state demo_world";
        cases "fst (LaunchContainer exits_backend demo_env isolated_state demo_world)") auto
  then obtain x where x: "x \<in> set (trace w')" "\<not> harmless (fst x)" by (auto simp: started_def)
  have "\<And>y. y \<in> set (trace demo_world) \<Longrightarrow> harmless (fst y)" by (simp add: demo_world_def)
  from failed_launch_removes_the_instance [OF this r x] show ?thesis using r by auto
qed

text \<open>
  What the rollback does not cover. The injector process is started before the deferred rollback is in
  place: when patching the trust file fails after that, the launch fails and the injector stays, its
  record on disk and no attempt to stop it.
\<close>

definition config_write_fails :: rtb where
  "config_write_fails = demo_backend\<lparr>ans_unit := (\<lambda>_ e. case e of
     EWrite p _ \<Rightarrow> if p = AgentRuntimeFilePath [] ''config.toml'' then Inl (errorf ''disk full'') else Inr ()
   | _ \<Rightarrow> Inr ())\<rparr>"

definition codex_state :: State where
  "codex_state = demo_state\<lparr>st_Agent := codex_agent no_codec, st_BrokerCredentials := True,
     st_HostEnv := \<lparr>vars = [''OPENAI_API_KEY'' \<mapsto> ''k''], homeDir = ''/home/u''\<rparr>\<rparr>"

definition kills :: "trace \<Rightarrow> bool" where
  "kills t = (\<exists>x \<in> set t. case fst x of EKill _ \<Rightarrow> True | _ \<Rightarrow> False)"

definition spawns :: "trace \<Rightarrow> bool" where
  "spawns t = (\<exists>x \<in> set t. case fst x of ESpawnInjector _ \<Rightarrow> snd x | _ \<Rightarrow> False)"

lemma injector_survives_failed_preparation:
  "case LaunchContainer config_write_fails demo_env codex_state demo_world of (r, w) \<Rightarrow>
     \<not> is_ok r \<and> spawns (trace w) \<and> \<not> kills (trace w) \<and> files w (InjectorRecordPath []) = Some ''r''"
  by code_simp

text \<open>
  On a backend that keeps its state on the host, the rollback's removal takes the sandbox directory
  with it, though the rollback is described as leaving it for a retry.
\<close>

lemma rollback_deletes_host_filesystem:
  assumes "host_filesystem B" "ans_unit B ((EStop (cname st), is_ok (ans_unit B (trace w) (EStop (cname st)))) # trace w) (ERemove (cname st)) = Inr ()"
  shows "files (snd (rt_Remove B (cname st) (snd (rt_Stop B (cname st) w)))) = Map.empty"
  using assms by (simp add: rt_Remove_def rt_Stop_def call_def Let_def p_seq_def p_bind_def)

end
