(* ===== verification/Invocation.thy ===== *)
theory Invocation
  imports AgentDefs Names
begin

text \<open>
  Building the command line of an agent, \<open>internal/orchestrator/invocation/invocation.go\<close> and the launch
  prefixes of \<open>launch/prefix.go\<close>. The command is a string that a shell splits; the fragment of the shell
  that matters here, words with quotes, is a function on strings, and the theorems say which words the
  shell finds in the command that was built.
\<close>

section \<open>Strings\<close>

text \<open>\<open>strings.ReplaceAll\<close> for a nonempty pattern; what was put in is not scanned again.\<close>

function ReplaceAll :: "string \<Rightarrow> string \<Rightarrow> string \<Rightarrow> string" where
  "ReplaceAll [] old new = []"
| "ReplaceAll (c # cs) old new =
     (if old \<noteq> [] \<and> HasPrefix (c # cs) old then new @ ReplaceAll (drop (length old) (c # cs)) old new
      else c # ReplaceAll cs old new)"
  by pat_completeness auto
termination
  by (relation "measure (\<lambda>(s, _, _). length s)") auto

definition TrimRight :: "string \<Rightarrow> char \<Rightarrow> string" where
  "TrimRight s c = rev (dropWhile (\<lambda>x. x = c) (rev s))"

section \<open>Models\<close>

definition ResolveModel :: "Definition \<Rightarrow> string \<Rightarrow> (string \<rightharpoonup> string) \<Rightarrow> string" where
  "ResolveModel def model userAliases =
     (if model = [] then []
      else case userAliases model of Some r \<Rightarrow> r
        | None \<Rightarrow> (case map_of (ag_ModelAliases def) model of Some r \<Rightarrow> r | None \<Rightarrow> model))"

text \<open>
  The prefixes are a Go map, so the loop visits them in an order of the run's choosing. The order is an
  argument, a permutation of the agent's prefixes.
\<close>

fun first_trigger :: "(string \<times> string) list \<Rightarrow> (string \<rightharpoonup> string) \<Rightarrow> (string \<rightharpoonup> string) \<Rightarrow> string \<Rightarrow> string" where
  "first_trigger [] host cfg model = model"
| "first_trigger ((k, p) # ps) host cfg model =
     (if has_value host k \<or> has_value cfg k then p @ model else first_trigger ps host cfg model)"

definition ApplyModelPrefix :: "(string \<times> string) list \<Rightarrow> Definition \<Rightarrow> string \<Rightarrow> (string \<rightharpoonup> string) \<Rightarrow> HostEnv \<Rightarrow> string" where
  "ApplyModelPrefix order def model configEnv h =
     (if model = [] \<or> Contains model ''/'' then model
      else if ag_ModelPrefixes def = [] then model
      else first_trigger order (EnvForAgentCredentials h (map fst (ag_ModelPrefixes def))) configEnv model)"

definition ValidateModel :: "Definition \<Rightarrow> string \<Rightarrow> string \<Rightarrow> (gerror, unit) result" where
  "ValidateModel def resolvedModel originalModel =
     (if resolvedModel = [] then Inr ()
      else if ag_Type def = ''opencode'' \<and> \<not> Contains resolvedModel ''/''
      then Inl (errorf (''opencode requires models in provider/model format; you specified '' @ originalModel))
      else Inr ())"

section \<open>The command\<close>

definition shell_escape_char :: "char \<Rightarrow> string" where
  "shell_escape_char c = (if c \<in> {CHR 0x5C, CHR 34, CHR 0x60, CHR ''$''} then [CHR 0x5C, c] else [c])"

definition shellEscapeForDoubleQuotes :: "string \<Rightarrow> string" where
  "shellEscapeForDoubleQuotes s = concat (map shell_escape_char s)"

definition BuildAgentCommand :: "Definition \<Rightarrow> string \<Rightarrow> string \<Rightarrow> string \<Rightarrow> string list \<Rightarrow> bool \<Rightarrow> string" where
  "BuildAgentCommand def model prompt agentArgs passthrough headless =
     (let cmd0 = (if (headless \<or> ag_PromptMode def = PromptModeHeadless) \<and> prompt \<noteq> []
                  then ReplaceAll (ag_HeadlessCmd def) ''PROMPT'' (shellEscapeForDoubleQuotes prompt)
                  else ag_InteractiveCmd def);
          cmd1 = (if model \<noteq> [] \<and> ag_ModelFlag def \<noteq> [] then cmd0 @ '' '' @ ag_ModelFlag def @ '' '' @ model else cmd0);
          cmd2 = (if agentArgs \<noteq> [] then cmd1 @ '' '' @ agentArgs else cmd1)
      in foldl (\<lambda>cmd arg. cmd @ '' '' @ arg) cmd2 passthrough)"

definition ResolveResumeCommand :: "string \<Rightarrow> string \<Rightarrow> string" where
  "ResolveResumeCommand agentCommand resumeFlag = (if resumeFlag = [] then [] else agentCommand @ '' '' @ resumeFlag)"

definition hyphenate :: "char \<Rightarrow> char" where
  "hyphenate c = (if c = CHR ''_'' \<or> c = CHR ''.'' then CHR ''-'' else c)"

definition SanitizeTunnelName :: "string \<Rightarrow> string" where
  "SanitizeTunnelName name =
     (let n1 = TrimRight (take 20 (map hyphenate (ToLower name))) (CHR ''-'')
      in n1 @ replicate (3 - length n1) (CHR ''x''))"

definition ResolveDetectors :: "IdleSupport \<Rightarrow> string list" where
  "ResolveDetectors idle =
     (let ds = (if is_Hook idle then [''hook''] else []) @ (if WchanApplicable idle then [''wchan''] else [])
             @ (if ReadyPattern idle \<noteq> [] then [''ready_pattern''] else []) @ (if ContextSignal idle then [''context_signal''] else [])
      in if ds \<noteq> [] then ds @ [''output_stability''] else ds)"

definition IdleModeHookAuthoritative :: string where "IdleModeHookAuthoritative = ''hook-authoritative''"
definition IdleModeHeuristicOnly :: string where "IdleModeHeuristicOnly = ''heuristic-only''"

definition ResolveIdleMode :: "IdleSupport \<Rightarrow> string" where
  "ResolveIdleMode idle = (if is_Hook idle then IdleModeHookAuthoritative else IdleModeHeuristicOnly)"

definition ResolveFallToShell :: "IdleSupport \<Rightarrow> bool \<Rightarrow> bool" where
  "ResolveFallToShell idle headless = (\<not> headless)"

text \<open>
  Reading the prompt. What standard input and a file of the host hold are arguments.
\<close>

definition ReadPrompt :: "string \<Rightarrow> string \<Rightarrow> string \<Rightarrow> (string \<rightharpoonup> string) \<Rightarrow> (gerror, string) result \<Rightarrow>
    (string \<Rightarrow> (gerror, string) result) \<Rightarrow> (gerror, string) result" where
  "ReadPrompt prompt promptFile home env stdin read_file =
     (let from_stdin = res_bind (res_ctx ''read prompt from stdin'' stdin) (\<lambda>d. Inr (TrimSpace d)) in
      if prompt \<noteq> [] \<and> promptFile \<noteq> [] then Inl (usage_error ''--prompt and --prompt-file are mutually exclusive'')
      else if prompt = ''-'' then from_stdin
      else if prompt \<noteq> [] then Inr prompt
      else if promptFile = ''-'' then from_stdin
      else if promptFile \<noteq> [] then
        (case ExpandPath promptFile home env of
           Inl e \<Rightarrow> Inl (errorf (''expand prompt file path: '' @ e))
         | Inr p \<Rightarrow> res_bind (res_ctx ''read prompt file'' (read_file p)) (\<lambda>d. Inr (TrimSpace d)))
      else Inr [])"

text \<open>\<open>launch/prefix.go\<close>\<close>

definition agentLaunchPrefixes :: "(string \<times> string) list" where
  "agentLaunchPrefixes =
     [(''tart'', ''PATH='' @ [CHR 34] @ ''$HOME/.local/bin:/opt/homebrew/opt/node@22/bin:/opt/homebrew/bin:$PATH'' @ [CHR 34] @ '' ''),
      (''seatbelt'', ''source ~/.swift-wrapper.sh && '')]"

definition AgentLaunchPrefix :: "string \<Rightarrow> string" where
  "AgentLaunchPrefix backendType = (case map_of agentLaunchPrefixes backendType of Some p \<Rightarrow> p | None \<Rightarrow> [])"

section \<open>The words a shell finds\<close>

text \<open>
  The rest of a double-quoted string: its value and what follows the closing quote. An expansion, or a
  missing quote, has no value here.
\<close>

fun in_double :: "string \<Rightarrow> (string \<times> string) option" where
  "in_double [] = None"
| "in_double [c] = (if c = CHR 34 then Some ([], []) else None)"
| "in_double (c # d # cs) =
     (if c = CHR 34 then Some ([], d # cs)
      else if c = CHR 0x5C then
        if d \<in> {CHR 0x5C, CHR 34, CHR 0x60, CHR ''$''} then map_option (\<lambda>(v, r). (d # v, r)) (in_double cs)
        else if d = CHR 10 then in_double cs
        else map_option (\<lambda>(v, r). (c # v, r)) (in_double (d # cs))
      else if c = CHR ''$'' \<or> c = CHR 0x60 then None
      else map_option (\<lambda>(v, r). (c # v, r)) (in_double (d # cs)))"

fun in_single :: "string \<Rightarrow> (string \<times> string) option" where
  "in_single [] = None"
| "in_single (c # cs) = (if c = CHR 39 then Some ([], cs) else map_option (\<lambda>(v, r). (c # v, r)) (in_single cs))"

lemma in_double_shorter: "in_double s = Some (v, r) \<Longrightarrow> length r < length s"
  by (induction s arbitrary: v r rule: in_double.induct) (fastforce split: if_splits)+

lemma in_single_shorter: "in_single s = Some (v, r) \<Longrightarrow> length r < length s"
  by (induction s arbitrary: v) (fastforce split: if_splits)+

definition shell_special :: "char \<Rightarrow> bool" where
  "shell_special c \<longleftrightarrow> c \<in> set [CHR ''$'', CHR 0x60, CHR 0x5C, CHR '';'', CHR ''&'', CHR ''|'', CHR ''<'', CHR ''>'',
     CHR ''('', CHR '')'', CHR ''#'', CHR ''*'', CHR ''?'', CHR ''['', CHR ''~'', CHR 10, CHR 9]"

text \<open>
  The words of a command, \<open>cur\<close> being the word under way. Characters with a meaning of their own outside
  quotes have none here, so a command with a value has no expansion, pipe or list in it.
\<close>

function (sequential) shell_words :: "string option \<Rightarrow> string \<Rightarrow> string list option" where
  "shell_words None [] = Some []"
| "shell_words (Some w) [] = Some [w]"
| "shell_words cur (c # cs) =
     (let sofar = (case cur of Some w \<Rightarrow> w | None \<Rightarrow> []) in
      if c = CHR '' '' then (case cur of None \<Rightarrow> shell_words None cs | Some w \<Rightarrow> map_option ((#) w) (shell_words None cs))
      else if c = CHR 34 then (case in_double cs of None \<Rightarrow> None | Some (v, r) \<Rightarrow> shell_words (Some (sofar @ v)) r)
      else if c = CHR 39 then (case in_single cs of None \<Rightarrow> None | Some (v, r) \<Rightarrow> shell_words (Some (sofar @ v)) r)
      else if shell_special c then None
      else shell_words (Some (sofar @ [c])) cs)"
  by pat_completeness auto
termination
  by (relation "measure (\<lambda>(_, s). length s)") (auto dest: in_double_shorter in_single_shorter)

lemma in_double_append: "in_double s = Some (v, r) \<Longrightarrow> in_double (s @ t) = Some (v, r @ t)"
proof (induction s arbitrary: v r rule: in_double.induct)
  case (2 c)
  then show ?case by (cases t) (auto split: if_splits)
qed (fastforce split: if_splits)+

lemma in_single_append: "in_single s = Some (v, r) \<Longrightarrow> in_single (s @ t) = Some (v, r @ t)"
  by (induction s arbitrary: v) (fastforce split: if_splits)+

lemma shell_words_append:
  "shell_words cur s = Some xs \<Longrightarrow> shell_words None t = Some ys \<Longrightarrow> shell_words cur (s @ '' '' @ t) = Some (xs @ ys)"
proof (induction cur s arbitrary: xs rule: shell_words.induct)
  case (3 cur c cs)
  then show ?case
    by (auto simp: Let_def in_double_append in_single_append split: if_splits option.splits)
qed auto

text \<open>Escaping is right: inside double quotes the escaped text reads back as the text.\<close>

lemma in_double_escape: "in_double (shellEscapeForDoubleQuotes s @ CHR 34 # t) = Some (s, t)"
proof (induction s)
  case Nil
  show ?case by (cases t) (simp_all add: shellEscapeForDoubleQuotes_def)
next
  case (Cons c s)
  define e where "e = shellEscapeForDoubleQuotes s @ CHR 34 # t"
  obtain d r where e: "e = d # r" by (cases e) (auto simp: e_def)
  have IH: "in_double (d # r) = Some (s, t)" using Cons.IH by (simp flip: e_def add: e)
  have "shellEscapeForDoubleQuotes (c # s) @ CHR 34 # t = shell_escape_char c @ d # r"
    using e by (simp add: shellEscapeForDoubleQuotes_def e_def)
  then show ?case using IH by (auto simp: shell_escape_char_def)
qed


section \<open>The prompt stays one word\<close>

definition with_prompt :: "string \<Rightarrow> string \<Rightarrow> string" where
  "with_prompt prompt w = (if w = ''PROMPT'' then prompt else w)"

text \<open>The template of a headless command, cut at the quoted prompt.\<close>

definition templated :: "string \<Rightarrow> bool" where
  "templated t \<longleftrightarrow> (\<exists>ws. shell_words None t = Some ws \<and>
     (\<forall>p. shell_words None (ReplaceAll t ''PROMPT'' (shellEscapeForDoubleQuotes p)) = Some (map (with_prompt p) ws)))"

lemma quoted_word:
  "shell_words cur (CHR 34 # shellEscapeForDoubleQuotes p @ CHR 34 # t) = shell_words (Some ((case cur of Some w \<Rightarrow> w | None \<Rightarrow> []) @ p)) t"
  by (cases cur) (simp_all add: in_double_escape Let_def)

lemmas template_simps = HasPrefix_def Let_def quoted_word with_prompt_def shell_special_def in_double_escape

lemma builtin_templates:
  "templated (ag_HeadlessCmd aider_agent)" "templated (ag_HeadlessCmd claude_agent)" "templated (ag_HeadlessCmd gemini_agent)"
  "templated (ag_HeadlessCmd (opencode_agent plugin))" "templated (ag_HeadlessCmd (codex_agent C))"
  "templated (ag_HeadlessCmd test_agent)" "templated (ag_HeadlessCmd idle_agent)" "templated (ag_HeadlessCmd (buildShellAgent A))"
  unfolding templated_def aider_agent_def claude_agent_def gemini_agent_def opencode_agent_def codex_agent_def test_agent_def
    idle_agent_def buildShellAgent_def
  by (simp_all add: template_simps split: prod.split)


lemma flag_words:
  "ag_ModelFlag aider_agent = ''--model''" "ag_ModelFlag claude_agent = ''--model''" "ag_ModelFlag gemini_agent = ''--model''"
  "ag_ModelFlag (opencode_agent plugin) = ''--model''" "ag_ModelFlag (codex_agent C) = ''--model''"
  "ag_ModelFlag test_agent = []" "ag_ModelFlag idle_agent = []" "ag_ModelFlag (buildShellAgent A) = []"
  unfolding aider_agent_def claude_agent_def gemini_agent_def opencode_agent_def codex_agent_def test_agent_def
    idle_agent_def buildShellAgent_def blank_agent_def
  by (simp_all split: prod.split)

lemma builtin_members:
  "(n, def) \<in> set (builtin_agents C plugin) \<Longrightarrow> def \<in> {aider_agent, claude_agent, gemini_agent, opencode_agent plugin,
     codex_agent C, test_agent, idle_agent, buildShellAgent (agent_table C plugin)}"
  unfolding builtin_agents_def Let_def agent_table_def by auto

lemma builtin_flags:
  assumes "(n, def) \<in> set (builtin_agents C plugin)" "ag_ModelFlag def \<noteq> []"
  shows "shell_words None (ag_ModelFlag def) = Some [ag_ModelFlag def]"
proof -
  have "ag_ModelFlag def = ''--model''" using builtin_members [OF assms(1)] assms(2) by (auto simp: flag_words)
  moreover have "shell_words None ''--model'' = Some [''--model'']" by code_simp
  ultimately show ?thesis by simp
qed

lemma builtin_templated: "(n, def) \<in> set (builtin_agents C plugin) \<Longrightarrow> templated (ag_HeadlessCmd def)"
  using builtin_members [of n def C plugin] by (auto simp: builtin_templates)

lemma words_of_args:
  "list_all2 (\<lambda>a ws. shell_words None a = Some ws) args wss \<Longrightarrow> shell_words None cmd = Some xs \<Longrightarrow>
     shell_words None (foldl (\<lambda>cmd arg. cmd @ '' '' @ arg) cmd args) = Some (xs @ concat wss)"
proof (induction args wss arbitrary: cmd xs rule: list_all2_induct)
  case (Cons a args ws wss)
  have "shell_words None (cmd @ '' '' @ a) = Some (xs @ ws)" by (rule shell_words_append [OF Cons.prems Cons.hyps(1)])
  from Cons.IH [OF this] show ?case by simp
qed simp

text \<open>
  C25: a prompt cannot escape into the shell. For every built-in agent and every prompt, whatever quotes,
  dollars, backquotes or newlines it has, the shell splits the headless command into the words of the
  agent's template with the prompt as one literal word in its place, followed by the model flag, the
  agent's arguments and the passed-through ones.
\<close>

theorem headless_prompt_is_one_word:
  assumes "(n, def) \<in> set (builtin_agents C plugin)" and "prompt \<noteq> []"
    and "shell_words None model = Some ms" and "shell_words None agentArgs = Some as"
    and "list_all2 (\<lambda>a ws. shell_words None a = Some ws) passthrough wss"
  shows "\<exists>ws. shell_words None (ag_HeadlessCmd def) = Some ws
    \<and> shell_words None (BuildAgentCommand def model prompt agentArgs passthrough True)
      = Some (map (with_prompt prompt) ws @ (if model \<noteq> [] \<and> ag_ModelFlag def \<noteq> [] then ag_ModelFlag def # ms else [])
              @ as @ concat wss)"
proof -
  from builtin_templated [OF assms(1)] obtain ws where ws: "shell_words None (ag_HeadlessCmd def) = Some ws"
    and c0: "shell_words None (ReplaceAll (ag_HeadlessCmd def) ''PROMPT'' (shellEscapeForDoubleQuotes prompt)) = Some (map (with_prompt prompt) ws)"
    by (auto simp: templated_def)
  let ?c0 = "ReplaceAll (ag_HeadlessCmd def) ''PROMPT'' (shellEscapeForDoubleQuotes prompt)"
  define c1 where "c1 = (if model \<noteq> [] \<and> ag_ModelFlag def \<noteq> [] then ?c0 @ '' '' @ ag_ModelFlag def @ '' '' @ model else ?c0)"
  define x1 where "x1 = (if model \<noteq> [] \<and> ag_ModelFlag def \<noteq> [] then ag_ModelFlag def # ms else [])"
  have c1: "shell_words None c1 = Some (map (with_prompt prompt) ws @ x1)"
    using shell_words_append [OF c0 shell_words_append [OF builtin_flags [OF assms(1)] assms(3)]] c0 by (auto simp: c1_def x1_def)
  have c2: "shell_words None (if agentArgs \<noteq> [] then c1 @ '' '' @ agentArgs else c1) = Some ((map (with_prompt prompt) ws @ x1) @ as)"
    using shell_words_append [OF c1 assms(4)] c1 assms(4) by auto
  have "BuildAgentCommand def model prompt agentArgs passthrough True
      = foldl (\<lambda>cmd arg. cmd @ '' '' @ arg) (if agentArgs \<noteq> [] then c1 @ '' '' @ agentArgs else c1) passthrough"
    using assms(2) by (simp add: BuildAgentCommand_def c1_def Let_def)
  then show ?thesis using ws words_of_args [OF assms(5) c2] by (simp add: x1_def)
qed

theorem headless_prompt_is_one_word_witness:
  "shell_words None (BuildAgentCommand claude_agent ''opus'' (''a$(b) '' @ [CHR 34]) [] [''--max-turns 5''] True)
   = Some [''claude'', ''-p'', ''a$(b) '' @ [CHR 34], ''--dangerously-skip-permissions'', ''--model'', ''opus'', ''--max-turns'', ''5'']"
proof -
  have "(''claude'', claude_agent) \<in> set (builtin_agents C plugin)" for C plugin
    by (simp add: builtin_agents_def agent_table_def Let_def)
  moreover have m: "shell_words None ''opus'' = Some [''opus'']" by code_simp
  moreover have n: "shell_words None [] = Some []" by simp
  moreover have p: "list_all2 (\<lambda>a ws. shell_words None a = Some ws) [''--max-turns 5''] [[''--max-turns'', ''5'']]"
    unfolding list_all2_Cons list_all2_Nil by code_simp
  moreover have "''a$(b) '' @ [CHR 34] \<noteq> []" by simp
  ultimately have "\<exists>ws. shell_words None (ag_HeadlessCmd claude_agent) = Some ws
      \<and> shell_words None (BuildAgentCommand claude_agent ''opus'' (''a$(b) '' @ [CHR 34]) [] [''--max-turns 5''] True)
        = Some (map (with_prompt (''a$(b) '' @ [CHR 34])) ws
            @ (if ''opus'' \<noteq> [] \<and> ag_ModelFlag claude_agent \<noteq> [] then ag_ModelFlag claude_agent # [''opus''] else [])
            @ [] @ concat [[''--max-turns'', ''5'']])"
    by (intro headless_prompt_is_one_word)
  moreover have "shell_words None (ag_HeadlessCmd claude_agent) = Some [''claude'', ''-p'', ''PROMPT'', ''--dangerously-skip-permissions'']"
    by code_simp
  ultimately show ?thesis by (simp add: with_prompt_def claude_agent_def)
qed

text \<open>
  The arguments after \<open>--\<close> are joined without quotes, so what the user passed as one argument arrives as
  several, or starts another command.
\<close>

lemma passthrough_is_split:
  "shell_words None (BuildAgentCommand claude_agent [] [] [] [''--append-system-prompt'', ''be brief''] False)
     = Some [''claude'', ''--dangerously-skip-permissions'', ''--append-system-prompt'', ''be'', ''brief'']"
  "BuildAgentCommand claude_agent [] [] [] [''-p'', ''x; rm -rf .''] False = ''claude --dangerously-skip-permissions -p x; rm -rf .''"
  by code_simp+

section \<open>Tunnel names\<close>

definition tunnel_char :: "char \<Rightarrow> bool" where
  "tunnel_char c \<longleftrightarrow> is_digit c \<or> is_lower c \<or> c = CHR ''-''"

lemma hyphenated_char: "is_alnum c \<or> is_sep c \<Longrightarrow> tunnel_char (hyphenate (to_lower_char c))"
  by (auto simp: tunnel_char_def hyphenate_def is_sep_def char_class of_char_to_lower to_lower_char_def)

lemma hyphenate_alnum: "is_alnum c \<Longrightarrow> hyphenate (to_lower_char c) \<noteq> CHR ''-''"
proof
  assume a: "is_alnum c" and h: "hyphenate (to_lower_char c) = CHR ''-''"
  have "is_alnum (to_lower_char c)" using a by simp
  then have "to_lower_char c \<notin> {CHR ''_'', CHR ''.'', CHR ''-''}" by (auto simp: char_class)
  with h show False by (auto simp: hyphenate_def split: if_splits)
qed

lemma TrimRight_props:
  "set (TrimRight s c) \<subseteq> set s" "length (TrimRight s c) \<le> length s"
  "TrimRight s c \<noteq> [] \<Longrightarrow> last (TrimRight s c) \<noteq> c"
  "s \<noteq> [] \<Longrightarrow> hd s \<noteq> c \<Longrightarrow> TrimRight s c \<noteq> [] \<and> hd (TrimRight s c) = hd s"
proof -
  show "set (TrimRight s c) \<subseteq> set s" by (auto simp: TrimRight_def dest: set_dropWhileD)
  show "length (TrimRight s c) \<le> length s" using length_dropWhile_le [of "\<lambda>x. x = c" "rev s"] by (simp add: TrimRight_def)
  show "last (TrimRight s c) \<noteq> c" if "TrimRight s c \<noteq> []"
    using that hd_dropWhile [of "\<lambda>x. x = c" "rev s"] by (simp add: TrimRight_def last_rev)
  show "TrimRight s c \<noteq> [] \<and> hd (TrimRight s c) = hd s" if s: "s \<noteq> []" "hd s \<noteq> c"
  proof -
    obtain x xs where x: "s = x # xs" "x \<noteq> c" using s by (cases s) auto
    have "dropWhile (\<lambda>x. x = c) (rev xs @ [x]) = dropWhile (\<lambda>x. x = c) (rev xs) @ [x]"
      using x(2) by (induction xs rule: rev_induct) auto
    then show ?thesis using x(1) by (simp add: TrimRight_def)
  qed
qed

text \<open>
  C37: the tunnel name of a sandbox is one that VS Code accepts. For every name that parses, it has 3 to 20
  characters, all of them lower-case letters, digits or hyphens, and does not begin or end with a hyphen.
\<close>

theorem tunnel_name_is_valid:
  assumes "ParseSandboxName name = Inr n"
  shows "3 \<le> length (SanitizeTunnelName n) \<and> length (SanitizeTunnelName n) \<le> 20
    \<and> list_all tunnel_char (SanitizeTunnelName n)
    \<and> hd (SanitizeTunnelName n) \<noteq> CHR ''-'' \<and> last (SanitizeTunnelName n) \<noteq> CHR ''-''"
proof -
  from assms have a: "name_automaton False n" by (simp add: ParseSandboxName_Inr sandboxNameRe_def)
  define m where "m = take 20 (map hyphenate (ToLower n))"
  define t where "t = TrimRight m (CHR ''-'')"
  have eq: "SanitizeTunnelName n = t @ replicate (3 - length t) (CHR ''x'')"
    by (simp add: SanitizeTunnelName_def t_def m_def Let_def)
  from automaton_False_hd [OF a] obtain x xs where x: "n = x # xs" "is_alnum x" by (cases n) auto
  have m: "m \<noteq> []" "hd m \<noteq> CHR ''-''" using x hyphenate_alnum [OF x(2)] by (simp_all add: m_def)
  note t = TrimRight_props(4) [OF m] TrimRight_props(3) [of m "CHR ''-''"]
  have tne: "t \<noteq> []" "hd t \<noteq> CHR ''-''" "last t \<noteq> CHR ''-''" using t m(2) by (auto simp: t_def)
  have "c \<in> set m \<Longrightarrow> tunnel_char c" for c
    using automaton_chars [OF a] hyphenated_char by (auto simp: m_def ToLower_def dest!: in_set_takeD)
  then have chars: "list_all tunnel_char t" using TrimRight_props(1) [of m "CHR ''-''"] by (auto simp: t_def list_all_iff)
  have len: "length t \<le> 20" using TrimRight_props(2) [of m "CHR ''-''"] by (simp add: t_def m_def)
  have x_ok: "tunnel_char (CHR ''x'')" by (simp add: tunnel_char_def char_class)
  show ?thesis unfolding eq using tne chars len x_ok
    by (auto simp: list_all_iff last_append)
qed

theorem tunnel_name_is_valid_witness:
  "length (SanitizeTunnelName ''My_sandbox.with-a-long.name'') \<le> 20 \<and> SanitizeTunnelName ''My_sandbox.with-a-long.name'' = ''my-sandbox-with-a-lo''"
proof -
  have "ParseSandboxName ''My_sandbox.with-a-long.name'' = Inr ''My_sandbox.with-a-long.name''" by code_simp
  from tunnel_name_is_valid [OF this] show ?thesis by (auto) code_simp
qed

section \<open>Model prefixes\<close>

text \<open>
  With both variables of aider set, the model that is used depends on the order in which the map is
  visited; when the triggered prefixes agree it does not.
\<close>

lemma model_prefix_depends_on_order:
  "ApplyModelPrefix (ag_ModelPrefixes aider_agent) aider_agent ''m'' Map.empty \<lparr>vars = [''OLLAMA_API_BASE'' \<mapsto> ''x'', ''OPENAI_API_BASE'' \<mapsto> ''y''], homeDir = ''/h''\<rparr>
     = ''ollama_chat/m''"
  "ApplyModelPrefix (rev (ag_ModelPrefixes aider_agent)) aider_agent ''m'' Map.empty \<lparr>vars = [''OLLAMA_API_BASE'' \<mapsto> ''x'', ''OPENAI_API_BASE'' \<mapsto> ''y''], homeDir = ''/h''\<rparr>
     = ''openai/m''"
  by code_simp+

lemma first_trigger_order:
  assumes "\<And>k p k' p'. (k, p) \<in> set ps \<Longrightarrow> (k', p') \<in> set ps \<Longrightarrow> has_value host k \<or> has_value cfg k \<Longrightarrow>
      has_value host k' \<or> has_value cfg k' \<Longrightarrow> p = p'" and "(k, p) \<in> set ps" "has_value host k \<or> has_value cfg k"
  shows "first_trigger ps host cfg m = p @ m"
  using assms
proof (induction ps)
  case (Cons x ps)
  obtain kx px where x: "x = (kx, px)" by force
  show ?case
  proof (cases "has_value host kx \<or> has_value cfg kx")
    case True
    then have "px = p" using Cons.prems(1) [of kx px k p] Cons.prems(2,3) by (simp add: x)
    then show ?thesis using True by (simp add: x)
  next
    case False
    then have "(k, p) \<in> set ps" using Cons.prems(2,3) by (auto simp: x)
    then have "first_trigger ps host cfg m = p @ m" using Cons.IH Cons.prems(1,3) by (meson list.set_intros(2))
    then show ?thesis using False by (simp add: x)
  qed
qed simp

end
