(* ===== verification/CopyTree.thy ===== *)
theory CopyTree
  imports HostFS Status
begin

text \<open>
  Producing the work copy of a directory: \<open>internal/workspace/copy.go\<close>, \<open>copy_gitignore.go\<close>,
  \<open>projectfiles.go\<close> and \<open>internal/orchestrator/workcopy/workcopy.go\<close>.

  The host is that of \<open>HostFS\<close>; the agent can have written anything into the work copy, links included. The
  source is the tree the walk finds.
\<close>

section \<open>The source\<close>

datatype tree = TFile string | TLink string | TDir "(string \<times> tree) list"

section \<open>What is left out of a copy\<close>

definition is_tdir :: "tree \<Rightarrow> bool" where
  "is_tdir t = (case t of TDir _ \<Rightarrow> True | _ \<Rightarrow> False)"

fun tree_at :: "tree \<Rightarrow> fpath \<Rightarrow> tree option" where
  "tree_at t [] = Some t"
| "tree_at (TDir es) (n # p) = (case map_of es n of None \<Rightarrow> None | Some t \<Rightarrow> tree_at t p)"
| "tree_at t (n # p) = None"

fun node_of :: "tree \<Rightarrow> hnode" where
  "node_of (TFile d) = HFile d"
| "node_of (TLink l) = HLink l"
| "node_of (TDir es) = HDir"

definition isBugreportFile :: "string \<Rightarrow> bool" where
  "isBugreportFile name =
     (if \<not> HasPrefix name ''yoloai-bugreport-'' then False
      else HasSuffix name ''.md'' \<or> HasSuffix name ''.md.tmp'')"

definition matchesPattern :: "string \<Rightarrow> string \<Rightarrow> bool" where
  "matchesPattern component pat =
     (if pat = ''*'' then True
      else if \<not> Contains pat ''*'' then component = pat
      else if HasPrefix pat ''*.'' then HasSuffix component (drop 1 pat)
      else False)"

definition matchesNestedPattern :: "string list \<Rightarrow> string \<Rightarrow> bool" where
  "matchesNestedPattern parts pat =
     (let pp = split_slash pat in
      if length pp > length parts then False
      else list_ex (\<lambda>i. list_all (\<lambda>j. matchesPattern (parts ! (i + j)) (pp ! j)) [0..<length pp])
             [0..<length parts - length pp + 1])"

definition isBuildArtifact :: "fpath \<Rightarrow> bool" where
  "isBuildArtifact parts \<longleftrightarrow>
     list_ex (\<lambda>part. part = ''.build'' \<or> part = ''DerivedData'' \<or> part = ''node_modules'' \<or> part = ''__pycache__'') parts
     \<or> matchesNestedPattern parts ''*.xcworkspace/xcuserdata''
     \<or> matchesNestedPattern parts ''*.xcodeproj/xcuserdata''"

definition base_of :: "fpath \<Rightarrow> string" where
  "base_of rel = (if rel = [] then ''.'' else last rel)"

section \<open>Walking\<close>

text \<open>
  \<open>filepath.WalkDir\<close>: the entry, then its children in the order of the directory unless the function
  answers \<open>SkipDir\<close>, which is the result True.
\<close>

fun WalkDir :: "(fpath \<Rightarrow> tree \<Rightarrow> ('s, bool) prog) \<Rightarrow> fpath \<Rightarrow> tree \<Rightarrow> ('s, unit) prog"
  and walk_entries :: "(fpath \<Rightarrow> tree \<Rightarrow> ('s, bool) prog) \<Rightarrow> fpath \<Rightarrow> (string \<times> tree) list \<Rightarrow> ('s, unit) prog" where
  "WalkDir f rel (TFile d) = p_seq (f rel (TFile d)) (p_ret ())"
| "WalkDir f rel (TLink l) = p_seq (f rel (TLink l)) (p_ret ())"
| "WalkDir f rel (TDir es) = p_bind (f rel (TDir es)) (\<lambda>skip. if skip then p_ret () else walk_entries f rel es)"
| "walk_entries f rel [] = p_ret ()"
| "walk_entries f rel ((n, t) # es) = p_seq (WalkDir f (rel @ [n]) t) (walk_entries f rel es)"

section \<open>Copying a directory\<close>

definition copyFile :: "faults \<Rightarrow> string \<Rightarrow> fpath \<Rightarrow> (hfs, unit) prog" where
  "copyFile E d dst = open_trunc E dst d"

definition copySymlink :: "faults \<Rightarrow> string \<Rightarrow> fpath \<Rightarrow> (hfs, unit) prog" where
  "copySymlink E l target = os_symlink E l target"

definition copyDirEntry :: "faults \<Rightarrow> fpath \<Rightarrow> fpath \<Rightarrow> tree \<Rightarrow> (hfs, bool) prog" where
  "copyDirEntry E dst rel t =
     (if \<not> is_tdir t \<and> isBugreportFile (base_of rel) then p_ret False
      else if isBuildArtifact rel then p_ret (is_tdir t)
      else case t of
          TLink l \<Rightarrow> p_seq (copySymlink E l (dst @ rel)) (p_ret False)
        | TDir es \<Rightarrow> p_seq (mkdir_all E (dst @ rel)) (p_ret False)
        | TFile d \<Rightarrow> p_seq (copyFile E d (dst @ rel)) (p_ret False))"

definition copyDirWalk :: "faults \<Rightarrow> tree \<Rightarrow> fpath \<Rightarrow> (hfs, unit) prog" where
  "copyDirWalk E src dst = p_seq (p_ctx ''create destination'' (mkdir_all E dst)) (WalkDir (copyDirEntry E dst) [] src)"

definition removeBugreportFiles :: "faults \<Rightarrow> fpath \<Rightarrow> (hfs, unit) prog" where
  "removeBugreportFiles E root = remove_below E root (\<lambda>rel n. n \<noteq> HDir \<and> isBugreportFile (base_of rel))"

text \<open>An artifact directory goes with all that is in it.\<close>

definition removeBuildArtifacts :: "faults \<Rightarrow> fpath \<Rightarrow> (hfs, unit) prog" where
  "removeBuildArtifacts E root =
     remove_below E root (\<lambda>rel _. list_ex (\<lambda>k. isBuildArtifact (take k rel)) [0..<Suc (length rel)])"

text \<open>
  \<open>cloneDir\<close>: on macOS the call \<open>clonefile\<close>, which creates the whole tree at once and refuses an existing
  destination; elsewhere always an error.
\<close>

definition cloneDir :: "faults \<Rightarrow> bool \<Rightarrow> tree \<Rightarrow> fpath \<Rightarrow> (hfs, unit) prog" where
  "cloneDir E macos src dst =
     (if \<not> macos then p_fail (errorf ''not supported'')
      else p_seq (op_ok E (FClone dst)) (\<lambda>fs. case entry_of fs dst of
          None \<Rightarrow> (Inl not_exist, fs)
        | Some e \<Rightarrow> (if host_node fs e \<noteq> None then (Inl (errorf ''file exists''), fs)
            else (Inr (), \<lambda>x. if take (length e) x = e then map_option node_of (tree_at src (drop (length e) x)) else fs x))))"

definition CopyDir :: "faults \<Rightarrow> bool \<Rightarrow> tree \<Rightarrow> fpath \<Rightarrow> (hfs, unit) prog" where
  "CopyDir E macos src dst =
     (if \<not> is_tdir src then p_fail (errorf ''source is not a directory'')
      else p_seq (p_ctx ''create parent'' (mkdir_all E (butlast dst)))
        (p_bind (p_try (cloneDir E macos src dst)) (\<lambda>r.
          if is_ok r then p_seq (removeBugreportFiles E dst) (removeBuildArtifacts E dst)
          else copyDirWalk E src dst)))"

section \<open>Git links\<close>

definition IsGitLink :: "tree \<Rightarrow> bool" where
  "IsGitLink src = (case tree_at src [''.git''] of Some t \<Rightarrow> \<not> is_tdir t | None \<Rightarrow> False)"

definition RemoveGitLink :: "faults \<Rightarrow> fpath \<Rightarrow> (hfs, bool) prog" where
  "RemoveGitLink E dir = (\<lambda>fs. case Lstat fs (dir @ [''.git'']) of
       None \<Rightarrow> (Inr False, fs)
     | Some HDir \<Rightarrow> (Inr False, fs)
     | Some _ \<Rightarrow> p_seq (p_ctx ''remove git link'' (remove_file E (dir @ [''.git'']))) (p_ret True) fs)"

text \<open>The walk looks at the name of the root too.\<close>

definition RemoveGitDirs :: "faults \<Rightarrow> fpath \<Rightarrow> (hfs, unit) prog" where
  "RemoveGitDirs E root = remove_below E root (\<lambda>rel _. ''.git'' \<in> set (base_of root # rel))"

section \<open>Copying a project\<close>

text \<open>What \<open>git.ListProjectFiles\<close> answers: relative paths and whether the source is in a work tree.\<close>

type_synonym listing = "(gerror, fpath list \<times> bool) result"

text \<open>
  \<open>os.Lstat\<close> of a path below the source. A listed path need not be there any more: what is missing is
  \<open>fs.ErrNotExist\<close>, a path that goes on below a file is another error, and a path that goes on below
  a symbolic link is looked up on the host, where \<open>beyond\<close> tells what is found. That answer is taken not
  to change during the copy.
\<close>

type_synonym beyond = "fpath \<Rightarrow> (gerror, tree) result"

fun lstat_from :: "beyond \<Rightarrow> fpath \<Rightarrow> tree \<Rightarrow> fpath \<Rightarrow> (gerror, tree) result" where
  "lstat_from B rel t [] = Inr t"
| "lstat_from B rel (TDir es) (n # p) = (case map_of es n of None \<Rightarrow> Inl not_exist | Some t \<Rightarrow> lstat_from B rel t p)"
| "lstat_from B rel (TFile d) (n # p) = Inl (errorf ''not a directory'')"
| "lstat_from B rel (TLink l) (n # p) = B rel"

definition lstat_source :: "beyond \<Rightarrow> tree \<Rightarrow> fpath \<Rightarrow> (gerror, tree) result" where
  "lstat_source B src rel = lstat_from B rel src rel"

definition copyListed :: "faults \<Rightarrow> beyond \<Rightarrow> tree \<Rightarrow> fpath \<Rightarrow> fpath \<Rightarrow> (hfs, unit) prog" where
  "copyListed E B src dst rel =
     (if isBugreportFile (base_of rel) \<or> isBuildArtifact rel then p_ret ()
      else case lstat_source B src rel of
          Inl e \<Rightarrow> if kind_of e = ErrNotExist then p_ret () else p_fail (wrap ''stat'' e)
        | Inr t \<Rightarrow> p_seq (p_ctx ''create parent'' (mkdir_all E (butlast (dst @ rel))))
            (case t of TLink l \<Rightarrow> copySymlink E l (dst @ rel)
             | TDir es \<Rightarrow> p_ret ()
             | TFile d \<Rightarrow> copyFile E d (dst @ rel)))"

definition copyFileList :: "faults \<Rightarrow> beyond \<Rightarrow> tree \<Rightarrow> fpath \<Rightarrow> fpath list \<Rightarrow> (hfs, unit) prog" where
  "copyFileList E B src dst files =
     p_seq (p_ctx ''create destination'' (mkdir_all E dst)) (p_each (copyListed E B src dst) files)"

definition copyGitDir :: "faults \<Rightarrow> bool \<Rightarrow> tree \<Rightarrow> fpath \<Rightarrow> (hfs, unit) prog" where
  "copyGitDir E macos src dst = (case tree_at src [''.git''] of
       None \<Rightarrow> p_ret ()
     | Some t \<Rightarrow> if \<not> is_tdir t then p_ret () else p_ctx ''copy .git'' (CopyDir E macos t (dst @ [''.git''])))"

definition copyProjectContent :: "faults \<Rightarrow> bool \<Rightarrow> beyond \<Rightarrow> tree \<Rightarrow> fpath \<Rightarrow> bool \<Rightarrow> bool \<Rightarrow> listing \<Rightarrow> (hfs, unit) prog" where
  "copyProjectContent E macos B src dst includeIgnored preserveGit listed =
     (if includeIgnored then CopyDir E macos src dst
      else p_bind (p_lift listed) (\<lambda>(files, isRepo).
        if \<not> isRepo then CopyDir E macos src dst
        else p_seq (copyFileList E B src dst files) (if preserveGit then copyGitDir E macos src dst else p_ret ())))"

definition CopyProjectDir :: "faults \<Rightarrow> bool \<Rightarrow> beyond \<Rightarrow> tree \<Rightarrow> fpath \<Rightarrow> bool \<Rightarrow> bool \<Rightarrow> listing \<Rightarrow> (hfs, unit) prog" where
  "CopyProjectDir E macos B src dst includeIgnored preserveGit listed =
     p_seq (copyProjectContent E macos B src dst includeIgnored preserveGit listed)
       (p_seq (RemoveGitLink E dst) (p_ret ()))"

section \<open>The file set of a project\<close>

definition walkProjectFiles :: "tree \<Rightarrow> (gerror, fpath list) result" where
  "walkProjectFiles src =
     (case WalkDir (\<lambda>rel t out.
        if rel = [] then (Inr False, out)
        else if rel = [''.git''] then (Inr (is_tdir t), out)
        else if \<not> is_tdir t \<and> isBugreportFile (base_of rel) then (Inr False, out)
        else if isBuildArtifact rel then (Inr (is_tdir t), out)
        else (Inr False, out @ [rel])) [] src [] of
       (Inl e, _) \<Rightarrow> Inl e
     | (Inr _, out) \<Rightarrow> Inr out)"

fun listedProjectFiles :: "beyond \<Rightarrow> tree \<Rightarrow> fpath list \<Rightarrow> (gerror, fpath list) result" where
  "listedProjectFiles B src [] = Inr []"
| "listedProjectFiles B src (rel # rels) =
     (if isBugreportFile (base_of rel) \<or> isBuildArtifact rel then listedProjectFiles B src rels
      else case lstat_source B src rel of
          Inl e \<Rightarrow> if kind_of e = ErrNotExist then listedProjectFiles B src rels else Inl (wrap ''stat'' e)
        | Inr t \<Rightarrow> if is_tdir t then listedProjectFiles B src rels
            else (case listedProjectFiles B src rels of Inl e \<Rightarrow> Inl e | Inr out \<Rightarrow> Inr (rel # out)))"

definition ProjectFileSet :: "beyond \<Rightarrow> tree \<Rightarrow> bool \<Rightarrow> listing \<Rightarrow> (gerror, fpath list) result" where
  "ProjectFileSet B src includeIgnored listed =
     (if includeIgnored then walkProjectFiles src
      else case listed of
          Inl e \<Rightarrow> Inl e
        | Inr (files, isRepo) \<Rightarrow> if \<not> isRepo then walkProjectFiles src else listedProjectFiles B src files)"

text \<open>A path and its ancestors are added until one is met that is there already.\<close>

function add_path :: "fpath set \<Rightarrow> fpath \<Rightarrow> fpath set" where
  "add_path keep p = (if p = [] \<or> p \<in> keep then keep else add_path (insert p keep) (butlast p))"
  by pat_completeness auto
termination
  by (relation "measure (\<lambda>(_, p). length p)") auto

declare add_path.simps [simp del]

definition pathsWithAncestors :: "fpath list \<Rightarrow> fpath set" where
  "pathsWithAncestors files = foldl add_path {} files"

text \<open>An entry that is not kept goes with all below it; the top-level \<open>.git\<close> is not visited.\<close>

definition PruneToFileSet :: "faults \<Rightarrow> fpath \<Rightarrow> fpath list \<Rightarrow> (hfs, unit) prog" where
  "PruneToFileSet E dst files =
     (let keep = pathsWithAncestors files in
      remove_below E dst (\<lambda>rel _. rel \<noteq> [] \<and> hd rel \<noteq> ''.git''
        \<and> list_ex (\<lambda>k. take (Suc k) rel \<notin> keep) [0..<length rel]))"

definition WantsGitDir :: "bool \<Rightarrow> bool \<Rightarrow> bool" where
  "WantsGitDir includeIgnored preserveGit \<longleftrightarrow> includeIgnored \<or> preserveGit"

section \<open>Bringing the work copy in line\<close>

datatype Strategy = WipeAndCopy | InPlaceAndPrune

record Spec =
  Src :: tree
  sp_Beyond :: beyond
  sp_IncludeIgnored :: bool
  sp_StripHistory :: bool

definition bringDestinationInLine :: "faults \<Rightarrow> bool \<Rightarrow> Spec \<Rightarrow> fpath \<Rightarrow> Strategy \<Rightarrow> bool \<Rightarrow> listing \<Rightarrow> (hfs, unit) prog" where
  "bringDestinationInLine E macos sp dst strategy preserveGit listed = (case strategy of
       WipeAndCopy \<Rightarrow>
         p_seq (p_ctx ''clear work copy'' (remove_all E dst))
           (p_ctx ''copy'' (CopyProjectDir E macos (sp_Beyond sp) (Src sp) dst (sp_IncludeIgnored sp) preserveGit listed))
     | InPlaceAndPrune \<Rightarrow>
         p_bind (p_ctx ''enumerate project files'' (p_lift (ProjectFileSet (sp_Beyond sp) (Src sp) (sp_IncludeIgnored sp) listed))) (\<lambda>files.
         p_seq (p_ctx ''remove work copy .git'' (remove_all E (dst @ [''.git''])))
         (p_seq (p_ctx ''copy'' (CopyProjectDir E macos (sp_Beyond sp) (Src sp) dst (sp_IncludeIgnored sp) preserveGit listed))
           (p_ctx ''prune work copy'' (PruneToFileSet E dst files)))))"

section \<open>Names in the source\<close>

text \<open>A source as a directory walk finds it: names are distinct and none is a dot.\<close>

fun wf_tree :: "tree \<Rightarrow> bool" and wf_entries :: "(string \<times> tree) list \<Rightarrow> bool" where
  "wf_tree (TFile d) = True"
| "wf_tree (TLink l) = True"
| "wf_tree (TDir es) = wf_entries es"
| "wf_entries [] = True"
| "wf_entries ((n, t) # es) \<longleftrightarrow> plain_name n \<and> n \<notin> fst ` set es \<and> wf_tree t \<and> wf_entries es"

lemma wf_entries_member: "wf_entries es \<Longrightarrow> map_of es n = Some t \<Longrightarrow> plain_name n \<and> wf_tree t"
  by (induction es) (auto split: if_splits)

lemma tree_at_wf: "wf_tree t \<Longrightarrow> tree_at t p = Some u \<Longrightarrow> list_all plain_name p \<and> wf_tree u"
  by (induction t p rule: tree_at.induct) (auto split: option.splits dest: wf_entries_member)

lemma tree_at_append: "tree_at t (p @ q) = (case tree_at t p of None \<Rightarrow> None | Some u \<Rightarrow> tree_at u q)"
  by (induction t p rule: tree_at.induct) (auto split: option.splits)

lemma tree_at_prefix: "tree_at t (p @ q) \<noteq> None \<Longrightarrow> q \<noteq> [] \<Longrightarrow> \<exists>es. tree_at t p = Some (TDir es)"
  by (cases q; cases "tree_at t p"; cases "the (tree_at t p)") (auto simp: tree_at_append)

section \<open>Copying stays below the work copy\<close>

text \<open>Where a work copy is made: below real directories, from a source that is a directory.\<close>

definition site :: "fpath \<Rightarrow> tree \<Rightarrow> hfs \<Rightarrow> bool" where
  "site D src fs \<longleftrightarrow> D \<noteq> [] \<and> list_all plain_name D \<and> real_dir fs (butlast D) \<and> wf_tree src \<and> is_tdir src"

text \<open>Nothing outside has changed, and the links below are where the source has links.\<close>

definition held :: "fpath \<Rightarrow> tree \<Rightarrow> hfs \<Rightarrow> hfs \<Rightarrow> bool" where
  "held D src fs0 fs \<longleftrightarrow> (\<forall>x. \<not> below D x \<longrightarrow> fs x = fs0 x)
     \<and> (\<forall>rel l. fs (D @ rel) = Some (HLink l) \<longrightarrow> (\<exists>l'. tree_at src rel = Some (TLink l')))"

lemma site_snoc: "site D src fs \<Longrightarrow> \<exists>P c. D = P @ [c] \<and> plain_name c \<and> real_dir fs P"
  by (cases D rule: rev_cases) (auto simp: site_def)

lemma held_parent: "site D src fs0 \<Longrightarrow> held D src fs0 fs \<Longrightarrow> real_dir fs (butlast D)"
  by (auto simp: site_def real_dir_def held_def below_longer)

lemma held_root: "site D src fs0 \<Longrightarrow> held D src fs0 fs \<Longrightarrow> unlinked fs D"
  using held_parent [of D src fs0 fs] site_snoc [of D src fs0]
  by (auto simp: unlinked_snoc real_dir_unlinked)
    (auto simp: held_def site_def is_tdir_def dest: spec [of _ "[]"] split: tree.splits)

lemma held_unlinked:
  assumes s: "site D src fs0" and h: "held D src fs0 fs" and t: "tree_at src rel = Some t" "\<And>l. t \<noteq> TLink l"
  shows "unlinked fs (D @ rel)"
  using t
proof (induction rel arbitrary: t rule: rev_induct)
  case Nil
  then show ?case using held_root [OF s h] by simp
next
  case (snoc c rel)
  from tree_at_prefix [of src rel "[c]"] snoc.prems(1) obtain es where d: "tree_at src rel = Some (TDir es)" by auto
  have "plain_name c" using tree_at_wf [OF _ snoc.prems(1)] s by (auto simp: site_def)
  moreover have "fs (D @ rel @ [c]) \<noteq> Some (HLink l)" for l
  proof
    assume "fs (D @ rel @ [c]) = Some (HLink l)"
    with h obtain l' where "tree_at src (rel @ [c]) = Some (TLink l')" unfolding held_def by blast
    with snoc.prems(1) snoc.prems(2) [of l'] show False by simp
  qed
  ultimately show ?case using snoc.IH [OF d] unlinked_snoc [of fs "D @ rel" c] by simp
qed

lemma held_above: "site D src fs0 \<Longrightarrow> held D src fs0 fs \<Longrightarrow> tree_at src (rel @ [c]) \<noteq> None \<Longrightarrow> unlinked fs (D @ rel)"
  using held_unlinked [of D src fs0 fs rel] tree_at_prefix [of src rel "[c]"] by auto

lemma held_set:
  "held D src fs0 fs \<Longrightarrow> (\<And>l. n \<noteq> HLink l) \<Longrightarrow> held D src fs0 (fs(D @ rel \<mapsto> n))"
  by (auto simp: held_def)

lemma held_set_link:
  "held D src fs0 fs \<Longrightarrow> tree_at src rel = Some (TLink l) \<Longrightarrow> held D src fs0 (fs(D @ rel \<mapsto> HLink k))"
  by (auto simp: held_def)

lemma held_less: "held D src fs0 fs \<Longrightarrow> (\<And>x. fs' x = fs x \<or> below D x \<and> fs' x = None) \<Longrightarrow> held D src fs0 fs'"
  unfolding held_def by (metis option.distinct(1))

lemma keeps_open:
  assumes s: "site D src fs0" and t: "tree_at src rel = Some (TFile d')"
  shows "pkeeps (held D src fs0) (open_trunc E (D @ rel) d)"
  unfolding open_trunc_def
proof (rule pkeeps_seq [OF pkeeps_op_ok], unfold pkeeps_def, intro allI impI)
  fix fs assume h: "held D src fs0 fs"
  have "resolve_at link_limit fs [] (D @ rel) \<in> {None, Some (D @ rel)}"
    by (rule resolve_unlinked [OF held_unlinked [OF s h t]]) simp
  then show "held D src fs0 (snd (case resolve_at link_limit fs [] (D @ rel) of
       None \<Rightarrow> (Inl not_exist, fs)
     | Some q \<Rightarrow> (if host_node fs q = Some HDir then (Inl (errorf ''is a directory''), fs)
         else case E (FWrite (D @ rel)) of
             Some e \<Rightarrow> (Inl e, fs(q \<mapsto> HFile []))
           | None \<Rightarrow> (Inr (), fs(q \<mapsto> HFile d)))))"
    using h by (auto intro!: held_set split: option.splits)
qed

lemma keeps_host_mkdir:
  assumes s: "site D src fs0" and c: "tree_at src (rel @ [c]) \<noteq> None"
  shows "pkeeps (held D src fs0) (host_mkdir E (D @ rel @ [c]))"
  unfolding host_mkdir_def
proof (rule pkeeps_seq [OF pkeeps_op_ok], unfold pkeeps_def, intro allI impI)
  fix fs assume h: "held D src fs0 fs"
  from entry_of_unlinked [OF held_above [OF s h c]]
  have "entry_of fs (D @ rel @ [c]) \<in> {None, Some (D @ rel @ [c])}" by simp
  then show "held D src fs0 (snd (case entry_of fs (D @ rel @ [c]) of None \<Rightarrow> (Inl not_exist, fs)
     | Some e \<Rightarrow> (case host_node fs e of None \<Rightarrow> (Inr (), fs(e \<mapsto> HDir)) | Some HDir \<Rightarrow> (Inr (), fs)
       | Some _ \<Rightarrow> (Inl (errorf ''file exists''), fs))))"
    using h by (auto intro!: held_set split: option.splits hnode.splits)
qed

lemma keeps_mkdir_root:
  assumes s: "site D src fs0"
  shows "pkeeps (held D src fs0) (mkdir_all E D)"
  unfolding pkeeps_def
proof (intro allI impI)
  fix fs assume h: "held D src fs0 fs"
  obtain P c where D: "D = P @ [c]" using site_snoc [OF s] by auto
  have P: "mkdir_all E P fs = (Inr (), fs)" using mkdir_all_real [OF held_parent [OF s h]] D by simp
  have "pkeeps (held D src fs0) (host_mkdir E D)"
    unfolding host_mkdir_def
  proof (rule pkeeps_seq [OF pkeeps_op_ok], unfold pkeeps_def, intro allI impI)
    fix fs assume h: "held D src fs0 fs"
    have "entry_of fs D = Some D" using entry_of_child [of fs P c] held_parent [OF s h] D by simp
    then show "held D src fs0 (snd (case entry_of fs D of None \<Rightarrow> (Inl not_exist, fs)
       | Some e \<Rightarrow> (case host_node fs e of None \<Rightarrow> (Inr (), fs(e \<mapsto> HDir)) | Some HDir \<Rightarrow> (Inr (), fs)
         | Some _ \<Rightarrow> (Inl (errorf ''file exists''), fs))))"
      using h held_set [OF h, of HDir "[]"] by (auto split: option.splits hnode.splits)
  qed
  then have "held D src fs0 (snd (host_mkdir E D fs))" using h by (simp add: pkeeps_def)
  then show "held D src fs0 (snd (mkdir_all E D fs))" using h P D
    by (subst mkdir_all.simps) (simp add: p_seq_def p_bind_def split: option.splits hnode.splits)
qed

lemma keeps_mkdir:
  assumes s: "site D src fs0"
  shows "tree_at src rel = Some (TDir es) \<Longrightarrow> pkeeps (held D src fs0) (mkdir_all E (D @ rel))"
proof (induction rel arbitrary: es rule: rev_induct)
  case Nil
  then show ?case using keeps_mkdir_root [OF s] by simp
next
  case (snoc c rel)
  from tree_at_prefix [of src rel "[c]"] snoc.prems obtain es' where d: "tree_at src rel = Some (TDir es')" by auto
  have k: "pkeeps (held D src fs0) (p_seq (mkdir_all E (D @ rel)) (host_mkdir E (D @ rel @ [c])))"
    by (rule pkeeps_seq [OF snoc.IH [OF d] keeps_host_mkdir [OF s]]) (use snoc.prems in simp)
  show ?case unfolding pkeeps_def
  proof (intro allI impI)
    fix fs assume h: "held D src fs0 fs"
    then show "held D src fs0 (snd (mkdir_all E (D @ rel @ [c]) fs))" using k
      by (subst mkdir_all.simps) (auto simp: pkeeps_def butlast_append split: option.splits hnode.splits)
  qed
qed

lemma keeps_symlink:
  assumes s: "site D src fs0" and t: "tree_at src rel = Some (TLink l)"
  shows "pkeeps (held D src fs0) (os_symlink E k (D @ rel))"
  unfolding os_symlink_def
proof (rule pkeeps_seq [OF pkeeps_op_ok], unfold pkeeps_def, intro allI impI)
  fix fs assume h: "held D src fs0 fs"
  obtain q c where rel: "rel = q @ [c]" using s t by (cases rel rule: rev_cases) (auto simp: site_def is_tdir_def)
  from entry_of_unlinked [OF held_above [OF s h, of q c]] t rel
  have "entry_of fs (D @ rel) \<in> {None, Some (D @ rel)}" by simp
  then show "held D src fs0 (snd (case entry_of fs (D @ rel) of None \<Rightarrow> (Inl not_exist, fs)
     | Some e \<Rightarrow> (case host_node fs e of None \<Rightarrow> (Inr (), fs(e \<mapsto> HLink k))
       | Some _ \<Rightarrow> (Inl (errorf ''file exists''), fs))))"
    using h by (auto intro!: held_set_link [OF _ t] split: option.splits)
qed

lemma src_root: "site D src fs0 \<Longrightarrow> \<exists>es. tree_at src [] = Some (TDir es)"
  by (auto simp: site_def is_tdir_def split: tree.splits)

lemma held_entry:
  assumes s: "site D src fs0" and h: "held D src fs0 fs" and t: "tree_at src (butlast rel) = Some (TDir es)"
  shows "entry_of fs (D @ rel) \<in> {None, Some (D @ rel)}"
proof (cases rel rule: rev_cases)
  case Nil
  then show ?thesis using entry_of_child [OF held_parent [OF s h], of "last D"] s by (auto simp: site_def)
next
  case (snoc q c)
  then show ?thesis using entry_of_unlinked [OF held_unlinked [OF s h, of q "TDir es"], of c] t by simp
qed

lemma tree_at_parent: "site D src fs0 \<Longrightarrow> tree_at src rel \<noteq> None \<Longrightarrow> \<exists>es. tree_at src (butlast rel) = Some (TDir es)"
  using tree_at_prefix [of src "butlast rel" "[last rel]"] src_root by (cases "rel = []") auto

lemma keeps_remove_below:
  assumes s: "site D src fs0" and t: "tree_at src (butlast rel) = Some (TDir es)"
  shows "pkeeps (held D src fs0) (remove_below E (D @ rel) doomed)"
  unfolding pkeeps_def
proof (intro allI impI)
  fix fs assume h: "held D src fs0 fs"
  have k: "pkeeps (held D src fs0) (p_seq (op_ok E (FRemove (D @ rel))) (\<lambda>fs. (Inr (), \<lambda>x.
           if take (length (D @ rel)) x = D @ rel \<and> (case fs x of Some n \<Rightarrow> doomed (drop (length (D @ rel)) x) n | None \<Rightarrow> False)
           then None else fs x)))"
    by (rule pkeeps_seq [OF pkeeps_op_ok], unfold pkeeps_def, intro allI impI)
      (erule held_less, auto dest: below_app)
  from held_entry [OF s h t] show "held D src fs0 (snd (remove_below E (D @ rel) doomed fs))"
    using h pkeepsD [OF k, OF h] by (auto simp: remove_below_def)
qed

lemma keeps_remove_all:
  assumes s: "site D src fs0" and t: "tree_at src (butlast rel) = Some (TDir es)"
  shows "pkeeps (held D src fs0) (remove_all E (D @ rel))" "pkeeps (held D src fs0) (remove_file E (D @ rel))"
proof -
  have w: "held D src fs0 (without fs (D @ rel))" "held D src fs0 (fs(D @ rel := None))"
    if h: "held D src fs0 fs" for fs
    by (rule held_less [OF h], use below_app in \<open>auto simp: without_def\<close>)+
  show "pkeeps (held D src fs0) (remove_all E (D @ rel))"
    unfolding remove_all_def
  proof (rule pkeeps_guarded)
    fix fs assume h: "held D src fs0 fs"
    from held_entry [OF s h t]
    show "held D src fs0 (snd (case entry_of fs (D @ rel) of None \<Rightarrow> (Inr (), fs) | Some e \<Rightarrow> (Inr (), without fs e)))"
      using h w(1) [OF h] by auto
  qed
  show "pkeeps (held D src fs0) (remove_file E (D @ rel))"
    unfolding remove_file_def
  proof (rule pkeeps_guarded)
    fix fs assume h: "held D src fs0 fs"
    from held_entry [OF s h t]
    show "held D src fs0 (snd (case entry_of fs (D @ rel) of None \<Rightarrow> (Inl not_exist, fs)
       | Some e \<Rightarrow> if fs e = None then (Inl not_exist, fs) else (Inr (), fs(e := None))))"
      using h w(2) [OF h] by auto
  qed
qed

lemma keeps_graft:
  assumes s: "site D src fs0" and t: "tree_at src rel = Some u"
  shows "pkeeps (held D src fs0) (cloneDir E macos u (D @ rel))"
proof -
  obtain es where d: "tree_at src (butlast rel) = Some (TDir es)" using tree_at_parent [OF s] t by auto
  have g: "held D src fs0 (snd (case entry_of fs (D @ rel) of None \<Rightarrow> (Inl not_exist, fs)
       | Some e \<Rightarrow> (if host_node fs e \<noteq> None then (Inl (errorf ''file exists''), fs)
            else (Inr (), \<lambda>x. if take (length e) x = e then map_option node_of (tree_at u (drop (length e) x)) else fs x))))"
    if h: "held D src fs0 fs" for fs
  proof -
    let ?g = "\<lambda>x. if take (length (D @ rel)) x = D @ rel then map_option node_of (tree_at u (drop (length (D @ rel)) x)) else fs x"
    have g: "held D src fs0 ?g"
      unfolding held_def
    proof (intro conjI allI impI)
      fix x assume "\<not> below D x"
      then show "?g x = fs0 x" using h by (auto simp: held_def dest: below_app)
    next
      fix q l assume q: "?g (D @ q) = Some (HLink l)"
      show "\<exists>l'. tree_at src q = Some (TLink l')"
      proof (cases "below rel q")
        case True
        then obtain r where r: "q = rel @ r" by (elim belowE)
        with q obtain v where v: "tree_at u r = Some v" "node_of v = HLink l" by auto
        from v(2) have "v = TLink l" by (cases v) simp_all
        with v(1) have "tree_at u r = Some (TLink l)" by simp
        then show ?thesis using r t by (simp add: tree_at_append)
      next
        case False
        then have "fs (D @ q) = Some (HLink l)" using q by (simp add: below_def)
        then show ?thesis using h by (auto simp: held_def)
      qed
    qed
    then show ?thesis using held_entry [OF s h d] h by auto
  qed
  have "pkeeps (held D src fs0) (p_seq (op_ok E (FClone (D @ rel))) (\<lambda>fs. case entry_of fs (D @ rel) of
          None \<Rightarrow> (Inl not_exist, fs)
        | Some e \<Rightarrow> (if host_node fs e \<noteq> None then (Inl (errorf ''file exists''), fs)
            else (Inr (), \<lambda>x. if take (length e) x = e then map_option node_of (tree_at u (drop (length e) x)) else fs x))))"
    by (rule pkeeps_guarded) (rule g)
  then show ?thesis unfolding cloneDir_def by (simp add: pkeeps_basic)
qed

text \<open>A walk keeps what its function keeps on every entry of the tree.\<close>

lemma keeps_walk:
  "wf_tree t \<Longrightarrow> (\<And>q u. tree_at t q = Some u \<Longrightarrow> pkeeps I (f (rel @ q) u)) \<Longrightarrow> pkeeps I (WalkDir f rel t)"
  "wf_entries es \<Longrightarrow> (\<And>n q u. map_of es n \<noteq> None \<Longrightarrow> tree_at (TDir es) (n # q) = Some u \<Longrightarrow> pkeeps I (f (rel @ n # q) u)) \<Longrightarrow>
     pkeeps I (walk_entries f rel es)"
proof (induction f rel t and f rel es rule: WalkDir_walk_entries.induct)
  case (1 f rel d)
  then show ?case by (auto intro!: prog_keeps dest: meta_spec [of _ "[]"])
next
  case (2 f rel l)
  then show ?case by (auto intro!: prog_keeps dest: meta_spec [of _ "[]"])
next
  case (3 f rel es)
  have "pkeeps I (f rel (TDir es))" using 3(3) [of "[]"] by simp
  moreover have "pkeeps I (walk_entries f rel es)" if "\<not> skip" for skip
    by (rule 3(1) [OF that]) (use 3(2) 3(3) [of "_ # _"] in auto)
  ultimately show ?case by (auto intro!: prog_keeps)
next
  case (5 f rel n t es)
  have n: "n \<notin> fst ` set es" using 5(3) by simp
  have "pkeeps I (WalkDir f (rel @ [n]) t)"
    by (rule 5(1)) (use 5(3) 5(4) [of n] in auto)
  moreover have "pkeeps I (walk_entries f rel es)"
  proof (rule 5(2))
    fix m q u assume m: "map_of es m \<noteq> None" and u: "tree_at (TDir es) (m # q) = Some u"
    have "m \<noteq> n" using m n by (metis image_eqI map_of_eq_None_iff)
    then show "pkeeps I (f (rel @ m # q) u)" using 5(4) [of m q u] m u by simp
  qed (use 5(3) in simp)
  ultimately show ?case by (auto intro!: prog_keeps)
qed (auto intro: prog_keeps)

lemma keeps_mkdir_parent:
  assumes s: "site D src fs0" and t: "tree_at src (butlast rel) = Some (TDir es)"
  shows "pkeeps (held D src fs0) (mkdir_all E (butlast (D @ rel)))"
proof (cases "rel = []")
  case True
  then show ?thesis using held_parent [OF s] by (auto simp: pkeeps_def mkdir_all_real)
next
  case False
  then show ?thesis using keeps_mkdir [OF s t] by (simp add: butlast_append)
qed

lemma keeps_copyDirEntry:
  assumes s: "site D src fs0" and t: "tree_at src (rel0 @ rel) = Some u"
  shows "pkeeps (held D src fs0) (copyDirEntry E (D @ rel0) rel u)"
  using keeps_open [OF s] keeps_mkdir [OF s] keeps_symlink [OF s] t
  by (cases u) (auto simp: copyDirEntry_def copyFile_def copySymlink_def intro!: prog_keeps)

lemma keeps_CopyDir:
  assumes s: "site D src fs0" and t: "tree_at src rel = Some u"
  shows "pkeeps (held D src fs0) (CopyDir E macos u (D @ rel))"
proof -
  obtain es where d: "tree_at src (butlast rel) = Some (TDir es)" using tree_at_parent [OF s] t by auto
  have wf: "wf_tree u" using tree_at_wf [OF _ t] s by (simp add: site_def)
  have "pkeeps (held D src fs0) (WalkDir (copyDirEntry E (D @ rel)) [] u)"
    by (rule keeps_walk(1) [OF wf]) (use t in \<open>auto intro!: keeps_copyDirEntry [OF s] simp: tree_at_append\<close>)
  moreover have "pkeeps (held D src fs0) (mkdir_all E (D @ rel))" if "is_tdir u"
    using keeps_mkdir [OF s, of rel] t that by (cases u) (auto simp: is_tdir_def)
  ultimately show ?thesis
    unfolding CopyDir_def removeBugreportFiles_def removeBuildArtifacts_def copyDirWalk_def
    by (auto intro!: prog_keeps keeps_mkdir_parent [OF s d] keeps_graft [OF s t] keeps_remove_below [OF s d])
qed

text \<open>Whether a path goes on below a symbolic link of the source.\<close>

fun through_link :: "tree \<Rightarrow> fpath \<Rightarrow> bool" where
  "through_link t [] = False"
| "through_link (TDir es) (n # p) = (case map_of es n of None \<Rightarrow> False | Some t \<Rightarrow> through_link t p)"
| "through_link (TFile d) (n # p) = False"
| "through_link (TLink l) (n # p) = True"

lemma lstat_source_cases:
  assumes "\<not> through_link src rel"
  obtains (found) t where "tree_at src rel = Some t" "lstat_source B src rel = Inr t"
    | (missing) e where "tree_at src rel = None" "lstat_source B src rel = Inl e"
proof -
  have "\<not> through_link t p \<Longrightarrow> (case tree_at t p of Some u \<Rightarrow> lstat_from B rel t p = Inr u
      | None \<Rightarrow> \<exists>e. lstat_from B rel t p = Inl e)" for t p
    by (induction t p rule: tree_at.induct) (auto split: option.splits elim!: through_link.elims)
  from this [OF assms] that show thesis by (auto simp: lstat_source_def split: option.splits)
qed

lemma keeps_copyListed:
  assumes s: "site D src fs0" and n: "\<not> through_link src rel"
  shows "pkeeps (held D src fs0) (copyListed E B src D rel)"
  using n
proof (cases rule: lstat_source_cases [where B = B])
  case (found t)
  obtain es where d: "tree_at src (butlast rel) = Some (TDir es)" using tree_at_parent [OF s] found(1) by auto
  show ?thesis using keeps_open [OF s] keeps_symlink [OF s] found
    by (cases t) (auto simp: copyListed_def copyFile_def copySymlink_def intro!: prog_keeps keeps_mkdir_parent [OF s d])
qed (auto simp: copyListed_def intro!: prog_keeps)

text \<open>When git's list is used, no path of it goes on below a link of the source.\<close>

definition listed_apart :: "tree \<Rightarrow> bool \<Rightarrow> listing \<Rightarrow> bool" where
  "listed_apart src includeIgnored listed \<longleftrightarrow> includeIgnored \<or> (case listed of
       Inl e \<Rightarrow> True
     | Inr (rels, isRepo) \<Rightarrow> isRepo \<longrightarrow> list_all (\<lambda>rel. \<not> through_link src rel) rels)"

lemma keeps_RemoveGitLink:
  assumes s: "site D src fs0"
  shows "pkeeps (held D src fs0) (RemoveGitLink E D)"
proof -
  obtain es where d: "tree_at src (butlast [''.git'']) = Some (TDir es)" using src_root [OF s] by auto
  have r: "pkeeps (held D src fs0) (p_seq (p_ctx c (remove_file E (D @ [''.git'']))) (p_ret True))" for c
    by (intro prog_keeps keeps_remove_all(2) [OF s d])
  show ?thesis unfolding pkeeps_def RemoveGitLink_def
    using pkeepsD [OF r] by (auto split: option.splits hnode.splits)
qed

lemma keeps_CopyProjectDir:
  assumes s: "site D src fs0" and a: "listed_apart src includeIgnored listed"
  shows "pkeeps (held D src fs0) (CopyProjectDir E macos B src D includeIgnored preserveGit listed)"
proof -
  have c: "pkeeps (held D src fs0) (CopyDir E macos src D)" using keeps_CopyDir [OF s, of "[]" src E macos] by simp
  have g: "pkeeps (held D src fs0) (copyGitDir E macos src D)"
    unfolding copyGitDir_def by (auto intro!: prog_keeps keeps_CopyDir [OF s] split: option.splits)
  have l: "pkeeps (held D src fs0) (copyFileList E B src D rels)" if "list_all (\<lambda>rel. \<not> through_link src rel) rels" for rels
    unfolding copyFileList_def
    by (intro prog_keeps keeps_mkdir_root [OF s] pkeeps_each keeps_copyListed [OF s]) (use that in \<open>simp add: list_all_iff\<close>)
  have "pkeeps (held D src fs0) (copyProjectContent E macos B src D includeIgnored preserveGit listed)"
  proof (cases listed)
    case (Inl e)
    then show ?thesis unfolding copyProjectContent_def by (auto intro!: prog_keeps c g)
  next
    case (Inr r)
    obtain rels isRepo where r: "r = (rels, isRepo)" by (cases r)
    show ?thesis
    proof (cases "includeIgnored \<or> \<not> isRepo")
      case True
      then show ?thesis unfolding copyProjectContent_def Inr r p_lift_def p_bind_def pkeeps_def
        using pkeepsD [OF c] by auto
    next
      case False
      then have "list_all (\<lambda>rel. \<not> through_link src rel) rels" using a unfolding listed_apart_def Inr r by simp
      note k = l [OF this]
      have "pkeeps (held D src fs0) (p_seq (copyFileList E B src D rels) (if preserveGit then copyGitDir E macos src D else p_ret ()))"
        using k g by (cases preserveGit) (auto intro!: prog_keeps)
      then show ?thesis using False unfolding copyProjectContent_def Inr r p_lift_def p_bind_def [of "\<lambda>s. (_, s)"] by simp
    qed
  qed
  then show ?thesis unfolding CopyProjectDir_def by (intro prog_keeps keeps_RemoveGitLink [OF s])
qed

text \<open>
  C14: making and resetting a work copy touches nothing else. Whatever the source holds and whatever call
  fails, no path outside the work copy changes, as long as git lists no path that goes on below a symbolic
  link of the source, and the links in the work copy that is reset in place are where the source has links; a
  work copy that is wiped first may hold any links.
\<close>

theorem work_copy_is_confined:
  assumes "site D (Src sp) fs"
    and "strategy = InPlaceAndPrune \<longrightarrow> (\<forall>rel t. fs (D @ rel) = Some (HLink t) \<longrightarrow> (\<exists>l. tree_at (Src sp) rel = Some (TLink l)))"
    and "listed_apart (Src sp) (sp_IncludeIgnored sp) listed"
    and "\<not> below D x"
  shows "snd (bringDestinationInLine E macos sp D strategy preserveGit listed fs) x = fs x"
proof -
  define H where "H = held D (Src sp) fs"
  note s = assms(1)
  obtain es where root: "tree_at (Src sp) (butlast []) = Some (TDir es)" using src_root [OF s] by auto
  have git: "tree_at (Src sp) (butlast [''.git'']) = Some (TDir es)" using root by simp
  have copy: "pkeeps H (p_ctx c (CopyProjectDir E macos (sp_Beyond sp) (Src sp) D (sp_IncludeIgnored sp) preserveGit listed))" for c
    unfolding H_def by (intro prog_keeps keeps_CopyProjectDir [OF s assms(3)])
  have rm: "pkeeps H (p_ctx c (remove_all E (D @ [''.git''])))" for c
    unfolding H_def by (intro prog_keeps keeps_remove_all(1) [OF s git])
  have prune: "pkeeps H (p_ctx c (PruneToFileSet E D files))" for c files
    unfolding H_def PruneToFileSet_def Let_def
    by (rule pkeeps_wrappers(3)) (use keeps_remove_below [OF s root] in simp)
  have H: "H fs' \<Longrightarrow> fs' x = fs x" for fs' using assms(4) by (simp add: H_def held_def)
  show ?thesis
  proof (cases strategy)
    case InPlaceAndPrune
    then have h: "H fs" using assms(2) by (simp add: H_def held_def)
    have k: "pkeeps H (bringDestinationInLine E macos sp D strategy preserveGit listed)"
      unfolding bringDestinationInLine_def InPlaceAndPrune Strategy.case
      by (intro prog_keeps rm copy prune)
    show ?thesis by (rule H) (rule pkeepsD [OF k, OF h])
  next
    case WipeAndCopy
    have "entry_of fs D = Some D" using entry_of_child [of fs "butlast D" "last D"] s by (simp add: site_def)
    moreover have "H (without fs D)" unfolding H_def held_def by (simp add: without_def below_def)
    ultimately have "p_ctx c (remove_all E D) fs \<in> {(Inl e, fs) | e. True} \<union> {(Inr (), f) | f. H f}" for c
      by (auto simp: remove_all_def p_ctx_def p_seq_def p_bind_def op_ok_def p_lift_def split: option.splits prod.splits)
    then consider e where "p_ctx ''clear work copy'' (remove_all E D) fs = (Inl e, fs)"
      | f where "p_ctx ''clear work copy'' (remove_all E D) fs = (Inr (), f)" "H f" by blast
    then show ?thesis
    proof cases
      case 1
      then show ?thesis by (simp add: bringDestinationInLine_def WipeAndCopy p_seq_def p_bind_def)
    next
      case 2
      have "H (snd (p_ctx ''copy'' (CopyProjectDir E macos (sp_Beyond sp) (Src sp) D (sp_IncludeIgnored sp) preserveGit listed) f))"
        by (rule pkeepsD [OF copy]) (rule 2(2))
      from H [OF this] 2(1) show ?thesis
        by (simp add: bringDestinationInLine_def WipeAndCopy p_seq_def p_bind_def)
    qed
  qed
qed

section \<open>What a copy leaves\<close>

definition S_at :: "tree \<Rightarrow> fpath \<Rightarrow> hnode option" where
  "S_at src rel = map_option node_of (tree_at src rel)"

text \<open>The host with the entries \<open>W\<close> of the source laid over the work copy.\<close>

definition laid :: "fpath \<Rightarrow> tree \<Rightarrow> hfs \<Rightarrow> fpath set \<Rightarrow> hfs" where
  "laid D src fs W = (\<lambda>x. if below D x \<and> drop (length D) x \<in> W then S_at src (drop (length D) x) else fs x)"

text \<open>What is in the work copy is of the kind the source has there, and not a link.\<close>

definition fits :: "fpath \<Rightarrow> tree \<Rightarrow> hfs \<Rightarrow> fpath set \<Rightarrow> bool" where
  "fits D src fs K \<longleftrightarrow> (\<forall>rel\<in>K. case S_at src rel of
       None \<Rightarrow> True
     | Some HDir \<Rightarrow> fs (D @ rel) = None \<or> fs (D @ rel) = Some HDir
     | Some (HFile _) \<Rightarrow> fs (D @ rel) = None \<or> (\<exists>d. fs (D @ rel) = Some (HFile d))
     | Some (HLink _) \<Rightarrow> fs (D @ rel) = None)"

definition anc :: "fpath \<Rightarrow> fpath set" where
  "anc rel = {p. \<exists>q. rel = p @ q}"

lemma anc_Nil [simp]: "anc [] = {[]}"
  by (auto simp: anc_def)

lemma anc_snoc [simp]: "anc (rel @ [c]) = insert (rel @ [c]) (anc rel)"
proof -
  have "(\<exists>q. rel @ [c] = p @ q) \<longleftrightarrow> p = rel @ [c] \<or> (\<exists>q. rel = p @ q)" for p
    by (metis append_assoc append_self_conv butlast_append butlast_snoc)
  then show ?thesis by (auto simp: anc_def)
qed

lemma anc_self [simp]: "rel \<in> anc rel" "[] \<in> anc rel"
  by (auto simp: anc_def)

lemma laid_at [simp]: "laid D src fs W (D @ rel) = (if rel \<in> W then S_at src rel else fs (D @ rel))"
  by (simp add: laid_def)

lemma laid_outside: "\<not> below D x \<Longrightarrow> laid D src fs W x = fs x"
  by (simp add: laid_def)

lemma laid_upd: "S_at src rel = Some n \<Longrightarrow> (laid D src fs W)(D @ rel \<mapsto> n) = laid D src fs (insert rel W)"
  by (rule ext) (auto simp: laid_def elim!: belowE)

lemma laid_parent: "site D src fs \<Longrightarrow> real_dir (laid D src fs W) (butlast D)"
  by (auto simp: site_def real_dir_def laid_outside below_longer)

lemma S_at_prefix: "S_at src (p @ q) \<noteq> None \<Longrightarrow> q \<noteq> [] \<Longrightarrow> S_at src p = Some HDir"
  using tree_at_prefix [of src p q] by (auto simp: S_at_def)

lemma site_names: "site D src fs \<Longrightarrow> tree_at src rel \<noteq> None \<Longrightarrow> list_all plain_name (D @ rel)"
  using tree_at_wf [of src rel] by (auto simp: site_def)

lemma laid_real:
  assumes s: "site D src fs" and t: "tree_at src rel = Some (TDir es)" and a: "anc rel \<subseteq> W"
  shows "real_dir (laid D src fs W) (D @ rel)"
  using t a
proof (induction rel arbitrary: es rule: rev_induct)
  case Nil
  obtain P c where D: "D = P @ [c]" "plain_name c" using site_snoc [OF s] by auto
  have "laid D src fs W D = Some HDir" using laid_at [of D src fs W "[]"] Nil by (simp add: S_at_def)
  then show ?case using laid_parent [OF s, of W] D by (simp add: real_dir_snoc)
next
  case (snoc c rel)
  from tree_at_prefix [of src rel "[c]"] snoc.prems(1) obtain es' where d: "tree_at src rel = Some (TDir es')" by auto
  have "real_dir (laid D src fs W) (D @ rel)" using snoc.IH [OF d] snoc.prems(2) by simp
  moreover have "laid D src fs W (D @ rel @ [c]) = Some HDir" using snoc.prems by (auto simp: S_at_def)
  moreover have "plain_name c" using site_names [OF s] snoc.prems(1) by fastforce
  ultimately show ?case using real_dir_snoc [of _ "D @ rel" c] by simp
qed

lemma laid_unlinked:
  assumes s: "site D src fs" and t: "tree_at src rel = Some (TDir es)" and f: "fits D src fs K" "anc rel \<subseteq> K"
  shows "unlinked (laid D src fs W) (D @ rel)"
  using t f(2)
proof (induction rel arbitrary: es rule: rev_induct)
  case Nil
  obtain P c where D: "D = P @ [c]" "plain_name c" using site_snoc [OF s] by auto
  have "laid D src fs W D \<noteq> Some (HLink l)" for l
    using laid_at [of D src fs W "[]"] Nil f(1) by (auto simp: S_at_def fits_def)
  then show ?case using real_dir_unlinked [OF laid_parent [OF s, of W]] D by (simp add: unlinked_snoc)
next
  case (snoc c rel)
  from tree_at_prefix [of src rel "[c]"] snoc.prems(1) obtain es' where d: "tree_at src rel = Some (TDir es')" by auto
  have "unlinked (laid D src fs W) (D @ rel)" using snoc.IH [OF d] snoc.prems(2) by simp
  moreover have "laid D src fs W (D @ rel @ [c]) \<noteq> Some (HLink l)" for l
    using snoc.prems f(1) by (auto simp: S_at_def fits_def)
  moreover have "plain_name c" using site_names [OF s] snoc.prems(1) by fastforce
  ultimately show ?case using unlinked_snoc [of _ "D @ rel" c] by simp
qed

lemma resolved_real:
  "list_all plain_name cs \<Longrightarrow> (\<And>k t. k < length cs \<Longrightarrow> fs (cur @ take (Suc k) cs) \<noteq> Some (HLink t)) \<Longrightarrow>
     resolve_at n fs cur (cs @ [c]) \<noteq> None \<Longrightarrow> k < length cs \<Longrightarrow> fs (cur @ take (Suc k) cs) = Some HDir"
proof (induction cs arbitrary: cur k)
  case (Cons d cs)
  have p: "plain_name d" "list_all plain_name cs" using Cons.prems(1) by auto
  have l: "fs (cur @ [d]) \<noteq> Some (HLink t)" for t using Cons.prems(2) [of 0] by auto
  have d: "fs (cur @ [d]) = Some HDir"
    using Cons.prems(3) p l by (auto simp: plain_name_def split: option.splits hnode.splits)
  then have r: "resolve_at n fs (cur @ [d]) (cs @ [c]) \<noteq> None" using Cons.prems(3) p by (auto simp: plain_name_def)
  show ?case
  proof (cases k)
    case 0
    then show ?thesis using d by simp
  next
    case (Suc j)
    have "fs ((cur @ [d]) @ take (Suc j) cs) = Some HDir"
      by (rule Cons.IH [OF p(2) _ r]) (use Cons.prems(2) [of "Suc _"] Cons.prems(4) Suc in auto)
    then show ?thesis using Suc by simp
  qed
qed simp

lemma mkdir_all_step:
  assumes u: "unlinked F (p @ [c])" and n: "F (p @ [c]) = None \<or> F (p @ [c]) = Some HDir"
    and m: "mkdir_all no_faults p F = (Inr (), F')" and r: "real_dir F' p" and e: "F' (p @ [c]) = F (p @ [c])"
  shows "mkdir_all no_faults (p @ [c]) F = (Inr (), F'(p @ [c] \<mapsto> HDir))"
proof (cases "resolve_at link_limit F [] (p @ [c]) = None \<or> F (p @ [c]) = None")
  case True
  then have "Stat F (p @ [c]) = None" using resolve_unlinked [OF u, of link_limit] by (auto simp: Stat_def)
  moreover have "host_mkdir no_faults (p @ [c]) F' = (Inr (), F'(p @ [c] \<mapsto> HDir))"
    using entry_of_child [OF r] n e by (auto simp: host_mkdir_def fun_upd_idem)
  ultimately show ?thesis using m by (subst mkdir_all.simps) (simp add: p_seq_def p_bind_def)
next
  case False
  then have st: "Stat F (p @ [c]) = Some HDir" using resolve_unlinked [OF u, of link_limit] n by (auto simp: Stat_def)
  have "real_dir F p"
    using resolved_real [of p F "[]" link_limit c] u False by (auto simp: real_dir_def unlinked_def less_Suc_eq)
  then have "F' = F" using m mkdir_all_real [of F p no_faults] by simp
  moreover have "F(p @ [c] \<mapsto> HDir) = F" by (rule fun_upd_idem) (use False n in auto)
  ultimately show ?thesis using st by (subst mkdir_all.simps) simp
qed

lemma laid_mkdir:
  assumes s: "site D src fs" and f: "fits D src fs K"
  shows "tree_at src rel = Some (TDir es) \<Longrightarrow> anc rel \<subseteq> K \<Longrightarrow>
    mkdir_all no_faults (D @ rel) (laid D src fs W) = (Inr (), laid D src fs (W \<union> anc rel))"
proof (induction rel arbitrary: es rule: rev_induct)
  case Nil
  obtain P c where D: "D = P @ [c]" using site_snoc [OF s] by auto
  have p: "real_dir (laid D src fs W) P" using laid_parent [OF s, of W] D by simp
  have n: "laid D src fs W D = None \<or> laid D src fs W D = Some HDir"
    using laid_at [of D src fs W "[]"] Nil f by (auto simp: S_at_def fits_def)
  have "mkdir_all no_faults (P @ [c]) (laid D src fs W) = (Inr (), (laid D src fs W)(P @ [c] \<mapsto> HDir))"
    by (rule mkdir_all_step [OF _ _ mkdir_all_real [OF p] p])
      (use laid_unlinked [OF s Nil(1) f Nil(2), of W] n D in simp_all)
  then show ?case using laid_upd [of src "[]" HDir D fs W] Nil(1) D by (simp add: S_at_def)
next
  case (snoc c rel)
  from tree_at_prefix [of src rel "[c]"] snoc.prems(1) obtain es' where d: "tree_at src rel = Some (TDir es')" by auto
  have a: "anc rel \<subseteq> K" "rel @ [c] \<in> K" using snoc.prems(2) by auto
  let ?F = "laid D src fs W" and ?F' = "laid D src fs (W \<union> anc rel)"
  have S: "S_at src (rel @ [c]) = Some HDir" using snoc.prems(1) by (simp add: S_at_def)
  have n: "?F (D @ rel @ [c]) = None \<or> ?F (D @ rel @ [c]) = Some HDir" using S f a(2) by (auto simp: fits_def)
  have notin: "rel @ [c] \<notin> anc rel" by (auto simp: anc_def)
  have "mkdir_all no_faults ((D @ rel) @ [c]) ?F = (Inr (), ?F'((D @ rel) @ [c] \<mapsto> HDir))"
  proof (rule mkdir_all_step [OF _ _ snoc.IH [OF d a(1)] laid_real [OF s d]])
    show "unlinked ?F ((D @ rel) @ [c])" using laid_unlinked [OF s snoc.prems(1) f snoc.prems(2), of W] by simp
  qed (use n notin in auto)
  then show ?case using laid_upd [OF S, of D fs "W \<union> anc rel"] by simp
qed

lemma laid_open:
  assumes s: "site D src fs" and f: "fits D src fs K" "rel \<in> K"
    and t: "tree_at src rel = Some (TFile d)" and a: "anc (butlast rel) \<subseteq> W"
  shows "open_trunc no_faults (D @ rel) d (laid D src fs W) = (Inr (), laid D src fs (insert rel W))"
proof -
  obtain q c where rel: "rel = q @ [c]" using s t by (cases rel rule: rev_cases) (auto simp: site_def is_tdir_def)
  from tree_at_prefix [of src q "[c]"] t rel obtain es where d: "tree_at src q = Some (TDir es)" by auto
  have r: "real_dir (laid D src fs W) (D @ q)" by (rule laid_real [OF s d]) (use a rel in simp)
  have S: "S_at src rel = Some (HFile d)" using t by (simp add: S_at_def)
  have n: "laid D src fs W (D @ rel) = None \<or> (\<exists>d. laid D src fs W (D @ rel) = Some (HFile d))"
    using S f by (auto simp: fits_def)
  have "plain_name c" using site_names [OF s] t rel by fastforce
  then have "resolve_at link_limit (laid D src fs W) [] (D @ rel) = Some (D @ rel)"
    using resolve_child [OF r, of c] n rel by (auto split: if_splits)
  moreover have "host_node (laid D src fs W) (D @ rel) = laid D src fs W (D @ rel)"
    using host_node_snoc [of _ "D @ q" c] rel by simp
  ultimately show ?thesis using n laid_upd [OF S, of D fs W]
    unfolding open_trunc_def by (auto simp: no_faults_def)
qed

lemma laid_symlink:
  assumes s: "site D src fs" and f: "fits D src fs K" "rel \<in> K" "rel \<notin> W"
    and t: "tree_at src rel = Some (TLink l)" and a: "anc (butlast rel) \<subseteq> W"
  shows "os_symlink no_faults l (D @ rel) (laid D src fs W) = (Inr (), laid D src fs (insert rel W))"
proof -
  obtain q c where rel: "rel = q @ [c]" using s t by (cases rel rule: rev_cases) (auto simp: site_def is_tdir_def)
  from tree_at_prefix [of src q "[c]"] t rel obtain es where d: "tree_at src q = Some (TDir es)" by auto
  have r: "real_dir (laid D src fs W) (D @ q)" by (rule laid_real [OF s d]) (use a rel in simp)
  have S: "S_at src rel = Some (HLink l)" using t by (simp add: S_at_def)
  have n: "laid D src fs W (D @ rel) = None" using S f by (auto simp: fits_def)
  have "host_node (laid D src fs W) (D @ rel) = laid D src fs W (D @ rel)"
    using host_node_snoc [of _ "D @ q" c] rel by simp
  then show ?thesis using entry_of_child [OF r, of c] n rel laid_upd [OF S, of D fs W]
    unfolding os_symlink_def by auto
qed

section \<open>What a walk copies\<close>

lemma nested_mono: "matchesNestedPattern ps pat \<Longrightarrow> matchesNestedPattern (ps @ qs) pat"
proof -
  assume m: "matchesNestedPattern ps pat"
  define k where "k = length (split_slash pat)"
  from m have k: "k \<le> length ps" by (simp add: matchesNestedPattern_def Let_def k_def split: if_splits)
  from m k obtain i where i: "i \<in> set [0..<length ps - k + 1]"
    and j: "list_all (\<lambda>j. matchesPattern (ps ! (i + j)) (split_slash pat ! j)) [0..<k]"
    unfolding matchesNestedPattern_def Let_def list_ex_iff k_def by (metis linorder_not_less)
  have "matchesPattern ((ps @ qs) ! (i + j)) (split_slash pat ! j)" if "j < k" for j
    using j i k that by (auto simp: nth_append list_all_iff)
  then have "list_all (\<lambda>j. matchesPattern ((ps @ qs) ! (i + j)) (split_slash pat ! j)) [0..<k]" by (simp add: list_all_iff)
  moreover have "i \<in> set [0..<length (ps @ qs) - k + 1]" using i k by auto
  ultimately show ?thesis unfolding matchesNestedPattern_def Let_def using k by (auto simp: list_ex_iff simp flip: k_def)
qed

lemma artifact_mono: "isBuildArtifact ps \<Longrightarrow> isBuildArtifact (ps @ qs)"
  using nested_mono by (auto simp: isBuildArtifact_def)

definition copied :: "tree \<Rightarrow> fpath set" where
  "copied t = {rel. case tree_at t rel of None \<Rightarrow> False
     | Some u \<Rightarrow> \<not> isBuildArtifact rel \<and> (is_tdir u \<or> \<not> isBugreportFile (base_of rel))}"

lemma copied_prefix: "p @ q \<in> copied t \<Longrightarrow> p \<in> copied t"
  using tree_at_prefix [of t p q] artifact_mono [of p q]
  by (cases "q = []") (auto simp: copied_def is_tdir_def split: option.splits)

lemma copied_anc: "rel \<in> copied t \<Longrightarrow> anc rel \<subseteq> copied t"
  using copied_prefix by (auto simp: anc_def)

lemma artifact_Nil: "\<not> isBuildArtifact []"
  by code_simp

lemma copied_Nil: "is_tdir t \<Longrightarrow> [] \<in> copied t"
  by (simp add: copied_def artifact_Nil)

text \<open>The paths that copying the part \<open>u\<close> found at \<open>rel\<close> of a copy rooted at \<open>r0\<close> adds.\<close>

definition added :: "tree \<Rightarrow> fpath \<Rightarrow> fpath \<Rightarrow> tree \<Rightarrow> fpath set" where
  "added t0 r0 rel u = {r0 @ rel @ q | q. tree_at u q \<noteq> None \<and> rel @ q \<in> copied t0}"

definition added_entries :: "tree \<Rightarrow> fpath \<Rightarrow> fpath \<Rightarrow> (string \<times> tree) list \<Rightarrow> fpath set" where
  "added_entries t0 r0 rel es = {r0 @ rel @ n # q | n q. tree_at (TDir es) (n # q) \<noteq> None \<and> rel @ n # q \<in> copied t0}"

lemma tree_at_leaf: "\<not> is_tdir u \<Longrightarrow> tree_at u q = (if q = [] then Some u else None)"
  by (cases u; cases q) (auto simp: is_tdir_def)

lemma added_leaf: "\<not> is_tdir u \<Longrightarrow> added t0 r0 rel u = (if rel \<in> copied t0 then {r0 @ rel} else {})"
  by (auto simp: added_def tree_at_leaf split: if_splits)

lemma added_dir: "added t0 r0 rel (TDir es) = (if rel \<in> copied t0 then {r0 @ rel} else {}) \<union> added_entries t0 r0 rel es"
proof (intro equalityI subsetI)
  fix x assume "x \<in> added t0 r0 rel (TDir es)"
  then obtain q where "x = r0 @ rel @ q" "tree_at (TDir es) q \<noteq> None" "rel @ q \<in> copied t0" by (auto simp: added_def)
  then show "x \<in> (if rel \<in> copied t0 then {r0 @ rel} else {}) \<union> added_entries t0 r0 rel es"
    by (cases q) (auto simp: added_entries_def)
next
  fix x assume "x \<in> (if rel \<in> copied t0 then {r0 @ rel} else {}) \<union> added_entries t0 r0 rel es"
  then consider "rel \<in> copied t0" "x = r0 @ rel"
    | n q where "x = r0 @ rel @ n # q" "tree_at (TDir es) (n # q) \<noteq> None" "rel @ n # q \<in> copied t0"
    by (auto simp: added_entries_def split: if_splits)
  then show "x \<in> added t0 r0 rel (TDir es)"
  proof cases
    case 1
    then show ?thesis by (auto simp: added_def intro: exI [of _ "[]"])
  next
    case 2
    then show ?thesis unfolding added_def by blast
  qed
qed

lemma added_entries_Nil: "added_entries t0 r0 rel [] = {}"
  by (auto simp: added_entries_def)

lemma added_entries_Cons:
  assumes n: "n \<notin> fst ` set es"
  shows "added_entries t0 r0 rel ((n, t) # es) = added t0 r0 (rel @ [n]) t \<union> added_entries t0 r0 rel es"
proof -
  have e: "tree_at (TDir ((n, t) # es)) (k # q) = (if k = n then tree_at t q else tree_at (TDir es) (k # q))" for k q
    by simp
  have m: "tree_at (TDir es) (n # q) = None" for q using n by (simp add: map_of_eq_None_iff [THEN iffD2])
  have a: "added t0 r0 (rel @ [n]) t = {r0 @ rel @ n # q | q. tree_at t q \<noteq> None \<and> rel @ n # q \<in> copied t0}"
    by (simp add: added_def)
  show ?thesis unfolding a added_entries_def e
  proof (intro equalityI subsetI)
    fix x assume "x \<in> {r0 @ rel @ k # q |k q. (if k = n then tree_at t q else tree_at (TDir es) (k # q)) \<noteq> None \<and> rel @ k # q \<in> copied t0}"
    then obtain k q where x: "x = r0 @ rel @ k # q" "rel @ k # q \<in> copied t0"
      "(if k = n then tree_at t q else tree_at (TDir es) (k # q)) \<noteq> None" by blast
    then show "x \<in> {r0 @ rel @ n # q | q. tree_at t q \<noteq> None \<and> rel @ n # q \<in> copied t0}
        \<union> {r0 @ rel @ n # q | n q. tree_at (TDir es) (n # q) \<noteq> None \<and> rel @ n # q \<in> copied t0}"
      by (cases "k = n") auto
  next
    fix x assume "x \<in> {r0 @ rel @ n # q | q. tree_at t q \<noteq> None \<and> rel @ n # q \<in> copied t0}
        \<union> {r0 @ rel @ n # q | n q. tree_at (TDir es) (n # q) \<noteq> None \<and> rel @ n # q \<in> copied t0}"
    then consider q where "x = r0 @ rel @ n # q" "tree_at t q \<noteq> None" "rel @ n # q \<in> copied t0"
      | k q where "x = r0 @ rel @ k # q" "tree_at (TDir es) (k # q) \<noteq> None" "rel @ k # q \<in> copied t0" by blast
    then show "x \<in> {r0 @ rel @ k # q |k q. (if k = n then tree_at t q else tree_at (TDir es) (k # q)) \<noteq> None \<and> rel @ k # q \<in> copied t0}"
    proof cases
      case 1
      then have "(if n = n then tree_at t q else tree_at (TDir es) (n # q)) \<noteq> None" by simp
      with 1 show ?thesis by blast
    next
      case 2
      then have "k \<noteq> n" using m by auto
      then have "(if k = n then tree_at t q else tree_at (TDir es) (k # q)) \<noteq> None" using 2 by simp
      with 2 show ?thesis by blast
    qed
  qed
qed

lemma laid_copyDirEntry:
  assumes s: "site D src fs" and f: "fits D src fs K" and t0: "tree_at src r0 = Some t0" and u: "tree_at t0 rel = Some u"
    and K: "rel \<in> copied t0 \<Longrightarrow> anc (r0 @ rel) \<subseteq> K"
    and a: "r0 @ rel \<noteq> [] \<Longrightarrow> anc (butlast (r0 @ rel)) \<subseteq> W" and n: "\<not> is_tdir u \<Longrightarrow> r0 @ rel \<notin> W"
  shows "copyDirEntry no_faults (D @ r0) rel u (laid D src fs W)
    = (Inr (rel \<notin> copied t0 \<and> is_tdir u), laid D src fs (if rel \<in> copied t0 then insert (r0 @ rel) W else W))"
proof (cases "rel \<in> copied t0")
  case False
  then show ?thesis using u by (auto simp: copied_def copyDirEntry_def p_ret_def)
next
  case True
  have su: "tree_at src (r0 @ rel) = Some u" using t0 u by (simp add: tree_at_append)
  have art: "\<not> isBuildArtifact rel" "is_tdir u \<or> \<not> isBugreportFile (base_of rel)" using True u by (auto simp: copied_def)
  have rK: "r0 @ rel \<in> K" using K [OF True] by auto
  show ?thesis
  proof (cases u)
    case (TDir es)
    have "W \<union> anc (r0 @ rel) = insert (r0 @ rel) W"
    proof (cases "r0 @ rel" rule: rev_cases)
      case Nil
      then show ?thesis by simp
    next
      case (snoc q c)
      then show ?thesis using a by auto
    qed
    then show ?thesis using laid_mkdir [OF s f, of "r0 @ rel" es W] su TDir K [OF True] art True
      by (simp add: copyDirEntry_def is_tdir_def p_seq_def p_bind_def p_ret_def)
  next
    case (TFile d)
    have "r0 @ rel \<noteq> []" using s su TFile by (auto simp: site_def is_tdir_def)
    then show ?thesis using laid_open [OF s f rK, of d W] su TFile a art True
      by (simp add: copyDirEntry_def copyFile_def is_tdir_def p_seq_def p_bind_def p_ret_def)
  next
    case (TLink l)
    have "r0 @ rel \<noteq> []" using s su TLink by (auto simp: site_def is_tdir_def)
    moreover have "r0 @ rel \<notin> W" using n TLink by (simp add: is_tdir_def)
    ultimately show ?thesis using laid_symlink [OF s f rK, of W l] su TLink a art True
      by (simp add: copyDirEntry_def copySymlink_def is_tdir_def p_seq_def p_bind_def p_ret_def)
  qed
qed

lemma walk_laid:
  assumes s: "site D src fs" and fit: "fits D src fs K" and t0: "tree_at src r0 = Some t0"
    and K: "\<And>rel. rel \<in> copied t0 \<Longrightarrow> anc (r0 @ rel) \<subseteq> K"
  shows "f = copyDirEntry no_faults (D @ r0) \<Longrightarrow> tree_at t0 rel = Some u \<Longrightarrow> wf_tree u \<Longrightarrow>
      (r0 @ rel \<noteq> [] \<longrightarrow> anc (butlast (r0 @ rel)) \<subseteq> W) \<Longrightarrow>
      (\<forall>q. tree_at u q \<noteq> None \<longrightarrow> q \<noteq> [] \<or> \<not> is_tdir u \<longrightarrow> r0 @ rel @ q \<notin> W) \<Longrightarrow>
      WalkDir f rel u (laid D src fs W) = (Inr (), laid D src fs (W \<union> added t0 r0 rel u))"
    and "f = copyDirEntry no_faults (D @ r0) \<Longrightarrow> (\<forall>n t. map_of es n = Some t \<longrightarrow> tree_at t0 (rel @ [n]) = Some t) \<Longrightarrow>
      wf_entries es \<Longrightarrow> anc (r0 @ rel) \<subseteq> W \<Longrightarrow>
      (\<forall>n q. tree_at (TDir es) (n # q) \<noteq> None \<longrightarrow> r0 @ rel @ n # q \<notin> W) \<Longrightarrow>
      walk_entries f rel es (laid D src fs W) = (Inr (), laid D src fs (W \<union> added_entries t0 r0 rel es))"
proof (induction f rel u and f rel es arbitrary: W and W rule: WalkDir_walk_entries.induct)
  case (1 f rel d)
  have "r0 @ rel \<notin> W" using spec [OF 1(5), of "[]"] by (simp add: is_tdir_def)
  then have "copyDirEntry no_faults (D @ r0) rel (TFile d) (laid D src fs W)
    = (Inr (rel \<notin> copied t0 \<and> is_tdir (TFile d)), laid D src fs (if rel \<in> copied t0 then insert (r0 @ rel) W else W))"
    by (intro laid_copyDirEntry [OF s fit t0]) (use 1 K in auto)
  then show ?case using added_leaf [of "TFile d" t0 r0 rel] 1(1)
    by (simp add: p_seq_def p_bind_def p_ret_def is_tdir_def)
next
  case (2 f rel l)
  have "r0 @ rel \<notin> W" using spec [OF 2(5), of "[]"] by (simp add: is_tdir_def)
  then have "copyDirEntry no_faults (D @ r0) rel (TLink l) (laid D src fs W)
    = (Inr (rel \<notin> copied t0 \<and> is_tdir (TLink l)), laid D src fs (if rel \<in> copied t0 then insert (r0 @ rel) W else W))"
    by (intro laid_copyDirEntry [OF s fit t0]) (use 2 K in auto)
  then show ?case using added_leaf [of "TLink l" t0 r0 rel] 2(1)
    by (simp add: p_seq_def p_bind_def p_ret_def is_tdir_def)
next
  case (3 f rel es)
  have e: "copyDirEntry no_faults (D @ r0) rel (TDir es) (laid D src fs W)
    = (Inr (rel \<notin> copied t0), laid D src fs (if rel \<in> copied t0 then insert (r0 @ rel) W else W))"
    using laid_copyDirEntry [OF s fit t0 3(3) K, of W] 3(5) by (simp add: is_tdir_def)
  show ?case
  proof (cases "rel \<in> copied t0")
    case False
    have "rel @ q \<notin> copied t0" for q using False copied_prefix by blast
    then have "added t0 r0 rel (TDir es) = {}" by (auto simp: added_def)
    then show ?thesis using e False 3(2) by (simp add: p_bind_def p_ret_def)
  next
    case True
    have "walk_entries f rel es (laid D src fs (insert (r0 @ rel) W))
      = (Inr (), laid D src fs (insert (r0 @ rel) W \<union> added_entries t0 r0 rel es))"
    proof (rule 3(1))
      show "\<forall>n t. map_of es n = Some t \<longrightarrow> tree_at t0 (rel @ [n]) = Some t" using 3(3) by (simp add: tree_at_append)
      show "anc (r0 @ rel) \<subseteq> insert (r0 @ rel) W"
        using 3(5) by (cases "r0 @ rel" rule: rev_cases) auto
      show "\<forall>n q. tree_at (TDir es) (n # q) \<noteq> None \<longrightarrow> r0 @ rel @ n # q \<notin> insert (r0 @ rel) W"
        using 3(6) by auto
    qed (use 3(2,4) in auto)
    then show ?thesis using e True 3(2) by (simp add: p_bind_def added_dir)
  qed
next
  case (4 f rel)
  then show ?case by (simp add: p_ret_def added_entries_Nil)
next
  case (5 f rel n t es)
  have nn: "n \<notin> fst ` set es" "wf_tree t" "wf_entries es" using 5(5) by auto
  have neq: "map_of es m = Some x \<Longrightarrow> m \<noteq> n" for m x using nn(1) by (metis fst_conv imageI map_of_SomeD)
  have one: "WalkDir f (rel @ [n]) t (laid D src fs W) = (Inr (), laid D src fs (W \<union> added t0 r0 (rel @ [n]) t))"
  proof (rule 5(1))
    show "tree_at t0 (rel @ [n]) = Some t" using 5(4) by simp
    show "r0 @ rel @ [n] \<noteq> [] \<longrightarrow> anc (butlast (r0 @ rel @ [n])) \<subseteq> W" using 5(6) by (simp add: butlast_append)
    show "\<forall>q. tree_at t q \<noteq> None \<longrightarrow> q \<noteq> [] \<or> \<not> is_tdir t \<longrightarrow> r0 @ (rel @ [n]) @ q \<notin> W"
      using 5(7) by (auto dest: spec [of _ n])
  qed (use 5(3) nn in auto)
  have "walk_entries f rel es (laid D src fs (W \<union> added t0 r0 (rel @ [n]) t))
    = (Inr (), laid D src fs (W \<union> added t0 r0 (rel @ [n]) t \<union> added_entries t0 r0 rel es))"
  proof (rule 5(2))
    show "\<forall>m u. map_of es m = Some u \<longrightarrow> tree_at t0 (rel @ [m]) = Some u" using 5(4) neq by auto
    show "\<forall>m q. tree_at (TDir es) (m # q) \<noteq> None \<longrightarrow> r0 @ rel @ m # q \<notin> W \<union> added t0 r0 (rel @ [n]) t"
    proof (intro allI impI)
      fix m q assume m: "tree_at (TDir es) (m # q) \<noteq> None"
      then have ne: "m \<noteq> n" using neq by (auto split: option.splits)
      then have "tree_at (TDir ((n, t) # es)) (m # q) \<noteq> None" using m by simp
      then show "r0 @ rel @ m # q \<notin> W \<union> added t0 r0 (rel @ [n]) t" using 5(7) ne by (auto simp: added_def)
    qed
  qed (use 5(3,6) nn in auto)
  then show ?case using one nn(1) by (simp add: p_seq_def p_bind_def added_entries_Cons Un_assoc)
qed

lemma remove_below_real:
  assumes "real_dir F p" "F (p @ [c]) \<noteq> None"
  shows "remove_below no_faults (p @ [c]) doomed F
    = (Inr (), \<lambda>x. if below (p @ [c]) x \<and> (case F x of Some n \<Rightarrow> doomed (drop (length (p @ [c])) x) n | None \<Rightarrow> False) then None else F x)"
  using entry_of_child [OF assms(1)] assms(2) by (simp add: remove_below_def below_def)

lemma artifact_anywhere: "list_ex (\<lambda>k. isBuildArtifact (take k rel)) [0..<Suc (length rel)] \<longleftrightarrow> isBuildArtifact rel"
proof
  assume "list_ex (\<lambda>k. isBuildArtifact (take k rel)) [0..<Suc (length rel)]"
  then obtain k where "isBuildArtifact (take k rel)" unfolding list_ex_iff by blast
  then show "isBuildArtifact rel" using artifact_mono [of "take k rel" "drop k rel"] by simp
qed (simp add: list_ex_iff)

text \<open>
  The clone that macOS makes, with the unwanted entries removed, is the copy the walk makes.
\<close>

lemma clone_equals_copy:
  assumes r: "real_dir F p" and d: "is_tdir t" and e: "\<And>x. below (p @ [c]) x \<Longrightarrow> F x = None"
  shows "p_bind (p_try (cloneDir no_faults True t (p @ [c]))) (\<lambda>r. if is_ok r
      then p_seq (removeBugreportFiles no_faults (p @ [c])) (removeBuildArtifacts no_faults (p @ [c])) else m r) F
    = (Inr (), \<lambda>x. if below (p @ [c]) x then (if drop (length (p @ [c])) x \<in> copied t then S_at t (drop (length (p @ [c])) x) else None) else F x)"
proof -
  let ?D = "p @ [c]"
  define G where "G = (\<lambda>x. if below ?D x then S_at t (drop (length ?D) x) else F x)"
  define G1 where "G1 = (\<lambda>x. if below ?D x \<and> (case G x of Some n \<Rightarrow> n \<noteq> HDir \<and> isBugreportFile (base_of (drop (length ?D) x)) | None \<Rightarrow> False) then None else G x)"
  define G2 where "G2 = (\<lambda>x. if below ?D x \<and> (case G1 x of Some n \<Rightarrow> isBuildArtifact (drop (length ?D) x) | None \<Rightarrow> False) then None else G1 x)"
  have "F ?D = None" using e [of ?D] below_append [of ?D "[]"] by simp
  then have c1: "cloneDir no_faults True t ?D F = (Inr (), G)"
    using entry_of_child [OF r, of c] unfolding G_def S_at_def below_def by (simp add: cloneDir_def)
  have nb: "\<not> below ?D (take k p)" for k by (rule below_longer) simp
  have rg: "real_dir G p" using r nb by (auto simp: real_dir_def G_def)
  have gD: "G ?D = Some HDir" using d below_append [of ?D "[]"] by (auto simp: G_def S_at_def is_tdir_def split: tree.splits)
  have c2: "removeBugreportFiles no_faults ?D G = (Inr (), G1)"
    unfolding removeBugreportFiles_def by (subst remove_below_real [OF rg]) (simp_all add: gD G1_def)
  have rg1: "real_dir G1 p" using rg nb by (auto simp: real_dir_def G1_def)
  have "G1 ?D = Some HDir" using gD by (simp add: G1_def)
  then have c3: "removeBuildArtifacts no_faults ?D G1 = (Inr (), G2)"
    unfolding removeBuildArtifacts_def artifact_anywhere by (subst remove_below_real [OF rg1]) (simp_all add: G2_def)
  have "G2 x = (if below ?D x then (if drop (length ?D) x \<in> copied t then S_at t (drop (length ?D) x) else None) else F x)" for x
  proof (cases "below ?D x")
    case True
    then obtain q where x: "x = ?D @ q" by (elim belowE)
    have b: "below ?D (p @ c # q)" using below_append [of ?D q] by simp
    show ?thesis
    proof (cases "tree_at t q")
      case None
      then show ?thesis using x b by (simp add: G2_def G1_def G_def S_at_def)
    next
      case (Some u)
      then show ?thesis using x b
        by (cases u) (auto simp: G2_def G1_def G_def S_at_def copied_def is_tdir_def)
    qed
  qed (simp add: G2_def G1_def G_def)
  then have "G2 = (\<lambda>x. if below ?D x then (if drop (length ?D) x \<in> copied t then S_at t (drop (length ?D) x) else None) else F x)"
    by blast
  then show ?thesis using c1 c2 c3 by (simp add: p_bind_def p_try_def p_seq_def)
qed

definition absent :: "hfs \<Rightarrow> fpath \<Rightarrow> bool" where
  "absent fs p \<longleftrightarrow> (\<forall>q. fs (p @ q) = None)"

lemma CopyDir_laid:
  assumes s: "site D src fs" and f: "fits D src fs K" and t: "tree_at src r0 = Some t" "is_tdir t"
    and K: "\<And>rel. rel \<in> copied t \<Longrightarrow> anc (r0 @ rel) \<subseteq> K"
    and a: "r0 \<noteq> [] \<Longrightarrow> anc (butlast r0) \<subseteq> W" and n: "\<And>q. q \<noteq> [] \<Longrightarrow> r0 @ q \<notin> W"
    and c: "macos \<Longrightarrow> laid D src fs W (D @ r0) = None \<Longrightarrow> absent (laid D src fs W) (D @ r0)"
  shows "CopyDir no_faults macos t (D @ r0) (laid D src fs W) = (Inr (), laid D src fs (W \<union> (\<lambda>q. r0 @ q) ` copied t))"
proof -
  let ?F = "laid D src fs W"
  obtain es where es: "t = TDir es" using t(2) by (cases t) (auto simp: is_tdir_def)
  obtain p d where pd: "D @ r0 = p @ [d]" "butlast (D @ r0) = p" using s by (cases "D @ r0" rule: rev_cases) (auto simp: site_def)
  have real: "real_dir ?F p"
  proof (cases r0 rule: rev_cases)
    case Nil
    then show ?thesis using laid_parent [OF s] pd by simp
  next
    case (snoc q e)
    from tree_at_prefix [of src q "[e]"] t snoc obtain es' where "tree_at src q = Some (TDir es')" by auto
    then show ?thesis using laid_real [OF s, of q es' W] a pd snoc by simp
  qed
  have par: "p_ctx m (mkdir_all no_faults (butlast (D @ r0))) ?F = (Inr (), ?F)" for m
    using mkdir_all_real [OF real] pd by (simp add: p_ctx_def)
  have img: "added t r0 [] t = (\<lambda>q. r0 @ q) ` copied t"
    by (auto simp: added_def copied_def split: option.splits)
  have aW: "W \<union> anc r0 = insert r0 W"
  proof (cases r0 rule: rev_cases)
    case (snoc q e)
    then show ?thesis using a by auto
  qed simp
  have r0K: "anc r0 \<subseteq> K" using K [of "[]"] copied_Nil [OF t(2)] by simp
  have walk: "copyDirWalk no_faults t (D @ r0) ?F = (Inr (), laid D src fs (W \<union> (\<lambda>q. r0 @ q) ` copied t))"
  proof -
    have m: "mkdir_all no_faults (D @ r0) ?F = (Inr (), laid D src fs (insert r0 W))"
      using laid_mkdir [OF s f _ r0K, of es W] t es aW by simp
    have "WalkDir (copyDirEntry no_faults (D @ r0)) [] t (laid D src fs (insert r0 W))
        = (Inr (), laid D src fs (insert r0 W \<union> added t r0 [] t))"
      by (rule walk_laid(1) [OF s f t(1) K refl])
        (use tree_at_wf [OF _ t(1)] s t(2) a n in \<open>auto simp: site_def\<close>)
    moreover have "insert r0 W \<union> added t r0 [] t = W \<union> (\<lambda>q. r0 @ q) ` copied t"
      unfolding img using copied_Nil [OF t(2)] by force
    ultimately show ?thesis using m by (simp add: copyDirWalk_def p_seq_def p_bind_def p_ctx_def)
  qed
  show ?thesis
  proof (cases "macos \<and> ?F (D @ r0) = None")
    case True
    have ab: "\<And>x. below (p @ [d]) x \<Longrightarrow> ?F x = None" using c True pd(1) by (auto simp: absent_def elim!: belowE)
    have "p_bind (p_try (cloneDir no_faults macos t (D @ r0))) (\<lambda>r. if is_ok r
        then p_seq (removeBugreportFiles no_faults (D @ r0)) (removeBuildArtifacts no_faults (D @ r0)) else copyDirWalk no_faults t (D @ r0)) ?F
      = (Inr (), \<lambda>x. if below (D @ r0) x then (if drop (length (D @ r0)) x \<in> copied t then S_at t (drop (length (D @ r0)) x) else None) else ?F x)"
      unfolding pd(1) using clone_equals_copy [where m = "\<lambda>_. copyDirWalk no_faults t (p @ [d])" and c = d, OF real t(2) ab] True pd(1)
      by simp
    moreover have "(\<lambda>x. if below (D @ r0) x then (if drop (length (D @ r0)) x \<in> copied t then S_at t (drop (length (D @ r0)) x) else None) else ?F x)
      = laid D src fs (W \<union> (\<lambda>q. r0 @ q) ` copied t)"
    proof
      fix x
      show "(if below (D @ r0) x then (if drop (length (D @ r0)) x \<in> copied t then S_at t (drop (length (D @ r0)) x) else None) else ?F x)
        = laid D src fs (W \<union> (\<lambda>q. r0 @ q) ` copied t) x"
      proof (cases "below (D @ r0) x")
        case True
        then obtain q where x: "x = D @ (r0 @ q)" by (auto elim!: belowE)
        have "?F x = None" using ab [of x] True pd(1) by simp
        then show ?thesis using x True t(1) by (auto simp: S_at_def tree_at_append split: if_splits)
      next
        case False
        show ?thesis
        proof (cases "below D x")
          case True
          then obtain q where x: "x = D @ q" by (elim belowE)
          have "q \<notin> (\<lambda>q. r0 @ q) ` copied t" using False x by (auto simp: below_def)
          then show ?thesis using False x by simp
        qed (use False in \<open>simp add: laid_outside\<close>)
      qed
    qed
    ultimately show ?thesis using par t(2) unfolding CopyDir_def
      by (simp add: p_seq_def p_bind_def [of "p_ctx _ _"])
  next
    case False
    have "cloneDir no_faults macos t (D @ r0) ?F = (Inl e, ?F) \<or> (\<exists>e. cloneDir no_faults macos t (D @ r0) ?F = (Inl e, ?F))" for e
      using False entry_of_child [OF real, of d] pd(1) by (auto simp: cloneDir_def p_fail_def)
    then obtain e where "cloneDir no_faults macos t (D @ r0) ?F = (Inl e, ?F)" by blast
    then show ?thesis using par t(2) walk unfolding CopyDir_def
      by (simp add: p_seq_def p_bind_def p_try_def)
  qed
qed

section \<open>The paths of a project\<close>

text \<open>Stopping at a path that is there already loses nothing, since its ancestors are there as well.\<close>

lemma add_path_anc:
  assumes K: "\<And>x. x \<in> K \<Longrightarrow> anc x - {[]} \<subseteq> K"
  shows "E \<inter> anc p = {} \<Longrightarrow> add_path (K \<union> E) p = K \<union> E \<union> (anc p - {[]})"
proof (induction p arbitrary: E rule: rev_induct)
  case Nil
  then show ?case by (subst add_path.simps) simp
next
  case (snoc c q)
  show ?case
  proof (cases "q @ [c] \<in> K \<union> E")
    case True
    then have "q @ [c] \<in> K" using snoc.prems by auto
    then have "anc (q @ [c]) - {[]} \<subseteq> K" by (rule K)
    then show ?thesis using True by (subst add_path.simps) auto
  next
    case False
    have "q @ [c] \<notin> anc q" by (auto simp: anc_def)
    then have "insert (q @ [c]) E \<inter> anc q = {}" using snoc.prems by auto
    from snoc.IH [OF this] False show ?thesis by (subst add_path.simps) auto
  qed
qed

lemma anc_trans: "x \<in> anc y \<Longrightarrow> y \<in> anc z \<Longrightarrow> x \<in> anc z"
  by (auto simp: anc_def)

lemma pathsWithAncestors_anc: "pathsWithAncestors files = (\<Union>f\<in>set files. anc f) - {[]}"
proof -
  have "foldl add_path ((\<Union>f\<in>G. anc f) - {[]}) files = (\<Union>f\<in>G \<union> set files. anc f) - {[]}" for G
  proof (induction files arbitrary: G)
    case (Cons f files)
    have "add_path (((\<Union>f\<in>G. anc f) - {[]}) \<union> {}) f = ((\<Union>f\<in>G. anc f) - {[]}) \<union> {} \<union> (anc f - {[]})"
      by (rule add_path_anc) (auto dest: anc_trans)
    then have "add_path ((\<Union>f\<in>G. anc f) - {[]}) f = (\<Union>f\<in>insert f G. anc f) - {[]}" by auto
    then show ?case using Cons.IH [of "insert f G"] by simp
  qed simp
  from this [of "{}"] show ?thesis by (simp add: pathsWithAncestors_def)
qed

definition listing_step :: "fpath \<Rightarrow> tree \<Rightarrow> (fpath list, bool) prog" where
  "listing_step rel t out =
     (if rel = [] then (Inr False, out)
      else if rel = [''.git''] then (Inr (is_tdir t), out)
      else if \<not> is_tdir t \<and> isBugreportFile (base_of rel) then (Inr False, out)
      else if isBuildArtifact rel then (Inr (is_tdir t), out)
      else (Inr False, out @ [rel]))"

definition ordinary :: "fpath \<Rightarrow> bool" where
  "ordinary rel \<longleftrightarrow> rel \<noteq> [] \<and> hd rel \<noteq> ''.git''"

lemma listing_walk:
  "f = listing_step \<Longrightarrow> tree_at t0 rel = Some u \<Longrightarrow> wf_tree u \<Longrightarrow> (rel = [] \<or> rel = [''.git''] \<or> ordinary rel) \<Longrightarrow>
     \<exists>l. WalkDir f rel u out = (Inr (), out @ l) \<and> set l = {x \<in> added t0 [] rel u. ordinary x}"
  "f = listing_step \<Longrightarrow> (\<forall>n t. map_of es n = Some t \<longrightarrow> tree_at t0 (rel @ [n]) = Some t) \<Longrightarrow> wf_entries es \<Longrightarrow>
     (rel = [] \<or> ordinary rel) \<Longrightarrow>
     \<exists>l. walk_entries f rel es out = (Inr (), out @ l) \<and> set l = {x \<in> added_entries t0 [] rel es. ordinary x}"
proof (induction f rel u and f rel es arbitrary: out and out rule: WalkDir_walk_entries.induct)
  case (1 f rel d)
  then show ?case
    by (auto simp: listing_step_def p_seq_def p_bind_def p_ret_def added_leaf is_tdir_def copied_def ordinary_def)
next
  case (2 f rel l)
  then show ?case
    by (auto simp: listing_step_def p_seq_def p_bind_def p_ret_def added_leaf is_tdir_def copied_def ordinary_def)
next
  case (3 f rel es)
  show ?case
  proof (cases "rel = [''.git''] \<or> isBuildArtifact rel")
    case True
    then have ne: "rel \<noteq> []" using artifact_Nil by auto
    have "\<not> (x \<in> added t0 [] rel (TDir es) \<and> ordinary x)" for x
      using True artifact_mono [of rel] by (auto simp: added_def copied_def ordinary_def split: option.splits)
    then show ?thesis using True ne 3(2)
      by (auto simp: listing_step_def p_bind_def p_ret_def is_tdir_def)
  next
    case False
    have r: "rel = [] \<or> ordinary rel" using 3(5) False by blast
    define out' where "out' = (if rel = [] then out else out @ [rel])"
    have "\<exists>l. walk_entries f rel es out' = (Inr (), out' @ l) \<and> set l = {x \<in> added_entries t0 [] rel es. ordinary x}"
      by (rule 3(1)) (use 3(2,3,4) r in \<open>auto simp: tree_at_append\<close>)
    then obtain l where l: "walk_entries f rel es out' = (Inr (), out' @ l)" "set l = {x \<in> added_entries t0 [] rel es. ordinary x}" by blast
    have st: "listing_step rel (TDir es) out = (Inr False, out')"
      using False by (simp add: listing_step_def is_tdir_def out'_def)
    have c: "rel \<in> copied t0" using 3(3) False by (simp add: copied_def is_tdir_def)
    define l' where "l' = (if rel = [] then l else rel # l)"
    have "WalkDir f rel (TDir es) out = (Inr (), out @ l')"
      using l(1) st 3(2) by (simp add: p_bind_def out'_def l'_def split: if_splits)
    moreover have "set l' = {x \<in> added t0 [] rel (TDir es). ordinary x}"
    proof (cases "rel = []")
      case True
      then show ?thesis using l(2) c by (auto simp: l'_def added_dir ordinary_def)
    next
      case False
      then have "ordinary rel" using r by simp
      then show ?thesis using l(2) c False by (auto simp: l'_def added_dir)
    qed
    ultimately show ?thesis by blast
  qed
next
  case (4 f rel)
  then show ?case by (simp add: p_ret_def added_entries_Nil)
next
  case (5 f rel n t es)
  have nn: "n \<notin> fst ` set es" "wf_tree t" "wf_entries es" using 5(5) by auto
  have neq: "map_of es m = Some x \<Longrightarrow> m \<noteq> n" for m x using nn(1) by (metis fst_conv imageI map_of_SomeD)
  have "\<exists>l. WalkDir f (rel @ [n]) t out = (Inr (), out @ l) \<and> set l = {x \<in> added t0 [] (rel @ [n]) t. ordinary x}"
    by (rule 5(1)) (use 5(3,4,6) nn in \<open>auto simp: ordinary_def\<close>)
  then obtain l1 where l1: "WalkDir f (rel @ [n]) t out = (Inr (), out @ l1)" "set l1 = {x \<in> added t0 [] (rel @ [n]) t. ordinary x}" by blast
  have "\<exists>l. walk_entries f rel es (out @ l1) = (Inr (), (out @ l1) @ l) \<and> set l = {x \<in> added_entries t0 [] rel es. ordinary x}"
    by (rule 5(2)) (use 5(3,4,6) nn neq in auto)
  then obtain l2 where "walk_entries f rel es (out @ l1) = (Inr (), (out @ l1) @ l2)" "set l2 = {x \<in> added_entries t0 [] rel es. ordinary x}" by blast
  then have "walk_entries f rel ((n, t) # es) out = (Inr (), out @ (l1 @ l2)) \<and> set (l1 @ l2) = {x \<in> added_entries t0 [] rel ((n, t) # es). ordinary x}"
    using l1 added_entries_Cons [OF nn(1), of t0 "[]" rel t] by (auto simp: p_seq_def p_bind_def)
  then show ?case by blast
qed

lemma walkProjectFiles_paths:
  assumes "wf_tree src"
  shows "\<exists>l. walkProjectFiles src = Inr l \<and> set l = {x \<in> copied src. ordinary x}"
proof -
  obtain l where l: "WalkDir listing_step [] src [] = (Inr (), l)" "set l = {x \<in> added src [] [] src. ordinary x}"
    using listing_walk(1) [OF refl, of src "[]" src "[]"] assms by auto
  have "added src [] [] src = copied src" by (auto simp: added_def copied_def split: option.splits)
  then show ?thesis using l by (auto simp: walkProjectFiles_def listing_step_def [abs_def])
qed

section \<open>Both strategies give the same work copy\<close>

text \<open>
  The paths of the source that belong in the work copy: with the whole tree taken, all but artifacts, bug
  reports and a git link; with git's list, the listed files with their directories, and the git directory
  when history is kept.
\<close>

definition git_paths :: "tree \<Rightarrow> bool \<Rightarrow> fpath set" where
  "git_paths src preserveGit = (case tree_at src [''.git''] of
       Some t \<Rightarrow> if preserveGit \<and> is_tdir t then (\<lambda>q. [''.git''] @ q) ` copied t else {}
     | None \<Rightarrow> {})"

text \<open>What is copied of git's list: what is there and is neither a directory nor left out by name.\<close>

definition listed_files :: "tree \<Rightarrow> fpath list \<Rightarrow> fpath list" where
  "listed_files src rels =
     filter (\<lambda>rel. \<not> (isBugreportFile (base_of rel) \<or> isBuildArtifact rel)
       \<and> (case tree_at src rel of None \<Rightarrow> False | Some t \<Rightarrow> \<not> is_tdir t)) rels"

definition content_paths :: "tree \<Rightarrow> bool \<Rightarrow> bool \<Rightarrow> fpath list \<times> bool \<Rightarrow> fpath set" where
  "content_paths src includeIgnored preserveGit lst =
     (if includeIgnored \<or> \<not> snd lst then copied src
      else {[]} \<union> (\<Union>f\<in>set (listed_files src (fst lst)). anc f) \<union> git_paths src preserveGit)"

definition project_paths :: "tree \<Rightarrow> bool \<Rightarrow> bool \<Rightarrow> fpath list \<times> bool \<Rightarrow> fpath set" where
  "project_paths src includeIgnored preserveGit lst =
     content_paths src includeIgnored preserveGit lst - (if IsGitLink src then {[''.git'']} else {})"

text \<open>Exactly these paths of the source, and nothing else below the work copy.\<close>

definition exactly :: "fpath \<Rightarrow> tree \<Rightarrow> hfs \<Rightarrow> fpath set \<Rightarrow> hfs" where
  "exactly D src fs P = laid D src (without fs D) P"

text \<open>A path whose directories, as far as they are still there, are directories.\<close>

fun straight :: "tree \<Rightarrow> fpath \<Rightarrow> bool" where
  "straight t [] = True"
| "straight (TDir es) (n # p) = (case map_of es n of None \<Rightarrow> True | Some t \<Rightarrow> straight t p)"
| "straight t (n # p) = False"

lemma lstat_straight:
  "straight src rel \<Longrightarrow> lstat_source B src rel = (case tree_at src rel of None \<Rightarrow> Inl not_exist | Some t \<Rightarrow> Inr t)"
proof -
  have "straight t p \<Longrightarrow> lstat_from B rel t p = (case tree_at t p of None \<Rightarrow> Inl not_exist | Some t \<Rightarrow> Inr t)" for t p
    by (induction t p rule: straight.induct) (auto split: option.splits)
  then show "straight src rel \<Longrightarrow> lstat_source B src rel = (case tree_at src rel of None \<Rightarrow> Inl not_exist | Some t \<Rightarrow> Inr t)"
    unfolding lstat_source_def .
qed

lemma listedProjectFiles_straight:
  "list_all (straight src) rels \<Longrightarrow> listedProjectFiles B src rels = Inr (listed_files src rels)"
  by (induction rels) (auto simp: listed_files_def lstat_straight not_exist_def split: option.splits)

text \<open>
  Git lists files and links once, and nothing of its own directory; and no directory of a listed path was
  replaced by a file or a link since it was tracked.
\<close>

definition listing_ok :: "tree \<Rightarrow> fpath list \<Rightarrow> bool" where
  "listing_ok src files \<longleftrightarrow> distinct files \<and>
     (\<forall>f\<in>set files. ordinary f \<and> straight src f \<and> (case tree_at src f of Some t \<Rightarrow> \<not> is_tdir t | None \<Rightarrow> True))"

lemma copyFileList_laid:
  assumes s: "site D src fs" and f: "fits D src fs UNIV"
  shows "listing_ok src files \<Longrightarrow> [] \<in> W \<Longrightarrow> (\<And>x. x \<in> W \<Longrightarrow> x \<in> set files \<Longrightarrow> tree_at src x = None) \<Longrightarrow>
     p_each (copyListed no_faults B src D) files (laid D src fs W)
       = (Inr (), laid D src fs (W \<union> (\<Union>f\<in>set (listed_files src files). anc f)))"
proof (induction files arbitrary: W)
  case Nil
  then show ?case by (simp add: listed_files_def p_ret_def)
next
  case (Cons g files)
  have ok: "listing_ok src files" "g \<notin> set files" using Cons.prems(1) by (auto simp: listing_ok_def)
  let ?sel = "listed_files src"
  show ?case
  proof (cases "g \<in> set (?sel (g # files))")
    case False
    have "copyListed no_faults B src D g (laid D src fs W) = (Inr (), laid D src fs W)"
      using False Cons.prems(1)
      by (auto simp: listed_files_def copyListed_def listing_ok_def lstat_straight not_exist_def p_ret_def split: option.splits)
    moreover have "?sel (g # files) = ?sel files" using False by (auto simp: listed_files_def split: if_splits)
    moreover have "p_each (copyListed no_faults B src D) files (laid D src fs W)
      = (Inr (), laid D src fs (W \<union> (\<Union>f\<in>set (?sel files). anc f)))"
      by (rule Cons.IH [OF ok(1) Cons.prems(2)]) (use Cons.prems(3) in simp)
    ultimately show ?thesis by (simp add: p_seq_def p_bind_def)
  next
    case True
    then obtain t where t: "tree_at src g = Some t" "\<not> is_tdir t" and keep: "\<not> (isBugreportFile (base_of g) \<or> isBuildArtifact g)"
      using ok(2) by (auto simp: listed_files_def split: option.splits if_splits)
    obtain q c where g: "g = q @ [c]" using t s by (cases g rule: rev_cases) (auto simp: site_def)
    from tree_at_prefix [of src q "[c]"] t g obtain es where q: "tree_at src q = Some (TDir es)" by auto
    have mk: "p_ctx m (mkdir_all no_faults (butlast (D @ g))) (laid D src fs W) = (Inr (), laid D src fs (W \<union> anc q))" for m
      using laid_mkdir [OF s f q, of W] g by (simp add: p_ctx_def butlast_append)
    have gW: "g \<notin> W \<union> anc q"
      using Cons.prems(3) [of g] t g by (auto simp: anc_def)
    have op: "(case t of TLink l \<Rightarrow> copySymlink no_faults l (D @ g) | TDir es \<Rightarrow> p_ret () | TFile d \<Rightarrow> copyFile no_faults d (D @ g))
        (laid D src fs (W \<union> anc q)) = (Inr (), laid D src fs (insert g (W \<union> anc q)))"
    proof (cases t)
      case (TFile d)
      then show ?thesis using laid_open [OF s f, of g d "W \<union> anc q"] t g by (simp add: copyFile_def)
    next
      case (TLink l)
      then show ?thesis using laid_symlink [OF s f _ gW, of l] t g by (simp add: copySymlink_def)
    qed (use t in \<open>simp add: is_tdir_def\<close>)
    have W': "insert g (W \<union> anc q) = W \<union> anc g" using g by auto
    have at: "lstat_source B src g = Inr t" using lstat_straight [of src g B] Cons.prems(1) t(1) by (simp add: listing_ok_def)
    have one: "copyListed no_faults B src D g (laid D src fs W) = (Inr (), laid D src fs (W \<union> anc g))"
      using keep at mk op unfolding copyListed_def W' by (simp add: p_seq_def p_bind_def)
    have "p_each (copyListed no_faults B src D) files (laid D src fs (W \<union> anc g))
      = (Inr (), laid D src fs (W \<union> anc g \<union> (\<Union>f\<in>set (?sel files). anc f)))"
    proof (rule Cons.IH [OF ok(1)])
      fix x assume x: "x \<in> W \<union> anc g" "x \<in> set files"
      show "tree_at src x = None"
      proof (rule ccontr)
        assume n: "tree_at src x \<noteq> None"
        then have "x \<in> anc g" using x Cons.prems(3) [of x] by auto
        then obtain r where r: "g = x @ r" by (auto simp: anc_def)
        have "r \<noteq> []" using ok(2) x(2) r by auto
        with tree_at_prefix [of src x r] t r obtain es' where "tree_at src x = Some (TDir es')" by auto
        then show False using ok(1) x(2) by (auto simp: listing_ok_def is_tdir_def)
      qed
    qed (use Cons.prems(2) in simp)
    moreover have "set (?sel (g # files)) = insert g (set (?sel files))"
      using t keep by (auto simp: listed_files_def)
    ultimately show ?thesis using one by (simp add: p_seq_def p_bind_def Un_assoc)
  qed
qed

lemma laid_empty: "laid D src fs {} = fs"
  by (auto simp: laid_def)

lemma content_laid:
  assumes s: "site D src fs" and f: "fits D src fs UNIV" and g: "absent fs (D @ [''.git''])"
    and o: "fs D = None \<Longrightarrow> absent fs D"
    and l: "\<not> includeIgnored \<Longrightarrow> snd lst \<Longrightarrow> listing_ok src (fst lst)"
  shows "copyProjectContent no_faults macos B src D includeIgnored preserveGit (Inr lst) fs
    = (Inr (), laid D src fs (content_paths src includeIgnored preserveGit lst))"
proof -
  have tdir: "is_tdir src" using s by (simp add: site_def)
  have all: "CopyDir no_faults macos src D fs = (Inr (), laid D src fs (copied src))"
    using CopyDir_laid [OF s f, of "[]" src "{}" macos] o tdir by (auto simp: laid_empty)
  show ?thesis
  proof (cases "includeIgnored \<or> \<not> snd lst")
    case True
    then show ?thesis using all by (cases lst) (auto simp: copyProjectContent_def content_paths_def)
  next
    case False
    define W where "W = insert [] (\<Union>f\<in>set (listed_files src (fst lst)). anc f)"
    obtain es where es: "tree_at src [] = Some (TDir es)" using src_root [OF s] by blast
    have m: "mkdir_all no_faults D fs = (Inr (), laid D src fs {[]})"
      using laid_mkdir [OF s f es, of "{}"] by (simp add: laid_empty)
    have "p_each (copyListed no_faults B src D) (fst lst) (laid D src fs {[]}) = (Inr (), laid D src fs ({[]} \<union> (\<Union>f\<in>set (listed_files src (fst lst)). anc f)))"
      by (rule copyFileList_laid [OF s f]) (use l False in \<open>auto simp: listing_ok_def ordinary_def\<close>)
    then have files: "copyFileList no_faults B src D (fst lst) fs = (Inr (), laid D src fs W)"
      using m by (simp add: copyFileList_def p_seq_def p_bind_def p_ctx_def W_def)
    have git: "copyGitDir no_faults macos src D (laid D src fs W) = (Inr (), laid D src fs (W \<union> git_paths src True))"
    proof (cases "tree_at src [''.git'']")
      case None
      then show ?thesis by (simp add: copyGitDir_def git_paths_def p_ret_def)
    next
      case (Some t)
      have W: "[''.git''] @ q \<notin> W" for q
        using l False by (auto simp: W_def listed_files_def listing_ok_def ordinary_def anc_def)
      have "CopyDir no_faults macos t (D @ [''.git'']) (laid D src fs W)
          = (Inr (), laid D src fs (W \<union> (\<lambda>q. [''.git''] @ q) ` copied t))" if "is_tdir t"
      proof (rule CopyDir_laid [OF s f Some that])
        show "absent (laid D src fs W) (D @ [''.git''])"
          using g W by (auto simp: absent_def laid_at [of D src fs W "_ # _"])
      qed (use W in \<open>auto simp: W_def\<close>)
      then show ?thesis using Some by (simp add: copyGitDir_def git_paths_def p_ctx_def p_ret_def)
    qed
    show ?thesis
    proof (cases preserveGit)
      case True
      then show ?thesis using files git False
        by (cases lst) (simp add: copyProjectContent_def content_paths_def p_seq_def p_bind_def p_ret_def W_def)
    next
      case np: False
      then show ?thesis using files False
        by (cases lst) (simp add: copyProjectContent_def content_paths_def p_seq_def p_bind_def p_ret_def W_def git_paths_def split: option.splits)
    qed
  qed
qed

lemma content_paths_root: "is_tdir src \<Longrightarrow> [] \<in> content_paths src includeIgnored preserveGit lst"
  by (simp add: content_paths_def copied_Nil)

lemma CopyProjectDir_laid:
  assumes s: "site D src fs" and f: "fits D src fs UNIV" and g: "absent fs (D @ [''.git''])"
    and o: "fs D = None \<Longrightarrow> absent fs D"
    and l: "\<not> includeIgnored \<Longrightarrow> snd lst \<Longrightarrow> listing_ok src (fst lst)"
  shows "CopyProjectDir no_faults macos B src D includeIgnored preserveGit (Inr lst) fs
    = (Inr (), laid D src fs (project_paths src includeIgnored preserveGit lst))"
proof -
  define W where "W = content_paths src includeIgnored preserveGit lst"
  have c: "copyProjectContent no_faults macos B src D includeIgnored preserveGit (Inr lst) fs = (Inr (), laid D src fs W)"
    unfolding W_def by (rule content_laid [OF s f g o l])
  obtain es where es: "tree_at src [] = Some (TDir es)" using src_root [OF s] by blast
  have "[] \<in> W" using content_paths_root s by (simp add: W_def site_def)
  then have r: "real_dir (laid D src fs W) D" using laid_real [OF s es, of W] by simp
  note e = entry_of_child [OF r, of "''.git''"]
  have gone: "fs (D @ [''.git'']) = None" using g [unfolded absent_def] by (auto dest: spec [of _ "[]"])
  have "RemoveGitLink no_faults D (laid D src fs W) = (Inr ([''.git''] \<in> W \<and> IsGitLink src), laid D src fs (project_paths src includeIgnored preserveGit lst))"
  proof (cases "[''.git''] \<in> W \<and> IsGitLink src")
    case True
    then obtain t where t: "tree_at src [''.git''] = Some t" "\<not> is_tdir t" by (auto simp: IsGitLink_def split: option.splits)
    have "(laid D src fs W)(D @ [''.git''] := None) = laid D src fs (W - {[''.git'']})"
      by (rule ext) (auto simp: laid_def gone elim!: belowE)
    moreover have "project_paths src includeIgnored preserveGit lst = W - {[''.git'']}"
      using True unfolding project_paths_def W_def by simp
    moreover have "laid D src fs W (D @ [''.git'']) = Some (node_of t)" "node_of t \<noteq> HDir"
      using True t by (cases t; simp add: S_at_def is_tdir_def)+
    ultimately show ?thesis using True e
      by (cases t) (simp_all add: RemoveGitLink_def Lstat_def remove_file_def p_seq_def p_bind_def p_ctx_def p_ret_def)
  next
    case False
    have nd: "laid D src fs W (D @ [''.git'']) = None \<or> laid D src fs W (D @ [''.git'']) = Some HDir"
      using False gone by (auto simp: S_at_def IsGitLink_def is_tdir_def split: option.splits tree.splits)
    have "W - (if IsGitLink src then {[''.git'']} else {}) = W" using False by auto
    then have P: "project_paths src includeIgnored preserveGit lst = W" unfolding project_paths_def W_def .
    from nd have "RemoveGitLink no_faults D (laid D src fs W) = (Inr False, laid D src fs W)"
      unfolding RemoveGitLink_def Lstat_def e by (elim disjE) simp_all
    then show ?thesis unfolding P using False by simp
  qed
  then show ?thesis using c by (simp add: CopyProjectDir_def p_seq_def p_bind_def p_ret_def)
qed

lemma ordinary_anc: "ordinary rel \<Longrightarrow> x \<in> anc rel \<Longrightarrow> x \<noteq> [] \<Longrightarrow> ordinary x"
  by (cases x) (auto simp: ordinary_def anc_def)

text \<open>The prune keeps the ordinary paths that the copy wrote.\<close>

lemma kept_paths:
  assumes "wf_tree src" and l: "\<not> includeIgnored \<Longrightarrow> isRepo \<Longrightarrow> listing_ok src files"
  shows "\<exists>fl. ProjectFileSet B src includeIgnored (Inr (files, isRepo)) = Inr fl
    \<and> pathsWithAncestors fl = {x \<in> project_paths src includeIgnored preserveGit (files, isRepo). ordinary x}"
proof (cases "includeIgnored \<or> \<not> isRepo")
  case True
  obtain fl where fl: "walkProjectFiles src = Inr fl" "set fl = {x \<in> copied src. ordinary x}"
    using walkProjectFiles_paths [OF assms(1)] by blast
  have "(\<Union>f\<in>set fl. anc f) - {[]} = {x \<in> copied src. ordinary x}"
  proof (intro equalityI subsetI)
    fix x assume "x \<in> (\<Union>f\<in>set fl. anc f) - {[]}"
    then obtain f where f: "f \<in> copied src" "ordinary f" "x \<in> anc f" "x \<noteq> []" unfolding fl(2) by blast
    then show "x \<in> {x \<in> copied src. ordinary x}" using copied_anc [OF f(1)] ordinary_anc [OF f(2-4)] by blast
  next
    fix x assume x: "x \<in> {x \<in> copied src. ordinary x}"
    then have "x \<in> set fl" "x \<in> anc x" "x \<noteq> []" unfolding fl(2) by (simp_all add: ordinary_def)
    then show "x \<in> (\<Union>f\<in>set fl. anc f) - {[]}" by blast
  qed
  moreover have "{x \<in> project_paths src includeIgnored preserveGit (files, isRepo). ordinary x} = {x \<in> copied src. ordinary x}"
    using True by (auto simp: project_paths_def content_paths_def ordinary_def)
  ultimately show ?thesis using fl(1) True by (auto simp: ProjectFileSet_def pathsWithAncestors_anc)
next
  case False
  let ?sel = "listed_files src files"
  have o: "f \<in> set ?sel \<Longrightarrow> ordinary f" for f using l False by (auto simp: listed_files_def listing_ok_def)
  have g: "x \<in> git_paths src preserveGit \<Longrightarrow> \<not> ordinary x" for x
    by (auto simp: git_paths_def ordinary_def split: option.splits if_splits)
  have "(\<Union>f\<in>set ?sel. anc f) - {[]} = {x \<in> project_paths src includeIgnored preserveGit (files, isRepo). ordinary x}"
  proof (intro equalityI subsetI)
    fix x assume "x \<in> (\<Union>f\<in>set ?sel. anc f) - {[]}"
    then obtain f where f: "f \<in> set ?sel" "x \<in> anc f" "x \<noteq> []" by blast
    have "ordinary x" by (rule ordinary_anc [OF o [OF f(1)] f(2,3)])
    then show "x \<in> {x \<in> project_paths src includeIgnored preserveGit (files, isRepo). ordinary x}"
      using f False by (auto simp: project_paths_def content_paths_def ordinary_def)
  next
    fix x assume "x \<in> {x \<in> project_paths src includeIgnored preserveGit (files, isRepo). ordinary x}"
    then have x: "x \<in> project_paths src includeIgnored preserveGit (files, isRepo)" "ordinary x" by simp_all
    have "x \<notin> git_paths src preserveGit" "x \<noteq> []" using g [of x] x(2) by (auto simp: ordinary_def)
    then show "x \<in> (\<Union>f\<in>set ?sel. anc f) - {[]}"
      using x(1) False by (simp add: project_paths_def content_paths_def split: if_splits)
  qed
  moreover have "list_all (straight src) files" using l False by (simp add: listing_ok_def list_all_iff)
  ultimately show ?thesis using False
    by (auto simp: ProjectFileSet_def pathsWithAncestors_anc listedProjectFiles_straight)
qed

lemma some_prefix_not_kept:
  assumes "\<And>x y. y \<in> K \<Longrightarrow> x \<in> anc y \<Longrightarrow> x \<noteq> [] \<Longrightarrow> x \<in> K" and "rel \<noteq> []"
  shows "list_ex (\<lambda>k. take (Suc k) rel \<notin> K) [0..<length rel] \<longleftrightarrow> rel \<notin> K"
proof
  assume "list_ex (\<lambda>k. take (Suc k) rel \<notin> K) [0..<length rel]"
  then obtain k where k: "take (Suc k) rel \<notin> K" by (auto simp: list_ex_iff)
  have "take (Suc k) rel \<in> anc rel" by (auto simp: anc_def intro: exI [of _ "drop (Suc k) rel"])
  then show "rel \<notin> K" using assms k by (metis take_eq_Nil nat.distinct(1))
next
  assume "rel \<notin> K"
  then have "take (Suc (length rel - 1)) rel \<notin> K" using assms(2) by simp
  then show "list_ex (\<lambda>k. take (Suc k) rel \<notin> K) [0..<length rel]"
    using assms(2) by (auto simp: list_ex_iff intro!: bexI [of _ "length rel - 1"])
qed

lemma project_paths_closed:
  "y \<in> project_paths src i g lst \<Longrightarrow> ordinary y \<Longrightarrow> x \<in> anc y \<Longrightarrow> x \<noteq> [] \<Longrightarrow> x \<in> project_paths src i g lst"
proof -
  assume y: "y \<in> project_paths src i g lst" "ordinary y" and x: "x \<in> anc y" "x \<noteq> []"
  have o: "ordinary x" by (rule ordinary_anc [OF y(2) x])
  have ng: "y \<notin> git_paths src g" using y(2) by (auto simp: git_paths_def ordinary_def split: option.splits if_splits)
  have "y \<noteq> []" using y(2) by (simp add: ordinary_def)
  then have "x \<in> content_paths src i g lst"
    using y(1) ng x copied_anc [of y src] anc_trans [OF x(1)]
    by (auto simp: project_paths_def content_paths_def split: if_splits)
  then show "x \<in> project_paths src i g lst" using o by (auto simp: project_paths_def ordinary_def)
qed

lemma site_cong: "site D src fs \<Longrightarrow> (\<And>x. \<not> below D x \<Longrightarrow> fs' x = fs x) \<Longrightarrow> site D src fs'"
  by (auto simp: site_def real_dir_def below_longer)

text \<open>
  C13: a work copy holds exactly what belongs in it. For both strategies, with or without the clone of macOS,
  whatever was below the work copy before, it ends up as the project's paths with the content of
  the source and nothing else; so a reset in place gives what a fresh copy gives, and no file that
  git ignores, no build artifact, no bug report and no git link is in it. For the reset in place what is
  there must be of the source's kind, with no link where the source has one.
\<close>

theorem work_copy_is_exact:
  assumes "site D (Src sp) fs"
    and "strategy = InPlaceAndPrune \<longrightarrow> fs D = Some HDir \<and> fits D (Src sp) fs {rel. rel = [] \<or> ordinary rel}"
    and "\<not> sp_IncludeIgnored sp \<and> isRepo \<longrightarrow> listing_ok (Src sp) files"
  shows "bringDestinationInLine no_faults macos sp D strategy preserveGit (Inr (files, isRepo)) fs
    = (Inr (), exactly D (Src sp) fs (project_paths (Src sp) (sp_IncludeIgnored sp) preserveGit (files, isRepo)))"
proof -
  let ?src = "Src sp" and ?P = "project_paths (Src sp) (sp_IncludeIgnored sp) preserveGit (files, isRepo)"
  note s = assms(1)
  have l: "\<not> sp_IncludeIgnored sp \<Longrightarrow> snd (files, isRepo) \<Longrightarrow> listing_ok ?src (fst (files, isRepo))" using assms(3) by simp
  obtain p c where D: "D = p @ [c]" "real_dir fs p" "plain_name c" using site_snoc [OF s] by blast
  show ?thesis
  proof (cases strategy)
    case WipeAndCopy
    define fs1 where "fs1 = without fs D"
    have nil: "fs1 (D @ rel) = None" for rel by (simp add: fs1_def without_def)
    have "remove_all no_faults D fs = (Inr (), fs1)"
      using entry_of_child [OF D(2), of c] D(1) by (simp add: remove_all_def fs1_def)
    moreover have "CopyProjectDir no_faults macos (sp_Beyond sp) ?src D (sp_IncludeIgnored sp) preserveGit (Inr (files, isRepo)) fs1
        = (Inr (), laid D ?src fs1 ?P)"
    proof (rule CopyProjectDir_laid [OF _ _ _ _ l])
      show "site D ?src fs1" by (rule site_cong [OF s]) (simp add: fs1_def without_def below_def)
      show "fits D ?src fs1 UNIV" using nil by (auto simp: fits_def split: option.splits hnode.splits)
      show "absent fs1 (D @ [''.git''])" "absent fs1 D" using nil by (simp_all add: absent_def)
    qed
    ultimately show ?thesis
      by (simp add: bringDestinationInLine_def WipeAndCopy p_seq_def p_bind_def p_ctx_def exactly_def fs1_def)
  next
    case InPlaceAndPrune
    then have dir: "fs D = Some HDir" and fit: "fits D ?src fs {rel. rel = [] \<or> ordinary rel}" using assms(2) by auto
    define fs1 where "fs1 = without fs (D @ [''.git''])"
    have at: "fs1 (D @ rel) = (if rel = [] \<or> ordinary rel then fs (D @ rel) else None)" for rel
      by (cases rel) (auto simp: fs1_def without_def ordinary_def)
    have "real_dir fs D" using D dir real_dir_snoc [of fs p c] by simp
    then have rm: "remove_all no_faults (D @ [''.git'']) fs = (Inr (), fs1)"
      using entry_of_child [of fs D "''.git''"] by (simp add: remove_all_def fs1_def)
    have away: "\<not> below D x \<Longrightarrow> fs1 x = fs x" for x
      using below_app [of D "[''.git'']" x] by (auto simp: fs1_def without_def)
    have site1: "site D ?src fs1" by (rule site_cong [OF s away])
    have copy: "CopyProjectDir no_faults macos (sp_Beyond sp) ?src D (sp_IncludeIgnored sp) preserveGit (Inr (files, isRepo)) fs1
        = (Inr (), laid D ?src fs1 ?P)"
    proof (rule CopyProjectDir_laid [OF site1 _ _ _ l])
      show "fits D ?src fs1 UNIV" unfolding fits_def
      proof (intro ballI)
        fix rel
        show "case S_at ?src rel of None \<Rightarrow> True
          | Some HDir \<Rightarrow> fs1 (D @ rel) = None \<or> fs1 (D @ rel) = Some HDir
          | Some (HFile _) \<Rightarrow> fs1 (D @ rel) = None \<or> (\<exists>d. fs1 (D @ rel) = Some (HFile d))
          | Some (HLink _) \<Rightarrow> fs1 (D @ rel) = None"
        proof (cases "rel = [] \<or> ordinary rel")
          case True
          then have e: "fs1 (D @ rel) = fs (D @ rel)" using at [of rel] by simp
          show ?thesis unfolding e using bspec [OF fit [unfolded fits_def], of rel] True by simp
        next
          case False
          then show ?thesis using at [of rel] by (simp split: option.splits hnode.splits)
        qed
      qed
      show "absent fs1 (D @ [''.git''])" unfolding absent_def by (simp add: at ordinary_def)
      show "fs1 D = None \<Longrightarrow> absent fs1 D" using at [of "[]"] dir by simp
    qed
    obtain fl where fl: "ProjectFileSet (sp_Beyond sp) ?src (sp_IncludeIgnored sp) (Inr (files, isRepo)) = Inr fl"
        "pathsWithAncestors fl = {x \<in> ?P. ordinary x}"
      using kept_paths [of ?src "sp_IncludeIgnored sp" isRepo files "sp_Beyond sp" preserveGit] s assms(3) by (auto simp: site_def)
    define F where "F = laid D ?src fs1 ?P"
    have root: "[] \<in> ?P" using content_paths_root s by (simp add: project_paths_def site_def)
    have FD: "F D = Some HDir" using laid_at [of D ?src fs1 ?P "[]"] root src_root [OF s] by (auto simp: F_def S_at_def)
    have Fp: "real_dir F p" using laid_parent [OF site1, of ?P] D(1) by (simp add: F_def)
    define doomed where "doomed = (\<lambda>rel (_ :: hnode). rel \<noteq> [] \<and> hd rel \<noteq> ''.git''
        \<and> list_ex (\<lambda>k. take (Suc k) rel \<notin> {x \<in> ?P. ordinary x}) [0..<length rel])"
    have closed: "x \<in> {x \<in> ?P. ordinary x}" if "y \<in> {x \<in> ?P. ordinary x}" "x \<in> anc y" "x \<noteq> []" for x y
      using that project_paths_closed [of y] ordinary_anc [of y x] by blast
    have doom: "doomed rel n \<longleftrightarrow> ordinary rel \<and> rel \<notin> ?P" for rel n
    proof (cases "ordinary rel")
      case True
      then have "rel \<noteq> []" "hd rel \<noteq> ''.git''" by (simp_all add: ordinary_def)
      then show ?thesis
        unfolding doomed_def using some_prefix_not_kept [where rel = rel, OF closed] True by simp
    qed (auto simp: doomed_def ordinary_def)
    have "PruneToFileSet no_faults D fl F = (Inr (), \<lambda>x. if below D x \<and> (case F x of Some n \<Rightarrow> doomed (drop (length D) x) n | None \<Rightarrow> False) then None else F x)"
    proof -
      have "PruneToFileSet no_faults D fl = remove_below no_faults D doomed"
        unfolding PruneToFileSet_def Let_def fl(2) doomed_def by (rule refl)
      moreover have "F (p @ [c]) \<noteq> None" using FD D(1) by simp
      ultimately show ?thesis using remove_below_real [OF Fp, of c doomed, folded D(1)] by (simp add: D(1) [symmetric])
    qed
    moreover have "(\<lambda>x. if below D x \<and> (case F x of Some n \<Rightarrow> doomed (drop (length D) x) n | None \<Rightarrow> False) then None else F x)
        = exactly D ?src fs ?P"
    proof
      fix x
      show "(if below D x \<and> (case F x of Some n \<Rightarrow> doomed (drop (length D) x) n | None \<Rightarrow> False) then None else F x)
          = exactly D ?src fs ?P x"
      proof (cases "below D x")
        case True
        then obtain rel where x: "x = D @ rel" by (elim belowE)
        have b: "below D (D @ rel)" by simp
        have Fr: "F (D @ rel) = (if rel \<in> ?P then S_at ?src rel else fs1 (D @ rel))" unfolding F_def by (rule laid_at)
        have e: "exactly D ?src fs ?P (D @ rel) = (if rel \<in> ?P then S_at ?src rel else None)"
          unfolding exactly_def laid_at by (simp add: without_def)
        have dr: "drop (length D) (D @ rel) = rel" by simp
        show ?thesis
        proof (cases "rel \<in> ?P")
          case True
          then show ?thesis unfolding x dr e Fr doom by (simp split: option.splits)
        next
          case False
          then have "ordinary rel \<or> fs1 (D @ rel) = None" using at [of rel] root by auto
          then show ?thesis unfolding x dr e Fr doom using False b by (auto split: option.splits)
        qed
      next
        case False
        then show ?thesis using away [OF False] by (simp add: F_def exactly_def laid_outside) (simp add: without_def below_def)
      qed
    qed
    ultimately show ?thesis using rm copy fl(1)
      by (simp add: bringDestinationInLine_def InPlaceAndPrune p_seq_def p_bind_def p_ctx_def p_ret_def F_def)
  qed
qed

section \<open>Examples\<close>

definition demo_spec :: "tree \<Rightarrow> bool \<Rightarrow> Spec" where
  "demo_spec t all = \<lparr>Src = t, sp_Beyond = \<lambda>_. Inl not_exist, sp_IncludeIgnored = all, sp_StripHistory = False\<rparr>"

definition one_file :: tree where "one_file = TDir [(''a'', TFile ''x'')]"

definition worked_on :: hfs where
  "worked_on = [[''w''] \<mapsto> HDir, [''w'', ''a''] \<mapsto> HFile ''changed'', [''w'', ''added''] \<mapsto> HFile ''y'']"

lemma one_file_fits: "site [''w''] one_file worked_on" "fits [''w''] one_file worked_on {rel. rel = [] \<or> ordinary rel}"
proof -
  show "site [''w''] one_file worked_on" by (simp add: site_def one_file_def plain_name_def is_tdir_def)
  have "S_at one_file rel = (if rel = [] then Some HDir else if rel = [''a''] then Some (HFile ''x'') else None)" for rel
    by (cases rel; cases "tl rel") (auto simp: S_at_def one_file_def)
  then show "fits [''w''] one_file worked_on {rel. rel = [] \<or> ordinary rel}"
    by (simp add: fits_def worked_on_def)
qed

theorem work_copy_is_exact_witness:
  "\<exists>fs. bringDestinationInLine no_faults False (demo_spec one_file True) [''w''] InPlaceAndPrune True (Inr ([], False)) worked_on = (Inr (), fs)
     \<and> fs [''w'', ''a''] = Some (HFile ''x'') \<and> fs [''w'', ''added''] = None"
proof -
  define P where "P = project_paths one_file True True ([], False)"
  have a: "bringDestinationInLine no_faults False (demo_spec one_file True) [''w''] InPlaceAndPrune True (Inr ([], False)) worked_on
      = (Inr (), exactly [''w''] one_file worked_on P)"
    using work_copy_is_exact [of "[''w'']" "demo_spec one_file True" worked_on InPlaceAndPrune False "[]" False True] one_file_fits
    by (simp add: demo_spec_def P_def worked_on_def)
  have "\<not> isBuildArtifact [''a'']" "\<not> isBugreportFile (base_of [''a''])" by code_simp+
  then have "[''a''] \<in> P"
    by (simp add: P_def project_paths_def content_paths_def copied_def one_file_def is_tdir_def IsGitLink_def)
  moreover have "tree_at one_file [''added''] = None" by code_simp
  ultimately have "exactly [''w''] one_file worked_on P [''w'', ''a''] = Some (HFile ''x'')"
    "exactly [''w''] one_file worked_on P [''w'', ''added''] = None"
    by (simp_all add: exactly_def laid_def below_def without_def S_at_def one_file_def)
  then show ?thesis using a by blast
qed

definition linking :: tree where
  "linking = TDir [(''etc'', TLink ''/etc''), (''f'', TFile ''x'')]"

definition host_files :: hfs where
  "host_files = [[''etc''] \<mapsto> HDir, [''etc'', ''passwd''] \<mapsto> HFile ''root'', [''w''] \<mapsto> HDir, [''w'', ''etc''] \<mapsto> HLink ''/etc'']"

theorem work_copy_is_confined_witness:
  "snd (bringDestinationInLine no_faults False (demo_spec linking True) [''w''] InPlaceAndPrune True (Inr ([], False)) host_files) [''etc'', ''passwd'']
     = Some (HFile ''root'')"
proof -
  have s: "site [''w''] (Src (demo_spec linking True)) host_files"
    by (simp add: site_def demo_spec_def linking_def plain_name_def is_tdir_def)
  have l: "InPlaceAndPrune = InPlaceAndPrune \<longrightarrow> (\<forall>rel t. host_files ([''w''] @ rel) = Some (HLink t) \<longrightarrow> (\<exists>l. tree_at (Src (demo_spec linking True)) rel = Some (TLink l)))"
    by (auto simp: host_files_def demo_spec_def linking_def split: if_splits)
  have b: "\<not> below [''w''] [''etc'', ''passwd'']" by (simp add: below_def)
  have h: "host_files [''etc'', ''passwd''] = Some (HFile ''root'')" by (simp add: host_files_def)
  have a: "listed_apart (Src (demo_spec linking True)) (sp_IncludeIgnored (demo_spec linking True)) (Inr ([], False))"
    by (simp add: listed_apart_def)
  show ?thesis using work_copy_is_confined [OF s l a b, of no_faults False True] unfolding h .
qed

text \<open>
  Without the hypothesis on links: an agent that replaces a file of the work copy by a link makes the reset in
  place write the content of the project's file through it, here over a file of the user's home.
\<close>

lemma reset_writes_through_planted_link:
  "let r = bringDestinationInLine no_faults False (demo_spec (TDir [(''f'', TFile ''new'')]) False) [''w''] InPlaceAndPrune True
        (Inr ([[''f'']], True)) [[''w''] \<mapsto> HDir, [''w'', ''f''] \<mapsto> HLink ''/home/rc'', [''home''] \<mapsto> HDir, [''home'', ''rc''] \<mapsto> HFile ''mine'']
   in fst r = Inr () \<and> snd r [''home'', ''rc''] = Some (HFile ''new'')"
  by code_simp

text \<open>
  A project with a symbolic link cannot be reset in place: the link is there already, since the first copy made
  it, and making it again fails, after the git directory of the work copy was removed.
\<close>

lemma reset_fails_on_links:
  "let src = demo_spec (TDir [(''.git'', TDir [(''HEAD'', TFile ''ref'')]), (''l'', TLink ''a'')]) False;
       made = snd (bringDestinationInLine no_faults False src [''w''] WipeAndCopy True (Inr ([[''l'']], True)) Map.empty);
       r = bringDestinationInLine no_faults False src [''w''] InPlaceAndPrune True (Inr ([[''l'']], True)) made
   in made [''w'', ''.git'', ''HEAD''] = Some (HFile ''ref'') \<and> made [''w'', ''l''] = Some (HLink ''a'')
    \<and> \<not> is_ok (fst r) \<and> snd r [''w'', ''.git''] = None"
  by code_simp

text \<open>Likewise when the agent replaced a file of the project by a directory.\<close>

lemma reset_fails_on_changed_kind:
  "let r = bringDestinationInLine no_faults False (demo_spec (TDir [(''f'', TFile ''x'')]) False) [''w''] InPlaceAndPrune True
        (Inr ([[''f'']], True)) [[''w''] \<mapsto> HDir, [''w'', ''f''] \<mapsto> HDir, [''w'', ''.git''] \<mapsto> HDir]
   in \<not> is_ok (fst r) \<and> snd r [''w'', ''.git''] = None"
  by code_simp

text \<open>
  A tracked file \<open>a/b\<close> whose directory \<open>a\<close> was replaced by a relative link: git still lists both, the link is
  made again in the work copy, and the file is written through it, next to the work copy. With a file in the
  place of \<open>a\<close> the copy fails, though the tracked path is only gone.
\<close>

definition relinked :: Spec where
  "relinked = \<lparr>Src = TDir [(''a'', TLink ''../shared'')], sp_Beyond = (\<lambda>_. Inr (TFile ''theirs'')),
     sp_IncludeIgnored = False, sp_StripHistory = False\<rparr>"

lemma copy_writes_through_its_own_link:
  "let r = bringDestinationInLine no_faults False relinked [''sb'', ''w''] WipeAndCopy True
        (Inr ([[''a''], [''a'', ''b'']], True)) [[''sb''] \<mapsto> HDir, [''sb'', ''shared''] \<mapsto> HDir, [''sb'', ''shared'', ''b''] \<mapsto> HFile ''mine'']
   in fst r = Inr () \<and> snd r [''sb'', ''shared'', ''b''] = Some (HFile ''theirs'')"
  by code_simp

lemma copy_fails_on_replaced_directory:
  "\<not> is_ok (fst (bringDestinationInLine no_faults False (demo_spec (TDir [(''a'', TFile ''x'')]) False) [''w''] WipeAndCopy True
      (Inr ([[''a''], [''a'', ''b'']], True)) Map.empty))"
  by code_simp

text \<open>
  The two strategies differ on a submodule below a directory: the copy makes the parent, the file set does
  not have it.
\<close>

lemma strategies_differ_on_submodules:
  "let src = demo_spec (TDir [(''lib'', TDir [(''sub'', TDir [])])]) False;
       wipe = bringDestinationInLine no_faults False src [''w''] WipeAndCopy True (Inr ([[''lib'', ''sub'']], True)) [[''w''] \<mapsto> HDir];
       place = bringDestinationInLine no_faults False src [''w''] InPlaceAndPrune True (Inr ([[''lib'', ''sub'']], True)) [[''w''] \<mapsto> HDir]
   in snd wipe [''w'', ''lib''] = Some HDir \<and> snd place [''w'', ''lib''] = None"
  by code_simp

text \<open>The git directory is copied with the filter for project files, so branches of such names are lost.\<close>

lemma branch_of_artifact_name_is_lost: "[''refs'', ''heads'', ''DerivedData''] \<notin> copied t"
proof -
  have "isBuildArtifact [''refs'', ''heads'', ''DerivedData'']" by code_simp
  then show ?thesis by (auto simp: copied_def split: option.splits)
qed

end
