(* ===== verification/GitOps.thy ===== *)
theory GitOps
  imports Effects Environment Backend EnvSetup Status
begin

text \<open>
  The git operations of \<open>internal/git\<close>: \<open>ops.go\<close>, \<open>git.go\<close> and \<open>tags.go\<close>. Running git is a parameter, a
  program that takes the directory, the standard input and the arguments and answers with the output or an
  error; a command that exits with a code other than 0 fails with the kind \<open>ErrExec\<close>. Directories have an
  arbitrary type where nothing but git looks at them. What goes beyond git (temporary directories, links,
  patch files) is a record of operations. Messages are shortened, and the output of a failed
  command is not part of them.
\<close>

type_synonym ('d, 's) git = "'d \<Rightarrow> string option \<Rightarrow> string list \<Rightarrow> ('s, string) prog"

section \<open>Text\<close>

fun fields_from :: "string \<Rightarrow> string \<Rightarrow> string list" where
  "fields_from w [] = (if w = [] then [] else [w])"
| "fields_from w (c # cs) =
     (if is_space c then (if w = [] then fields_from [] cs else w # fields_from [] cs) else fields_from (w @ [c]) cs)"

text \<open>\<open>strings.Fields\<close>\<close>

definition Fields :: "string \<Rightarrow> string list" where
  "Fields s = fields_from [] s"

fun split_on :: "char \<Rightarrow> string \<Rightarrow> string list" where
  "split_on d [] = [[]]"
| "split_on d (c # s) = (if c = d then [] # split_on d s
     else case split_on d s of l # ls \<Rightarrow> (c # l) # ls | [] \<Rightarrow> [[c]])"

definition TrimNewlines :: "string \<Rightarrow> string" where
  "TrimNewlines s = rev (dropWhile (\<lambda>c. c = CHR 10) (rev s))"

text \<open>The leftmost match of a pattern that is tried at every position.\<close>

fun search :: "(string \<Rightarrow> 'a option) \<Rightarrow> string \<Rightarrow> 'a option" where
  "search m [] = m []"
| "search m (c # cs) = (case m (c # cs) of Some r \<Rightarrow> Some r | None \<Rightarrow> search m cs)"

section \<open>Running git\<close>

definition Run :: "('d, 's) git \<Rightarrow> 'd \<Rightarrow> string list \<Rightarrow> ('s, string) prog" where
  "Run g dir args = g dir None args"

definition RunInput :: "('d, 's) git \<Rightarrow> 'd \<Rightarrow> string \<Rightarrow> string list \<Rightarrow> ('s, string) prog" where
  "RunInput g dir stdin args = g dir (Some stdin) args"

definition p_maperr :: "(gerror \<Rightarrow> gerror) \<Rightarrow> ('s, 'a) prog \<Rightarrow> ('s, 'a) prog" where
  "p_maperr f m = (\<lambda>s. case m s of (Inl e, s') \<Rightarrow> (Inl (f e), s') | (Inr a, s') \<Rightarrow> (Inr a, s'))"

definition run_error :: "string list \<Rightarrow> gerror \<Rightarrow> gerror" where
  "run_error args e = (case kind_of e of
       ErrExec code stderr \<Rightarrow> wrap (''git '' @ hd args @ (if stderr \<noteq> [] then '': '' @ stderr else [])) e
     | _ \<Rightarrow> e)"

definition RunCmd :: "('d, 's) git \<Rightarrow> 'd \<Rightarrow> string list \<Rightarrow> ('s, unit) prog" where
  "RunCmd g dir args = p_seq (p_maperr (run_error args) (Run g dir args)) (p_ret ())"

definition hostExec_args :: "string \<Rightarrow> string list \<Rightarrow> string list" where
  "hostExec_args workDir args = GitHardeningArgs @ [''-C'', workDir] @ args"

text \<open>In the sandbox the work copy is at its mount path, and the command line trusts that path.\<close>

definition confinementWorkPath :: "(string \<Rightarrow> string) \<Rightarrow> Environment \<Rightarrow> string \<Rightarrow> string" where
  "confinementWorkPath workDirOf meta workDir =
     (case find (\<lambda>d. workDirOf (HostPath d) = workDir) (Dirs meta) of
        Some d \<Rightarrow> if MountPath d \<noteq> [] then MountPath d else HostPath d
      | None \<Rightarrow> workDir)"

definition sandboxExec_args :: "(string \<Rightarrow> string) \<Rightarrow> Environment \<Rightarrow> string \<Rightarrow> string list \<Rightarrow> string \<times> string list" where
  "sandboxExec_args workDirOf meta workDir args =
     (let p = confinementWorkPath workDirOf meta workDir
      in (p, [''-c'', ''safe.directory='' @ p] @ args))"

section \<open>Baselines\<close>

definition HeadSHA :: "('d, 's) git \<Rightarrow> 'd \<Rightarrow> ('s, string) prog" where
  "HeadSHA g dir = p_bind (p_ctx ''git rev-parse HEAD'' (Run g dir [''rev-parse'', ''HEAD''])) (\<lambda>out. p_ret (TrimSpace out))"

definition IsEmptyRepo :: "('d, 's) git \<Rightarrow> 'd \<Rightarrow> ('s, bool) prog" where
  "IsEmptyRepo g dir = p_bind (p_try (Run g dir [''rev-parse'', ''--verify'', ''HEAD''])) (\<lambda>r. p_ret (\<not> is_ok r))"

definition Baseline :: "('d, 's) git \<Rightarrow> 'd \<Rightarrow> ('s, string) prog" where
  "Baseline g workDir = p_seq (p_each (RunCmd g workDir)
      [[''init''],
       [''config'', ''user.email'', ''yoloai@localhost''],
       [''config'', ''user.name'', ''yoloai''],
       [''add'', ''-A''],
       [''commit'', ''-m'', ''yoloai baseline'', ''--allow-empty'']])
     (HeadSHA g workDir)"

definition BaselineUncommittedChanges :: "('d, 's) git \<Rightarrow> 'd \<Rightarrow> ('s, string) prog" where
  "BaselineUncommittedChanges g workDir =
     p_bind (p_try (Run g workDir [''status'', ''--porcelain''])) (\<lambda>r.
       if (case r of Inl _ \<Rightarrow> True | Inr out \<Rightarrow> TrimSpace out = []) then HeadSHA g workDir
       else p_seq (p_ctx ''stage pre-session changes'' (RunCmd g workDir [''add'', ''-A'']))
        (p_seq (p_ctx ''commit pre-session state'' (RunCmd g workDir [''-c'', ''user.email=yoloai@localhost'',
            ''-c'', ''user.name=yoloai'', ''commit'', ''-m'', ''yoloai: pre-session state'']))
         (HeadSHA g workDir)))"

definition IsIndexLocked :: "gerror \<Rightarrow> bool" where
  "IsIndexLocked e = Contains (message_of e) ''index.lock''"

text \<open>Up to five attempts while another git holds the index lock.\<close>

fun add_retry :: "nat \<Rightarrow> ('s, unit) prog \<Rightarrow> ('s, unit) prog" where
  "add_retry 0 m = p_ret ()"
| "add_retry (Suc n) m = p_bind (p_try m) (\<lambda>r. case r of
       Inr _ \<Rightarrow> p_ret ()
     | Inl e \<Rightarrow> if \<not> IsIndexLocked e \<or> n = 0 then p_fail e else add_retry n m)"

definition StageUntracked :: "('d, 's) git \<Rightarrow> 'd \<Rightarrow> ('s, unit) prog" where
  "StageUntracked g workDir = add_retry 5 (RunCmd g workDir [''add'', ''-A''])"

definition path_args :: "string list \<Rightarrow> string list" where
  "path_args paths = (if paths \<noteq> [] then ''--'' # paths else [])"

definition RWDiff :: "('d, 's) git \<Rightarrow> bool \<Rightarrow> 'd \<Rightarrow> string list \<Rightarrow> bool \<Rightarrow> bool \<Rightarrow> bool \<Rightarrow> ('s, string) prog" where
  "RWDiff g isRepo workDir paths stat nameOnly numstat =
     (if \<not> isRepo then p_ret []
      else p_bind (p_ctx ''git diff'' (Run g workDir ([''diff'']
          @ (if numstat then [''--numstat''] else if nameOnly then [''--name-only''] else if stat then [''--stat''] else [])
          @ [''HEAD''] @ path_args paths))) (\<lambda>out. p_ret (TrimNewlines out)))"

section \<open>Listing\<close>

definition ListProjectFiles :: "('d, 's) git \<Rightarrow> 'd \<Rightarrow> ('s, string list \<times> bool) prog" where
  "ListProjectFiles g dir =
     p_bind (p_try (Run g dir [''rev-parse'', ''--is-inside-work-tree''])) (\<lambda>r. case r of
       Inl e \<Rightarrow> (case kind_of e of ErrExec _ _ \<Rightarrow> p_ret ([], False) | _ \<Rightarrow> p_fail (wrap ''git rev-parse'' e))
     | Inr out \<Rightarrow>
         if TrimSpace out \<noteq> ''true'' then p_ret ([], False)
         else p_bind (p_ctx ''git ls-files'' (Run g dir [''ls-files'', ''-z'', ''--cached'', ''--others'', ''--exclude-standard'']))
           (\<lambda>ls. p_ret (filter (\<lambda>f. f \<noteq> []) (split_on (CHR 0x00) ls), True)))"

definition dirty_counts :: "string list \<Rightarrow> nat \<times> nat" where
  "dirty_counts lines = foldl (\<lambda>(m, u) line.
       if length line < 3 then (m, u)
       else if is_bugreport (Base (drop 3 line)) then (m, u)
       else if HasPrefix line ''??'' then (m, u + 1) else (m + 1, u)) (0, 0) lines"

definition CheckDirtyRepo :: "('d, 's) git \<Rightarrow> bool \<Rightarrow> 'd \<Rightarrow> ('s, string) prog" where
  "CheckDirtyRepo g hasGit dir =
     (if \<not> hasGit then p_ret []
      else p_bind (p_ctx ''git status'' (Run g dir [''status'', ''--porcelain''])) (\<lambda>out.
        if out = [] then p_ret []
        else let (m, u) = dirty_counts (split_lines (TrimSpace out));
                 parts = (if m > 0 then [Itoa m @ '' files modified''] else []) @ (if u > 0 then [Itoa u @ '' untracked''] else [])
             in p_ret (join_comma parts)))"

section \<open>Applying patches\<close>

text \<open>What the operations on patches need besides git.\<close>

record 's hostops =
  mktemp :: "('s, string) prog"
  rmtemp :: "string \<Rightarrow> ('s, unit) prog"
  eval_links :: "string \<Rightarrow> ('s, string) prog"
  read_patch :: "string \<Rightarrow> string \<Rightarrow> ('s, string) prog"
  write_patch :: "string \<Rightarrow> string \<Rightarrow> string \<Rightarrow> ('s, unit) prog"
  is_repo :: "string \<Rightarrow> ('s, bool) prog"

record CommitInfo =
  SHA :: string
  Subject :: string

text \<open>\<open>error: patch failed: ([^:]+):(\d+)\<close> and the two patterns that end in a fixed text.\<close>

definition match_patch_failed :: "string \<Rightarrow> (string \<times> string) option" where
  "match_patch_failed s = (let lead = ''error: patch failed: '' in
     if \<not> HasPrefix s lead then None
     else let r = drop (length lead) s; f = takeWhile (\<lambda>c. c \<noteq> CHR '':'') r;
              r2 = dropWhile (\<lambda>c. c \<noteq> CHR '':'') r; n = takeWhile is_digit (drop 1 r2)
          in if f \<noteq> [] \<and> r2 \<noteq> [] \<and> n \<noteq> [] then Some (f, n) else None)"

definition match_tail :: "string \<Rightarrow> string \<Rightarrow> string option" where
  "match_tail tail_text s = (let lead = ''error: '' in
     if \<not> HasPrefix s lead then None
     else let r = drop (length lead) s; f = takeWhile (\<lambda>c. c \<noteq> CHR '':'') r
          in if f \<noteq> [] \<and> HasPrefix (drop (length f) r) ('': '' @ tail_text) then Some f else None)"

definition formatApplyError :: "string \<Rightarrow> gerror \<Rightarrow> gerror" where
  "formatApplyError targetDir e = (let msg = message_of e in
     case search match_patch_failed msg of
       Some (f, n) \<Rightarrow> errorf (''changes to '' @ f @ '' conflict with your working directory: the patch expected different content at line '' @ n)
     | None \<Rightarrow> (case search (match_tail ''does not exist in working directory'') msg of
         Some f \<Rightarrow> errorf (''cannot apply deletion to '' @ f @ '': the file no longer exists in '' @ targetDir)
       | None \<Rightarrow> (case search (match_tail ''already exists in working directory'') msg of
           Some f \<Rightarrow> errorf (''cannot create '' @ f @ '': it already exists in '' @ targetDir @ '' with different content'')
         | None \<Rightarrow> wrap (''git apply failed in '' @ targetDir) e)))"

definition input_error :: "gerror \<Rightarrow> gerror" where
  "input_error e = (case kind_of e of
       ErrExec code stderr \<Rightarrow> if TrimSpace stderr \<noteq> [] then wrap (TrimSpace stderr) e else e
     | _ \<Rightarrow> e)"

definition runGitInput :: "(string, 's) git \<Rightarrow> string \<Rightarrow> string \<Rightarrow> string list \<Rightarrow> ('s, unit) prog" where
  "runGitInput g dir patch args = p_seq (p_maperr input_error (RunInput g dir patch args)) (p_ret ())"

definition runGitApply :: "(string, 's) git \<Rightarrow> string \<Rightarrow> string \<Rightarrow> string list \<Rightarrow> ('s, unit) prog" where
  "runGitApply g dir patch args = runGitInput g dir patch (''apply'' # args)"

definition withTempGitDir :: "(string, 's) git \<Rightarrow> 's hostops \<Rightarrow> (string \<Rightarrow> ('s, unit) prog) \<Rightarrow> ('s, unit) prog" where
  "withTempGitDir g H f = p_bind (p_ctx ''create temp dir'' (mktemp H)) (\<lambda>tmpDir.
     p_finally (p_seq (p_ctx ''git init temp dir'' (RunCmd g tmpDir [''init''])) (f tmpDir)) (p_ignore (rmtemp H tmpDir)))"

definition applyNonRepo :: "(string, 's) git \<Rightarrow> 's hostops \<Rightarrow> string \<Rightarrow> string \<Rightarrow> string \<Rightarrow> string list \<Rightarrow> ('s, unit) prog" where
  "applyNonRepo g H patch realTarget targetDir extraArgs = withTempGitDir g H (\<lambda>tmpDir.
     p_maperr (formatApplyError targetDir)
       (runGitInput g realTarget patch ([''--git-dir='' @ Join tmpDir ''.git'', ''apply''] @ extraArgs)))"

definition apply_with :: "(string, 's) git \<Rightarrow> 's hostops \<Rightarrow> string list \<Rightarrow> string \<Rightarrow> string \<Rightarrow> bool \<Rightarrow> ('s, unit) prog" where
  "apply_with g H extra patch targetDir isGit =
     (if isGit then p_maperr (formatApplyError targetDir) (runGitApply g targetDir patch extra)
      else p_bind (p_ctx ''resolve target dir'' (eval_links H targetDir)) (\<lambda>realTarget.
        applyNonRepo g H patch realTarget targetDir extra))"

definition CheckPatch :: "(string, 's) git \<Rightarrow> 's hostops \<Rightarrow> string \<Rightarrow> string \<Rightarrow> bool \<Rightarrow> ('s, unit) prog" where
  "CheckPatch g H patch targetDir isGit = apply_with g H [''--check''] patch targetDir isGit"

definition ApplyPatch :: "(string, 's) git \<Rightarrow> 's hostops \<Rightarrow> string \<Rightarrow> string \<Rightarrow> bool \<Rightarrow> ('s, unit) prog" where
  "ApplyPatch g H patch targetDir isGit = apply_with g H [] patch targetDir isGit"

section \<open>Applying a series\<close>

definition parsePatchSHA :: "string \<Rightarrow> string \<Rightarrow> (gerror, string) result" where
  "parsePatchSHA path content =
     (let line = hd (split_lines content); parts = Fields line in
      if content \<noteq> [] \<and> HasPrefix line ''From '' \<and> length parts \<ge> 2 then Inr (parts ! 1)
      else Inl (errorf (''could not parse SHA from patch file '' @ path)))"

fun extractSandboxSHAs :: "'s hostops \<Rightarrow> string \<Rightarrow> string list \<Rightarrow> ('s, string list) prog" where
  "extractSandboxSHAs H patchDir [] = p_ret []"
| "extractSandboxSHAs H patchDir (f # fs) =
     p_bind (p_ctx ''open patch'' (read_patch H patchDir f)) (\<lambda>content.
     p_bind (p_lift (parsePatchSHA f content)) (\<lambda>sha.
     p_bind (extractSandboxSHAs H patchDir fs) (\<lambda>shas. p_ret (sha # shas))))"

definition stash_error :: "gerror \<Rightarrow> gerror" where
  "stash_error e = input_error e"

definition stashIfDirty :: "(string, 's) git \<Rightarrow> string \<Rightarrow> ('s, bool) prog" where
  "stashIfDirty g dir = p_bind (p_ctx ''git status'' (Run g dir [''status'', ''--porcelain''])) (\<lambda>out.
     if TrimSpace out = [] then p_ret False
     else p_seq (p_maperr stash_error (Run g dir [''stash'', ''push'', ''--include-untracked'', ''--message'', ''yoloai pre-apply'']))
       (p_ret True))"

definition pair_shas :: "string list \<Rightarrow> string list \<Rightarrow> (string \<rightharpoonup> string)" where
  "pair_shas sandboxSHAs hostSHAs = foldl (\<lambda>m (s, h). m(ToLower s \<mapsto> h)) Map.empty (zip sandboxSHAs hostSHAs)"

definition buildSHAMap :: "(string, 's) git \<Rightarrow> string \<Rightarrow> string \<Rightarrow> string list \<Rightarrow> ('s, (string \<rightharpoonup> string) option) prog" where
  "buildSHAMap g targetDir preTip sandboxSHAs =
     p_bind (p_try (Run g targetDir ([''log'', ''--reverse'', ''--format=%H''] @ (if preTip \<noteq> [] then [preTip @ ''..HEAD''] else []))))
       (\<lambda>r. case r of
          Inl _ \<Rightarrow> p_ret None
        | Inr logOut \<Rightarrow> p_ret (Some (pair_shas sandboxSHAs (Fields (TrimSpace logOut)))))"

definition formatAMError :: "string \<Rightarrow> string \<Rightarrow> gerror" where
  "formatAMError output targetDir = errorf (''git am failed in '' @ targetDir @ '': '' @ TrimSpace output)"

definition stderr_of :: "gerror \<Rightarrow> string" where
  "stderr_of e = (case kind_of e of ErrExec _ stderr \<Rightarrow> stderr | _ \<Rightarrow> [])"

text \<open>
  The answer is the pair the code returns: a map or nil, and an error or nil. An error of the program itself
  is the pair of nil and that error.
\<close>

definition ApplyFormatPatch :: "(string, 's) git \<Rightarrow> 's hostops \<Rightarrow> string \<Rightarrow> string list \<Rightarrow> string \<Rightarrow>
    ('s, (string \<rightharpoonup> string) option \<times> gerror option) prog" where
  "ApplyFormatPatch g H patchDir names targetDir =
     (if names = [] then p_ret (None, None)
      else p_bind (p_try (HeadSHA g targetDir)) (\<lambda>tip.
        p_bind (case tip of
            Inr sha \<Rightarrow> p_ret sha
          | Inl e \<Rightarrow> p_bind (IsEmptyRepo g targetDir) (\<lambda>empty. if \<not> empty then p_fail e else p_ret [])) (\<lambda>preTip.
        p_bind (extractSandboxSHAs H patchDir names) (\<lambda>sandboxSHAs.
        p_bind (if preTip \<noteq> [] then p_ctx ''stash uncommitted changes'' (stashIfDirty g targetDir) else p_ret False) (\<lambda>stashed.
        p_bind (p_try (Run g targetDir ([''am'', ''--3way''] @ map (Join patchDir) names))) (\<lambda>am. case am of
            Inl amErr \<Rightarrow>
              p_seq (p_ignore (RunCmd g targetDir [''am'', ''--abort'']))
              (p_seq (p_when stashed (p_ignore (RunCmd g targetDir [''stash'', ''pop''])))
                (p_fail (formatAMError (stderr_of amErr) targetDir)))
          | Inr _ \<Rightarrow>
              p_bind (buildSHAMap g targetDir preTip sandboxSHAs) (\<lambda>shaMap.
                if stashed then
                  p_bind (p_try (RunCmd g targetDir [''stash'', ''pop''])) (\<lambda>pop. case pop of
                      Inl e \<Rightarrow> p_ret (shaMap, Some (wrap ''restore stashed changes after apply'' e))
                    | Inr _ \<Rightarrow> p_ret (shaMap, None))
                else p_ret (shaMap, None))))))))"

section \<open>Which commits were applied\<close>

fun prefix_end :: "int \<Rightarrow> CommitInfo list \<Rightarrow> string set \<Rightarrow> int \<Rightarrow> int" where
  "prefix_end i [] applied end' = end'"
| "prefix_end i (c # cs) applied end' = (if SHA c \<in> applied then prefix_end (i + 1) cs applied i else end')"

definition ContiguousPrefixEnd :: "CommitInfo list \<Rightarrow> string set \<Rightarrow> int" where
  "ContiguousPrefixEnd allCommits appliedSHAs = prefix_end 0 allCommits appliedSHAs (-1)"

lemma prefix_end_takeWhile:
  "prefix_end i cs A e = (if takeWhile (\<lambda>c. SHA c \<in> A) cs = [] then e else i + int (length (takeWhile (\<lambda>c. SHA c \<in> A) cs)) - 1)"
  by (induction cs arbitrary: i e) auto

lemma ContiguousPrefixEnd_length:
  "ContiguousPrefixEnd cs A = int (length (takeWhile (\<lambda>c. SHA c \<in> A) cs)) - 1"
  by (auto simp: ContiguousPrefixEnd_def prefix_end_takeWhile)

section \<open>Tags\<close>

record commitMeta =
  cm_SHA :: string
  Author :: string
  Timestamp :: string
  cm_Subject :: string

definition parse_meta :: "string list \<Rightarrow> commitMeta option" where
  "parse_meta parts = (if length parts < 4 then None
     else Some \<lparr>cm_SHA = parts ! 0, Author = parts ! 1, Timestamp = parts ! 2, cm_Subject = parts ! 3\<rparr>)"

definition getCommitMeta :: "('d, 's) git \<Rightarrow> 'd \<Rightarrow> string \<Rightarrow> ('s, commitMeta) prog" where
  "getCommitMeta g dir sha =
     p_bind (p_ctx ''git show'' (Run g dir [''show'', ''-s'', ''--format=%H%x00%an%x00%at%x00%s'', sha])) (\<lambda>out.
       case parse_meta (split_on (CHR 0x00) (TrimSpace out)) of
         None \<Rightarrow> p_fail (errorf ''unexpected git show output format'')
       | Some m \<Rightarrow> p_ret m)"

definition commit_key :: "commitMeta \<Rightarrow> string \<times> string \<times> string" where
  "commit_key m = (Author m, Timestamp m, cm_Subject m)"

definition host_commits :: "string \<Rightarrow> (string \<times> string \<times> string \<rightharpoonup> string)" where
  "host_commits output = foldl (\<lambda>m line. if line = [] then m
     else case parse_meta (split_on (CHR 0x00) line) of None \<Rightarrow> m | Some c \<Rightarrow> m(commit_key c \<mapsto> cm_SHA c))
     Map.empty (split_lines (TrimSpace output))"

fun match_commits :: "('d, 's) git \<Rightarrow> 'd \<Rightarrow> (string \<times> string \<times> string \<rightharpoonup> string) \<Rightarrow> string list \<Rightarrow> (string \<rightharpoonup> string) \<Rightarrow>
    ('s, (string \<rightharpoonup> string)) prog" where
  "match_commits g sandboxDir hostCommits [] shaMap = p_ret shaMap"
| "match_commits g sandboxDir hostCommits (sha # shas) shaMap =
     p_bind (p_try (getCommitMeta g sandboxDir sha)) (\<lambda>r.
       match_commits g sandboxDir hostCommits shas (case r of
           Inl _ \<Rightarrow> shaMap
         | Inr m \<Rightarrow> (case hostCommits (commit_key m) of None \<Rightarrow> shaMap | Some h \<Rightarrow> shaMap(ToLower sha \<mapsto> h))))"

definition BuildSHAMapByMatching :: "('d, 's) git \<Rightarrow> ('d, 's) git \<Rightarrow> 'd \<Rightarrow> 'd \<Rightarrow> string list \<Rightarrow> ('s, (string \<rightharpoonup> string)) prog" where
  "BuildSHAMapByMatching g hostGit hostDir sandboxDir sandboxSHAs =
     p_bind (p_ctx ''git log on host'' (Run hostGit hostDir [''log'', ''--format=%H%x00%an%x00%at%x00%s'', ''-1000'']))
       (\<lambda>output. match_commits g sandboxDir (host_commits output) sandboxSHAs Map.empty)"

definition tag_error :: "string \<Rightarrow> gerror \<Rightarrow> gerror" where
  "tag_error name e = (if Contains (message_of e) ''already exists'' then errorf (''tag '' @ quoted name @ '' already exists'')
     else wrap (''git tag '' @ name) e)"

definition CreateTag :: "('d, 's) git \<Rightarrow> 'd \<Rightarrow> string \<Rightarrow> string \<Rightarrow> string \<Rightarrow> ('s, unit) prog" where
  "CreateTag g dir name sha msg = p_seq (p_maperr (tag_error name)
     (Run g dir (if msg \<noteq> [] then [''tag'', ''-a'', ''-m'', msg, ''--'', name, sha] else [''tag'', ''--'', name, sha])))
     (p_ret ())"

end
