(* ===== verification/CopyFlow.thy ===== *)
theory CopyFlow
  imports GitOps
begin

text \<open>
  Showing, exporting and applying the changes of a sandbox, and moving its baseline: the package
  \<open>copyflow\<close>. One sandbox is given. Git on the host and git in the sandbox are answered by an arbitrary
  function of all calls before, so the agent may do anything to its repository between two calls; the
  state is the list of calls, newest first, the record of the sandbox and the patch files that were written.
\<close>

section \<open>The world\<close>

datatype gscope = HostGit | SandboxGit

datatype gcall = GitCall gscope string "string option" "string list" | Saved Environment

record cf =
  calls :: "gcall list"
  meta :: Environment
  patch_files :: "(string \<times> string) list"

record cfworld =
  w_git :: "gcall list \<Rightarrow> gcall \<Rightarrow> (gerror, string) result"
  w_save :: "gcall list \<Rightarrow> gerror option"
  w_lock :: "gerror option"
  w_dir :: "gerror option"
  w_load :: "gerror option"
  w_repo :: "string \<Rightarrow> bool"
  w_links :: "string \<Rightarrow> (gerror, string) result"
  w_temp :: "gcall list \<Rightarrow> (gerror, string) result"
  w_write :: "string \<Rightarrow> gerror option"
  workDirOf :: "string \<Rightarrow> string"

definition git_of :: "cfworld \<Rightarrow> gscope \<Rightarrow> (string, cf) git" where
  "git_of W scope dir stdin args = (\<lambda>s. let c = GitCall scope dir stdin args
     in (w_git W (calls s) c, s\<lparr>calls := c # calls s\<rparr>))"

definition of_option :: "gerror option \<Rightarrow> ('s, unit) prog" where
  "of_option e = p_lift (case e of Some e \<Rightarrow> Inl e | None \<Rightarrow> Inr ())"

definition hostops_of :: "cfworld \<Rightarrow> cf hostops" where
  "hostops_of W = \<lparr>
     mktemp = (\<lambda>s. (w_temp W (calls s), s)),
     rmtemp = (\<lambda>d s. (Inr (), s\<lparr>patch_files := filter (\<lambda>(p, _). \<not> HasPrefix p (d @ ''/'')) (patch_files s)\<rparr>)),
     eval_links = (\<lambda>d. p_lift (w_links W d)),
     read_patch = (\<lambda>d f s. (case map_of (patch_files s) (Join d f) of
        Some c \<Rightarrow> Inr c | None \<Rightarrow> Inl (GErr ErrNotExist ''no such file or directory''), s)),
     write_patch = (\<lambda>d f c. p_seq (of_option (w_write W f)) (\<lambda>s. (Inr (), s\<lparr>patch_files := (Join d f, c) # patch_files s\<rparr>))),
     is_repo = (\<lambda>d. p_ret (w_repo W d))\<rparr>"

definition load_meta :: "cfworld \<Rightarrow> (cf, Environment) prog" where
  "load_meta W = p_seq (of_option (w_load W)) (\<lambda>s. (Inr (meta s), s))"

definition save_meta :: "cfworld \<Rightarrow> Environment \<Rightarrow> (cf, unit) prog" where
  "save_meta W env = (\<lambda>s. case w_save W (calls s) of
       Some e \<Rightarrow> (Inl e, s)
     | None \<Rightarrow> (Inr (), s\<lparr>meta := env, calls := Saved env # calls s\<rparr>))"

text \<open>Assigning to the baseline of the directory that \<open>meta.Dir\<close> points at.\<close>

fun set_first_baseline :: "(DirEnvironment \<Rightarrow> bool) \<Rightarrow> string \<Rightarrow> DirEnvironment list \<Rightarrow> DirEnvironment list" where
  "set_first_baseline p sha [] = []"
| "set_first_baseline p sha (d # ds) =
     (if p d then d\<lparr>BaselineSHA := sha\<rparr> # ds else d # set_first_baseline p sha ds)"

definition set_baseline :: "string \<Rightarrow> string \<Rightarrow> Environment \<Rightarrow> Environment" where
  "set_baseline hostPath sha e =
     e\<lparr>Dirs := set_first_baseline (\<lambda>d. hostPath = [] \<or> HostPath d = hostPath) sha (Dirs e)\<rparr>"

definition not_found :: "string \<Rightarrow> gerror" where
  "not_found dirHostPath = errorf (''directory '' @ quoted dirHostPath @ '' not found in sandbox'')"

definition loadDiffContext :: "cfworld \<Rightarrow> string \<Rightarrow> (cf, string \<times> string \<times> string) prog" where
  "loadDiffContext W dirHostPath = p_seq (of_option (w_dir W)) (p_bind (load_meta W) (\<lambda>m.
     case Dir_of m dirHostPath of
       None \<Rightarrow> p_fail (not_found dirHostPath)
     | Some d \<Rightarrow>
         if Mode d = ''copy'' then
           (if BaselineSHA d = [] then p_fail (errorf ''sandbox has no baseline SHA'')
            else p_ret (workDirOf W (HostPath d), BaselineSHA d, Mode d))
         else if Mode d = ''rw'' then p_ret (HostPath d, ''HEAD'', Mode d)
         else if Mode d = ''ro'' then p_fail (errorf ''workdir cannot be read-only (mode ro)'')
         else p_fail (errorf (''unsupported workdir mode: '' @ Mode d))))"

section \<open>Diffs\<close>

record FileChange =
  Path :: string
  Additions :: int
  Deletions :: int
  Binary :: bool

definition parse_numstat_line :: "string \<Rightarrow> FileChange option" where
  "parse_numstat_line line = (case Cut line [CHR 9] of
       None \<Rightarrow> None
     | Some (a, rest) \<Rightarrow> (case Cut rest [CHR 9] of
         None \<Rightarrow> None
       | Some (d, p) \<Rightarrow>
           if a = ''-'' \<or> d = ''-'' then Some \<lparr>Path = p, Additions = -1, Deletions = -1, Binary = True\<rparr>
           else (case Atoi a of
               None \<Rightarrow> None
             | Some x \<Rightarrow> (case Atoi d of
                 None \<Rightarrow> None
               | Some y \<Rightarrow> Some \<lparr>Path = p, Additions = x, Deletions = y, Binary = False\<rparr>))))"

definition parseNumstat :: "string \<Rightarrow> FileChange list" where
  "parseNumstat out = (let t = TrimNewlines out in
     if t = [] then [] else List.map_filter parse_numstat_line (filter (\<lambda>l. l \<noteq> []) (split_lines t)))"

record DiffOptions =
  do_Stat :: bool
  do_NameOnly :: bool
  do_Numstat :: bool
  do_Paths :: "string list"
  do_Dir :: string
  do_PathPrefix :: string

definition GenerateDiff :: "cfworld \<Rightarrow> DiffOptions \<Rightarrow> (cf, string) prog" where
  "GenerateDiff W opts = p_bind (loadDiffContext W (do_Dir opts)) (\<lambda>(workDir, baselineSHA, mode).
     if mode = ''rw'' then
       RWDiff (git_of W HostGit) (w_repo W workDir) workDir (do_Paths opts) (do_Stat opts) (do_NameOnly opts) (do_Numstat opts)
     else
       p_seq (Run (git_of W SandboxGit) workDir [''add'', ''-A''])
        (p_bind (Run (git_of W SandboxGit) workDir
           ((if do_Numstat opts then [''diff'', ''--numstat'', baselineSHA]
             else if do_Stat opts then [''diff'', ''--stat'', baselineSHA]
             else if do_NameOnly opts then [''diff'', ''--name-only'', baselineSHA]
             else [''diff'', ''--binary'']
               @ (if do_PathPrefix opts \<noteq> [] then [''--src-prefix='' @ do_PathPrefix opts, ''--dst-prefix='' @ do_PathPrefix opts] else [])
               @ [baselineSHA])
            @ path_args (do_Paths opts)))
          (\<lambda>out. p_ret (TrimNewlines out))))"

definition GenerateChanges :: "cfworld \<Rightarrow> DiffOptions \<Rightarrow> (cf, FileChange list) prog" where
  "GenerateChanges W opts = p_bind (GenerateDiff W (opts\<lparr>do_Numstat := True\<rparr>)) (\<lambda>out. p_ret (parseNumstat out))"

definition only_copy :: "string \<Rightarrow> string \<Rightarrow> (cf, unit) prog" where
  "only_copy what mode = (if mode = ''rw'' then p_fail (errorf (what @ '' for :rw directories'')) else p_ret ())"

definition GenerateCommitDiff :: "cfworld \<Rightarrow> string \<Rightarrow> bool \<Rightarrow> string \<Rightarrow> (cf, string) prog" where
  "GenerateCommitDiff W ref stat dirHostPath = p_bind (loadDiffContext W dirHostPath) (\<lambda>(workDir, _, mode).
     p_seq (only_copy ''commit diff is not available'' mode)
     (p_seq (StageUntracked (git_of W SandboxGit) workDir)
      (p_bind (p_ctx (''git diff '' @ ref) (Run (git_of W SandboxGit) workDir
          ([''diff'', if stat then ''--stat'' else ''--binary'']
           @ (if Contains ref ''..'' then [ref] else [ref @ ''~1'', ref]))))
        (\<lambda>out. p_ret (TrimNewlines out)))))"

section \<open>Commits beyond the baseline\<close>

definition parse_commit_line :: "string \<Rightarrow> CommitInfo option" where
  "parse_commit_line line = (case Cut line '' '' of
       None \<Rightarrow> None
     | Some (sha, subject) \<Rightarrow> Some \<lparr>SHA = sha, Subject = subject\<rparr>)"

definition ListCommitsBeyondBaseline :: "cfworld \<Rightarrow> string \<Rightarrow> (cf, CommitInfo list) prog" where
  "ListCommitsBeyondBaseline W dirHostPath = p_bind (loadDiffContext W dirHostPath) (\<lambda>(workDir, baselineSHA, mode).
     p_seq (only_copy ''commit listing is not available'' mode)
     (p_bind (p_ctx ''git log'' (Run (git_of W SandboxGit) workDir
         [''log'', ''--reverse'', ''--format=%H %s'', baselineSHA @ ''..HEAD'']))
       (\<lambda>out. let lines = TrimSpace out in
          p_ret (if lines = [] then [] else List.map_filter parse_commit_line (split_lines lines)))))"

fun stat_commits :: "cfworld \<Rightarrow> string \<Rightarrow> CommitInfo list \<Rightarrow> (cf, (CommitInfo \<times> string) list) prog" where
  "stat_commits W workDir [] = p_ret []"
| "stat_commits W workDir (c # cs) =
     p_bind (p_ctx ''git diff --stat'' (Run (git_of W SandboxGit) workDir [''diff'', ''--stat'', SHA c @ ''~1'', SHA c])) (\<lambda>out.
     p_bind (stat_commits W workDir cs) (\<lambda>rest. p_ret ((c, TrimNewlines out) # rest)))"

definition ListCommitsWithStats :: "cfworld \<Rightarrow> string \<Rightarrow> (cf, (CommitInfo \<times> string) list) prog" where
  "ListCommitsWithStats W dirHostPath = p_bind (ListCommitsBeyondBaseline W dirHostPath) (\<lambda>commits.
     if commits = [] then p_ret []
     else p_bind (loadDiffContext W dirHostPath) (\<lambda>(workDir, _, _). stat_commits W workDir commits))"

definition gitAddRetry :: "cfworld \<Rightarrow> string \<Rightarrow> (cf, unit) prog" where
  "gitAddRetry W workDir = add_retry 5 (p_seq (Run (git_of W SandboxGit) workDir [''add'', ''-A'']) (p_ret ()))"

definition HasUncommittedChanges :: "cfworld \<Rightarrow> string \<Rightarrow> (cf, bool) prog" where
  "HasUncommittedChanges W dirHostPath = p_bind (loadDiffContext W dirHostPath) (\<lambda>(workDir, _, mode).
     p_seq (only_copy ''uncommitted-change check is not available'' mode)
     (p_seq (p_ctx ''git add'' (gitAddRetry W workDir))
      (p_bind (p_try (Run (git_of W SandboxGit) workDir [''diff'', ''--quiet'', ''HEAD''])) (\<lambda>r. case r of
          Inr _ \<Rightarrow> p_ret False
        | Inl e \<Rightarrow> (case kind_of e of
            ErrExec code _ \<Rightarrow> if code = 1 then p_ret True else p_fail (wrap ''git diff --quiet'' e)
          | _ \<Rightarrow> p_fail (wrap ''git diff --quiet'' e))))))"

section \<open>Selecting commits\<close>

definition buildSHAIndex :: "CommitInfo list \<Rightarrow> (string \<rightharpoonup> nat)" where
  "buildSHAIndex commits = foldl (\<lambda>m (i, c). m(ToLower (SHA c) \<mapsto> i)) Map.empty (zip [0..<length commits] commits)"

fun short_loop :: "string \<Rightarrow> CommitInfo list \<Rightarrow> string \<Rightarrow> (gerror, string) result" where
  "short_loop ref [] found = Inr found"
| "short_loop ref (c # cs) found =
     (if HasPrefix (ToLower (SHA c)) ref then
        (if found \<noteq> [] then Inl (errorf (''ref '' @ quoted ref @ '' is ambiguous: matches multiple commits''))
         else short_loop ref cs (ToLower (SHA c)))
      else short_loop ref cs found)"

definition resolveShortRef :: "string \<Rightarrow> CommitInfo list \<Rightarrow> (gerror, string) result" where
  "resolveShortRef ref allCommits =
     res_bind (short_loop (ToLower ref) allCommits []) (\<lambda>found.
       if found = [] then Inl (errorf (''ref '' @ quoted (ToLower ref) @ '' not found among sandbox commits'')) else Inr found)"

definition index_of :: "(string \<rightharpoonup> nat) \<Rightarrow> string \<Rightarrow> nat" where
  "index_of shaIndex sha = (case shaIndex sha of Some i \<Rightarrow> i | None \<Rightarrow> 0)"

definition selectRefRange :: "string \<Rightarrow> string \<Rightarrow> CommitInfo list \<Rightarrow> (string \<rightharpoonup> nat) \<Rightarrow> string set \<Rightarrow> (gerror, string set) result" where
  "selectRefRange before after allCommits shaIndex selected =
     res_bind (resolveShortRef before allCommits) (\<lambda>startSHA.
     res_bind (resolveShortRef after allCommits) (\<lambda>endSHA.
       let startIdx = index_of shaIndex startSHA; endIdx = index_of shaIndex endSHA in
       if startIdx > endIdx then Inl (errorf (''invalid range: '' @ before @ '' is after '' @ after))
       else Inr (foldl (\<lambda>sel i. insert (ToLower (SHA (allCommits ! i))) sel) selected [startIdx + 1..<endIdx + 1])))"

fun selectRefs :: "string list \<Rightarrow> CommitInfo list \<Rightarrow> (string \<rightharpoonup> nat) \<Rightarrow> string set \<Rightarrow> (gerror, string set) result" where
  "selectRefs [] allCommits shaIndex selected = Inr selected"
| "selectRefs (ref # refs) allCommits shaIndex selected =
     (case Cut ref ''..'' of
        Some (before, after) \<Rightarrow> res_bind (selectRefRange before after allCommits shaIndex selected)
          (selectRefs refs allCommits shaIndex)
      | None \<Rightarrow> res_bind (resolveShortRef ref allCommits) (\<lambda>sha. selectRefs refs allCommits shaIndex (insert sha selected)))"

definition ResolveRefs :: "cfworld \<Rightarrow> string \<Rightarrow> string list \<Rightarrow> (cf, CommitInfo list) prog" where
  "ResolveRefs W dirHostPath refs = p_bind (ListCommitsBeyondBaseline W dirHostPath) (\<lambda>allCommits.
     p_bind (p_lift (selectRefs refs allCommits (buildSHAIndex allCommits) {})) (\<lambda>selected.
       p_ret (filter (\<lambda>c. ToLower (SHA c) \<in> selected) allCommits)))"

section \<open>Patches\<close>

definition GeneratePatch :: "cfworld \<Rightarrow> string \<Rightarrow> string list \<Rightarrow> bool \<Rightarrow> (cf, string \<times> string) prog" where
  "GeneratePatch W dirHostPath paths includeUncommitted = p_bind (loadDiffContext W dirHostPath) (\<lambda>(workDir, baselineSHA, mode).
     if mode = ''rw'' then p_fail (errorf ''apply is not needed for :rw directories'')
     else let endpoint = (if includeUncommitted then [] else [''HEAD'']) in
       p_seq (p_when includeUncommitted (p_ctx ''git add'' (gitAddRetry W workDir)))
       (p_bind (p_ctx ''git diff (patch)'' (Run (git_of W SandboxGit) workDir
           ([''diff'', ''--binary'', baselineSHA] @ endpoint @ path_args paths))) (\<lambda>patchOut.
        p_bind (p_ctx ''git diff (stat)'' (Run (git_of W SandboxGit) workDir
           ([''diff'', ''--stat'', baselineSHA] @ endpoint @ path_args paths))) (\<lambda>statOut.
        p_ret (patchOut, TrimNewlines statOut)))))"

definition pad4 :: "nat \<Rightarrow> string" where
  "pad4 n = replicate (4 - length (Itoa n)) CHR ''0'' @ Itoa n"

definition patch_name :: "nat \<Rightarrow> string \<Rightarrow> string" where
  "patch_name i sha = pad4 i @ ''-'' @ take 12 sha @ ''.patch''"

text \<open>One patch file per commit; a failure removes the directory.\<close>

fun format_patches :: "cfworld \<Rightarrow> string \<Rightarrow> string \<Rightarrow> string list \<Rightarrow> nat \<Rightarrow> string list \<Rightarrow> (cf, string list) prog" where
  "format_patches W workDir patchDir extra i [] = p_ret []"
| "format_patches W workDir patchDir extra i (sha # shas) =
     p_bind (p_ctx (''git format-patch -1 '' @ sha) (Run (git_of W SandboxGit) workDir ([''format-patch'', ''--stdout'', ''-1'', sha] @ extra))) (\<lambda>out.
       if TrimSpace out = [] then format_patches W workDir patchDir extra (i + 1) shas
       else let fname = patch_name i sha in
         p_seq (p_ctx (''write patch '' @ fname) (write_patch (hostops_of W) patchDir fname out))
          (p_bind (format_patches W workDir patchDir extra (i + 1) shas) (\<lambda>names. p_ret (fname # names))))"

definition drop_patches :: "cfworld \<Rightarrow> string \<Rightarrow> (cf, unit) prog" where
  "drop_patches W patchDir = p_ignore (rmtemp (hostops_of W) patchDir)"

definition GenerateFormatPatch :: "cfworld \<Rightarrow> string \<Rightarrow> string list \<Rightarrow> (cf, string \<times> string list) prog" where
  "GenerateFormatPatch W dirHostPath paths = p_bind (loadDiffContext W dirHostPath) (\<lambda>(workDir, baselineSHA, mode).
     p_seq (only_copy ''format-patch is not available'' mode)
     (p_bind (p_ctx ''create temp dir'' (mktemp (hostops_of W))) (\<lambda>patchDir.
       p_onerr
        (p_bind (p_ctx ''git rev-list'' (Run (git_of W SandboxGit) workDir
            ([''rev-list'', ''--reverse'', baselineSHA @ ''..HEAD''] @ path_args paths))) (\<lambda>revOut.
         p_bind (format_patches W workDir patchDir [] 1 (Fields (TrimSpace revOut))) (\<lambda>names. p_ret (patchDir, names))))
        (drop_patches W patchDir))))"

definition GenerateFormatPatchForRefs :: "cfworld \<Rightarrow> string \<Rightarrow> string list \<Rightarrow> string list \<Rightarrow> (cf, string \<times> string list) prog" where
  "GenerateFormatPatchForRefs W dirHostPath shas paths = p_bind (loadDiffContext W dirHostPath) (\<lambda>(workDir, _, mode).
     p_seq (only_copy ''format-patch is not available'' mode)
     (p_bind (p_ctx ''create temp dir'' (mktemp (hostops_of W))) (\<lambda>patchDir.
       p_onerr
        (p_bind (format_patches W workDir patchDir (path_args paths) 1 shas) (\<lambda>names. p_ret (patchDir, names)))
        (drop_patches W patchDir))))"

definition GenerateUncommittedDiff :: "cfworld \<Rightarrow> string \<Rightarrow> string list \<Rightarrow> (cf, string \<times> string) prog" where
  "GenerateUncommittedDiff W dirHostPath paths = p_bind (loadDiffContext W dirHostPath) (\<lambda>(workDir, _, mode).
     p_seq (only_copy ''uncommitted diff is not available'' mode)
     (p_seq (p_ctx ''git add'' (Run (git_of W SandboxGit) workDir [''add'', ''-A'']))
     (p_bind (p_ctx ''git diff (uncommitted patch)'' (Run (git_of W SandboxGit) workDir
         ([''diff'', ''--binary'', ''HEAD''] @ path_args paths))) (\<lambda>patchOut.
       if patchOut = [] then p_ret ([], [])
       else p_bind (p_ctx ''git diff (uncommitted stat)'' (Run (git_of W SandboxGit) workDir
           ([''diff'', ''--stat'', ''HEAD''] @ path_args paths))) (\<lambda>statOut.
         p_ret (patchOut, TrimNewlines statOut))))))"

section \<open>The baseline\<close>

record BaselineChange =
  NewSHA :: string
  bc_Subject :: string

record BaselineLogEntry =
  ble_SHA :: string
  ble_Subject :: string
  IsBaseline :: bool

definition shaForError :: "string \<Rightarrow> string" where
  "shaForError sha = (if sha = [] then ''(none)'' else take 8 sha)"

definition BaselineConflictError :: "string \<Rightarrow> string \<Rightarrow> gerror" where
  "BaselineConflictError expected actual = GErr ErrConflict
     (''baseline changed since read: expected '' @ shaForError expected @ '', found '' @ shaForError actual)"

definition commitBaseline :: "cfworld \<Rightarrow> Environment \<Rightarrow> string \<Rightarrow> string option \<Rightarrow> (string \<Rightarrow> (cf, string) prog) \<Rightarrow> (cf, string) prog" where
  "commitBaseline W m dirHostPath expected rev_of = (case Dir_of m dirHostPath of
       None \<Rightarrow> p_fail (not_found dirHostPath)
     | Some d \<Rightarrow>
         if (case expected of Some e \<Rightarrow> BaselineSHA d \<noteq> e | None \<Rightarrow> False)
         then p_fail (BaselineConflictError (the expected) (BaselineSHA d))
         else p_bind (rev_of (workDirOf W (HostPath d))) (\<lambda>sha.
           p_seq (save_meta W (set_baseline dirHostPath sha m)) (p_ret sha)))"

definition advanceBaselineUnlocked :: "cfworld \<Rightarrow> string \<Rightarrow> (string \<Rightarrow> (cf, string) prog) \<Rightarrow> (cf, unit) prog" where
  "advanceBaselineUnlocked W dirHostPath rev_of =
     p_seq (of_option (w_dir W)) (p_bind (load_meta W) (\<lambda>m. case Dir_of m dirHostPath of
       None \<Rightarrow> p_ret ()
     | Some d \<Rightarrow> if Mode d = ''rw'' then p_ret ()
         else p_seq (commitBaseline W m dirHostPath None rev_of) (p_ret ())))"

definition AdvanceBaselineTo :: "cfworld \<Rightarrow> string \<Rightarrow> string \<Rightarrow> (cf, unit) prog" where
  "AdvanceBaselineTo W dirHostPath sha = advanceBaselineUnlocked W dirHostPath (\<lambda>_. p_ret sha)"

definition resolve_rev :: "cfworld \<Rightarrow> string \<Rightarrow> string \<Rightarrow> string \<Rightarrow> (cf, string) prog" where
  "resolve_rev W what ref workDir =
     p_bind (p_ctx what (Run (git_of W SandboxGit) workDir [''rev-parse'', ref])) (\<lambda>out. p_ret (TrimSpace out))"

definition AdvanceBaseline :: "cfworld \<Rightarrow> string \<Rightarrow> (cf, unit) prog" where
  "AdvanceBaseline W dirHostPath = advanceBaselineUnlocked W dirHostPath (resolve_rev W ''git rev-parse'' ''HEAD'')"

definition checkBaselineMode :: "string \<Rightarrow> (gerror, unit) result" where
  "checkBaselineMode mode =
     (if mode = ''rw'' then Inl (usage_error ''baseline is not tracked for :rw directories'')
      else if mode = ''overlay'' then Inl (usage_error ''overlay sandboxes must be converted to copy mode'')
      else Inr ())"

definition lock_sandbox :: "cfworld \<Rightarrow> (cf, unit) prog" where
  "lock_sandbox W = of_option (w_lock W)"

definition mutateBaseline :: "cfworld \<Rightarrow> string \<Rightarrow> string \<Rightarrow> (string \<Rightarrow> (cf, string) prog) \<Rightarrow> (cf, BaselineChange) prog" where
  "mutateBaseline W dirHostPath expectedCurrentSHA rev_of =
     p_seq (of_option (w_dir W)) (p_seq (lock_sandbox W) (p_bind (load_meta W) (\<lambda>m. case Dir_of m dirHostPath of
       None \<Rightarrow> p_fail (not_found dirHostPath)
     | Some d \<Rightarrow> p_seq (p_lift (checkBaselineMode (Mode d)))
         (p_bind (commitBaseline W m dirHostPath (Some expectedCurrentSHA) rev_of) (\<lambda>sha.
          p_bind (p_try (Run (git_of W SandboxGit) (workDirOf W (HostPath d)) [''log'', ''--format=%s'', ''-1'', sha])) (\<lambda>out.
          p_ret \<lparr>NewSHA = sha, bc_Subject = (case out of Inr t \<Rightarrow> TrimSpace t | Inl _ \<Rightarrow> [])\<rparr>))))))"

definition AdvanceBaselineCAS :: "cfworld \<Rightarrow> string \<Rightarrow> string \<Rightarrow> (cf, BaselineChange) prog" where
  "AdvanceBaselineCAS W dirHostPath expected = mutateBaseline W dirHostPath expected (resolve_rev W ''resolve HEAD'' ''HEAD'')"

definition SetBaselineCAS :: "cfworld \<Rightarrow> string \<Rightarrow> string \<Rightarrow> string \<Rightarrow> (cf, BaselineChange) prog" where
  "SetBaselineCAS W dirHostPath expected ref = mutateBaseline W dirHostPath expected (resolve_rev W (''resolve sha '' @ quoted ref) ref)"

definition log_entry :: "string \<Rightarrow> string \<Rightarrow> BaselineLogEntry" where
  "log_entry baselineSHA line = (let (sha, subject) = (case Cut line '' '' of Some p \<Rightarrow> p | None \<Rightarrow> (line, []))
     in \<lparr>ble_SHA = sha, ble_Subject = subject, IsBaseline = (baselineSHA \<noteq> [] \<and> sha = baselineSHA)\<rparr>)"

definition parseBaselineLog :: "string \<Rightarrow> string \<Rightarrow> BaselineLogEntry list" where
  "parseBaselineLog out baselineSHA = map (log_entry baselineSHA) (filter (\<lambda>l. l \<noteq> []) (split_lines (TrimNewlines out)))"

definition BaselineLog :: "cfworld \<Rightarrow> string \<Rightarrow> (cf, BaselineLogEntry list) prog" where
  "BaselineLog W dirHostPath =
     p_seq (of_option (w_dir W)) (p_bind (load_meta W) (\<lambda>m. case Dir_of m dirHostPath of
       None \<Rightarrow> p_fail (not_found dirHostPath)
     | Some d \<Rightarrow> p_seq (p_lift (checkBaselineMode (Mode d)))
        (let run = Run (git_of W SandboxGit) (workDirOf W (HostPath d)) in
         p_bind (if InceptionSHA d \<noteq> [] then p_ret (InceptionSHA d)
            else p_bind (p_try (run [''log'', ''--format=%H'', ''--author=yoloai@localhost'', ''--reverse'', ''--max-count=1'']))
              (\<lambda>r. p_ret (case r of Inr out \<Rightarrow> TrimSpace out | Inl _ \<Rightarrow> []))) (\<lambda>inception.
         if inception = [] then
           p_bind (p_ctx ''git log'' (run [''log'', ''--format=%H %s''])) (\<lambda>out. p_ret (parseBaselineLog out (BaselineSHA d)))
         else p_bind (p_ctx ''git log'' (run [''log'', ''--format=%H %s'', inception @ ''..HEAD''])) (\<lambda>out.
           p_bind (p_ctx ''git log inception'' (run [''log'', ''--format=%H %s'', ''-1'', inception])) (\<lambda>line.
           p_ret (parseBaselineLog out (BaselineSHA d) @ parseBaselineLog line (BaselineSHA d))))))))"

section \<open>Applying\<close>

record AppliedCommit =
  ac_Subject :: string
  SourceSHA :: string
  HostSHA :: string

record ApplyResult =
  ar_Dir :: string
  ar_Stat :: string
  Commits :: "AppliedCommit list"
  UncommittedApplied :: bool

record ApplyOptions =
  Refs :: "string list"
  IncludeUncommitted :: bool
  ao_Paths :: "string list"
  DryRun :: bool
  DirHostPath :: string

definition ApplyAll :: "cfworld \<Rightarrow> ApplyOptions \<Rightarrow> (cf, ApplyResult option) prog" where
  "ApplyAll W opts = p_seq (lock_sandbox W) (p_bind (load_meta W) (\<lambda>m. case Dir_of m (DirHostPath opts) of
       None \<Rightarrow> p_ret None
     | Some d \<Rightarrow>
        if Mode d \<noteq> ''copy'' then p_ret None
        else p_bind (GeneratePatch W (DirHostPath opts) (ao_Paths opts) (IncludeUncommitted opts)) (\<lambda>(patchBytes, stat).
          if TrimSpace patchBytes = [] then p_ret None
          else let isGit = w_repo W (HostPath d); host = git_of W HostGit; H = hostops_of W;
                   res = Some \<lparr>ar_Dir = HostPath d, ar_Stat = stat, Commits = [], UncommittedApplied = False\<rparr> in
            p_seq (CheckPatch host H patchBytes (HostPath d) isGit)
             (if DryRun opts then p_ret res
              else p_seq (p_ctx (HostPath d) (ApplyPatch host H patchBytes (HostPath d) isGit))
               (p_seq (p_when (ao_Paths opts = []) (p_ctx ''advance baseline'' (AdvanceBaseline W (DirHostPath opts))))
                 (p_ret res))))))"

definition seriesResult :: "string \<Rightarrow> CommitInfo list \<Rightarrow> (string \<rightharpoonup> string) option \<Rightarrow> ApplyResult" where
  "seriesResult hostPath commits shaMap = \<lparr>ar_Dir = hostPath, ar_Stat = [],
     Commits = map (\<lambda>c. \<lparr>ac_Subject = Subject c, SourceSHA = SHA c,
        HostSHA = (case shaMap of None \<Rightarrow> [] | Some m \<Rightarrow> (case m (ToLower (SHA c)) of Some h \<Rightarrow> h | None \<Rightarrow> []))\<rparr>) commits,
     UncommittedApplied = False\<rparr>"

definition resolveSeriesCommits :: "cfworld \<Rightarrow> string \<Rightarrow> string list \<Rightarrow> (cf, CommitInfo list) prog" where
  "resolveSeriesCommits W dirHostPath refs =
     (if refs \<noteq> [] then ResolveRefs W dirHostPath refs else ListCommitsBeyondBaseline W dirHostPath)"

definition generateSeriesPatch :: "cfworld \<Rightarrow> CommitInfo list \<Rightarrow> ApplyOptions \<Rightarrow> (cf, string \<times> string list) prog" where
  "generateSeriesPatch W commits opts =
     (if Refs opts = [] then GenerateFormatPatch W (DirHostPath opts) (ao_Paths opts)
      else GenerateFormatPatchForRefs W (DirHostPath opts) (map SHA commits) (ao_Paths opts))"

definition advanceSeriesBaseline :: "cfworld \<Rightarrow> string \<Rightarrow> string list \<Rightarrow> AppliedCommit list \<Rightarrow> (cf, unit) prog" where
  "advanceSeriesBaseline W dirHostPath refs applied =
     (if refs = [] then AdvanceBaseline W dirHostPath
      else p_bind (ListCommitsBeyondBaseline W dirHostPath) (\<lambda>all.
        let k = ContiguousPrefixEnd all (SourceSHA ` set applied) in
        if k \<ge> 0 then AdvanceBaselineTo W dirHostPath (SHA (all ! nat k)) else p_ret ()))"

definition applySeriesUncommitted :: "cfworld \<Rightarrow> string \<Rightarrow> string \<Rightarrow> string list \<Rightarrow> (cf, bool) prog" where
  "applySeriesUncommitted W dirHostPath hostPath paths =
     p_bind (p_ctx ''generate uncommitted diff (commits already applied)'' (GenerateUncommittedDiff W dirHostPath paths)) (\<lambda>(patch, _).
       if patch = [] then p_ret False
       else p_seq (p_ctx ''apply uncommitted changes (commits already applied)''
              (ApplyPatch (git_of W HostGit) (hostops_of W) patch hostPath True))
            (p_ret True))"

text \<open>The result and the error that accompanies it, as the code returns both.\<close>

definition finishSeriesApply :: "cfworld \<Rightarrow> string \<Rightarrow> ApplyOptions \<Rightarrow> ApplyResult \<Rightarrow> gerror option \<Rightarrow>
    (cf, ApplyResult option \<times> gerror option) prog" where
  "finishSeriesApply W hostPath opts res amErr =
     p_bind (p_try (p_when (ao_Paths opts = []) (advanceSeriesBaseline W (DirHostPath opts) (Refs opts) (Commits res)))) (\<lambda>r. case r of
        Inl e \<Rightarrow> p_ret (Some res, Some (wrap ''advance baseline'' e))
      | Inr _ \<Rightarrow> (case amErr of
          Some e \<Rightarrow> p_ret (Some res, Some e)
        | None \<Rightarrow>
            if IncludeUncommitted opts then
              p_bind (p_try (applySeriesUncommitted W (DirHostPath opts) hostPath (ao_Paths opts))) (\<lambda>u. case u of
                  Inl e \<Rightarrow> p_ret (Some res, Some e)
                | Inr b \<Rightarrow> p_ret (Some (res\<lparr>UncommittedApplied := b\<rparr>), None))
            else p_ret (Some res, None)))"

definition ApplySeries :: "cfworld \<Rightarrow> ApplyOptions \<Rightarrow> (cf, ApplyResult option \<times> gerror option) prog" where
  "ApplySeries W opts = p_seq (lock_sandbox W) (p_bind (load_meta W) (\<lambda>m. case Dir_of m (DirHostPath opts) of
       None \<Rightarrow> p_ret (None, None)
     | Some d \<Rightarrow>
        if Mode d \<noteq> ''copy'' then p_ret (None, None)
        else if \<not> w_repo W (HostPath d) then
          p_fail (usage_error (''cannot replay a commit series onto '' @ HostPath d @ '': not a git repository''))
        else p_bind (resolveSeriesCommits W (DirHostPath opts) (Refs opts)) (\<lambda>commits.
          if commits = [] then p_ret (None, None)
          else if DryRun opts then p_ret (Some (seriesResult (HostPath d) commits None), None)
          else p_bind (generateSeriesPatch W commits opts) (\<lambda>(patchDir, names).
            p_finally
              (if names = [] then p_ret (None, None)
               else p_bind (ApplyFormatPatch (git_of W HostGit) (hostops_of W) patchDir names (HostPath d)) (\<lambda>(shaMap, amErr).
                 if amErr \<noteq> None \<and> shaMap = None then p_ret (None, amErr)
                 else finishSeriesApply W (HostPath d) opts (seriesResult (HostPath d) commits shaMap) amErr))
              (drop_patches W patchDir)))))"

section \<open>Exporting\<close>

definition generateExportPatch :: "cfworld \<Rightarrow> ApplyOptions \<Rightarrow> (cf, string \<times> string list) prog" where
  "generateExportPatch W opts =
     (if Refs opts = [] then GenerateFormatPatch W (DirHostPath opts) (ao_Paths opts)
      else p_bind (ResolveRefs W (DirHostPath opts) (Refs opts)) (\<lambda>commits.
        GenerateFormatPatchForRefs W (DirHostPath opts) (map SHA commits) (ao_Paths opts)))"

text \<open>Copying the patch files to the directory the user names; the files it then holds are the result.\<close>

fun export_each :: "cfworld \<Rightarrow> string \<Rightarrow> string \<Rightarrow> string list \<Rightarrow> (cf, (string \<times> string) list) prog" where
  "export_each W patchDir dst [] = p_ret []"
| "export_each W patchDir dst (f # fs) =
     p_bind (p_ctx (''read patch '' @ f) (read_patch (hostops_of W) patchDir f)) (\<lambda>data.
     p_seq (p_ctx (''write patch '' @ f) (of_option (w_write W (Join dst f))))
      (p_bind (export_each W patchDir dst fs) (\<lambda>rest. p_ret ((Join dst f, data) # rest))))"

definition exportCopy :: "cfworld \<Rightarrow> string \<Rightarrow> ApplyOptions \<Rightarrow> (cf, (string \<times> string) list \<times> bool) prog" where
  "exportCopy W dst opts = p_bind (generateExportPatch W opts) (\<lambda>(patchDir, names).
     p_finally
      (p_bind (export_each W patchDir dst names) (\<lambda>written.
         if \<not> IncludeUncommitted opts then p_ret (written, False)
         else p_bind (GenerateUncommittedDiff W (DirHostPath opts) (ao_Paths opts)) (\<lambda>(uncommitted, _).
           if uncommitted = [] then p_ret (written, False)
           else let f = Join dst ''uncommitted.diff'' in
             p_seq (p_ctx ''write uncommitted.diff'' (of_option (w_write W f))) (p_ret (written @ [(f, uncommitted)], True)))))
      (drop_patches W patchDir))"

definition Export :: "cfworld \<Rightarrow> string \<Rightarrow> ApplyOptions \<Rightarrow> (cf, (string \<times> string) list \<times> bool) prog" where
  "Export W dst opts = p_bind (load_meta W) (\<lambda>m. case Dir_of m (DirHostPath opts) of
       None \<Rightarrow> p_fail (usage_error ''directory not found in sandbox'')
     | Some d \<Rightarrow> if Mode d = ''rw'' then p_fail (usage_error ''export is not available for :rw directories'')
         else p_seq (p_ctx ''create export directory'' (of_option (w_write W dst))) (exportCopy W dst opts))"

section \<open>What git operations keep\<close>

text \<open>Predicates that more calls to git and changes of the patch files cannot break.\<close>

definition git_stable :: "(cf \<Rightarrow> bool) \<Rightarrow> bool" where
  "git_stable I \<longleftrightarrow> (\<forall>s scope dir stdin args. I s \<longrightarrow> I (s\<lparr>calls := GitCall scope dir stdin args # calls s\<rparr>))
     \<and> (\<forall>s f. I s \<longrightarrow> I (s\<lparr>patch_files := f\<rparr>))"

lemma keeps_git_of: "git_stable I \<Longrightarrow> pkeeps I (git_of W scope dir stdin args)"
  by (simp add: pkeeps_def git_of_def git_stable_def Let_def)

lemma pkeeps_maperr [prog_keeps]: "pkeeps I m \<Longrightarrow> pkeeps I (p_maperr f m)"
  by (auto simp: pkeeps_def p_maperr_def split: prod.splits sum.splits)

lemma pkeeps_of_option [prog_keeps]: "pkeeps I (of_option e)"
  by (simp add: of_option_def prog_keeps)

lemma keeps_run [prog_keeps]:
  "git_stable I \<Longrightarrow> pkeeps I (Run (git_of W scope) dir args)"
  "git_stable I \<Longrightarrow> pkeeps I (RunInput (git_of W scope) dir stdin args)"
  "git_stable I \<Longrightarrow> pkeeps I (RunCmd (git_of W scope) dir args)"
  unfolding Run_def RunInput_def RunCmd_def by (auto intro!: prog_keeps keeps_git_of)

lemma keeps_hostops [prog_keeps]:
  "pkeeps I (mktemp (hostops_of W))" "git_stable I \<Longrightarrow> pkeeps I (rmtemp (hostops_of W) d)"
  "pkeeps I (eval_links (hostops_of W) d)" "pkeeps I (read_patch (hostops_of W) d f)"
  "git_stable I \<Longrightarrow> pkeeps I (write_patch (hostops_of W) d f c)"
proof -
  show "pkeeps I (mktemp (hostops_of W))" "pkeeps I (read_patch (hostops_of W) d f)"
    by (simp_all add: hostops_of_def pkeeps_def)
  show "pkeeps I (eval_links (hostops_of W) d)" by (simp add: hostops_of_def prog_keeps)
  assume g: "git_stable I"
  then show "pkeeps I (rmtemp (hostops_of W) d)" by (simp add: hostops_of_def pkeeps_def git_stable_def)
  have "pkeeps I (\<lambda>s. (Inr (), s\<lparr>patch_files := (Join d f, c) # patch_files s\<rparr>))"
    using g by (simp add: pkeeps_def git_stable_def)
  then show "pkeeps I (write_patch (hostops_of W) d f c)" by (simp add: hostops_of_def prog_keeps)
qed

lemma keeps_load [prog_keeps]: "pkeeps I (load_meta W)" "pkeeps I (loadDiffContext W d)"
proof -
  show l: "pkeeps I (load_meta W)" unfolding load_meta_def by (auto intro!: prog_keeps) (simp add: pkeeps_def)
  show "pkeeps I (loadDiffContext W d)" unfolding loadDiffContext_def
    by (auto intro!: prog_keeps l split: option.splits)
qed

lemma pkeeps_case_sum [prog_keeps]:
  "(\<And>e. pkeeps I (f e)) \<Longrightarrow> (\<And>a. pkeeps I (g a)) \<Longrightarrow> pkeeps I (case r of Inl e \<Rightarrow> f e | Inr a \<Rightarrow> g a)"
  by (cases r) auto

lemma pkeeps_case_prod [prog_keeps]: "(\<And>a b. pkeeps I (f a b)) \<Longrightarrow> pkeeps I (case p of (a, b) \<Rightarrow> f a b)"
  by (cases p) auto

lemma pkeeps_case_option [prog_keeps]:
  "pkeeps I f \<Longrightarrow> (\<And>a. pkeeps I (g a)) \<Longrightarrow> pkeeps I (case r of None \<Rightarrow> f | Some a \<Rightarrow> g a)"
  by (cases r) auto

lemma pkeeps_if [prog_keeps]: "pkeeps I m \<Longrightarrow> pkeeps I n \<Longrightarrow> pkeeps I (if b then m else n)"
  by simp

lemma keeps_small [prog_keeps]:
  "pkeeps I (only_copy w m)" "pkeeps I (lock_sandbox W)"
  by (auto simp: only_copy_def lock_sandbox_def intro!: prog_keeps)

lemma keeps_add_retry [prog_keeps]: "pkeeps I m \<Longrightarrow> pkeeps I (add_retry n m)"
  by (induction n) (auto intro!: prog_keeps)

lemma keeps_gitAddRetry [prog_keeps]: "git_stable I \<Longrightarrow> pkeeps I (gitAddRetry W d)"
  unfolding gitAddRetry_def by (intro prog_keeps)

lemma keeps_format_patches [prog_keeps]: "git_stable I \<Longrightarrow> pkeeps I (format_patches W d p x i shas)"
  by (induction shas arbitrary: i) (auto intro!: prog_keeps simp: Let_def)

lemma keeps_drop [prog_keeps]: "git_stable I \<Longrightarrow> pkeeps I (drop_patches W d)"
  unfolding drop_patches_def by (intro prog_keeps)

lemma keeps_listing [prog_keeps]:
  "git_stable I \<Longrightarrow> pkeeps I (ListCommitsBeyondBaseline W d)" "git_stable I \<Longrightarrow> pkeeps I (ResolveRefs W d refs)"
  unfolding ListCommitsBeyondBaseline_def ResolveRefs_def Let_def by (intro prog_keeps; assumption)+

lemma keeps_generate [prog_keeps]:
  "git_stable I \<Longrightarrow> pkeeps I (GeneratePatch W d ps u)"
  "git_stable I \<Longrightarrow> pkeeps I (GenerateFormatPatch W d ps)"
  "git_stable I \<Longrightarrow> pkeeps I (GenerateFormatPatchForRefs W d shas ps)"
  "git_stable I \<Longrightarrow> pkeeps I (GenerateUncommittedDiff W d ps)"
  unfolding GeneratePatch_def GenerateFormatPatch_def GenerateFormatPatchForRefs_def GenerateUncommittedDiff_def Let_def
  by (intro prog_keeps; assumption)+

lemma keeps_apply [prog_keeps]:
  "git_stable I \<Longrightarrow> pkeeps I (apply_with (git_of W sc) (hostops_of W) x p t g)"
  unfolding apply_with_def runGitApply_def runGitInput_def applyNonRepo_def withTempGitDir_def
  by (intro prog_keeps; assumption)

lemma keeps_checks [prog_keeps]:
  "git_stable I \<Longrightarrow> pkeeps I (CheckPatch (git_of W sc) (hostops_of W) p t g)"
  "git_stable I \<Longrightarrow> pkeeps I (ApplyPatch (git_of W sc) (hostops_of W) p t g)"
  unfolding CheckPatch_def ApplyPatch_def by (intro prog_keeps; assumption)+

lemma keeps_extract [prog_keeps]: "pkeeps I (extractSandboxSHAs (hostops_of W) d fs)"
  by (induction fs) (auto intro!: prog_keeps)

lemma keeps_series_parts [prog_keeps]:
  "git_stable I \<Longrightarrow> pkeeps I (HeadSHA (git_of W sc) t)" "git_stable I \<Longrightarrow> pkeeps I (IsEmptyRepo (git_of W sc) t)"
  "git_stable I \<Longrightarrow> pkeeps I (stashIfDirty (git_of W sc) t)" "git_stable I \<Longrightarrow> pkeeps I (buildSHAMap (git_of W sc) t tip shas)"
  unfolding HeadSHA_def IsEmptyRepo_def stashIfDirty_def buildSHAMap_def by (intro prog_keeps; assumption)+

lemma keeps_ApplyFormatPatch [prog_keeps]:
  "git_stable I \<Longrightarrow> pkeeps I (ApplyFormatPatch (git_of W sc) (hostops_of W) d ns t)"
  unfolding ApplyFormatPatch_def by (intro prog_keeps; assumption)

lemma keeps_selection [prog_keeps]:
  "git_stable I \<Longrightarrow> pkeeps I (resolveSeriesCommits W d refs)" "git_stable I \<Longrightarrow> pkeeps I (generateSeriesPatch W cs opts)"
  "git_stable I \<Longrightarrow> pkeeps I (resolve_rev W what ref d)" "git_stable I \<Longrightarrow> pkeeps I (applySeriesUncommitted W d h ps)"
  unfolding resolveSeriesCommits_def generateSeriesPatch_def resolve_rev_def applySeriesUncommitted_def
  by (intro prog_keeps; assumption)+

section \<open>The baseline follows the host\<close>

text \<open>A call that changes the host's repository or directory, and a history in which one succeeded.\<close>

fun landing :: "gcall \<Rightarrow> bool" where
  "landing (GitCall HostGit dir stdin args) \<longleftrightarrow>
     stdin \<noteq> None \<and> ''apply'' \<in> set args \<and> ''--check'' \<notin> set args \<or> take 2 args = [''am'', ''--3way'']"
| "landing _ \<longleftrightarrow> False"

definition landed :: "cfworld \<Rightarrow> gcall list \<Rightarrow> bool" where
  "landed W cs \<longleftrightarrow> (\<exists>new c old. cs = new @ c # old \<and> landing c \<and> is_ok (w_git W old c))"

text \<open>Whatever was saved, was saved after something had landed.\<close>

definition follows :: "cfworld \<Rightarrow> cf \<Rightarrow> bool" where
  "follows W s \<longleftrightarrow> (\<forall>new e old. calls s = new @ Saved e # old \<longrightarrow> landed W old)"

definition has_landed :: "cfworld \<Rightarrow> cf \<Rightarrow> bool" where
  "has_landed W s \<longleftrightarrow> landed W (calls s) \<and> follows W s"

definition unsaved :: "cf \<Rightarrow> bool" where
  "unsaved s \<longleftrightarrow> (\<forall>e. Saved e \<notin> set (calls s))"

lemma landed_Cons: "landed W cs \<Longrightarrow> landed W (c # cs)"
  unfolding landed_def by (metis append_Cons)

lemma follows_Cons:
  assumes f: "follows W s" and c: "\<And>e. c = Saved e \<Longrightarrow> landed W (calls s)" and s': "calls s' = c # calls s"
  shows "follows W s'"
  unfolding follows_def
proof (intro allI impI)
  fix new e old assume "calls s' = new @ Saved e # old"
  with s' consider "c = Saved e" "old = calls s" | new' where "calls s = new' @ Saved e # old"
    by (cases new) (auto dest: sym)
  then show "landed W old"
  proof cases
    case 1
    with c [of e] show ?thesis by simp
  next
    case 2
    with f show ?thesis unfolding follows_def by blast
  qed
qed

lemma stable_follows: "git_stable (follows W)" "git_stable (has_landed W)" "git_stable unsaved"
proof -
  have f: "follows W (s\<lparr>calls := GitCall sc d i a # calls s\<rparr>)" if "follows W s" for s sc d i a
    by (rule follows_Cons [OF that, of "GitCall sc d i a"]) simp_all
  have p: "follows W (s\<lparr>patch_files := x\<rparr>) = follows W s" for s x by (simp add: follows_def)
  show "git_stable (follows W)" by (simp add: git_stable_def f p)
  show "git_stable (has_landed W)" by (simp add: git_stable_def has_landed_def f p landed_Cons)
  show "git_stable unsaved" by (simp add: git_stable_def unsaved_def)
qed

lemma landed_follows: "has_landed W s \<Longrightarrow> follows W s"
  by (simp add: has_landed_def)

lemma keeps_save_landed [prog_keeps]: "pkeeps (has_landed W) (save_meta W e)"
  unfolding pkeeps_def
proof (intro allI impI)
  fix s assume h: "has_landed W s"
  have "follows W (s\<lparr>meta := e, calls := Saved e # calls s\<rparr>)"
    by (rule follows_Cons [of _ s "Saved e"]) (use h in \<open>simp_all add: has_landed_def\<close>)
  with h show "has_landed W (snd (save_meta W e s))"
    by (simp add: save_meta_def has_landed_def landed_Cons split: option.splits)
qed

lemma keeps_advance:
  "(\<And>d. pkeeps (has_landed W) (f d)) \<Longrightarrow> pkeeps (has_landed W) (advanceBaselineUnlocked W h f)"
  unfolding advanceBaselineUnlocked_def commitBaseline_def by (intro prog_keeps; assumption)

lemma keeps_AdvanceBaseline [prog_keeps]:
  "pkeeps (has_landed W) (AdvanceBaseline W h)" "pkeeps (has_landed W) (AdvanceBaselineTo W h sha)"
  "pkeeps (has_landed W) (advanceSeriesBaseline W h refs applied)"
proof -
  show a: "pkeeps (has_landed W) (AdvanceBaseline W h)"
    unfolding AdvanceBaseline_def by (intro keeps_advance prog_keeps stable_follows)
  show b: "pkeeps (has_landed W) (AdvanceBaselineTo W h sha)" for sha
    unfolding AdvanceBaselineTo_def by (intro keeps_advance prog_keeps)
  show "pkeeps (has_landed W) (advanceSeriesBaseline W h refs applied)"
    unfolding advanceSeriesBaseline_def Let_def by (intro prog_keeps a b stable_follows)
qed

lemma triple_maperr: "triple P m Q (\<lambda>e. X (f e)) \<Longrightarrow> triple P (p_maperr f m) Q X"
  unfolding triple_def by (fastforce simp: p_maperr_def split: prod.splits sum.splits)

lemma triple_landing:
  "landing (GitCall sc dir stdin args) \<Longrightarrow> triple (follows W) (git_of W sc dir stdin args) (\<lambda>_. has_landed W) (\<lambda>_. follows W)"
proof (rule tripleI)
  fix s a s' assume l: "landing (GitCall sc dir stdin args)" and f: "follows W s" and r: "git_of W sc dir stdin args s = (Inr a, s')"
  then have c: "is_ok (w_git W (calls s) (GitCall sc dir stdin args))" "calls s' = [] @ GitCall sc dir stdin args # calls s"
    by (auto simp: git_of_def Let_def)
  then have "landed W (calls s')" using l unfolding landed_def by blast
  moreover have "follows W s'" by (rule follows_Cons [OF f _ c(2) [simplified]]) simp
  ultimately show "has_landed W s'" by (simp add: has_landed_def)
next
  fix s e s' assume "follows W s" "git_of W sc dir stdin args s = (Inl e, s')"
  then show "follows W s'" using pkeepsD [OF keeps_git_of [OF stable_follows(1), of W W sc dir stdin args], of s] by simp
qed

lemma triple_keep: "pkeeps I m \<Longrightarrow> triple I m (\<lambda>_. I) (\<lambda>_. I)"
  by (simp add: pkeeps_triple)

lemma triple_keep_seq: "pkeeps I m \<Longrightarrow> triple I n Q (\<lambda>_. I) \<Longrightarrow> triple I (p_seq m n) Q (\<lambda>_. I)"
  by (rule triple_seq [OF triple_keep])

lemma triple_keep_bind: "pkeeps I m \<Longrightarrow> (\<And>a. triple I (f a) Q (\<lambda>_. I)) \<Longrightarrow> triple I (p_bind m f) Q (\<lambda>_. I)"
  by (rule triple_bind [OF triple_keep])

lemma triple_after:
  assumes t: "triple P m Q (\<lambda>_. X)" and k: "\<And>a s. Q a s \<Longrightarrow> J s" and n: "\<And>a. pkeeps J (f a)" and x: "\<And>s. J s \<Longrightarrow> X s"
  shows "triple P (p_bind m f) (\<lambda>_. J) (\<lambda>_. X)"
proof (rule triple_bind [OF t])
  fix a
  show "triple (Q a) (f a) (\<lambda>_. J) (\<lambda>_. X)"
    by (rule triple_conseq [OF triple_keep [OF n]]) (use k x in auto)
qed

lemma triple_ApplyPatch:
  "triple (follows W) (ApplyPatch (git_of W HostGit) (hostops_of W) p t g) (\<lambda>_. has_landed W) (\<lambda>_. follows W)"
proof -
  have run: "triple (follows W) (runGitInput (git_of W HostGit) d p args) (\<lambda>_. has_landed W) (\<lambda>_. follows W)"
    if "''apply'' \<in> set args" "''--check'' \<notin> set args" for d args
    unfolding runGitInput_def p_seq_def RunInput_def
    by (rule triple_after [OF triple_maperr [OF triple_landing]]) (use that landed_follows in \<open>auto intro: prog_keeps\<close>)
  have inner: "triple (follows W) (p_seq (p_ctx c (RunCmd (git_of W HostGit) tmp [''init'']))
       (p_maperr f (runGitInput (git_of W HostGit) real p ([''--git-dir='' @ Join tmp ''.git'', ''apply''] @ []))))
       (\<lambda>_. has_landed W) (\<lambda>_. follows W)" for c tmp f real
  proof (rule triple_keep_seq)
    show "pkeeps (follows W) (p_ctx c (RunCmd (git_of W HostGit) tmp [''init'']))" by (intro prog_keeps stable_follows)
    have "''--check'' \<noteq> ''--git-dir='' @ x" for x by simp
    then show "triple (follows W) (p_maperr f (runGitInput (git_of W HostGit) real p ([''--git-dir='' @ Join tmp ''.git'', ''apply''] @ [])))
       (\<lambda>_. has_landed W) (\<lambda>_. follows W)"
      by (intro triple_maperr run) auto
  qed
  have tmp: "triple (follows W) (withTempGitDir (git_of W HostGit) (hostops_of W) (\<lambda>tmp. p_maperr f
       (runGitInput (git_of W HostGit) real p ([''--git-dir='' @ Join tmp ''.git'', ''apply''] @ [])))) (\<lambda>_. has_landed W) (\<lambda>_. follows W)" for f real
    unfolding withTempGitDir_def
    by (intro triple_keep_bind triple_finally [OF inner] triple_keep prog_keeps stable_follows)
  show ?thesis
  proof (cases g)
    case True
    then show ?thesis unfolding ApplyPatch_def apply_with_def runGitApply_def
      by (simp, intro triple_maperr run) auto
  next
    case False
    show ?thesis unfolding ApplyPatch_def apply_with_def applyNonRepo_def if_not_P [OF False]
      by (rule triple_keep_bind [OF _ tmp]) (intro prog_keeps)
  qed
qed

lemma triple_weaken_ok: "triple P m (\<lambda>_. has_landed W) (\<lambda>_. follows W) \<Longrightarrow> triple P m (\<lambda>_. follows W) (\<lambda>_. follows W)"
  by (erule triple_conseq) (auto intro: landed_follows)

lemma triple_then_landed:
  "triple (follows W) m (\<lambda>_. has_landed W) (\<lambda>_. follows W) \<Longrightarrow> pkeeps (has_landed W) n \<Longrightarrow>
     triple (follows W) (p_seq m n) (\<lambda>_. follows W) (\<lambda>_. follows W)"
  unfolding p_seq_def by (rule triple_weaken_ok, rule triple_after) (auto intro: landed_follows)

lemma triple_cases:
  "(\<And>a. r = Some a \<Longrightarrow> triple P (g a) Q X) \<Longrightarrow> (r = None \<Longrightarrow> triple P f Q X) \<Longrightarrow>
     triple P (case r of None \<Rightarrow> f | Some a \<Rightarrow> g a) Q X"
  "(b \<Longrightarrow> triple P m Q X) \<Longrightarrow> (\<not> b \<Longrightarrow> triple P n Q X) \<Longrightarrow> triple P (if b then m else n) Q X"
  "(\<And>x y. triple P (h x y) Q X) \<Longrightarrow> triple P (case p of (x, y) \<Rightarrow> h x y) Q X"
  by (cases r; simp) (auto split: prod.splits)

lemma follows_ApplyAll: "pkeeps (follows W) (ApplyAll W opts)"
proof -
  note kp = prog_keeps stable_follows
  have land: "triple (follows W) (p_seq (p_ctx h (ApplyPatch (git_of W HostGit) (hostops_of W) p h g))
      (p_seq (p_when b (p_ctx c (AdvanceBaseline W i))) (p_ret x))) (\<lambda>_. follows W) (\<lambda>_. follows W)" for h p g b c i and x :: "ApplyResult option"
    by (rule triple_then_landed [OF triple_ctx [OF triple_ApplyPatch]]) (intro prog_keeps)
  have dry: "triple (follows W) (if b then p_ret x else p_seq (p_ctx h (ApplyPatch (git_of W HostGit) (hostops_of W) p h g))
      (p_seq (p_when b' (p_ctx c (AdvanceBaseline W i))) (p_ret x))) (\<lambda>_. follows W) (\<lambda>_. follows W)" for h p g b b' c i and x :: "ApplyResult option"
    using land triple_keep [OF pkeeps_basic(1), of "follows W" x] by simp
  have one: "triple (follows W) (case q of (p, stat) \<Rightarrow> if TrimSpace p = [] then p_ret None
      else p_seq (CheckPatch (git_of W HostGit) (hostops_of W) p h g)
        (if b then p_ret (f stat) else p_seq (p_ctx h (ApplyPatch (git_of W HostGit) (hostops_of W) p h g))
          (p_seq (p_when b' (p_ctx c (AdvanceBaseline W i))) (p_ret (f stat))))) (\<lambda>_. follows W) (\<lambda>_. follows W)"
    for q h g b b' c i and f :: "string \<Rightarrow> ApplyResult option"
  proof (rule triple_cases(3))
    fix x y :: string
    show "triple (follows W) (if TrimSpace x = [] then p_ret None
      else p_seq (CheckPatch (git_of W HostGit) (hostops_of W) x h g)
        (if b then p_ret (f y) else p_seq (p_ctx h (ApplyPatch (git_of W HostGit) (hostops_of W) x h g))
          (p_seq (p_when b' (p_ctx c (AdvanceBaseline W i))) (p_ret (f y))))) (\<lambda>_. follows W) (\<lambda>_. follows W)"
    proof (rule triple_cases(2))
      show "triple (follows W) (p_ret None) (\<lambda>_. follows W) (\<lambda>_. follows W)" by (intro triple_keep kp)
    qed (rule triple_keep_seq [OF _ dry], intro kp)
  qed
  show ?thesis unfolding pkeeps_triple ApplyAll_def Let_def
  proof (rule triple_keep_seq [OF _ triple_keep_bind])
    fix m
    show "triple (follows W) (case Dir_of m (DirHostPath opts) of None \<Rightarrow> p_ret None
       | Some d \<Rightarrow> if Mode d \<noteq> ''copy'' then p_ret None
          else p_bind (GeneratePatch W (DirHostPath opts) (ao_Paths opts) (IncludeUncommitted opts)) (\<lambda>(patchBytes, stat).
            if TrimSpace patchBytes = [] then p_ret None
            else p_seq (CheckPatch (git_of W HostGit) (hostops_of W) patchBytes (HostPath d) (w_repo W (HostPath d)))
             (if DryRun opts then p_ret (Some \<lparr>ar_Dir = HostPath d, ar_Stat = stat, Commits = [], UncommittedApplied = False\<rparr>)
              else p_seq (p_ctx (HostPath d) (ApplyPatch (git_of W HostGit) (hostops_of W) patchBytes (HostPath d) (w_repo W (HostPath d))))
               (p_seq (p_when (ao_Paths opts = []) (p_ctx ''advance baseline'' (AdvanceBaseline W (DirHostPath opts))))
                 (p_ret (Some \<lparr>ar_Dir = HostPath d, ar_Stat = stat, Commits = [], UncommittedApplied = False\<rparr>)))))) (\<lambda>_. follows W) (\<lambda>_. follows W)"
    proof (intro triple_cases(1,2))
      fix d
      show "triple (follows W) (p_bind (GeneratePatch W (DirHostPath opts) (ao_Paths opts) (IncludeUncommitted opts)) (\<lambda>(patchBytes, stat).
            if TrimSpace patchBytes = [] then p_ret None
            else p_seq (CheckPatch (git_of W HostGit) (hostops_of W) patchBytes (HostPath d) (w_repo W (HostPath d)))
             (if DryRun opts then p_ret (Some \<lparr>ar_Dir = HostPath d, ar_Stat = stat, Commits = [], UncommittedApplied = False\<rparr>)
              else p_seq (p_ctx (HostPath d) (ApplyPatch (git_of W HostGit) (hostops_of W) patchBytes (HostPath d) (w_repo W (HostPath d))))
               (p_seq (p_when (ao_Paths opts = []) (p_ctx ''advance baseline'' (AdvanceBaseline W (DirHostPath opts))))
                 (p_ret (Some \<lparr>ar_Dir = HostPath d, ar_Stat = stat, Commits = [], UncommittedApplied = False\<rparr>)))))) (\<lambda>_. follows W) (\<lambda>_. follows W)"
        by (rule triple_keep_bind [OF _ one]) (intro kp)
    qed (intro triple_keep kp)+
  qed (intro kp)+
qed

lemma triple_am:
  assumes "names \<noteq> []"
  shows "triple (follows W) (ApplyFormatPatch (git_of W HostGit) (hostops_of W) d names t) (\<lambda>_. has_landed W) (\<lambda>_. follows W)"
  unfolding ApplyFormatPatch_def if_not_P [OF assms]
proof (rule triple_keep_bind [OF _ triple_keep_bind [OF _ triple_keep_bind [OF _ triple_keep_bind]]])
  fix tip preTip :: string and shas and stashed :: bool
  let ?run = "Run (git_of W HostGit) t ([''am'', ''--3way''] @ map (Join d) names)"
  have am: "triple (follows W) (p_try ?run) (\<lambda>r. case r of Inl _ \<Rightarrow> follows W | Inr _ \<Rightarrow> has_landed W) (\<lambda>_. follows W)"
    unfolding Run_def by (rule triple_try, simp, rule triple_landing) simp
  show "triple (follows W) (p_bind (p_try ?run) (\<lambda>am. case am of
        Inl amErr \<Rightarrow> p_seq (p_ignore (RunCmd (git_of W HostGit) t [''am'', ''--abort'']))
            (p_seq (p_when stashed (p_ignore (RunCmd (git_of W HostGit) t [''stash'', ''pop''])))
              (p_fail (formatAMError (stderr_of amErr) t)))
      | Inr _ \<Rightarrow> p_bind (buildSHAMap (git_of W HostGit) t preTip shas) (\<lambda>shaMap.
          if stashed then p_bind (p_try (RunCmd (git_of W HostGit) t [''stash'', ''pop''])) (\<lambda>pop. case pop of
              Inl e \<Rightarrow> p_ret (shaMap, Some (wrap ''restore stashed changes after apply'' e))
            | Inr _ \<Rightarrow> p_ret (shaMap, None))
          else p_ret (shaMap, None)))) (\<lambda>_. has_landed W) (\<lambda>_. follows W)"
  proof (rule triple_bind [OF am])
    fix r
    show "triple (case r of Inl _ \<Rightarrow> follows W | Inr _ \<Rightarrow> has_landed W) (case r of
        Inl amErr \<Rightarrow> p_seq (p_ignore (RunCmd (git_of W HostGit) t [''am'', ''--abort'']))
            (p_seq (p_when stashed (p_ignore (RunCmd (git_of W HostGit) t [''stash'', ''pop''])))
              (p_fail (formatAMError (stderr_of amErr) t)))
      | Inr _ \<Rightarrow> p_bind (buildSHAMap (git_of W HostGit) t preTip shas) (\<lambda>shaMap.
          if stashed then p_bind (p_try (RunCmd (git_of W HostGit) t [''stash'', ''pop''])) (\<lambda>pop. case pop of
              Inl e \<Rightarrow> p_ret (shaMap, Some (wrap ''restore stashed changes after apply'' e))
            | Inr _ \<Rightarrow> p_ret (shaMap, None))
          else p_ret (shaMap, None))) (\<lambda>_. has_landed W) (\<lambda>_. follows W)"
    proof (cases r)
      case (Inl e)
      show ?thesis unfolding Inl sum.case
        by (intro triple_keep_seq triple_fail) (intro prog_keeps stable_follows | assumption)+
    next
      case (Inr a)
      show ?thesis unfolding Inr sum.case
        by (rule triple_conseq [OF triple_keep [where I = "has_landed W"]])
          (intro prog_keeps stable_follows(2) | erule landed_follows | assumption)+
    qed
  qed
qed (intro prog_keeps stable_follows)+

lemma landed_finish: "pkeeps (has_landed W) (finishSeriesApply W h opts res e)"
  unfolding finishSeriesApply_def by (intro prog_keeps stable_follows)

lemma follows_ApplySeries: "pkeeps (follows W) (ApplySeries W opts)"
  unfolding pkeeps_triple ApplySeries_def
proof (intro triple_keep_seq triple_keep_bind triple_cases)
  fix m d commits patchDir names
  let ?h = "HostPath d"
  have body: "triple (follows W) (if names = [] then p_ret (None, None)
     else p_bind (ApplyFormatPatch (git_of W HostGit) (hostops_of W) patchDir names ?h) (\<lambda>(shaMap, amErr).
       if amErr \<noteq> None \<and> shaMap = None then p_ret (None, amErr)
       else finishSeriesApply W ?h opts (seriesResult ?h commits shaMap) amErr)) (\<lambda>_. follows W) (\<lambda>_. follows W)"
  proof (cases "names = []")
    case True
    then show ?thesis by (simp, intro triple_keep prog_keeps)
  next
    case False
    show ?thesis unfolding if_not_P [OF False]
      by (rule triple_weaken_ok, rule triple_after [OF triple_am [OF False]])
        (intro prog_keeps landed_finish stable_follows | assumption | erule landed_follows)+
  qed
  show "triple (follows W) (p_finally (if names = [] then p_ret (None, None)
     else p_bind (ApplyFormatPatch (git_of W HostGit) (hostops_of W) patchDir names ?h) (\<lambda>(shaMap, amErr).
       if amErr \<noteq> None \<and> shaMap = None then p_ret (None, amErr)
       else finishSeriesApply W ?h opts (seriesResult ?h commits shaMap) amErr)) (drop_patches W patchDir)) (\<lambda>_. follows W) (\<lambda>_. follows W)"
    by (rule triple_finally [OF body]) (intro triple_keep prog_keeps stable_follows)+
qed (intro triple_keep prog_keeps stable_follows; assumption?)+

lemma unsaved_ApplyAll:
  assumes "DryRun opts \<or> ao_Paths opts \<noteq> []"
  shows "pkeeps unsaved (ApplyAll W opts)"
proof (cases "DryRun opts")
  case True
  show ?thesis unfolding ApplyAll_def Let_def if_P [OF True] by (intro prog_keeps stable_follows)
next
  case False
  with assms have p: "(ao_Paths opts = []) = False" by simp
  show ?thesis unfolding ApplyAll_def Let_def p p_when_simps by (intro prog_keeps stable_follows)
qed

lemma unsaved_ApplySeries:
  assumes "DryRun opts \<or> ao_Paths opts \<noteq> []"
  shows "pkeeps unsaved (ApplySeries W opts)"
proof (cases "DryRun opts")
  case True
  show ?thesis unfolding ApplySeries_def if_P [OF True] by (intro prog_keeps stable_follows)
next
  case False
  with assms have p: "(ao_Paths opts = []) = False" by simp
  show ?thesis unfolding ApplySeries_def finishSeriesApply_def p p_when_simps by (intro prog_keeps stable_follows)
qed

lemma saved_only_after_landing:
  assumes k: "pkeeps (follows W) m" "DryRun opts \<or> ao_Paths opts \<noteq> [] \<Longrightarrow> pkeeps unsaved m"
    and s: "calls s = []" and c: "calls (snd (m s)) = later @ Saved e # earlier"
  shows "landed W earlier \<and> \<not> DryRun opts \<and> ao_Paths opts = []"
proof -
  have f: "follows W s" "unsaved s" using s by (simp_all add: follows_def unsaved_def)
  have "landed W earlier" using pkeepsD [OF k(1) f(1)] c unfolding follows_def by blast
  moreover have "\<not> (DryRun opts \<or> ao_Paths opts \<noteq> [])"
  proof
    assume "DryRun opts \<or> ao_Paths opts \<noteq> []"
    from pkeepsD [OF k(2) [OF this] f(2)] have "Saved e \<notin> set (calls (snd (m s)))" by (simp add: unsaved_def)
    with c show False by simp
  qed
  ultimately show ?thesis by simp
qed

section \<open>Properties\<close>

text \<open>
  C15: The baseline follows the host. An apply, of all changes or of a series, saves a record only
  after git has changed the host's directory successfully, and not at all on a dry run or when the paths are
  filtered: work that did not reach the host stays pending. Everything git answers, on both sides, is arbitrary.
\<close>

theorem baseline_follows_the_host:
  assumes "calls s = []" and "calls s' = later @ Saved e # earlier" "s' = snd (ApplyAll W opts s) \<or> s' = snd (ApplySeries W opts s)"
  shows "landed W earlier \<and> \<not> DryRun opts \<and> ao_Paths opts = []"
  using assms(3)
proof
  assume "s' = snd (ApplyAll W opts s)"
  with assms(2) show ?thesis
    by (intro saved_only_after_landing [OF follows_ApplyAll unsaved_ApplyAll assms(1)]) simp_all
next
  assume "s' = snd (ApplySeries W opts s)"
  with assms(2) show ?thesis
    by (intro saved_only_after_landing [OF follows_ApplySeries unsaved_ApplySeries assms(1)]) simp_all
qed

text \<open>A world in which every call of git answers the same, and a sandbox with one copied directory.\<close>

definition always :: "string \<Rightarrow> cfworld" where
  "always out = \<lparr>w_git = (\<lambda>_ _. Inr out), w_save = (\<lambda>_. None), w_lock = None, w_dir = None, w_load = None,
     w_repo = (\<lambda>_. True), w_links = Inr, w_temp = (\<lambda>_. Inr ''/t''), w_write = (\<lambda>_. None), workDirOf = (\<lambda>_. ''/w'')\<rparr>"

definition one_dir :: cf where
  "one_dir = \<lparr>calls = [], meta = blank_env\<lparr>Dirs := [\<lparr>HostPath = ''/p'', MountPath = ''/p'', Mode = ''copy'',
     BaselineSHA = ''old'', InceptionSHA = [], IncludeIgnored = False, StripHistory = False\<rparr>]\<rparr>, patch_files = []\<rparr>"

definition plain_apply :: ApplyOptions where
  "plain_apply = \<lparr>Refs = [], IncludeUncommitted = True, ao_Paths = [], DryRun = False, DirHostPath = ''/p''\<rparr>"

fun is_saved :: "gcall \<Rightarrow> bool" where
  "is_saved (Saved e) \<longleftrightarrow> True"
| "is_saved _ \<longleftrightarrow> False"

lemma saved_split:
  assumes "list_ex is_saved cs"
  obtains later e earlier where "cs = later @ Saved e # earlier"
proof -
  from assms obtain c where "c \<in> set cs" "is_saved c" by (auto simp: list_ex_iff)
  moreover from this(2) obtain e where "c = Saved e" by (auto elim: is_saved.elims)
  ultimately show thesis using that by (metis split_list)
qed

lemma world_runs [simp]: "w_git (always out) cs c = Inr out" "w_lock (always out) = None" "w_dir (always out) = None"
    "w_load (always out) = None" "w_save (always out) cs = None" "w_repo (always out) p = True" "workDirOf (always out) p = ''/w''"
  by (simp_all add: always_def)

lemma plain_apply_saves: "list_ex is_saved (calls (snd (ApplyAll (always ''new'') plain_apply one_dir)))"
  by code_simp

theorem baseline_follows_the_host_witness:
  "\<exists>later e earlier. calls (snd (ApplyAll (always ''new'') plain_apply one_dir)) = later @ Saved e # earlier
     \<and> landed (always ''new'') earlier"
proof -
  obtain later e earlier where c: "calls (snd (ApplyAll (always ''new'') plain_apply one_dir)) = later @ Saved e # earlier"
    using plain_apply_saves by (rule saved_split)
  have "calls one_dir = []" by (simp add: one_dir_def)
  from baseline_follows_the_host [OF this c] c show ?thesis by blast
qed

section \<open>Racing for the baseline\<close>

lemma Dir_of_set_baseline:
  assumes "Dir_of m p = Some d"
  shows "Dir_of (set_baseline p sha m) p = Some (d\<lparr>BaselineSHA := sha\<rparr>)"
proof -
  have f: "find (\<lambda>d. HostPath d = p) (set_first_baseline (\<lambda>d. HostPath d = p) sha ds) =
      map_option (\<lambda>d. d\<lparr>BaselineSHA := sha\<rparr>) (find (\<lambda>d. HostPath d = p) ds)" for ds
    by (induction ds) auto
  show ?thesis
  proof (cases "p = []")
    case True
    with assms show ?thesis by (cases "Dirs m") (auto simp: Dir_of_def set_baseline_def Workdir_def)
  next
    case False
    with assms f [of "Dirs m"] show ?thesis by (simp add: Dir_of_def set_baseline_def)
  qed
qed

lemma p_seq_Inr: "p_seq m n s = (Inr a, s') \<longleftrightarrow> (\<exists>u t. m s = (Inr u, t) \<and> n t = (Inr a, s'))"
  by (auto simp: p_seq_def p_bind_def split: prod.splits sum.splits)

lemma p_bind_Inr: "p_bind m f s = (Inr a, s') \<longleftrightarrow> (\<exists>b t. m s = (Inr b, t) \<and> f b t = (Inr a, s'))"
  by (auto simp: p_bind_def split: prod.splits sum.splits)

lemma of_option_Inr: "of_option e s = (Inr u, s') \<longleftrightarrow> e = None \<and> s' = s"
  by (auto simp: of_option_def p_ret_def p_fail_def split: option.splits)

lemma load_meta_Inr: "load_meta W s = (Inr m, s') \<longleftrightarrow> w_load W = None \<and> m = meta s \<and> s' = s"
  by (auto simp: load_meta_def p_seq_Inr of_option_Inr)

lemma meta_Run: "meta (snd (Run (git_of W sc) d args s)) = meta s"
  by (simp add: Run_def RunInput_def git_of_def Let_def)

lemma meta_resolve: "meta (snd (resolve_rev W what ref d s)) = meta s"
  using meta_Run [of W SandboxGit d _ s]
  by (auto simp: resolve_rev_def p_bind_def p_ctx_def p_ret_def split: prod.splits sum.splits) (metis snd_conv)+

lemma save_meta_Inr:
  "save_meta W e s = (Inr u, s') \<Longrightarrow> meta s' = e"
  by (auto simp: save_meta_def split: option.splits)

lemma commitBaseline_Inr:
  assumes "commitBaseline W m p (Some expected) rev_of s = (Inr sha, s')" and "Dir_of m p = Some d"
  shows "BaselineSHA d = expected \<and> meta s' = set_baseline p sha m"
proof -
  have e: "BaselineSHA d = expected" using assms by (auto simp: commitBaseline_def p_fail_def split: if_splits)
  with assms obtain x t where "save_meta W (set_baseline p x m) t = (Inr (), s')" "x = sha"
    by (auto simp: commitBaseline_def p_bind_Inr p_seq_Inr p_ret_def)
  with e save_meta_Inr show ?thesis by blast
qed

lemma mutateBaseline_Inr:
  assumes "mutateBaseline W p expected rev_of s = (Inr c, s')"
  obtains d where "w_dir W = None" "w_lock W = None" "w_load W = None" "Dir_of (meta s) p = Some d"
    "checkBaselineMode (Mode d) = Inr ()" "BaselineSHA d = expected" "meta s' = set_baseline p (NewSHA c) (meta s)"
proof -
  from assms obtain d where w: "w_dir W = None" "w_lock W = None" "w_load W = None" and d: "Dir_of (meta s) p = Some d"
      and r: "p_seq (p_lift (checkBaselineMode (Mode d)))
         (p_bind (commitBaseline W (meta s) p (Some expected) rev_of) (\<lambda>sha.
          p_bind (p_try (Run (git_of W SandboxGit) (workDirOf W (HostPath d)) [''log'', ''--format=%s'', ''-1'', sha])) (\<lambda>out.
          p_ret \<lparr>NewSHA = sha, bc_Subject = (case out of Inr t \<Rightarrow> TrimSpace t | Inl _ \<Rightarrow> [])\<rparr>))) s = (Inr c, s')"
    by (auto simp: mutateBaseline_def p_seq_Inr p_bind_Inr of_option_Inr load_meta_Inr lock_sandbox_def p_fail_def split: option.splits)
  have m: "checkBaselineMode (Mode d) = Inr ()" using r
    by (cases "checkBaselineMode (Mode d)") (simp_all add: p_seq_def, simp add: p_fail_def)
  with r obtain sha t out t' where cb: "commitBaseline W (meta s) p (Some expected) rev_of s = (Inr sha, t)"
      and l: "p_try (Run (git_of W SandboxGit) (workDirOf W (HostPath d)) [''log'', ''--format=%s'', ''-1'', sha]) t = (Inr out, t')"
      and e: "NewSHA c = sha" "s' = t'"
    by (auto simp: p_seq_def p_bind_Inr p_ret_def)
  have "meta t' = meta t" using l meta_Run [of W SandboxGit "workDirOf W (HostPath d)" "[''log'', ''--format=%s'', ''-1'', sha]" t]
    by (auto simp: p_try_def split: prod.splits)
  with commitBaseline_Inr [OF cb d] e show thesis by (intro that [OF w d m]) simp_all
qed

lemma mutateBaseline_conflict:
  assumes "w_dir W = None" "w_lock W = None" "w_load W = None" "Dir_of (meta s) p = Some d"
    "checkBaselineMode (Mode d) = Inr ()" "BaselineSHA d \<noteq> expected"
  shows "mutateBaseline W p expected rev_of s = (Inl (BaselineConflictError expected (BaselineSHA d)), s)"
  using assms by (simp add: mutateBaseline_def p_seq_def lock_sandbox_def of_option_def load_meta_def commitBaseline_def
    p_bind_def p_ret_def p_fail_def)

text \<open>
  C18: Setting the baseline detects a race. It succeeds only when the recorded baseline is the one the caller
  read, and then changes that baseline and nothing else of the record; a second caller that had read the same
  value, to set it or to advance it, gets a conflict that names the new value, and nothing is changed.
\<close>

theorem baseline_set_detects_a_race:
  assumes "SetBaselineCAS W p expected ref s = (Inr c, s1)"
  shows "map_option BaselineSHA (Dir_of (meta s) p) = Some expected \<and> meta s1 = set_baseline p (NewSHA c) (meta s)
    \<and> (NewSHA c \<noteq> expected \<longrightarrow>
        SetBaselineCAS W p expected ref2 s1 = (Inl (BaselineConflictError expected (NewSHA c)), s1)
      \<and> AdvanceBaselineCAS W p expected s1 = (Inl (BaselineConflictError expected (NewSHA c)), s1))"
proof -
  obtain d where w: "w_dir W = None" "w_lock W = None" "w_load W = None" and d: "Dir_of (meta s) p = Some d"
    "checkBaselineMode (Mode d) = Inr ()" "BaselineSHA d = expected" and s1: "meta s1 = set_baseline p (NewSHA c) (meta s)"
    using assms unfolding SetBaselineCAS_def by (rule mutateBaseline_Inr)
  have d1: "Dir_of (meta s1) p = Some (d\<lparr>BaselineSHA := NewSHA c\<rparr>)" unfolding s1 by (rule Dir_of_set_baseline [OF d(1)])
  have "mutateBaseline W p expected rev_of s1 = (Inl (BaselineConflictError expected (NewSHA c)), s1)"
    if "NewSHA c \<noteq> expected" for rev_of
    using mutateBaseline_conflict [OF w d1, of expected rev_of] that d(2) by simp
  with d s1 show ?thesis by (simp add: SetBaselineCAS_def AdvanceBaselineCAS_def)
qed

lemma set_once: "fst (SetBaselineCAS (always ''new'') ''/p'' ''old'' ''HEAD'' one_dir) = Inr \<lparr>NewSHA = ''new'', bc_Subject = ''new''\<rparr>"
  by code_simp

theorem baseline_set_detects_a_race_witness:
  "kind_of (case fst (SetBaselineCAS (always ''new'') ''/p'' ''old'' ''v1''
      (snd (SetBaselineCAS (always ''new'') ''/p'' ''old'' ''HEAD'' one_dir))) of Inl e \<Rightarrow> e) = ErrConflict"
proof -
  obtain s1 where s1: "SetBaselineCAS (always ''new'') ''/p'' ''old'' ''HEAD'' one_dir = (Inr \<lparr>NewSHA = ''new'', bc_Subject = ''new''\<rparr>, s1)"
    using set_once by (metis prod.collapse)
  from baseline_set_detects_a_race [OF s1, of "''v1''"]
  have "SetBaselineCAS (always ''new'') ''/p'' ''old'' ''v1'' s1 = (Inl (BaselineConflictError ''old'' ''new''), s1)" by simp
  then show ?thesis by (simp add: s1 BaselineConflictError_def)
qed

section \<open>Selective apply\<close>

lemma stable_meta: "git_stable (\<lambda>x. meta x = m)"
  by (simp add: git_stable_def)

lemma listing_Inr:
  assumes "ListCommitsBeyondBaseline W p s = (Inr cs, t)"
  obtains d where "w_dir W = None" "w_load W = None" "Dir_of (meta s) p = Some d" "Mode d \<noteq> ''rw''"
proof -
  from assms have "fst (p_bind (loadDiffContext W p) (\<lambda>(workDir, baselineSHA, mode). p_seq (only_copy ''commit listing is not available'' mode)
      (p_bind (p_ctx ''git log'' (Run (git_of W SandboxGit) workDir [''log'', ''--reverse'', ''--format=%H %s'', baselineSHA @ ''..HEAD'']))
       (\<lambda>out. let lines = TrimSpace out in
          p_ret (if lines = [] then [] else List.map_filter parse_commit_line (split_lines lines))))) s) = Inr cs"
    by (simp add: ListCommitsBeyondBaseline_def)
  then show thesis using that
    by (auto simp: loadDiffContext_def load_meta_def of_option_def p_seq_def p_bind_def p_ret_def p_fail_def p_lift_def only_copy_def
        split: option.splits if_splits)
qed

lemma AdvanceBaselineTo_effect:
  assumes "w_dir W = None" "w_load W = None" "Dir_of (meta t) p = Some d" "Mode d \<noteq> ''rw''"
  shows "AdvanceBaselineTo W p sha t = (case w_save W (calls t) of Some e \<Rightarrow> (Inl e, t)
    | None \<Rightarrow> (Inr (), t\<lparr>meta := set_baseline p sha (meta t), calls := Saved (set_baseline p sha (meta t)) # calls t\<rparr>))"
  using assms
  by (simp add: AdvanceBaselineTo_def advanceBaselineUnlocked_def commitBaseline_def save_meta_def load_meta_def of_option_def
      p_seq_def p_bind_def p_ret_def p_lift_def split: option.split)

lemma takeWhile_border:
  assumes "n = length (takeWhile P xs)"
  shows "i < n \<Longrightarrow> P (xs ! i)" "n < length xs \<Longrightarrow> \<not> P (xs ! n)"
  using assms nth_length_takeWhile [of P xs] set_takeWhileD [of "xs ! i" P xs] takeWhile_nth [of i P xs] nth_mem [of i "takeWhile P xs"]
  by auto

text \<open>
  C17: An apply of selected commits moves the baseline exactly over the commits it applied without a gap. When
  the commits beyond the baseline can be listed, let \<open>n\<close> be the number of them, from the old baseline on, up to
  the first that is not among the applied ones. With \<open>n\<close> zero nothing is saved and nothing changes; otherwise
  the record is saved with the baseline at the last of those \<open>n\<close> commits and no other change, unless saving
  fails, when the error is returned and nothing changes. So a commit that was left out stays pending, with
  all that follow it, and none before it does. When the listing fails its error is returned.
\<close>

theorem selective_apply_keeps_the_rest_pending:
  assumes "refs \<noteq> []"
  shows "case ListCommitsBeyondBaseline W p s of
      (Inl e, t) \<Rightarrow> advanceSeriesBaseline W p refs applied s = (Inl e, t)
    | (Inr cs, t) \<Rightarrow> meta t = meta s \<and> (\<exists>n \<le> length cs.
        (\<forall>i<n. SHA (cs ! i) \<in> SourceSHA ` set applied) \<and>
        (n < length cs \<longrightarrow> SHA (cs ! n) \<notin> SourceSHA ` set applied) \<and>
        advanceSeriesBaseline W p refs applied s =
          (if n = 0 then (Inr (), t)
           else let m = set_baseline p (SHA (cs ! (n - 1))) (meta s) in
             case w_save W (calls t) of Some e \<Rightarrow> (Inl e, t)
             | None \<Rightarrow> (Inr (), t\<lparr>meta := m, calls := Saved m # calls t\<rparr>)))"
proof -
  let ?A = "SourceSHA ` set applied"
  obtain r t where l: "ListCommitsBeyondBaseline W p s = (r, t)" by force
  have mt: "meta t = meta s" using pkeepsD [OF keeps_listing(1) [OF stable_meta, of "meta s" W p], of s] l by simp
  show ?thesis
  proof (cases r)
    case (Inl err)
    with l assms show ?thesis by (simp add: advanceSeriesBaseline_def p_bind_def)
  next
    case (Inr cs)
    define n where "n = length (takeWhile (\<lambda>c. SHA c \<in> ?A) cs)"
    have k: "ContiguousPrefixEnd cs ?A = int n - 1" by (simp add: n_def ContiguousPrefixEnd_length)
    obtain d where d: "w_dir W = None" "w_load W = None" "Dir_of (meta s) p = Some d" "Mode d \<noteq> ''rw''"
      using listing_Inr [OF l [unfolded Inr]] by blast
    note to = AdvanceBaselineTo_effect [OF d(1,2) d(3) [folded mt] d(4), unfolded mt]
    have "nat (int n - 1) = n - 1" by simp
    then have "advanceSeriesBaseline W p refs applied s =
        (if n = 0 then (Inr (), t) else AdvanceBaselineTo W p (SHA (cs ! (n - 1))) t)"
      using l Inr assms k by (simp add: advanceSeriesBaseline_def p_bind_def p_ret_def Let_def)
    moreover have "n \<le> length cs" unfolding n_def by (rule length_takeWhile_le)
    ultimately have "meta t = meta s \<and> (\<exists>n \<le> length cs. (\<forall>i<n. SHA (cs ! i) \<in> ?A) \<and> (n < length cs \<longrightarrow> SHA (cs ! n) \<notin> ?A) \<and>
        advanceSeriesBaseline W p refs applied s =
          (if n = 0 then (Inr (), t)
           else let m = set_baseline p (SHA (cs ! (n - 1))) (meta s) in
             case w_save W (calls t) of Some e \<Rightarrow> (Inl e, t)
             | None \<Rightarrow> (Inr (), t\<lparr>meta := m, calls := Saved m # calls t\<rparr>)))"
      using takeWhile_border [OF n_def] by (intro conjI mt exI [of _ n]) (auto simp: to mt Let_def)
    then show ?thesis unfolding l Inr by simp
  qed
qed

definition three_commits :: string where
  "three_commits = ''aa one'' @ [CHR 10] @ ''bb two'' @ [CHR 10] @ ''cc three'' @ [CHR 10]"

definition applied_one :: "string \<Rightarrow> AppliedCommit" where
  "applied_one sha = \<lparr>ac_Subject = [], SourceSHA = sha, HostSHA = []\<rparr>"

definition out_of_order :: "AppliedCommit list" where
  "out_of_order = [applied_one ''aa'', applied_one ''cc'']"

lemma three_listed: "fst (ListCommitsBeyondBaseline (always three_commits) ''/p'' one_dir) =
    Inr [\<lparr>SHA = ''aa'', Subject = ''one''\<rparr>, \<lparr>SHA = ''bb'', Subject = ''two''\<rparr>, \<lparr>SHA = ''cc'', Subject = ''three''\<rparr>]"
  by code_simp

lemma three_saved: "w_save (always three_commits) = (\<lambda>_. None)"
  by (simp add: always_def)

theorem selective_apply_keeps_the_rest_pending_witness:
  "meta (snd (advanceSeriesBaseline (always three_commits) ''/p'' [''aa'', ''cc''] out_of_order one_dir))
     = set_baseline ''/p'' ''aa'' (meta one_dir)"
proof -
  have A: "SourceSHA ` set out_of_order = {''aa'', ''cc''}" by (simp add: out_of_order_def applied_one_def)
  obtain cs t where l: "ListCommitsBeyondBaseline (always three_commits) ''/p'' one_dir = (Inr cs, t)"
    and h: "length cs = 3" "SHA (cs ! 0) = ''aa''" "SHA (cs ! 1) = ''bb''"
    using three_listed by (cases "ListCommitsBeyondBaseline (always three_commits) ''/p'' one_dir") simp
  have "[''aa'', ''cc''] \<noteq> []" by simp
  from selective_apply_keeps_the_rest_pending [OF this, where W = "always three_commits" and p = "''/p''" and s = one_dir and applied = out_of_order, unfolded l A]
  obtain n where n: "n \<le> length cs" "\<forall>i<n. SHA (cs ! i) \<in> {''aa'', ''cc''}" "n < length cs \<longrightarrow> SHA (cs ! n) \<notin> {''aa'', ''cc''}"
    and e: "advanceSeriesBaseline (always three_commits) ''/p'' [''aa'', ''cc''] out_of_order one_dir =
          (if n = 0 then (Inr (), t)
           else let m = set_baseline ''/p'' (SHA (cs ! (n - 1))) (meta one_dir) in
             case w_save (always three_commits) (calls t) of Some e \<Rightarrow> (Inl e, t)
             | None \<Rightarrow> (Inr (), t\<lparr>meta := m, calls := Saved m # calls t\<rparr>))" by auto
  have "n \<noteq> 0" using n(3) h by (cases n) simp_all
  moreover have "\<not> 1 < n" using n(2) h(3) by auto
  ultimately have "n = 1" by simp
  then show ?thesis unfolding e three_saved by (simp add: h(2) Let_def)
qed

section \<open>The user's stash\<close>

definition stash_args :: "string list" where
  "stash_args = [''stash'', ''push'', ''--include-untracked'', ''--message'', ''yoloai pre-apply'']"

definition pop_args :: "string list" where
  "pop_args = [''stash'', ''pop'']"

text \<open>No changes of the user were stashed without an attempt to restore them.\<close>

definition restored :: "cfworld \<Rightarrow> string \<Rightarrow> cf \<Rightarrow> bool" where
  "restored W t s \<longleftrightarrow> (\<forall>later earlier. calls s = later @ GitCall HostGit t None stash_args # earlier
     \<longrightarrow> is_ok (w_git W earlier (GitCall HostGit t None stash_args)) \<longrightarrow> GitCall HostGit t None pop_args \<in> set later)"

lemma restored_Cons:
  assumes "restored W t s" "c \<noteq> GitCall HostGit t None stash_args \<or> \<not> is_ok (w_git W (calls s) c)"
  shows "restored W t (s\<lparr>calls := c # calls s\<rparr>)"
  using assms unfolding restored_def by (auto simp: Cons_eq_append_conv)

lemma restored_pop: "restored W t (s\<lparr>calls := GitCall HostGit t None pop_args # calls s\<rparr>)"
  unfolding restored_def by (auto simp: Cons_eq_append_conv stash_args_def pop_args_def)

lemma restored_run [prog_keeps]:
  assumes "args \<noteq> stash_args"
  shows "pkeeps (restored W t) (Run (git_of W HostGit) d args)" "pkeeps (restored W t) (RunCmd (git_of W HostGit) d args)"
proof -
  show r: "pkeeps (restored W t) (Run (git_of W HostGit) d args)"
    using assms restored_Cons [of W t _ "GitCall HostGit d None args"]
    by (auto simp: pkeeps_def Run_def git_of_def Let_def)
  show "pkeeps (restored W t) (RunCmd (git_of W HostGit) d args)"
    unfolding RunCmd_def by (intro prog_keeps r)
qed

lemma restored_parts [prog_keeps]:
  "pkeeps (restored W t) (HeadSHA (git_of W HostGit) d)" "pkeeps (restored W t) (IsEmptyRepo (git_of W HostGit) d)"
  "pkeeps (restored W t) (buildSHAMap (git_of W HostGit) d tip shas)"
  unfolding HeadSHA_def IsEmptyRepo_def buildSHAMap_def
  by (intro prog_keeps; simp add: stash_args_def)+

lemma pop_restores:
  "triple P (RunCmd (git_of W HostGit) t [''stash'', ''pop'']) (\<lambda>_. restored W t) (\<lambda>_. restored W t)"
  using restored_pop [of W t]
  by (auto simp: triple_same RunCmd_def Run_def git_of_def Let_def p_seq_def p_bind_def p_maperr_def p_ret_def pop_args_def split: sum.splits)

lemma stash_owes:
  "triple (restored W t) (stashIfDirty (git_of W HostGit) t) (\<lambda>b s. b \<or> restored W t s) (\<lambda>_. restored W t)"
  unfolding stashIfDirty_def
proof (rule triple_keep_bind)
  show "pkeeps (restored W t) (p_ctx ''git status'' (Run (git_of W HostGit) t [''status'', ''--porcelain'']))"
    by (intro prog_keeps) (simp add: stash_args_def)
  fix out
  have "triple (restored W t) (Run (git_of W HostGit) t stash_args) (\<lambda>_ _. True) (\<lambda>_. restored W t)"
    by (rule tripleI) (auto simp: Run_def git_of_def Let_def intro!: restored_Cons)
  then show "triple (restored W t) (if TrimSpace out = [] then p_ret False
      else p_seq (p_maperr stash_error (Run (git_of W HostGit) t [''stash'', ''push'', ''--include-untracked'', ''--message'', ''yoloai pre-apply'']))
        (p_ret True)) (\<lambda>b s. b \<or> restored W t s) (\<lambda>_. restored W t)"
    unfolding stash_args_def by (auto intro!: triple_ret triple_seq [OF triple_maperr])
qed

text \<open>What follows the stash: the series is applied, and popped when something was stashed.\<close>

lemma after_stash:
  "triple (\<lambda>s. stashed \<or> restored W t s)
     (p_bind (p_try (Run (git_of W HostGit) t ([''am'', ''--3way''] @ map (Join d) names))) (\<lambda>am. case am of
        Inl amErr \<Rightarrow> p_seq (p_ignore (RunCmd (git_of W HostGit) t [''am'', ''--abort'']))
            (p_seq (p_when stashed (p_ignore (RunCmd (git_of W HostGit) t [''stash'', ''pop''])))
              (p_fail (formatAMError (stderr_of amErr) t)))
      | Inr _ \<Rightarrow> p_bind (buildSHAMap (git_of W HostGit) t preTip shas) (\<lambda>shaMap.
          if stashed then p_bind (p_try (RunCmd (git_of W HostGit) t [''stash'', ''pop''])) (\<lambda>pop. case pop of
              Inl e \<Rightarrow> p_ret (shaMap, Some (wrap ''restore stashed changes after apply'' e))
            | Inr _ \<Rightarrow> p_ret (shaMap, None))
          else p_ret (shaMap, None)))) (\<lambda>_. restored W t) (\<lambda>_. restored W t)"
proof (cases stashed)
  case False
  then have e: "stashed = False" by simp
  show ?thesis unfolding e
    by (rule triple_conseq [OF triple_keep [where I = "restored W t"]], (intro prog_keeps; simp add: stash_args_def), simp_all)
next
  case True
  have b: "triple (\<lambda>_. True) (buildSHAMap (git_of W HostGit) t preTip shas) (\<lambda>_ _. True) (\<lambda>_. restored W t)"
    by (rule tripleI) (auto simp: buildSHAMap_def p_bind_def p_try_def p_ret_def split: prod.splits sum.splits)
  have p: "triple (\<lambda>_. True) (p_bind (p_try (RunCmd (git_of W HostGit) t [''stash'', ''pop''])) (\<lambda>pop. case pop of
              Inl e \<Rightarrow> p_ret (shaMap, Some (wrap ''restore stashed changes after apply'' e))
            | Inr _ \<Rightarrow> p_ret (shaMap, None))) (\<lambda>_. restored W t) (\<lambda>_. restored W t)"
    for shaMap :: "(string \<rightharpoonup> string) option"
    by (rule triple_bind [OF triple_try [OF pop_restores]]) (auto split: sum.splits intro!: triple_ret)
  have f: "triple (\<lambda>_. True) (p_seq (p_ignore (RunCmd (git_of W HostGit) t [''am'', ''--abort'']))
            (p_seq (p_ignore (RunCmd (git_of W HostGit) t [''stash'', ''pop'']))
              (p_fail (formatAMError e t)))) (\<lambda>_. restored W t) (\<lambda>_. restored W t)" for e and x :: "(string \<rightharpoonup> string) option \<times> gerror option"
    by (rule triple_seq [OF triple_ignore [of "\<lambda>_. True"] triple_seq [OF triple_ignore [OF pop_restores]]])
      (auto simp: triple_same p_fail_def)
  have am: "triple (\<lambda>_. True) (p_try (Run (git_of W HostGit) t ([''am'', ''--3way''] @ map (Join d) names))) (\<lambda>_ _. True) (\<lambda>_. restored W t)"
    by (rule tripleI) (auto simp: p_try_def split: prod.splits)
  from True have e: "stashed = True" by simp
  have g: "triple (\<lambda>_. True) (p_bind (buildSHAMap (git_of W HostGit) t preTip shas) (\<lambda>shaMap.
      if True then p_bind (p_try (RunCmd (git_of W HostGit) t [''stash'', ''pop''])) (\<lambda>pop. case pop of
              Inl e \<Rightarrow> p_ret (shaMap, Some (wrap ''restore stashed changes after apply'' e))
            | Inr _ \<Rightarrow> p_ret (shaMap, None))
      else p_ret (shaMap, None))) (\<lambda>_. restored W t) (\<lambda>_. restored W t)"
    unfolding if_True by (rule triple_bind [OF b p])
  show ?thesis unfolding e p_when_simps
  proof (rule triple_conseq [OF triple_bind [OF am]])
    fix r :: "(gerror, string) result"
    show "triple (\<lambda>_. True) (case r of
        Inl amErr \<Rightarrow> p_seq (p_ignore (RunCmd (git_of W HostGit) t [''am'', ''--abort'']))
            (p_seq (p_ignore (RunCmd (git_of W HostGit) t [''stash'', ''pop'']))
              (p_fail (formatAMError (stderr_of amErr) t)))
      | Inr _ \<Rightarrow> p_bind (buildSHAMap (git_of W HostGit) t preTip shas) (\<lambda>shaMap.
          if True then p_bind (p_try (RunCmd (git_of W HostGit) t [''stash'', ''pop''])) (\<lambda>pop. case pop of
              Inl e \<Rightarrow> p_ret (shaMap, Some (wrap ''restore stashed changes after apply'' e))
            | Inr _ \<Rightarrow> p_ret (shaMap, None))
          else p_ret (shaMap, None))) (\<lambda>_. restored W t) (\<lambda>_. restored W t)"
    proof (cases r)
      case (Inl a)
      show ?thesis unfolding Inl sum.case by (rule f)
    next
      case (Inr a)
      show ?thesis unfolding Inr sum.case by (rule g)
    qed
  qed simp_all
qed

text \<open>
  C16: Uncommitted changes of the user come back. Whenever applying a series stashed them on the host, git was
  asked to restore them afterwards, whether the series applied, failed and was aborted, or its log could
  not be read. What git answers is arbitrary, as are the patch files.
\<close>

theorem stashed_changes_are_restored:
  assumes "calls s = []"
    and "calls (snd (ApplyFormatPatch (git_of W HostGit) (hostops_of W) d names t s)) = later @ GitCall HostGit t None stash_args # earlier"
    and "is_ok (w_git W earlier (GitCall HostGit t None stash_args))"
  shows "GitCall HostGit t None pop_args \<in> set later"
proof -
  have "triple (restored W t) (ApplyFormatPatch (git_of W HostGit) (hostops_of W) d names t) (\<lambda>_. restored W t) (\<lambda>_. restored W t)"
    unfolding ApplyFormatPatch_def
  proof (rule triple_cases(2))
    show "triple (restored W t) (p_ret (None, None)) (\<lambda>_. restored W t) (\<lambda>_. restored W t)" by (intro triple_keep prog_keeps)
    have st: "triple (restored W t) (if pre \<noteq> [] then p_ctx ''stash uncommitted changes'' (stashIfDirty (git_of W HostGit) t) else p_ret False)
        (\<lambda>b s. b \<or> restored W t s) (\<lambda>_. restored W t)" for pre :: string
      by (intro triple_cases triple_ctx stash_owes triple_ret) simp
    note rest = triple_bind [OF st after_stash]
    show "triple (restored W t) (p_bind (p_try (HeadSHA (git_of W HostGit) t)) (\<lambda>tip.
        p_bind (case tip of
            Inr sha \<Rightarrow> p_ret sha
          | Inl e \<Rightarrow> p_bind (IsEmptyRepo (git_of W HostGit) t) (\<lambda>empty. if \<not> empty then p_fail e else p_ret [])) (\<lambda>preTip.
        p_bind (extractSandboxSHAs (hostops_of W) d names) (\<lambda>sandboxSHAs.
        p_bind (if preTip \<noteq> [] then p_ctx ''stash uncommitted changes'' (stashIfDirty (git_of W HostGit) t) else p_ret False) (\<lambda>stashed.
        p_bind (p_try (Run (git_of W HostGit) t ([''am'', ''--3way''] @ map (Join d) names))) (\<lambda>am. case am of
            Inl amErr \<Rightarrow>
              p_seq (p_ignore (RunCmd (git_of W HostGit) t [''am'', ''--abort'']))
              (p_seq (p_when stashed (p_ignore (RunCmd (git_of W HostGit) t [''stash'', ''pop''])))
                (p_fail (formatAMError (stderr_of amErr) t)))
          | Inr _ \<Rightarrow>
              p_bind (buildSHAMap (git_of W HostGit) t preTip sandboxSHAs) (\<lambda>shaMap.
                if stashed then
                  p_bind (p_try (RunCmd (git_of W HostGit) t [''stash'', ''pop''])) (\<lambda>pop. case pop of
                      Inl e \<Rightarrow> p_ret (shaMap, Some (wrap ''restore stashed changes after apply'' e))
                    | Inr _ \<Rightarrow> p_ret (shaMap, None))
                else p_ret (shaMap, None))))))))
      (\<lambda>_. restored W t) (\<lambda>_. restored W t)"
      by (rule triple_keep_bind [OF _ triple_keep_bind [OF _ triple_keep_bind [OF _ rest]]]) (intro prog_keeps)+
  qed
  moreover have "restored W t s" using assms(1) by (simp add: restored_def)
  ultimately have "restored W t (snd (ApplyFormatPatch (git_of W HostGit) (hostops_of W) d names t s))"
    by (simp add: triple_same)
  with assms(2,3) show ?thesis unfolding restored_def by blast
qed

definition with_patch :: cf where
  "with_patch = one_dir\<lparr>patch_files := [(''/t/p'', ''From aa'')]\<rparr>"

lemma stash_run:
  "calls (snd (ApplyFormatPatch (git_of (always ''x'') HostGit) (hostops_of (always ''x'')) ''/t'' [''p''] ''/h'' with_patch)) =
     [GitCall HostGit ''/h'' None pop_args, GitCall HostGit ''/h'' None [''log'', ''--reverse'', ''--format=%H'', ''x..HEAD''],
      GitCall HostGit ''/h'' None [''am'', ''--3way'', ''/t/p'']] @ GitCall HostGit ''/h'' None stash_args #
     [GitCall HostGit ''/h'' None [''status'', ''--porcelain''], GitCall HostGit ''/h'' None [''rev-parse'', ''HEAD'']]"
  by code_simp

theorem stashed_changes_are_restored_witness:
  "GitCall HostGit ''/h'' None pop_args \<in> set [GitCall HostGit ''/h'' None pop_args,
      GitCall HostGit ''/h'' None [''log'', ''--reverse'', ''--format=%H'', ''x..HEAD''],
      GitCall HostGit ''/h'' None [''am'', ''--3way'', ''/t/p'']]"
proof -
  have "calls with_patch = []" by (simp add: with_patch_def one_dir_def)
  from stashed_changes_are_restored [OF this stash_run] show ?thesis by simp
qed

section \<open>What the code misses\<close>

text \<open>
  A sandbox whose agent commits while its changes are applied: the diff is taken at \<open>c1\<close>, and from the moment
  the patch reaches the host the sandbox is at \<open>c2\<close>.
\<close>

definition busy_agent :: cfworld where
  "busy_agent = (always ''patch'')\<lparr>w_git := (\<lambda>cs c. case c of
      GitCall SandboxGit _ _ args \<Rightarrow> if args = [''rev-parse'', ''HEAD'']
        then Inr (if list_ex landing cs then ''c2'' else ''c1'') else Inr ''patch''
    | _ \<Rightarrow> Inr [])\<rparr>"

text \<open>The baseline then is a commit whose changes were not in the patch, so they are pending no more.\<close>

lemma baseline_overtakes_the_patch:
  "fst (resolve_rev busy_agent ''head'' ''HEAD'' ''/w'' one_dir) = Inr ''c1''"
  "map_option BaselineSHA (Dir_of (meta (snd (ApplyAll busy_agent plain_apply one_dir))) ''/p'') = Some ''c2''"
  by code_simp+

text \<open>The newest commit is not listed when its message is empty, so a series of only that commit is nothing to apply.\<close>

lemma commit_without_subject_is_lost:
  "fst (ListCommitsBeyondBaseline (always (''aa one'' @ [CHR 10] @ ''bb '' @ [CHR 10])) ''/p'' one_dir) =
     Inr [\<lparr>SHA = ''aa'', Subject = ''one''\<rparr>]"
  "fst (ApplySeries (always (''bb '' @ [CHR 10])) plain_apply one_dir) = Inr (None, None)"
  by code_simp+

end
