(* ===== verification/Spec2Isabelle.thy ===== *)
theory Spec2Isabelle
  imports Names Encode SandboxLayout Environment Status Schema MigratePlan TierMigration
    AgentConfigs Listing Locking TailBuffer HostEnv DirSpec Profiles
    CreateDirs PrincipalRename OverlayFlatten
    LaunchSafety Invocation CopyTree CopyFlow
begin

text \<open>
  Verification of yoloai, a tool that runs coding agents in sandboxes and keeps the user's directories,
  records and configuration on the host.

  \<^bold>\<open>The program and its parts.\<close> A data directory (the realm) holds one directory per sandbox, the profiles, the
  configuration files, lock files and a schema stamp. Commands inspect sandboxes, change configuration,
  create and launch sandboxes and, after an upgrade, migrate the realm from one schema version to the next. The parts
  modelled here are those that decide what happens to the user's data and what the sandbox may see; they
  are pure Go code, file-system code that can be interrupted, and protocols between processes.

  \<^bold>\<open>Theories and sources\<close> (paths under \<open>src/\<close>).

  \<^item> \<open>Prelude\<close>: results of fallible functions, and the helpers of \<open>strings\<close> and \<open>strconv\<close> on bytes.
  \<^item> \<open>Names\<close>: \<open>internal/config/names.go\<close> and the instance names of \<open>store/paths.go\<close>. Regular expressions are
    automata, shown equal to their grammar; instance names are unambiguous and within the limits.
  \<^item> \<open>Encode\<close>: the caret encoding of host paths, \<open>internal/config/encode.go\<close>: a round trip into safe names.
  \<^item> \<open>SandboxLayout\<close>: \<open>sandbox_layout.go\<close>, \<open>sandbox_tier.go\<close> and \<open>pretier\<close>: every path builder agrees with the
    table that assigns entries to access tiers.
  \<^item> \<open>FaultIO\<close>, \<open>DirRules\<close>: a world of file trees and the calls on it. A schedule of verdicts decides for
    every call whether it succeeds, fails part way or is the last one before the process dies; a
    specification holds for all schedules. \<open>AtomicWriteFile\<close> of \<open>internal/fileutil\<close> is a program of it.
  \<^item> \<open>Promotion\<close>, \<open>PromotionSafety\<close>: \<open>internal/migrate/promote.go\<close>, the resumable replacement of a directory
    tree. The locale of its clients states what a build must guarantee; within it every run, interrupted
    anywhere, keeps the original, and an undisturbed run finishes. The resolution loop has the source's
    bound of 16 steps, and the liveness theorem shows that it is enough.
  \<^item> \<open>MigratePlan\<close>: \<open>plan.go\<close> and \<open>driver.go\<close>: plans, authorization and the driver that stops on drift.
  \<^item> \<open>TierMigration\<close>: \<open>internal/orchestrator/migrate_tier.go\<close> as a client of the promotion, from schema 5 to 6.
  \<^item> \<open>PrincipalRename\<close>: \<open>migrate_principal.go\<close>, from schema 4 to 5, over records, backend instances and the
    stamp, with a process that dies after any number of effects.
  \<^item> \<open>OverlayFlatten\<close>: \<open>migrate_overlay.go\<close>, from schema 3 to 4: choice, plan and decision, and the flattening onto the
    lower layers as the second client of the promotion.
  \<^item> \<open>RealmPass\<close>, \<open>AgentConfigs\<close>: \<open>migrate_agentcfg.go\<close> with the agent, network-policy and state records. The
    locale of a pass over all sandboxes gives its safety and completion from those of one step.
  \<^item> \<open>Schema\<close>: \<open>internal/config/schema.go\<close>: the stamp, the realm gate and the sealed ladder up to version 3.
  \<^item> \<open>Environment\<close>: \<open>store/environment.go\<close>: the sandbox record, its ladder, its atomic save and its load.
  \<^item> \<open>Status\<close>, \<open>Listing\<close>: \<open>internal/orchestrator/status\<close> and \<open>workprobe\<close>: status detection, change probes,
    inspection and both listings; panics are outcomes.
  \<^item> \<open>Locking\<close>: \<open>internal/locking/flock.go\<close> and \<open>store/lock_unix.go\<close> over inodes, descriptions and exclusive
    locks, and a step relation that interleaves the parts of \<open>AcquireWithFile\<close> and the calls of \<open>makeRelease\<close> of any
    number of processes. Acquisition retries the source's 30 times.
  \<^item> \<open>TailBuffer\<close>: \<open>internal/sysexec/tail.go\<close> refines the whole output.
  \<^item> \<open>HostEnv\<close>: \<open>internal/config/host_env.go\<close>, \<open>sysexec.go\<close> and \<open>pathutil.go\<close>: what of the host environment
    subprocesses and configuration files see.
  \<^item> \<open>DirSpec\<close>, \<open>CreateDirs\<close>: directory arguments, \<open>internal/workspace/safety.go\<close> and the validation of the
    directories of a new sandbox in \<open>create/prepare_dirs.go\<close>.
  \<^item> \<open>YamlNode\<close>, \<open>ConfigLoad\<close>, \<open>Profiles\<close>: \<open>yamlnode.go\<close>, \<open>config.go\<close>, \<open>profile.go\<close> and \<open>system_config.go\<close>:
    editing configuration files as trees, loading and merging configuration, and the chain of profiles.
  \<^item> \<open>Effects\<close>: programs with errors over an explicit state, for code that calls a backend, with the Go idioms
    of deferred cleanup and discarded errors, and a logic of triples, invariants and related runs.
  \<^item> \<open>BackendSelect\<close>: \<open>runtime/isolation.go\<close>, \<open>registry.go\<close>, \<open>probe.go\<close>, \<open>container_system.go\<close>, \<open>orphan.go\<close>: isolation
    modes, the registry, the choice of a backend and the ownership of instances.
  \<^item> \<open>AgentDefs\<close>: \<open>internal/agent\<close> and \<open>internal/orchestrator/envspec\<close>: the agent tables, hook injection, the
    codex patches, the shell agent and agents defined in files.
  \<^item> \<open>Injector\<close>: \<open>internal/credential\<close> and the proxy of \<open>internal/broker\<close>: what a request carries after the proxy.
  \<^item> \<open>Backend\<close>: the interface of \<open>runtime/runtime.go\<close> as a parameter that answers every call by a function of all
    calls before it, with a trace of the calls and the files below the sandbox directory as the state, and
    the process record of \<open>internal/broker/host.go\<close>.
  \<^item> \<open>HostFS\<close>: a host file system of files, directories and symbolic links, with the calls of \<open>os\<close> that resolve
    a path component by component; used by the next and by \<open>CopyTree\<close>.
  \<^item> \<open>EnvSetup\<close>: \<open>internal/envsetup/envsetup.go\<close> over that file system.
  \<^item> \<open>Mounts\<close>: \<open>internal/orchestrator/mounts/mounts.go\<close>. \<open>NetPolicy\<close>: \<open>internal/netpolicy\<close>.
  \<^item> \<open>Launch\<close>: \<open>internal/orchestrator/launch/launch.go\<close>: brokering, the instance configuration, both ways to start,
    the firewall sidecar, verification, rollback and the reconciliation of the injector. \<open>LaunchRel\<close> relates two
    runs of each operation, and \<open>LaunchSafety\<close> holds the theorems about a whole launch; a locale states when
    a predicate is an invariant of all calls but starting an instance.
  \<^item> \<open>Invocation\<close>: \<open>internal/orchestrator/invocation/invocation.go\<close> and \<open>launch/prefix.go\<close>: the command line of an
    agent and the words a shell finds in it.
  \<^item> \<open>CopyTree\<close>: \<open>internal/workspace\<close> (\<open>copy.go\<close>, \<open>copy_gitignore.go\<close>, \<open>projectfiles.go\<close>) and
    \<open>workcopy/workcopy.go\<close>: the copy of a project tree, filtered or pruned, over a tree with symbolic links whose
    operations follow them as the operating system does.
  \<^item> \<open>GitOps\<close>: \<open>internal/git\<close>: the sequences of git commands and what is made of their output. \<open>CopyFlow\<close>: the package
    \<open>copyflow\<close>: diffs, commits, patches, the baseline, applying and exporting.

  \<^bold>\<open>How the parts interact.\<close> The migrations read the layout and the records, ask the plan for authorization,
  and replace files through the promotion or the atomic write; the stamp is written last. Listing joins
  the records with status detection. Configuration commands write through the node engine what the
  loader reads; profiles are loaded with the same handlers and merged with the same operations. A launch
  resolves the credentials of the agent, hands them to the proxy or to the sandbox, computes mounts and
  configuration, and drives the backend; what it does is the trace of its calls.

  \<^bold>\<open>What the theorems show.\<close> Migrations never lose data under interruption and finish when left alone; the
  stamp is true; authorization is exact; names and encodings are injective; listings are complete unless a record panics; locks
  exclude each other as long as lock files stay, and none is lost; subprocesses do not see variables that look
  like credentials, but for the registry token of the Apple tool; configuration
  values are read back; chains of profiles always resolve; merging layers is associative and both
  implementations of it agree; the directory checks accept exactly what a separate description says;
  refreshing an agent's home stays in its two directories. A brokered launch does
  not depend on the value of the credential; the agent of an isolated sandbox starts only behind its
  firewall; a failed launch removes its instance; only what was asked for is mounted writable; the proxy
  forwards only authorised requests; settings patches are idempotent. A work copy has exactly the project's
  files and making it changes nothing else, as long as no tracked directory was replaced by a link or a file; the baseline moves only over work that reached the host; the
  user's stashed changes are restored. Some theorems show
  where the code falls short: an interrupted tier promotion that a later run strands, an interrupted
  flattening that is taken up under the set-aside name, a rename that gives
  an instance to another sandbox, lock-file removal that breaks exclusion, a listing that panics, settings
  that are accepted without effect, a start that writes through links planted by the guest, a proxy process
  that outlives a failed launch, a reset and a copy that write through links, a baseline that overtakes the patch.

  \<^bold>\<open>Choices.\<close> Strings are lists of bytes. Integers are unbounded where the source only counts and bounded by
  a range check where it parses. Loops that follow user data (the profile chain) are partial functions
  with a theorem that they return; all others are structural or have a termination proof. JSON and YAML
  codecs, git, symbolic links, the clock and the backends are parameters, with what is used of them as
  hypotheses that the examples discharge.

  Waiting for a time limit is a bounded number of rounds at the polling interval of the source, ended early
  by an answer of the world; the rounds cover the limit, so every wait returns.

  \<^bold>\<open>Not modelled.\<close> The implementations of the backends (docker, podman, containerd, tart, seatbelt, apple),
  because they are calls to daemons and hypervisors; the capture of a running overlay sandbox;
  attaching to a sandbox; the command-line front end and the MCP server; rendering,
  diagnostics and the scripts of the guest. Of the files modelled, permissions and ownership are left out.

  \<^bold>\<open>Plan.\<close> Next are starting, stopping and destroying sandboxes, the network commands, quarantine and pruning,
  and profile image builds.
\<close>

end
